(* ===== verification/Prelude.thy ===== *)
theory Prelude
  imports Main "HOL-Library.List_Lexorder" "HOL-Library.Char_ord" "HOL-Library.Product_Lexorder"
    "HOL-Library.Multiset"
begin

text \<open>
  What every component of the model shares: the error results of Go functions, 64-bit
  integers with their wrap-around, instants and durations of package \<open>time\<close>, the parts
  of \<open>strings\<close> the sources call, and \<open>sort.SliceStable\<close> with the contract of
  a comparator (locale \<open>stable_order\<close>).
  Strings and byte slices are lists of \<open>char\<close>, one per byte, as in Go.
\<close>

named_theorems go_simps \<open>unfolding rules of the library operations\<close>

section \<open>Results\<close>

text \<open>A Go function that returns \<open>(value, error)\<close> yields \<open>Inl\<close> the error or \<open>Inr\<close> the value.\<close>

fun bindE :: "'e + 'a \<Rightarrow> ('a \<Rightarrow> 'e + 'b) \<Rightarrow> 'e + 'b" where
  "bindE (Inl e) f = Inl e"
| "bindE (Inr a) f = f a"

definition guardE :: "bool \<Rightarrow> 'e \<Rightarrow> 'e + unit" where
  "guardE ok e = (if ok then Inr () else Inl e)"

lemma bindE_eq_Inr [simp]: "bindE r f = Inr b \<longleftrightarrow> (\<exists>a. r = Inr a \<and> f a = Inr b)"
  by (cases r) auto

lemma bindE_eq_Inl: "bindE r f = Inl e \<longleftrightarrow> r = Inl e \<or> (\<exists>a. r = Inr a \<and> f a = Inl e)"
  by (cases r) auto

lemma case_Inl_eq_Inr [simp]:
  "(case r of Inl e \<Rightarrow> Inl (g e) | Inr x \<Rightarrow> f x) = Inr y \<longleftrightarrow> (\<exists>x. r = Inr x \<and> f x = Inr y)"
  by (cases r) auto

lemma guardE_eq_Inr [simp]: "guardE ok e = Inr u \<longleftrightarrow> ok"
  by (cases u) (simp add: guardE_def)

lemma guardE_eq_Inl [simp]: "guardE ok e = Inl e' \<longleftrightarrow> \<not> ok \<and> e' = e"
  by (auto simp: guardE_def)

lemma guardE_True [simp]: "guardE True e = Inr ()"
  and guardE_False [simp]: "guardE False e = Inl e"
  by (simp_all add: guardE_def)

section \<open>64-bit integers\<close>

text \<open>
  \<open>int64\<close>, \<open>int\<close> and \<open>time.Duration\<close> values are integers; \<open>i64\<close> is the
  two's-complement wrap-around, written out wherever an operation can overflow.
\<close>

abbreviation min_int64 :: int where "min_int64 \<equiv> - 9223372036854775808"
abbreviation max_int64 :: int where "max_int64 \<equiv> 9223372036854775807"

definition in64 :: "int \<Rightarrow> bool" where
  "in64 x \<longleftrightarrow> min_int64 \<le> x \<and> x \<le> max_int64"

definition i64 :: "int \<Rightarrow> int" where
  "i64 x = (x + 9223372036854775808) mod 18446744073709551616 - 9223372036854775808"

lemma i64_id [simp]: "in64 x \<Longrightarrow> i64 x = x"
  by (simp add: i64_def in64_def)

lemma in64_i64 [simp]: "in64 (i64 x)"
proof -
  have "0 \<le> (x + 9223372036854775808) mod 18446744073709551616"
    and "(x + 9223372036854775808) mod 18446744073709551616 < 18446744073709551616"
    by simp_all
  then show ?thesis by (simp add: i64_def in64_def)
qed

text \<open>Go's \<open>/\<close> and \<open>%\<close> truncate towards zero.\<close>

definition go_div :: "int \<Rightarrow> int \<Rightarrow> int" where
  "go_div a b = sgn a * sgn b * (\<bar>a\<bar> div \<bar>b\<bar>)"

definition go_rem :: "int \<Rightarrow> int \<Rightarrow> int" where
  "go_rem a b = a - b * go_div a b"

lemma go_div_nonneg [simp]: "0 \<le> a \<Longrightarrow> 0 < b \<Longrightarrow> go_div a b = a div b"
  by (cases "a = 0") (simp_all add: go_div_def)

lemma go_rem_nonneg [simp]: "0 \<le> a \<Longrightarrow> 0 < b \<Longrightarrow> go_rem a b = a mod b"
  by (simp add: go_rem_def minus_mult_div_eq_mod)

section \<open>Time\<close>

text \<open>
  A \<open>time.Time\<close> is an instant, in nanoseconds since the zero value of the type (midnight
  UTC on 1 January of year 1), so \<open>IsZero\<close> is equality with 0; \<open>UTC\<close> keeps the instant.
  \<open>Before\<close>, \<open>After\<close> and \<open>Equal\<close> are the order of the instants, and \<open>Add\<close> adds a
  duration. \<open>Sub\<close> saturates at the ends of the \<open>int64\<close> range, and \<open>Unix\<close> counts whole
  seconds since 1970 (rounding down).
\<close>

type_synonym time = int
type_synonym duration = int

abbreviation millisecond :: duration where "millisecond \<equiv> 1000000"
abbreviation second :: duration where "second \<equiv> 1000000000"
abbreviation minute :: duration where "minute \<equiv> 60000000000"
abbreviation hour :: duration where "hour \<equiv> 3600000000000"

definition IsZero :: "time \<Rightarrow> bool" where "IsZero t \<longleftrightarrow> t = 0"

definition time_Sub :: "time \<Rightarrow> time \<Rightarrow> duration" where
  "time_Sub t u = max min_int64 (min max_int64 (t - u))"

definition unix_epoch :: int where "unix_epoch = 62135596800"

definition time_Unix :: "time \<Rightarrow> int" where
  "time_Unix t = t div second - unix_epoch"

definition Unix_time :: "int \<Rightarrow> time" where
  "Unix_time s = (s + unix_epoch) * second"

lemma IsZero_iff [simp]: "IsZero t \<longleftrightarrow> t = 0"
  by (simp add: IsZero_def)

lemma time_Unix_Unix_time [simp]: "time_Unix (Unix_time s) = s"
  by (simp add: time_Unix_def Unix_time_def)

text \<open>Reading an instant back from its Unix seconds loses less than a second.\<close>

lemma Unix_time_Unix_le: "Unix_time (time_Unix t) \<le> t"
  by (simp add: time_Unix_def Unix_time_def)

lemma Unix_time_Unix_gt: "t < Unix_time (time_Unix t) + second"
  by (simp add: time_Unix_def Unix_time_def)

end
