(* ===== verification/Domain.thy ===== *)
theory Domain
  imports Prelude
begin

text \<open>
  Package \<open>internal/domain\<close>: the connectivity states, the route selection rule and the
  life cycle of a transfer target. The string enumerations of the source are datatypes with
  one constructor per named constant and an \<open>Other\<close> constructor for every other string, since
  a value read from a request or a row need not be a constant.
\<close>

section \<open>Connectivity (connectivity.go)\<close>

datatype LocalChannelState = LocalOffline | LocalNodeOnly | LocalLANOnly | LocalLANAndNode

fun DetermineLocalChannelState :: "bool \<Rightarrow> bool \<Rightarrow> LocalChannelState" where
  "DetermineLocalChannelState lanAvailable nodeAvailable =
     (if lanAvailable \<and> nodeAvailable then LocalLANAndNode
      else if lanAvailable then LocalLANOnly
      else if nodeAvailable then LocalNodeOnly
      else LocalOffline)"

datatype TargetState = TargetUnavailable | TargetNode | TargetLAN | TargetLANAndNode

fun DetermineTargetState :: "bool \<Rightarrow> bool \<Rightarrow> TargetState" where
  "DetermineTargetState lanAvailable nodeAvailable =
     (if lanAvailable \<and> nodeAvailable then TargetLANAndNode
      else if lanAvailable then TargetLAN
      else if nodeAvailable then TargetNode
      else TargetUnavailable)"

text \<open>The two classifications lose nothing: the availabilities can be read back.\<close>

lemma DetermineLocalChannelState_inj:
  "DetermineLocalChannelState l n = DetermineLocalChannelState l' n' \<longleftrightarrow> l = l' \<and> n = n'"
  by auto

lemma DetermineTargetState_inj:
  "DetermineTargetState l n = DetermineTargetState l' n' \<longleftrightarrow> l = l' \<and> n = n'"
  by auto

section \<open>Route selection (route.go)\<close>

definition DefaultLargeFileThreshold :: int where
  "DefaultLargeFileThreshold = 100 * 1024 * 1024"

datatype RouteMode = RouteModeAutomatic | RouteModeLANOnly | RouteModeNodeOnly | RouteModeWaitLAN
  | RouteModeOther string

datatype SelectedRoute = SelectedRouteNone | SelectedRouteLAN | SelectedRouteNode
  | SelectedRouteWaitingLAN | SelectedRouteDraft | SelectedRouteMixed | SelectedRouteOther string

record RouteRequest =
  req_Mode :: RouteMode
  req_LANAvailable :: bool
  req_NodeAvailable :: bool
  req_TextContent :: bool
  req_FileSize :: int
  req_LargeFileThreshold :: int
  req_AllowLargeFileViaNode :: bool

definition route_threshold :: "RouteRequest \<Rightarrow> int" where
  "route_threshold r =
     (if req_LargeFileThreshold r \<le> 0 then DefaultLargeFileThreshold else req_LargeFileThreshold r)"

definition route_isLarge :: "RouteRequest \<Rightarrow> bool" where
  "route_isLarge r \<longleftrightarrow> \<not> req_TextContent r \<and> route_threshold r < req_FileSize r"

definition SelectRoute :: "RouteRequest \<Rightarrow> SelectedRoute" where
  "SelectRoute r =
     (case req_Mode r of
        RouteModeLANOnly \<Rightarrow>
          (if req_LANAvailable r then SelectedRouteLAN else SelectedRouteWaitingLAN)
      | RouteModeNodeOnly \<Rightarrow>
          (if \<not> req_NodeAvailable r \<or> (route_isLarge r \<and> \<not> req_AllowLargeFileViaNode r)
           then SelectedRouteNone else SelectedRouteNode)
      | RouteModeWaitLAN \<Rightarrow>
          (if req_LANAvailable r then SelectedRouteLAN else SelectedRouteWaitingLAN)
      | _ \<Rightarrow>
          (if req_LANAvailable r then SelectedRouteLAN
           else if req_NodeAvailable r
           then (if \<not> route_isLarge r \<or> req_AllowLargeFileViaNode r
                 then SelectedRouteNode else SelectedRouteWaitingLAN)
           else if route_isLarge r then SelectedRouteWaitingLAN
           else SelectedRouteDraft))"

text \<open>When each route is chosen, over all modes at once.\<close>

lemma SelectRoute_LAN_iff:
  "SelectRoute r = SelectedRouteLAN \<longleftrightarrow> req_LANAvailable r \<and> req_Mode r \<noteq> RouteModeNodeOnly"
  by (simp add: SelectRoute_def split: RouteMode.split)

lemma SelectRoute_Node_iff:
  "SelectRoute r = SelectedRouteNode \<longleftrightarrow>
     req_NodeAvailable r \<and> (\<not> route_isLarge r \<or> req_AllowLargeFileViaNode r) \<and>
     (req_Mode r = RouteModeNodeOnly \<or>
      \<not> req_LANAvailable r \<and> req_Mode r \<notin> {RouteModeLANOnly, RouteModeWaitLAN})"
  by (auto simp: SelectRoute_def split: RouteMode.split)

lemma SelectRoute_None_iff:
  "SelectRoute r = SelectedRouteNone \<longleftrightarrow>
     req_Mode r = RouteModeNodeOnly \<and>
     (\<not> req_NodeAvailable r \<or> route_isLarge r \<and> \<not> req_AllowLargeFileViaNode r)"
  by (auto simp: SelectRoute_def split: RouteMode.split)

lemma SelectRoute_Draft_iff:
  "SelectRoute r = SelectedRouteDraft \<longleftrightarrow>
     \<not> req_LANAvailable r \<and> \<not> req_NodeAvailable r \<and> \<not> route_isLarge r \<and>
     req_Mode r \<notin> {RouteModeLANOnly, RouteModeWaitLAN, RouteModeNodeOnly}"
  by (auto simp: SelectRoute_def split: RouteMode.split)

lemma SelectRoute_WaitingLAN_iff:
  "SelectRoute r = SelectedRouteWaitingLAN \<longleftrightarrow>
     \<not> req_LANAvailable r \<and>
     (req_Mode r \<in> {RouteModeLANOnly, RouteModeWaitLAN} \<or>
      req_Mode r \<noteq> RouteModeNodeOnly \<and> route_isLarge r \<and>
      \<not> (req_NodeAvailable r \<and> req_AllowLargeFileViaNode r))"
  by (auto simp: SelectRoute_def split: RouteMode.split)

lemma SelectRoute_range:
  "SelectRoute r \<in> {SelectedRouteNone, SelectedRouteLAN, SelectedRouteNode,
     SelectedRouteWaitingLAN, SelectedRouteDraft}"
  by (auto simp: SelectRoute_def split: RouteMode.split)

lemmas SelectRoute_iffs =
  SelectRoute_LAN_iff SelectRoute_Node_iff SelectRoute_None_iff SelectRoute_Draft_iff
  SelectRoute_WaitingLAN_iff

text \<open>
  C1. \<open>SelectRoute\<close> answers exactly one of five routes, and each exactly when the policy asks for
  it: LAN whenever a LAN path exists and the mode is not node-only; Node only for a reachable
  Node, never for a large file without permission, and (outside node-only mode) only without
  LAN; no route only in node-only mode; waiting for LAN when LAN is demanded, or for a large
  file the Node may not or cannot carry; a local draft only when nothing is reachable.
\<close>

theorem SelectRoute_policy:
  "(SelectRoute r = SelectedRouteLAN \<longleftrightarrow>
      req_LANAvailable r \<and> req_Mode r \<noteq> RouteModeNodeOnly) \<and>
   (SelectRoute r = SelectedRouteNode \<longleftrightarrow>
      req_NodeAvailable r \<and> \<not> (route_isLarge r \<and> \<not> req_AllowLargeFileViaNode r) \<and>
      req_Mode r \<notin> {RouteModeLANOnly, RouteModeWaitLAN} \<and>
      \<not> (req_Mode r \<noteq> RouteModeNodeOnly \<and> req_LANAvailable r)) \<and>
   (SelectRoute r = SelectedRouteNone \<longleftrightarrow>
      req_Mode r = RouteModeNodeOnly \<and>
      \<not> (req_NodeAvailable r \<and> \<not> (route_isLarge r \<and> \<not> req_AllowLargeFileViaNode r))) \<and>
   (SelectRoute r = SelectedRouteDraft \<longleftrightarrow>
      \<not> req_LANAvailable r \<and> \<not> req_NodeAvailable r \<and> \<not> route_isLarge r \<and>
      req_Mode r \<notin> {RouteModeLANOnly, RouteModeWaitLAN, RouteModeNodeOnly}) \<and>
   SelectRoute r \<in> {SelectedRouteNone, SelectedRouteLAN, SelectedRouteNode,
     SelectedRouteWaitingLAN, SelectedRouteDraft}"
proof (intro conjI)
  show "SelectRoute r \<in> {SelectedRouteNone, SelectedRouteLAN, SelectedRouteNode,
     SelectedRouteWaitingLAN, SelectedRouteDraft}" by (rule SelectRoute_range)
qed (auto simp: SelectRoute_iffs)

section \<open>Transfer status (transfer.go)\<close>

datatype TransferStatus =
    TransferCreated | TransferCheckingRoute | TransferWaitingForTarget | TransferWaitingForNode
  | TransferWaitingForLAN | TransferQueued | TransferUploadingToNode | TransferAvailableOnNode
  | TransferDownloading | TransferTransferringLAN | TransferPaused | TransferVerifying
  | TransferDelivered | TransferRead | TransferFailed | TransferCancelled | TransferExpired
  | TransferSourceFileMissing | TransferSourceFileChanged | TransferStatusOther string

definition terminalTransferStatuses :: "TransferStatus list" where
  "terminalTransferStatuses = [TransferRead, TransferFailed, TransferCancelled, TransferExpired]"

fun transferStatusTransitions :: "TransferStatus \<Rightarrow> TransferStatus list" where
  "transferStatusTransitions TransferCreated = [TransferCheckingRoute]"
| "transferStatusTransitions TransferCheckingRoute =
     [TransferTransferringLAN, TransferQueued, TransferWaitingForTarget,
      TransferWaitingForNode, TransferWaitingForLAN, TransferFailed, TransferCancelled]"
| "transferStatusTransitions TransferQueued =
     [TransferUploadingToNode, TransferCancelled, TransferExpired]"
| "transferStatusTransitions TransferUploadingToNode =
     [TransferAvailableOnNode, TransferPaused, TransferFailed, TransferCancelled]"
| "transferStatusTransitions TransferAvailableOnNode =
     [TransferDownloading, TransferExpired, TransferCancelled]"
| "transferStatusTransitions TransferTransferringLAN =
     [TransferVerifying, TransferPaused, TransferFailed, TransferCancelled]"
| "transferStatusTransitions TransferDownloading =
     [TransferVerifying, TransferPaused, TransferFailed, TransferCancelled]"
| "transferStatusTransitions TransferVerifying = [TransferDelivered, TransferFailed]"
| "transferStatusTransitions TransferDelivered = [TransferRead]"
| "transferStatusTransitions TransferWaitingForLAN =
     [TransferCheckingRoute, TransferSourceFileMissing, TransferSourceFileChanged,
      TransferPaused, TransferCancelled, TransferExpired]"
| "transferStatusTransitions TransferSourceFileMissing = [TransferCheckingRoute]"
| "transferStatusTransitions TransferSourceFileChanged = [TransferCheckingRoute]"
| "transferStatusTransitions _ = []"

definition IsTerminal :: "TransferStatus \<Rightarrow> bool" where
  "IsTerminal status \<longleftrightarrow> status \<in> set terminalTransferStatuses"

definition CanTransitionTo :: "TransferStatus \<Rightarrow> TransferStatus \<Rightarrow> bool" where
  "CanTransitionTo status next \<longleftrightarrow> next \<in> set (transferStatusTransitions status)"

lemma CanTransitionTo_iff: "CanTransitionTo s n \<longleftrightarrow> n \<in> set (transferStatusTransitions s)"
  by (simp add: CanTransitionTo_def)

text \<open>
  A life of a transfer target: the statuses reachable from \<open>Created\<close> along allowed
  transitions, together with the statuses passed on the way.
\<close>

inductive status_path :: "TransferStatus list \<Rightarrow> TransferStatus \<Rightarrow> bool" where
  created: "status_path [] TransferCreated"
| move: "status_path past s \<Longrightarrow> CanTransitionTo s n \<Longrightarrow> status_path (past @ [s]) n"

inductive_cases status_path_createdE: "status_path past TransferCreated"

text \<open>What must have happened before a status is reached.\<close>

fun status_history :: "TransferStatus \<Rightarrow> TransferStatus set \<Rightarrow> bool" where
  "status_history TransferCreated P \<longleftrightarrow> P = {}"
| "status_history TransferRead P \<longleftrightarrow>
     {TransferCreated, TransferCheckingRoute, TransferVerifying, TransferDelivered} \<subseteq> P \<and>
     P \<inter> {TransferTransferringLAN, TransferDownloading} \<noteq> {}"
| "status_history TransferDelivered P \<longleftrightarrow>
     {TransferCreated, TransferCheckingRoute, TransferVerifying} \<subseteq> P \<and>
     P \<inter> {TransferTransferringLAN, TransferDownloading} \<noteq> {}"
| "status_history TransferVerifying P \<longleftrightarrow>
     {TransferCreated, TransferCheckingRoute} \<subseteq> P \<and>
     P \<inter> {TransferTransferringLAN, TransferDownloading} \<noteq> {}"
| "status_history TransferDownloading P \<longleftrightarrow>
     {TransferCreated, TransferCheckingRoute, TransferQueued, TransferUploadingToNode,
      TransferAvailableOnNode} \<subseteq> P"
| "status_history TransferAvailableOnNode P \<longleftrightarrow>
     {TransferCreated, TransferCheckingRoute, TransferQueued, TransferUploadingToNode} \<subseteq> P"
| "status_history TransferUploadingToNode P \<longleftrightarrow>
     {TransferCreated, TransferCheckingRoute, TransferQueued} \<subseteq> P"
| "status_history TransferCheckingRoute P \<longleftrightarrow> TransferCreated \<in> P"
| "status_history _ P \<longleftrightarrow> {TransferCreated, TransferCheckingRoute} \<subseteq> P"

lemma status_history_step:
  "status_history s P \<Longrightarrow> CanTransitionTo s n \<Longrightarrow> status_history n (insert s P)"
  by (cases s) (auto simp: CanTransitionTo_def)

lemma status_path_history: "status_path past s \<Longrightarrow> status_history s (set past)"
  by (induction rule: status_path.induct) (auto dest: status_history_step)

text \<open>Downloads happen only after an upload, at any later point of the life as well.\<close>

lemma downloading_history:
  assumes "status_path past s"
  shows "TransferDownloading \<in> set past \<longrightarrow>
    {TransferQueued, TransferUploadingToNode, TransferAvailableOnNode} \<subseteq> set past"
  using assms
proof (induction rule: status_path.induct)
  case created
  show ?case by simp
next
  case (move past s n)
  then show ?case using status_path_history [OF move.hyps(1)] by (cases "s = TransferDownloading") auto
qed

text \<open>The statuses no allowed transition leaves.\<close>

lemma no_transition_iff:
  "(\<forall>n. \<not> CanTransitionTo s n) \<longleftrightarrow>
     IsTerminal s \<or> s \<in> {TransferPaused, TransferWaitingForTarget, TransferWaitingForNode} \<or>
     (\<exists>v. s = TransferStatusOther v)"
  by (cases s) (auto simp: CanTransitionTo_def IsTerminal_def terminalTransferStatuses_def)

lemma IsTerminal_stuck: "IsTerminal s \<Longrightarrow> \<not> CanTransitionTo s n"
  using no_transition_iff by blast

text \<open>
  Every proper status other than these can still be brought to an end: a terminal status is
  reachable from it by allowed transitions.
\<close>

definition can_end :: "TransferStatus \<Rightarrow> bool" where
  "can_end s \<longleftrightarrow> (\<exists>e. IsTerminal e \<and> CanTransitionTo\<^sup>*\<^sup>* s e)"

lemma can_end_terminal: "IsTerminal s \<Longrightarrow> can_end s"
  unfolding can_end_def by blast

lemma can_end_step: "CanTransitionTo s n \<Longrightarrow> can_end n \<Longrightarrow> can_end s"
  unfolding can_end_def by (meson converse_rtranclp_into_rtranclp)

lemma can_end_via:
  assumes "CanTransitionTo s n" and "IsTerminal n"
  shows "can_end s"
  using assms can_end_step can_end_terminal by blast

lemma can_end_CheckingRoute: "can_end TransferCheckingRoute"
  by (rule can_end_via [of _ TransferFailed])
     (simp_all add: CanTransitionTo_def IsTerminal_def terminalTransferStatuses_def)

lemma can_end_Delivered: "can_end TransferDelivered"
  by (rule can_end_via [of _ TransferRead])
     (simp_all add: CanTransitionTo_def IsTerminal_def terminalTransferStatuses_def)

lemma can_end_others:
  assumes "s \<in> {TransferQueued, TransferUploadingToNode, TransferAvailableOnNode,
    TransferTransferringLAN, TransferDownloading, TransferWaitingForLAN}"
  shows "can_end s"
  by (rule can_end_via [of _ TransferCancelled])
     (use assms in \<open>auto simp: CanTransitionTo_def IsTerminal_def terminalTransferStatuses_def\<close>)

lemma can_end_Verifying: "can_end TransferVerifying"
  by (rule can_end_via [of _ TransferFailed])
     (simp_all add: CanTransitionTo_def IsTerminal_def terminalTransferStatuses_def)

lemma can_end_sources:
  "s \<in> {TransferCreated, TransferSourceFileMissing, TransferSourceFileChanged} \<Longrightarrow> can_end s"
  by (rule can_end_step [OF _ can_end_CheckingRoute]) (auto simp: CanTransitionTo_def)

lemmas can_end_intros = can_end_CheckingRoute can_end_Delivered can_end_Verifying
  can_end_others can_end_sources can_end_terminal

lemma stuck_cannot_end:
  assumes "\<forall>n. \<not> CanTransitionTo s n" and "\<not> IsTerminal s"
  shows "\<not> can_end s"
proof
  assume "can_end s"
  then obtain e where e: "IsTerminal e" "CanTransitionTo\<^sup>*\<^sup>* s e" by (auto simp: can_end_def)
  from e(2) assms(1) have "e = s" by (cases rule: converse_rtranclpE) auto
  with e(1) assms(2) show False by simp
qed

lemma can_end_iff:
  "can_end s \<longleftrightarrow>
     s \<notin> {TransferPaused, TransferWaitingForTarget, TransferWaitingForNode} \<and>
     (\<forall>v. s \<noteq> TransferStatusOther v)"
proof (cases "s \<in> {TransferPaused, TransferWaitingForTarget, TransferWaitingForNode} \<or>
     (\<exists>v. s = TransferStatusOther v)")
  case True
  then have "\<not> IsTerminal s" and "\<forall>n. \<not> CanTransitionTo s n"
    unfolding no_transition_iff by (auto simp: IsTerminal_def terminalTransferStatuses_def)
  then have "\<not> can_end s" by (rule stuck_cannot_end [rotated])
  with True show ?thesis by auto
next
  case False
  then have "can_end s"
    by (cases s) (auto intro: can_end_intros
        simp: IsTerminal_def terminalTransferStatuses_def)
  with False show ?thesis by auto
qed

text \<open>
  The table of transitions itself: every path of allowed transitions from \<open>Created\<close> to \<open>Delivered\<close>
  passes verification, and before it a transfer over LAN or a download from the Node, which lies
  behind queueing, an upload to the Node and the availability there. (Operations that leave
  the table aside are the subject of \<open>TargetLife\<close>.)
\<close>

theorem delivered_only_after_verification:
  assumes "status_path past TransferDelivered"
  shows "TransferVerifying \<in> set past \<and>
    (TransferTransferringLAN \<in> set past \<or>
     {TransferQueued, TransferUploadingToNode, TransferAvailableOnNode, TransferDownloading}
       \<subseteq> set past)"
proof -
  have "TransferDownloading \<in> set past \<longrightarrow>
    {TransferQueued, TransferUploadingToNode, TransferAvailableOnNode} \<subseteq> set past"
    using assms by (rule downloading_history)
  with status_path_history [OF assms] show ?thesis by auto
qed

theorem delivered_only_after_verification_witness:
  "let past = [TransferCreated, TransferCheckingRoute, TransferTransferringLAN, TransferVerifying]
   in status_path past TransferDelivered \<and> TransferVerifying \<in> set past"
proof -
  have "status_path ([] @ [TransferCreated]) TransferCheckingRoute"
    by (rule move [OF created]) (simp add: CanTransitionTo_def)
  then have "status_path (([] @ [TransferCreated]) @ [TransferCheckingRoute]) TransferTransferringLAN"
    by (rule move) (simp add: CanTransitionTo_def)
  then have "status_path ((([] @ [TransferCreated]) @ [TransferCheckingRoute]) @
      [TransferTransferringLAN]) TransferVerifying"
    by (rule move) (simp add: CanTransitionTo_def)
  then have "status_path (((([] @ [TransferCreated]) @ [TransferCheckingRoute]) @
      [TransferTransferringLAN]) @ [TransferVerifying]) TransferDelivered"
    by (rule move) (simp add: CanTransitionTo_def)
  then have path: "status_path [TransferCreated, TransferCheckingRoute, TransferTransferringLAN,
      TransferVerifying] TransferDelivered" by simp
  with delivered_only_after_verification [OF path] show ?thesis by simp
qed

text \<open>
  From every status except three a terminal status can still be reached by allowed
  transitions; a target that is paused, waiting for its device or waiting for the Node is stuck:
  no transition leaves these statuses, although they are not terminal.
\<close>

theorem can_end_except_stuck:
  "can_end s \<longleftrightarrow>
     s \<notin> {TransferPaused, TransferWaitingForTarget, TransferWaitingForNode} \<and>
     (\<nexists>v. s = TransferStatusOther v)"
  using can_end_iff by blast

end
