(* ===== verification/Adaptive.thy ===== *)
theory Adaptive
  imports Complex_Main Prelude
begin

text \<open>
  Package \<open>internal/adaptive\<close>: the transfer profile (chunk size and number of parallel
  chunks) recommended from observed network conditions. Sizes and counts are integers with the
  64-bit wrap-around written out; floating-point observations are compared with constants only,
  so a float is a value of \<open>float64\<close> and the constants are their exact binary values. The
  loops of \<open>bounded\<close> are partial functions: not returning is the value None.
\<close>

section \<open>Floating-point comparisons\<close>

datatype float64 = FNaN | FNegInf | FFin rat | FPosInf

fun flt :: "float64 \<Rightarrow> float64 \<Rightarrow> bool" where
  "flt FNaN _ = False"
| "flt _ FNaN = False"
| "flt (FFin x) (FFin y) = (x < y)"
| "flt FNegInf y = (y \<noteq> FNegInf)"
| "flt _ FNegInf = False"
| "flt x FPosInf = (x \<noteq> FPosInf)"
| "flt FPosInf _ = False"

definition fle :: "float64 \<Rightarrow> float64 \<Rightarrow> bool" where
  "fle x y \<longleftrightarrow> x \<noteq> FNaN \<and> y \<noteq> FNaN \<and> \<not> flt y x"

text \<open>The doubles nearest to 0.05, 0.02 and 0.01.\<close>

definition f_0_05 :: float64 where "f_0_05 = FFin (3602879701896397 / 72057594037927936)"
definition f_0_02 :: float64 where "f_0_02 = FFin (5764607523034235 / 288230376151711744)"
definition f_0_01 :: float64 where "f_0_01 = FFin (5764607523034235 / 576460752303423488)"

section \<open>Limits and profiles (profile.go)\<close>

definition DefaultMinChunkSize :: int where "DefaultMinChunkSize = 1 * 1024 * 1024"
definition DefaultMaxChunkSize :: int where "DefaultMaxChunkSize = 32 * 1024 * 1024"

record Limits =
  MinChunkSize :: int
  MaxChunkSize :: int
  MaxParallelChunks :: int
  MemoryBudget :: int

definition normalized :: "Limits \<Rightarrow> Limits" where
  "normalized l0 =
     (let l1 = (if MinChunkSize l0 \<le> 0 then l0\<lparr>MinChunkSize := DefaultMinChunkSize\<rparr> else l0);
          l2 = (if MaxChunkSize l1 < MinChunkSize l1 then l1\<lparr>MaxChunkSize := DefaultMaxChunkSize\<rparr> else l1);
          l3 = (if MaxParallelChunks l2 < 1 then l2\<lparr>MaxParallelChunks := 1\<rparr> else l2)
      in if MemoryBudget l3 < i64 (MinChunkSize l3 * 2)
         then l3\<lparr>MemoryBudget := i64 (MinChunkSize l3 * 2)\<rparr> else l3)"

record Profile =
  ChunkSize :: int
  ParallelChunks :: int

record Observation =
  RTT :: duration
  ThroughputBPS :: float64
  RetryRate :: float64
  ChecksumFailureRate :: float64
  Backpressure :: bool
  StoragePressure :: bool
  ThermalPressure :: bool
  LowBattery :: bool
  Background :: bool

text \<open>The two loops of \<open>bounded\<close>.\<close>

partial_function (option) reduce_parallel :: "int \<Rightarrow> int \<Rightarrow> int \<Rightarrow> int option" where
  "reduce_parallel budget chunk parallel =
     (if budget < i64 (chunk * parallel) \<and> 1 < parallel
      then reduce_parallel budget chunk (parallel - 1) else Some parallel)"

partial_function (option) reduce_chunk :: "int \<Rightarrow> int \<Rightarrow> int \<Rightarrow> int \<Rightarrow> int option" where
  "reduce_chunk budget least parallel chunk =
     (if budget < i64 (chunk * parallel) \<and> least < chunk
      then reduce_chunk budget least parallel (max least (go_div chunk 2)) else Some chunk)"

definition bounded :: "Profile \<Rightarrow> Limits \<Rightarrow> Profile option" where
  "bounded profile limits =
     (let chunk = max (MinChunkSize limits) (min (MaxChunkSize limits) (ChunkSize profile));
          parallel = max 1 (min (MaxParallelChunks limits) (ParallelChunks profile))
      in case reduce_parallel (MemoryBudget limits) chunk parallel of
           None \<Rightarrow> None
         | Some parallel' \<Rightarrow>
             (case reduce_chunk (MemoryBudget limits) (MinChunkSize limits) parallel' chunk of
                None \<Rightarrow> None
              | Some chunk' \<Rightarrow> Some \<lparr>ChunkSize = chunk', ParallelChunks = parallel'\<rparr>))"

definition Initial :: "Limits \<Rightarrow> Profile option" where
  "Initial limits0 =
     (let limits = normalized limits0
      in bounded \<lparr>ChunkSize = max (MinChunkSize limits) (4*1024*1024),
                   ParallelChunks = min 2 (MaxParallelChunks limits)\<rparr> limits)"

definition unstable :: "Observation \<Rightarrow> bool" where
  "unstable ob \<longleftrightarrow> 250 * millisecond \<le> RTT ob \<or> fle f_0_05 (RetryRate ob) \<or>
     flt (FFin 0) (ChecksumFailureRate ob)"

definition constrained :: "Observation \<Rightarrow> bool" where
  "constrained ob \<longleftrightarrow> Backpressure ob \<or> StoragePressure ob \<or> ThermalPressure ob \<or>
     LowBattery ob \<or> Background ob"

definition adjusted :: "Profile \<Rightarrow> Limits \<Rightarrow> Observation \<Rightarrow> Profile" where
  "adjusted p limits ob =
     (if unstable ob then
        p\<lparr>ChunkSize := max (MinChunkSize limits) (go_div (ChunkSize p) 2),
          ParallelChunks := max 1 (ParallelChunks p - 1)\<rparr>
      else if constrained ob then
        p\<lparr>ChunkSize := max (MinChunkSize limits) (min (ChunkSize p) (4*1024*1024)),
          ParallelChunks := 1\<rparr>
      else if RTT ob \<le> 30 * millisecond \<and> fle (FFin (50*1024*1024)) (ThroughputBPS ob) \<and>
              flt (RetryRate ob) f_0_01 then
        p\<lparr>ChunkSize := min (MaxChunkSize limits) (i64 (ChunkSize p * 2)),
          ParallelChunks := min (MaxParallelChunks limits) (i64 (ParallelChunks p + 1))\<rparr>
      else if RTT ob \<le> 120 * millisecond \<and> fle (FFin (8*1024*1024)) (ThroughputBPS ob) \<and>
              flt (RetryRate ob) f_0_02 then
        p\<lparr>ChunkSize := min (MaxChunkSize limits) (max (ChunkSize p) (8*1024*1024))\<rparr>
      else p)"

definition small_file :: "int \<Rightarrow> Limits \<Rightarrow> Profile \<Rightarrow> Profile" where
  "small_file fileSize limits p =
     (if 0 < fileSize \<and> fileSize \<le> i64 (4 * MinChunkSize limits)
      then p\<lparr>ParallelChunks := 1,
             ChunkSize := min (ChunkSize p) (max (MinChunkSize limits) fileSize)\<rparr>
      else p)"

definition Recommend :: "int \<Rightarrow> Profile \<Rightarrow> Limits \<Rightarrow> Observation \<Rightarrow> Profile option" where
  "Recommend fileSize current limits0 ob =
     (let limits = normalized limits0
      in case (if ChunkSize current \<le> 0 \<or> ParallelChunks current \<le> 0
               then Initial limits else Some current) of
           None \<Rightarrow> None
         | Some profile \<Rightarrow>
             bounded (small_file fileSize limits (adjusted profile limits ob)) limits)"

definition SafeBoundary :: "int \<Rightarrow> bool" where
  "SafeBoundary completedChunkIndex \<longleftrightarrow> -1 \<le> completedChunkIndex"

section \<open>Normalised limits\<close>

text \<open>What the loops need: positive sizes and products that do not overflow.\<close>

definition sane :: "Limits \<Rightarrow> bool" where
  "sane l \<longleftrightarrow> 1 \<le> MinChunkSize l \<and> 1 \<le> MaxParallelChunks l \<and>
     MinChunkSize l * 2 \<le> MemoryBudget l \<and>
     max (MinChunkSize l) (MaxChunkSize l) * MaxParallelChunks l \<le> max_int64"

lemma normalized_fields:
  "MinChunkSize (normalized l) = (if MinChunkSize l \<le> 0 then DefaultMinChunkSize else MinChunkSize l)"
  "MaxParallelChunks (normalized l) = max 1 (MaxParallelChunks l)"
  "MemoryBudget (normalized l) =
     max (MemoryBudget l) (i64 (MinChunkSize (normalized l) * 2))"
  by (auto simp: normalized_def Let_def)

lemma normalized_MaxChunkSize:
  "MaxChunkSize (normalized l) =
     (if MaxChunkSize l < MinChunkSize (normalized l) then DefaultMaxChunkSize else MaxChunkSize l)"
  by (auto simp: normalized_def Let_def)

lemma normalized_idem [simp]: "normalized (normalized l) = normalized l"
  by (rule Limits.equality)
     (auto simp: normalized_fields normalized_MaxChunkSize DefaultMinChunkSize_def)

text \<open>Arguments of ordinary size: no product in \<open>normalized\<close> or \<open>bounded\<close> wraps.\<close>

definition moderate :: "Limits \<Rightarrow> bool" where
  "moderate l \<longleftrightarrow>
     MinChunkSize (normalized l) * 2 \<le> max_int64 \<and>
     max (MinChunkSize (normalized l)) (MaxChunkSize (normalized l)) *
       MaxParallelChunks (normalized l) \<le> max_int64"

lemma sane_normalized: "moderate l \<Longrightarrow> sane (normalized l)"
  by (auto simp: moderate_def sane_def normalized_fields DefaultMinChunkSize_def in64_def)

section \<open>The loops\<close>

lemma reduce_parallel_spec:
  assumes "1 \<le> p"
  shows "\<exists>p'. reduce_parallel budget c p = Some p' \<and> 1 \<le> p' \<and> p' \<le> p \<and>
    (p' = 1 \<or> i64 (c * p') \<le> budget)"
  using assms
proof (induction "nat p" arbitrary: p rule: less_induct)
  case less
  show ?case
  proof (cases "budget < i64 (c * p) \<and> 1 < p")
    case True
    with less(1) [of "p - 1"] obtain p' where
      "reduce_parallel budget c (p - 1) = Some p'" "1 \<le> p'" "p' \<le> p - 1"
      "p' = 1 \<or> i64 (c * p') \<le> budget"
      by auto
    with True show ?thesis by (subst reduce_parallel.simps) auto
  next
    case False
    with less(2) show ?thesis by (subst reduce_parallel.simps) auto
  qed
qed

lemma reduce_chunk_spec:
  assumes "1 \<le> least" and "least \<le> c"
  shows "\<exists>c'. reduce_chunk budget least p c = Some c' \<and> least \<le> c' \<and> c' \<le> c \<and>
    (c' = least \<or> i64 (c' * p) \<le> budget)"
  using assms(2)
proof (induction "nat c" arbitrary: c rule: less_induct)
  case less
  let ?h = "max least (go_div c 2)"
  show ?case
  proof (cases "budget < i64 (c * p) \<and> least < c")
    case True
    with assms(1) have "go_div c 2 < c" and "least \<le> ?h" and "?h < c" by auto
    with less(1) [of ?h] assms(1) True obtain c' where
      "reduce_chunk budget least p ?h = Some c'" "least \<le> c'" "c' \<le> ?h"
      "c' = least \<or> i64 (c' * p) \<le> budget"
      by auto
    with True \<open>?h < c\<close> show ?thesis by (subst reduce_chunk.simps) auto
  next
    case False
    with less(2) show ?thesis by (subst reduce_chunk.simps) auto
  qed
qed

text \<open>What a profile must satisfy to be used with the given limits.\<close>

definition fits :: "Limits \<Rightarrow> Profile \<Rightarrow> bool" where
  "fits l p \<longleftrightarrow>
     MinChunkSize l \<le> ChunkSize p \<and> ChunkSize p \<le> max (MinChunkSize l) (MaxChunkSize l) \<and>
     1 \<le> ParallelChunks p \<and> ParallelChunks p \<le> MaxParallelChunks l \<and>
     ChunkSize p * ParallelChunks p \<le> MemoryBudget l"

lemma product_in64:
  fixes c p :: int
  assumes "1 \<le> c" "1 \<le> p" "c \<le> m" "p \<le> n" "m * n \<le> max_int64"
  shows "in64 (c * p)"
proof -
  have "c * p \<le> m * n" using assms by (intro mult_mono) auto
  moreover have "0 \<le> c * p" using assms by simp
  ultimately show ?thesis using assms(5) by (simp add: in64_def)
qed

lemma bounded_spec:
  assumes "sane l"
  shows "\<exists>q. bounded p l = Some q \<and> fits l q \<and>
    ChunkSize q \<le> max (MinChunkSize l) (ChunkSize p) \<and>
    ParallelChunks q \<le> max 1 (ParallelChunks p)"
proof -
  let ?c = "max (MinChunkSize l) (min (MaxChunkSize l) (ChunkSize p))"
  let ?p = "max 1 (min (MaxParallelChunks l) (ParallelChunks p))"
  let ?m = "max (MinChunkSize l) (MaxChunkSize l)"
  from assms have least: "1 \<le> MinChunkSize l" and par: "1 \<le> MaxParallelChunks l"
    and budget: "MinChunkSize l * 2 \<le> MemoryBudget l"
    and prod: "?m * MaxParallelChunks l \<le> max_int64"
    by (auto simp: sane_def)
  obtain p' where p': "reduce_parallel (MemoryBudget l) ?c ?p = Some p'" "1 \<le> p'" "p' \<le> ?p"
      "p' = 1 \<or> i64 (?c * p') \<le> MemoryBudget l"
    using reduce_parallel_spec [of ?p] by auto
  obtain c' where c': "reduce_chunk (MemoryBudget l) (MinChunkSize l) p' ?c = Some c'"
      "MinChunkSize l \<le> c'" "c' \<le> ?c" "c' = MinChunkSize l \<or> i64 (c' * p') \<le> MemoryBudget l"
    using reduce_chunk_spec [OF least] by (meson max.cobounded1)
  have small: "in64 (c * p')" if "1 \<le> c" "c \<le> ?c" for c
    using that p' par prod by (intro product_in64 [of c p' ?m "MaxParallelChunks l"]) auto
  have "c' * p' \<le> MemoryBudget l"
  proof (cases "i64 (c' * p') \<le> MemoryBudget l")
    case True
    with small [of c'] c' least show ?thesis by simp
  next
    case False
    with c'(4) have c: "c' = MinChunkSize l" by simp
    show ?thesis
    proof (cases "p' = 1")
      case True
      with c budget least show ?thesis by simp
    next
      case False
      with p'(4) small [of ?c] least have "?c * p' \<le> MemoryBudget l" by simp
      moreover have "c' * p' \<le> ?c * p'" using c'(3) p'(2) by (intro mult_right_mono) auto
      ultimately show ?thesis by simp
    qed
  qed
  with p' c' par show ?thesis by (auto simp: bounded_def fits_def Let_def)
qed

lemma Initial_spec: "moderate l \<Longrightarrow> \<exists>q. Initial l = Some q \<and> fits (normalized l) q"
  unfolding Initial_def Let_def using bounded_spec sane_normalized by blast

lemma Recommend_start:
  assumes "moderate l"
  obtains p where "(if ChunkSize current \<le> 0 \<or> ParallelChunks current \<le> 0
      then Initial (normalized l) else Some current) = Some p"
    and "1 \<le> ChunkSize p" and "1 \<le> ParallelChunks p"
    and "\<not> (ChunkSize current \<le> 0 \<or> ParallelChunks current \<le> 0) \<longrightarrow> p = current"
proof (cases "ChunkSize current \<le> 0 \<or> ParallelChunks current \<le> 0")
  case True
  from assms have "moderate (normalized l)" by (simp add: moderate_def)
  from Initial_spec [OF this] obtain q where "Initial (normalized l) = Some q"
    "fits (normalized l) q" by auto
  moreover have "1 \<le> MinChunkSize (normalized l)"
    using sane_normalized [OF assms] by (simp add: sane_def)
  ultimately show ?thesis using True that [of q] by (auto simp: fits_def)
qed (use that in auto)

lemma Recommend_unfold:
  assumes "(if ChunkSize current \<le> 0 \<or> ParallelChunks current \<le> 0
      then Initial (normalized l) else Some current) = Some p"
  shows "Recommend fileSize current l ob =
    bounded (small_file fileSize (normalized l) (adjusted p (normalized l) ob)) (normalized l)"
  unfolding Recommend_def Let_def assms by simp

lemma bounded_one_stream:
  assumes "bounded p l = Some q" and "sane l" and "ParallelChunks p \<le> 1"
  shows "ParallelChunks q = 1"
  using bounded_spec [OF assms(2), of p] assms(1,3) by (auto simp: fits_def)

lemma small_file_one_stream:
  assumes "0 < fileSize" and "fileSize \<le> 4 * MinChunkSize limits"
    and "4 * MinChunkSize limits \<le> max_int64"
  shows "ParallelChunks (small_file fileSize limits p) = 1"
  using assms by (simp add: small_file_def in64_def)

text \<open>
  C3. For limits of ordinary size (no 64-bit product wraps), whatever the current profile, the
  file size and the observation (any float, NaN included), \<open>Recommend\<close> returns: both its loops
  end. In terms of the limits the caller gave, with the least chunk size taken as 1 MiB when it
  is not positive: the chunk size of the profile is at least the least one; it is at most the
  caller's maximum when that is not below the least size, and otherwise at most 32 MiB or the
  least size, whichever is larger. There is at least one parallel chunk and at most the allowed
  number (one, when the caller allows none). All chunks in flight together take at most the
  caller's memory budget or two chunks of the least size, whichever is larger. And a non-empty
  file of at most four least chunks is sent as a single stream.
\<close>

theorem Recommend_within_limits:
  assumes "moderate l"
  shows "\<exists>q. Recommend fileSize current l ob = Some q \<and>
    (let least = (if MinChunkSize l \<le> 0 then 1048576 else MinChunkSize l)
     in least \<le> ChunkSize q \<and>
        (least \<le> MaxChunkSize l \<longrightarrow> ChunkSize q \<le> MaxChunkSize l) \<and>
        (MaxChunkSize l < least \<longrightarrow> ChunkSize q \<le> max least 33554432) \<and>
        1 \<le> ParallelChunks q \<and> ParallelChunks q \<le> max 1 (MaxParallelChunks l) \<and>
        ChunkSize q * ParallelChunks q \<le> max (MemoryBudget l) (2 * least) \<and>
        (0 < fileSize \<and> fileSize \<le> 4 * least \<and> 4 * least \<le> max_int64 \<longrightarrow>
           ParallelChunks q = 1))"
proof -
  let ?l = "normalized l"
  note sane = sane_normalized [OF assms]
  obtain p where "(if ChunkSize current \<le> 0 \<or> ParallelChunks current \<le> 0
      then Initial (normalized l) else Some current) = Some p"
    using Recommend_start [OF assms] by metis
  note unfold = Recommend_unfold [OF this, of fileSize ob]
  obtain q where q: "bounded (small_file fileSize ?l (adjusted p ?l ob)) ?l = Some q"
    and fits: "fits ?l q"
    using bounded_spec [OF sane] by metis
  have single: "ParallelChunks q = 1"
    if "0 < fileSize" "fileSize \<le> 4 * MinChunkSize ?l" "4 * MinChunkSize ?l \<le> max_int64"
    by (rule bounded_one_stream [OF q sane]) (simp add: small_file_one_stream [OF that])
  have min: "MinChunkSize ?l = (if MinChunkSize l \<le> 0 then 1048576 else MinChunkSize l)"
    by (simp add: normalized_fields DefaultMinChunkSize_def)
  have max: "MaxChunkSize ?l = (if MaxChunkSize l < MinChunkSize ?l then 33554432 else MaxChunkSize l)"
    by (simp add: normalized_MaxChunkSize DefaultMaxChunkSize_def)
  have budget: "MemoryBudget ?l = max (MemoryBudget l) (2 * MinChunkSize ?l)"
    using assms sane by (simp add: normalized_fields(3) moderate_def sane_def in64_def mult.commute)
  have "Recommend fileSize current l ob = Some q" using unfold q by simp
  moreover have "MinChunkSize ?l \<le> ChunkSize q"
    and "MinChunkSize ?l \<le> MaxChunkSize l \<longrightarrow> ChunkSize q \<le> MaxChunkSize l"
    and "MaxChunkSize l < MinChunkSize ?l \<longrightarrow> ChunkSize q \<le> Orderings.max (MinChunkSize ?l) 33554432"
    and "1 \<le> ParallelChunks q" and "ParallelChunks q \<le> Orderings.max 1 (MaxParallelChunks l)"
    and "ChunkSize q * ParallelChunks q \<le> Orderings.max (MemoryBudget l) (2 * MinChunkSize ?l)"
    using fits max budget by (auto simp: fits_def normalized_fields(2))
  ultimately show ?thesis using single unfolding Let_def min [symmetric] by blast
qed

theorem Recommend_within_limits_witness:
  "let l = \<lparr>MinChunkSize = 0, MaxChunkSize = 0, MaxParallelChunks = 6, MemoryBudget = 0\<rparr>
   in moderate l \<and> (\<exists>q. Recommend 10 \<lparr>ChunkSize = 0, ParallelChunks = 0\<rparr> l
     \<lparr>RTT = 0, ThroughputBPS = FNaN, RetryRate = FNaN, ChecksumFailureRate = FNaN,
       Backpressure = False, StoragePressure = False, ThermalPressure = False,
       LowBattery = False, Background = False\<rparr> = Some q \<and>
     1048576 \<le> ChunkSize q \<and> ChunkSize q \<le> 33554432 \<and> ParallelChunks q = 1)"
proof -
  let ?l = "\<lparr>MinChunkSize = 0, MaxChunkSize = 0, MaxParallelChunks = 6, MemoryBudget = 0\<rparr> :: Limits"
  have m: "moderate ?l"
    by (simp add: moderate_def normalized_fields normalized_MaxChunkSize
        DefaultMinChunkSize_def DefaultMaxChunkSize_def)
  show ?thesis unfolding Let_def
    using m Recommend_within_limits [OF m, of 10 "\<lparr>ChunkSize = 0, ParallelChunks = 0\<rparr>"
      "\<lparr>RTT = 0, ThroughputBPS = FNaN, RetryRate = FNaN, ChecksumFailureRate = FNaN,
       Backpressure = False, StoragePressure = False, ThermalPressure = False,
       LowBattery = False, Background = False\<rparr>"]
    by (auto simp: Let_def)
qed

text \<open>
  The budget is a wish, not a bound: a budget below two chunks of the least size is raised
  silently. A receiver that offers 1 MiB of memory is sent 2 MiB at once.
\<close>

lemma budget_raised:
  "Recommend 0 \<lparr>ChunkSize = 2097152, ParallelChunks = 1\<rparr>
     \<lparr>MinChunkSize = 1048576, MaxChunkSize = 33554432, MaxParallelChunks = 6, MemoryBudget = 1048576\<rparr>
     \<lparr>RTT = 200 * millisecond, ThroughputBPS = FFin 0, RetryRate = FFin 0,
       ChecksumFailureRate = FFin 0, Backpressure = False, StoragePressure = False,
       ThermalPressure = False, LowBattery = False, Background = False\<rparr> =
   Some \<lparr>ChunkSize = 2097152, ParallelChunks = 1\<rparr>"
  by (simp add: Recommend_def normalized_def adjusted_def small_file_def bounded_def Let_def
      unstable_def constrained_def f_0_05_def f_0_02_def f_0_01_def fle_def in64_def
      reduce_parallel.simps reduce_chunk.simps)

text \<open>
  An unstable observation (round trip of 250 ms or more, retry rate of 5 % or more, or any
  checksum failure) makes \<open>Recommend\<close> back off from a profile in use: at most half the chunk size
  (never below the minimum) and one parallel chunk fewer (never below one).
\<close>

theorem Recommend_backs_off:
  assumes "moderate l" and "unstable ob" and "0 < ChunkSize current" and "0 < ParallelChunks current"
    and "Recommend fileSize current l ob = Some q"
  shows "ChunkSize q \<le> max (MinChunkSize (normalized l)) (ChunkSize current div 2) \<and>
    ParallelChunks q \<le> max 1 (ParallelChunks current - 1)"
proof -
  let ?p = "small_file fileSize (normalized l) (adjusted current (normalized l) ob)"
  have "(if ChunkSize current \<le> 0 \<or> ParallelChunks current \<le> 0
      then Initial (normalized l) else Some current) = Some current"
    using assms(3,4) by simp
  from Recommend_unfold [OF this, of fileSize ob] assms(5)
  have "bounded ?p (normalized l) = Some q" by simp
  with bounded_spec [OF sane_normalized [OF assms(1)], of ?p]
  have "ChunkSize q \<le> max (MinChunkSize (normalized l)) (ChunkSize ?p)"
    and "ParallelChunks q \<le> max 1 (ParallelChunks ?p)"
    by auto
  moreover have "ChunkSize ?p \<le> max (MinChunkSize (normalized l)) (ChunkSize current div 2)"
    and "ParallelChunks ?p \<le> max 1 (ParallelChunks current - 1)"
    using assms(2,3) by (auto simp: small_file_def adjusted_def)
  ultimately show ?thesis by linarith
qed

theorem Recommend_backs_off_witness:
  "let l = \<lparr>MinChunkSize = 4, MaxChunkSize = 64, MaxParallelChunks = 6, MemoryBudget = 1000\<rparr>;
       ob = \<lparr>RTT = 250 * millisecond, ThroughputBPS = FFin 0, RetryRate = FFin 0,
         ChecksumFailureRate = FFin 0, Backpressure = False, StoragePressure = False,
         ThermalPressure = False, LowBattery = False, Background = False\<rparr>;
       current = \<lparr>ChunkSize = 32, ParallelChunks = 3\<rparr>
   in \<exists>q. Recommend 0 current l ob = Some q \<and> ChunkSize q \<le> 16 \<and> ParallelChunks q \<le> 2"
proof -
  let ?l = "\<lparr>MinChunkSize = 4, MaxChunkSize = 64, MaxParallelChunks = 6, MemoryBudget = 1000\<rparr> :: Limits"
  let ?ob = "\<lparr>RTT = 250 * millisecond, ThroughputBPS = FFin 0, RetryRate = FFin 0,
         ChecksumFailureRate = FFin 0, Backpressure = False, StoragePressure = False,
         ThermalPressure = False, LowBattery = False, Background = False\<rparr>"
  let ?c = "\<lparr>ChunkSize = 32, ParallelChunks = 3\<rparr> :: Profile"
  have m: "moderate ?l"
    by (simp add: moderate_def normalized_fields normalized_MaxChunkSize)
  have u: "unstable ?ob" by (simp add: unstable_def)
  obtain p where "(if ChunkSize ?c \<le> 0 \<or> ParallelChunks ?c \<le> 0
      then Initial (normalized ?l) else Some ?c) = Some p"
    using Recommend_start [OF m] by metis
  from Recommend_unfold [OF this] obtain q where q: "Recommend 0 ?c ?l ?ob = Some q"
    using bounded_spec [OF sane_normalized [OF m]] by metis
  have "ChunkSize q \<le> 16 \<and> ParallelChunks q \<le> 2"
    using Recommend_backs_off [OF m u _ _ q] by (simp add: normalized_fields)
  with q show ?thesis unfolding Let_def by blast
qed

end
