(* ===== verification/StableSort.thy ===== *)
theory StableSort
  imports Prelude
begin

text \<open>
  \<open>sort.SliceStable\<close> with a comparator. The library promises a stable sort whenever the
  comparator is a strict weak order: that contract is the locale \<open>stable_order\<close>, and every
  comparator of the sources is an instance (most through \<open>keyed_order\<close>, a comparison of
  keys). The executable model is insertion; \<open>SliceStable_unique\<close> shows that any other
  stable sort returns the same list.
\<close>

fun insert_stable :: "('a \<Rightarrow> 'a \<Rightarrow> bool) \<Rightarrow> 'a \<Rightarrow> 'a list \<Rightarrow> 'a list" where
  "insert_stable lt x [] = [x]"
| "insert_stable lt x (y # ys) =
     (if lt y x then y # insert_stable lt x ys else x # y # ys)"

fun SliceStable :: "('a \<Rightarrow> 'a \<Rightarrow> bool) \<Rightarrow> 'a list \<Rightarrow> 'a list" where
  "SliceStable lt [] = []"
| "SliceStable lt (x # xs) = insert_stable lt x (SliceStable lt xs)"

lemma mset_insert_stable [simp]: "mset (insert_stable lt x xs) = add_mset x (mset xs)"
  by (induction xs) auto

lemma mset_SliceStable [simp]: "mset (SliceStable lt xs) = mset xs"
  by (induction xs) auto

lemma set_insert_stable [simp]: "set (insert_stable lt x xs) = insert x (set xs)"
  by (induction xs) auto

lemma set_SliceStable [simp]: "set (SliceStable lt xs) = set xs"
  by (induction xs) auto

lemma length_SliceStable [simp]: "length (SliceStable lt xs) = length xs"
  using mset_eq_length [OF mset_SliceStable] .

lemma SliceStable_eq_Nil [simp]: "SliceStable lt xs = [] \<longleftrightarrow> xs = []"
  using length_SliceStable [of lt xs] by (metis length_0_conv)

lemma distinct_SliceStable [simp]: "distinct (SliceStable lt xs) = distinct xs"
  by (rule mset_eq_imp_distinct_iff) simp

definition ordered_by :: "('a \<Rightarrow> 'a \<Rightarrow> bool) \<Rightarrow> 'a list \<Rightarrow> bool" where
  "ordered_by lt = sorted_wrt (\<lambda>x y. \<not> lt y x)"

lemma ordered_by_Nil [simp]: "ordered_by lt []"
  and ordered_by_Cons [simp]:
    "ordered_by lt (x # xs) \<longleftrightarrow> (\<forall>y \<in> set xs. \<not> lt y x) \<and> ordered_by lt xs"
  by (simp_all add: ordered_by_def)

lemma ordered_by_append:
  "ordered_by lt (xs @ ys) \<longleftrightarrow>
     ordered_by lt xs \<and> ordered_by lt ys \<and> (\<forall>x \<in> set xs. \<forall>y \<in> set ys. \<not> lt y x)"
  by (auto simp: ordered_by_def sorted_wrt_append)

lemma SliceStable_id: "ordered_by lt xs \<Longrightarrow> SliceStable lt xs = xs"
proof (induction xs)
  case Nil
  show ?case by simp
next
  case (Cons x xs)
  then show ?case by (cases xs) auto
qed

locale stable_order =
  fixes lt :: "'a \<Rightarrow> 'a \<Rightarrow> bool"
  assumes less_irrefl: "\<not> lt x x"
    and less_trans: "lt x y \<Longrightarrow> lt y z \<Longrightarrow> lt x z"
    and less_incomp_trans: "\<not> lt x y \<Longrightarrow> \<not> lt y z \<Longrightarrow> \<not> lt x z"
begin

lemma less_asym: "lt x y \<Longrightarrow> \<not> lt y x"
  using less_irrefl less_trans by blast

lemma ordered_insert_stable: "ordered_by lt xs \<Longrightarrow> ordered_by lt (insert_stable lt x xs)"
proof (induction xs)
  case Nil
  show ?case by simp
next
  case (Cons y ys)
  show ?case
  proof (cases "lt y x")
    case True
    with Cons show ?thesis by (auto dest: less_asym)
  next
    case False
    with Cons.prems show ?thesis by (auto dest: less_incomp_trans)
  qed
qed

lemma ordered_SliceStable: "ordered_by lt (SliceStable lt xs)"
  by (induction xs) (simp_all add: ordered_insert_stable)

lemma hd_SliceStable_least:
  assumes "SliceStable lt xs = y # ys" and "x \<in> set xs"
  shows "\<not> lt x y"
proof -
  have "ordered_by lt (y # ys)" using ordered_SliceStable [of xs] assms(1) by simp
  moreover have "x \<in> set (y # ys)" using assms by (metis set_SliceStable)
  ultimately show ?thesis using less_irrefl by auto
qed

text \<open>Stability: the elements the order does not separate from \<open>z\<close> keep their positions.\<close>

definition same :: "'a \<Rightarrow> 'a \<Rightarrow> bool" where
  "same z x \<longleftrightarrow> \<not> lt z x \<and> \<not> lt x z"

lemma same_refl [simp]: "same x x"
  by (simp add: same_def less_irrefl)

lemma same_sym: "same x y \<Longrightarrow> same y x"
  by (simp add: same_def)

lemma same_trans: "same x y \<Longrightarrow> same y z \<Longrightarrow> same x z"
  unfolding same_def using less_incomp_trans by blast

lemma filter_insert_stable:
  "ordered_by lt xs \<Longrightarrow>
     filter (same z) (insert_stable lt x xs) = filter (same z) (x # xs)"
proof (induction xs)
  case Nil
  show ?case by simp
next
  case (Cons y ys)
  show ?case
  proof (cases "lt y x")
    case True
    then have "\<not> (same z x \<and> same z y)" by (meson same_def less_incomp_trans)
    with Cons True show ?thesis by (auto split: if_splits)
  next
    case False
    then show ?thesis by simp
  qed
qed

lemma SliceStable_stable: "filter (same z) (SliceStable lt xs) = filter (same z) xs"
  by (induction xs) (auto simp: filter_insert_stable ordered_SliceStable)

text \<open>Two ordered lists with the same elements, in the same order within every class, are equal.\<close>

lemma ordered_stable_eq:
  assumes "ordered_by lt xs" and "ordered_by lt ys"
    and "\<And>z. filter (same z) xs = filter (same z) ys"
  shows "xs = ys"
  using assms
proof (induction xs arbitrary: ys)
  case Nil
  show ?case
  proof (cases ys)
    case (Cons y ys')
    with Nil.prems(3) [of y] show ?thesis by simp
  qed simp
next
  case (Cons x xs)
  have mem: "z \<in> set ys \<longleftrightarrow> z \<in> set (x # xs)" for z
  proof -
    have "z \<in> set vs \<longleftrightarrow> z \<in> set (filter (same z) vs)" for vs by simp
    with Cons.prems(3) [of z] show ?thesis by metis
  qed
  then have x: "x \<in> set ys" by simp
  then obtain y ys' where ys: "ys = y # ys'" by (cases ys) auto
  with mem [of y] have "y \<in> set (x # xs)" by simp
  with Cons.prems(1) have "\<not> lt y x" using less_irrefl by auto
  moreover from x ys Cons.prems(2) have "\<not> lt x y" using less_irrefl by auto
  ultimately have "same x y" by (simp add: same_def)
  with Cons.prems(3) [of x] ys have eq: "x = y" by simp
  have "filter (same z) xs = filter (same z) ys'" for z
    using Cons.prems(3) [of z] ys eq by (auto split: if_splits)
  moreover have "ordered_by lt xs" and "ordered_by lt ys'"
    using Cons.prems(1,2) ys by simp_all
  ultimately have "xs = ys'" by (intro Cons.IH) simp_all
  with eq ys show ?case by simp
qed

theorem SliceStable_unique:
  assumes "ordered_by lt ys" and "\<And>z. filter (same z) ys = filter (same z) xs"
  shows "SliceStable lt xs = ys"
proof (rule ordered_stable_eq)
  show "ordered_by lt (SliceStable lt xs)" by (rule ordered_SliceStable)
  show "ordered_by lt ys" by (rule assms(1))
  show "filter (same z) (SliceStable lt xs) = filter (same z) ys" for z
    unfolding SliceStable_stable by (rule assms(2) [symmetric])
qed

text \<open>Sorting commutes with selecting.\<close>

lemma SliceStable_filter: "SliceStable lt (filter P xs) = filter P (SliceStable lt xs)"
proof (rule SliceStable_unique)
  show "ordered_by lt (filter P (SliceStable lt xs))"
    using ordered_SliceStable [of xs] by (simp add: ordered_by_def sorted_wrt_filter)
  show "filter (same z) (filter P (SliceStable lt xs)) = filter (same z) (filter P xs)" for z
  proof -
    have "filter (same z) (filter P (SliceStable lt xs)) = filter P (filter (same z) (SliceStable lt xs))"
      by (simp add: conj_commute)
    also have "\<dots> = filter P (filter (same z) xs)" by (simp only: SliceStable_stable)
    also have "\<dots> = filter (same z) (filter P xs)" by (simp add: conj_commute)
    finally show ?thesis .
  qed
qed

end

text \<open>
  A comparison of keys in a linear order is a strict weak order, in either direction. When
  the key identifies the element, the order in which the elements come does not matter.
\<close>

locale keyed_order =
  fixes lt :: "'a \<Rightarrow> 'a \<Rightarrow> bool" and key :: "'a \<Rightarrow> 'k::linorder"
  assumes less_key: "lt x y \<longleftrightarrow> key x < key y"

sublocale keyed_order \<subseteq> stable_order lt
  by unfold_locales (auto simp: less_key)

context keyed_order
begin

lemma ordered_key: "ordered_by lt xs \<longleftrightarrow> sorted (map key xs)"
  by (simp add: ordered_by_def sorted_map less_key not_less)

lemma SliceStable_cong:
  assumes "mset xs = mset ys" and "inj_on key (set xs)"
  shows "SliceStable lt xs = SliceStable lt ys"
proof -
  have set: "set ys = set xs" using assms(1) by (metis set_mset_mset)
  have "map key (SliceStable lt xs) = map key (SliceStable lt ys)"
  proof -
    have "mset (map key (SliceStable lt xs)) = mset (map key (SliceStable lt ys))"
      using assms(1) by simp
    moreover have "sorted (map key (SliceStable lt zs))" for zs
      using ordered_SliceStable [of zs] by (simp add: ordered_key)
    ultimately show ?thesis by (metis properties_for_sort)
  qed
  then show ?thesis
    by (rule map_inj_on) (use assms set in simp)
qed

end

locale keyed_order_desc =
  fixes lt :: "'a \<Rightarrow> 'a \<Rightarrow> bool" and key :: "'a \<Rightarrow> 'k::linorder"
  assumes less_key: "lt x y \<longleftrightarrow> key y < key x"

sublocale keyed_order_desc \<subseteq> stable_order lt
  by unfold_locales (auto simp: less_key)

context keyed_order_desc
begin

lemma ordered_key: "ordered_by lt xs \<longleftrightarrow> sorted_wrt (\<ge>) (map key xs)"
  by (simp add: ordered_by_def sorted_wrt_map less_key not_less)

end

end
