(* ===== verification/Delivery.thy ===== *)
theory Delivery
  imports StableSort
begin

text \<open>
  Package \<open>internal/delivery\<close> (policy.go): whether an offline item may be downloaded in the
  receiver's environment, and the order in which pending items are handled.
\<close>

type_synonym Priority = int

definition PriorityDeferred :: Priority where "PriorityDeferred = 0"
definition PriorityNormal :: Priority where "PriorityNormal = 1"
definition PriorityUrgent :: Priority where "PriorityUrgent = 2"

datatype DeliveryState = StateQueued | StateMetadataAvailable | StateWaitingDevice
  | StateWaitingNetwork | StateWaitingPower | StateDownloading | StatePausedSystem
  | StateDelivered | StateRead | StateExpired | StateCancelled

record DeliveryPolicy =
  pol_ExpiresAt :: time
  pol_WiFiOnly :: bool
  pol_ChargingOnly :: bool
  pol_MaxMobileDataSize :: int
  pol_AutomaticDownload :: bool
  pol_ForegroundOnly :: bool

record Environment =
  env_Now :: time
  env_Online :: bool
  env_WiFi :: bool
  env_Metered :: bool
  env_Charging :: bool
  env_Foreground :: bool
  env_StorageBytes :: int
  env_LowBattery :: bool
  env_ThermalHigh :: bool

record Item =
  item_ID :: string
  item_Priority :: Priority
  item_Size :: int
  item_CreatedAt :: time
  item_Policy :: DeliveryPolicy
  item_MetadataSynchronized :: bool

record Decision =
  dec_State :: DeliveryState
  dec_MetadataOnly :: bool
  dec_ReasonCode :: string

definition metadata_only :: "DeliveryState \<Rightarrow> string \<Rightarrow> Decision" where
  "metadata_only s reason = \<lparr>dec_State = s, dec_MetadataOnly = True, dec_ReasonCode = reason\<rparr>"

definition Evaluate :: "Item \<Rightarrow> Environment \<Rightarrow> Decision" where
  "Evaluate item env =
     (let pol = item_Policy item in
      if \<not> IsZero (pol_ExpiresAt pol) \<and> \<not> env_Now env < pol_ExpiresAt pol then
        \<lparr>dec_State = StateExpired, dec_MetadataOnly = False, dec_ReasonCode = ''CONTENT_EXPIRED''\<rparr>
      else if \<not> env_Online env then metadata_only StateWaitingDevice ''DEVICE_OFFLINE''
      else if \<not> item_MetadataSynchronized item then
        metadata_only StateMetadataAvailable ''METADATA_FIRST''
      else if \<not> pol_AutomaticDownload pol then
        metadata_only StateMetadataAvailable ''AUTOMATIC_DOWNLOAD_DISABLED''
      else if pol_ForegroundOnly pol \<and> \<not> env_Foreground env then
        metadata_only StatePausedSystem ''FOREGROUND_REQUIRED''
      else if pol_WiFiOnly pol \<and> \<not> env_WiFi env then
        metadata_only StateWaitingNetwork ''WIFI_REQUIRED''
      else if env_Metered env \<and> 0 \<le> pol_MaxMobileDataSize pol \<and>
              pol_MaxMobileDataSize pol < item_Size item then
        metadata_only StateWaitingNetwork ''MOBILE_DATA_LIMIT''
      else if pol_ChargingOnly pol \<and> \<not> env_Charging env then
        metadata_only StateWaitingPower ''CHARGING_REQUIRED''
      else if env_LowBattery env \<or> env_ThermalHigh env then
        metadata_only StatePausedSystem ''SYSTEM_RESOURCE_LIMIT''
      else if 0 \<le> env_StorageBytes env \<and> env_StorageBytes env < item_Size item then
        metadata_only StatePausedSystem ''INSUFFICIENT_STORAGE''
      else \<lparr>dec_State = StateDownloading, dec_MetadataOnly = False, dec_ReasonCode = ''''\<rparr>)"

text \<open>The body may be downloaded: the specification that \<open>Evaluate\<close> implements.\<close>

definition may_download :: "Item \<Rightarrow> Environment \<Rightarrow> bool" where
  "may_download item env =
     (let pol = item_Policy item in
      (IsZero (pol_ExpiresAt pol) \<or> env_Now env < pol_ExpiresAt pol) \<and>
      env_Online env \<and> item_MetadataSynchronized item \<and> pol_AutomaticDownload pol \<and>
      (pol_ForegroundOnly pol \<longrightarrow> env_Foreground env) \<and>
      (pol_WiFiOnly pol \<longrightarrow> env_WiFi env) \<and>
      (pol_ChargingOnly pol \<longrightarrow> env_Charging env) \<and>
      (env_Metered env \<and> 0 \<le> pol_MaxMobileDataSize pol \<longrightarrow> item_Size item \<le> pol_MaxMobileDataSize pol) \<and>
      \<not> env_LowBattery env \<and> \<not> env_ThermalHigh env \<and>
      (0 \<le> env_StorageBytes env \<longrightarrow> item_Size item \<le> env_StorageBytes env))"

lemma Evaluate_downloading: "dec_State (Evaluate item env) = StateDownloading \<longleftrightarrow> may_download item env"
  by (auto simp: Evaluate_def may_download_def metadata_only_def Let_def)

lemma Evaluate_expired:
  "dec_State (Evaluate item env) = StateExpired \<longleftrightarrow>
     pol_ExpiresAt (item_Policy item) \<noteq> 0 \<and> pol_ExpiresAt (item_Policy item) \<le> env_Now env"
  by (auto simp: Evaluate_def metadata_only_def Let_def)

lemma Evaluate_metadata_only:
  "dec_MetadataOnly (Evaluate item env) \<longleftrightarrow>
     dec_State (Evaluate item env) \<notin> {StateExpired, StateDownloading}"
  by (auto simp: Evaluate_def metadata_only_def Let_def)

lemma Evaluate_reason:
  "dec_ReasonCode (Evaluate item env) = '''' \<longleftrightarrow> dec_State (Evaluate item env) = StateDownloading"
  by (auto simp: Evaluate_def metadata_only_def Let_def)

text \<open>
  An item's body is downloaded exactly when nothing forbids it (it has not expired, the device is
  online with metadata synchronised and automatic download on, and the foreground, Wi-Fi,
  charging, mobile data, battery, heat and storage conditions hold); the decision is expiry
  exactly from the expiry instant on; in every other case only metadata is delivered, with a
  reason.
\<close>

theorem Evaluate_decides:
  "(dec_State (Evaluate item env) = StateDownloading \<longleftrightarrow> may_download item env) \<and>
   (dec_State (Evaluate item env) = StateExpired \<longleftrightarrow>
      pol_ExpiresAt (item_Policy item) \<noteq> 0 \<and> pol_ExpiresAt (item_Policy item) \<le> env_Now env) \<and>
   (dec_MetadataOnly (Evaluate item env) \<longleftrightarrow>
      dec_State (Evaluate item env) \<notin> {StateExpired, StateDownloading}) \<and>
   (dec_ReasonCode (Evaluate item env) = '''' \<longleftrightarrow> may_download item env)"
  by (simp add: Evaluate_downloading Evaluate_expired Evaluate_metadata_only Evaluate_reason)

section \<open>The order of pending items\<close>

definition delivery_less :: "Item \<Rightarrow> Item \<Rightarrow> bool" where
  "delivery_less i j =
     (if item_MetadataSynchronized i \<noteq> item_MetadataSynchronized j then
        \<not> item_MetadataSynchronized i
      else if item_Priority i \<noteq> item_Priority j then item_Priority j < item_Priority i
      else if item_Size i \<noteq> item_Size j then item_Size i < item_Size j
      else if item_CreatedAt i \<noteq> item_CreatedAt j then item_CreatedAt i < item_CreatedAt j
      else item_ID i < item_ID j)"

definition Order :: "Item list \<Rightarrow> Item list" where
  "Order items = SliceStable delivery_less items"

definition delivery_key :: "Item \<Rightarrow> bool \<times> int \<times> int \<times> int \<times> string" where
  "delivery_key i = (item_MetadataSynchronized i, - item_Priority i, item_Size i,
     item_CreatedAt i, item_ID i)"

interpretation delivery: keyed_order delivery_less delivery_key
  by unfold_locales (auto simp: delivery_less_def delivery_key_def)

text \<open>
  \<open>Order\<close> permutes the pending items and puts every item whose metadata is still missing
  before all others, and within these groups higher priorities first, then smaller, older and
  smaller-identifier items; when identifiers differ the result does not depend on the order in
  which the items were given.
\<close>

theorem Order_sorts:
  "mset (Order items) = mset items \<and> sorted (map delivery_key (Order items)) \<and>
   (distinct (map item_ID items) \<and> mset items' = mset items \<longrightarrow> Order items' = Order items)"
proof (intro conjI impI)
  show "mset (Order items) = mset items" by (simp add: Order_def)
  show "sorted (map delivery_key (Order items))"
    unfolding Order_def delivery.ordered_key [symmetric] by (rule delivery.ordered_SliceStable)
  assume h: "distinct (map item_ID items) \<and> mset items' = mset items"
  then have "inj_on delivery_key (set items)"
    by (auto simp: distinct_map delivery_key_def inj_on_def)
  moreover have "set items' = set items" using h by (metis set_mset_mset)
  ultimately show "Order items' = Order items"
    unfolding Order_def using h by (intro delivery.SliceStable_cong) auto
qed

theorem Order_sorts_witness:
  "let mk = \<lambda>n p. \<lparr>item_ID = n, item_Priority = p, item_Size = 5, item_CreatedAt = 7,
       item_Policy = \<lparr>pol_ExpiresAt = 0, pol_WiFiOnly = False, pol_ChargingOnly = False,
         pol_MaxMobileDataSize = -1, pol_AutomaticDownload = True, pol_ForegroundOnly = False\<rparr>,
       item_MetadataSynchronized = True\<rparr>
   in Order [mk ''a'' PriorityNormal, mk ''b'' PriorityUrgent] =
      Order [mk ''b'' PriorityUrgent, mk ''a'' PriorityNormal]"
  unfolding Let_def
  by (rule Order_sorts [THEN conjunct2, THEN conjunct2, THEN mp]) (simp add: add_mset_commute)

end
