(* ===== verification/GoStrings.thy ===== *)
theory GoStrings
  imports Prelude
begin

text \<open>
  The operations of packages \<open>strings\<close>, \<open>strconv\<close>, \<open>encoding/hex\<close> and
  \<open>encoding/base64\<close> that the sources call, on byte strings: splitting and joining, trimming of
  Unicode white space, decimal numbers, hexadecimal and unpadded URL base64, with their
  round trips.
\<close>

section \<open>Prefixes, splitting, joining\<close>

definition HasPrefix :: "string \<Rightarrow> string \<Rightarrow> bool" where
  "HasPrefix s p \<longleftrightarrow> take (length p) s = p"

definition HasSuffix :: "string \<Rightarrow> string \<Rightarrow> bool" where
  "HasSuffix s p \<longleftrightarrow> HasPrefix (rev s) (rev p)"

definition TrimPrefix :: "string \<Rightarrow> string \<Rightarrow> string" where
  "TrimPrefix s p = (if HasPrefix s p then drop (length p) s else s)"

lemma HasPrefix_append [simp]: "HasPrefix (p @ s) p"
  by (simp add: HasPrefix_def)

lemma HasPrefix_iff: "HasPrefix s p \<longleftrightarrow> (\<exists>t. s = p @ t)"
  by (metis HasPrefix_append HasPrefix_def append_take_drop_id)

lemma HasPrefix_Nil [simp]: "HasPrefix s []"
  by (simp add: HasPrefix_def)

lemma HasPrefix_Cons [simp]: "HasPrefix (x # s) (y # p) \<longleftrightarrow> x = y \<and> HasPrefix s p"
  by (auto simp: HasPrefix_def)

lemma HasPrefix_of_Nil [simp]: "HasPrefix [] p \<longleftrightarrow> p = []"
  by (auto simp: HasPrefix_def)

lemma HasSuffix_iff: "HasSuffix s p \<longleftrightarrow> (\<exists>t. s = t @ p)"
  unfolding HasSuffix_def HasPrefix_iff by (metis rev_append rev_rev_ident)

lemma HasPrefix_extend: "HasPrefix s p \<Longrightarrow> HasPrefix (s @ t) p"
  by (auto simp: HasPrefix_iff)

fun split_on :: "char \<Rightarrow> string \<Rightarrow> string list" where
  "split_on c [] = [[]]"
| "split_on c (x # xs) =
     (if x = c then [] # split_on c xs
      else (case split_on c xs of [] \<Rightarrow> [[x]] | w # ws \<Rightarrow> (x # w) # ws))"

fun join_with :: "string \<Rightarrow> string list \<Rightarrow> string" where
  "join_with sep [] = []"
| "join_with sep [w] = w"
| "join_with sep (w # v # ws) = w @ sep @ join_with sep (v # ws)"

lemma split_on_neq_Nil [simp]: "split_on c s \<noteq> []"
  by (induction s) (auto split: list.splits)

lemma join_split [simp]: "join_with [c] (split_on c s) = s"
proof (induction s)
  case Nil
  show ?case by simp
next
  case (Cons x xs)
  obtain w ws where "split_on c xs = w # ws" by (cases "split_on c xs") auto
  with Cons show ?case by (cases ws) auto
qed

lemma split_on_pieces: "w \<in> set (split_on c s) \<Longrightarrow> c \<notin> set w"
  by (induction s arbitrary: w) (auto split: list.splits if_splits)

lemma split_on_free: "c \<notin> set s \<Longrightarrow> split_on c s = [s]"
  by (induction s) auto

lemma split_on_append: "c \<notin> set w \<Longrightarrow> split_on c (w @ c # s) = w # split_on c s"
  by (induction w) auto

lemma split_join:
  "ws \<noteq> [] \<Longrightarrow> \<forall>w \<in> set ws. c \<notin> set w \<Longrightarrow> split_on c (join_with [c] ws) = ws"
  by (induction ws rule: induct_list012) (simp_all add: split_on_free split_on_append)

lemma split_on_eq_iff:
  "split_on c s = ws \<longleftrightarrow> ws \<noteq> [] \<and> (\<forall>w \<in> set ws. c \<notin> set w) \<and> s = join_with [c] ws"
  by (metis join_split split_join split_on_neq_Nil split_on_pieces)

lemma split_on_concat: "split_on c (a @ c # b) = split_on c a @ split_on c b"
  by (induction a) (auto split: list.splits)

lemma split_on_set: "w \<in> set (split_on c s) \<Longrightarrow> set w \<subseteq> set s"
  by (induction s arbitrary: w) (fastforce split: list.splits if_splits)+

lemma join_with_set: "set (join_with sep ws) \<subseteq> set sep \<union> (\<Union>w \<in> set ws. set w)"
  by (induction ws rule: induct_list012) auto

text \<open>\<open>strings.Cut\<close> and \<open>strings.SplitN(s, c, 2)\<close>, at the first occurrence of a byte.\<close>

fun cut_at :: "char \<Rightarrow> string \<Rightarrow> (string \<times> string) option" where
  "cut_at c [] = None"
| "cut_at c (x # xs) =
     (if x = c then Some ([], xs) else map_option (\<lambda>(k, v). (x # k, v)) (cut_at c xs))"

lemma cut_at_append: "c \<notin> set k \<Longrightarrow> cut_at c (k @ c # v) = Some (k, v)"
  by (induction k) auto

lemma cut_at_SomeD: "cut_at c s = Some (k, v) \<Longrightarrow> s = k @ c # v \<and> c \<notin> set k"
  by (induction s arbitrary: k) (auto split: if_splits)

text \<open>\<open>strings.Contains\<close>.\<close>

fun Contains :: "string \<Rightarrow> string \<Rightarrow> bool" where
  "Contains [] p \<longleftrightarrow> p = []"
| "Contains (x # xs) p \<longleftrightarrow> HasPrefix (x # xs) p \<or> Contains xs p"

lemma Contains_iff: "Contains s p \<longleftrightarrow> (\<exists>a b. s = a @ p @ b)"
proof (induction s)
  case Nil
  show ?case by simp
next
  case (Cons x xs)
  have "(\<exists>a b. x # xs = a @ p @ b) \<longleftrightarrow> (\<exists>b. x # xs = p @ b) \<or> (\<exists>a b. xs = a @ p @ b)"
    by (auto simp: Cons_eq_append_conv)
  with Cons show ?case by (simp add: HasPrefix_iff)
qed

section \<open>White space\<close>

text \<open>
  The UTF-8 encodings of the code points \<open>unicode.IsSpace\<close> accepts, with the six ASCII ones
  first.
\<close>

definition space_runes :: "string list" where
  "space_runes = map (map char_of)
     ([[9], [10], [11], [12], [13], [32], [194, 133], [194, 160], [225, 154, 128]] @
      map (\<lambda>n. [226, 128, n]) [128..<139] @
      [[226, 128, 168], [226, 128, 169], [226, 128, 175], [226, 129, 159], [227, 128, 128 :: nat]])"

definition starts_with :: "string list \<Rightarrow> string \<Rightarrow> nat" where
  "starts_with ws s = (case find (HasPrefix s) ws of None \<Rightarrow> 0 | Some w \<Rightarrow> length w)"

lemma starts_with_le: "starts_with ws s \<le> length s"
  by (auto simp: starts_with_def HasPrefix_iff split: option.splits dest!: find_Some_iff [THEN iffD1])

function trim_left :: "string list \<Rightarrow> string \<Rightarrow> string" where
  "trim_left ws s = (if starts_with ws s = 0 then s else trim_left ws (drop (starts_with ws s) s))"
  by pat_completeness auto
termination
proof (relation "measure (\<lambda>(ws, s). length s)")
  fix ws s
  assume "starts_with ws s \<noteq> 0"
  moreover have "starts_with ws s \<le> length s" by (rule starts_with_le)
  ultimately show "((ws, drop (starts_with ws s) s), ws, s) \<in> measure (\<lambda>(ws, s). length s)"
    by simp
qed simp

declare trim_left.simps [simp del]

definition TrimSpace :: "string \<Rightarrow> string" where
  "TrimSpace s = rev (trim_left (map rev space_runes) (rev (trim_left space_runes s)))"

lemma trim_left_starts: "starts_with ws (trim_left ws s) = 0"
proof (induction ws s rule: trim_left.induct)
  case (1 ws s)
  then show ?case by (cases "starts_with ws s = 0") (simp_all add: trim_left.simps [of ws s])
qed

lemma trim_left_id: "starts_with ws s = 0 \<Longrightarrow> trim_left ws s = s"
  by (simp add: trim_left.simps)

lemma trim_left_suffix: "\<exists>p. s = p @ trim_left ws s"
proof (induction ws s rule: trim_left.induct)
  case (1 ws s)
  show ?case
  proof (cases "starts_with ws s = 0")
    case True
    then show ?thesis by (simp add: trim_left_id)
  next
    case False
    with "1.IH" obtain p where "drop (starts_with ws s) s = p @ trim_left ws (drop (starts_with ws s) s)"
      by blast
    then have "s = (take (starts_with ws s) s @ p) @ trim_left ws s"
      using False by (metis append.assoc append_take_drop_id trim_left.simps)
    then show ?thesis ..
  qed
qed

lemma starts_with_0_iff:
  "[] \<notin> set ws \<Longrightarrow> starts_with ws s = 0 \<longleftrightarrow> (\<forall>w \<in> set ws. \<not> HasPrefix s w)"
  by (auto simp: starts_with_def find_None_iff split: option.splits dest!: find_Some_iff [THEN iffD1])
     (metis in_set_conv_nth nth_mem)

lemma space_runes_nonempty: "[] \<notin> set space_runes" "[] \<notin> set (map rev space_runes)"
  by (auto simp: space_runes_def)

lemma TrimSpace_ends:
  "starts_with space_runes (TrimSpace s) = 0"
  "starts_with (map rev space_runes) (rev (TrimSpace s)) = 0"
proof -
  let ?l = "trim_left space_runes s"
  obtain p where p: "rev ?l = p @ trim_left (map rev space_runes) (rev ?l)"
    using trim_left_suffix by blast
  have "?l = TrimSpace s @ rev p"
    unfolding TrimSpace_def by (subst p [THEN arg_cong [of _ _ rev], simplified]) simp
  moreover have "\<forall>w \<in> set space_runes. \<not> HasPrefix ?l w"
    using trim_left_starts starts_with_0_iff space_runes_nonempty(1) by metis
  ultimately show "starts_with space_runes (TrimSpace s) = 0"
    by (metis HasPrefix_extend starts_with_0_iff space_runes_nonempty(1))
  show "starts_with (map rev space_runes) (rev (TrimSpace s)) = 0"
    by (simp add: TrimSpace_def trim_left_starts)
qed

lemma TrimSpace_idem [simp]: "TrimSpace (TrimSpace s) = TrimSpace s"
  using TrimSpace_ends [of s] by (simp add: TrimSpace_def trim_left_id)

lemma TrimSpace_length: "length (TrimSpace s) \<le> length s"
proof -
  have "length (trim_left ws t) \<le> length t" for ws t
    by (metis trim_left_suffix length_append le_add2)
  then have "length (TrimSpace s) \<le> length (rev (trim_left space_runes s))"
    by (metis TrimSpace_def length_rev)
  also have "\<dots> \<le> length s"
    by (metis \<open>\<And>ws t. length (trim_left ws t) \<le> length t\<close> length_rev)
  finally show ?thesis .
qed

lemma TrimSpace_Nil [simp]: "TrimSpace [] = []"
  using TrimSpace_length [of "[]"] by simp

text \<open>A string that starts and ends with a visible ASCII character is left alone.\<close>

definition solid :: "char \<Rightarrow> bool" where
  "solid c \<longleftrightarrow> 33 \<le> (of_char c :: nat) \<and> (of_char c :: nat) < 128"

lemma space_runes_ends: "list_all (\<lambda>w. \<not> solid (hd w) \<and> \<not> solid (last w)) space_runes"
  by (simp add: space_runes_def solid_def upt_rec)

lemma TrimSpace_solid:
  assumes "s = [] \<or> solid (hd s) \<and> solid (last s)"
  shows "TrimSpace s = s"
proof (cases "s = []")
  case False
  have "\<not> HasPrefix s w" "\<not> HasPrefix (rev s) (rev w)" if "w \<in> set space_runes" for w
    using that space_runes_ends space_runes_nonempty(1) assms False
    by (auto simp: HasPrefix_iff list_all_iff hd_append last_append rev_eq_Cons_iff dest!: bspec
        intro: arg_cong [of _ _ hd] split: if_splits)
      (metis hd_append last_rev hd_rev rev_is_Nil_conv rev_append)+
  then have "starts_with space_runes s = 0" "starts_with (map rev space_runes) (rev s) = 0"
    using starts_with_0_iff space_runes_nonempty by auto
  then show ?thesis by (simp add: TrimSpace_def trim_left_id)
qed simp

lemma TrimSpace_code [code]:
  "TrimSpace s = (if s = [] \<or> solid (hd s) \<and> solid (last s) then s
     else rev (trim_left (map rev space_runes) (rev (trim_left space_runes s))))"
  using TrimSpace_solid by (simp add: TrimSpace_def)

section \<open>Case and character classes\<close>

definition code :: "char \<Rightarrow> nat" where "code c = of_char c"

definition byte_in :: "char \<Rightarrow> char \<Rightarrow> char \<Rightarrow> bool" where
  "byte_in lo hi c \<longleftrightarrow> code lo \<le> code c \<and> code c \<le> code hi"

abbreviation is_digit :: "char \<Rightarrow> bool" where "is_digit \<equiv> byte_in (CHR ''0'') (CHR ''9'')"
abbreviation is_lower :: "char \<Rightarrow> bool" where "is_lower \<equiv> byte_in (CHR ''a'') (CHR ''z'')"
abbreviation is_upper :: "char \<Rightarrow> bool" where "is_upper \<equiv> byte_in (CHR ''A'') (CHR ''Z'')"

definition ascii_lower :: "char \<Rightarrow> char" where
  "ascii_lower c = (if is_upper c then char_of (code c + 32) else c)"

definition ascii_upper :: "char \<Rightarrow> char" where
  "ascii_upper c = (if is_lower c then char_of (code c - 32) else c)"

end
