(* ===== verification/Encoding.thy ===== *)
theory Encoding
  imports GoStrings
begin

text \<open>
  \<open>encoding/hex\<close>, \<open>base64.RawURLEncoding\<close> and the decimal conversions of \<open>strconv\<close>,
  with the round trips the components rely on.
\<close>

section \<open>Hexadecimal\<close>

definition hex_char :: "nat \<Rightarrow> char" where
  "hex_char n = char_of (if n < 10 then 48 + n else 87 + n)"

definition hex_value :: "char \<Rightarrow> nat option" where
  "hex_value c = (if is_digit c then Some (code c - 48)
     else if byte_in (CHR ''a'') (CHR ''f'') c then Some (code c - 87)
     else if byte_in (CHR ''A'') (CHR ''F'') c then Some (code c - 55)
     else None)"

fun hex_encode :: "string \<Rightarrow> string" where
  "hex_encode [] = []"
| "hex_encode (b # bs) = hex_char (code b div 16) # hex_char (code b mod 16) # hex_encode bs"

fun hex_decode :: "string \<Rightarrow> string option" where
  "hex_decode [] = Some []"
| "hex_decode [x] = None"
| "hex_decode (x # y # r) =
     (case hex_value x of None \<Rightarrow> None
      | Some a \<Rightarrow> (case hex_value y of None \<Rightarrow> None
         | Some b \<Rightarrow> map_option (\<lambda>t. char_of (16 * a + b) # t) (hex_decode r)))"

lemma code_less [simp]: "code c < 256"
proof -
  have "of_char c mod 256 < (256 :: nat)" by simp
  then show ?thesis by (simp only: code_def of_char_mod_256)
qed

lemma code_char_of [simp]: "n < 256 \<Longrightarrow> code (char_of n) = n"
  by (simp add: code_def)

lemma char_of_code [simp]: "char_of (code c) = c"
  by (simp add: code_def)

lemma code_inject [simp]: "code c = code d \<longleftrightarrow> c = d"
  by (simp add: code_def)

lemma hex_value_hex_char [simp]: "n < 16 \<Longrightarrow> hex_value (hex_char n) = Some n"
  by (simp add: hex_value_def hex_char_def byte_in_def) (simp add: code_def)

lemma code_div_16 [simp]: "code c div 16 < 16"
  using code_less [of c] by linarith

lemma hex_decode_encode [simp]: "hex_decode (hex_encode s) = Some s"
  by (induction s) simp_all

lemma length_hex_encode [simp]: "length (hex_encode s) = 2 * length s"
  by (induction s) auto

lemma length_hex_decode: "hex_decode s = Some t \<Longrightarrow> length s = 2 * length t"
  by (induction s arbitrary: t rule: hex_decode.induct) (auto split: option.splits)

lemma hex_decode_eq_Nil [simp]: "hex_decode s = Some [] \<longleftrightarrow> s = []"
  using length_hex_decode by fastforce

section \<open>Unpadded URL base64\<close>

definition b64_alphabet :: string where
  "b64_alphabet = ''ABCDEFGHIJKLMNOPQRSTUVWXYZabcdefghijklmnopqrstuvwxyz0123456789-_''"

fun index_of :: "'a \<Rightarrow> 'a list \<Rightarrow> nat option" where
  "index_of x [] = None"
| "index_of x (y # ys) = (if x = y then Some 0 else map_option Suc (index_of x ys))"

fun sextets :: "nat list \<Rightarrow> nat list" where
  "sextets [] = []"
| "sextets [a] = [a div 4, a mod 4 * 16]"
| "sextets [a, b] = [a div 4, a mod 4 * 16 + b div 16, b mod 16 * 4]"
| "sextets (a # b # c # r) =
     a div 4 # (a mod 4 * 16 + b div 16) # (b mod 16 * 4 + c div 64) # c mod 64 # sextets r"

text \<open>
  Decoding is not strict: the unused low bits of the last digit are ignored, and so are line
  breaks anywhere in the input.
\<close>

fun octets :: "nat list \<Rightarrow> nat list option" where
  "octets [] = Some []"
| "octets [p] = None"
| "octets [p, q] = Some [p * 4 + q div 16]"
| "octets [p, q, r] = Some [p * 4 + q div 16, q mod 16 * 16 + r div 4]"
| "octets (p # q # r # s # t) =
     map_option (\<lambda>u. (p * 4 + q div 16) # (q mod 16 * 16 + r div 4) # (r mod 4 * 64 + s) # u) (octets t)"

definition b64_encode :: "string \<Rightarrow> string" where
  "b64_encode s = map (\<lambda>n. b64_alphabet ! n) (sextets (map code s))"

definition b64_decode :: "string \<Rightarrow> string option" where
  "b64_decode s =
     (let digits = map (\<lambda>c. index_of c b64_alphabet)
            (filter (\<lambda>c. c \<noteq> CHR 0x0A \<and> c \<noteq> CHR 0x0D) s)
      in if None \<in> set digits then None
         else map_option (map char_of) (octets (map the digits)))"

lemma sextets_less: "\<forall>n \<in> set ns. n < 256 \<Longrightarrow> m \<in> set (sextets ns) \<Longrightarrow> m < 64"
proof (induction ns rule: sextets.induct)
  case (4 a b c r)
  then have "a < 256" "b < 256" "c < 256" by auto
  then have "a div 4 < 64" "a mod 4 * 16 + b div 16 < 64" "b mod 16 * 4 + c div 64 < 64" "c mod 64 < 64"
    by linarith+
  with 4 show ?case by auto
next
  case (3 a b)
  then have "a < 256" "b < 256" by auto
  then have "a div 4 < 64" "a mod 4 * 16 + b div 16 < 64" "b mod 16 * 4 < 64" by linarith+
  with 3 show ?case by auto
qed auto

lemma pack [simp]:
  fixes x y m :: nat
  assumes "y < m"
  shows "(x * m + y) div m = x" "(x * m + y) mod m = y"
  using assms by simp_all

lemma octets_sextets: "\<forall>n \<in> set ns. n < 256 \<Longrightarrow> octets (sextets ns) = Some ns"
proof (induction ns rule: sextets.induct)
  case (4 a b c r)
  then have "b div 16 < 16" "c div 64 < 4" by auto
  with 4 show ?case by (simp add: div_mult_mod_eq mod_mult_self3)
next
  case (3 a b)
  then have "b div 16 < 16" by auto
  then show ?case by (simp add: div_mult_mod_eq)
qed (auto simp: div_mult_mod_eq)

lemma distinct_b64_alphabet: "distinct b64_alphabet"
  unfolding b64_alphabet_def by simp

lemma length_b64_alphabet: "length b64_alphabet = 64"
  unfolding b64_alphabet_def by simp

lemma index_of_nth: "distinct xs \<Longrightarrow> n < length xs \<Longrightarrow> index_of (xs ! n) xs = Some n"
proof (induction xs arbitrary: n)
  case (Cons x xs)
  then show ?case by (cases n) (auto simp: nth_mem)
qed simp

lemma b64_encode_alphabet:
  assumes "c \<in> set (b64_encode s)"
  shows "c \<in> set b64_alphabet"
proof -
  from assms obtain n where c: "c = b64_alphabet ! n" and n: "n \<in> set (sextets (map code s))"
    unfolding b64_encode_def by auto
  have "n < 64" by (rule sextets_less [OF _ n]) auto
  with c length_b64_alphabet show ?thesis by (metis nth_mem)
qed

lemma b64_encode_free [simp]:
  assumes "c \<notin> set b64_alphabet"
  shows "c \<notin> set (b64_encode s)"
  using assms b64_encode_alphabet by blast

lemma dot_not_b64 [simp]: "CHR ''.'' \<notin> set b64_alphabet"
  by (simp add: b64_alphabet_def)

lemma breaks_not_b64: "CHR 0x0A \<notin> set b64_alphabet" "CHR 0x0D \<notin> set b64_alphabet"
  by (simp_all add: b64_alphabet_def)

theorem b64_decode_encode [simp]: "b64_decode (b64_encode s) = Some s"
proof -
  let ?ns = "sextets (map code s)"
  have less: "n \<in> set ?ns \<Longrightarrow> n < 64" for n
    by (rule sextets_less [of "map code s"]) auto
  have "filter (\<lambda>c. c \<noteq> CHR 0x0A \<and> c \<noteq> CHR 0x0D) (b64_encode s) = b64_encode s"
    using b64_encode_alphabet breaks_not_b64 by (intro filter_True) blast
  moreover have "map (\<lambda>c. index_of c b64_alphabet) (b64_encode s) = map Some ?ns"
    by (auto simp: b64_encode_def index_of_nth distinct_b64_alphabet length_b64_alphabet less)
  moreover have "map (char_of \<circ> code) s = s" by (simp add: comp_def)
  ultimately show ?thesis
    by (auto simp: b64_decode_def Let_def octets_sextets comp_def)
qed

lemma b64_encode_inject [simp]: "b64_encode s = b64_encode t \<longleftrightarrow> s = t"
  by (metis b64_decode_encode option.inject)

section \<open>Decimal numbers\<close>

fun nat_digits :: "nat \<Rightarrow> string" where
  "nat_digits n = (if n < 10 then [char_of (48 + n)] else nat_digits (n div 10) @ [char_of (48 + n mod 10)])"

declare nat_digits.simps [simp del]

definition Itoa :: "int \<Rightarrow> string" where
  "Itoa i = (if i < 0 then CHR ''-'' # nat_digits (nat (- i)) else nat_digits (nat i))"

definition digits_value :: "string \<Rightarrow> nat" where
  "digits_value ds = foldl (\<lambda>v c. 10 * v + (code c - 48)) 0 ds"

text \<open>\<open>strconv.Atoi\<close>: the value, and whether the error is nil.\<close>

definition Atoi :: "string \<Rightarrow> int \<times> bool" where
  "Atoi s =
     (let ds = (if HasPrefix s ''-'' \<or> HasPrefix s ''+'' then tl s else s);
          v = (if HasPrefix s ''-'' then - int (digits_value ds) else int (digits_value ds))
      in if ds = [] \<or> \<not> list_all is_digit ds then (0, False)
         else if in64 v then (v, True)
         else (if v < 0 then min_int64 else max_int64, False))"

lemma nat_digits_digits: "list_all is_digit (nat_digits n)"
proof (induction n rule: nat_digits.induct)
  case (1 n)
  have "is_digit (char_of (48 + m))" if "m < 10" for m :: nat
    using that by (simp add: byte_in_def) (simp add: code_def)
  with 1 show ?case by (subst nat_digits.simps) auto
qed

lemma nat_digits_neq_Nil [simp]: "nat_digits n \<noteq> []"
  by (subst nat_digits.simps) simp

lemma digits_value_snoc: "digits_value (ds @ [c]) = 10 * digits_value ds + (code c - 48)"
  by (simp add: digits_value_def)

lemma digits_value_nat_digits [simp]: "digits_value (nat_digits n) = n"
proof (induction n rule: nat_digits.induct)
  case (1 n)
  show ?case
  proof (cases "n < 10")
    case True
    then show ?thesis by (subst nat_digits.simps) (simp add: digits_value_def)
  next
    case False
    with 1 show ?thesis by (subst nat_digits.simps) (simp add: digits_value_snoc)
  qed
qed

lemma nat_digits_no_sign: "\<not> HasPrefix (nat_digits n) ''-''" "\<not> HasPrefix (nat_digits n) ''+''"
proof -
  obtain c cs where c: "nat_digits n = c # cs" by (cases "nat_digits n") auto
  with nat_digits_digits [of n] have "is_digit c" by simp
  then have "c \<noteq> CHR ''-''" "c \<noteq> CHR ''+''" by (auto simp: byte_in_def code_def)
  with c show "\<not> HasPrefix (nat_digits n) ''-''" "\<not> HasPrefix (nat_digits n) ''+''" by auto
qed

theorem Atoi_Itoa [simp]: "in64 i \<Longrightarrow> Atoi (Itoa i) = (i, True)"
  by (cases "i < 0") (simp_all add: Atoi_def Itoa_def nat_digits_no_sign nat_digits_digits)

lemma Itoa_free: "c \<notin> set (Itoa i)" if "\<not> is_digit c" and "c \<noteq> CHR ''-''"
  using that nat_digits_digits by (auto simp: Itoa_def list_all_iff)

lemma hex_encode_free: "hex_value c = None \<Longrightarrow> c \<notin> set (hex_encode s)"
proof (induction s)
  case (Cons b s)
  have "hex_value (hex_char (code b div 16)) \<noteq> None" "hex_value (hex_char (code b mod 16)) \<noteq> None" by simp_all
  with Cons show ?case by auto
qed simp

lemma nat_digits_inject: "nat_digits m = nat_digits n \<longleftrightarrow> m = n"
  by (metis digits_value_nat_digits)

lemma Itoa_neq_Nil [simp]: "Itoa i \<noteq> []"
  by (simp add: Itoa_def)

end
