(* ===== verification/SignedToken.thy ===== *)
theory SignedToken
  imports Encoding
begin

text \<open>
  The signed tokens of the Node: cursors, tombstones, relay and enrollment grants are all a
  base64 payload followed by a dot and the base64 HMAC of a label and that payload, some with a
  leading version field. HMAC-SHA256 is a parameter \<open>hmac\<close> (key, then message); comparing
  signatures in constant time is comparing them. The locale \<open>sealing\<close> is the contract the
  five tokens share: what was sealed can be opened, and nothing else can be.
\<close>

type_synonym hmac = "string \<Rightarrow> string \<Rightarrow> string"

definition mac_signature :: "hmac \<Rightarrow> string \<Rightarrow> string \<Rightarrow> string \<Rightarrow> string" where
  "mac_signature hmac label secret payload = b64_encode (hmac secret (label @ payload))"

definition seal2 :: "(string \<Rightarrow> string) \<Rightarrow> string \<Rightarrow> string" where
  "seal2 sign encoded = encoded @ ''.'' @ sign encoded"

definition unseal2 :: "(string \<Rightarrow> string) \<Rightarrow> string \<Rightarrow> string option" where
  "unseal2 sign token =
     (case split_on CHR ''.'' token of
        [encoded, signature] \<Rightarrow> if signature = sign encoded then Some encoded else None
      | _ \<Rightarrow> None)"

definition seal3 :: "string \<Rightarrow> (string \<Rightarrow> string) \<Rightarrow> string \<Rightarrow> string" where
  "seal3 tag sign encoded = tag @ ''.'' @ encoded @ ''.'' @ sign encoded"

definition unseal3 :: "string \<Rightarrow> (string \<Rightarrow> string) \<Rightarrow> string \<Rightarrow> string option" where
  "unseal3 tag sign token =
     (case split_on CHR ''.'' token of
        [version, encoded, signature] \<Rightarrow>
          if version = tag \<and> signature = sign encoded then Some encoded else None
      | _ \<Rightarrow> None)"

abbreviation dotless :: "string \<Rightarrow> bool" where
  "dotless s \<equiv> CHR ''.'' \<notin> set s"

locale sealing =
  fixes seal :: "string \<Rightarrow> string" and unseal :: "string \<Rightarrow> string option"
  assumes unseal_seal: "dotless e \<Longrightarrow> unseal (seal e) = Some e"
    and unseal_sound: "unseal t = Some e \<Longrightarrow> t = seal e \<and> dotless e"
begin

lemma unseal_iff: "unseal t = Some e \<longleftrightarrow> dotless e \<and> t = seal e"
  using unseal_seal unseal_sound by blast

lemma seal_inject: "dotless e \<Longrightarrow> seal e = seal e' \<Longrightarrow> dotless e' \<Longrightarrow> e = e'"
  by (metis option.inject unseal_seal)

lemma unseal_b64 [simp]: "unseal (seal (b64_encode p)) = Some (b64_encode p)"
  by (rule unseal_seal) simp

text \<open>The payload a token carries, if it is genuine.\<close>

definition payload :: "string \<Rightarrow> string option" where
  "payload t = Option.bind (unseal t) b64_decode"

lemma payload_seal [simp]: "payload (seal (b64_encode p)) = Some p"
  by (simp add: payload_def)

lemma payload_sound: "payload t = Some p \<Longrightarrow> \<exists>e. t = seal e \<and> dotless e \<and> b64_decode e = Some p"
  unfolding payload_def by (auto simp: bind_eq_Some_conv unseal_iff)

end

lemma split_seal2:
  assumes "dotless e" and "dotless (sign e)"
  shows "split_on CHR ''.'' (seal2 sign e) = [e, sign e]"
  using split_join [of "[e, sign e]" "CHR ''.''"] assms by (simp add: seal2_def)

lemma split_seal3:
  assumes "dotless tag" and "dotless e" and "dotless (sign e)"
  shows "split_on CHR ''.'' (seal3 tag sign e) = [tag, e, sign e]"
  using split_join [of "[tag, e, sign e]" "CHR ''.''"] assms by (simp add: seal3_def)

lemma dotless_mac_signature [simp]: "dotless (mac_signature hmac label secret e)"
  by (simp add: mac_signature_def)

lemma sealing_seal2:
  assumes "\<And>e. dotless (sign e)"
  shows "sealing (seal2 sign) (unseal2 sign)"
proof
  fix e assume "dotless e"
  with assms show "unseal2 sign (seal2 sign e) = Some e"
    by (simp add: unseal2_def split_seal2)
next
  fix t e assume "unseal2 sign t = Some e"
  then have "split_on CHR ''.'' t = [e, sign e]"
    by (auto simp: unseal2_def split: list.splits if_splits)
  then show "t = seal2 sign e \<and> dotless e"
    unfolding split_on_eq_iff by (simp add: seal2_def)
qed

lemma sealing_seal3:
  assumes "\<And>e. dotless (sign e)" and "dotless tag"
  shows "sealing (seal3 tag sign) (unseal3 tag sign)"
proof
  fix e assume "dotless e"
  with assms show "unseal3 tag sign (seal3 tag sign e) = Some e"
    by (simp add: unseal3_def split_seal3)
next
  fix t e assume "unseal3 tag sign t = Some e"
  then have "split_on CHR ''.'' t = [tag, e, sign e]"
    by (auto simp: unseal3_def split: list.splits if_splits)
  then show "t = seal3 tag sign e \<and> dotless e"
    unfolding split_on_eq_iff by (simp add: seal3_def)
qed

end
