(* ===== verification/MessageLifecycle.thy ===== *)
theory MessageLifecycle
  imports StableSort SignedToken
begin

text \<open>
  Package \<open>internal/messagelifecycle\<close> (lifecycle.go): history pages and their signed
  cursors, read cursors, signed tombstones and the retention rules. JSON encoding is a parameter
  (\<open>marshal\<close>, with None for its error, and \<open>unmarshal\<close>), as is the HMAC.
\<close>

datatype message_error = ErrInvalidCursor | ErrInvalidTombstone | ErrExpiredTombstone | ErrMarshal

record Message =
  msg_ID :: string
  msg_CreatedAt :: time
  msg_AttachmentBytes :: int
  msg_EveryTargetFetched :: bool
  msg_ExpiresAt :: time
  msg_Pinned :: bool
  msg_TombstonedAt :: "time option"

record Cursor =
  cur_CreatedAt :: time
  cur_ID :: string

definition zero_cursor :: Cursor where
  "zero_cursor = \<lparr>cur_CreatedAt = 0, cur_ID = ''''\<rparr>"

section \<open>Signed cursors\<close>

definition NewCursorCodec :: "string \<Rightarrow> message_error + string" where
  "NewCursorCodec secret = (if length secret < 32 then Inl ErrInvalidCursor else Inr secret)"

definition cursor_label :: string where
  "cursor_label = ''nexdrop/message-cursor/v1'' @ [CHR 0x0A]"

abbreviation cursor_signature :: "hmac \<Rightarrow> string \<Rightarrow> string \<Rightarrow> string" where
  "cursor_signature hmac secret \<equiv> mac_signature hmac cursor_label secret"

definition Cursor_Encode ::
  "hmac \<Rightarrow> (Cursor \<Rightarrow> string option) \<Rightarrow> string \<Rightarrow> Cursor \<Rightarrow> message_error + string" where
  "Cursor_Encode hmac marshal secret cursor =
     (if cur_ID cursor = '''' \<or> IsZero (cur_CreatedAt cursor) then Inl ErrInvalidCursor
      else case marshal cursor of
             None \<Rightarrow> Inl ErrMarshal
           | Some payload \<Rightarrow> Inr (seal2 (cursor_signature hmac secret) (b64_encode payload)))"

definition Cursor_Decode ::
  "hmac \<Rightarrow> (string \<Rightarrow> Cursor option) \<Rightarrow> string \<Rightarrow> string \<Rightarrow> message_error + Cursor" where
  "Cursor_Decode hmac unmarshal secret value =
     (case unseal2 (cursor_signature hmac secret) value of
        None \<Rightarrow> Inl ErrInvalidCursor
      | Some encoded \<Rightarrow>
          (case b64_decode encoded of
             None \<Rightarrow> Inl ErrInvalidCursor
           | Some payload \<Rightarrow>
               (case unmarshal payload of
                  None \<Rightarrow> Inl ErrInvalidCursor
                | Some cursor \<Rightarrow>
                    if cur_ID cursor = '''' \<or> IsZero (cur_CreatedAt cursor)
                    then Inl ErrInvalidCursor else Inr cursor)))"

interpretation cursor: sealing "seal2 (cursor_signature hmac secret)" "unseal2 (cursor_signature hmac secret)"
  for hmac secret
  by (rule sealing_seal2) simp

lemma Cursor_Decode_iff:
  "Cursor_Decode hmac unmarshal secret t = Inr c \<longleftrightarrow>
     (\<exists>e p. dotless e \<and> t = seal2 (cursor_signature hmac secret) e \<and> b64_decode e = Some p \<and>
        unmarshal p = Some c \<and> cur_ID c \<noteq> '''' \<and> cur_CreatedAt c \<noteq> 0)"
proof -
  have "Cursor_Decode hmac unmarshal secret t = Inr c \<longleftrightarrow>
     (\<exists>e p. unseal2 (cursor_signature hmac secret) t = Some e \<and> b64_decode e = Some p \<and>
        unmarshal p = Some c \<and> cur_ID c \<noteq> '''' \<and> cur_CreatedAt c \<noteq> 0)"
    by (auto simp: Cursor_Decode_def split: option.splits if_splits)
  then show ?thesis by (simp add: cursor.unseal_iff conj_assoc)
qed

lemma Cursor_Encode_Decode:
  assumes "Cursor_Encode hmac marshal secret c = Inr t"
    and "\<And>p. marshal c = Some p \<Longrightarrow> unmarshal p = Some c"
  shows "Cursor_Decode hmac unmarshal secret t = Inr c"
  using assms by (auto simp: Cursor_Encode_def Cursor_Decode_def split: if_splits option.splits)

section \<open>History pages\<close>

definition msg_less :: "Message \<Rightarrow> Message \<Rightarrow> bool" where
  "msg_less i j =
     (if msg_CreatedAt i \<noteq> msg_CreatedAt j then msg_CreatedAt j < msg_CreatedAt i
      else msg_ID j < msg_ID i)"

definition msg_key :: "Message \<Rightarrow> int \<times> string" where
  "msg_key m = (msg_CreatedAt m, msg_ID m)"

interpretation history: keyed_order_desc msg_less msg_key
  by unfold_locales (auto simp: msg_less_def msg_key_def)

definition skipped :: "Cursor \<Rightarrow> Message \<Rightarrow> bool" where
  "skipped after m \<longleftrightarrow> \<not> IsZero (cur_CreatedAt after) \<and>
     (cur_CreatedAt after < msg_CreatedAt m \<or>
      msg_CreatedAt m = cur_CreatedAt after \<and> cur_ID after \<le> msg_ID m)"

fun page_loop :: "Cursor \<Rightarrow> int \<Rightarrow> Message list \<Rightarrow> Message list \<Rightarrow> Message list" where
  "page_loop after limit result [] = result"
| "page_loop after limit result (m # ms) =
     (if skipped after m then page_loop after limit result ms
      else let result' = result @ [m]
           in if int (length result') = limit then result' else page_loop after limit result' ms)"

definition effective_limit :: "int \<Rightarrow> int" where
  "effective_limit limit = (if limit < 1 \<or> 1000 < limit then 100 else limit)"

definition Page :: "Message list \<Rightarrow> Cursor \<Rightarrow> int \<Rightarrow> Message list \<times> Cursor" where
  "Page messages after limit0 =
     (let limit = effective_limit limit0;
          result = page_loop after limit [] (SliceStable msg_less messages)
      in if result = [] \<or> int (length result) < limit then (result, zero_cursor)
         else let m = last result
              in (result, \<lparr>cur_CreatedAt = msg_CreatedAt m, cur_ID = msg_ID m\<rparr>))"

lemma effective_limit_pos: "1 \<le> effective_limit l"
  by (simp add: effective_limit_def)

lemma page_loop_take:
  "int (length result) < limit \<Longrightarrow>
     page_loop after limit result ms =
       result @ take (nat limit - length result) (filter (\<lambda>m. \<not> skipped after m) ms)"
proof (induction ms arbitrary: result)
  case Nil
  show ?case by simp
next
  case (Cons m ms)
  show ?case
  proof (cases "skipped after m")
    case True
    with Cons show ?thesis by simp
  next
    case False
    obtain k where k: "nat limit - length result = Suc k"
      using Cons.prems by (cases "nat limit - length result") auto
    show ?thesis
    proof (cases "int (length (result @ [m])) = limit")
      case True
      then have "k = 0" using k by auto
      with False True k show ?thesis by (simp add: Let_def)
    next
      case notfull: False
      with Cons.prems have "int (length (result @ [m])) < limit" by simp
      moreover have "nat limit - length (result @ [m]) = k" using k by simp
      ultimately show ?thesis using Cons.IH [of "result @ [m]"] False notfull k by (simp add: Let_def)
    qed
  qed
qed

text \<open>What is left to read after a cursor.\<close>

definition rest_after :: "Message list \<Rightarrow> Cursor \<Rightarrow> Message list" where
  "rest_after messages after = filter (\<lambda>m. \<not> skipped after m) (SliceStable msg_less messages)"

lemma Page_rest:
  "Page messages after limit =
     (let n = nat (effective_limit limit); result = take n (rest_after messages after)
      in (result, if length (rest_after messages after) < n then zero_cursor
                  else \<lparr>cur_CreatedAt = msg_CreatedAt (last result), cur_ID = msg_ID (last result)\<rparr>))"
proof -
  let ?n = "nat (effective_limit limit)" and ?r = "rest_after messages after"
  have res: "page_loop after (effective_limit limit) [] (SliceStable msg_less messages) = take ?n ?r"
    using effective_limit_pos [of limit] by (simp add: page_loop_take rest_after_def)
  have "take ?n ?r = [] \<or> int (length (take ?n ?r)) < effective_limit limit \<longleftrightarrow> length ?r < ?n"
    using effective_limit_pos [of limit] by auto
  then show ?thesis by (simp add: Page_def Let_def res)
qed

lemma skipped_iff:
  "cur_CreatedAt c \<noteq> 0 \<Longrightarrow> skipped c m \<longleftrightarrow> (cur_CreatedAt c, cur_ID c) \<le> msg_key m"
  by (auto simp: skipped_def msg_key_def less_eq_prod_def)

lemma rest_after_zero [simp]: "rest_after messages zero_cursor = SliceStable msg_less messages"
  by (simp add: rest_after_def skipped_def zero_cursor_def)

lemma strictly_descending:
  fixes ks :: "'k::linorder list"
  shows "distinct ks \<Longrightarrow> sorted_wrt (\<ge>) ks \<Longrightarrow> sorted_wrt (\<lambda>a b. b < a) ks"
  by (induction ks) (auto simp: order.strict_iff_order)

lemma history_strict:
  assumes "inj_on msg_key (set messages)" and "distinct messages"
  shows "sorted_wrt (\<lambda>x y. msg_key y < msg_key x) (SliceStable msg_less messages)"
proof -
  have "distinct (map msg_key (SliceStable msg_less messages))"
    using assms by (simp add: distinct_map)
  moreover have "sorted_wrt (\<ge>) (map msg_key (SliceStable msg_less messages))"
    by (simp add: history.ordered_key [symmetric] history.ordered_SliceStable)
  ultimately have "sorted_wrt (\<lambda>a b. b < a) (map msg_key (SliceStable msg_less messages))"
    by (rule strictly_descending)
  then show ?thesis by (simp add: sorted_wrt_map)
qed

text \<open>
  The reader: pages are requested from a cursor until the zero cursor comes back. Fuel bounds the
  number of requests; one more than the number of messages is enough.
\<close>

fun read_history :: "nat \<Rightarrow> Message list \<Rightarrow> int \<Rightarrow> Cursor \<Rightarrow> Message list option" where
  "read_history 0 messages limit after = None"
| "read_history (Suc fuel) messages limit after =
     (let (page, next) = Page messages after limit
      in if next = zero_cursor then Some page
         else map_option (\<lambda>more. page @ more) (read_history fuel messages limit next))"

lemma filter_strict_drop:
  fixes f :: "'a \<Rightarrow> 'k::linorder"
  assumes "sorted_wrt (\<lambda>x y. f y < f x) xs" and "0 < n" and "n \<le> length xs"
  shows "filter (\<lambda>m. f m < f (last (take n xs))) xs = drop n xs"
proof -
  let ?k = "f (last (take n xs))"
  have "last (take n xs) = xs ! (n - 1)"
    using assms(2,3) by (subst last_conv_nth) auto
  moreover have "f (xs ! (n - 1)) \<le> f x" if "x \<in> set (take n xs)" for x
  proof -
    from that assms(3) obtain i where i: "i < n" "x = xs ! i" by (auto simp: in_set_conv_nth)
    show ?thesis
    proof (cases "i = n - 1")
      case False
      with i assms have "f (xs ! (n - 1)) < f (xs ! i)"
        by (intro sorted_wrt_nth_less [OF assms(1)]) auto
      with i show ?thesis by simp
    qed (use i in simp)
  qed
  ultimately have "filter (\<lambda>m. f m < ?k) (take n xs) = []"
    by (auto simp: filter_empty_conv not_less)
  moreover have "filter (\<lambda>m. f m < ?k) (drop n xs) = drop n xs"
  proof (rule filter_True, rule ballI)
    fix x assume "x \<in> set (drop n xs)"
    moreover have "last (take n xs) \<in> set (take n xs)"
      using assms(2,3) by (intro last_in_set) auto
    moreover have "sorted_wrt (\<lambda>x y. f y < f x) (take n xs @ drop n xs)" using assms(1) by simp
    ultimately show "f x < ?k" by (simp only: sorted_wrt_append)
  qed
  ultimately show ?thesis by (metis append_take_drop_id filter_append append_Nil)
qed

lemma rest_after_last:
  assumes strict: "sorted_wrt (\<lambda>x y. msg_key y < msg_key x) (SliceStable msg_less messages)"
    and nonzero: "\<forall>m \<in> set messages. msg_CreatedAt m \<noteq> 0"
    and n: "0 < n" "n \<le> length (rest_after messages after)"
    and m: "m = last (take n (rest_after messages after))"
    and c: "c = \<lparr>cur_CreatedAt = msg_CreatedAt m, cur_ID = msg_ID m\<rparr>"
  shows "rest_after messages c = drop n (rest_after messages after)" and "c \<noteq> zero_cursor"
proof -
  let ?r = "rest_after messages after"
  have "m \<in> set (take n ?r)" unfolding m using n by (intro last_in_set) auto
  then have mem: "m \<in> set ?r" by (rule in_set_takeD)
  then have nz: "msg_CreatedAt m \<noteq> 0" and keep: "\<not> skipped after m"
    using nonzero by (auto simp: rest_after_def)
  then show "c \<noteq> zero_cursor" by (simp add: zero_cursor_def c)
  have skip: "skipped c x \<longleftrightarrow> msg_key m \<le> msg_key x" for x
    using nz skipped_iff [of c] by (simp add: msg_key_def c)
  have "\<not> skipped after x" if "msg_key x < msg_key m" for x
  proof (cases "cur_CreatedAt after = 0")
    case True
    then show ?thesis by (simp add: skipped_def)
  next
    case False
    with keep have "msg_key m < (cur_CreatedAt after, cur_ID after)" by (simp add: skipped_iff not_le)
    with that have "msg_key x < (cur_CreatedAt after, cur_ID after)" by (rule less_trans)
    with False show ?thesis by (simp add: skipped_iff not_le)
  qed
  then have "rest_after messages c = filter (\<lambda>x. msg_key x < msg_key m) ?r"
    unfolding rest_after_def filter_filter skip not_le by (metis (mono_tags, lifting))
  also have "\<dots> = drop n ?r"
    unfolding m using strict n by (intro filter_strict_drop) (auto simp: rest_after_def sorted_wrt_filter)
  finally show "rest_after messages c = drop n ?r" .
qed

lemma read_history_rest:
  assumes strict: "sorted_wrt (\<lambda>x y. msg_key y < msg_key x) (SliceStable msg_less messages)"
    and nonzero: "\<forall>m \<in> set messages. msg_CreatedAt m \<noteq> 0"
    and "length (rest_after messages after) < fuel"
  shows "read_history fuel messages limit after = Some (rest_after messages after)"
  using assms(3)
proof (induction fuel arbitrary: after)
  case 0
  then show ?case by simp
next
  case (Suc fuel)
  let ?n = "nat (effective_limit limit)" and ?r = "rest_after messages after"
  let ?m = "last (take ?n ?r)"
  let ?c = "\<lparr>cur_CreatedAt = msg_CreatedAt ?m, cur_ID = msg_ID ?m\<rparr>"
  have n: "0 < ?n" using effective_limit_pos [of limit] by simp
  show ?case
  proof (cases "length ?r < ?n")
    case True
    then have "Page messages after limit = (?r, zero_cursor)" by (simp add: Page_rest Let_def)
    then show ?thesis by simp
  next
    case False
    then have page: "Page messages after limit = (take ?n ?r, ?c)" by (simp add: Page_rest Let_def)
    from False have le: "?n \<le> length ?r" by simp
    note next_page = rest_after_last [OF strict nonzero n le refl refl]
    have "length (rest_after messages ?c) < fuel"
      unfolding next_page(1) using Suc.prems n le by simp
    from Suc.IH [OF this] next_page page show ?thesis by simp
  qed
qed

text \<open>
  C4. Reading the history page by page, from the zero cursor and with any requested page size,
  terminates and yields every message exactly once, newest first: messages are identified by
  creation time and identifier, and none has the zero time.
\<close>

theorem read_history_complete:
  assumes "inj_on msg_key (set messages)" and "distinct messages"
    and "\<forall>m \<in> set messages. msg_CreatedAt m \<noteq> 0" and "length messages < fuel"
  shows "\<exists>all. read_history fuel messages limit zero_cursor = Some all \<and> mset all = mset messages \<and>
    sorted_wrt (\<lambda>x y. msg_key y < msg_key x) all"
proof -
  note strict = history_strict [OF assms(1,2)]
  have "length (rest_after messages zero_cursor) < fuel" using assms(4) by simp
  from read_history_rest [OF strict assms(3) this] strict show ?thesis by simp
qed

definition demo_message :: "int \<Rightarrow> string \<Rightarrow> Message" where
  "demo_message t i = \<lparr>msg_ID = i, msg_CreatedAt = t, msg_AttachmentBytes = 0,
     msg_EveryTargetFetched = False, msg_ExpiresAt = 0, msg_Pinned = False, msg_TombstonedAt = None\<rparr>"

theorem read_history_complete_witness:
  "\<exists>all. read_history 9 [demo_message 5 ''a'', demo_message 7 ''b'', demo_message 5 ''c''] 2 zero_cursor
       = Some all \<and> mset all = {#demo_message 5 ''a'', demo_message 7 ''b'', demo_message 5 ''c''#}"
proof -
  let ?ms = "[demo_message 5 ''a'', demo_message 7 ''b'', demo_message 5 ''c'']"
  have "inj_on msg_key (set ?ms)" "distinct ?ms" "\<forall>m \<in> set ?ms. msg_CreatedAt m \<noteq> 0"
    by (auto simp: inj_on_def demo_message_def msg_key_def)
  from read_history_complete [OF this, of 9 2] show ?thesis by auto
qed

text \<open>
  A page that starts at a cursor does not change when newer messages arrive: messages at or
  above the cursor never move what was, or is still to be, returned below it.
\<close>

theorem Page_unaffected_by_newer:
  assumes "cur_CreatedAt after \<noteq> 0"
    and "\<forall>m \<in> set newer. (cur_CreatedAt after, cur_ID after) \<le> msg_key m"
  shows "Page (newer @ messages) after limit = Page messages after limit \<and>
    Page (messages @ newer) after limit = Page messages after limit"
proof -
  have "rest_after ms after = SliceStable msg_less (filter (\<lambda>m. \<not> skipped after m) ms)" for ms
    by (simp add: rest_after_def history.SliceStable_filter)
  moreover have "filter (\<lambda>m. \<not> skipped after m) newer = []"
    using assms skipped_iff [of after] by (auto simp: filter_empty_conv)
  ultimately have "rest_after (newer @ messages) after = rest_after messages after"
    and "rest_after (messages @ newer) after = rest_after messages after"
    by simp_all
  then show ?thesis by (simp add: Page_rest)
qed

theorem Page_unaffected_by_newer_witness:
  "Page ([demo_message 9 ''x''] @ [demo_message 3 ''a'']) \<lparr>cur_CreatedAt = 4, cur_ID = ''q''\<rparr> 10 =
   Page [demo_message 3 ''a''] \<lparr>cur_CreatedAt = 4, cur_ID = ''q''\<rparr> 10"
  by (rule Page_unaffected_by_newer [THEN conjunct1])
     (auto simp: demo_message_def msg_key_def less_eq_prod_def)

section \<open>Read cursors\<close>

record ReadCursor =
  read_CreatedAt :: time
  read_MessageID :: string

definition AdvanceRead :: "ReadCursor \<Rightarrow> ReadCursor \<Rightarrow> ReadCursor" where
  "AdvanceRead current candidate =
     (if read_CreatedAt current < read_CreatedAt candidate \<or>
         read_CreatedAt candidate = read_CreatedAt current \<and>
         read_MessageID current < read_MessageID candidate
      then candidate else current)"

definition read_key :: "ReadCursor \<Rightarrow> int \<times> string" where
  "read_key c = (read_CreatedAt c, read_MessageID c)"

lemma read_key_inject: "read_key c = read_key d \<longleftrightarrow> c = d"
  by (cases c; cases d) (simp add: read_key_def)

lemma read_key_AdvanceRead: "read_key (AdvanceRead c d) = max (read_key c) (read_key d)"
  by (auto simp: AdvanceRead_def read_key_def max_def less_eq_prod_def)

lemma read_key_foldl:
  "read_key (foldl AdvanceRead c ds) = Max (insert (read_key c) (read_key ` set ds))"
proof (induction ds arbitrary: c)
  case (Cons d ds)
  show ?case
    by (cases "ds = []") (simp_all add: Cons read_key_AdvanceRead max.assoc)
qed simp

text \<open>
  A device's read cursor only moves forward, and where it ends depends only on which updates
  arrived, not on their order or repetition.
\<close>

theorem AdvanceRead_converges:
  "read_key c \<le> read_key (foldl AdvanceRead c ds) \<and>
   (set ds = set ds' \<longrightarrow> foldl AdvanceRead c ds = foldl AdvanceRead c ds')"
proof (intro conjI impI)
  show "read_key c \<le> read_key (foldl AdvanceRead c ds)" by (simp add: read_key_foldl)
  assume "set ds = set ds'"
  then have "read_key (foldl AdvanceRead c ds) = read_key (foldl AdvanceRead c ds')"
    by (simp add: read_key_foldl)
  then show "foldl AdvanceRead c ds = foldl AdvanceRead c ds'" by (simp add: read_key_inject)
qed

theorem AdvanceRead_converges_witness:
  "let a = \<lparr>read_CreatedAt = 1, read_MessageID = ''a''\<rparr>; b = \<lparr>read_CreatedAt = 2, read_MessageID = ''b''\<rparr>
   in foldl AdvanceRead a [b, a] = foldl AdvanceRead a [a, b, b]"
  unfolding Let_def by (rule AdvanceRead_converges [THEN conjunct2, THEN mp]) auto

section \<open>Tombstones\<close>

datatype DeleteScope = DeleteLocal | DeleteAttachmentBody | DeleteEverywhere | DeleteScopeOther string

record Tombstone =
  tomb_Version :: int
  tomb_MessageID :: string
  tomb_Scope :: DeleteScope
  tomb_IssuedAt :: int
  tomb_ExpiresAt :: int
  tomb_ActorID :: string

definition validDeleteScope :: "DeleteScope \<Rightarrow> bool" where
  "validDeleteScope scope \<longleftrightarrow> scope = DeleteLocal \<or> scope = DeleteAttachmentBody \<or> scope = DeleteEverywhere"

definition NewTombstoneSigner :: "string \<Rightarrow> message_error + string" where
  "NewTombstoneSigner secret = (if length secret < 32 then Inl ErrInvalidTombstone else Inr secret)"

definition tombstone_label :: string where
  "tombstone_label = ''nexdrop/message-tombstone/v1'' @ [CHR 0x0A]"

abbreviation tombstone_signature :: "hmac \<Rightarrow> string \<Rightarrow> string \<Rightarrow> string" where
  "tombstone_signature hmac secret \<equiv> mac_signature hmac tombstone_label secret"

definition Tombstone_Issue ::
  "hmac \<Rightarrow> (Tombstone \<Rightarrow> string option) \<Rightarrow> string \<Rightarrow> time \<Rightarrow> string \<Rightarrow> string \<Rightarrow> DeleteScope \<Rightarrow> duration \<Rightarrow>
     message_error + string" where
  "Tombstone_Issue hmac marshal secret now messageID actorID scope ttl =
     (if messageID = '''' \<or> actorID = '''' \<or> \<not> validDeleteScope scope \<or> ttl \<le> 0
      then Inl ErrInvalidTombstone
      else case marshal \<lparr>tomb_Version = 1, tomb_MessageID = messageID, tomb_Scope = scope,
               tomb_IssuedAt = time_Unix now, tomb_ExpiresAt = time_Unix (now + ttl),
               tomb_ActorID = actorID\<rparr> of
             None \<Rightarrow> Inl ErrMarshal
           | Some payload \<Rightarrow> Inr (seal2 (tombstone_signature hmac secret) (b64_encode payload)))"

definition Tombstone_Verify ::
  "hmac \<Rightarrow> (string \<Rightarrow> Tombstone option) \<Rightarrow> string \<Rightarrow> time \<Rightarrow> string \<Rightarrow> message_error + Tombstone" where
  "Tombstone_Verify hmac unmarshal secret now value =
     (case unseal2 (tombstone_signature hmac secret) value of
        None \<Rightarrow> Inl ErrInvalidTombstone
      | Some encoded \<Rightarrow>
          (case b64_decode encoded of
             None \<Rightarrow> Inl ErrInvalidTombstone
           | Some payload \<Rightarrow>
               (case unmarshal payload of
                  None \<Rightarrow> Inl ErrInvalidTombstone
                | Some tomb \<Rightarrow>
                    if tomb_Version tomb \<noteq> 1 \<or> tomb_MessageID tomb = '''' \<or> tomb_ActorID tomb = '''' \<or>
                       \<not> validDeleteScope (tomb_Scope tomb)
                    then Inl ErrInvalidTombstone
                    else if Unix_time (tomb_ExpiresAt tomb) < now then Inl ErrExpiredTombstone
                    else Inr tomb)))"

interpretation tombstone: sealing "seal2 (tombstone_signature hmac secret)" "unseal2 (tombstone_signature hmac secret)"
  for hmac secret
  by (rule sealing_seal2) simp

lemma Tombstone_Verify_iff:
  "Tombstone_Verify hmac unmarshal secret now t = Inr tomb \<longleftrightarrow>
     (\<exists>e p. dotless e \<and> t = seal2 (tombstone_signature hmac secret) e \<and> b64_decode e = Some p \<and>
        unmarshal p = Some tomb \<and> tomb_Version tomb = 1 \<and> tomb_MessageID tomb \<noteq> '''' \<and>
        tomb_ActorID tomb \<noteq> '''' \<and> validDeleteScope (tomb_Scope tomb) \<and>
        now \<le> Unix_time (tomb_ExpiresAt tomb))"
proof -
  have "Tombstone_Verify hmac unmarshal secret now t = Inr tomb \<longleftrightarrow>
     (\<exists>e p. unseal2 (tombstone_signature hmac secret) t = Some e \<and> b64_decode e = Some p \<and>
        unmarshal p = Some tomb \<and> tomb_Version tomb = 1 \<and> tomb_MessageID tomb \<noteq> '''' \<and>
        tomb_ActorID tomb \<noteq> '''' \<and> validDeleteScope (tomb_Scope tomb) \<and>
        now \<le> Unix_time (tomb_ExpiresAt tomb))"
    by (auto simp: Tombstone_Verify_def split: option.splits if_splits)
  then show ?thesis by (simp add: tombstone.unseal_iff conj_assoc)
qed

lemma Tombstone_Verify_Issue:
  assumes issue: "Tombstone_Issue hmac marshal secret now messageID actorID scope ttl = Inr t"
    and json: "\<And>c p. marshal c = Some p \<Longrightarrow> unmarshal p = Some c"
  shows "Tombstone_Verify hmac unmarshal secret later t =
    (if Unix_time (time_Unix (now + ttl)) < later then Inl ErrExpiredTombstone
     else Inr \<lparr>tomb_Version = 1, tomb_MessageID = messageID, tomb_Scope = scope,
       tomb_IssuedAt = time_Unix now, tomb_ExpiresAt = time_Unix (now + ttl), tomb_ActorID = actorID\<rparr>)"
proof -
  let ?tomb = "\<lparr>tomb_Version = 1, tomb_MessageID = messageID, tomb_Scope = scope,
     tomb_IssuedAt = time_Unix now, tomb_ExpiresAt = time_Unix (now + ttl), tomb_ActorID = actorID\<rparr>"
  from issue obtain p where valid: "messageID \<noteq> ''''" "actorID \<noteq> ''''" "validDeleteScope scope"
    and p: "marshal ?tomb = Some p"
    and t: "t = seal2 (tombstone_signature hmac secret) (b64_encode p)"
    by (auto simp: Tombstone_Issue_def split: if_splits option.splits)
  from json [OF p] valid show ?thesis
    by (simp add: Tombstone_Verify_def t)
qed

text \<open>
  A verified tombstone is exactly a token sealed with the Node's key for tombstones; one issued
  at \<open>now\<close> is accepted later exactly while its lifetime, cut to whole seconds, lasts (so never
  after \<open>now + ttl\<close>), and then names the message, actor and scope it was issued for. (JSON
  reads back what it wrote.)
\<close>

theorem Tombstone_accepted:
  assumes "Tombstone_Issue hmac marshal secret now messageID actorID scope ttl = Inr t"
    and "\<And>c p. marshal c = Some p \<Longrightarrow> unmarshal p = Some c"
  shows "(\<exists>tomb. Tombstone_Verify hmac unmarshal secret later t = Inr tomb \<and>
       tomb_MessageID tomb = messageID \<and> tomb_ActorID tomb = actorID \<and> tomb_Scope tomb = scope) \<longleftrightarrow>
     later \<le> Unix_time (time_Unix (now + ttl))"
proof -
  have "Tombstone_Verify hmac unmarshal secret later t =
    (if Unix_time (time_Unix (now + ttl)) < later then Inl ErrExpiredTombstone
     else Inr \<lparr>tomb_Version = 1, tomb_MessageID = messageID, tomb_Scope = scope,
       tomb_IssuedAt = time_Unix now, tomb_ExpiresAt = time_Unix (now + ttl), tomb_ActorID = actorID\<rparr>)"
    using assms by (rule Tombstone_Verify_Issue)
  then show ?thesis by auto
qed

definition demo_tombstone :: Tombstone where
  "demo_tombstone = \<lparr>tomb_Version = 1, tomb_MessageID = ''m'', tomb_Scope = DeleteEverywhere,
     tomb_IssuedAt = 0, tomb_ExpiresAt = 60, tomb_ActorID = ''u''\<rparr>"

theorem Tombstone_accepted_witness:
  "let hmac = (\<lambda>key text. key @ rev text);
       marshal = (\<lambda>c. if c = demo_tombstone then Some ''json'' else None);
       unmarshal = (\<lambda>p. if p = ''json'' then Some demo_tombstone else None);
       t = seal2 (tombstone_signature hmac ''k'') (b64_encode ''json'')
   in \<exists>tomb. Tombstone_Verify hmac unmarshal ''k'' (Unix_time 60) t = Inr tomb \<and>
        tomb_MessageID tomb = ''m'' \<and> tomb_ActorID tomb = ''u'' \<and> tomb_Scope tomb = DeleteEverywhere"
proof -
  let ?hmac = "\<lambda>key text. key @ rev text :: string"
  let ?m = "\<lambda>c. if c = demo_tombstone then Some ''json'' else None"
  let ?u = "\<lambda>p. if p = ''json'' then Some demo_tombstone else None"
  have now: "time_Unix (Unix_time 0) = 0" "time_Unix (Unix_time 0 + 60 * second) = 60"
    by (simp_all add: time_Unix_def Unix_time_def)
  then have "Tombstone_Issue ?hmac ?m ''k'' (Unix_time 0) ''m'' ''u'' DeleteEverywhere (60 * second) =
      Inr (seal2 (tombstone_signature ?hmac ''k'') (b64_encode ''json''))"
    by (simp add: Tombstone_Issue_def validDeleteScope_def demo_tombstone_def)
  moreover have "?u p = Some c" if "?m c = Some p" for c p
    using that by (auto split: if_splits)
  ultimately have "(\<exists>tomb. Tombstone_Verify ?hmac ?u ''k'' (Unix_time 60)
        (seal2 (tombstone_signature ?hmac ''k'') (b64_encode ''json'')) = Inr tomb \<and>
        tomb_MessageID tomb = ''m'' \<and> tomb_ActorID tomb = ''u'' \<and> tomb_Scope tomb = DeleteEverywhere) \<longleftrightarrow>
      Unix_time 60 \<le> Unix_time (time_Unix (Unix_time 0 + 60 * second))"
    by (rule Tombstone_accepted)
  then show ?thesis unfolding Let_def now(2) by simp
qed

section \<open>Retention\<close>

datatype RetentionMode = RetentionPermanent | RetentionFixedDays | RetentionAfterAllDownloaded
  | RetentionBodyAfterExpiry | RetentionModeOther string

record RetentionPolicy =
  ret_Mode :: RetentionMode
  ret_Days :: int

datatype RetentionAction = RetentionKeep | RetentionDeleteBody | RetentionTombstone

definition EvaluateRetention :: "Message \<Rightarrow> RetentionPolicy \<Rightarrow> time \<Rightarrow> RetentionAction" where
  "EvaluateRetention m policy now =
     (if msg_Pinned m then RetentionKeep
      else case ret_Mode policy of
        RetentionPermanent \<Rightarrow> RetentionKeep
      | RetentionFixedDays \<Rightarrow>
          (if 0 < ret_Days policy \<and>
              msg_CreatedAt m + i64 (i64 (ret_Days policy * 24) * hour) \<le> now
           then RetentionTombstone else RetentionKeep)
      | RetentionAfterAllDownloaded \<Rightarrow>
          (if msg_EveryTargetFetched m \<and> 0 < msg_AttachmentBytes m then RetentionDeleteBody
           else RetentionKeep)
      | RetentionBodyAfterExpiry \<Rightarrow>
          (if \<not> IsZero (msg_ExpiresAt m) \<and> msg_ExpiresAt m \<le> now \<and> 0 < msg_AttachmentBytes m
           then RetentionDeleteBody else RetentionKeep)
      | RetentionModeOther v \<Rightarrow> RetentionKeep)"

lemma retention_period:
  assumes "0 < days" and "days \<le> 106751"
  shows "i64 (i64 (days * 24) * hour) = days * 24 * hour"
proof -
  have "in64 (days * 24)" and "in64 (days * 24 * hour)" using assms by (auto simp: in64_def)
  then show ?thesis by simp
qed

text \<open>
  Retention deletes only what its policy allows: a tombstone is created only for an unpinned
  message under a fixed number of days that has run out, and (for at most 106751 days) always
  once they have; a body is deleted exactly from an unpinned message that has one, when all
  targets fetched it or it expired, under the policy that says so.
\<close>

theorem EvaluateRetention_policy:
  "(EvaluateRetention m policy now = RetentionTombstone \<and> ret_Days policy \<le> 106751 \<longleftrightarrow>
      \<not> msg_Pinned m \<and> ret_Mode policy = RetentionFixedDays \<and>
      ret_Days policy \<in> {1..106751} \<and> msg_CreatedAt m + ret_Days policy * 24 * hour \<le> now) \<and>
   (EvaluateRetention m policy now = RetentionDeleteBody \<longleftrightarrow>
      \<not> msg_Pinned m \<and> 0 < msg_AttachmentBytes m \<and>
      (ret_Mode policy = RetentionAfterAllDownloaded \<and> msg_EveryTargetFetched m \<or>
       ret_Mode policy = RetentionBodyAfterExpiry \<and> msg_ExpiresAt m \<noteq> 0 \<and> msg_ExpiresAt m \<le> now))"
  by (auto simp: EvaluateRetention_def retention_period split: RetentionMode.splits)

text \<open>
  The number of days is multiplied out in 64-bit nanoseconds: at 106752 days (about 292
  years) the product wraps to a negative period, and an unpinned message is tombstoned the
  moment it is created.
\<close>

theorem EvaluateRetention_overflow:
  "\<not> msg_Pinned m \<Longrightarrow>
     EvaluateRetention m \<lparr>ret_Mode = RetentionFixedDays, ret_Days = 106752\<rparr> (msg_CreatedAt m) =
     RetentionTombstone"
  by (simp add: EvaluateRetention_def i64_def)

theorem EvaluateRetention_overflow_witness:
  "EvaluateRetention (demo_message 5 ''a'') \<lparr>ret_Mode = RetentionFixedDays, ret_Days = 106752\<rparr> 5 =
     RetentionTombstone"
  using EvaluateRetention_overflow [of "demo_message 5 ''a''"] by (simp add: demo_message_def)

end
