(* ===== verification/Paths.thy ===== *)
theory Paths
  imports Encoding
begin

text \<open>
  \<open>path.Clean\<close>, \<open>path.Dir\<close> and \<open>filepath.Join\<close> on slash-separated paths, by their segments, and
  what they do on paths made of plain segments.
\<close>

section \<open>Slash-separated paths (package path)\<close>

abbreviation slash :: char where "slash \<equiv> CHR ''/''"

fun clean_segments :: "bool \<Rightarrow> string list \<Rightarrow> string list \<Rightarrow> string list" where
  "clean_segments rooted acc [] = rev acc"
| "clean_segments rooted acc (w # ws) =
     (if w = '''' \<or> w = ''.'' then clean_segments rooted acc ws
      else if w = ''..'' then
        (case acc of
           [] \<Rightarrow> clean_segments rooted (if rooted then [] else [''..'']) ws
         | v # vs \<Rightarrow> if v = ''..'' then clean_segments rooted (''..'' # acc) ws
                    else clean_segments rooted vs ws)
      else clean_segments rooted (w # acc) ws)"

definition path_Clean :: "string \<Rightarrow> string" where
  "path_Clean p =
     (let rooted = HasPrefix p ''/'';
          segments = clean_segments rooted [] (split_on slash p)
      in if rooted then slash # join_with ''/'' segments
         else if segments = [] then ''.'' else join_with ''/'' segments)"

definition path_Dir :: "string \<Rightarrow> string" where
  "path_Dir p = path_Clean (rev (dropWhile (\<lambda>c. c \<noteq> slash) (rev p)))"

definition plain_segment :: "string \<Rightarrow> bool" where
  "plain_segment w \<longleftrightarrow> w \<noteq> '''' \<and> w \<noteq> ''.'' \<and> w \<noteq> ''..'' \<and> slash \<notin> set w"

lemma clean_plain:
  "\<forall>w \<in> set ws. plain_segment w \<Longrightarrow> clean_segments rooted acc ws = rev acc @ ws"
  by (induction ws arbitrary: acc) (auto simp: plain_segment_def)

lemma clean_segments_mem:
  "w \<in> set (clean_segments rooted acc ws) \<Longrightarrow>
     w \<in> set acc \<or> w = ''..'' \<or> w \<in> set ws \<and> w \<noteq> '''' \<and> w \<noteq> ''.''"
  by (induction rooted acc ws rule: clean_segments.induct) (auto split: if_splits list.splits)

lemma HasPrefix_slash_join:
  assumes "ws \<noteq> []" and "\<forall>w \<in> set ws. plain_segment w"
  shows "\<not> HasPrefix (join_with ''/'' ws) ''/''"
proof -
  obtain c w vs where ws: "ws = (c # w) # vs" and "c \<noteq> slash"
    using assms by (cases ws) (auto simp: plain_segment_def neq_Nil_conv)
  then show ?thesis by (cases vs) auto
qed

lemma path_Clean_join:
  assumes "ws \<noteq> []" and "\<forall>w \<in> set ws. plain_segment w"
  shows "path_Clean (join_with ''/'' ws) = join_with ''/'' ws"
proof -
  have "split_on slash (join_with ''/'' ws) = ws"
    using assms by (intro split_join) (auto simp: plain_segment_def)
  then show ?thesis
    using assms HasPrefix_slash_join [OF assms] by (simp add: path_Clean_def clean_plain)
qed

lemma join_snoc: "ws \<noteq> [] \<Longrightarrow> join_with sep (ws @ [w]) = join_with sep ws @ sep @ w"
  by (induction ws rule: induct_list012) auto

lemma path_Dir_join:
  assumes "\<forall>w \<in> set (ws @ [v]). plain_segment w"
  shows "path_Dir (join_with ''/'' (ws @ [v])) = (if ws = [] then ''.'' else join_with ''/'' ws)"
proof -
  have v: "slash \<notin> set v" using assms by (simp add: plain_segment_def)
  then have drop: "dropWhile (\<lambda>c. c \<noteq> slash) (rev v @ rest) = dropWhile (\<lambda>c. c \<noteq> slash) rest" for rest
    by (intro dropWhile_append2) auto
  show ?thesis
  proof (cases "ws = []")
    case True
    then have "path_Dir (join_with ''/'' (ws @ [v])) = path_Clean []"
      using drop [of "[]"] by (simp only: path_Dir_def append_Nil append_Nil2 join_with.simps dropWhile.simps rev.simps)
    with True show ?thesis by (simp add: path_Clean_def)
  next
    case False
    have "path_Dir (join_with ''/'' (ws @ [v])) = path_Clean (join_with ''/'' ws @ ''/'')"
      by (simp add: path_Dir_def join_snoc False drop)
    moreover have "split_on slash (join_with ''/'' ws @ ''/'') = ws @ [[]]"
    proof -
      have "join_with ''/'' ws @ ''/'' = join_with ''/'' (ws @ [[]])" by (simp add: join_snoc False)
      then show ?thesis using assms by (simp add: split_join plain_segment_def)
    qed
    moreover have "clean_segments False acc (ws @ [[]]) = rev acc @ ws" for acc
      using assms by (induction ws arbitrary: acc) (auto simp: plain_segment_def)
    moreover have "\<not> HasPrefix (join_with ''/'' ws @ ''/'') ''/''"
    proof -
      obtain w us where ws: "ws = w # us" using False by (cases ws) auto
      then have "w \<noteq> []" using assms by (simp add: plain_segment_def)
      then obtain c s where "join_with ''/'' ws = c # s" using ws by (cases us) (auto simp: neq_Nil_conv)
      moreover have "\<not> HasPrefix (join_with ''/'' ws) ''/''"
        using assms by (intro HasPrefix_slash_join [OF False]) simp
      ultimately show ?thesis by simp
    qed
    ultimately show ?thesis using False by (simp add: path_Clean_def)
  qed
qed

section \<open>Absolute paths and filepath.Join\<close>

text \<open>\<open>filepath.Join\<close> on the Node's platform: the non-empty elements joined by slashes, then cleaned.\<close>

definition filepath_Join :: "string list \<Rightarrow> string" where
  "filepath_Join elems = (case filter (\<lambda>e. e \<noteq> '''') elems of
     [] \<Rightarrow> '''' | es \<Rightarrow> path_Clean (join_with ''/'' es))"

text \<open>A cleaned absolute path, by its segments.\<close>

definition abs_path :: "string list \<Rightarrow> string" where
  "abs_path ws = slash # join_with ''/'' ws"

lemma split_abs_path:
  assumes "list_all plain_segment ws" and "ws \<noteq> []"
  shows "split_on slash (abs_path ws) = [] # ws"
proof -
  have "split_on slash (join_with ''/'' ws) = ws"
    using assms by (intro split_join) (auto simp: list_all_iff plain_segment_def)
  then show ?thesis using split_on_append [of slash "[]"] by (simp add: abs_path_def)
qed

lemma path_Clean_abs: "list_all plain_segment ws \<Longrightarrow> path_Clean (abs_path ws) = abs_path ws"
proof (cases "ws = []")
  case False
  assume "list_all plain_segment ws"
  moreover from this have "split_on slash (abs_path ws) = [] # ws" using False by (rule split_abs_path)
  ultimately show ?thesis by (simp add: path_Clean_def clean_plain list_all_iff abs_path_def)
qed (simp add: path_Clean_def abs_path_def)

lemma abs_path_append: "ws \<noteq> [] \<Longrightarrow> abs_path ws @ slash # w = abs_path (ws @ [w])"
  by (simp add: abs_path_def join_snoc)

lemma clean_rooted_plain:
  "list_all plain_segment acc \<Longrightarrow> list_all (\<lambda>w. slash \<notin> set w) ws \<Longrightarrow>
     list_all plain_segment (clean_segments True acc ws)"
  by (induction True acc ws rule: clean_segments.induct) (auto simp: plain_segment_def split: list.splits)

lemma path_Clean_rooted:
  assumes "HasPrefix p ''/''"
  shows "\<exists>ws. path_Clean p = abs_path ws \<and> list_all plain_segment ws"
proof -
  have "list_all (\<lambda>w. slash \<notin> set w) (split_on slash p)"
    using split_on_pieces by (fastforce simp: list_all_iff)
  then have "list_all plain_segment (clean_segments True [] (split_on slash p))"
    by (intro clean_rooted_plain) simp_all
  with assms show ?thesis by (auto simp: path_Clean_def abs_path_def Let_def)
qed

lemma filepath_Join_abs:
  assumes "list_all plain_segment ws" and "list_all plain_segment vs" and "ws \<noteq> []"
  shows "filepath_Join (abs_path ws # vs) = abs_path (ws @ vs)"
proof -
  have vs: "filter (\<lambda>e. e \<noteq> '''') vs = vs" using assms(2) by (auto simp: list_all_iff plain_segment_def filter_id_conv)
  have "join_with ''/'' (abs_path ws # vs) = abs_path (ws @ vs)"
    using assms(3)
  proof (induction vs rule: rev_induct)
    case (snoc v vs)
    then have "join_with ''/'' ((abs_path ws # vs) @ [v]) = abs_path (ws @ vs) @ ''/'' @ v"
      by (subst join_snoc) simp_all
    with snoc.prems show ?case by (simp add: abs_path_append)
  qed simp
  moreover have "abs_path ws \<noteq> ''''" by (simp add: abs_path_def)
  ultimately show ?thesis using assms vs by (simp add: filepath_Join_def path_Clean_abs)
qed

lemma abs_path_inject:
  assumes "list_all plain_segment ws" and "list_all plain_segment vs" and "abs_path ws = abs_path vs"
  shows "ws = vs"
proof -
  have nonempty: "abs_path us = ''/'' \<longleftrightarrow> us = []" if "list_all plain_segment us" for us
  proof (cases us)
    case (Cons u us')
    with that have "u \<noteq> []" by (simp add: plain_segment_def)
    then have "join_with ''/'' us \<noteq> []" by (cases us') (simp_all add: Cons)
    with Cons show ?thesis by (simp add: abs_path_def)
  qed (simp add: abs_path_def)
  show ?thesis
  proof (cases "ws = [] \<or> vs = []")
    case True
    have root: "abs_path [] = ''/''" by (simp add: abs_path_def)
    from True show ?thesis
    proof
      assume "ws = []"
      then have "abs_path vs = ''/''" using assms(3) root by metis
      with \<open>ws = []\<close> show ?thesis by (simp only: nonempty [OF assms(2)])
    next
      assume "vs = []"
      then have "abs_path ws = ''/''" using assms(3) root by metis
      with \<open>vs = []\<close> show ?thesis by (simp only: nonempty [OF assms(1)])
    qed
  next
    case False
    then have "ws \<noteq> []" "vs \<noteq> []" by simp_all
    then have "[] # ws = split_on slash (abs_path ws)" "[] # vs = split_on slash (abs_path vs)"
      using split_abs_path assms(1,2) by metis+
    then have "[] # ws = [] # vs" by (simp only: assms(3))
    then show ?thesis by (rule list.inject [THEN iffD1, THEN conjunct2])
  qed
qed

end
