(* ===== verification/Folder.thy ===== *)
theory Folder
  imports StableSort Paths
begin

text \<open>
  Package \<open>internal/folder\<close> (manifest.go): validation of a folder manifest received from a
  peer, the normalisation of its paths, the selection of entries and the conflict rule.
  Unicode case mapping is a parameter where it matters (\<open>lower\<close>, \<open>equalFold\<close>); where the result is only compared with
  ASCII names that no other letter maps to, the ASCII mapping is exact.
\<close>

section \<open>Data\<close>

datatype folder_error = ErrInvalidManifest | ErrPathTraversal | ErrPathCollision | ErrLimitExceeded

datatype EntryType = EntryDirectory | EntryFile | EntryOther string

record Entry =
  ent_Path :: string
  ent_Type :: EntryType
  ent_Size :: int
  ent_ModifiedAt :: time
  ent_SHA256 :: string
  ent_MIMEType :: string
  ent_FileID :: string

record FolderManifest =
  man_Version :: int
  man_RootName :: string
  man_Entries :: "Entry list"

record FolderLimits =
  lim_MaxEntries :: int
  lim_MaxPathBytes :: int
  lim_MaxManifestBytes :: int
  lim_MaxTotalBytes :: int
  lim_MaxDepth :: int

definition folder_normalized :: "FolderLimits \<Rightarrow> FolderLimits" where
  "folder_normalized l = \<lparr>
     lim_MaxEntries = (if lim_MaxEntries l \<le> 0 then 100000 else lim_MaxEntries l),
     lim_MaxPathBytes = (if lim_MaxPathBytes l \<le> 0 then 1024 else lim_MaxPathBytes l),
     lim_MaxManifestBytes = (if lim_MaxManifestBytes l \<le> 0 then 32 * 1024 * 1024 else lim_MaxManifestBytes l),
     lim_MaxTotalBytes = (if lim_MaxTotalBytes l \<le> 0 then 16 * 1024 * 1024 * 1024 * 1024 else lim_MaxTotalBytes l),
     lim_MaxDepth = (if lim_MaxDepth l \<le> 0 then 64 else lim_MaxDepth l)\<rparr>"

section \<open>Normalisation of paths\<close>

definition driveQualified :: "string \<Rightarrow> bool" where
  "driveQualified v \<longleftrightarrow>
     2 \<le> length v \<and> (is_lower (v ! 0) \<or> is_upper (v ! 0)) \<and> v ! 1 = CHR '':''"

definition windowsReserved :: "string \<Rightarrow> bool" where
  "windowsReserved segment =
     (let trimmed = rev (dropWhile (\<lambda>c. c = CHR '' '' \<or> c = CHR ''.'') (rev segment));
          base = map ascii_upper (takeWhile (\<lambda>c. c \<noteq> CHR ''.'') trimmed)
      in base \<in> {''CON'', ''PRN'', ''AUX'', ''NUL''} \<or>
         length base = 4 \<and> (HasPrefix base ''COM'' \<or> HasPrefix base ''LPT'') \<and>
         byte_in (CHR ''1'') (CHR ''9'') (base ! 3))"

definition bad_segment :: "string \<Rightarrow> bool" where
  "bad_segment w \<longleftrightarrow> w = '''' \<or> w = ''.'' \<or> w = ''..'' \<or> HasSuffix w '' '' \<or> HasSuffix w ''.'' \<or>
     windowsReserved w"

definition NormalizePath :: "string \<Rightarrow> folder_error + string \<times> int" where
  "NormalizePath value =
     (if value = '''' \<or> CHR 0x00 \<in> set value then Inl ErrInvalidManifest
      else
        let value = map (\<lambda>c. if c = CHR 0x5C then slash else c) value
        in if HasPrefix value ''/'' \<or> HasPrefix value ''//'' \<or> driveQualified value then Inl ErrPathTraversal
           else
             let cleaned = path_Clean value
             in if cleaned = ''.'' \<or> cleaned = ''..'' \<or> HasPrefix cleaned ''../'' \<or> Contains cleaned ''/../''
                then Inl ErrPathTraversal
                else
                  let segments = split_on slash cleaned
                  in if \<exists>w \<in> set segments. bad_segment w then Inl ErrInvalidManifest
                     else Inr (join_with ''/'' segments, int (length segments)))"

text \<open>What a normalised path consists of.\<close>

definition safe_segment :: "string \<Rightarrow> bool" where
  "safe_segment w \<longleftrightarrow> plain_segment w \<and> CHR 0x5C \<notin> set w \<and> CHR 0x00 \<notin> set w \<and>
     \<not> HasSuffix w '' '' \<and> \<not> HasSuffix w ''.'' \<and> \<not> windowsReserved w"

section \<open>Validation of a manifest\<close>

definition validSHA256 :: "string \<Rightarrow> bool" where
  "validSHA256 value =
     (case hex_decode value of
        None \<Rightarrow> False
      | Some decoded \<Rightarrow> length decoded = 32 \<and> map ascii_lower value = value)"

definition valid_kind :: "Entry \<Rightarrow> int \<Rightarrow> int \<Rightarrow> folder_error + int" where
  "valid_kind e tot max_total =
     (case ent_Type e of
        EntryDirectory \<Rightarrow>
          if ent_Size e \<noteq> 0 \<or> ent_SHA256 e \<noteq> '''' \<or> ent_FileID e \<noteq> '''' then Inl ErrInvalidManifest
          else Inr tot
      | EntryFile \<Rightarrow>
          if ent_Size e < 0 \<or> ent_FileID e = '''' \<or> \<not> validSHA256 (ent_SHA256 e) then Inl ErrInvalidManifest
          else if max_total - ent_Size e < tot then Inl ErrLimitExceeded
          else Inr (tot + ent_Size e)
      | EntryOther s \<Rightarrow> Inl ErrInvalidManifest)"

definition entry_bytes :: "Entry \<Rightarrow> int" where
  "entry_bytes e = int (length (ent_Path e) + length (ent_SHA256 e) + length (ent_MIMEType e)
     + length (ent_FileID e) + 96)"

fun validate_entries ::
  "(string \<Rightarrow> string) \<Rightarrow> FolderLimits \<Rightarrow> (string \<rightharpoonup> string) \<Rightarrow> int \<Rightarrow> int \<Rightarrow> Entry list \<Rightarrow> folder_error + Entry list"
where
  "validate_entries lower limits seen tot estimated [] = Inr []"
| "validate_entries lower limits seen tot estimated (e # es) =
     bindE (NormalizePath (ent_Path e)) (\<lambda>(normalized, depth).
       if int (length normalized) > lim_MaxPathBytes limits \<or> depth > lim_MaxDepth limits
       then Inl ErrLimitExceeded
       else if seen (lower normalized) \<noteq> None then Inl ErrPathCollision
       else
         let e = e\<lparr>ent_Path := normalized\<rparr>
         in bindE (valid_kind e tot (lim_MaxTotalBytes limits)) (\<lambda>tot.
           let estimated = i64 (estimated + entry_bytes e)
           in if estimated > lim_MaxManifestBytes limits then Inl ErrLimitExceeded
              else bindE (validate_entries lower limits (seen(lower normalized \<mapsto> normalized)) tot estimated es)
                     (\<lambda>rest. Inr (e # rest))))"

definition Validate :: "(string \<Rightarrow> string) \<Rightarrow> FolderManifest \<Rightarrow> FolderLimits \<Rightarrow> folder_error + FolderManifest" where
  "Validate lower manifest limits =
     (let limits = folder_normalized limits; root = TrimSpace (man_RootName manifest)
      in if man_Version manifest \<noteq> 1 \<or> root = '''' \<or> (\<exists>c \<in> {slash, CHR 0x5C, CHR 0x00}. c \<in> set root) \<or>
            length root > 255 \<or> int (length (man_Entries manifest)) > lim_MaxEntries limits
         then Inl ErrInvalidManifest
         else bindE (validate_entries lower limits Map.empty 0 0 (man_Entries manifest))
                (\<lambda>es. Inr \<lparr>man_Version = 1, man_RootName = root, man_Entries = es\<rparr>))"

section \<open>Selection of entries, conflicts\<close>

partial_function (option) ancestors :: "string \<Rightarrow> string list option" where
  "ancestors parent =
     (if parent = ''.'' then Some []
      else Option.bind (ancestors (path_Dir parent)) (\<lambda>rest. Some (parent # rest)))"

fun accept_paths :: "string list \<Rightarrow> string set \<Rightarrow> string set \<Rightarrow> (string set \<times> string set) option" where
  "accept_paths [] accepted parents = Some (accepted, parents)"
| "accept_paths (value # rest) accepted parents =
     (case NormalizePath value of
        Inl e \<Rightarrow> accept_paths rest accepted parents
      | Inr (normalized, depth) \<Rightarrow>
          Option.bind (ancestors (path_Dir normalized)) (\<lambda>ps.
            accept_paths rest (insert normalized accepted) (parents \<union> set ps)))"

definition entry_less :: "Entry \<Rightarrow> Entry \<Rightarrow> bool" where
  "entry_less a b \<longleftrightarrow> ent_Path a < ent_Path b"

definition Select :: "FolderManifest \<Rightarrow> string list \<Rightarrow> FolderManifest option" where
  "Select manifest acceptedPaths =
     Option.bind (accept_paths acceptedPaths {} {}) (\<lambda>(accepted, parents).
       Some \<lparr>man_Version = man_Version manifest, man_RootName = man_RootName manifest,
         man_Entries = SliceStable entry_less
           (filter (\<lambda>e. ent_Path e \<in> accepted \<or> ent_Type e = EntryDirectory \<and> ent_Path e \<in> parents)
             (man_Entries manifest))\<rparr>)"

datatype ConflictAction = ConflictOverwrite | ConflictRename | ConflictSkip | ConflictAsk | ConflictOther string

definition ResolveConflict ::
  "(string \<Rightarrow> string \<Rightarrow> bool) \<Rightarrow> int \<Rightarrow> string \<Rightarrow> Entry \<Rightarrow> ConflictAction \<Rightarrow> ConflictAction" where
  "ResolveConflict equalFold existingSize existingSHA256 incoming action =
     (if ent_Type incoming = EntryFile \<and> existingSize = ent_Size incoming \<and>
         equalFold existingSHA256 (ent_SHA256 incoming) then ConflictSkip
      else case action of ConflictOther s \<Rightarrow> ConflictAsk | a \<Rightarrow> a)"

section \<open>Normalised paths are safe\<close>

lemma path_Clean_set: "set (path_Clean p) \<subseteq> set p \<union> {slash, CHR ''.''}"
proof -
  have "set w \<subseteq> set p \<union> {CHR ''.''}" if "w \<in> set (clean_segments r [] (split_on slash p))" for w r
    using clean_segments_mem [OF that] split_on_set by auto
  then show ?thesis
    using join_with_set [of "''/''"] unfolding path_Clean_def Let_def by (fastforce split: if_splits)
qed

lemma safe_plain: "safe_segment w \<Longrightarrow> plain_segment w"
  by (simp add: safe_segment_def)

lemma safe_not_bad: "safe_segment w \<Longrightarrow> \<not> bad_segment w"
  by (simp add: safe_segment_def bad_segment_def plain_segment_def)

lemma safe_split:
  assumes "ws \<noteq> []" and "\<forall>w \<in> set ws. safe_segment w"
  shows "split_on slash (join_with ''/'' ws) = ws"
  using assms by (intro split_join) (auto simp: safe_segment_def plain_segment_def)

lemma join_plain_neq:
  assumes "ws \<noteq> []" and "\<forall>w \<in> set ws. plain_segment w" and "slash \<notin> set w0" and "\<not> plain_segment w0"
  shows "join_with ''/'' ws \<noteq> w0"
proof
  assume "join_with ''/'' ws = w0"
  then have "ws = split_on slash w0"
    using assms by (metis plain_segment_def split_join)
  then have "ws = [w0]" using assms(3) split_on_free by simp
  with assms show False by simp
qed

lemma NormalizePath_form:
  assumes "NormalizePath v = Inr (p, d)"
  obtains ws where "ws \<noteq> []" "p = join_with ''/'' ws" "d = int (length ws)" "\<forall>w \<in> set ws. safe_segment w"
proof -
  let ?v = "map (\<lambda>c. if c = CHR 0x5C then slash else c) v"
  let ?ws = "split_on slash (path_Clean ?v)"
  have v: "CHR 0x00 \<notin> set v" and p: "p = path_Clean ?v" "d = int (length ?ws)"
    and ok: "\<forall>w \<in> set ?ws. \<not> bad_segment w"
    using assms by (auto simp: NormalizePath_def Let_def split: if_splits)
  have "CHR 0x00 \<notin> set (path_Clean ?v)" "CHR 0x5C \<notin> set (path_Clean ?v)"
    using path_Clean_set [of ?v] v by auto
  then have "safe_segment w" if "w \<in> set ?ws" for w
    using that ok split_on_set [OF that] split_on_pieces [OF that]
    by (auto simp: safe_segment_def plain_segment_def bad_segment_def)
  then show ?thesis using that [of ?ws] p by simp
qed

lemma NormalizePath_safe_join:
  assumes ws: "ws \<noteq> []" "\<forall>w \<in> set ws. safe_segment w"
    and drive: "\<not> driveQualified (join_with ''/'' ws)"
  shows "NormalizePath (join_with ''/'' ws) = Inr (join_with ''/'' ws, int (length ws))"
proof -
  let ?p = "join_with ''/'' ws"
  note split = safe_split [OF ws]
  have plain: "\<forall>w \<in> set ws. plain_segment w" using ws safe_plain by blast
  have chars: "CHR 0x00 \<notin> set ?p" "CHR 0x5C \<notin> set ?p"
    using join_with_set [of "''/''" ws] ws(2) by (fastforce simp: safe_segment_def)+
  then have same: "map (\<lambda>c. if c = CHR 0x5C then slash else c) ?p = ?p"
    by (intro map_idI) auto
  have nonempty: "?p \<noteq> []" using ws(1) plain by (intro join_plain_neq; simp add: plain_segment_def)
  have clean: "path_Clean ?p = ?p" using ws(1) plain by (rule path_Clean_join)
  have no_dots: "?p \<noteq> ''.''" "?p \<noteq> ''..''"
    using ws(1) plain by (intro join_plain_neq; simp add: plain_segment_def)+
  have "\<not> HasPrefix ?p ''../''"
  proof
    assume "HasPrefix ?p ''../''"
    then obtain t where "?p = ''..'' @ slash # t" by (auto simp: HasPrefix_iff)
    with split have "''..'' \<in> set ws" using split_on_append [of slash "''..''" t] by auto
    with plain show False by (auto simp: plain_segment_def)
  qed
  moreover have "\<not> Contains ?p ''/../''"
  proof
    assume "Contains ?p ''/../''"
    then obtain a b where "?p = a @ slash # ''..'' @ slash # b" by (auto simp: Contains_iff)
    moreover have "split_on slash (a @ slash # ''..'' @ slash # b) = split_on slash a @ ''..'' # split_on slash b"
      using split_on_append [of slash "''..''" b] by (simp add: split_on_concat del: append.simps(2))
    ultimately have "ws = split_on slash a @ ''..'' # split_on slash b" using split by (simp only:)
    then have "''..'' \<in> set ws" by simp
    with plain show False by (auto simp: plain_segment_def)
  qed
  moreover note root = HasPrefix_slash_join [OF ws(1) plain]
  moreover have "\<not> HasPrefix ?p ''//''" using root by (auto simp: HasPrefix_iff)
  moreover have "\<not> (\<exists>w \<in> set ws. bad_segment w)" using ws safe_not_bad by blast
  ultimately show ?thesis
    using chars nonempty no_dots drive by (simp add: NormalizePath_def Let_def same clean split)
qed

text \<open>
  C5. A path that \<open>NormalizePath\<close> accepts is a non-empty relative path of safe segments: none
  is empty, \<open>.\<close> or \<open>..\<close>, holds a slash, a backslash or NUL, ends in a blank or a dot, or
  names a Windows device; the depth is the number of segments; and normalising the result again
  changes nothing, unless it looks drive-qualified.
\<close>

theorem NormalizePath_safe:
  assumes "NormalizePath v = Inr (p, d)"
  shows "p = join_with ''/'' (split_on slash p) \<and> d = int (length (split_on slash p)) \<and> 1 \<le> d \<and>
         (\<forall>w \<in> set (split_on slash p). safe_segment w) \<and>
         (NormalizePath p = Inr (p, d) \<or> driveQualified p)"
proof -
  obtain ws where ws: "ws \<noteq> []" "p = join_with ''/'' ws" "d = int (length ws)" "\<forall>w \<in> set ws. safe_segment w"
    using NormalizePath_form [OF assms] .
  then have split: "split_on slash p = ws" by (simp add: safe_split)
  from ws have "1 \<le> d" by (cases ws) simp_all
  then show ?thesis
    unfolding split using ws NormalizePath_safe_join [OF ws(1,4)] by auto
qed

theorem NormalizePath_safe_witness:
  "NormalizePath ''a//b/../c.txt'' = Inr (''a/c.txt'', 2) \<and>
   list_all safe_segment (split_on slash ''a/c.txt'')"
proof -
  have "NormalizePath ''a//b/../c.txt'' = Inr (''a/c.txt'', 2)" by code_simp
  with NormalizePath_safe [OF this] show ?thesis by (auto simp: list_all_iff)
qed

text \<open>
  \<open>NormalizePath\<close> rejects every path whose text starts with a drive letter and a colon, but
  not one that starts with one only after cleaning: a leading \<open>./\<close> hides the drive, and the
  normalised path it returns is drive-qualified, so that it would itself be rejected.
\<close>

theorem NormalizePath_hidden_drive:
  "(NormalizePath v \<noteq> Inl ErrPathTraversal \<and> CHR 0x00 \<notin> set v \<longrightarrow> \<not> driveQualified v) \<and>
   NormalizePath ''./C:/x'' = Inr (''C:/x'', 2) \<and>
   driveQualified ''C:/x'' \<and> NormalizePath ''C:/x'' = Inl ErrPathTraversal"
proof -
  have "NormalizePath v = Inl ErrPathTraversal"
    if v: "driveQualified v" and "CHR 0x00 \<notin> set v"
  proof -
    obtain a r where v_eq: "v = a # CHR '':'' # r" and a: "is_lower a \<or> is_upper a"
      using v by (cases v; cases "tl v") (auto simp: driveQualified_def)
    then have "a \<noteq> CHR 0x5C" by (auto simp: byte_in_def code_def)
    then have "map (\<lambda>c. if c = CHR 0x5C then slash else c) v =
        a # CHR '':'' # map (\<lambda>c. if c = CHR 0x5C then slash else c) r"
      by (simp add: v_eq)
    with a have "driveQualified (map (\<lambda>c. if c = CHR 0x5C then slash else c) v)"
      by (simp add: driveQualified_def)
    then show ?thesis using that v_eq by (simp only: NormalizePath_def Let_def) simp
  qed
  moreover have "NormalizePath ''./C:/x'' = Inr (''C:/x'', 2)" by code_simp
  moreover have "driveQualified ''C:/x''" by code_simp
  moreover have "NormalizePath ''C:/x'' = Inl ErrPathTraversal" by code_simp
  ultimately show ?thesis by blast
qed


theorem NormalizePath_hidden_drive_witness:
  "\<not> driveQualified ''a/b''"
proof -
  have "NormalizePath ''a/b'' = Inr (''a/b'', 2)" by code_simp
  then show ?thesis using NormalizePath_hidden_drive [THEN conjunct1, of "''a/b''"] by simp
qed


section \<open>Validated manifests\<close>

definition entry_ok :: "FolderLimits \<Rightarrow> Entry \<Rightarrow> bool" where
  "entry_ok l e \<longleftrightarrow>
     (\<forall>w \<in> set (split_on slash (ent_Path e)). safe_segment w) \<and>
     int (length (ent_Path e)) \<le> lim_MaxPathBytes l \<and>
     int (length (split_on slash (ent_Path e))) \<le> lim_MaxDepth l \<and>
     (ent_Type e = EntryDirectory \<and> ent_Size e = 0 \<and> ent_SHA256 e = '''' \<and> ent_FileID e = '''' \<or>
      ent_Type e = EntryFile \<and> 0 \<le> ent_Size e \<and> ent_FileID e \<noteq> '''' \<and> validSHA256 (ent_SHA256 e))"

lemma valid_kind_eq_Inr:
  "valid_kind e t m = Inr t' \<longleftrightarrow>
     (ent_Type e = EntryDirectory \<and> ent_Size e = 0 \<and> ent_SHA256 e = '''' \<and> ent_FileID e = '''' \<or>
      ent_Type e = EntryFile \<and> 0 \<le> ent_Size e \<and> ent_FileID e \<noteq> '''' \<and> validSHA256 (ent_SHA256 e) \<and>
      t + ent_Size e \<le> m) \<and> t' = t + ent_Size e"
  by (auto simp: valid_kind_def split: EntryType.splits)

lemma validate_entries_Cons:
  "validate_entries lower l seen t est (e # es) = Inr out \<longleftrightarrow>
     (\<exists>p d t' rest. NormalizePath (ent_Path e) = Inr (p, d) \<and>
        int (length p) \<le> lim_MaxPathBytes l \<and> d \<le> lim_MaxDepth l \<and> seen (lower p) = None \<and>
        valid_kind (e\<lparr>ent_Path := p\<rparr>) t (lim_MaxTotalBytes l) = Inr t' \<and>
        i64 (est + entry_bytes (e\<lparr>ent_Path := p\<rparr>)) \<le> lim_MaxManifestBytes l \<and>
        validate_entries lower l (seen(lower p \<mapsto> p)) t' (i64 (est + entry_bytes (e\<lparr>ent_Path := p\<rparr>))) es = Inr rest \<and>
        out = e\<lparr>ent_Path := p\<rparr> # rest)"
proof (cases "NormalizePath (ent_Path e)")
  case (Inr pd)
  then show ?thesis by (cases pd) (auto simp: Let_def split: if_splits)
qed simp

lemma validate_entries_sound:
  assumes "validate_entries lower l seen t est es = Inr out" and "t \<le> lim_MaxTotalBytes l"
  shows "list_all2 (\<lambda>e e'. e' = e\<lparr>ent_Path := ent_Path e'\<rparr> \<and>
             (\<exists>d. NormalizePath (ent_Path e) = Inr (ent_Path e', d))) es out \<and>
         (\<forall>e \<in> set out. entry_ok l e \<and> seen (lower (ent_Path e)) = None) \<and>
         distinct (map (\<lambda>e. lower (ent_Path e)) out) \<and>
         t + sum_list (map ent_Size out) \<le> lim_MaxTotalBytes l"
  using assms
proof (induction es arbitrary: seen t est out)
  case Nil
  then show ?case by simp
next
  case (Cons e es)
  obtain p d t' rest where step: "NormalizePath (ent_Path e) = Inr (p, d)"
      "int (length p) \<le> lim_MaxPathBytes l" "d \<le> lim_MaxDepth l" "seen (lower p) = None"
      "valid_kind (e\<lparr>ent_Path := p\<rparr>) t (lim_MaxTotalBytes l) = Inr t'"
      "validate_entries lower l (seen(lower p \<mapsto> p)) t' (i64 (est + entry_bytes (e\<lparr>ent_Path := p\<rparr>))) es = Inr rest"
      and out: "out = e\<lparr>ent_Path := p\<rparr> # rest"
    using Cons.prems(1) unfolding validate_entries_Cons by blast
  have t': "t' = t + ent_Size e" "t' \<le> lim_MaxTotalBytes l"
    using step(5) Cons.prems(2) by (auto simp: valid_kind_eq_Inr)
  have head: "entry_ok l (e\<lparr>ent_Path := p\<rparr>)"
    using step(2,3,5) NormalizePath_safe [OF step(1)] by (auto simp: entry_ok_def valid_kind_eq_Inr)
  note IH = Cons.IH [OF step(6) t'(2)]
  then have old: "seen (lower (ent_Path e')) = None \<and> lower (ent_Path e') \<noteq> lower p" if "e' \<in> set rest" for e'
    using that by (fastforce split: if_splits)
  then have "lower p \<notin> (\<lambda>e. lower (ent_Path e)) ` set rest"
    by (metis (no_types, lifting) comp_apply image_iff)
  then have "distinct (map (\<lambda>e. lower (ent_Path e)) out)"
    using IH by (simp add: out)
  with IH step(1,4) head t'(1) old show ?case
    by (simp add: out)
qed

lemma validate_entries_again:
  assumes "validate_entries lower l seen t est es = Inr out"
    and "\<forall>e \<in> set out. \<not> driveQualified (ent_Path e)"
  shows "validate_entries lower l seen t est out = Inr out"
  using assms
proof (induction es arbitrary: seen t est out)
  case Nil
  then show ?case by simp
next
  case (Cons e es)
  obtain p d t' rest where step: "NormalizePath (ent_Path e) = Inr (p, d)"
      "int (length p) \<le> lim_MaxPathBytes l" "d \<le> lim_MaxDepth l" "seen (lower p) = None"
      "valid_kind (e\<lparr>ent_Path := p\<rparr>) t (lim_MaxTotalBytes l) = Inr t'"
      "i64 (est + entry_bytes (e\<lparr>ent_Path := p\<rparr>)) \<le> lim_MaxManifestBytes l"
      "validate_entries lower l (seen(lower p \<mapsto> p)) t' (i64 (est + entry_bytes (e\<lparr>ent_Path := p\<rparr>))) es = Inr rest"
      and out: "out = e\<lparr>ent_Path := p\<rparr> # rest"
    using Cons.prems(1) unfolding validate_entries_Cons by blast
  have "NormalizePath p = Inr (p, d)"
    using NormalizePath_safe [OF step(1)] Cons.prems(2) by (simp add: out)
  moreover have "validate_entries lower l (seen(lower p \<mapsto> p)) t'
      (i64 (est + entry_bytes (e\<lparr>ent_Path := p\<rparr>))) rest = Inr rest"
    using Cons.prems(2) by (intro Cons.IH [OF step(7)]) (simp add: out)
  ultimately show ?case
    unfolding out validate_entries_Cons using step
    by - (rule exI [of _ p], rule exI [of _ d], rule exI [of _ t'], rule exI [of _ rest], simp del: fun_upd_apply)
qed

lemma Validate_eq_Inr:
  "Validate lower m l = Inr v \<longleftrightarrow>
     man_Version m = 1 \<and> TrimSpace (man_RootName m) \<noteq> '''' \<and>
     set (TrimSpace (man_RootName m)) \<inter> {slash, CHR 0x5C, CHR 0x00} = {} \<and>
     length (TrimSpace (man_RootName m)) \<le> 255 \<and>
     int (length (man_Entries m)) \<le> lim_MaxEntries (folder_normalized l) \<and>
     (\<exists>es. validate_entries lower (folder_normalized l) Map.empty 0 0 (man_Entries m) = Inr es \<and>
        v = \<lparr>man_Version = 1, man_RootName = TrimSpace (man_RootName m), man_Entries = es\<rparr>)"
  by (auto simp: Validate_def Let_def)

text \<open>
  A manifest that \<open>Validate\<close> accepts is the one it was given with its root name trimmed and
  its paths normalised. Every path in it consists of safe segments within the length and depth
  limits, files carry a size, an identifier and a lower-case SHA-256, directories carry none of
  them, no two paths coincide after case folding, the sizes add up to at most the total allowed,
  and, unless some path looks drive-qualified, validating the result again returns it unchanged.
\<close>

theorem Validate_sound:
  assumes "Validate lower m l = Inr v"
  shows "man_RootName v = TrimSpace (man_RootName m) \<and>
         set (man_RootName v) \<inter> {slash, CHR 0x5C, CHR 0x00} = {} \<and>
         list_all2 (\<lambda>e e'. e' = e\<lparr>ent_Path := ent_Path e'\<rparr> \<and>
             (\<exists>d. NormalizePath (ent_Path e) = Inr (ent_Path e', d))) (man_Entries m) (man_Entries v) \<and>
         list_all (entry_ok (folder_normalized l)) (man_Entries v) \<and>
         distinct (map (\<lambda>e. lower (ent_Path e)) (man_Entries v)) \<and>
         sum_list (map ent_Size (man_Entries v)) \<le> lim_MaxTotalBytes (folder_normalized l) \<and>
         int (length (man_Entries v)) \<le> lim_MaxEntries (folder_normalized l) \<and>
         (list_ex (\<lambda>e. driveQualified (ent_Path e)) (man_Entries v) \<or> Validate lower v l = Inr v)"
proof -
  let ?l = "folder_normalized l"
  obtain es where es: "validate_entries lower ?l Map.empty 0 0 (man_Entries m) = Inr es"
    and v: "v = \<lparr>man_Version = 1, man_RootName = TrimSpace (man_RootName m), man_Entries = es\<rparr>"
    using assms unfolding Validate_eq_Inr by blast
  have "0 \<le> lim_MaxTotalBytes ?l" by (simp add: folder_normalized_def)
  note sound = validate_entries_sound [OF es this]
  then have "length es = length (man_Entries m)" using list_all2_lengthD by fastforce
  moreover have "Validate lower v l = Inr v" if "\<not> list_ex (\<lambda>e. driveQualified (ent_Path e)) es"
    using assms validate_entries_again [OF es] that calculation
    by (simp add: Validate_eq_Inr v list_ex_iff)
  ultimately show ?thesis
    using assms sound by (auto simp: v Validate_eq_Inr list_all_iff)
qed

theorem Validate_sound_witness:
  "distinct (map (\<lambda>e. map ascii_lower (ent_Path e))
     [\<lparr>ent_Path = ''a'', ent_Type = EntryDirectory, ent_Size = 0, ent_ModifiedAt = 0, ent_SHA256 = '''',
        ent_MIMEType = '''', ent_FileID = ''''\<rparr>,
      \<lparr>ent_Path = ''a/b'', ent_Type = EntryDirectory, ent_Size = 0, ent_ModifiedAt = 0, ent_SHA256 = '''',
        ent_MIMEType = '''', ent_FileID = ''''\<rparr>])"
proof -
  have "Validate (map ascii_lower)
     \<lparr>man_Version = 1, man_RootName = ''Root'', man_Entries =
       [\<lparr>ent_Path = ''./a'', ent_Type = EntryDirectory, ent_Size = 0, ent_ModifiedAt = 0, ent_SHA256 = '''',
          ent_MIMEType = '''', ent_FileID = ''''\<rparr>,
        \<lparr>ent_Path = ''a//b'', ent_Type = EntryDirectory, ent_Size = 0, ent_ModifiedAt = 0, ent_SHA256 = '''',
        ent_MIMEType = '''', ent_FileID = ''''\<rparr>]\<rparr>
     \<lparr>lim_MaxEntries = 0, lim_MaxPathBytes = 0, lim_MaxManifestBytes = 0, lim_MaxTotalBytes = 0, lim_MaxDepth = 0\<rparr> =
   Inr \<lparr>man_Version = 1, man_RootName = ''Root'', man_Entries =
       [\<lparr>ent_Path = ''a'', ent_Type = EntryDirectory, ent_Size = 0, ent_ModifiedAt = 0, ent_SHA256 = '''',
          ent_MIMEType = '''', ent_FileID = ''''\<rparr>,
        \<lparr>ent_Path = ''a/b'', ent_Type = EntryDirectory, ent_Size = 0, ent_ModifiedAt = 0, ent_SHA256 = '''',
        ent_MIMEType = '''', ent_FileID = ''''\<rparr>]\<rparr>"
    by code_simp
  from Validate_sound [OF this] show ?thesis by (simp only: FolderManifest.simps)
qed


section \<open>Selection keeps the required directories\<close>

lemma ancestors_join:
  "\<forall>w \<in> set ws. plain_segment w \<Longrightarrow> ws \<noteq> [] \<Longrightarrow>
     \<exists>ps. ancestors (path_Dir (join_with ''/'' ws)) = Some ps \<and>
       (\<forall>q. q \<in> set ps \<longleftrightarrow> (\<exists>us vs. us \<noteq> [] \<and> vs \<noteq> [] \<and> ws = us @ vs \<and> q = join_with ''/'' us))"
proof (induction ws rule: rev_induct)
  case (snoc v ws)
  show ?case
  proof (cases "ws = []")
    case True
    then have "\<not> (us \<noteq> [] \<and> vs \<noteq> [] \<and> ws @ [v] = us @ vs)" for us vs :: "string list"
      by (cases us; cases vs) auto
    with True show ?thesis
      using snoc.prems by (subst path_Dir_join) (auto simp: ancestors.simps)
  next
    case False
    then obtain ps where ps: "ancestors (path_Dir (join_with ''/'' ws)) = Some ps"
      "\<And>q. q \<in> set ps \<longleftrightarrow> (\<exists>us vs. us \<noteq> [] \<and> vs \<noteq> [] \<and> ws = us @ vs \<and> q = join_with ''/'' us)"
      using snoc by auto
    have "join_with ''/'' ws \<noteq> ''.''"
      using False snoc.prems by (intro join_plain_neq) (auto simp: plain_segment_def)
    then have "ancestors (path_Dir (join_with ''/'' (ws @ [v]))) = Some (join_with ''/'' ws # ps)"
      using path_Dir_join [OF snoc.prems(1)] False ps(1) by (simp add: ancestors.simps [of "join_with ''/'' ws"])
    moreover have "(\<exists>us vs. us \<noteq> [] \<and> vs \<noteq> [] \<and> ws @ [v] = us @ vs \<and> q = join_with ''/'' us) \<longleftrightarrow>
        q = join_with ''/'' ws \<or> q \<in> set ps" for q
    proof
      assume "\<exists>us vs. us \<noteq> [] \<and> vs \<noteq> [] \<and> ws @ [v] = us @ vs \<and> q = join_with ''/'' us"
      then obtain us vs where u: "us \<noteq> []" "vs \<noteq> []" "ws @ [v] = us @ vs" "q = join_with ''/'' us" by blast
      then obtain vs' where "ws = us @ vs'" by (cases vs rule: rev_cases) auto
      with u ps(2) show "q = join_with ''/'' ws \<or> q \<in> set ps" by (cases "vs' = []") auto
    next
      assume "q = join_with ''/'' ws \<or> q \<in> set ps"
      then show "\<exists>us vs. us \<noteq> [] \<and> vs \<noteq> [] \<and> ws @ [v] = us @ vs \<and> q = join_with ''/'' us"
        unfolding ps(2) using False by (metis Nil_is_append_conv append_assoc list.distinct(1))
    qed
    ultimately show ?thesis by auto
  qed
qed simp

text \<open>\<open>q\<close> is a directory above \<open>p\<close>.\<close>

definition above :: "string \<Rightarrow> string \<Rightarrow> bool" where
  "above q p \<longleftrightarrow> HasPrefix p (q @ ''/'')"

lemma above_join:
  assumes "ws \<noteq> []" and "\<forall>w \<in> set ws. safe_segment w"
  shows "above q (join_with ''/'' ws) \<longleftrightarrow> (\<exists>us vs. us \<noteq> [] \<and> vs \<noteq> [] \<and> ws = us @ vs \<and> q = join_with ''/'' us)"
proof
  assume "above q (join_with ''/'' ws)"
  then obtain t where t: "join_with ''/'' ws = q @ slash # t" by (auto simp: above_def HasPrefix_iff)
  then have "ws = split_on slash q @ split_on slash t"
    using safe_split [OF assms] by (metis split_on_concat)
  then show "\<exists>us vs. us \<noteq> [] \<and> vs \<noteq> [] \<and> ws = us @ vs \<and> q = join_with ''/'' us"
    by (metis join_split split_on_neq_Nil)
next
  assume "\<exists>us vs. us \<noteq> [] \<and> vs \<noteq> [] \<and> ws = us @ vs \<and> q = join_with ''/'' us"
  then obtain us vs where "us \<noteq> []" "vs \<noteq> []" "ws = us @ vs" "q = join_with ''/'' us" by blast
  moreover have "us \<noteq> [] \<Longrightarrow> vs \<noteq> [] \<Longrightarrow>
      join_with ''/'' (us @ vs) = join_with ''/'' us @ ''/'' @ join_with ''/'' vs" for us vs
    by (induction us rule: induct_list012) (auto simp: neq_Nil_conv)
  ultimately show "above q (join_with ''/'' ws)" by (simp add: above_def HasPrefix_iff)
qed

lemma ancestors_normalized:
  assumes "NormalizePath v = Inr (p, d)"
  shows "\<exists>ps. ancestors (path_Dir p) = Some ps \<and> set ps = {q. above q p}"
proof -
  obtain ws where ws: "ws \<noteq> []" "p = join_with ''/'' ws" "\<forall>w \<in> set ws. safe_segment w"
    using NormalizePath_form [OF assms] by metis
  then obtain ps where "ancestors (path_Dir p) = Some ps"
    "\<And>q. q \<in> set ps \<longleftrightarrow> (\<exists>us vs. us \<noteq> [] \<and> vs \<noteq> [] \<and> ws = us @ vs \<and> q = join_with ''/'' us)"
    using ancestors_join [of ws] safe_plain by blast
  then show ?thesis
    unfolding ws(2) above_join [OF ws(1,3), symmetric] by blast
qed

text \<open>The normalised forms of the accepted paths.\<close>

definition normal_forms :: "string list \<Rightarrow> string set" where
  "normal_forms vs = {p. \<exists>v \<in> set vs. \<exists>d. NormalizePath v = Inr (p, d)}"

lemma accept_paths_total:
  "accept_paths vs accepted parents =
     Some (accepted \<union> normal_forms vs, parents \<union> {q. \<exists>p \<in> normal_forms vs. above q p})"
proof (induction vs arbitrary: accepted parents)
  case Nil
  show ?case by (simp add: normal_forms_def)
next
  case (Cons v vs)
  show ?case
  proof (cases "NormalizePath v")
    case (Inl e)
    then have "normal_forms (v # vs) = normal_forms vs" by (auto simp: normal_forms_def)
    with Inl Cons show ?thesis by simp
  next
    case (Inr pd)
    obtain p d where v: "NormalizePath v = Inr (p, d)" using Inr by (cases pd) simp
    then have "normal_forms (v # vs) = insert p (normal_forms vs)" by (auto simp: normal_forms_def)
    with v Cons ancestors_normalized [OF v] show ?thesis by auto
  qed
qed

interpretation entry_order: keyed_order entry_less ent_Path
  by unfold_locales (simp add: entry_less_def)

text \<open>
  \<open>Select\<close> always returns, although it climbs to the parents of each accepted path in a
  loop. Its entries are, sorted by path, exactly the entries of the manifest whose path was
  accepted, after normalisation, and the directories above an accepted path; accepted paths that
  do not normalise are ignored, and no other entry is lost, added or changed.
\<close>

theorem Select_exact:
  "\<exists>selected. Select m acceptedPaths = Some selected \<and>
     man_Version selected = man_Version m \<and> man_RootName selected = man_RootName m \<and>
     sorted (map ent_Path (man_Entries selected)) \<and>
     mset (man_Entries selected) = filter_mset (\<lambda>e. ent_Path e \<in> normal_forms acceptedPaths \<or>
       ent_Type e = EntryDirectory \<and> (\<exists>p. p \<in> normal_forms acceptedPaths \<and> above (ent_Path e) p))
       (mset (man_Entries m))"
proof -
  have "sorted (map ent_Path (SliceStable entry_less es))" for es
    unfolding entry_order.ordered_key [symmetric] by (rule entry_order.ordered_SliceStable)
  then show ?thesis
    by (auto simp: Select_def accept_paths_total Bex_def)
qed

end
