(* ===== verification/Tables.thy ===== *)
theory Tables
  imports Prelude
begin

text \<open>
  Database tables as lists of rows: \<open>UPDATE ... WHERE\<close> maps the rows that match, a query that
  returns one row takes the first that matches, and the number of affected rows is the number
  that match. The lemmas say when such an update leaves the rest of a table and its keys alone.
\<close>

definition update_where :: "('a \<Rightarrow> bool) \<Rightarrow> ('a \<Rightarrow> 'a) \<Rightarrow> 'a list \<Rightarrow> 'a list" where
  "update_where hit f rows = map (\<lambda>r. if hit r then f r else r) rows"

lemma update_where_Nil [simp]: "update_where hit f [] = []"
  and update_where_Cons [simp]:
    "update_where hit f (r # rows) = (if hit r then f r else r) # update_where hit f rows"
  by (simp_all add: update_where_def)

lemma length_update_where [simp]: "length (update_where hit f rows) = length rows"
  by (simp add: update_where_def)

lemma set_update_where: "set (update_where hit f rows) = f ` {r \<in> set rows. hit r} \<union> {r \<in> set rows. \<not> hit r}"
  by (auto simp: update_where_def)

lemma update_where_mem: "r \<in> set rows \<Longrightarrow> hit r \<Longrightarrow> f r \<in> set (update_where hit f rows)"
  unfolding set_update_where by blast

lemma list_ex_update_where:
  "(\<And>x. hit x \<Longrightarrow> P (f x) = P x) \<Longrightarrow> list_ex P (update_where hit f xs) = list_ex P xs"
  by (induction xs) auto

lemma list_all_update_where:
  "list_all P rows \<Longrightarrow> (\<And>r. P r \<Longrightarrow> hit r \<Longrightarrow> P (f r)) \<Longrightarrow> list_all P (update_where hit f rows)"
  by (induction rows) auto

lemma list_all_update_whereI:
  "(\<And>r. r \<in> set rows \<Longrightarrow> hit r \<Longrightarrow> P (f r)) \<Longrightarrow> (\<And>r. r \<in> set rows \<Longrightarrow> \<not> hit r \<Longrightarrow> P r) \<Longrightarrow>
   list_all P (update_where hit f rows)"
  by (induction rows) auto

lemma find_append: "find P (xs @ ys) = (case find P xs of None \<Rightarrow> find P ys | Some x \<Rightarrow> Some x)"
  by (induction xs) auto

lemma list_all_filter: "list_all P rows \<Longrightarrow> list_all P (filter Q rows)"
  by (induction rows) auto

lemma map_update_where [simp]:
  "(\<And>r. key (f r) = key r) \<Longrightarrow> map key (update_where hit f rows) = map key rows"
  by (simp add: update_where_def)

lemma find_eq_NoneI: "(\<And>x. x \<in> set xs \<Longrightarrow> \<not> P x) \<Longrightarrow> find P xs = None"
  by (simp add: find_None_iff)

lemma find_SomeD: "find P xs = Some x \<Longrightarrow> x \<in> set xs \<and> P x"
  by (induction xs) (auto split: if_splits)

lemma find_unique:
  assumes "x \<in> set xs" and "P x" and "\<And>y. y \<in> set xs \<Longrightarrow> P y \<Longrightarrow> y = x"
  shows "find P xs = Some x"
proof (cases "find P xs")
  case None
  with assms(1,2) show ?thesis unfolding find_None_iff by blast
next
  case (Some y)
  then have "y = x" using find_SomeD assms(3) by metis
  with Some show ?thesis by simp
qed

text \<open>Rows of a table with a unique column.\<close>

lemma distinct_keyD:
  "distinct (map key rows) \<Longrightarrow> r \<in> set rows \<Longrightarrow> s \<in> set rows \<Longrightarrow> key r = key s \<Longrightarrow> r = s"
  unfolding distinct_map by (blast dest: inj_onD)

section \<open>Tables where the first row with a key stays\<close>

text \<open>
  The contract of \<open>INSERT ... ON CONFLICT DO NOTHING\<close> behind a lookup by key: what a lookup returns
  after an insertion of a row whose key was free.
\<close>

locale first_write =
  fixes lookup :: "'t \<Rightarrow> 'k \<Rightarrow> 'r option" and insert_row :: "'r \<Rightarrow> 't \<Rightarrow> 't" and key :: "'r \<Rightarrow> 'k"
  assumes lookup_insert: "lookup t (key r) = None \<Longrightarrow> lookup (insert_row r t) k = (if k = key r then Some r else lookup t k)"
begin

definition put :: "'r \<Rightarrow> 't \<Rightarrow> 't" where
  "put r t = (if lookup t (key r) = None then insert_row r t else t)"

lemma lookup_put: "lookup (put r t) k = (if k = key r \<and> lookup t k = None then Some r else lookup t k)"
  by (auto simp: put_def lookup_insert)

lemma put_idem [simp]: "put r (put r t) = put r t"
  by (simp add: put_def lookup_insert)

lemma put_keeps: "lookup t k = Some r' \<Longrightarrow> lookup (put r t) k = Some r'"
  by (simp add: lookup_put)

lemma lookup_puts: "lookup (fold put rs t) k = (case lookup t k of None \<Rightarrow> find (\<lambda>r. key r = k) rs | Some r \<Rightarrow> Some r)"
  by (induction rs arbitrary: t) (auto simp: lookup_put split: option.split)

lemma puts_defined: "lookup (fold put rs t) k \<noteq> None \<longleftrightarrow> lookup t k \<noteq> None \<or> k \<in> key ` set rs"
proof (cases "lookup t k")
  case None
  then show ?thesis using find_None_iff [of "\<lambda>r. key r = k" rs] by (auto simp: lookup_puts)
qed (simp add: lookup_puts)

end

end
