(* ===== verification/Auth.thy ===== *)
theory Auth
  imports Tables SignedToken
begin

text \<open>
  Package \<open>internal/auth\<close> (service.go) together with the session operations of
  \<open>internal/postgres/store.go\<close> it runs on. The tables \<open>users\<close> and \<open>user_sessions\<close> are lists
  of rows with the constraints of \<open>migrations/001_initial.sql\<close>. Hash functions, bcrypt, Unicode
  case mapping and random bytes are parameters, gathered in the service record; an operation
  reads the clock once.
\<close>

section \<open>Data\<close>

datatype auth_error = ErrInvalidCredentials | ErrTOTPRequired | ErrForbidden
  | ErrNoRows | ErrConstraint | ErrRandom

record User =
  usr_ID :: string
  usr_Username :: string
  usr_Email :: string
  usr_Admin :: bool
  usr_TOTPEnabled :: bool

record Credential = User +
  cred_PasswordHash :: string
  cred_TOTPSecret :: string

record Session = User +
  sess_SessionID :: string
  sess_DeviceID :: "string option"
  sess_AdminVerified :: bool

record TokenPair =
  pair_AccessToken :: string
  pair_AccessExpiresAt :: time
  pair_RefreshToken :: string
  pair_RefreshExpiresAt :: time

record UserRow =
  u_id :: string
  u_username :: string
  u_email :: string
  u_password_hash :: string
  u_totp_secret :: "string option"
  u_is_admin :: bool
  u_disabled_at :: "time option"

record SessionRow =
  s_id :: string
  s_user_id :: string
  s_device_id :: "string option"
  s_access_token_hash :: string
  s_access_expires_at :: time
  s_refresh_token_hash :: string
  s_expires_at :: time
  s_revoked_at :: "time option"
  s_admin_verified_at :: "time option"

record auth_db =
  db_users :: "UserRow list"
  db_sessions :: "SessionRow list"

section \<open>The session store (postgres/store.go)\<close>

definition CredentialByIdentifier :: "(string \<Rightarrow> string) \<Rightarrow> auth_db \<Rightarrow> string \<Rightarrow> auth_error + Credential" where
  "CredentialByIdentifier lower db identifier =
     (case find (\<lambda>u. (lower (u_username u) = lower identifier \<or> lower (u_email u) = lower identifier) \<and>
                  u_disabled_at u = None) (db_users db) of
        None \<Rightarrow> Inl ErrNoRows
      | Some u \<Rightarrow> Inr \<lparr>usr_ID = u_id u, usr_Username = u_username u, usr_Email = u_email u,
          usr_Admin = u_is_admin u, usr_TOTPEnabled = (u_totp_secret u \<noteq> None),
          cred_PasswordHash = u_password_hash u,
          cred_TOTPSecret = (case u_totp_secret u of None \<Rightarrow> '''' | Some s \<Rightarrow> s)\<rparr>)"

text \<open>The two \<open>UNIQUE\<close> columns of \<open>user_sessions\<close>.\<close>

definition sessions_unique :: "SessionRow list \<Rightarrow> bool" where
  "sessions_unique rows \<longleftrightarrow>
     distinct (map s_access_token_hash rows) \<and> distinct (map s_refresh_token_hash rows)"

definition store_sessions :: "auth_db \<Rightarrow> SessionRow list \<Rightarrow> auth_error + auth_db" where
  "store_sessions db rows =
     (if sessions_unique rows then Inr (db\<lparr>db_sessions := rows\<rparr>) else Inl ErrConstraint)"

definition CreateSession ::
  "auth_db \<Rightarrow> string \<Rightarrow> string \<Rightarrow> string \<Rightarrow> time \<Rightarrow> string \<Rightarrow> time \<Rightarrow> auth_error + auth_db"
where
  "CreateSession db sessionID userID accessHash accessExpiresAt refreshHash refreshExpiresAt =
     (if \<not> list_ex (\<lambda>u. u_id u = userID) (db_users db) \<or> list_ex (\<lambda>s. s_id s = sessionID) (db_sessions db)
      then Inl ErrConstraint
      else store_sessions db (db_sessions db @
        [\<lparr>s_id = sessionID, s_user_id = userID, s_device_id = None, s_access_token_hash = accessHash,
          s_access_expires_at = accessExpiresAt, s_refresh_token_hash = refreshHash,
          s_expires_at = refreshExpiresAt, s_revoked_at = None, s_admin_verified_at = None\<rparr>]))"

definition session_view :: "time \<Rightarrow> SessionRow \<Rightarrow> UserRow \<Rightarrow> Session" where
  "session_view now s u =
     \<lparr>usr_ID = u_id u, usr_Username = u_username u, usr_Email = u_email u,
      usr_Admin = u_is_admin u, usr_TOTPEnabled = (u_totp_secret u \<noteq> None),
      sess_SessionID = s_id s, sess_DeviceID = s_device_id s,
      sess_AdminVerified = (case s_admin_verified_at s of None \<Rightarrow> False | Some t \<Rightarrow> now - 15 * minute < t)\<rparr>"

definition session_open :: "string \<Rightarrow> time \<Rightarrow> SessionRow \<Rightarrow> UserRow \<Rightarrow> bool" where
  "session_open hash now s u \<longleftrightarrow> s_user_id s = u_id u \<and> s_access_token_hash s = hash \<and>
     now < s_access_expires_at s \<and> s_revoked_at s = None \<and> u_disabled_at u = None"

definition SessionByAccessToken :: "auth_db \<Rightarrow> string \<Rightarrow> time \<Rightarrow> auth_error + Session" where
  "SessionByAccessToken db hash now =
     (case find (\<lambda>(s, u). session_open hash now s u) (List.product (db_sessions db) (db_users db)) of
        None \<Rightarrow> Inl ErrInvalidCredentials
      | Some (s, u) \<Rightarrow> Inr (session_view now s u))"

definition SetTOTPSecret :: "auth_db \<Rightarrow> string \<Rightarrow> string \<Rightarrow> auth_error + auth_db" where
  "SetTOTPSecret db userID secret =
     (let hit = (\<lambda>u. u_id u = userID \<and> u_disabled_at u = None)
      in if list_ex hit (db_users db)
         then Inr (db\<lparr>db_users := update_where hit (\<lambda>u. u\<lparr>u_totp_secret := Some secret\<rparr>) (db_users db)\<rparr>)
         else Inl ErrNoRows)"

definition MarkAdminVerified :: "auth_db \<Rightarrow> string \<Rightarrow> time \<Rightarrow> auth_error + auth_db" where
  "MarkAdminVerified db sessionID verifiedAt =
     (let hit = (\<lambda>s. s_id s = sessionID \<and> s_revoked_at s = None)
      in if list_ex hit (db_sessions db)
         then Inr (db\<lparr>db_sessions :=
           update_where hit (\<lambda>s. s\<lparr>s_admin_verified_at := Some verifiedAt\<rparr>) (db_sessions db)\<rparr>)
         else Inl ErrNoRows)"

definition refreshable :: "string \<Rightarrow> time \<Rightarrow> SessionRow \<Rightarrow> bool" where
  "refreshable hash now s \<longleftrightarrow> s_refresh_token_hash s = hash \<and> now < s_expires_at s \<and> s_revoked_at s = None"

definition RotateSession ::
  "auth_db \<Rightarrow> string \<Rightarrow> string \<Rightarrow> time \<Rightarrow> string \<Rightarrow> time \<Rightarrow> time \<Rightarrow> auth_error + auth_db"
where
  "RotateSession db oldHash accessHash accessExpiresAt refreshHash refreshExpiresAt now =
     (if list_ex (refreshable oldHash now) (db_sessions db)
      then store_sessions db (update_where (refreshable oldHash now)
        (\<lambda>s. s\<lparr>s_access_token_hash := accessHash, s_access_expires_at := accessExpiresAt,
               s_refresh_token_hash := refreshHash, s_expires_at := refreshExpiresAt\<rparr>)
        (db_sessions db))
      else Inl ErrNoRows)"

definition RevokeSessionByRefreshToken :: "auth_db \<Rightarrow> string \<Rightarrow> time \<Rightarrow> auth_error + auth_db" where
  "RevokeSessionByRefreshToken db hash now =
     (let hit = (\<lambda>s. s_refresh_token_hash s = hash \<and> s_revoked_at s = None)
      in if list_ex hit (db_sessions db)
         then Inr (db\<lparr>db_sessions := update_where hit (\<lambda>s. s\<lparr>s_revoked_at := Some now\<rparr>) (db_sessions db)\<rparr>)
         else Inl ErrNoRows)"

section \<open>Time-based one-time passwords\<close>

definition b32_alphabet :: string where
  "b32_alphabet = ''ABCDEFGHIJKLMNOPQRSTUVWXYZ234567''"

text \<open>One group of up to eight digits; an incomplete group of 1, 3 or 6 digits yields nothing.\<close>

definition b32_quantum :: "nat list \<Rightarrow> nat list" where
  "b32_quantum ds =
     (let d = (\<lambda>i. if i < length ds then ds ! i else 0);
          n = (if length ds = 8 then 5 else if length ds = 7 then 4 else if length ds = 5 then 3
               else if length ds = 4 then 2 else if length ds = 2 then 1 else 0)
      in take n [d 0 * 8 + d 1 div 4, (d 1 * 64 + d 2 * 2 + d 3 div 16) mod 256,
                 (d 3 * 16 + d 4 div 2) mod 256, (d 4 * 128 + d 5 * 4 + d 6 div 8) mod 256,
                 (d 6 * 32 + d 7) mod 256])"

fun b32_groups :: "nat list \<Rightarrow> nat list" where
  "b32_groups (a # b # c # d # e # f # g # h # r) = b32_quantum [a, b, c, d, e, f, g, h] @ b32_groups r"
| "b32_groups ds = b32_quantum ds"

definition b32_decode :: "string \<Rightarrow> string option" where
  "b32_decode s =
     (let digits = map (\<lambda>c. index_of c b32_alphabet) (filter (\<lambda>c. c \<noteq> CHR 0x0A \<and> c \<noteq> CHR 0x0D) s)
      in if None \<in> set digits then None else Some (map char_of (b32_groups (map the digits))))"

definition normalizeSecret :: "(string \<Rightarrow> string) \<Rightarrow> string \<Rightarrow> string" where
  "normalizeSecret upper v = upper (filter (\<lambda>c. c \<noteq> CHR '' '') (TrimSpace v))"

fun big_endian :: "nat \<Rightarrow> nat \<Rightarrow> string" where
  "big_endian 0 v = []"
| "big_endian (Suc n) v = big_endian n (v div 256) @ [char_of (v mod 256)]"

text \<open>\<open>fmt.Sprintf("%06d")\<close> of a number below a million.\<close>

definition six_digits :: "nat \<Rightarrow> string" where
  "six_digits v = map (\<lambda>i. char_of (48 + v div 10 ^ i mod 10)) [5, 4, 3, 2, 1, 0]"

definition totp_code :: "hmac \<Rightarrow> string \<Rightarrow> int \<Rightarrow> string" where
  "totp_code hmac_sha1 key counter =
     (let sum = map code (hmac_sha1 key (big_endian 8 (nat (counter mod 2 ^ 64))));
          index = last sum mod 16
      in six_digits ((sum ! index mod 128 * 2 ^ 24 + sum ! (index + 1) * 2 ^ 16 +
            sum ! (index + 2) * 2 ^ 8 + sum ! (index + 3)) mod 1000000))"

definition validTOTP :: "hmac \<Rightarrow> (string \<Rightarrow> string) \<Rightarrow> string \<Rightarrow> string \<Rightarrow> time \<Rightarrow> bool" where
  "validTOTP hmac_sha1 upper secret totp now =
     (if length totp \<noteq> 6 then False
      else case b32_decode (normalizeSecret upper secret) of
        None \<Rightarrow> False
      | Some key \<Rightarrow> length key \<ge> 16 \<and>
          list_ex (\<lambda>offset. totp_code hmac_sha1 key (go_div (time_Unix now) 30 + offset) = totp) [-1, 0, 1])"

section \<open>The service (auth/service.go)\<close>

record AuthService =
  svc_accessTTL :: duration
  svc_refreshTTL :: duration
  svc_sha256 :: "string \<Rightarrow> string"
  svc_hmac_sha1 :: hmac
  svc_bcrypt :: "string \<Rightarrow> string \<Rightarrow> bool"
  svc_lower :: "string \<Rightarrow> string"
  svc_upper :: "string \<Rightarrow> string"

text \<open>\<open>newToken\<close>, given what \<open>rand.Read\<close> returned.\<close>

definition newToken :: "string option \<Rightarrow> auth_error + string" where
  "newToken random = (case random of None \<Rightarrow> Inl ErrRandom | Some value \<Rightarrow> Inr (b64_encode value))"

definition issueTokenPair ::
  "AuthService \<Rightarrow> time \<Rightarrow> string option \<Rightarrow> string option \<Rightarrow> auth_error + TokenPair"
where
  "issueTokenPair svc now random1 random2 =
     bindE (newToken random1) (\<lambda>access. bindE (newToken random2) (\<lambda>refresh. Inr
       \<lparr>pair_AccessToken = access, pair_AccessExpiresAt = now + svc_accessTTL svc,
        pair_RefreshToken = refresh, pair_RefreshExpiresAt = now + svc_refreshTTL svc\<rparr>))"

definition LoginWithTOTP ::
  "AuthService \<Rightarrow> auth_db \<Rightarrow> time \<Rightarrow> string option \<Rightarrow> string option \<Rightarrow> string \<Rightarrow>
   string \<Rightarrow> string \<Rightarrow> string \<Rightarrow> auth_error + auth_db \<times> TokenPair"
where
  "LoginWithTOTP svc db now random1 random2 sessionID identifier password totp =
     (case CredentialByIdentifier (svc_lower svc) db identifier of
        Inl e \<Rightarrow> Inl ErrInvalidCredentials
      | Inr credential \<Rightarrow>
          if \<not> svc_bcrypt svc (cred_PasswordHash credential) password then Inl ErrInvalidCredentials
          else if cred_TOTPSecret credential \<noteq> '''' \<and>
                  \<not> validTOTP (svc_hmac_sha1 svc) (svc_upper svc) (cred_TOTPSecret credential) totp now
          then Inl ErrTOTPRequired
          else bindE (issueTokenPair svc now random1 random2) (\<lambda>pair.
            bindE (CreateSession db sessionID (usr_ID credential)
                (svc_sha256 svc (pair_AccessToken pair)) (pair_AccessExpiresAt pair)
                (svc_sha256 svc (pair_RefreshToken pair)) (pair_RefreshExpiresAt pair))
              (\<lambda>db. Inr (db, pair))))"

definition Login ::
  "AuthService \<Rightarrow> auth_db \<Rightarrow> time \<Rightarrow> string option \<Rightarrow> string option \<Rightarrow> string \<Rightarrow>
   string \<Rightarrow> string \<Rightarrow> auth_error + auth_db \<times> TokenPair"
where
  "Login svc db now random1 random2 sessionID identifier password =
     LoginWithTOTP svc db now random1 random2 sessionID identifier password ''''"

definition validPassword :: "AuthService \<Rightarrow> auth_db \<Rightarrow> string \<Rightarrow> string \<Rightarrow> bool" where
  "validPassword svc db identifier password =
     (case CredentialByIdentifier (svc_lower svc) db identifier of
        Inl e \<Rightarrow> False
      | Inr credential \<Rightarrow> svc_bcrypt svc (cred_PasswordHash credential) password)"

definition EnableTOTP ::
  "AuthService \<Rightarrow> auth_db \<Rightarrow> time \<Rightarrow> Session \<Rightarrow> string \<Rightarrow> string \<Rightarrow> string \<Rightarrow> auth_error + auth_db"
where
  "EnableTOTP svc db now session password secret totp =
     (if \<not> usr_Admin session \<or> \<not> validPassword svc db (usr_Username session) password \<or>
         \<not> validTOTP (svc_hmac_sha1 svc) (svc_upper svc) secret totp now
      then Inl ErrInvalidCredentials
      else SetTOTPSecret db (usr_ID session) (normalizeSecret (svc_upper svc) secret))"

definition VerifyAdmin ::
  "AuthService \<Rightarrow> auth_db \<Rightarrow> time \<Rightarrow> Session \<Rightarrow> string \<Rightarrow> string \<Rightarrow> auth_error + auth_db"
where
  "VerifyAdmin svc db now session password totp =
     (if \<not> usr_Admin session then Inl ErrForbidden
      else case CredentialByIdentifier (svc_lower svc) db (usr_Username session) of
        Inl e \<Rightarrow> Inl ErrInvalidCredentials
      | Inr credential \<Rightarrow>
          if cred_TOTPSecret credential = '''' \<or> \<not> svc_bcrypt svc (cred_PasswordHash credential) password \<or>
             \<not> validTOTP (svc_hmac_sha1 svc) (svc_upper svc) (cred_TOTPSecret credential) totp now
          then Inl ErrInvalidCredentials
          else MarkAdminVerified db (sess_SessionID session) now)"

definition Refresh ::
  "AuthService \<Rightarrow> auth_db \<Rightarrow> time \<Rightarrow> string option \<Rightarrow> string option \<Rightarrow> string \<Rightarrow>
   auth_error + auth_db \<times> TokenPair"
where
  "Refresh svc db now random1 random2 refreshToken =
     (if refreshToken = '''' then Inl ErrInvalidCredentials
      else bindE (issueTokenPair svc now random1 random2) (\<lambda>pair.
        case RotateSession db (svc_sha256 svc refreshToken)
            (svc_sha256 svc (pair_AccessToken pair)) (pair_AccessExpiresAt pair)
            (svc_sha256 svc (pair_RefreshToken pair)) (pair_RefreshExpiresAt pair) now of
          Inl e \<Rightarrow> Inl ErrInvalidCredentials
        | Inr db \<Rightarrow> Inr (db, pair)))"

definition Authenticate :: "AuthService \<Rightarrow> auth_db \<Rightarrow> time \<Rightarrow> string \<Rightarrow> auth_error + Session" where
  "Authenticate svc db now accessToken =
     (if accessToken = '''' then Inl ErrInvalidCredentials
      else SessionByAccessToken db (svc_sha256 svc accessToken) now)"

definition Logout :: "AuthService \<Rightarrow> auth_db \<Rightarrow> time \<Rightarrow> string \<Rightarrow> auth_error + auth_db" where
  "Logout svc db now refreshToken =
     (if refreshToken = '''' then Inl ErrInvalidCredentials
      else case RevokeSessionByRefreshToken db (svc_sha256 svc refreshToken) now of
        Inl e \<Rightarrow> Inl ErrInvalidCredentials
      | Inr db \<Rightarrow> Inr db)"

section \<open>Tables stay well formed\<close>

definition auth_ok :: "auth_db \<Rightarrow> bool" where
  "auth_ok db \<longleftrightarrow> sessions_unique (db_sessions db) \<and> distinct (map s_id (db_sessions db)) \<and>
     distinct (map u_id (db_users db)) \<and>
     s_user_id ` set (db_sessions db) \<subseteq> u_id ` set (db_users db)"

lemma store_sessions_eq_Inr:
  "store_sessions db rows = Inr db' \<longleftrightarrow> sessions_unique rows \<and> db' = db\<lparr>db_sessions := rows\<rparr>"
  by (auto simp: store_sessions_def)

lemma update_sessions_ok:
  assumes "auth_ok db" and "sessions_unique (update_where hit f (db_sessions db))"
    and "\<And>s. s_id (f s) = s_id s" and "\<And>s. s_user_id (f s) = s_user_id s"
  shows "auth_ok (db\<lparr>db_sessions := update_where hit f (db_sessions db)\<rparr>)"
proof -
  have "s_user_id ` set (update_where hit f (db_sessions db)) = s_user_id ` set (db_sessions db)"
    using map_update_where [of s_user_id f hit "db_sessions db"] assms(4) by (metis set_map)
  then show ?thesis using assms by (simp add: auth_ok_def)
qed

lemma update_sessions_same:
  assumes "auth_ok db" and "\<And>s. s_id (f s) = s_id s" and "\<And>s. s_user_id (f s) = s_user_id s"
    and "\<And>s. s_access_token_hash (f s) = s_access_token_hash s"
    and "\<And>s. s_refresh_token_hash (f s) = s_refresh_token_hash s"
  shows "auth_ok (db\<lparr>db_sessions := update_where hit f (db_sessions db)\<rparr>)"
  using assms by (intro update_sessions_ok) (simp_all add: sessions_unique_def auth_ok_def)

lemma update_users_same:
  assumes "auth_ok db" and "\<And>u. u_id (f u) = u_id u"
  shows "auth_ok (db\<lparr>db_users := update_where hit f (db_users db)\<rparr>)"
proof -
  have "u_id ` set (update_where hit f (db_users db)) = u_id ` set (db_users db)"
    using map_update_where [of u_id f hit "db_users db"] assms(2) by (metis set_map)
  then show ?thesis using assms by (simp add: auth_ok_def)
qed

lemma CreateSession_ok:
  "auth_ok db \<Longrightarrow> CreateSession db sid uid a ae r re = Inr db' \<Longrightarrow> auth_ok db'"
  by (auto simp: CreateSession_def store_sessions_eq_Inr auth_ok_def list_ex_iff split: if_splits)

lemma RotateSession_ok:
  "auth_ok db \<Longrightarrow> RotateSession db old a ae r re now = Inr db' \<Longrightarrow> auth_ok db'"
  by (auto simp: RotateSession_def store_sessions_eq_Inr intro!: update_sessions_ok split: if_splits)

lemma RevokeSession_ok:
  "auth_ok db \<Longrightarrow> RevokeSessionByRefreshToken db h now = Inr db' \<Longrightarrow> auth_ok db'"
  by (auto simp: RevokeSessionByRefreshToken_def Let_def intro!: update_sessions_same split: if_splits)

lemma MarkAdminVerified_ok:
  "auth_ok db \<Longrightarrow> MarkAdminVerified db sid now = Inr db' \<Longrightarrow> auth_ok db'"
  by (auto simp: MarkAdminVerified_def Let_def intro!: update_sessions_same split: if_splits)

lemma SetTOTPSecret_ok:
  "auth_ok db \<Longrightarrow> SetTOTPSecret db uid secret = Inr db' \<Longrightarrow> auth_ok db'"
  by (auto simp: SetTOTPSecret_def Let_def intro!: update_users_same split: if_splits)

text \<open>What an access token opens, once the columns are unique.\<close>

lemma SessionByAccessToken_iff:
  assumes "auth_ok db"
  shows "SessionByAccessToken db h now = Inr v \<longleftrightarrow>
     (\<exists>s \<in> set (db_sessions db). \<exists>u \<in> set (db_users db). session_open h now s u \<and> v = session_view now s u)"
proof
  assume "SessionByAccessToken db h now = Inr v"
  then obtain s u where "find (\<lambda>(s, u). session_open h now s u) (List.product (db_sessions db) (db_users db)) = Some (s, u)"
    and "v = session_view now s u"
    by (auto simp: SessionByAccessToken_def split: option.splits)
  then show "\<exists>s \<in> set (db_sessions db). \<exists>u \<in> set (db_users db). session_open h now s u \<and> v = session_view now s u"
    using find_SomeD by fastforce
next
  assume "\<exists>s \<in> set (db_sessions db). \<exists>u \<in> set (db_users db). session_open h now s u \<and> v = session_view now s u"
  then obtain s u where su: "s \<in> set (db_sessions db)" "u \<in> set (db_users db)" "session_open h now s u"
    "v = session_view now s u" by blast
  have "find (\<lambda>(s, u). session_open h now s u) (List.product (db_sessions db) (db_users db)) = Some (s, u)"
  proof (rule find_unique)
    fix y assume y: "y \<in> set (List.product (db_sessions db) (db_users db))" "case y of (s, u) \<Rightarrow> session_open h now s u"
    obtain s' u' where y': "y = (s', u')" by (cases y)
    with y have s'u': "s' \<in> set (db_sessions db)" "u' \<in> set (db_users db)" "session_open h now s' u'"
      by auto
    have unique: "distinct (map s_access_token_hash (db_sessions db))" "distinct (map u_id (db_users db))"
      using assms by (simp_all add: auth_ok_def sessions_unique_def)
    have "s' = s"
      by (rule distinct_keyD [OF unique(1) s'u'(1) su(1)]) (use s'u'(3) su(3) in \<open>simp add: session_open_def\<close>)
    moreover have "u' = u"
      by (rule distinct_keyD [OF unique(2) s'u'(2) su(2)])
        (use s'u'(3) su(3) calculation in \<open>simp add: session_open_def\<close>)
    ultimately show "y = (s, u)" by (simp add: y')
  qed (use su in auto)
  with su show "SessionByAccessToken db h now = Inr v" by (simp add: SessionByAccessToken_def)
qed

lemma CredentialByIdentifier_Inr:
  "CredentialByIdentifier lower db ident = Inr c \<Longrightarrow>
     \<exists>u \<in> set (db_users db). u_disabled_at u = None \<and> usr_ID c = u_id u \<and> cred_PasswordHash c = u_password_hash u \<and>
       (lower (u_username u) = lower ident \<or> lower (u_email u) = lower ident) \<and>
       cred_TOTPSecret c = (case u_totp_secret u of None \<Rightarrow> '''' | Some s \<Rightarrow> s)"
  by (auto simp: CredentialByIdentifier_def split: option.splits dest!: find_SomeD)

lemma b64_encode_eq_Nil [simp]: "b64_encode v = '''' \<longleftrightarrow> v = ''''"
proof -
  have "b64_encode '''' = ''''" by (simp add: b64_encode_def)
  then show ?thesis using b64_encode_inject [of v "''''"] by simp
qed

lemma issueTokenPair_Inr:
  "issueTokenPair svc now r1 r2 = Inr pair \<longleftrightarrow>
     (\<exists>v w. r1 = Some v \<and> r2 = Some w \<and>
        pair = \<lparr>pair_AccessToken = b64_encode v, pair_AccessExpiresAt = now + svc_accessTTL svc,
          pair_RefreshToken = b64_encode w, pair_RefreshExpiresAt = now + svc_refreshTTL svc\<rparr>)"
  by (auto simp: issueTokenPair_def newToken_def split: option.splits)

section \<open>Sessions from login to logout\<close>

text \<open>
  A login that succeeds was for a user that is not disabled, found by user name or e-mail,
  with the right password and, when one-time passwords are enabled, the right code; it keeps the
  tables well formed; and until it expires the access token it returns authenticates exactly that
  user, on a session that is not bound to a device and not verified for administration.
\<close>

theorem Login_opens_session:
  assumes "auth_ok db"
    and "LoginWithTOTP svc db now (Some (c # r1)) random2 sid ident password totp = Inr (db', pair)"
    and "later < now + svc_accessTTL svc"
  shows "auth_ok db' \<and>
    (\<exists>u \<in> set (db_users db). u_disabled_at u = None \<and> svc_bcrypt svc (u_password_hash u) password \<and>
       svc_lower svc ident \<in> {svc_lower svc (u_username u), svc_lower svc (u_email u)} \<and>
       (u_totp_secret u \<in> {None, Some ''''} \<or>
        validTOTP (svc_hmac_sha1 svc) (svc_upper svc) (the (u_totp_secret u)) totp now) \<and>
       Authenticate svc db' later (pair_AccessToken pair) =
         Inr \<lparr>usr_ID = u_id u, usr_Username = u_username u, usr_Email = u_email u, usr_Admin = u_is_admin u,
           usr_TOTPEnabled = (u_totp_secret u \<noteq> None), sess_SessionID = sid, sess_DeviceID = None,
           sess_AdminVerified = False\<rparr>)"
proof -
  obtain cred where cred: "CredentialByIdentifier (svc_lower svc) db ident = Inr cred"
    and pw: "svc_bcrypt svc (cred_PasswordHash cred) password"
    and totp: "cred_TOTPSecret cred = '''' \<or>
      validTOTP (svc_hmac_sha1 svc) (svc_upper svc) (cred_TOTPSecret cred) totp now"
    and pair: "issueTokenPair svc now (Some (c # r1)) random2 = Inr pair"
    and create: "CreateSession db sid (usr_ID cred) (svc_sha256 svc (pair_AccessToken pair))
      (pair_AccessExpiresAt pair) (svc_sha256 svc (pair_RefreshToken pair)) (pair_RefreshExpiresAt pair) = Inr db'"
    using assms(2) by (auto simp: LoginWithTOTP_def split: sum.splits if_splits)
  obtain u where u: "u \<in> set (db_users db)" "u_disabled_at u = None" "usr_ID cred = u_id u"
    "cred_PasswordHash cred = u_password_hash u"
    "svc_lower svc (u_username u) = svc_lower svc ident \<or> svc_lower svc (u_email u) = svc_lower svc ident"
    "cred_TOTPSecret cred = (case u_totp_secret u of None \<Rightarrow> '''' | Some s \<Rightarrow> s)"
    using CredentialByIdentifier_Inr [OF cred] by blast
  have ok: "auth_ok db'" using CreateSession_ok [OF assms(1) create] .
  have token: "pair_AccessToken pair \<noteq> ''''" "pair_AccessExpiresAt pair = now + svc_accessTTL svc"
    using pair by (auto simp: issueTokenPair_Inr)
  let ?s = "\<lparr>s_id = sid, s_user_id = u_id u, s_device_id = None,
     s_access_token_hash = svc_sha256 svc (pair_AccessToken pair),
     s_access_expires_at = pair_AccessExpiresAt pair, s_refresh_token_hash = svc_sha256 svc (pair_RefreshToken pair),
     s_expires_at = pair_RefreshExpiresAt pair, s_revoked_at = None, s_admin_verified_at = None\<rparr>"
  have "?s \<in> set (db_sessions db')" "u \<in> set (db_users db')"
    using create u by (auto simp: CreateSession_def store_sessions_eq_Inr split: if_splits)
  moreover have "session_open (svc_sha256 svc (pair_AccessToken pair)) later ?s u"
    using u assms(3) token by (simp add: session_open_def)
  ultimately have "SessionByAccessToken db' (svc_sha256 svc (pair_AccessToken pair)) later = Inr (session_view later ?s u)"
    unfolding SessionByAccessToken_iff [OF ok] by blast
  then have "Authenticate svc db' later (pair_AccessToken pair) = Inr (session_view later ?s u)"
    by (simp add: Authenticate_def token)
  with ok u pw totp show ?thesis
    by (intro conjI bexI [of _ u]) (auto simp: session_view_def split: option.splits)
qed

text \<open>
  C6. A refresh token works once. When \<open>Refresh\<close> succeeds and the new refresh token does not
  hash to the old one's hash, the old refresh token is refused from then on whatever the clock
  says; every access token that still authenticates either is the new one or authenticated the
  same session before, and it is not the refreshed session; the tables stay well formed.
\<close>

theorem Refresh_rotates:
  assumes "auth_ok db" and "Refresh svc db now random1 random2 token = Inr (db', pair)"
    and "svc_sha256 svc (pair_RefreshToken pair) \<noteq> svc_sha256 svc token"
  shows "auth_ok db' \<and>
    \<not> (\<exists>later r3 r4 out. Refresh svc db' later r3 r4 token = Inr out) \<and>
    \<not> (\<exists>later t v. svc_sha256 svc t \<noteq> svc_sha256 svc (pair_AccessToken pair) \<and>
         Authenticate svc db' later t = Inr v \<and>
         \<not> (Authenticate svc db later t = Inr v \<and>
            \<not> list_ex (\<lambda>s. s_id s = sess_SessionID v \<and> s_refresh_token_hash s = svc_sha256 svc token) (db_sessions db)))"
proof -
  let ?h = "svc_sha256 svc token" and ?a = "svc_sha256 svc (pair_AccessToken pair)"
  let ?new = "\<lambda>s. s\<lparr>s_access_token_hash := ?a, s_access_expires_at := pair_AccessExpiresAt pair,
      s_refresh_token_hash := svc_sha256 svc (pair_RefreshToken pair), s_expires_at := pair_RefreshExpiresAt pair\<rparr>"
  have rot: "RotateSession db ?h ?a (pair_AccessExpiresAt pair)
      (svc_sha256 svc (pair_RefreshToken pair)) (pair_RefreshExpiresAt pair) now = Inr db'"
    using assms(2) by (auto simp: Refresh_def split: if_splits)
  have ok: "auth_ok db'" using RotateSession_ok [OF assms(1) rot] .
  obtain s0 where s0: "s0 \<in> set (db_sessions db)" "refreshable ?h now s0"
    using rot by (auto simp: RotateSession_def list_ex_iff split: if_splits)
  have db': "db' = db\<lparr>db_sessions := update_where (refreshable ?h now) ?new (db_sessions db)\<rparr>"
    using rot by (auto simp: RotateSession_def store_sessions_eq_Inr split: if_splits)
  have distinct_h: "distinct (map s_refresh_token_hash (db_sessions db))" "distinct (map s_id (db_sessions db))"
    using assms(1) by (simp_all add: auth_ok_def sessions_unique_def)
  have only: "s = s0" if "s \<in> set (db_sessions db)" "s_refresh_token_hash s = ?h" for s
    by (rule distinct_keyD [OF distinct_h(1) that(1) s0(1)]) (use that s0 in \<open>simp add: refreshable_def\<close>)
  have old: "s \<in> set (db_sessions db) \<and> s_refresh_token_hash s \<noteq> ?h \<or> s = ?new s0"
    if "s \<in> set (db_sessions db')" for s
  proof -
    note s = that
    consider (new) r where "r \<in> set (db_sessions db)" "refreshable ?h now r" "s = ?new r"
      | (kept) "s \<in> set (db_sessions db)" "\<not> refreshable ?h now s"
      using s unfolding db' by (auto simp: set_update_where)
    then show ?thesis
    proof cases
      case new
      then have "r = s0" by (intro only) (simp_all add: refreshable_def)
      with new show ?thesis by simp
    next
      case kept
      then have "s_refresh_token_hash s \<noteq> ?h" using only s0(2) by blast
      with kept show ?thesis by simp
    qed
  qed
  have "\<not> list_ex (refreshable ?h later) (db_sessions db')" for later
    using old assms(3) by (fastforce simp: list_ex_iff refreshable_def)
  then have "Refresh svc db' later r3 r4 token \<noteq> Inr out" for later r3 r4 out
    by (auto simp: Refresh_def RotateSession_def)
  moreover have "Authenticate svc db later t = Inr v \<and>
      \<not> list_ex (\<lambda>s. s_id s = sess_SessionID v \<and> s_refresh_token_hash s = ?h) (db_sessions db)"
    if t: "svc_sha256 svc t \<noteq> ?a" "Authenticate svc db' later t = Inr v" for later t v
  proof -
    have "t \<noteq> ''''" "SessionByAccessToken db' (svc_sha256 svc t) later = Inr v"
      using t(2) by (auto simp: Authenticate_def split: if_splits)
    then obtain s u where su: "s \<in> set (db_sessions db')" "u \<in> set (db_users db')"
      "session_open (svc_sha256 svc t) later s u" "v = session_view later s u"
      unfolding SessionByAccessToken_iff [OF ok] by blast
    have "s \<noteq> ?new s0" using su(3) t(1) by (auto simp: session_open_def)
    with old [OF su(1)] have s: "s \<in> set (db_sessions db)" "s_refresh_token_hash s \<noteq> ?h" by auto
    then have "Authenticate svc db later t = Inr v"
      using su \<open>t \<noteq> ''''\<close> by (auto simp: Authenticate_def SessionByAccessToken_iff [OF assms(1)] db')
    moreover have "s_refresh_token_hash s' \<noteq> ?h" if "s' \<in> set (db_sessions db)" "s_id s' = sess_SessionID v" for s'
    proof -
      have "s' = s" by (rule distinct_keyD [OF distinct_h(2) that(1) s(1)]) (use that su(4) in \<open>simp add: session_view_def\<close>)
      with s show ?thesis by simp
    qed
    ultimately show ?thesis by (auto simp: list_ex_iff)
  qed
  ultimately show ?thesis using ok by blast
qed

text \<open>
  After \<open>Logout\<close> the session is closed for good: its refresh token is refused, no access
  token authenticates it any more, and every other session is as before.
\<close>

theorem Logout_revokes:
  assumes "auth_ok db" and "Logout svc db now token = Inr db'"
  shows "auth_ok db' \<and>
    \<not> (\<exists>later r3 r4 out. Refresh svc db' later r3 r4 token = Inr out) \<and>
    (Authenticate svc db' later t = Inr v \<longleftrightarrow>
       Authenticate svc db later t = Inr v \<and>
       \<not> list_ex (\<lambda>s. s_id s = sess_SessionID v \<and> s_refresh_token_hash s = svc_sha256 svc token) (db_sessions db))"
proof -
  let ?h = "svc_sha256 svc token"
  let ?hit = "\<lambda>s. s_refresh_token_hash s = ?h \<and> s_revoked_at s = None"
  have revoke: "RevokeSessionByRefreshToken db ?h now = Inr db'"
    using assms(2) by (auto simp: Logout_def split: sum.splits if_splits)
  then have db': "db' = db\<lparr>db_sessions := update_where ?hit (\<lambda>s. s\<lparr>s_revoked_at := Some now\<rparr>) (db_sessions db)\<rparr>"
    by (auto simp: RevokeSessionByRefreshToken_def Let_def split: if_splits)
  have ok: "auth_ok db'" using RevokeSession_ok [OF assms(1) revoke] .
  have "\<not> list_ex (refreshable ?h later) (db_sessions db')" for later
    by (auto simp: db' list_ex_iff set_update_where refreshable_def)
  then have "Refresh svc db' later r3 r4 token \<noteq> Inr out" for later r3 r4 out
    by (auto simp: Refresh_def RotateSession_def)
  moreover have "Authenticate svc db' later t = Inr v \<longleftrightarrow>
      Authenticate svc db later t = Inr v \<and>
      \<not> list_ex (\<lambda>s. s_id s = sess_SessionID v \<and> s_refresh_token_hash s = ?h) (db_sessions db)"
  proof -
    have open_iff: "s \<in> set (db_sessions db') \<and> session_open (svc_sha256 svc t) later s u \<longleftrightarrow>
        s \<in> set (db_sessions db) \<and> session_open (svc_sha256 svc t) later s u \<and> s_refresh_token_hash s \<noteq> ?h" for s u
      by (auto simp: db' set_update_where session_open_def)
    have same: "s_refresh_token_hash s \<noteq> ?h \<longleftrightarrow>
        \<not> list_ex (\<lambda>s'. s_id s' = sess_SessionID (session_view later s u) \<and> s_refresh_token_hash s' = ?h) (db_sessions db)"
      if "s \<in> set (db_sessions db)" for s u
    proof -
      have "distinct (map s_id (db_sessions db))" using assms(1) by (simp add: auth_ok_def)
      note unique = distinct_keyD [OF this _ that]
      have "list_ex (\<lambda>s'. s_id s' = s_id s \<and> s_refresh_token_hash s' = ?h) (db_sessions db) \<longleftrightarrow>
          s_refresh_token_hash s = ?h"
      proof
        assume "list_ex (\<lambda>s'. s_id s' = s_id s \<and> s_refresh_token_hash s' = ?h) (db_sessions db)"
        then obtain s' where "s' \<in> set (db_sessions db)" "s_id s' = s_id s" "s_refresh_token_hash s' = ?h"
          unfolding list_ex_iff by blast
        with unique [of s'] show "s_refresh_token_hash s = ?h" by simp
      qed (use that in \<open>auto simp: list_ex_iff\<close>)
      then show ?thesis by (simp add: session_view_def)
    qed
    have users: "db_users db' = db_users db" by (simp add: db')
    have "SessionByAccessToken db' (svc_sha256 svc t) later = Inr v \<longleftrightarrow>
        (\<exists>s u. s \<in> set (db_sessions db) \<and> u \<in> set (db_users db) \<and> session_open (svc_sha256 svc t) later s u \<and>
           v = session_view later s u \<and> s_refresh_token_hash s \<noteq> ?h)"
      unfolding SessionByAccessToken_iff [OF ok] Bex_def users using open_iff by blast
    also have "\<dots> \<longleftrightarrow> SessionByAccessToken db (svc_sha256 svc t) later = Inr v \<and>
        \<not> list_ex (\<lambda>s. s_id s = sess_SessionID v \<and> s_refresh_token_hash s = ?h) (db_sessions db)"
      (is "?left \<longleftrightarrow> ?right")
    proof
      assume ?left
      then obtain s u where "s \<in> set (db_sessions db)" "u \<in> set (db_users db)"
        "session_open (svc_sha256 svc t) later s u" "v = session_view later s u" "s_refresh_token_hash s \<noteq> ?h" by blast
      with same [of s u] show ?right unfolding SessionByAccessToken_iff [OF assms(1)] by blast
    next
      assume ?right
      then obtain s u where "s \<in> set (db_sessions db)" "u \<in> set (db_users db)"
        "session_open (svc_sha256 svc t) later s u" "v = session_view later s u"
        "\<not> list_ex (\<lambda>s. s_id s = sess_SessionID v \<and> s_refresh_token_hash s = ?h) (db_sessions db)"
        unfolding SessionByAccessToken_iff [OF assms(1)] by blast
      with same [of s u] show ?left by blast
    qed
    finally show ?thesis by (simp add: Authenticate_def)
  qed
  ultimately show ?thesis using ok by blast
qed


section \<open>An example\<close>

definition example_service :: AuthService where
  "example_service = \<lparr>svc_accessTTL = 15 * minute, svc_refreshTTL = 720 * hour, svc_sha256 = (\<lambda>t. t),
     svc_hmac_sha1 = (\<lambda>key m. replicate 20 CHR ''7''), svc_bcrypt = (=),
     svc_lower = map ascii_lower, svc_upper = map ascii_upper\<rparr>"

definition example_user :: UserRow where
  "example_user = \<lparr>u_id = ''u1'', u_username = ''Ada'', u_email = ''ada@x'', u_password_hash = ''pw'',
     u_totp_secret = None, u_is_admin = False, u_disabled_at = None\<rparr>"

definition example_session :: "string \<Rightarrow> string \<Rightarrow> time \<Rightarrow> SessionRow" where
  "example_session access refresh now =
     \<lparr>s_id = ''s1'', s_user_id = ''u1'', s_device_id = None, s_access_token_hash = access,
      s_access_expires_at = now + 15 * minute, s_refresh_token_hash = refresh,
      s_expires_at = now + 720 * hour, s_revoked_at = None, s_admin_verified_at = None\<rparr>"

definition example_db :: "SessionRow list \<Rightarrow> auth_db" where
  "example_db rows = \<lparr>db_users = [example_user], db_sessions = rows\<rparr>"

lemmas example_defs = example_service_def example_user_def example_session_def example_db_def

lemma example_ok: "auth_ok (example_db [])" "auth_ok (example_db [example_session a r now])"
  by (simp_all add: auth_ok_def sessions_unique_def example_defs)

lemma example_login:
  "LoginWithTOTP example_service (example_db []) 1000 (Some ''a'') (Some ''r'') ''s1'' ''ADA'' ''pw'' '''' =
     Inr (example_db [example_session (b64_encode ''a'') (b64_encode ''r'') 1000],
       \<lparr>pair_AccessToken = b64_encode ''a'', pair_AccessExpiresAt = 1000 + 15 * minute,
        pair_RefreshToken = b64_encode ''r'', pair_RefreshExpiresAt = 1000 + 720 * hour\<rparr>)"
proof -
  have "map ascii_lower ''ADA'' = ''ada''" "map ascii_lower ''Ada'' = ''ada''" by code_simp+
  then show ?thesis
    by (simp add: LoginWithTOTP_def CredentialByIdentifier_def issueTokenPair_def newToken_def
        CreateSession_def store_sessions_def sessions_unique_def example_defs)
qed

lemma example_refresh:
  "Refresh example_service (example_db [example_session ''x'' ''tok'' 0]) 1000 (Some ''a'') (Some ''r'') ''tok'' =
     Inr (example_db [example_session (b64_encode ''a'') (b64_encode ''r'') 1000],
       \<lparr>pair_AccessToken = b64_encode ''a'', pair_AccessExpiresAt = 1000 + 15 * minute,
        pair_RefreshToken = b64_encode ''r'', pair_RefreshExpiresAt = 1000 + 720 * hour\<rparr>)"
  by (simp add: Refresh_def issueTokenPair_def newToken_def RotateSession_def refreshable_def
      store_sessions_def sessions_unique_def example_defs)

theorem Login_opens_session_witness:
  "\<exists>v. Authenticate example_service (example_db [example_session (b64_encode ''a'') (b64_encode ''r'') 1000]) 2000
     (b64_encode ''a'') = Inr v \<and> sess_SessionID v = ''s1''"
  using Login_opens_session [OF example_ok(1) example_login, of 2000] by (auto simp: example_defs)

theorem Refresh_rotates_witness:
  "\<not> (\<exists>later r3 r4 out. Refresh example_service
        (example_db [example_session (b64_encode ''a'') (b64_encode ''r'') 1000]) later r3 r4 ''tok'' = Inr out)"
proof -
  have "length (b64_encode ''r'') = 2" by code_simp
  then have "svc_sha256 example_service (b64_encode ''r'') \<noteq> svc_sha256 example_service ''tok''"
    by (auto simp: example_defs)
  with Refresh_rotates [OF example_ok(2) example_refresh] show ?thesis by simp
qed

theorem Logout_revokes_witness:
  "\<exists>db'. Logout example_service (example_db [example_session ''x'' ''tok'' 0]) 5 ''tok'' = Inr db' \<and>
     Authenticate example_service db' 6 ''x'' \<noteq> Inr (session_view 6 (example_session ''x'' ''tok'' 0) example_user)"
proof -
  obtain db' where db': "Logout example_service (example_db [example_session ''x'' ''tok'' 0]) 5 ''tok'' = Inr db'"
    by (simp add: Logout_def RevokeSessionByRefreshToken_def example_defs)
  show ?thesis
    using db' Logout_revokes [OF example_ok(2) db', of 6 "''x''" "session_view 6 (example_session ''x'' ''tok'' 0) example_user"]
    by (simp add: example_defs session_view_def)
qed

end
