(* ===== verification/TransferService.thy ===== *)
theory TransferService
  imports Domain Auth
begin

text \<open>
  Package \<open>internal/transfer\<close> (service.go, timeline.go): validation of a transfer request, the
  choice of a route for every file and device, the guards of the progress and timeline reports.
  The store is a parameter of each operation here; \<open>TransferStore\<close> models the one the Node
  uses. JSON and SHA-256 are parameters; metrics and logging are left out.
\<close>

section \<open>Data (service.go)\<close>

datatype transfer_error = ErrInvalid | ErrNotFound | ErrForbidden | ErrFileTooLarge | ErrQuotaExceeded
  | ErrStorageFull | ErrConflict | ErrIdempotencyConflict | ErrStore

datatype ContentType = ContentText | ContentURL | ContentImage | ContentFile | ContentNotification
  | ContentOther string

datatype TargetType = TargetSingle | TargetMultiple | TargetAllDevices | TargetGroupAll
  | TargetGroupSelected | TargetOther string

record File =
  tf_ID :: string
  tf_Name :: string
  tf_MIMEType :: string
  tf_Size :: int
  tf_SHA256 :: string
  tf_ChunkSize :: int
  tf_ChunkCount :: int
  tf_ExpiresAt :: time

record Request =
  rq_IdempotencyKey :: string
  rq_ClientBatchID :: string
  rq_TargetType :: TargetType
  rq_TargetDeviceIDs :: "string list"
  rq_GroupID :: string
  rq_LANAvailableDeviceIDs :: "string list"
  rq_ContentType :: ContentType
  rq_Content :: string
  rq_Files :: "File list"
  rq_RouteMode :: RouteMode
  rq_AllowLargeFileViaNode :: bool
  rq_WrappedContentKeys :: "string \<rightharpoonup> string"

record Target =
  tg_DeviceID :: string
  tg_SelectedRoute :: SelectedRoute
  tg_Status :: TransferStatus
  tg_BytesTransferred :: int

record FileTarget =
  ftg_FileIndex :: nat
  ftg_DeviceID :: string
  ftg_SelectedRoute :: SelectedRoute
  ftg_Status :: TransferStatus

record Prepared = Request +
  pr_ResolvedDeviceIDs :: "string list"
  pr_Targets :: "Target list"
  pr_FileTargets :: "FileTarget list"
  pr_Status :: TransferStatus
  pr_CreatedAt :: time
  pr_ExpiresAt :: time
  pr_RequestFingerprint :: string

record Transfer =
  tr_ID :: string
  tr_BatchID :: string
  tr_SenderUserID :: string
  tr_SenderDeviceID :: string
  tr_TargetType :: TargetType
  tr_GroupID :: string
  tr_ContentType :: ContentType
  tr_Content :: string
  tr_Files :: "File list"
  tr_Targets :: "Target list"
  tr_FileTargets :: "FileTarget list"
  tr_WrappedContentKeys :: "string \<rightharpoonup> string"
  tr_Status :: TransferStatus
  tr_CreatedAt :: time
  tr_ExpiresAt :: time

record PageKey =
  pk_ID :: string
  pk_CreatedAt :: time

record PageOptions =
  po_Limit :: int
  po_Cursor :: PageKey
  po_From :: time
  po_To :: time
  po_Status :: TransferStatus

record TransferPage =
  pg_Items :: "Transfer list"
  pg_NextPageKey :: PageKey

record Progress =
  pg_IdempotencyKey :: string
  pg_DeviceID :: string
  pg_Status :: TransferStatus
  pg_Route :: SelectedRoute
  pg_BytesTransferred :: int
  pg_ErrorCode :: string

section \<open>Timeline events (timeline.go)\<close>

datatype EventCode = EventTaskCreated | EventTargetResolved | EventRouteChecking | EventTargetWaiting
  | EventTargetQueued | EventNodeUploading | EventNodeAvailable | EventNodeDownloading
  | EventLANTransferring | EventTransferPaused | EventHashVerifying | EventHashVerified
  | EventTargetDelivered | EventTargetRead | EventTargetFailed | EventTargetCancelled
  | EventTargetExpired | EventSourceFileMissing | EventSourceFileChanged | EventRouteMigrated
  | EventRetryStarted | EventRoutesDiscovered | EventDirectAttempted | EventTLSAuthenticated
  | EventFallbackSelected | EventEncryptionReady | EventChunkUpload | EventChunkDownload
  | EventChunkRetry | EventWSInterrupted | EventReceiverLimited | EventNetworkChanged
  | EventOther string

definition validEventCodes :: "EventCode list" where
  "validEventCodes =
     [EventTaskCreated, EventTargetResolved, EventRouteChecking, EventTargetWaiting, EventTargetQueued,
      EventNodeUploading, EventNodeAvailable, EventNodeDownloading, EventLANTransferring,
      EventTransferPaused, EventHashVerifying, EventHashVerified, EventTargetDelivered, EventTargetRead,
      EventTargetFailed, EventTargetCancelled, EventTargetExpired, EventSourceFileMissing,
      EventSourceFileChanged, EventRouteMigrated, EventRetryStarted,
      EventRoutesDiscovered, EventDirectAttempted, EventTLSAuthenticated, EventFallbackSelected,
      EventEncryptionReady, EventChunkUpload, EventChunkDownload, EventChunkRetry,
      EventWSInterrupted, EventReceiverLimited, EventNetworkChanged]"

definition clientReportableEventCodes :: "EventCode list" where
  "clientReportableEventCodes =
     [EventRoutesDiscovered, EventDirectAttempted, EventTLSAuthenticated, EventFallbackSelected,
      EventEncryptionReady, EventChunkUpload, EventChunkDownload, EventChunkRetry,
      EventWSInterrupted, EventReceiverLimited, EventNetworkChanged]"

definition EventCode_Valid :: "EventCode \<Rightarrow> bool" where
  "EventCode_Valid c \<longleftrightarrow> c \<in> set validEventCodes"

definition ClientReportable :: "EventCode \<Rightarrow> bool" where
  "ClientReportable c \<longleftrightarrow> c \<in> set clientReportableEventCodes"

fun EventCodeForStatus :: "TransferStatus \<Rightarrow> EventCode option" where
  "EventCodeForStatus TransferCreated = Some EventTaskCreated"
| "EventCodeForStatus TransferCheckingRoute = Some EventRouteChecking"
| "EventCodeForStatus TransferWaitingForTarget = Some EventTargetWaiting"
| "EventCodeForStatus TransferWaitingForNode = Some EventTargetWaiting"
| "EventCodeForStatus TransferWaitingForLAN = Some EventTargetWaiting"
| "EventCodeForStatus TransferQueued = Some EventTargetQueued"
| "EventCodeForStatus TransferUploadingToNode = Some EventNodeUploading"
| "EventCodeForStatus TransferAvailableOnNode = Some EventNodeAvailable"
| "EventCodeForStatus TransferDownloading = Some EventNodeDownloading"
| "EventCodeForStatus TransferTransferringLAN = Some EventLANTransferring"
| "EventCodeForStatus TransferPaused = Some EventTransferPaused"
| "EventCodeForStatus TransferVerifying = Some EventHashVerifying"
| "EventCodeForStatus TransferDelivered = Some EventTargetDelivered"
| "EventCodeForStatus TransferRead = Some EventTargetRead"
| "EventCodeForStatus TransferFailed = Some EventTargetFailed"
| "EventCodeForStatus TransferCancelled = Some EventTargetCancelled"
| "EventCodeForStatus TransferExpired = Some EventTargetExpired"
| "EventCodeForStatus TransferSourceFileMissing = Some EventSourceFileMissing"
| "EventCodeForStatus TransferSourceFileChanged = Some EventSourceFileChanged"
| "EventCodeForStatus (TransferStatusOther s) = None"

record TimelineEvent =
  ev_Sequence :: int
  ev_TransferID :: string
  ev_Code :: EventCode
  ev_RequestID :: string
  ev_FileID :: string
  ev_TargetDeviceID :: string
  ev_ExecutionID :: string
  ev_Route :: SelectedRoute
  ev_Status :: TransferStatus
  ev_ErrorCode :: string
  ev_DurationMillis :: int
  ev_OccurredAt :: time

record TimelineEventReport =
  er_IdempotencyKey :: string
  er_Code :: EventCode
  er_FileID :: string
  er_TargetDeviceID :: string
  er_ExecutionID :: string
  er_Route :: SelectedRoute
  er_ErrorCode :: string

section \<open>Validation of a request\<close>

definition isTextContent :: "ContentType \<Rightarrow> bool" where
  "isTextContent v \<longleftrightarrow> v = ContentText \<or> v = ContentURL \<or> v = ContentNotification"

definition validContentType :: "ContentType \<Rightarrow> bool" where
  "validContentType v \<longleftrightarrow> isTextContent v \<or> v = ContentImage \<or> v = ContentFile"

definition validTargetType :: "TargetType \<Rightarrow> bool" where
  "validTargetType v \<longleftrightarrow> v = TargetSingle \<or> v = TargetMultiple \<or> v = TargetAllDevices \<or>
     v = TargetGroupAll \<or> v = TargetGroupSelected"

fun has_duplicates_from :: "string set \<Rightarrow> string list \<Rightarrow> bool" where
  "has_duplicates_from seen [] = False"
| "has_duplicates_from seen (v # vs) =
     (if v = '''' \<or> v \<in> seen then True else has_duplicates_from (insert v seen) vs)"

definition hasDuplicates :: "string list \<Rightarrow> bool" where
  "hasDuplicates values = has_duplicates_from {} values"

definition expectedChunkCount :: "File \<Rightarrow> int" where
  "expectedChunkCount f =
     go_div (tf_Size f) (tf_ChunkSize f) + (if go_rem (tf_Size f) (tf_ChunkSize f) \<noteq> 0 then 1 else 0)"

definition validFile :: "File \<Rightarrow> bool" where
  "validFile f =
     (let name = TrimSpace (tf_Name f)
      in \<not> (name = '''' \<or> name \<noteq> tf_Name f \<or> (\<exists>c \<in> {CHR ''/'', CHR 0x5C, CHR 0x00}. c \<in> set name) \<or>
            name = ''.'' \<or> name = ''..'' \<or> tf_Size f < 0 \<or> length (tf_SHA256 f) \<noteq> 32 \<or> tf_ChunkSize f \<le> 0) \<and>
         tf_ChunkCount f = expectedChunkCount f)"

definition validateRequest :: "Request \<Rightarrow> transfer_error + unit" where
  "validateRequest r =
     (if \<not> validTargetType (rq_TargetType r) \<or> \<not> validContentType (rq_ContentType r) then Inl ErrInvalid
      else if hasDuplicates (rq_TargetDeviceIDs r) then Inl ErrInvalid
      else if (rq_TargetType r = TargetGroupAll \<or> rq_TargetType r = TargetGroupSelected) \<noteq> (rq_GroupID r \<noteq> '''')
      then Inl ErrInvalid
      else if rq_TargetType r = TargetSingle \<and> length (rq_TargetDeviceIDs r) \<noteq> 1 then Inl ErrInvalid
      else if (rq_TargetType r = TargetMultiple \<or> rq_TargetType r = TargetGroupSelected) \<and>
              rq_TargetDeviceIDs r = [] then Inl ErrInvalid
      else if isTextContent (rq_ContentType r)
      then (if rq_Content r = '''' \<or> rq_Files r \<noteq> [] then Inl ErrInvalid else Inr ())
      else if rq_Files r = [] then Inl ErrInvalid
      else if list_ex (\<lambda>f. \<not> validFile f) (rq_Files r) then Inl ErrInvalid
      else Inr ())"

section \<open>Creation of a transfer\<close>

fun initialStatus :: "SelectedRoute \<Rightarrow> TransferStatus" where
  "initialStatus SelectedRouteLAN = TransferTransferringLAN"
| "initialStatus SelectedRouteNode = TransferQueued"
| "initialStatus SelectedRouteWaitingLAN = TransferWaitingForLAN"
| "initialStatus SelectedRouteDraft = TransferWaitingForNode"
| "initialStatus SelectedRouteNone = TransferFailed"
| "initialStatus route = TransferCheckingRoute"

text \<open>The routes of a device's files, as the list of its distinct members.\<close>

definition onlyRoute :: "SelectedRoute list \<Rightarrow> SelectedRoute" where
  "onlyRoute routes = (case remdups routes of [route] \<Rightarrow> route | _ \<Rightarrow> SelectedRouteMixed)"

definition aggregateStatus :: "Target list \<Rightarrow> TransferStatus" where
  "aggregateStatus targets =
     (if list_all (\<lambda>t. tg_Status t = TransferWaitingForLAN) targets then TransferWaitingForLAN
      else TransferQueued)"

definition target_for :: "string \<Rightarrow> SelectedRoute \<Rightarrow> Target" where
  "target_for device route = \<lparr>tg_DeviceID = device, tg_SelectedRoute = route,
     tg_Status = initialStatus route, tg_BytesTransferred = 0\<rparr>"

definition text_route :: "Request \<Rightarrow> string \<Rightarrow> SelectedRoute" where
  "text_route r device = SelectRoute \<lparr>req_Mode = rq_RouteMode r,
     req_LANAvailable = (device \<in> set (rq_LANAvailableDeviceIDs r)), req_NodeAvailable = True,
     req_TextContent = True, req_FileSize = 0, req_LargeFileThreshold = 0,
     req_AllowLargeFileViaNode = False\<rparr>"

definition file_route :: "Request \<Rightarrow> string \<Rightarrow> File \<Rightarrow> SelectedRoute" where
  "file_route r device f = SelectRoute \<lparr>req_Mode = rq_RouteMode r,
     req_LANAvailable = (device \<in> set (rq_LANAvailableDeviceIDs r)), req_NodeAvailable = True,
     req_TextContent = False, req_FileSize = tf_Size f, req_LargeFileThreshold = 0,
     req_AllowLargeFileViaNode = rq_AllowLargeFileViaNode r\<rparr>"

definition file_targets :: "Request \<Rightarrow> string \<Rightarrow> FileTarget list" where
  "file_targets r device =
     map (\<lambda>(i, f). \<lparr>ftg_FileIndex = i, ftg_DeviceID = device, ftg_SelectedRoute = file_route r device f,
           ftg_Status = initialStatus (file_route r device f)\<rparr>)
       (zip [0..<length (rq_Files r)] (rq_Files r))"

definition prepare :: "Request \<Rightarrow> string list \<Rightarrow> string \<Rightarrow> time \<Rightarrow> Prepared" where
  "prepare r resolved fingerprint now =
     (let targets = (if isTextContent (rq_ContentType r)
            then map (\<lambda>d. target_for d (text_route r d)) resolved
            else map (\<lambda>d. target_for d (onlyRoute (map (file_route r d) (rq_Files r)))) resolved)
      in Request.extend r
        \<lparr>pr_ResolvedDeviceIDs = resolved, pr_Targets = targets,
         pr_FileTargets = (if isTextContent (rq_ContentType r) then [] else concat (map (file_targets r) resolved)),
         pr_Status = aggregateStatus targets, pr_CreatedAt = now,
         pr_ExpiresAt = (if isTextContent (rq_ContentType r) then now + 90 * 24 * hour else now + 7 * 24 * hour),
         pr_RequestFingerprint = fingerprint\<rparr>)"

definition MaxRecipients :: int where "MaxRecipients = 100"

definition Create ::
  "(Request \<Rightarrow> string option) \<Rightarrow> (string \<Rightarrow> string) \<Rightarrow>
   (Session \<Rightarrow> TargetType \<Rightarrow> string \<Rightarrow> string list \<Rightarrow> transfer_error + string list) \<Rightarrow>
   (Session \<Rightarrow> Prepared \<Rightarrow> transfer_error + 'r) \<Rightarrow>
   time \<Rightarrow> Session \<Rightarrow> Request \<Rightarrow> transfer_error + 'r"
where
  "Create marshal sha256 resolve store now session r =
     (if sess_DeviceID session = None then Inl ErrForbidden
      else bindE (validateRequest r) (\<lambda>_.
        bindE (resolve session (rq_TargetType r) (rq_GroupID r) (rq_TargetDeviceIDs r)) (\<lambda>resolved.
          if resolved = [] \<or> int (length resolved) > MaxRecipients then Inl ErrInvalid
          else if list_ex (\<lambda>d. rq_WrappedContentKeys r d = None \<or> rq_WrappedContentKeys r d = Some '''') resolved
          then Inl ErrInvalid
          else case marshal (r\<lparr>rq_IdempotencyKey := ''''\<rparr>) of
            None \<Rightarrow> Inl ErrStore
          | Some encoded \<Rightarrow> store session (prepare r resolved (sha256 encoded) now))))"

section \<open>Guards of the other operations\<close>

text \<open>\<open>ListPage\<close>: \<open>paged\<close> is the paged store, when the store is one.\<close>

definition ListPage ::
  "(Session \<Rightarrow> transfer_error + Transfer list) \<Rightarrow>
   (Session \<Rightarrow> PageOptions \<Rightarrow> transfer_error + TransferPage) option \<Rightarrow>
   Session \<Rightarrow> PageOptions \<Rightarrow> transfer_error + TransferPage"
where
  "ListPage listTransfers paged session options =
     (if po_Limit options < 1 \<or> po_Limit options > 100 \<or>
         \<not> IsZero (po_From options) \<and> \<not> IsZero (po_To options) \<and> po_To options < po_From options
      then Inl ErrInvalid
      else case paged of
        None \<Rightarrow> bindE (listTransfers session) (\<lambda>items.
          Inr \<lparr>pg_Items = take (nat (po_Limit options)) items, pg_NextPageKey = \<lparr>pk_ID = '''', pk_CreatedAt = 0\<rparr>\<rparr>)
      | Some listPage \<Rightarrow> listPage session options)"

definition Get :: "(Session \<Rightarrow> string \<Rightarrow> transfer_error + 'r) \<Rightarrow> Session \<Rightarrow> string \<Rightarrow> transfer_error + 'r" where
  "Get store session transferID = (if transferID = '''' then Inl ErrInvalid else store session transferID)"

definition Timeline ::
  "(Session \<Rightarrow> string \<Rightarrow> transfer_error + TimelineEvent list) option \<Rightarrow> Session \<Rightarrow> string \<Rightarrow>
   transfer_error + TimelineEvent list"
where
  "Timeline store session transferID =
     (if transferID = '''' then Inl ErrInvalid
      else case store of None \<Rightarrow> Inr [] | Some timeline \<Rightarrow> timeline session transferID)"

definition Cancel :: "(Session \<Rightarrow> string \<Rightarrow> time \<Rightarrow> transfer_error + 'r) \<Rightarrow> time \<Rightarrow> Session \<Rightarrow> string \<Rightarrow> transfer_error + 'r" where
  "Cancel store now session transferID = (if transferID = '''' then Inl ErrInvalid else store session transferID now)"

definition Hide :: "(Session \<Rightarrow> string \<Rightarrow> time \<Rightarrow> transfer_error + 'r) \<Rightarrow> time \<Rightarrow> Session \<Rightarrow> string \<Rightarrow> transfer_error + 'r" where
  "Hide store now session transferID = (if transferID = '''' then Inl ErrInvalid else store session transferID now)"

definition Read :: "(Session \<Rightarrow> string \<Rightarrow> time \<Rightarrow> transfer_error + 'r) \<Rightarrow> time \<Rightarrow> Session \<Rightarrow> string \<Rightarrow> transfer_error + 'r" where
  "Read store now session transferID =
     (if transferID = '''' \<or> sess_DeviceID session = None then Inl ErrForbidden else store session transferID now)"

definition Retry ::
  "(Session \<Rightarrow> string \<Rightarrow> string \<Rightarrow> string \<Rightarrow> time \<Rightarrow> transfer_error + 'r) option \<Rightarrow> time \<Rightarrow> Session \<Rightarrow>
   string \<Rightarrow> string \<Rightarrow> string \<Rightarrow> transfer_error + 'r"
where
  "Retry store now session transferID deviceID idempotencyKey =
     (if transferID = '''' \<or> deviceID = '''' \<or> idempotencyKey = '''' \<or> sess_DeviceID session = None
      then Inl ErrInvalid
      else case store of None \<Rightarrow> Inl ErrConflict
        | Some retry \<Rightarrow> retry session transferID deviceID idempotencyKey now)"

fun reportableStatus :: "TransferStatus \<Rightarrow> bool" where
  "reportableStatus TransferCreated = False"
| "reportableStatus TransferCancelled = False"
| "reportableStatus TransferExpired = False"
| "reportableStatus (TransferStatusOther s) = False"
| "reportableStatus _ = True"

definition reportableRoute :: "SelectedRoute \<Rightarrow> bool" where
  "reportableRoute r \<longleftrightarrow> r \<in> {SelectedRouteOther '''', SelectedRouteLAN, SelectedRouteNode,
     SelectedRouteWaitingLAN, SelectedRouteDraft}"

definition reportableTimelineRoute :: "SelectedRoute \<Rightarrow> bool" where
  "reportableTimelineRoute r \<longleftrightarrow> reportableRoute r \<or> r = SelectedRouteNone \<or> r = SelectedRouteMixed"

definition validErrorCode :: "string \<Rightarrow> bool" where
  "validErrorCode s \<longleftrightarrow> length s \<le> 100 \<and> list_all (\<lambda>c. is_upper c \<or> is_digit c \<or> c = CHR ''_'') s"

definition ReportProgress ::
  "(Session \<Rightarrow> string \<Rightarrow> Progress \<Rightarrow> time \<Rightarrow> transfer_error + 'r) \<Rightarrow> time \<Rightarrow> Session \<Rightarrow> string \<Rightarrow> Progress \<Rightarrow>
   transfer_error + 'r"
where
  "ReportProgress store now session transferID p =
     (if transferID = '''' \<or> sess_DeviceID session = None \<or> pg_DeviceID p = '''' \<or> pg_BytesTransferred p < 0 \<or>
         \<not> reportableStatus (pg_Status p) \<or> \<not> reportableRoute (pg_Route p) \<or> \<not> validErrorCode (pg_ErrorCode p)
      then Inl ErrInvalid else store session transferID p now)"

definition ReportTimelineEvent ::
  "(Session \<Rightarrow> string \<Rightarrow> TimelineEventReport \<Rightarrow> time \<Rightarrow> transfer_error + 'r) option \<Rightarrow> time \<Rightarrow> Session \<Rightarrow>
   string \<Rightarrow> TimelineEventReport \<Rightarrow> transfer_error + 'r"
where
  "ReportTimelineEvent store now session transferID report =
     (if transferID = '''' \<or> sess_DeviceID session = None \<or> er_IdempotencyKey report = '''' \<or>
         \<not> ClientReportable (er_Code report) \<or> er_TargetDeviceID report = '''' \<or>
         \<not> reportableTimelineRoute (er_Route report) \<or> \<not> validErrorCode (er_ErrorCode report)
      then Inl ErrInvalid
      else case store of None \<Rightarrow> Inl ErrConflict | Some report_event \<Rightarrow> report_event session transferID report now)"

section \<open>What is accepted\<close>

lemma has_duplicates_from_iff:
  "\<not> has_duplicates_from seen vs \<longleftrightarrow> distinct vs \<and> '''' \<notin> set vs \<and> set vs \<inter> seen = {}"
  by (induction vs arbitrary: seen) auto

lemma hasDuplicates_iff: "\<not> hasDuplicates vs \<longleftrightarrow> distinct vs \<and> '''' \<notin> set vs"
  by (simp add: hasDuplicates_def has_duplicates_from_iff)

lemma expectedChunkCount_bounds:
  assumes "0 \<le> tf_Size f" and "0 < tf_ChunkSize f"
  shows "(expectedChunkCount f - 1) * tf_ChunkSize f < tf_Size f \<or> expectedChunkCount f = 0"
    and "tf_Size f \<le> expectedChunkCount f * tf_ChunkSize f" and "0 \<le> expectedChunkCount f"
proof -
  let ?q = "tf_Size f div tf_ChunkSize f" and ?r = "tf_Size f mod tf_ChunkSize f"
  have sz: "tf_Size f = ?q * tf_ChunkSize f + ?r" by simp
  have r: "0 \<le> ?r" "?r < tf_ChunkSize f" using assms by simp_all
  have q: "0 \<le> ?q" using assms by (simp add: pos_imp_zdiv_nonneg_iff)
  have count: "expectedChunkCount f = ?q + (if ?r \<noteq> 0 then 1 else 0)"
    using assms by (simp add: expectedChunkCount_def)
  show "tf_Size f \<le> expectedChunkCount f * tf_ChunkSize f"
  proof (cases "?r = 0")
    case True
    then show ?thesis using sz by (simp add: count)
  next
    case False
    have "(?q + 1) * tf_ChunkSize f = ?q * tf_ChunkSize f + tf_ChunkSize f" by (simp add: algebra_simps)
    then have "tf_Size f \<le> (?q + 1) * tf_ChunkSize f" using sz r by linarith
    with False show ?thesis by (simp add: count)
  qed
  show "0 \<le> expectedChunkCount f" using q by (simp add: count)
  show "(expectedChunkCount f - 1) * tf_ChunkSize f < tf_Size f \<or> expectedChunkCount f = 0"
  proof (cases "?r = 0")
    case True
    then show ?thesis using sz assms(2) by (auto simp: count algebra_simps)
  next
    case False
    then have "?q * tf_ChunkSize f < tf_Size f" using sz r by linarith
    with False show ?thesis by (simp add: count)
  qed
qed

lemma validFile_bounds:
  assumes "validFile f"
  shows "0 \<le> tf_Size f \<and> 0 < tf_ChunkSize f \<and> 0 \<le> tf_ChunkCount f \<and>
    ((tf_ChunkCount f - 1) * tf_ChunkSize f < tf_Size f \<or> tf_ChunkCount f = 0) \<and>
    tf_Size f \<le> tf_ChunkCount f * tf_ChunkSize f \<and>
    set (tf_Name f) \<inter> {CHR ''/'', CHR 0x5C, CHR 0x00} = {} \<and> tf_Name f \<notin> {'''', ''.'', ''..''}"
proof -
  have "0 \<le> tf_Size f" "0 < tf_ChunkSize f" "tf_ChunkCount f = expectedChunkCount f"
    using assms by (auto simp: validFile_def Let_def)
  with expectedChunkCount_bounds [OF this(1,2)] assms show ?thesis
    by (auto simp: validFile_def Let_def)
qed

lemma validateRequest_iff:
  "validateRequest r = Inr u \<longleftrightarrow>
     validTargetType (rq_TargetType r) \<and> validContentType (rq_ContentType r) \<and>
     distinct (rq_TargetDeviceIDs r) \<and> '''' \<notin> set (rq_TargetDeviceIDs r) \<and>
     (rq_TargetType r \<in> {TargetGroupAll, TargetGroupSelected} \<longleftrightarrow> rq_GroupID r \<noteq> '''') \<and>
     (rq_TargetType r = TargetSingle \<longrightarrow> length (rq_TargetDeviceIDs r) = 1) \<and>
     (rq_TargetType r \<in> {TargetMultiple, TargetGroupSelected} \<longrightarrow> rq_TargetDeviceIDs r \<noteq> []) \<and>
     (if isTextContent (rq_ContentType r) then rq_Content r \<noteq> '''' \<and> rq_Files r = []
      else rq_Files r \<noteq> [] \<and> list_all validFile (rq_Files r))"
  using hasDuplicates_iff [of "rq_TargetDeviceIDs r"]
  by (cases u) (auto simp: validateRequest_def list_ex_iff list_all_iff)

section \<open>The prepared transfer\<close>

lemma onlyRoute_agrees:
  "onlyRoute rs \<noteq> SelectedRouteMixed \<Longrightarrow> r \<in> set rs \<Longrightarrow> r = onlyRoute rs"
proof -
  assume "onlyRoute rs \<noteq> SelectedRouteMixed" "r \<in> set rs"
  then obtain r0 where "remdups rs = [r0]" "onlyRoute rs = r0"
    by (auto simp: onlyRoute_def split: list.splits)
  then have "set rs = {r0}" by (metis list.simps(15) list.set(1) set_remdups)
  with \<open>onlyRoute rs = r0\<close> \<open>r \<in> set rs\<close> show ?thesis by simp
qed

lemma file_targets_mem:
  "ft \<in> set (file_targets r d) \<longleftrightarrow>
     (\<exists>i < length (rq_Files r). ft = \<lparr>ftg_FileIndex = i, ftg_DeviceID = d,
        ftg_SelectedRoute = file_route r d (rq_Files r ! i),
        ftg_Status = initialStatus (file_route r d (rq_Files r ! i))\<rparr>)"
proof -
  have "zip [0..<length (rq_Files r)] (rq_Files r) = map (\<lambda>i. (i, rq_Files r ! i)) [0..<length (rq_Files r)]"
    by (rule nth_equalityI) auto
  then have "set (zip [0..<length (rq_Files r)] (rq_Files r)) = (\<lambda>i. (i, rq_Files r ! i)) ` {..<length (rq_Files r)}"
    by (simp add: atLeast0LessThan)
  then show ?thesis unfolding file_targets_def set_map by auto
qed

lemma prepare_sel [simp]:
  "pr_ResolvedDeviceIDs (prepare r ds fp now) = ds"
  "pr_CreatedAt (prepare r ds fp now) = now"
  "pr_RequestFingerprint (prepare r ds fp now) = fp"
  "pr_Status (prepare r ds fp now) = aggregateStatus (pr_Targets (prepare r ds fp now))"
  "rq_Files (prepare r ds fp now) = rq_Files r"
  "rq_IdempotencyKey (prepare r ds fp now) = rq_IdempotencyKey r"
  by (simp_all add: prepare_def Request.defs Let_def)

lemma prepare_devices: "map tg_DeviceID (pr_Targets (prepare r ds fp now)) = ds"
  by (simp add: prepare_def Request.defs Let_def target_for_def o_def)

lemma prepare_targets_status:
  "t \<in> set (pr_Targets (prepare r ds fp now)) \<Longrightarrow> tg_Status t = initialStatus (tg_SelectedRoute t)"
  by (auto simp: prepare_def Request.defs Let_def target_for_def split: if_splits)

lemma prepare_file_targets:
  "\<not> isTextContent (rq_ContentType r) \<Longrightarrow>
     ft \<in> set (pr_FileTargets (prepare r ds fp now)) \<longleftrightarrow> (\<exists>d \<in> set ds. ft \<in> set (file_targets r d))"
  by (simp add: prepare_def Request.defs Let_def)

lemma prepare_agrees:
  assumes "\<not> isTextContent (rq_ContentType r)"
    and "t \<in> set (pr_Targets (prepare r ds fp now))" and "tg_SelectedRoute t \<noteq> SelectedRouteMixed"
    and "ft \<in> set (pr_FileTargets (prepare r ds fp now))" and "ftg_DeviceID ft = tg_DeviceID t"
  shows "ftg_SelectedRoute ft = tg_SelectedRoute t"
proof -
  obtain d where "t = target_for d (onlyRoute (map (file_route r d) (rq_Files r)))"
    using assms(1,2) by (auto simp: prepare_def Request.defs Let_def)
  moreover from this have "ft \<in> set (file_targets r d)"
    using assms(4,5) prepare_file_targets [OF assms(1)] by (auto simp: file_targets_mem target_for_def)
  ultimately show ?thesis
    using assms(3) by (auto simp: file_targets_mem target_for_def intro!: onlyRoute_agrees)
qed

lemma file_route_Node:
  "file_route r d f = SelectedRouteNode \<Longrightarrow>
     tf_Size f \<le> DefaultLargeFileThreshold \<or> rq_AllowLargeFileViaNode r"
  by (auto simp: file_route_def SelectRoute_Node_iff route_isLarge_def route_threshold_def)

text \<open>
  A transfer that \<open>Create\<close> hands to the store comes from a device session and a valid
  request, reaches 1 to 100 devices, each with a wrapped content key and exactly one target, in
  the resolved order and with the status its route calls for. For files there is a file target
  for every device and file; whenever a device's target has a single route all its files have
  that route; and a file over the large-file threshold goes through the Node only if the request
  allows it.
\<close>

theorem Create_prepares:
  assumes "Create marshal sha256 resolve store now session r = Inr out"
  shows "\<exists>p. store session p = Inr out \<and> validateRequest r = Inr () \<and> sess_DeviceID session \<noteq> None \<and>
    resolve session (rq_TargetType r) (rq_GroupID r) (rq_TargetDeviceIDs r) = Inr (map tg_DeviceID (pr_Targets p)) \<and>
    pr_Targets p \<noteq> [] \<and> length (pr_Targets p) \<le> 100 \<and>
    (\<forall>t \<in> set (pr_Targets p). rq_WrappedContentKeys r (tg_DeviceID t) \<notin> {None, Some ''''} \<and>
       tg_Status t = initialStatus (tg_SelectedRoute t)) \<and>
    (isTextContent (rq_ContentType r) \<or>
       (\<forall>t \<in> set (pr_Targets p). \<forall>i < length (rq_Files r). \<exists>ft \<in> set (pr_FileTargets p).
          ftg_DeviceID ft = tg_DeviceID t \<and> ftg_FileIndex ft = i \<and>
          (tg_SelectedRoute t = SelectedRouteMixed \<or> ftg_SelectedRoute ft = tg_SelectedRoute t)) \<and>
       (\<forall>ft \<in> set (pr_FileTargets p). ftg_SelectedRoute ft = SelectedRouteNode \<longrightarrow>
          rq_AllowLargeFileViaNode r \<or> tf_Size (rq_Files r ! ftg_FileIndex ft) \<le> DefaultLargeFileThreshold))"
proof -
  obtain resolved encoded where
    ok: "sess_DeviceID session \<noteq> None" "validateRequest r = Inr ()"
      "resolve session (rq_TargetType r) (rq_GroupID r) (rq_TargetDeviceIDs r) = Inr resolved"
      "resolved \<noteq> []" "int (length resolved) \<le> MaxRecipients"
      "\<not> list_ex (\<lambda>d. rq_WrappedContentKeys r d = None \<or> rq_WrappedContentKeys r d = Some '''') resolved"
    and store: "store session (prepare r resolved (sha256 encoded) now) = Inr out"
    using assms by (auto simp: Create_def split: if_splits option.splits)
  let ?p = "prepare r resolved (sha256 encoded) now"
  have devices: "map tg_DeviceID (pr_Targets ?p) = resolved" by (rule prepare_devices)
  then have len: "length (pr_Targets ?p) = length resolved" by (metis length_map)
  have mem: "tg_DeviceID t \<in> set resolved" if "t \<in> set (pr_Targets ?p)" for t
    using that devices by (metis imageI set_map)
  have keys: "rq_WrappedContentKeys r d \<notin> {None, Some ''''}" if "d \<in> set resolved" for d
    using ok(6) that by (auto simp: list_ex_iff)
  have files: "(\<forall>t \<in> set (pr_Targets ?p). \<forall>i < length (rq_Files r). \<exists>ft \<in> set (pr_FileTargets ?p).
          ftg_DeviceID ft = tg_DeviceID t \<and> ftg_FileIndex ft = i \<and>
          (tg_SelectedRoute t = SelectedRouteMixed \<or> ftg_SelectedRoute ft = tg_SelectedRoute t)) \<and>
       (\<forall>ft \<in> set (pr_FileTargets ?p). ftg_SelectedRoute ft = SelectedRouteNode \<longrightarrow>
          rq_AllowLargeFileViaNode r \<or> tf_Size (rq_Files r ! ftg_FileIndex ft) \<le> DefaultLargeFileThreshold)"
    if files: "\<not> isTextContent (rq_ContentType r)"
  proof (intro conjI ballI allI impI)
    fix t i assume t: "t \<in> set (pr_Targets ?p)" and i: "i < length (rq_Files r)"
    let ?ft = "\<lparr>ftg_FileIndex = i, ftg_DeviceID = tg_DeviceID t,
        ftg_SelectedRoute = file_route r (tg_DeviceID t) (rq_Files r ! i),
        ftg_Status = initialStatus (file_route r (tg_DeviceID t) (rq_Files r ! i))\<rparr>"
    have ft: "?ft \<in> set (pr_FileTargets ?p)"
      unfolding prepare_file_targets [OF files] using mem [OF t] i by (auto simp: file_targets_mem)
    then show "\<exists>ft \<in> set (pr_FileTargets ?p). ftg_DeviceID ft = tg_DeviceID t \<and> ftg_FileIndex ft = i \<and>
          (tg_SelectedRoute t = SelectedRouteMixed \<or> ftg_SelectedRoute ft = tg_SelectedRoute t)"
      using prepare_agrees [OF files t _ ft] by (intro bexI [OF _ ft]) auto
  next
    fix ft assume "ft \<in> set (pr_FileTargets ?p)" "ftg_SelectedRoute ft = SelectedRouteNode"
    then show "rq_AllowLargeFileViaNode r \<or> tf_Size (rq_Files r ! ftg_FileIndex ft) \<le> DefaultLargeFileThreshold"
      unfolding prepare_file_targets [OF files] by (auto simp: file_targets_mem dest!: file_route_Node)
  qed
  show ?thesis
    using store ok devices len mem keys files prepare_targets_status [of _ r resolved "sha256 encoded" now]
    by (intro exI [of _ ?p]) (auto simp: MaxRecipients_def)
qed


definition example_file :: "int \<Rightarrow> File" where
  "example_file sz = \<lparr>tf_ID = '''', tf_Name = ''a.bin'', tf_MIMEType = '''', tf_Size = sz,
     tf_SHA256 = replicate 32 CHR ''h'', tf_ChunkSize = 100, tf_ChunkCount = (sz + 99) div 100, tf_ExpiresAt = 0\<rparr>"

definition example_request :: Request where
  "example_request = \<lparr>rq_IdempotencyKey = ''k'', rq_ClientBatchID = '''', rq_TargetType = TargetSingle,
     rq_TargetDeviceIDs = [''d1''], rq_GroupID = '''', rq_LANAvailableDeviceIDs = [], rq_ContentType = ContentFile,
     rq_Content = '''', rq_Files = [example_file 250, example_file 200000000], rq_RouteMode = RouteModeAutomatic,
     rq_AllowLargeFileViaNode = False, rq_WrappedContentKeys = [''d1'' \<mapsto> ''key'']\<rparr>"

definition example_session :: "string \<Rightarrow> Session" where
  "example_session device = \<lparr>usr_ID = ''u1'', usr_Username = ''Ada'', usr_Email = ''ada@x'', usr_Admin = False,
     usr_TOTPEnabled = False, sess_SessionID = ''s1'', sess_DeviceID = Some device, sess_AdminVerified = False\<rparr>"

lemma example_request_valid: "validateRequest example_request = Inr ()"
  by code_simp

theorem Create_prepares_witness:
  "\<exists>p. Create (\<lambda>r. Some ''json'') (\<lambda>s. s) (\<lambda>_ _ _ _. Inr [''d1'']) (\<lambda>_ p. Inr p) 7
       (example_session ''d0'') example_request = Inr p \<and>
     list_all (\<lambda>ft. \<not> (ftg_SelectedRoute ft = SelectedRouteNode \<and>
        \<not> tf_Size (rq_Files example_request ! ftg_FileIndex ft) \<le> DefaultLargeFileThreshold)) (pr_FileTargets p)"
proof -
  let ?p = "prepare example_request [''d1''] ''json'' 7"
  have create: "Create (\<lambda>r. Some ''json'') (\<lambda>s. s) (\<lambda>_ _ _ _. Inr [''d1'']) (\<lambda>_ p. Inr p) 7
      (example_session ''d0'') example_request = Inr ?p"
    unfolding Create_def example_request_valid
    by (simp add: MaxRecipients_def example_session_def) (simp add: example_request_def)
  have "\<not> isTextContent (rq_ContentType example_request)" "\<not> rq_AllowLargeFileViaNode example_request"
    by (simp_all add: example_request_def isTextContent_def)
  then show ?thesis using Create_prepares [OF create] create by (auto simp: list_all_iff)
qed

text \<open>
  A device can report progress only from a device session, for a named target, with a
  non-negative byte count and a well-formed error code, and never the statuses that only the Node
  assigns (created, cancelled, expired) or one the Node does not know. Whatever it may report has
  an event code of its own for the timeline, which is valid and is none of the codes a client may
  report directly, so the two reports cannot be confused on the timeline.
\<close>

theorem ReportProgress_guard:
  assumes "ReportProgress store now session transferID p = Inr out"
  shows "store session transferID p now = Inr out \<and> sess_DeviceID session \<noteq> None \<and>
    pg_DeviceID p \<noteq> '''' \<and> 0 \<le> pg_BytesTransferred p \<and> validErrorCode (pg_ErrorCode p) \<and>
    pg_Status p \<notin> {TransferCreated, TransferCancelled, TransferExpired} \<and>
    (\<exists>c. EventCodeForStatus (pg_Status p) = Some c \<and> EventCode_Valid c \<and> \<not> ClientReportable c)"
proof -
  have "store session transferID p now = Inr out" "sess_DeviceID session \<noteq> None" "pg_DeviceID p \<noteq> ''''"
    "0 \<le> pg_BytesTransferred p" "validErrorCode (pg_ErrorCode p)" and status: "reportableStatus (pg_Status p)"
    using assms by (auto simp: ReportProgress_def split: if_splits)
  moreover from status
  have "pg_Status p \<notin> {TransferCreated, TransferCancelled, TransferExpired}"
    and "\<exists>c. EventCodeForStatus (pg_Status p) = Some c \<and> EventCode_Valid c \<and> \<not> ClientReportable c"
    by (cases "pg_Status p"; simp add: EventCode_Valid_def validEventCodes_def ClientReportable_def
        clientReportableEventCodes_def)+
  ultimately show ?thesis by blast
qed

theorem ReportProgress_guard_witness:
  "\<not> ClientReportable EventTargetDelivered"
proof -
  have "ReportProgress (\<lambda>_ _ p _. Inr (pg_Status p)) 9 (example_session ''d1'') ''t1''
      \<lparr>pg_IdempotencyKey = '''', pg_DeviceID = ''d1'', pg_Status = TransferDelivered, pg_Route = SelectedRouteLAN,
       pg_BytesTransferred = 250, pg_ErrorCode = ''''\<rparr> = Inr TransferDelivered"
    by (simp add: ReportProgress_def example_session_def reportableRoute_def validErrorCode_def)
  from ReportProgress_guard [OF this] show ?thesis by simp
qed

end
