(* ===== verification/FileManifest.thy ===== *)
theory FileManifest
  imports TransferService
begin

text \<open>
  The manifest of a file (\<open>internal/filetransfer/manifest.go\<close>): a reader is cut into chunks of a
  fixed size, each with its digest, and data is checked against the manifest. SHA-256 is the
  parameter \<open>sha\<close>, a function on whole byte sequences (writing pieces to a hash and hashing their
  concatenation is the same by its interface). The reading loop is a partial function, so that its
  termination for every chunk size and reader is a theorem.
\<close>

section \<open>Readers\<close>

text \<open>
  An \<open>io.Reader\<close> is the bytes it delivers and how it ends: at the end of the data or with an
  error. \<open>io.ReadFull\<close> fills the buffer, or reports the end (\<open>ReadEOF\<close> also stands for
  \<open>io.ErrUnexpectedEOF\<close>, which the code treats alike), or the error.
\<close>

record Reader =
  rd_data :: string
  rd_fails :: bool

datatype read_error = ReadOK | ReadEOF | ReadFailed

definition io_ReadFull :: "Reader \<Rightarrow> nat \<Rightarrow> string \<times> read_error \<times> Reader" where
  "io_ReadFull r n =
     (take n (rd_data r),
      (if n \<le> length (rd_data r) then ReadOK else if rd_fails r then ReadFailed else ReadEOF),
      r\<lparr>rd_data := drop n (rd_data r)\<rparr>)"

text \<open>\<open>io.Copy\<close> from a reader: everything it delivers, and whether it failed.\<close>

definition io_Copy :: "Reader \<Rightarrow> string \<times> bool" where
  "io_Copy r = (rd_data r, rd_fails r)"

text \<open>\<open>io.LimitReader\<close>: at most \<open>n\<close> bytes; the failure is only reached behind them.\<close>

definition io_LimitReader :: "Reader \<Rightarrow> int \<Rightarrow> Reader" where
  "io_LimitReader r n = \<lparr>rd_data = take (nat n) (rd_data r),
     rd_fails = (rd_fails r \<and> length (rd_data r) < nat n)\<rparr>"

section \<open>The manifest\<close>

datatype manifest_error = ErrInvalidChunkSize | ErrReadChunk

definition DefaultChunkSize :: int where "DefaultChunkSize = 8 * 1024 * 1024"

record Chunk =
  ck_Index :: int
  ck_Size :: int
  ck_SHA256 :: string

record Manifest =
  mf_Size :: int
  mf_SHA256 :: string
  mf_ChunkSize :: int
  mf_Chunks :: "Chunk list"

text \<open>
  The loop, with the bytes given to the whole-file hash so far. A chunk is appended before the
  error of the read ends the loop.
\<close>

definition add_chunk :: "(string \<Rightarrow> string) \<Rightarrow> int \<Rightarrow> string \<Rightarrow> Manifest \<Rightarrow> Manifest" where
  "add_chunk sha index data m =
     (if data = [] then m
      else m\<lparr>mf_Chunks := mf_Chunks m @ [\<lparr>ck_Index = index, ck_Size = int (length data), ck_SHA256 = sha data\<rparr>],
             mf_Size := mf_Size m + int (length data)\<rparr>)"

partial_function (option) manifest_loop ::
  "(string \<Rightarrow> string) \<Rightarrow> nat \<Rightarrow> int \<Rightarrow> Reader \<Rightarrow> string \<Rightarrow> Manifest \<Rightarrow> (manifest_error + Manifest) option"
where
  "manifest_loop sha n index reader hashed m =
     (let (data, err, rest) = io_ReadFull reader n
      in if err = ReadFailed then Some (Inl ErrReadChunk)
         else if err \<noteq> ReadOK then Some (Inr ((add_chunk sha index data m)\<lparr>mf_SHA256 := sha (hashed @ data)\<rparr>))
         else manifest_loop sha n (index + 1) rest (hashed @ data) (add_chunk sha index data m))"

definition BuildManifest :: "(string \<Rightarrow> string) \<Rightarrow> Reader \<Rightarrow> int \<Rightarrow> (manifest_error + Manifest) option" where
  "BuildManifest sha reader chunkSize =
     (if chunkSize \<le> 0 then Some (Inl ErrInvalidChunkSize)
      else if max_int64 < chunkSize then Some (Inl ErrInvalidChunkSize)
      else manifest_loop sha (nat chunkSize) 0 reader []
        \<lparr>mf_Size = 0, mf_SHA256 = [], mf_ChunkSize = chunkSize, mf_Chunks = []\<rparr>)"

definition VerifyChunk :: "(string \<Rightarrow> string) \<Rightarrow> Manifest \<Rightarrow> int \<Rightarrow> string \<Rightarrow> bool" where
  "VerifyChunk sha m index data =
     (if index < 0 \<or> int (length (mf_Chunks m)) \<le> index then False
      else let chunk = mf_Chunks m ! nat index
           in ck_Index chunk = index \<and> ck_Size chunk = int (length data) \<and> ck_SHA256 chunk = sha data)"

definition VerifyFile :: "(string \<Rightarrow> string) \<Rightarrow> Manifest \<Rightarrow> Reader \<Rightarrow> manifest_error + bool" where
  "VerifyFile sha m reader =
     (let (data, failed) = io_Copy reader
      in if failed then Inl ErrReadChunk
         else if int (length data) \<noteq> mf_Size m then Inr False
         else Inr (sha data = mf_SHA256 m))"

section \<open>Cutting bytes into pieces\<close>

text \<open>The reference: the pieces of \<open>n\<close> bytes of a byte sequence, the last one possibly shorter.\<close>

function pieces :: "nat \<Rightarrow> string \<Rightarrow> string list" where
  "pieces n s = (if n = 0 \<or> s = [] then [] else take n s # pieces n (drop n s))"
  by pat_completeness auto
termination by (relation "measure (\<lambda>(n, s). length s)") auto

declare pieces.simps [simp del]

lemma pieces_Nil [simp]: "pieces n [] = []"
  by (simp add: pieces.simps)

lemma pieces_step: "0 < n \<Longrightarrow> s \<noteq> [] \<Longrightarrow> pieces n s = take n s # pieces n (drop n s)"
  by (subst pieces.simps) simp

lemma pieces_short: "s \<noteq> [] \<Longrightarrow> length s \<le> n \<Longrightarrow> pieces n s = [s]"
  by (cases s) (auto simp: pieces_step)

lemma concat_pieces [simp]: "0 < n \<Longrightarrow> concat (pieces n s) = s"
proof (induction n s rule: pieces.induct)
  case (1 n s)
  then show ?case by (cases "s = []") (simp_all add: pieces_step)
qed

lemma length_pieces: "0 < n \<Longrightarrow> length (pieces n s) = (length s + n - 1) div n"
proof (induction n s rule: pieces.induct)
  case (1 n s)
  show ?case
  proof (cases "s = []")
    case True
    with 1 show ?thesis by simp
  next
    case False
    then have step: "length (pieces n s) = Suc ((length (drop n s) + n - 1) div n)"
      using 1 by (simp add: pieces_step)
    show ?thesis
    proof (cases "n \<le> length s")
      case True
      with 1(2) have eq: "length s + n - 1 = n + (length (drop n s) + n - 1)" by simp
      show ?thesis unfolding step eq using 1(2) by (simp only: div_add_self1)
    next
      case False
      with \<open>s \<noteq> []\<close> 1(2) have eq: "length s + n - 1 = n + (length s - 1)" and lt: "length s - 1 < n"
        by (cases s; simp)+
      have "(length s + n - 1) div n = Suc 0" unfolding eq div_add_self1 [OF neq0_conv [THEN iffD2, OF 1(2)]] using lt by simp
      with step False 1(2) show ?thesis by simp
    qed
  qed
qed

lemma pieces_length:
  "0 < n \<Longrightarrow> i < length (pieces n s) \<Longrightarrow> length (pieces n s ! i) = min n (length s - i * n)"
proof (induction n s arbitrary: i rule: pieces.induct)
  case (1 n s)
  then have "s \<noteq> []" by auto
  with 1 show ?case by (cases i) (auto simp: pieces_step min_def algebra_simps)
qed

section \<open>What the manifest holds\<close>

definition chunks_of :: "(string \<Rightarrow> string) \<Rightarrow> int \<Rightarrow> string list \<Rightarrow> Chunk list" where
  "chunks_of sha k ps = map (\<lambda>i. \<lparr>ck_Index = k + int i, ck_Size = int (length (ps ! i)), ck_SHA256 = sha (ps ! i)\<rparr>)
     [0..<length ps]"

lemma chunks_of_Nil [simp]: "chunks_of sha k [] = []"
  by (simp add: chunks_of_def)

lemma chunks_of_Cons [simp]:
  "chunks_of sha k (p # ps) =
     \<lparr>ck_Index = k, ck_Size = int (length p), ck_SHA256 = sha p\<rparr> # chunks_of sha (k + 1) ps"
  unfolding chunks_of_def by (simp add: upt_conv_Cons map_Suc_upt [symmetric] del: upt_Suc)

lemma length_chunks_of [simp]: "length (chunks_of sha k ps) = length ps"
  by (simp add: chunks_of_def)

lemma chunks_of_nth: "i < length ps \<Longrightarrow> chunks_of sha k ps ! i =
    \<lparr>ck_Index = k + int i, ck_Size = int (length (ps ! i)), ck_SHA256 = sha (ps ! i)\<rparr>"
  by (simp add: chunks_of_def)

lemma manifest_loop_result:
  assumes "0 < n"
  shows "manifest_loop sha n k r hashed m =
    Some (if rd_fails r then Inl ErrReadChunk
          else Inr (m\<lparr>mf_Size := mf_Size m + int (length (rd_data r)), mf_SHA256 := sha (hashed @ rd_data r),
                 mf_Chunks := mf_Chunks m @ chunks_of sha k (pieces n (rd_data r))\<rparr>))"
proof (induction "length (rd_data r)" arbitrary: k r hashed m rule: less_induct)
  case less
  show ?case
  proof (cases "n \<le> length (rd_data r)")
    case True
    then have "rd_data r \<noteq> []" using assms by auto
    with True less assms show ?thesis
      by (subst manifest_loop.simps) (simp add: io_ReadFull_def Let_def add_chunk_def pieces_step)
  next
    case False
    then show ?thesis
      by (subst manifest_loop.simps)
        (auto simp: io_ReadFull_def Let_def add_chunk_def pieces_short)
  qed
qed

text \<open>
  C9. Building a manifest always returns: for every chunk size and every reader, the loop yields
  exactly the manifest of the reference that cuts the bytes into pieces of the chunk size,
  numbered from 0, each with its length and digest, together with the total length and the digest
  of the whole; a non-positive chunk size and a failing reader are its only errors (a chunk size
  beyond the platform's integers cannot be passed).
\<close>

theorem BuildManifest_reference:
  "BuildManifest sha r chunkSize = Some
     (if chunkSize \<le> 0 \<or> max_int64 < chunkSize then Inl ErrInvalidChunkSize
      else if rd_fails r then Inl ErrReadChunk
      else Inr \<lparr>mf_Size = int (length (rd_data r)), mf_SHA256 = sha (rd_data r), mf_ChunkSize = chunkSize,
        mf_Chunks = chunks_of sha 0 (pieces (nat chunkSize) (rd_data r))\<rparr>)"
  by (simp add: BuildManifest_def manifest_loop_result)

lemma BuildManifest_pieces:
  assumes "BuildManifest sha r chunkSize = Some (Inr m)"
  shows "0 < chunkSize \<and> \<not> rd_fails r \<and> mf_Size m = int (length (rd_data r)) \<and> mf_SHA256 m = sha (rd_data r) \<and>
    mf_Chunks m = chunks_of sha 0 (pieces (nat chunkSize) (rd_data r))"
  using assms by (auto simp: BuildManifest_def manifest_loop_result split: if_splits)

lemma VerifyChunk_pieces:
  assumes "BuildManifest sha r chunkSize = Some (Inr m)"
  shows "VerifyChunk sha m i data \<longleftrightarrow>
    (0 \<le> i \<and> nat i < length (pieces (nat chunkSize) (rd_data r)) \<and>
     length data = length (pieces (nat chunkSize) (rd_data r) ! nat i) \<and>
     sha data = sha (pieces (nat chunkSize) (rd_data r) ! nat i))"
  using BuildManifest_pieces [OF assms]
  by (auto simp: VerifyChunk_def chunks_of_nth Let_def nat_less_iff)

lemma nth_inject: "length xs = length ys \<Longrightarrow> (\<And>i. i < length ys \<Longrightarrow> xs ! i = ys ! i) \<Longrightarrow> xs = ys"
  by (rule nth_equalityI) auto

text \<open>
  C10. Pieces that pass the check reassemble the file: when a receiver has as many pieces as the
  manifest has chunks, each accepted by \<open>VerifyChunk\<close> at its own index, then, up to collisions of
  SHA-256 among the pieces, their concatenation is the file, byte for byte, and it passes
  \<open>VerifyFile\<close>.
\<close>

theorem verified_chunks_reassemble:
  assumes "BuildManifest sha r chunkSize = Some (Inr m)"
    and "length parts = length (mf_Chunks m)"
    and "list_all (\<lambda>i. VerifyChunk sha m (int i) (parts ! i)) [0..<length parts]"
    and "inj_on sha (set parts \<union> set (pieces (nat chunkSize) (rd_data r)))"
  shows "concat parts = rd_data r \<and> VerifyFile sha m \<lparr>rd_data = concat parts, rd_fails = False\<rparr> = Inr True"
proof -
  let ?ps = "pieces (nat chunkSize) (rd_data r)"
  note m = BuildManifest_pieces [OF assms(1)]
  have len: "length parts = length ?ps" using assms(2) m by simp
  have "parts ! i = ?ps ! i" if "i < length ?ps" for i
  proof -
    have "VerifyChunk sha m (int i) (parts ! i)" using assms(3) that len by (simp add: list_all_iff)
    then have "sha (parts ! i) = sha (?ps ! i)" by (simp add: VerifyChunk_pieces [OF assms(1)])
    then show ?thesis using inj_onD [OF assms(4)] that len by simp
  qed
  then have "parts = ?ps" by (rule nth_inject [OF len])
  with m show ?thesis by (simp add: VerifyFile_def io_Copy_def)
qed

theorem verified_chunks_reassemble_witness:
  "\<exists>m. BuildManifest rev \<lparr>rd_data = ''abcde'', rd_fails = False\<rparr> 2 = Some (Inr m) \<and>
     VerifyChunk rev m 2 ''e'' \<and> concat [''ab'', ''cd'', ''e''] = ''abcde'' \<and>
     VerifyFile rev m \<lparr>rd_data = concat [''ab'', ''cd'', ''e''], rd_fails = False\<rparr> = Inr True"
proof -
  have m: "BuildManifest rev \<lparr>rd_data = ''abcde'', rd_fails = False\<rparr> 2 = Some (Inr
      \<lparr>mf_Size = 5, mf_SHA256 = ''edcba'', mf_ChunkSize = 2,
        mf_Chunks = [\<lparr>ck_Index = 0, ck_Size = 2, ck_SHA256 = ''ba''\<rparr>, \<lparr>ck_Index = 1, ck_Size = 2, ck_SHA256 = ''dc''\<rparr>,
          \<lparr>ck_Index = 2, ck_Size = 1, ck_SHA256 = ''e''\<rparr>]\<rparr>)"
    by (simp add: BuildManifest_def manifest_loop_result pieces_step)
  have "inj_on rev (A :: string set)" for A by (simp add: inj_on_def)
  from verified_chunks_reassemble [OF m _ _ this, of "[''ab'', ''cd'', ''e'']"]
  show ?thesis unfolding m by (simp add: VerifyChunk_def Let_def)
qed

end
