(* ===== verification/TransferTables.thy ===== *)
theory TransferTables
  imports TransferService StableSort
begin

text \<open>
  The tables of \<open>migrations/\<close> that the transfer operations of \<open>internal/postgres/store.go\<close> read
  and write, one record per row, and the queries over them: \<open>getTransfer\<close>, the two listings and
  the timeline. Columns that may be NULL are options, except in timeline rows, where the Go code
  reads NULL back as the empty string or zero. Identifiers the database generates are arguments.
\<close>

section \<open>Tables\<close>

record TaskRow =
  task_id :: string
  task_sender_user :: string
  task_sender_device :: string
  task_group :: "string option"
  task_batch :: "string option"
  task_idempotency_key :: "string option"
  task_fingerprint :: string
  task_target_type :: TargetType
  task_content_type :: ContentType
  task_file_count :: int
  task_total_size :: int
  task_status :: TransferStatus
  task_created_at :: time
  task_expires_at :: time
  task_group_deleted_at :: "time option"

record TargetRow =
  tgt_transfer :: string
  tgt_device :: string
  tgt_route :: SelectedRoute
  tgt_status :: TransferStatus
  tgt_bytes :: int
  tgt_started_at :: "time option"
  tgt_completed_at :: "time option"
  tgt_read_at :: "time option"
  tgt_error_code :: "string option"

record ExecutionRow =
  ex_id :: string
  ex_transfer :: string
  ex_device :: string
  ex_attempt :: int
  ex_status :: TransferStatus
  ex_started_at :: time
  ex_completed_at :: "time option"
  ex_idempotency_key :: "string option"
  ex_error_code :: "string option"

record RouteRow =
  rt_transfer :: string
  rt_device :: string
  rt_route :: SelectedRoute
  rt_started_at :: time
  rt_ended_at :: "time option"

record DeliveryRow =
  dl_transfer :: string
  dl_device :: string
  dl_delivered_at :: "time option"
  dl_read_at :: "time option"

record FileRow =
  file_id :: string
  file_transfer :: string
  file_name :: string
  file_mime :: string
  file_size :: int
  file_sha256 :: string
  file_chunk_size :: int
  file_chunk_count :: int
  file_status :: string
  file_storage_path :: string
  file_expires_at :: time
  file_completed_at :: "time option"

record FileTargetRow =
  ftr_file :: string
  ftr_device :: string
  ftr_route :: SelectedRoute
  ftr_status :: TransferStatus

record KeyRow =
  key_transfer :: string
  key_device :: string
  key_wrapped :: string

record MessageRow =
  msg_transfer :: string
  msg_content :: string
  msg_targets :: "(string \<times> string) list"

record HiddenRow =
  hid_transfer :: string
  hid_user :: string
  hid_at :: time

record NoticeRow =
  nt_device :: string
  nt_transfer :: string
  nt_created_at :: time

record DeviceRow =
  dev_id :: string
  dev_user :: string
  dev_trusted :: bool
  dev_revoked_at :: "time option"

datatype Response = ResponseTransfer Transfer | ResponseEvent TimelineEvent

text \<open>
  A row of \<open>idempotency_records\<close>; the stored response is kept as the value whose JSON the code
  stores, \<open>None\<close> while the request is being processed.
\<close>

record IdempotencyRow =
  idm_device :: string
  idm_method :: string
  idm_resource :: string
  idm_key :: string
  idm_hash :: string
  idm_response :: "Response option"

record Settings =
  set_single_file_limit :: int
  set_default_user_quota :: int
  set_default_group_quota :: int
  set_node_cache_limit :: int
  set_default_user_daily :: int
  set_default_group_daily :: int
  set_warning_percent :: int
  set_stop_percent :: int

text \<open>A row of \<open>storage_quotas\<close>: owner type (\<open>True\<close> for a group), owner, and the two limits.\<close>

record QuotaRow =
  quo_group :: bool
  quo_owner :: string
  quo_byte_limit :: int
  quo_daily_limit :: "int option"

record transfer_db =
  db_tasks :: "TaskRow list"
  db_targets :: "TargetRow list"
  db_executions :: "ExecutionRow list"
  db_routes :: "RouteRow list"
  db_deliveries :: "DeliveryRow list"
  db_files :: "FileRow list"
  db_file_targets :: "FileTargetRow list"
  db_keys :: "KeyRow list"
  db_messages :: "MessageRow list"
  db_hidden :: "HiddenRow list"
  db_notices :: "NoticeRow list"
  db_devices :: "DeviceRow list"
  db_group_devices :: "(string \<times> string) list"
  db_group_members :: "(string \<times> string) list"
  db_timeline :: "TimelineEvent list"
  db_idempotency :: "IdempotencyRow list"
  db_settings :: Settings
  db_quotas :: "QuotaRow list"
  db_warnings :: nat

section \<open>Reading a transfer\<close>

definition device_in :: "string option \<Rightarrow> string \<Rightarrow> bool" where
  "device_in d x \<longleftrightarrow> d = Some x"

definition has_target :: "transfer_db \<Rightarrow> string \<Rightarrow> string option \<Rightarrow> bool" where
  "has_target db t d \<longleftrightarrow> list_ex (\<lambda>r. tgt_transfer r = t \<and> device_in d (tgt_device r)) (db_targets db)"

definition is_hidden :: "transfer_db \<Rightarrow> string \<Rightarrow> string \<Rightarrow> bool" where
  "is_hidden db t u \<longleftrightarrow> list_ex (\<lambda>h. hid_transfer h = t \<and> hid_user h = u) (db_hidden db)"

definition visible :: "transfer_db \<Rightarrow> Session \<Rightarrow> TaskRow \<Rightarrow> bool" where
  "visible db session t \<longleftrightarrow> task_group_deleted_at t = None \<and> \<not> is_hidden db (task_id t) (usr_ID session) \<and>
     (task_sender_user t = usr_ID session \<or> has_target db (task_id t) (sess_DeviceID session))"

definition file_view :: "FileRow \<Rightarrow> File" where
  "file_view f = \<lparr>tf_ID = file_id f, tf_Name = file_name f, tf_MIMEType = file_mime f, tf_Size = file_size f,
     tf_SHA256 = file_sha256 f, tf_ChunkSize = file_chunk_size f, tf_ChunkCount = file_chunk_count f,
     tf_ExpiresAt = file_expires_at f\<rparr>"

definition target_view :: "TargetRow \<Rightarrow> Target" where
  "target_view r = \<lparr>tg_DeviceID = tgt_device r, tg_SelectedRoute = tgt_route r, tg_Status = tgt_status r,
     tg_BytesTransferred = tgt_bytes r\<rparr>"

definition optional :: "string option \<Rightarrow> string" where
  "optional s = (case s of None \<Rightarrow> '''' | Some v \<Rightarrow> v)"

definition getTransfer :: "transfer_db \<Rightarrow> Session \<Rightarrow> string \<Rightarrow> transfer_error + Transfer" where
  "getTransfer db session transferID =
     (case find (\<lambda>t. task_id t = transferID \<and> visible db session t) (db_tasks db) of
        None \<Rightarrow> Inl ErrNotFound
      | Some t \<Rightarrow>
          let own = (task_sender_user t = usr_ID session);
              files = SliceStable (\<lambda>f g. file_id f < file_id g)
                (filter (\<lambda>f. file_transfer f = transferID) (db_files db));
              targets = SliceStable (\<lambda>r s. tgt_device r < tgt_device s)
                (filter (\<lambda>r. tgt_transfer r = transferID) (db_targets db));
              ids = map file_id files;
              file_targets = SliceStable (\<lambda>r s. (ftr_file r, ftr_device r) < (ftr_file s, ftr_device s))
                (filter (\<lambda>r. ftr_file r \<in> set ids) (db_file_targets db))
          in Inr \<lparr>tr_ID = task_id t, tr_BatchID = optional (task_batch t), tr_SenderUserID = task_sender_user t,
               tr_SenderDeviceID = task_sender_device t, tr_TargetType = task_target_type t,
               tr_GroupID = optional (task_group t), tr_ContentType = task_content_type t,
               tr_Content = optional (map_option msg_content
                 (find (\<lambda>m. msg_transfer m = transferID) (db_messages db))),
               tr_Files = map file_view files, tr_Targets = map target_view targets,
               tr_FileTargets = map (\<lambda>r. \<lparr>ftg_FileIndex = the (index_of (ftr_file r) ids), ftg_DeviceID = ftr_device r,
                   ftg_SelectedRoute = ftr_route r, ftg_Status = ftr_status r\<rparr>) file_targets,
               tr_WrappedContentKeys = map_of (rev (map (\<lambda>k. (key_device k, key_wrapped k))
                 (filter (\<lambda>k. key_transfer k = transferID \<and> (own \<or> device_in (sess_DeviceID session) (key_device k)))
                   (db_keys db)))),
               tr_Status = task_status t, tr_CreatedAt = task_created_at t, tr_ExpiresAt = task_expires_at t\<rparr>)"

text \<open>The results of a list of calls, or the first error.\<close>

fun collect :: "('a \<Rightarrow> 'e + 'b) \<Rightarrow> 'a list \<Rightarrow> 'e + 'b list" where
  "collect f [] = Inr []"
| "collect f (x # xs) = bindE (f x) (\<lambda>y. bindE (collect f xs) (\<lambda>ys. Inr (y # ys)))"

definition newest_first :: "TaskRow \<Rightarrow> TaskRow \<Rightarrow> bool" where
  "newest_first s t \<longleftrightarrow> task_created_at t < task_created_at s \<or>
     task_created_at s = task_created_at t \<and> task_id t < task_id s"

definition ListTransfers :: "transfer_db \<Rightarrow> Session \<Rightarrow> transfer_error + Transfer list" where
  "ListTransfers db session =
     collect (getTransfer db session)
       (map task_id (SliceStable (\<lambda>s t. task_created_at t < task_created_at s)
         (filter (visible db session) (db_tasks db))))"

definition in_page :: "PageOptions \<Rightarrow> TaskRow \<Rightarrow> bool" where
  "in_page options t \<longleftrightarrow>
     (IsZero (po_From options) \<or> po_From options \<le> task_created_at t) \<and>
     (IsZero (po_To options) \<or> task_created_at t \<le> po_To options) \<and>
     (po_Status options = TransferStatusOther '''' \<or> task_status t = po_Status options) \<and>
     (IsZero (pk_CreatedAt (po_Cursor options)) \<or>
      task_created_at t < pk_CreatedAt (po_Cursor options) \<or>
      task_created_at t = pk_CreatedAt (po_Cursor options) \<and> task_id t < pk_ID (po_Cursor options))"

definition ListTransferPage :: "transfer_db \<Rightarrow> Session \<Rightarrow> PageOptions \<Rightarrow> transfer_error + TransferPage" where
  "ListTransferPage db session options =
     (if po_Limit options < 1 \<or> po_Limit options > 100 then Inl ErrInvalid
      else
        let limit = nat (po_Limit options);
            keys = take (limit + 1) (SliceStable newest_first
              (filter (\<lambda>t. visible db session t \<and> in_page options t) (db_tasks db)));
            next_key = (if length keys > limit
              then \<lparr>pk_ID = task_id (keys ! (limit - 1)), pk_CreatedAt = task_created_at (keys ! (limit - 1))\<rparr>
              else \<lparr>pk_ID = '''', pk_CreatedAt = 0\<rparr>)
        in bindE (collect (getTransfer db session) (map task_id (take limit keys)))
             (\<lambda>items. Inr \<lparr>pg_Items = items, pg_NextPageKey = next_key\<rparr>))"

definition TransferTimeline :: "transfer_db \<Rightarrow> Session \<Rightarrow> string \<Rightarrow> transfer_error + TimelineEvent list" where
  "TransferTimeline db session transferID =
     bindE (getTransfer db session transferID) (\<lambda>_. Inr
       (SliceStable (\<lambda>e f. (ev_OccurredAt e, ev_Sequence e) < (ev_OccurredAt f, ev_Sequence f))
         (filter (\<lambda>e. ev_TransferID e = transferID) (db_timeline db))))"

section \<open>Timeline rows and executions\<close>

text \<open>The next value of the sequence; \<open>request\<close> is the request identifier of the context.\<close>

definition insertTransferTimelineEvent :: "string \<Rightarrow> TimelineEvent \<Rightarrow> transfer_db \<Rightarrow> transfer_db" where
  "insertTransferTimelineEvent request event db =
     db\<lparr>db_timeline := db_timeline db @
       [event\<lparr>ev_Sequence := int (length (db_timeline db)) + 1, ev_RequestID := request,
              ev_DurationMillis := max 0 (ev_DurationMillis event)\<rparr>]\<rparr>"

definition blank_event :: "string \<Rightarrow> EventCode \<Rightarrow> time \<Rightarrow> TimelineEvent" where
  "blank_event transferID c at = \<lparr>ev_Sequence = 0, ev_TransferID = transferID, ev_Code = c, ev_RequestID = '''',
     ev_FileID = '''', ev_TargetDeviceID = '''', ev_ExecutionID = '''', ev_Route = SelectedRouteOther '''',
     ev_Status = TransferStatusOther '''', ev_ErrorCode = '''', ev_DurationMillis = 0, ev_OccurredAt = at\<rparr>"

definition executions_of :: "transfer_db \<Rightarrow> string \<Rightarrow> string \<Rightarrow> ExecutionRow list" where
  "executions_of db t d = filter (\<lambda>e. ex_transfer e = t \<and> ex_device e = d) (db_executions db)"

definition max_attempt :: "transfer_db \<Rightarrow> string \<Rightarrow> string \<Rightarrow> int" where
  "max_attempt db t d = foldr max (map ex_attempt (executions_of db t d)) 0"

definition latest_execution :: "transfer_db \<Rightarrow> string \<Rightarrow> string \<Rightarrow> ExecutionRow option" where
  "latest_execution db t d =
     (case SliceStable (\<lambda>e f. ex_attempt f < ex_attempt e) (executions_of db t d) of
        [] \<Rightarrow> None | e # _ \<Rightarrow> Some e)"

definition is_target :: "string \<Rightarrow> string \<Rightarrow> TargetRow \<Rightarrow> bool" where
  "is_target t d r \<longleftrightarrow> tgt_transfer r = t \<and> tgt_device r = d"

definition unfinished :: "TransferStatus \<Rightarrow> bool" where
  "unfinished s \<longleftrightarrow> s \<notin> {TransferDelivered, TransferRead, TransferFailed, TransferCancelled, TransferExpired}"

end
