(* ===== verification/FileStore.thy ===== *)
theory FileStore
  imports FileManifest TransferTables
begin

text \<open>
  The file operations of \<open>internal/postgres/store.go\<close>: which chunks a sending device may upload,
  the rows of \<open>file_chunks\<close>, who may read a chunk, and the completion of a file. The table of
  chunks stands beside the transfer tables; its rows are the \<open>ChunkRecord\<close>s of
  \<open>internal/filetransfer/service.go\<close>, all with status \<open>COMPLETE\<close>. A failing database leaves
  the tables unchanged and is not modelled.
\<close>

section \<open>Records\<close>

datatype file_error = ErrInvalid | ErrNotFound | ErrForbidden | ErrConflict | ErrHash | ErrIncomplete | ErrIO

record FileRecord =
  fr_ID :: string
  fr_TransferID :: string
  fr_Size :: int
  fr_SHA256 :: string
  fr_ChunkSize :: int
  fr_ChunkCount :: int
  fr_Status :: string
  fr_StoragePath :: string

record ChunkRecord =
  cr_FileID :: string
  cr_Index :: int
  cr_Size :: int
  cr_SHA256 :: string
  cr_StoragePath :: string
  cr_CompletedAt :: time

record file_tables =
  ft_db :: transfer_db
  ft_chunks :: "ChunkRecord list"

definition file_record :: "FileRow \<Rightarrow> FileRecord" where
  "file_record f = \<lparr>fr_ID = file_id f, fr_TransferID = file_transfer f, fr_Size = file_size f,
     fr_SHA256 = file_sha256 f, fr_ChunkSize = file_chunk_size f, fr_ChunkCount = file_chunk_count f,
     fr_Status = file_status f, fr_StoragePath = file_storage_path f\<rparr>"

section \<open>Queries\<close>

text \<open>The row \<open>fileID\<close> whose transfer this device of this user sends.\<close>

definition sends :: "transfer_db \<Rightarrow> Session \<Rightarrow> string \<Rightarrow> bool" where
  "sends db session t \<longleftrightarrow> list_ex (\<lambda>k. task_id k = t \<and> task_sender_user k = usr_ID session \<and>
     device_in (sess_DeviceID session) (task_sender_device k)) (db_tasks db)"

definition own_file :: "transfer_db \<Rightarrow> Session \<Rightarrow> string \<Rightarrow> FileRow \<Rightarrow> bool" where
  "own_file db session fileID f \<longleftrightarrow> file_id f = fileID \<and> sends db session (file_transfer f)"

definition node_target :: "transfer_db \<Rightarrow> string \<Rightarrow> bool" where
  "node_target db fileID \<longleftrightarrow> list_ex (\<lambda>r. ftr_file r = fileID \<and> ftr_route r = SelectedRouteNode) (db_file_targets db)"

definition chunk_row :: "file_tables \<Rightarrow> string \<Rightarrow> int \<Rightarrow> ChunkRecord option" where
  "chunk_row st fileID index = find (\<lambda>c. cr_FileID c = fileID \<and> cr_Index c = index) (ft_chunks st)"

definition PrepareChunkUpload ::
  "file_tables \<Rightarrow> Session \<Rightarrow> string \<Rightarrow> int \<Rightarrow> file_error + (FileRecord \<times> ChunkRecord option)"
where
  "PrepareChunkUpload st session fileID index =
     (case find (\<lambda>f. own_file (ft_db st) session fileID f \<and> file_status f = ''UPLOADING'' \<and>
              node_target (ft_db st) fileID) (db_files (ft_db st)) of
        None \<Rightarrow> Inl ErrForbidden
      | Some f \<Rightarrow> Inr (file_record f, chunk_row st fileID index))"

definition RecordChunk :: "file_tables \<Rightarrow> Session \<Rightarrow> ChunkRecord \<Rightarrow> file_tables \<times> (file_error + unit)" where
  "RecordChunk st session chunk =
     (if list_ex (\<lambda>f. own_file (ft_db st) session (cr_FileID chunk) f \<and> file_status f = ''UPLOADING'')
           (db_files (ft_db st)) \<and>
         chunk_row st (cr_FileID chunk) (cr_Index chunk) = None
      then (st\<lparr>ft_chunks := ft_chunks st @ [chunk]\<rparr>, Inr ())
      else case chunk_row st (cr_FileID chunk) (cr_Index chunk) of
        Some existing \<Rightarrow> if cr_SHA256 existing = cr_SHA256 chunk then (st, Inr ()) else (st, Inl ErrConflict)
      | None \<Rightarrow> (st, Inl ErrConflict))"

definition Store_OpenChunk :: "file_tables \<Rightarrow> Session \<Rightarrow> string \<Rightarrow> int \<Rightarrow> file_error + ChunkRecord" where
  "Store_OpenChunk st session fileID index =
     (case find (\<lambda>c. cr_FileID c = fileID \<and> cr_Index c = index \<and>
              list_ex (\<lambda>r. ftr_file r = fileID \<and> device_in (sess_DeviceID session) (ftr_device r) \<and>
                ftr_route r = SelectedRouteNode) (db_file_targets (ft_db st))) (ft_chunks st) of
        None \<Rightarrow> Inl ErrNotFound
      | Some c \<Rightarrow> Inr c)"

definition PrepareFileCompletion ::
  "file_tables \<Rightarrow> Session \<Rightarrow> string \<Rightarrow> file_error + (FileRecord \<times> ChunkRecord list)"
where
  "PrepareFileCompletion st session fileID =
     (case find (\<lambda>f. own_file (ft_db st) session fileID f \<and>
              (file_status f = ''UPLOADING'' \<or> file_status f = ''AVAILABLE_ON_NODE'')) (db_files (ft_db st)) of
        None \<Rightarrow> Inl ErrForbidden
      | Some f \<Rightarrow> Inr (file_record f,
          SliceStable (\<lambda>c d. cr_Index c < cr_Index d) (filter (\<lambda>c. cr_FileID c = fileID) (ft_chunks st))))"

section \<open>Completion\<close>

text \<open>
  The three updates and the timeline event of \<open>CompleteFile\<close>. The two target updates look at the
  route only: they set every Node target of the file, and of its transfer, whatever its status.
\<close>

definition publish_row :: "string \<Rightarrow> time \<Rightarrow> FileRow \<Rightarrow> FileRow" where
  "publish_row path at f = f\<lparr>file_status := ''AVAILABLE_ON_NODE'', file_storage_path := path, file_completed_at := Some at\<rparr>"

definition available_tables :: "string \<Rightarrow> string \<Rightarrow> string \<Rightarrow> string \<Rightarrow> time \<Rightarrow> transfer_db \<Rightarrow> transfer_db" where
  "available_tables request transferID fileID path at db =
     insertTransferTimelineEvent request
       ((blank_event transferID EventHashVerified at)\<lparr>ev_FileID := fileID, ev_Route := SelectedRouteNode,
          ev_Status := TransferAvailableOnNode\<rparr>)
       (db\<lparr>db_files := update_where (\<lambda>f. file_id f = fileID) (publish_row path at) (db_files db),
          db_file_targets := update_where (\<lambda>r. ftr_file r = fileID \<and> ftr_route r = SelectedRouteNode)
            (\<lambda>r. r\<lparr>ftr_status := TransferAvailableOnNode\<rparr>) (db_file_targets db),
          db_targets := update_where (\<lambda>r. tgt_transfer r = transferID \<and> tgt_route r = SelectedRouteNode)
            (\<lambda>r. r\<lparr>tgt_status := TransferAvailableOnNode\<rparr>) (db_targets db)\<rparr>)"

definition CompleteFile ::
  "string \<Rightarrow> file_tables \<Rightarrow> Session \<Rightarrow> string \<Rightarrow> string \<Rightarrow> time \<Rightarrow> file_tables \<times> (file_error + unit)"
where
  "CompleteFile request st session fileID storagePath completedAt =
     (case find (\<lambda>f. own_file (ft_db st) session fileID f \<and> file_status f = ''UPLOADING'') (db_files (ft_db st)) of
        None \<Rightarrow> (st, Inl ErrConflict)
      | Some f \<Rightarrow>
          (st\<lparr>ft_db := available_tables request (file_transfer f) fileID storagePath completedAt (ft_db st)\<rparr>, Inr ()))"

section \<open>The table of chunks\<close>

definition chunk_key :: "ChunkRecord \<Rightarrow> string \<times> int" where
  "chunk_key c = (cr_FileID c, cr_Index c)"

definition chunk_at :: "file_tables \<Rightarrow> string \<times> int \<Rightarrow> ChunkRecord option" where
  "chunk_at st k = find (\<lambda>c. chunk_key c = k) (ft_chunks st)"

definition insert_chunk :: "ChunkRecord \<Rightarrow> file_tables \<Rightarrow> file_tables" where
  "insert_chunk c st = st\<lparr>ft_chunks := ft_chunks st @ [c]\<rparr>"

lemma chunk_row_at: "chunk_row st f i = chunk_at st (f, i)"
  by (simp add: chunk_row_def chunk_at_def chunk_key_def)

interpretation chunks: first_write chunk_at insert_chunk chunk_key
  by unfold_locales (auto simp: chunk_at_def insert_chunk_def find_append split: option.split)

text \<open>Recording a chunk is the insertion of that contract, for a file that is still uploading.\<close>

lemma RecordChunk_put:
  assumes "RecordChunk st session c = (st', Inr ())"
  shows "st' = chunks.put c st \<and> (\<exists>c'. chunk_at st' (chunk_key c) = Some c' \<and> cr_SHA256 c' = cr_SHA256 c)"
proof (cases "chunk_at st (chunk_key c)")
  case None
  then show ?thesis
    using assms chunks.lookup_insert [of st c "chunk_key c"]
    by (auto simp: RecordChunk_def chunk_row_at chunk_key_def chunks.put_def insert_chunk_def split: if_splits)
next
  case (Some c')
  then show ?thesis
    using assms by (auto simp: RecordChunk_def chunk_row_at chunk_key_def chunks.put_def split: if_splits)
qed

lemma RecordChunk_error: "RecordChunk st session c = (st', Inl e) \<Longrightarrow> st' = st \<and> e = ErrConflict"
  by (auto simp: RecordChunk_def split: if_splits option.splits)

end
