(* ===== verification/FileTransfer.thy ===== *)
theory FileTransfer
  imports FileStore Paths
begin

text \<open>
  The file service of the Node (\<open>internal/filetransfer/service.go\<close>): chunks are received into a
  temporary file, checked, renamed into place and recorded; a complete set of chunks is assembled,
  checked and published. The disk maps paths to bytes; directories are not modelled. The random
  part of a temporary name is an argument, and so is the system call that fails, if one does. An
  operation on a file identifier that is no UUID fails in the database before it reaches a path.
\<close>

section \<open>Disk and faults\<close>

type_synonym disk = "string \<Rightarrow> string option"

datatype fault = NoFault | MkdirFails | CreateTempFails | WriteFails | SyncFails | CloseFails | RenameFails | OpenFails

text \<open>The storage root; \<open>cwd\<close> is the working directory, if it can be read.\<close>

definition NewService :: "string option \<Rightarrow> string \<Rightarrow> file_error + string" where
  "NewService cwd root =
     (if root = '''' then Inl ErrInvalid
      else if HasPrefix root ''/'' then Inr (path_Clean root)
      else case cwd of None \<Rightarrow> Inl ErrIO | Some d \<Rightarrow> Inr (filepath_Join [d, root]))"

definition expectedChunkSize :: "FileRecord \<Rightarrow> int \<Rightarrow> file_error + int" where
  "expectedChunkSize file index =
     (if fr_ChunkCount file \<le> index \<or> fr_ChunkSize file \<le> 0 \<or> fr_Size file < 0 then Inl ErrInvalid
      else if index < fr_ChunkCount file - 1 then Inr (fr_ChunkSize file)
      else Inr (i64 (fr_Size file - i64 (index * fr_ChunkSize file))))"

section \<open>Receiving a chunk\<close>

definition chunk_directory :: "string \<Rightarrow> string \<Rightarrow> string" where
  "chunk_directory root fileID = filepath_Join [root, ''chunks'', fileID]"

definition chunk_name :: "int \<Rightarrow> string \<Rightarrow> string" where
  "chunk_name index digest = Itoa index @ ''-'' @ hex_encode digest @ ''.chunk''"

definition upload_temporary :: "string \<Rightarrow> string \<Rightarrow> string" where
  "upload_temporary directory rnd = directory @ ''/.upload-'' @ rnd"

text \<open>
  From the creation of the directory to the rename. Removing the temporary file when anything
  fails is the deferred call of the code.
\<close>

definition receive_chunk ::
  "(string \<Rightarrow> string) \<Rightarrow> string \<Rightarrow> string \<Rightarrow> fault \<Rightarrow> Reader \<Rightarrow> string \<Rightarrow> int \<Rightarrow> string \<Rightarrow> int \<Rightarrow> disk \<Rightarrow>
     disk \<times> (file_error + string \<times> int \<times> string)"
where
  "receive_chunk sha root rnd fault reader fileID index expectedSHA256 expectedSize disk =
     (let directory = chunk_directory root fileID;
          temporary = upload_temporary directory rnd;
          removed = disk(temporary := None);
          (data, failed) = io_Copy (io_LimitReader reader (i64 (expectedSize + 1)));
          digest = sha data;
          finalPath = filepath_Join [directory, chunk_name index digest]
      in if fault = MkdirFails \<or> fault = CreateTempFails then (disk, Inl ErrIO)
         else if failed \<or> fault = WriteFails then (removed, Inl ErrIO)
         else if int (length data) \<noteq> expectedSize then (removed, Inl ErrInvalid)
         else if digest \<noteq> expectedSHA256 then (removed, Inl ErrHash)
         else if fault = SyncFails \<or> fault = CloseFails \<or> fault = RenameFails then (removed, Inl ErrIO)
         else (removed(finalPath \<mapsto> data), Inr (finalPath, int (length data), digest)))"

text \<open>Recording the published chunk; its file is removed when the record is refused.\<close>

definition record_published ::
  "file_tables \<Rightarrow> disk \<Rightarrow> Session \<Rightarrow> ChunkRecord \<Rightarrow> (file_tables \<times> disk) \<times> (file_error + ChunkRecord)"
where
  "record_published st disk session chunk =
     (case RecordChunk st session chunk of
        (st', Inl e) \<Rightarrow> ((st', disk(cr_StoragePath chunk := None)), Inl e)
      | (st', Inr _) \<Rightarrow> ((st', disk), Inr chunk))"

definition UploadChunk ::
  "(string \<Rightarrow> string) \<Rightarrow> string \<Rightarrow> string \<Rightarrow> fault \<Rightarrow> time \<Rightarrow> file_tables \<times> disk \<Rightarrow> Session \<Rightarrow> string \<Rightarrow> int \<Rightarrow> string \<Rightarrow>
     Reader option \<Rightarrow> (file_tables \<times> disk) \<times> (file_error + ChunkRecord)"
where
  "UploadChunk sha root rnd fault now s session fileID index expectedSHA256 reader =
     (let (st, disk) = s in
      case reader of
        None \<Rightarrow> (s, Inl ErrInvalid)
      | Some r \<Rightarrow>
        if fileID = '''' \<or> index < 0 \<or> length expectedSHA256 \<noteq> 32 then (s, Inl ErrInvalid)
        else (case PrepareChunkUpload st session fileID index of
           Inl e \<Rightarrow> (s, Inl e)
         | Inr (file, Some existing) \<Rightarrow>
             (s, if cr_SHA256 existing = expectedSHA256 then Inr existing else Inl ErrConflict)
         | Inr (file, None) \<Rightarrow>
             (case expectedChunkSize file index of
                Inl e \<Rightarrow> (s, Inl e)
              | Inr expectedSize \<Rightarrow>
                  (case receive_chunk sha root rnd fault r fileID index expectedSHA256 expectedSize disk of
                     (disk', Inl e) \<Rightarrow> ((st, disk'), Inl e)
                   | (disk', Inr (finalPath, written, digest)) \<Rightarrow>
                       record_published st disk' session \<lparr>cr_FileID = fileID, cr_Index = index, cr_Size = written,
                         cr_SHA256 = digest, cr_StoragePath = finalPath, cr_CompletedAt = now\<rparr>))))"

definition OpenChunk ::
  "fault \<Rightarrow> file_tables \<times> disk \<Rightarrow> Session \<Rightarrow> string \<Rightarrow> int \<Rightarrow> file_error + ChunkRecord \<times> string"
where
  "OpenChunk fault s session fileID index =
     (if fileID = '''' \<or> index < 0 then Inl ErrInvalid
      else bindE (Store_OpenChunk (fst s) session fileID index) (\<lambda>chunk.
        case snd s (cr_StoragePath chunk) of
          None \<Rightarrow> Inl ErrNotFound
        | Some data \<Rightarrow> if fault = OpenFails then Inl ErrIO else Inr (chunk, data)))"

section \<open>Completing a file\<close>

text \<open>The loop over the chunks, with the bytes written to the temporary file and the hash so far.\<close>

fun assemble :: "(string \<Rightarrow> string) \<Rightarrow> fault \<Rightarrow> disk \<Rightarrow> int \<Rightarrow> string \<Rightarrow> ChunkRecord list \<Rightarrow> file_error + string" where
  "assemble sha fault disk index written [] = Inr written"
| "assemble sha fault disk index written (chunk # chunks) =
     (if cr_Index chunk \<noteq> index then Inl ErrIncomplete
      else case disk (cr_StoragePath chunk) of
        None \<Rightarrow> Inl ErrIncomplete
      | Some data \<Rightarrow>
          if fault = OpenFails then Inl ErrIncomplete
          else if fault = WriteFails \<or> int (length data) \<noteq> cr_Size chunk \<or> sha data \<noteq> cr_SHA256 chunk
          then Inl ErrHash
          else assemble sha fault disk (index + 1) (written @ data) chunks)"

definition final_path :: "string \<Rightarrow> string \<Rightarrow> string" where
  "final_path root fileID = filepath_Join [filepath_Join [root, ''files''], fileID]"

definition assemble_temporary :: "string \<Rightarrow> string \<Rightarrow> string" where
  "assemble_temporary root rnd = filepath_Join [root, ''files''] @ ''/.assemble-'' @ rnd"

text \<open>Everything after \<open>PrepareFileCompletion\<close> has found the file still uploading.\<close>

definition finish_completion ::
  "(string \<Rightarrow> string) \<Rightarrow> string \<Rightarrow> string \<Rightarrow> fault \<Rightarrow> string \<Rightarrow> time \<Rightarrow> file_tables \<times> disk \<Rightarrow> Session \<Rightarrow> string \<Rightarrow>
     FileRecord \<Rightarrow> ChunkRecord list \<Rightarrow> (file_tables \<times> disk) \<times> (file_error + FileRecord)"
where
  "finish_completion sha root rnd fault request now s session fileID file chunks =
     (let (st, disk) = s;
          removed = disk(assemble_temporary root rnd := None);
          finalPath = final_path root fileID
      in if int (length chunks) \<noteq> fr_ChunkCount file then (s, Inl ErrIncomplete)
         else if fault = MkdirFails \<or> fault = CreateTempFails then (s, Inl ErrIO)
         else case assemble sha fault disk 0 [] chunks of
           Inl e \<Rightarrow> ((st, removed), Inl e)
         | Inr content \<Rightarrow>
             if sha content \<noteq> fr_SHA256 file then ((st, removed), Inl ErrHash)
             else if fault = SyncFails \<or> fault = CloseFails \<or> fault = RenameFails then ((st, removed), Inl ErrIO)
             else case CompleteFile request st session fileID finalPath now of
               (st', Inl e) \<Rightarrow> ((st', removed(finalPath := None)), Inl e)
             | (st', Inr _) \<Rightarrow> ((st', removed(finalPath \<mapsto> content)),
                 Inr (file\<lparr>fr_Status := ''AVAILABLE_ON_NODE'', fr_StoragePath := finalPath\<rparr>)))"

definition Complete ::
  "(string \<Rightarrow> string) \<Rightarrow> string \<Rightarrow> string \<Rightarrow> fault \<Rightarrow> string \<Rightarrow> time \<Rightarrow> file_tables \<times> disk \<Rightarrow> Session \<Rightarrow> string \<Rightarrow>
     (file_tables \<times> disk) \<times> (file_error + FileRecord)"
where
  "Complete sha root rnd fault request now s session fileID =
     (if fileID = '''' then (s, Inl ErrInvalid)
      else case PrepareFileCompletion (fst s) session fileID of
        Inl e \<Rightarrow> (s, Inl e)
      | Inr (file, chunks) \<Rightarrow>
          if fr_Status file = ''AVAILABLE_ON_NODE'' then (s, Inr file)
          else finish_completion sha root rnd fault request now s session fileID file chunks)"

section \<open>Chunk sizes\<close>

lemma pieces_count:
  assumes "0 < cs" and "int (length data) = sz"
  shows "int (length (pieces (nat cs) data)) = sz div cs + (if sz mod cs \<noteq> 0 then 1 else 0)"
proof -
  have "0 \<le> sz" using assms(2) by linarith
  have "int (length (pieces (nat cs) data)) = (sz + cs - 1) div cs"
    using assms by (simp add: length_pieces zdiv_int of_nat_diff)
  also have "\<dots> = sz div cs + (if sz mod cs \<noteq> 0 then 1 else 0)"
  proof -
    have sz: "sz = cs * (sz div cs) + sz mod cs" by simp
    have r: "0 \<le> sz mod cs" "sz mod cs < cs" using assms(1) by simp_all
    have "sz + cs - 1 = cs * (sz div cs) + (sz mod cs + cs - 1)" using sz by linarith
    then have "(sz + cs - 1) div cs = sz div cs + (sz mod cs + cs - 1) div cs"
      using assms(1) by (metis div_mult_self2 less_irrefl add.commute)
    moreover have "(sz mod cs + cs - 1) div cs = (if sz mod cs \<noteq> 0 then 1 else 0)"
    proof (cases "sz mod cs = 0")
      case False
      have "(sz mod cs - 1) div cs = 0" using r False by (intro div_pos_pos_trivial) linarith+
      moreover have "(cs + (sz mod cs - 1)) div cs = (sz mod cs - 1) div cs + 1"
        using assms(1) by (intro div_add_self1) simp
      moreover have eq: "sz mod cs + cs - 1 = cs + (sz mod cs - 1)" by simp
      ultimately have "(sz mod cs + cs - 1) div cs = 1" unfolding eq by (simp only: add_0)
      with False show ?thesis by simp
    qed (use assms(1) in simp)
    ultimately show ?thesis by simp
  qed
  finally show ?thesis .
qed

lemma expectedChunkSize_pieces:
  assumes "0 < fr_ChunkSize file" and "int (length data) = fr_Size file" and "fr_Size file \<le> max_int64"
    and count: "fr_ChunkCount file = int (length (pieces (nat (fr_ChunkSize file)) data))"
    and i: "i < length (pieces (nat (fr_ChunkSize file)) data)"
  shows "expectedChunkSize file (int i) = Inr (int (length (pieces (nat (fr_ChunkSize file)) data ! i)))"
proof -
  define cs where "cs = nat (fr_ChunkSize file)"
  then have cs: "0 < cs" "fr_ChunkSize file = int cs" using assms(1) by simp_all
  define n where "n = length (pieces cs data)"
  have len: "length (pieces cs data ! i) = min cs (length data - i * cs)"
    using i by (intro pieces_length) (simp_all add: cs)
  have n: "n = (length data + cs - 1) div cs" using cs by (simp add: n_def length_pieces)
  have i_n: "i < n" using i by (simp add: n_def cs)
  then have "Suc i \<le> (length data + cs - 1) div cs" by (simp add: n)
  then have "Suc i * cs \<le> length data + cs - 1" using cs(1) by (simp add: less_eq_div_iff_mult_less_eq)
  then have lower: "i * cs < length data" using cs(1) by simp
  then have lt: "int i * int cs < int (length data)" by (metis of_nat_less_iff of_nat_mult)
  have "0 \<le> int i * int cs" by simp
  then have in64: "in64 (int i * int cs)" "in64 (int (length data) - int i * int cs)"
    using lt assms(2,3) unfolding in64_def by linarith+
  show ?thesis
  proof (cases "i + 1 < n")
    case True
    then have "Suc (Suc i) \<le> (length data + cs - 1) div cs" by (simp add: n)
    then have "Suc (Suc i) * cs \<le> length data + cs - 1" using cs(1) by (simp add: less_eq_div_iff_mult_less_eq)
    then have "i * cs + cs \<le> length data" using cs(1) by simp
    then have "length (pieces cs data ! i) = cs" using len by simp
    moreover have "\<not> int n \<le> int i" "int i < int n - 1" using True by simp_all
    ultimately show ?thesis
      using cs assms(2) count by (simp add: expectedChunkSize_def n_def [symmetric] cs_def [symmetric])
  next
    case False
    with i_n have "Suc i = n" by simp
    then have "(length data + cs - 1) div cs < Suc (Suc i)" by (simp add: n)
    then have "length data + cs - 1 < Suc (Suc i) * cs" using cs(1) by (simp add: div_less_iff_less_mult)
    then have "length data \<le> i * cs + cs" by simp
    then have "length (pieces cs data ! i) = length data - i * cs" using len by simp
    moreover have "\<not> int n \<le> int i" "\<not> int i < int n - 1" using \<open>Suc i = n\<close> by simp_all
    ultimately show ?thesis
      using cs assms(2) count in64 lower
      by (simp add: expectedChunkSize_def n_def [symmetric] cs_def [symmetric] of_nat_diff less_imp_le
          flip: assms(2))
  qed
qed

text \<open>
  The sender's manifest and the Node's arithmetic agree: for a file that passes the Node's
  validation of a transfer request, the manifest built from its bytes with the declared chunk size
  has exactly the declared number of chunks, and the size the Node expects of each uploaded chunk,
  computed in 64-bit integers, is the size of that chunk in the manifest, for every index.
\<close>

theorem expectedChunkSize_manifest:
  assumes "validFile f" and "BuildManifest sha r (tf_ChunkSize f) = Some (Inr m)"
    and "int (length (rd_data r)) = tf_Size f" and "in64 (tf_Size f)"
    and "fr_Size file = tf_Size f" and "fr_ChunkSize file = tf_ChunkSize f" and "fr_ChunkCount file = tf_ChunkCount f"
  shows "int (length (mf_Chunks m)) = fr_ChunkCount file \<and>
    expectedChunkSize file (fr_ChunkCount file) = Inl ErrInvalid \<and>
    (\<forall>i < length (mf_Chunks m). expectedChunkSize file (int i) = Inr (ck_Size (mf_Chunks m ! i)))"
proof -
  note m = BuildManifest_pieces [OF assms(2)]
  have f: "0 \<le> tf_Size f" "0 < tf_ChunkSize f" "tf_ChunkCount f = expectedChunkCount f"
    using assms(1) by (auto simp: validFile_def Let_def)
  have count: "fr_ChunkCount file = int (length (pieces (nat (fr_ChunkSize file)) (rd_data r)))"
    using pieces_count [of "tf_ChunkSize f" "rd_data r" "tf_Size f"] f assms(3,6,7)
    by (simp add: expectedChunkCount_def)
  have "expectedChunkSize file (int i) = Inr (ck_Size (mf_Chunks m ! i))" if "i < length (mf_Chunks m)" for i
    using expectedChunkSize_pieces [OF _ _ _ count, of i] that m f assms(3-6)
    by (simp add: chunks_of_nth in64_def)
  with count m assms(6) show ?thesis by (simp add: expectedChunkSize_def)
qed

theorem expectedChunkSize_manifest_witness:
  "\<exists>m. BuildManifest rev \<lparr>rd_data = replicate 250 CHR ''a'', rd_fails = False\<rparr> 100 = Some (Inr m) \<and>
     int (length (mf_Chunks m)) = 3 \<and>
     expectedChunkSize \<lparr>fr_ID = ''f'', fr_TransferID = ''t1'', fr_Size = 250, fr_SHA256 = '''', fr_ChunkSize = 100,
       fr_ChunkCount = 3, fr_Status = ''UPLOADING'', fr_StoragePath = ''''\<rparr> 2 = Inr (ck_Size (mf_Chunks m ! 2))"
proof -
  let ?r = "\<lparr>rd_data = replicate 250 CHR ''a'', rd_fails = False\<rparr>"
  let ?file = "\<lparr>fr_ID = ''f'', fr_TransferID = ''t1'', fr_Size = 250, fr_SHA256 = '''', fr_ChunkSize = 100,
       fr_ChunkCount = 3, fr_Status = ''UPLOADING'', fr_StoragePath = ''''\<rparr>"
  have f: "tf_Size (example_file 250) = 250" "tf_ChunkSize (example_file 250) = 100" "tf_ChunkCount (example_file 250) = 3"
    by (simp_all add: example_file_def)
  have valid: "validFile (example_file 250)" by code_simp
  obtain m where m: "BuildManifest rev ?r 100 = Some (Inr m)"
    by (simp add: BuildManifest_def manifest_loop_result)
  then have "BuildManifest rev ?r (tf_ChunkSize (example_file 250)) = Some (Inr m)" by (simp only: f)
  from expectedChunkSize_manifest [OF valid this, of ?file]
  have "int (length (mf_Chunks m)) = 3" "\<forall>i < length (mf_Chunks m). expectedChunkSize ?file (int i) = Inr (ck_Size (mf_Chunks m ! i))"
    by (simp_all add: f in64_def)
  from this(1) this(2) [rule_format, of 2] m show ?thesis by auto
qed

section \<open>Where chunks lie on the disk\<close>

definition chunk_file :: "string \<Rightarrow> string \<Rightarrow> int \<Rightarrow> string \<Rightarrow> string" where
  "chunk_file root fileID index digest = filepath_Join [chunk_directory root fileID, chunk_name index digest]"

text \<open>A storage root as \<open>NewService\<close> yields it, other than the file system's own root.\<close>

definition storage_root :: "string \<Rightarrow> bool" where
  "storage_root root \<longleftrightarrow> (\<exists>ws. root = abs_path ws \<and> list_all plain_segment ws \<and> ws \<noteq> [])"

lemma not_hex: "hex_value slash = None" "\<not> is_digit slash" "\<not> is_digit CHR ''.''"
  by code_simp+

lemma chunk_name_plain [simp]: "plain_segment (chunk_name i d)"
  using Itoa_free [of slash i] hex_encode_free [of slash d] not_hex
  by (cases "Itoa i") (auto simp: plain_segment_def chunk_name_def)

lemma chunk_name_inject:
  assumes "0 \<le> i" and "0 \<le> j" and "chunk_name i d = chunk_name j e"
  shows "i = j"
proof -
  have free: "CHR ''-'' \<notin> set (Itoa k)" if "0 \<le> k" for k
    using that nat_digits_digits [of "nat k"] by (auto simp: Itoa_def list_all_iff byte_in_def code_def)
  have "cut_at CHR ''-'' (chunk_name k f) = Some (Itoa k, hex_encode f @ ''.chunk'')" if "0 \<le> k" for k f
    using cut_at_append [OF free [OF that]] by (simp add: chunk_name_def)
  with assms have "Itoa i = Itoa j" by (metis fst_conv option.inject)
  with assms(1,2) show ?thesis by (simp add: Itoa_def nat_digits_inject eq_nat_nat_iff)
qed

lemma chunk_directory_abs:
  assumes "list_all plain_segment ws" and "ws \<noteq> []" and "plain_segment f"
  shows "chunk_directory (abs_path ws) f = abs_path (ws @ [''chunks'', f])"
  unfolding chunk_directory_def using assms by (intro filepath_Join_abs) (simp_all add: plain_segment_def)

lemma chunk_file_abs:
  assumes "list_all plain_segment ws" and "ws \<noteq> []" and "plain_segment f"
  shows "chunk_file (abs_path ws) f i d = abs_path (ws @ [''chunks'', f, chunk_name i d])"
  unfolding chunk_file_def chunk_directory_abs [OF assms] using assms
  by (subst filepath_Join_abs) (simp_all add: plain_segment_def [of "''chunks''"])

lemma chunk_file_inject:
  assumes "storage_root root" and "plain_segment f" and "plain_segment g" and "0 \<le> i" and "0 \<le> j"
    and "chunk_file root f i d = chunk_file root g j e"
  shows "f = g \<and> i = j"
proof -
  obtain ws where ws: "root = abs_path ws" "list_all plain_segment ws" "ws \<noteq> []"
    using assms(1) by (auto simp: storage_root_def)
  have "ws @ [''chunks'', f, chunk_name i d] = ws @ [''chunks'', g, chunk_name j e]"
    using assms(2,3,6) ws by (intro abs_path_inject) (simp_all add: chunk_file_abs, simp_all add: plain_segment_def)
  then show ?thesis using chunk_name_inject assms(4,5) by auto
qed

lemma upload_temporary_apart:
  assumes "storage_root root" and "plain_segment f" and "plain_segment g" and "slash \<notin> set rnd"
  shows "chunk_file root g i d \<noteq> upload_temporary (chunk_directory root f) rnd"
proof
  assume eq: "chunk_file root g i d = upload_temporary (chunk_directory root f) rnd"
  obtain ws where ws: "root = abs_path ws" "list_all plain_segment ws" "ws \<noteq> []"
    using assms(1) by (auto simp: storage_root_def)
  have "upload_temporary (chunk_directory root f) rnd = abs_path (ws @ [''chunks'', f, ''.upload-'' @ rnd])"
    using abs_path_append [of "ws @ [''chunks'', f]" "''.upload-'' @ rnd"] ws assms(2)
    by (simp add: upload_temporary_def chunk_directory_abs)
  with eq have "ws @ [''chunks'', g, chunk_name i d] = ws @ [''chunks'', f, ''.upload-'' @ rnd]"
    using assms(2-4) ws
    by (intro abs_path_inject) (simp_all add: chunk_file_abs, simp_all add: plain_segment_def)
  then have "CHR ''.'' = hd (Itoa i)" by (cases "Itoa i") (simp_all add: chunk_name_def)
  then show False using Itoa_free [of "CHR ''.''" i] not_hex by (cases "Itoa i") auto
qed

section \<open>The chunk store\<close>

text \<open>
  The invariant of tables and disk: every recorded chunk lies at its own path with the recorded
  size and digest, and no two rows have the same file and index.
\<close>

definition chunk_ok :: "(string \<Rightarrow> string) \<Rightarrow> string \<Rightarrow> disk \<Rightarrow> ChunkRecord \<Rightarrow> bool" where
  "chunk_ok sha root disk c \<longleftrightarrow> plain_segment (cr_FileID c) \<and> 0 \<le> cr_Index c \<and>
     cr_StoragePath c = chunk_file root (cr_FileID c) (cr_Index c) (cr_SHA256 c) \<and>
     (case disk (cr_StoragePath c) of None \<Rightarrow> False
      | Some data \<Rightarrow> int (length data) = cr_Size c \<and> sha data = cr_SHA256 c)"

definition store_ok :: "(string \<Rightarrow> string) \<Rightarrow> string \<Rightarrow> file_tables \<times> disk \<Rightarrow> bool" where
  "store_ok sha root s \<longleftrightarrow> list_all (chunk_ok sha root (snd s)) (ft_chunks (fst s)) \<and>
     distinct (map chunk_key (ft_chunks (fst s)))"

text \<open>The abstract store: the bytes of each chunk of each file, by file and index.\<close>

definition content :: "file_tables \<times> disk \<Rightarrow> string \<times> int \<Rightarrow> string option" where
  "content s k = (case chunk_at (fst s) k of None \<Rightarrow> None | Some c \<Rightarrow> snd s (cr_StoragePath c))"

lemma chunk_at_SomeD: "chunk_at st k = Some c \<Longrightarrow> c \<in> set (ft_chunks st) \<and> chunk_key c = k"
  unfolding chunk_at_def by (drule find_SomeD) simp

lemma chunk_ok_at: "store_ok sha root (st, disk) \<Longrightarrow> chunk_at st k = Some c \<Longrightarrow> chunk_ok sha root disk c"
  by (auto simp: store_ok_def list_all_iff dest: chunk_at_SomeD)

lemma chunk_at_iff:
  assumes "store_ok sha root (st, disk)"
  shows "chunk_at st k = Some c \<longleftrightarrow> c \<in> set (ft_chunks st) \<and> chunk_key c = k"
proof
  assume c: "c \<in> set (ft_chunks st) \<and> chunk_key c = k"
  have "distinct (map chunk_key (ft_chunks st))" using assms by (simp add: store_ok_def)
  then show "chunk_at st k = Some c"
    unfolding chunk_at_def using c by (intro find_unique) (auto intro: distinct_keyD)
qed (rule chunk_at_SomeD)

text \<open>Changing the disk away from the recorded chunks changes nothing.\<close>

lemma store_ok_disk:
  assumes "store_ok sha root (st, disk)"
    and "\<And>c. c \<in> set (ft_chunks st) \<Longrightarrow> disk' (cr_StoragePath c) = disk (cr_StoragePath c)"
  shows "store_ok sha root (st, disk') \<and> content (st, disk') = content (st, disk)"
proof -
  have "list_all (chunk_ok sha root disk') (ft_chunks st)"
    using assms by (auto simp: store_ok_def list_all_iff chunk_ok_def)
  moreover have "content (st, disk') = content (st, disk)"
    using assms(2) by (auto simp: content_def fun_eq_iff dest: chunk_at_SomeD split: option.split)
  ultimately show ?thesis using assms(1) by (simp add: store_ok_def)
qed

lemma store_ok_path:
  "store_ok sha root (st, disk) \<Longrightarrow> c \<in> set (ft_chunks st) \<Longrightarrow> plain_segment (cr_FileID c) \<and> 0 \<le> cr_Index c \<and>
     cr_StoragePath c = chunk_file root (cr_FileID c) (cr_Index c) (cr_SHA256 c)"
  by (auto simp: store_ok_def list_all_iff chunk_ok_def)

lemma remove_temporary:
  assumes "store_ok sha root (st, disk)" and "storage_root root" and "plain_segment f" and "slash \<notin> set rnd"
  defines "disk' \<equiv> disk(upload_temporary (chunk_directory root f) rnd := None)"
  shows "store_ok sha root (st, disk') \<and> content (st, disk') = content (st, disk)"
proof (rule store_ok_disk [OF assms(1)])
  fix c assume "c \<in> set (ft_chunks st)"
  with upload_temporary_apart [OF assms(2,3) _ assms(4)] store_ok_path [OF assms(1) this]
  show "disk' (cr_StoragePath c) = disk (cr_StoragePath c)" by (auto simp: disk'_def)
qed

text \<open>Recording a new chunk whose bytes lie at its path extends the abstract store by them.\<close>

lemma insert_chunk_ok:
  assumes "store_ok sha root (st, disk)" and "storage_root root" and "chunk_at st (chunk_key c) = None"
    and "plain_segment (cr_FileID c)" and "0 \<le> cr_Index c" and "int (length data) = cr_Size c" and "sha data = cr_SHA256 c"
    and path: "cr_StoragePath c = chunk_file root (cr_FileID c) (cr_Index c) (cr_SHA256 c)"
  defines "s' \<equiv> (insert_chunk c st, disk(cr_StoragePath c \<mapsto> data))"
  shows "store_ok sha root s' \<and> content s' = (content (st, disk))(chunk_key c \<mapsto> data)"
proof -
  have apart: "cr_StoragePath c' \<noteq> cr_StoragePath c" if c': "c' \<in> set (ft_chunks st)" for c'
  proof
    assume "cr_StoragePath c' = cr_StoragePath c"
    then have "chunk_key c' = chunk_key c"
      using chunk_file_inject [OF assms(2) _ assms(4) _ assms(5)] store_ok_path [OF assms(1) c'] path
      by (auto simp: chunk_key_def)
    then have "chunk_at st (chunk_key c) = Some c'" using chunk_at_iff [OF assms(1)] c' by blast
    with assms(3) show False by simp
  qed
  let ?disk = "disk(cr_StoragePath c \<mapsto> data)"
  have same: "store_ok sha root (st, ?disk)" "content (st, ?disk) = content (st, disk)"
    using store_ok_disk [OF assms(1), of ?disk] apart by auto
  have "chunk_ok sha root ?disk c" using assms(4-7) path by (simp add: chunk_ok_def)
  moreover have "chunk_key c \<notin> chunk_key ` set (ft_chunks st)"
    using assms(3) by (metis chunk_at_iff [OF assms(1)] imageE option.distinct(1))
  ultimately have "store_ok sha root s'"
    using same(1) by (auto simp: store_ok_def s'_def insert_chunk_def)
  moreover have "content s' k = ((content (st, disk))(chunk_key c \<mapsto> data)) k" for k
    using assms(3) fun_cong [OF same(2), of k] chunks.lookup_insert [OF assms(3), of k]
    by (auto simp: s'_def content_def split: option.splits if_splits)
  ultimately show ?thesis by blast
qed

lemma receive_chunk_Inr:
  assumes "receive_chunk sha root rnd fault r f i expected n disk = (disk', Inr (path, written, digest))"
  shows "\<exists>data. int (length data) = n \<and> sha data = expected \<and> written = n \<and> digest = expected \<and>
    path = chunk_file root f i expected \<and>
    disk' = (disk(upload_temporary (chunk_directory root f) rnd := None))(path \<mapsto> data) \<and>
    data = rd_data (io_LimitReader r (i64 (n + 1)))"
  using assms by (auto simp: receive_chunk_def Let_def io_Copy_def chunk_file_def split: if_splits)

lemma receive_chunk_Inl:
  "receive_chunk sha root rnd fault r f i expected n disk = (disk', Inl e) \<Longrightarrow>
     disk' = disk \<or> disk' = disk(upload_temporary (chunk_directory root f) rnd := None)"
  by (auto simp: receive_chunk_def Let_def io_Copy_def split: if_splits)

text \<open>An upload that has been prepared can be recorded.\<close>

lemma prepared_records:
  assumes "PrepareChunkUpload st session f i = Inr (file, None)" and "cr_FileID c = f" and "cr_Index c = i"
  shows "RecordChunk st session c = (insert_chunk c st, Inr ()) \<and> chunk_at st (chunk_key c) = None"
proof -
  obtain row where row: "find (\<lambda>r. own_file (ft_db st) session f r \<and> file_status r = ''UPLOADING'' \<and>
      node_target (ft_db st) f) (db_files (ft_db st)) = Some row" and none: "chunk_row st f i = None"
    using assms(1) by (auto simp: PrepareChunkUpload_def split: option.splits)
  have "list_ex (\<lambda>r. own_file (ft_db st) session f r \<and> file_status r = ''UPLOADING'') (db_files (ft_db st))"
    using find_SomeD [OF row] by (auto simp: list_ex_iff)
  then show ?thesis
    using none assms(2,3) by (simp add: RecordChunk_def insert_chunk_def chunk_row_at chunk_key_def)
qed

text \<open>
  C11. An upload refines the insertion of a chunk into an abstract store of chunk contents. On
  tables and a disk where every recorded chunk lies at its path with its size and digest, any
  upload, whatever its reader delivers, whichever check refuses it and whichever system call fails,
  keeps that invariant; when it fails, no chunk has changed, and when it succeeds, the chunk holds
  bytes with the digest the client announced: those received, or, for a chunk that was already
  stored, those it had, with nothing written.
\<close>

theorem UploadChunk_refines:
  assumes "store_ok sha root s" and "storage_root root" and "plain_segment f" and "slash \<notin> set rnd"
    and upload: "UploadChunk sha root rnd fault now s session f i expected reader = (s', out)"
  shows "store_ok sha root s' \<and> ft_db (fst s') = ft_db (fst s) \<and>
    (case out of
       Inl e \<Rightarrow> content s' = content s
     | Inr c \<Rightarrow> chunk_key c = (f, i) \<and> cr_SHA256 c = expected \<and>
         (\<exists>data. content s' = (content s)((f, i) \<mapsto> data) \<and> sha data = expected \<and> int (length data) = cr_Size c \<and>
           (if content s (f, i) = None then reader \<noteq> None \<and> HasPrefix (rd_data (the reader)) data else s' = s)))"
proof -
  obtain st disk where s: "s = (st, disk)" by (cases s)
  note ok = assms(1) [unfolded s]
  consider "s' = s" "\<exists>e. out = Inl e"
    | c fl where "PrepareChunkUpload st session f i = Inr (fl, Some c)" "cr_SHA256 c = expected" "s' = s" "out = Inr c"
    | r n disk' e where "receive_chunk sha root rnd fault r f i expected n disk = (disk', Inl e)"
        "s' = (st, disk')" "out = Inl e"
    | r fl n disk' path written digest where "reader = Some r" "PrepareChunkUpload st session f i = Inr (fl, None)"
        "0 \<le> i" "receive_chunk sha root rnd fault r f i expected n disk = (disk', Inr (path, written, digest))"
        "(s', out) = record_published st disk' session \<lparr>cr_FileID = f, cr_Index = i, cr_Size = written,
                         cr_SHA256 = digest, cr_StoragePath = path, cr_CompletedAt = now\<rparr>"
    using upload unfolding UploadChunk_def s Let_def
    by (auto split: option.splits if_splits sum.splits prod.splits)
  then show ?thesis
  proof cases
    case 1
    then show ?thesis using assms(1) by auto
  next
    case 2
    then have c: "chunk_at st (f, i) = Some c"
      by (auto simp: PrepareChunkUpload_def chunk_row_at split: option.splits)
    then obtain data where "disk (cr_StoragePath c) = Some data" "int (length data) = cr_Size c" "sha data = expected"
      using chunk_ok_at [OF ok c] 2 by (auto simp: chunk_ok_def split: option.splits)
    with c 2 assms(1) chunk_at_SomeD [OF c] show ?thesis
      by (auto simp: content_def s fun_upd_idem_iff intro!: exI [of _ data])
  next
    case 3
    then show ?thesis
      using receive_chunk_Inl [OF 3(1)] remove_temporary [OF ok assms(2-4)] ok by (auto simp: s)
  next
    case 4
    let ?c = "\<lparr>cr_FileID = f, cr_Index = i, cr_Size = written, cr_SHA256 = digest, cr_StoragePath = path, cr_CompletedAt = now\<rparr>"
    let ?disk = "disk(upload_temporary (chunk_directory root f) rnd := None)"
    obtain data where data: "int (length data) = n" "sha data = expected" "written = n" "digest = expected"
      "path = chunk_file root f i expected" "disk' = ?disk(path \<mapsto> data)"
      "data = rd_data (io_LimitReader r (i64 (n + 1)))"
      using receive_chunk_Inr [OF 4(4)] by blast
    have rec: "RecordChunk st session ?c = (insert_chunk ?c st, Inr ())" and free: "chunk_at st (chunk_key ?c) = None"
      using prepared_records [OF 4(2), of ?c] by simp_all
    then have s': "s' = (insert_chunk ?c st, disk')" "out = Inr ?c" using 4(5) by (simp_all add: record_published_def)
    note tmp = remove_temporary [OF ok assms(2-4)]
    have "store_ok sha root s' \<and> content s' = (content (st, ?disk))(chunk_key ?c \<mapsto> data)"
      using insert_chunk_ok [OF conjunct1 [OF tmp] assms(2) free, of data] data 4(3) assms(3) s' by simp
    moreover have "content s (f, i) = None" using free by (simp add: content_def s chunk_key_def)
    moreover have "HasPrefix (rd_data r) data"
      unfolding data(7) io_LimitReader_def HasPrefix_iff by (metis append_take_drop_id Reader.select_convs(1))
    ultimately show ?thesis
      using s' data 4(1) tmp by (auto simp: s chunk_key_def insert_chunk_def)
  qed
qed

section \<open>Completion\<close>

lemma final_path_abs:
  assumes "list_all plain_segment ws" and "ws \<noteq> []" and "plain_segment f"
  shows "final_path (abs_path ws) f = abs_path (ws @ [''files'', f])"
proof -
  have "filepath_Join [abs_path ws, ''files''] = abs_path (ws @ [''files''])"
    using assms(1,2) by (intro filepath_Join_abs) (simp_all add: plain_segment_def)
  moreover have "filepath_Join [abs_path (ws @ [''files'']), f] = abs_path ((ws @ [''files'']) @ [f])"
    using assms by (intro filepath_Join_abs) (simp_all, simp add: plain_segment_def)
  ultimately show ?thesis by (simp add: final_path_def)
qed

lemma final_apart:
  assumes "storage_root root" and "plain_segment f" and "plain_segment g"
  shows "chunk_file root g i d \<noteq> final_path root f"
proof
  assume eq: "chunk_file root g i d = final_path root f"
  obtain ws where ws: "root = abs_path ws" "list_all plain_segment ws" "ws \<noteq> []"
    using assms(1) by (auto simp: storage_root_def)
  have "ws @ [''chunks'', g, chunk_name i d] = ws @ [''files'', f]"
    using assms(2,3) ws eq
    by (intro abs_path_inject) (simp_all add: chunk_file_abs final_path_abs, simp_all add: plain_segment_def)
  then show False by simp
qed

lemma assemble_temporary_abs:
  assumes "storage_root root" and "slash \<notin> set rnd"
  shows "assemble_temporary root rnd = final_path root (''.assemble-'' @ rnd) \<and> plain_segment (''.assemble-'' @ rnd)"
proof -
  obtain ws where ws: "root = abs_path ws" "list_all plain_segment ws" "ws \<noteq> []"
    using assms(1) by (auto simp: storage_root_def)
  have plain: "plain_segment (''.assemble-'' @ rnd)" using assms(2) by (simp add: plain_segment_def)
  have "filepath_Join [abs_path ws, ''files''] = abs_path (ws @ [''files''])"
    using ws by (intro filepath_Join_abs) (simp_all add: plain_segment_def)
  then have "assemble_temporary root rnd = abs_path (ws @ [''files'', ''.assemble-'' @ rnd])"
    using abs_path_append [of "ws @ [''files'']" "''.assemble-'' @ rnd"] by (simp add: assemble_temporary_def ws(1))
  with plain show ?thesis using final_path_abs [OF ws(2,3) plain] ws(1) by simp
qed

lemma final_path_inject:
  assumes "storage_root root" and "plain_segment f" and "plain_segment g" and "final_path root f = final_path root g"
  shows "f = g"
proof -
  obtain ws where ws: "root = abs_path ws" "list_all plain_segment ws" "ws \<noteq> []"
    using assms(1) by (auto simp: storage_root_def)
  have "ws @ [''files'', f] = ws @ [''files'', g]"
    using assms(2-4) ws by (intro abs_path_inject) (simp_all add: final_path_abs, simp_all add: plain_segment_def)
  then show ?thesis by simp
qed

text \<open>Writing under the directory of complete files leaves the chunks alone.\<close>

lemma chunk_apart:
  assumes "store_ok sha root (st, disk)" and "storage_root root" and "plain_segment f" and "slash \<notin> set rnd"
    and "c \<in> set (ft_chunks st)"
  shows "cr_StoragePath c \<noteq> final_path root f \<and> cr_StoragePath c \<noteq> assemble_temporary root rnd"
proof -
  have "cr_StoragePath c \<noteq> final_path root g" if "plain_segment g" for g
    using store_ok_path [OF assms(1,5)] final_apart [OF assms(2) that] by simp
  then show ?thesis using assemble_temporary_abs [OF assms(2,4)] assms(3) by simp
qed

lemma write_final:
  assumes "store_ok sha root (st, disk)" and "storage_root root" and "plain_segment f" and "slash \<notin> set rnd"
  shows "store_ok sha root (st, disk(assemble_temporary root rnd := None)) \<and>
      content (st, disk(assemble_temporary root rnd := None)) = content (st, disk)"
    and "store_ok sha root (st, disk(assemble_temporary root rnd := None, final_path root f := x)) \<and>
      content (st, disk(assemble_temporary root rnd := None, final_path root f := x)) = content (st, disk)"
proof -
  note apart = chunk_apart [OF assms]
  show "store_ok sha root (st, disk(assemble_temporary root rnd := None)) \<and>
      content (st, disk(assemble_temporary root rnd := None)) = content (st, disk)"
    using apart by (intro store_ok_disk [OF assms(1)]) auto
  show "store_ok sha root (st, disk(assemble_temporary root rnd := None, final_path root f := x)) \<and>
      content (st, disk(assemble_temporary root rnd := None, final_path root f := x)) = content (st, disk)"
    using apart by (intro store_ok_disk [OF assms(1)]) auto
qed

definition file_chunks :: "file_tables \<Rightarrow> string \<Rightarrow> ChunkRecord list" where
  "file_chunks st f = SliceStable (\<lambda>c d. cr_Index c < cr_Index d) (filter (\<lambda>c. cr_FileID c = f) (ft_chunks st))"

lemma file_chunks_at:
  assumes "store_ok sha root (st, disk)" and "c \<in> set (file_chunks st f)"
  shows "cr_FileID c = f \<and> chunk_at st (f, cr_Index c) = Some c"
  using assms chunk_at_iff [OF assms(1)] by (auto simp: file_chunks_def chunk_key_def)

lemma assemble_Inr:
  assumes "assemble sha fault disk (int k) w cs = Inr bytes"
    and "\<And>c. c \<in> set cs \<Longrightarrow> cr_FileID c = f \<and> chunk_at st (f, cr_Index c) = Some c"
  shows "bytes = w @ concat (map (\<lambda>i. the (content (st, disk) (f, int i))) [k..<k + length cs]) \<and>
    list_all (\<lambda>i. content (st, disk) (f, int i) \<noteq> None) [k..<k + length cs]"
  using assms
proof (induction cs arbitrary: k w)
  case (Cons c cs)
  then obtain data where data: "cr_Index c = int k" "disk (cr_StoragePath c) = Some data"
    "assemble sha fault disk (int (Suc k)) (w @ data) cs = Inr bytes"
    by (auto split: if_splits option.splits simp: add.commute)
  have "chunk_at st (f, int k) = Some c" using Cons.prems(2) [of c] data(1) by simp
  then have "content (st, disk) (f, int k) = Some data" using data(2) by (simp add: content_def)
  moreover have "[k..<k + length (c # cs)] = k # [Suc k..<Suc k + length cs]"
    using upt_conv_Cons [of k "k + length (c # cs)"] by simp
  ultimately show ?case using Cons.IH [OF data(3)] Cons.prems(2) by simp
qed simp

lemma PrepareFileCompletion_Inr:
  "PrepareFileCompletion st session f = Inr (file, cs) \<longleftrightarrow>
     (\<exists>row. find (\<lambda>f'. own_file (ft_db st) session f f' \<and>
        (file_status f' = ''UPLOADING'' \<or> file_status f' = ''AVAILABLE_ON_NODE'')) (db_files (ft_db st)) = Some row \<and>
      file = file_record row \<and> cs = file_chunks st f)"
  by (auto simp: PrepareFileCompletion_def file_chunks_def split: option.splits)

text \<open>In a sequence of operations a file that was found uploading can be completed.\<close>

lemma prepared_completes:
  assumes "PrepareFileCompletion st session f = Inr (file, cs)" and "fr_Status file \<noteq> ''AVAILABLE_ON_NODE''"
  shows "\<exists>db. CompleteFile request st session f path at = (st\<lparr>ft_db := db\<rparr>, Inr ()) \<and>
    db_files db = update_where (\<lambda>r. file_id r = f) (publish_row path at) (db_files (ft_db st))"
proof -
  obtain row where "row \<in> set (db_files (ft_db st))" "own_file (ft_db st) session f row" "file_status row = ''UPLOADING''"
    using assms by (auto simp: PrepareFileCompletion_Inr file_record_def dest!: find_SomeD)
  then have "find (\<lambda>f'. own_file (ft_db st) session f f' \<and> file_status f' = ''UPLOADING'') (db_files (ft_db st)) \<noteq> None"
    unfolding find_None_iff by blast
  then obtain y where "find (\<lambda>f'. own_file (ft_db st) session f f' \<and> file_status f' = ''UPLOADING'') (db_files (ft_db st)) = Some y"
    by blast
  moreover have "db_files (available_tables request t f path at (ft_db st)) =
      update_where (\<lambda>r. file_id r = f) (publish_row path at) (db_files (ft_db st))" for t
    by (simp add: available_tables_def insertTransferTimelineEvent_def)
  ultimately show ?thesis by (auto simp: CompleteFile_def)
qed

lemma content_ft_db [simp]: "content (st\<lparr>ft_db := db\<rparr>, disk) = content (st, disk)"
  by (simp add: content_def chunk_at_def fun_eq_iff split: option.split)

lemma store_ok_ft_db [simp]: "store_ok sha root (st\<lparr>ft_db := db\<rparr>, disk) = store_ok sha root (st, disk)"
  by (simp add: store_ok_def)

text \<open>
  C12. Completing a file refines reading the abstract chunk store: it never changes a chunk. It
  succeeds only for a file of the sender that is available on the Node already, and then changes
  nothing and answers the row, or for one that is still uploading. In the second case every
  chunk from 0 up to the declared count is there, their concatenation has the declared digest of
  the whole file, exactly those bytes lie at the published path, and the row is updated: it is
  available on the Node, at that path, completed now, and the other rows of files are as before. When it fails, by itself and on its own (no other
  completion in between), the tables and whatever was published for the file are as before.
\<close>

theorem Complete_refines:
  assumes "store_ok sha root s" and "storage_root root" and "plain_segment f" and "CHR ''.'' \<notin> set f" and "slash \<notin> set rnd"
    and complete: "Complete sha root rnd fault request now s session f = (s', out)"
  shows "store_ok sha root s' \<and> content s' = content s \<and>
    (case out of
       Inl e \<Rightarrow> fst s' = fst s \<and> snd s' (final_path root f) = snd s (final_path root f)
     | Inr file \<Rightarrow> \<exists>row \<in> set (db_files (ft_db (fst s))). own_file (ft_db (fst s)) session f row \<and>
         (file_status row = ''AVAILABLE_ON_NODE'' \<and> file = file_record row \<and> s' = s \<or>
          file_status row = ''UPLOADING'' \<and>
          file = (file_record row)\<lparr>fr_Status := ''AVAILABLE_ON_NODE'', fr_StoragePath := final_path root f\<rparr> \<and>
          ft_chunks (fst s') = ft_chunks (fst s) \<and>
          db_files (ft_db (fst s')) = update_where (\<lambda>r. file_id r = f)
            (\<lambda>r. r\<lparr>file_status := ''AVAILABLE_ON_NODE'', file_storage_path := final_path root f,
                   file_completed_at := Some now\<rparr>) (db_files (ft_db (fst s))) \<and>
          (let bytes = concat (map (\<lambda>i. the (content s (f, int i))) [0..<nat (file_chunk_count row)])
           in list_all (\<lambda>i. content s (f, int i) \<noteq> None) [0..<nat (file_chunk_count row)] \<and>
              sha bytes = file_sha256 row \<and> snd s' (final_path root f) = Some bytes)))"
proof -
  obtain st disk where s: "s = (st, disk)" by (cases s)
  note ok = assms(1) [unfolded s]
  let ?tmp = "assemble_temporary root rnd" and ?final = "final_path root f"
  have apart: "?tmp \<noteq> ?final"
    using assemble_temporary_abs [OF assms(2,5)] final_path_inject [OF assms(2) _ assms(3), of "''.assemble-'' @ rnd"]
      assms(4) by auto
  consider "s' = s" "\<exists>e. out = Inl e" | "s' = (st, disk(?tmp := None))" "\<exists>e. out = Inl e"
    | fl cs where "s' = s" "out = Inr fl" "PrepareFileCompletion st session f = Inr (fl, cs)"
        "fr_Status fl = ''AVAILABLE_ON_NODE''"
    | fl cs bytes where "PrepareFileCompletion st session f = Inr (fl, cs)" "fr_Status fl \<noteq> ''AVAILABLE_ON_NODE''"
        "int (length cs) = fr_ChunkCount fl" "assemble sha fault disk 0 [] cs = Inr bytes" "sha bytes = fr_SHA256 fl"
        "(s', out) = (case CompleteFile request st session f ?final now of
               (st', Inl e) \<Rightarrow> ((st', disk(?tmp := None, ?final := None)), Inl e)
             | (st', Inr _) \<Rightarrow> ((st', disk(?tmp := None, ?final \<mapsto> bytes)),
                 Inr (fl\<lparr>fr_Status := ''AVAILABLE_ON_NODE'', fr_StoragePath := ?final\<rparr>)))"
    using complete unfolding Complete_def finish_completion_def s Let_def
    by (auto split: option.splits if_splits sum.splits prod.splits)
  then show ?thesis
  proof cases
    case 1
    then show ?thesis using assms(1) by auto
  next
    case 2
    then show ?thesis using write_final(1) [OF ok assms(2,3,5)] apart by (auto simp: s)
  next
    case 3
    obtain row where "row \<in> set (db_files (ft_db st))" "own_file (ft_db st) session f row" "fl = file_record row"
      using 3(3) by (auto simp: PrepareFileCompletion_Inr dest!: find_SomeD)
    moreover from this have "file_status row = ''AVAILABLE_ON_NODE''" using 3(4) by (simp add: file_record_def)
    ultimately show ?thesis using assms(1) 3(1,2) by (auto simp: s)
  next
    case 4
    obtain db where "CompleteFile request st session f ?final now = (st\<lparr>ft_db := db\<rparr>, Inr ())"
      and files: "db_files db = update_where (\<lambda>r. file_id r = f) (publish_row ?final now) (db_files (ft_db st))"
      using prepared_completes [OF 4(1,2)] by blast
    then have s': "s' = (st\<lparr>ft_db := db\<rparr>, disk(?tmp := None, ?final \<mapsto> bytes))"
      and out: "out = Inr (fl\<lparr>fr_Status := ''AVAILABLE_ON_NODE'', fr_StoragePath := ?final\<rparr>)"
      using 4(6) by simp_all
    obtain row where row: "row \<in> set (db_files (ft_db st))" "own_file (ft_db st) session f row"
        "file_status row = ''UPLOADING''" "fl = file_record row"
      using 4(1,2) by (auto simp: PrepareFileCompletion_Inr file_record_def dest!: find_SomeD)
    have cs: "cs = file_chunks st f" using 4(1) by (auto simp: PrepareFileCompletion_Inr)
    have "bytes = concat (map (\<lambda>i. the (content (st, disk) (f, int i))) [0..<length cs]) \<and>
        list_all (\<lambda>i. content (st, disk) (f, int i) \<noteq> None) [0..<length cs]"
      using assemble_Inr [of sha fault disk 0 "[]" cs bytes f st] 4(4) file_chunks_at [OF ok] cs by simp
    moreover have "length cs = nat (file_chunk_count row)" using 4(3) row(4) by (simp add: file_record_def)
    moreover have "file_sha256 row = sha bytes" using 4(5) row(4) by (simp add: file_record_def)
    moreover have "publish_row ?final now = (\<lambda>r. r\<lparr>file_status := ''AVAILABLE_ON_NODE'',
        file_storage_path := ?final, file_completed_at := Some now\<rparr>)"
      by (simp add: publish_row_def fun_eq_iff)
    ultimately have "file_status row = ''UPLOADING'' \<and>
        db_files (ft_db (fst s')) = update_where (\<lambda>r. file_id r = f)
          (\<lambda>r. r\<lparr>file_status := ''AVAILABLE_ON_NODE'', file_storage_path := ?final, file_completed_at := Some now\<rparr>)
          (db_files (ft_db (fst s))) \<and>
        (let bytes = concat (map (\<lambda>i. the (content s (f, int i))) [0..<nat (file_chunk_count row)])
         in list_all (\<lambda>i. content s (f, int i) \<noteq> None) [0..<nat (file_chunk_count row)] \<and>
            sha bytes = file_sha256 row \<and> snd s' ?final = Some bytes)"
      using files row(3) s' by (simp add: s Let_def)
    then have "\<exists>row \<in> set (db_files (ft_db (fst s))). own_file (ft_db (fst s)) session f row \<and>
         (file_status row = ''AVAILABLE_ON_NODE'' \<and> fl\<lparr>fr_Status := ''AVAILABLE_ON_NODE'', fr_StoragePath := ?final\<rparr> = file_record row \<and> s' = s \<or>
          file_status row = ''UPLOADING'' \<and>
          fl\<lparr>fr_Status := ''AVAILABLE_ON_NODE'', fr_StoragePath := ?final\<rparr> =
            (file_record row)\<lparr>fr_Status := ''AVAILABLE_ON_NODE'', fr_StoragePath := ?final\<rparr> \<and>
          ft_chunks (fst s') = ft_chunks (fst s) \<and>
          db_files (ft_db (fst s')) = update_where (\<lambda>r. file_id r = f)
            (\<lambda>r. r\<lparr>file_status := ''AVAILABLE_ON_NODE'', file_storage_path := ?final,
                   file_completed_at := Some now\<rparr>) (db_files (ft_db (fst s))) \<and>
          (let bytes = concat (map (\<lambda>i. the (content s (f, int i))) [0..<nat (file_chunk_count row)])
           in list_all (\<lambda>i. content s (f, int i) \<noteq> None) [0..<nat (file_chunk_count row)] \<and>
              sha bytes = file_sha256 row \<and> snd s' ?final = Some bytes))"
      using row(1,2,4) s' by (intro bexI [of _ row]) (simp_all add: s)
    then show ?thesis
      using write_final(2) [OF ok assms(2,3,5)] s' out by (simp add: s)
  qed
qed

section \<open>Uploading and completing a file\<close>

text \<open>
  A sender's run: chunks uploaded in the given order of indices, each from its own bytes, and the
  answers it gets.
\<close>

definition upload_piece ::
  "(string \<Rightarrow> string) \<Rightarrow> string \<Rightarrow> string \<Rightarrow> time \<Rightarrow> Session \<Rightarrow> string \<Rightarrow> string list \<Rightarrow> nat \<Rightarrow> file_tables \<times> disk \<Rightarrow> file_tables \<times> disk"
where
  "upload_piece sha root rnd now session f ps i s =
     fst (UploadChunk sha root rnd NoFault now s session f (int i) (sha (ps ! i)) (Some \<lparr>rd_data = ps ! i, rd_fails = False\<rparr>))"

fun upload_all ::
  "(string \<Rightarrow> string) \<Rightarrow> string \<Rightarrow> string \<Rightarrow> time \<Rightarrow> Session \<Rightarrow> string \<Rightarrow> string list \<Rightarrow> nat list \<Rightarrow> file_tables \<times> disk \<Rightarrow>
     (file_tables \<times> disk) \<times> (file_error + ChunkRecord) list"
where
  "upload_all sha root rnd now session f ps [] s = (s, [])"
| "upload_all sha root rnd now session f ps (i # order) s =
     (let (s1, answer) = UploadChunk sha root rnd NoFault now s session f (int i) (sha (ps ! i))
            (Some \<lparr>rd_data = ps ! i, rd_fails = False\<rparr>);
          (s2, answers) = upload_all sha root rnd now session f ps order s1
      in (s2, answer # answers))"

lemma upload_all_fold:
  "fst (upload_all sha root rnd now session f ps order s) = fold (upload_piece sha root rnd now session f ps) order s"
  by (induction order arbitrary: s) (simp_all add: upload_piece_def split_beta Let_def)

definition uploading :: "file_tables \<Rightarrow> Session \<Rightarrow> FileRow \<Rightarrow> bool" where
  "uploading st session row \<longleftrightarrow>
     find (\<lambda>r. own_file (ft_db st) session (file_id row) r \<and> file_status r = ''UPLOADING'') (db_files (ft_db st)) = Some row \<and>
     find (\<lambda>r. own_file (ft_db st) session (file_id row) r \<and>
        (file_status r = ''UPLOADING'' \<or> file_status r = ''AVAILABLE_ON_NODE'')) (db_files (ft_db st)) = Some row \<and>
     node_target (ft_db st) (file_id row)"

lemma uploading_prepared:
  assumes "uploading st session row"
  shows "PrepareChunkUpload st session (file_id row) i = Inr (file_record row, chunk_at st (file_id row, i))"
  using assms by (simp add: uploading_def PrepareChunkUpload_def chunk_row_at)

text \<open>What a recorded chunk holds, in terms of the abstract store.\<close>

lemma content_at:
  assumes "store_ok sha root s"
  shows "content s k = None \<longleftrightarrow> chunk_at (fst s) k = None"
    and "chunk_at (fst s) k = Some c \<Longrightarrow> content s k = Some data \<Longrightarrow>
      snd s (cr_StoragePath c) = Some data \<and> sha data = cr_SHA256 c \<and> int (length data) = cr_Size c"
  using chunk_ok_at [of sha root "fst s" "snd s" k] assms
  by (auto simp: content_def chunk_ok_def split: option.splits)

text \<open>An honest upload of the right size succeeds, and the chunk holds the bytes sent or already held.\<close>

lemma honest_upload:
  fixes now :: time
  assumes ok: "store_ok sha root s" and "storage_root root" and "plain_segment (file_id row)" and "slash \<notin> set rnd"
    and "uploading (fst s) session row" and "length (sha p) = 32" and "0 \<le> i"
    and "expectedChunkSize (file_record row) i = Inr (int (length p))" and "in64 (int (length p) + 1)"
    and "content s (file_id row, i) \<in> {None, Some p}"
  defines "r \<equiv> UploadChunk sha root rnd NoFault now s session (file_id row) i (sha p) (Some \<lparr>rd_data = p, rd_fails = False\<rparr>)"
  shows "(\<exists>c. snd r = Inr c \<and> cr_FileID c = file_id row \<and> cr_Index c = i \<and> cr_SHA256 c = sha p \<and>
      cr_Size c = int (length p)) \<and> store_ok sha root (fst r) \<and> ft_db (fst (fst r)) = ft_db (fst s) \<and>
    content (fst r) = (content s)((file_id row, i) \<mapsto> p)"
proof -
  obtain st disk where s: "s = (st, disk)" by (cases s)
  note prep = uploading_prepared [OF assms(5), of i, unfolded s fst_conv]
  have f: "file_id row \<noteq> ''''" using assms(3) by (simp add: plain_segment_def)
  show ?thesis
  proof (cases "chunk_at st (file_id row, i)")
    case (Some c)
    then have held: "content s (file_id row, i) = Some p" using assms(10) content_at(1) [OF ok, of "(file_id row, i)"] by (auto simp: s)
    then have c: "cr_SHA256 c = sha p" "cr_Size c = int (length p)"
      using content_at(2) [OF ok, of "(file_id row, i)" c p] Some by (simp_all add: s)
    have "chunk_key c = (file_id row, i)" using Some by (auto simp: chunk_at_def dest: find_SomeD)
    then have "cr_FileID c = file_id row" "cr_Index c = i" by (simp_all add: chunk_key_def)
    moreover have "r = (s, Inr c)" using f assms(6,7) prep Some c by (simp add: r_def UploadChunk_def s)
    ultimately show ?thesis using ok held c by (simp add: fun_upd_idem)
  next
    case None
    let ?path = "chunk_file root (file_id row) i (sha p)"
    let ?disk = "disk(upload_temporary (chunk_directory root (file_id row)) rnd := None)"
    let ?c = "\<lparr>cr_FileID = file_id row, cr_Index = i, cr_Size = int (length p), cr_SHA256 = sha p,
        cr_StoragePath = ?path, cr_CompletedAt = now\<rparr>"
    have "receive_chunk sha root rnd NoFault \<lparr>rd_data = p, rd_fails = False\<rparr> (file_id row) i (sha p) (int (length p)) disk =
        (?disk(?path \<mapsto> p), Inr (?path, int (length p), sha p))"
      using assms(9) by (simp add: receive_chunk_def io_Copy_def io_LimitReader_def chunk_file_def Let_def)
    moreover have "RecordChunk st session ?c = (insert_chunk ?c st, Inr ())" and free: "chunk_at st (chunk_key ?c) = None"
      using prepared_records [of st session "file_id row" i "file_record row" ?c] prep None by simp_all
    ultimately have r: "r = ((insert_chunk ?c st, ?disk(?path \<mapsto> p)), Inr ?c)"
      using f assms(6-8) prep None by (simp add: r_def UploadChunk_def record_published_def s)
    note tmp = remove_temporary [OF ok [unfolded s] assms(2-4)]
    show ?thesis
      using insert_chunk_ok [OF conjunct1 [OF tmp] assms(2) free, of p] assms(3,7) tmp r
      by (simp add: s chunk_key_def insert_chunk_def)
  qed
qed

lemma uploading_cong: "ft_db st' = ft_db st \<Longrightarrow> uploading st' session row = uploading st session row"
  by (simp add: uploading_def)

text \<open>Any order of uploads, with any repetitions.\<close>

lemma honest_uploads:
  fixes now :: time
  assumes "storage_root root" and "plain_segment (file_id row)" and "slash \<notin> set rnd" and "\<And>x. length (sha x) = 32"
    and "\<And>i. i < length ps \<Longrightarrow> expectedChunkSize (file_record row) (int i) = Inr (int (length (ps ! i))) \<and>
          in64 (int (length (ps ! i)) + 1)"
    and "set order \<subseteq> {..<length ps}" and "store_ok sha root s" and "uploading (fst s) session row"
    and "\<And>i. i < length ps \<Longrightarrow> content s (file_id row, int i) \<in> {None, Some (ps ! i)}"
  defines "s' \<equiv> fold (upload_piece sha root rnd now session (file_id row) ps) order s"
  shows "store_ok sha root s' \<and> ft_db (fst s') = ft_db (fst s) \<and>
    (\<forall>k. content s' k = (if fst k = file_id row \<and> snd k \<in> int ` set order then Some (ps ! nat (snd k)) else content s k))"
  using assms(6-9) unfolding s'_def
proof (induction order arbitrary: s)
  case (Cons i order)
  let ?s = "upload_piece sha root rnd now session (file_id row) ps i s"
  have i: "i < length ps" using Cons.prems(1) by simp
  have step: "store_ok sha root ?s" "ft_db (fst ?s) = ft_db (fst s)" "content ?s = (content s)((file_id row, int i) \<mapsto> ps ! i)"
    using honest_upload [OF Cons.prems(2) assms(1-3) Cons.prems(3), of "ps ! i" "int i" now]
      assms(4,5) i Cons.prems(4) [OF i] by (simp_all add: upload_piece_def)
  have "uploading (fst ?s) session row" using uploading_cong [OF step(2)] Cons.prems(3) by simp
  moreover have "content ?s (file_id row, int j) \<in> {None, Some (ps ! j)}" if "j < length ps" for j
    using Cons.prems(4) [OF that] by (auto simp: step(3))
  ultimately have "store_ok sha root (fold (upload_piece sha root rnd now session (file_id row) ps) order ?s) \<and>
      ft_db (fst (fold (upload_piece sha root rnd now session (file_id row) ps) order ?s)) = ft_db (fst ?s) \<and>
      (\<forall>k. content (fold (upload_piece sha root rnd now session (file_id row) ps) order ?s) k =
        (if fst k = file_id row \<and> snd k \<in> int ` set order then Some (ps ! nat (snd k)) else content ?s k))"
    using Cons.prems(1) step(1) by (intro Cons.IH) simp_all
  then show ?case by (auto simp: step(2,3))
qed simp

lemma honest_answers:
  fixes now :: time
  assumes "storage_root root" and "plain_segment (file_id row)" and "slash \<notin> set rnd" and "\<And>x. length (sha x) = 32"
    and "\<And>i. i < length ps \<Longrightarrow> expectedChunkSize (file_record row) (int i) = Inr (int (length (ps ! i))) \<and>
          in64 (int (length (ps ! i)) + 1)"
    and "set order \<subseteq> {..<length ps}" and "store_ok sha root s" and "uploading (fst s) session row"
    and "\<And>i. i < length ps \<Longrightarrow> content s (file_id row, int i) \<in> {None, Some (ps ! i)}"
  shows "list_all2 (\<lambda>i answer. \<exists>c. answer = Inr c \<and> cr_FileID c = file_id row \<and> cr_Index c = int i \<and>
      cr_SHA256 c = sha (ps ! i) \<and> cr_Size c = int (length (ps ! i)))
    order (snd (upload_all sha root rnd now session (file_id row) ps order s))"
  using assms(6-9)
proof (induction order arbitrary: s)
  case (Cons i order)
  let ?u = "UploadChunk sha root rnd NoFault now s session (file_id row) (int i) (sha (ps ! i))
      (Some \<lparr>rd_data = ps ! i, rd_fails = False\<rparr>)"
  have i: "i < length ps" using Cons.prems(1) by simp
  have step: "\<exists>c. snd ?u = Inr c \<and> cr_FileID c = file_id row \<and> cr_Index c = int i \<and>
      cr_SHA256 c = sha (ps ! i) \<and> cr_Size c = int (length (ps ! i))"
    "store_ok sha root (fst ?u)" "ft_db (fst (fst ?u)) = ft_db (fst s)" "content (fst ?u) = (content s)((file_id row, int i) \<mapsto> ps ! i)"
    using honest_upload [OF Cons.prems(2) assms(1-3) Cons.prems(3), of "ps ! i" "int i" now]
      assms(4,5) i Cons.prems(4) [OF i] by simp_all
  have "uploading (fst (fst ?u)) session row" using uploading_cong [OF step(3)] Cons.prems(3) by simp
  moreover have "content (fst ?u) (file_id row, int j) \<in> {None, Some (ps ! j)}" if "j < length ps" for j
    using Cons.prems(4) [OF that] by (auto simp: step(4))
  ultimately have "list_all2 (\<lambda>i answer. \<exists>c. answer = Inr c \<and> cr_FileID c = file_id row \<and> cr_Index c = int i \<and>
      cr_SHA256 c = sha (ps ! i) \<and> cr_Size c = int (length (ps ! i)))
    order (snd (upload_all sha root rnd now session (file_id row) ps order (fst ?u)))"
    using Cons.prems(1) step(2) by (intro Cons.IH) simp_all
  then show ?case using step(1) by (simp add: split_beta Let_def)
qed simp

text \<open>The chunks of a file whose indices are all there, in order.\<close>

interpretation chunk_order: keyed_order "\<lambda>c d. cr_Index c < cr_Index d" cr_Index
  by unfold_locales simp

lemma file_chunks_complete:
  assumes "store_ok sha root s" and "\<And>i. content s (f, i) \<noteq> None \<longleftrightarrow> i \<in> int ` {..<n}"
  shows "map cr_Index (file_chunks (fst s) f) = map int [0..<n]"
proof -
  obtain st disk where s: "s = (st, disk)" by (cases s)
  have sorted: "sorted (map cr_Index (file_chunks st f))"
    using chunk_order.ordered_SliceStable by (simp add: file_chunks_def chunk_order.ordered_key [symmetric])
  have "inj_on cr_Index {c \<in> set (ft_chunks st). cr_FileID c = f}" "distinct (ft_chunks st)"
    using assms(1) by (auto simp: store_ok_def s distinct_map inj_on_def chunk_key_def)
  then have dist: "distinct (map cr_Index (file_chunks st f))"
    by (simp add: file_chunks_def distinct_map)
  have "i \<in> cr_Index ` set (file_chunks st f) \<longleftrightarrow> i \<in> int ` {..<n}" for i
  proof -
    have "i \<in> cr_Index ` set (file_chunks st f) \<longleftrightarrow> (\<exists>c. c \<in> set (ft_chunks st) \<and> chunk_key c = (f, i))"
      by (auto simp: file_chunks_def chunk_key_def)
    also have "\<dots> \<longleftrightarrow> chunk_at st (f, i) \<noteq> None"
      using chunk_at_iff [OF assms(1) [unfolded s], of "(f, i)"] by auto
    also have "\<dots> \<longleftrightarrow> content s (f, i) \<noteq> None" using content_at(1) [OF assms(1), of "(f, i)"] by (simp add: s)
    finally show ?thesis using assms(2) by simp
  qed
  then have "set (map cr_Index (file_chunks st f)) = set (map int [0..<n])" by (simp add: set_eq_iff lessThan_atLeast0)
  moreover have "sorted (map int [0..<n])" by (simp add: sorted_map sorted_wrt_upt)
  ultimately show ?thesis
    using sorted_distinct_set_unique [OF sorted dist] by (simp add: s distinct_map)
qed

lemma assemble_stored:
  assumes "map cr_Index cs = map int [k..<k + length cs]"
    and "\<And>c. c \<in> set cs \<Longrightarrow> \<exists>data. disk (cr_StoragePath c) = Some data \<and> int (length data) = cr_Size c \<and> sha data = cr_SHA256 c"
  shows "assemble sha NoFault disk (int k) w cs = Inr (w @ concat (map (\<lambda>c. the (disk (cr_StoragePath c))) cs))"
  using assms
proof (induction cs arbitrary: k w)
  case (Cons c cs)
  have eq: "[k..<k + length (c # cs)] = k # [Suc k..<Suc k + length cs]"
    using upt_conv_Cons [of k "k + length (c # cs)"] by simp
  from Cons.prems(1) [unfolded eq]
  have idx: "cr_Index c = int k" "map cr_Index cs = map int [Suc k..<Suc k + length cs]" by simp_all
  obtain data where "disk (cr_StoragePath c) = Some data" "int (length data) = cr_Size c" "sha data = cr_SHA256 c"
    using Cons.prems(2) [of c] by auto
  then show ?case
    using Cons.IH [OF idx(2), of "w @ data"] Cons.prems(2) idx(1) by (simp add: add.commute)
qed simp

text \<open>A file whose chunks are all stored, with the right bytes, can be completed.\<close>

lemma complete_stored:
  assumes ok: "store_ok sha root s" and "plain_segment (file_id row)" and "uploading (fst s) session row"
    and "\<And>i. content s (file_id row, i) = (if i \<in> int ` {..<length ps} then Some (ps ! nat i) else None)"
    and "file_chunk_count row = int (length ps)" and "file_sha256 row = sha (concat ps)"
  shows "\<exists>file s'. Complete sha root rnd NoFault request now s session (file_id row) = (s', Inr file) \<and>
    fr_StoragePath file = final_path root (file_id row) \<and> snd s' (fr_StoragePath file) = Some (concat ps)"
proof -
  obtain st disk where s: "s = (st, disk)" by (cases s)
  note ok' = ok [unfolded s]
  let ?cs = "file_chunks st (file_id row)"
  have idx: "map cr_Index ?cs = map int [0..<length ps]"
    using file_chunks_complete [OF ok, of "file_id row" "length ps"] assms(4) by (simp add: s)
  then have len: "length ?cs = length ps" by (metis length_map length_upt minus_nat.diff_0)
  have stored: "disk (cr_StoragePath (?cs ! i)) = Some (ps ! i)" if "i < length ps" for i
  proof -
    have "cr_Index (?cs ! i) = int i" using arg_cong [OF idx, of "\<lambda>xs. xs ! i"] that len by simp
    moreover have "?cs ! i \<in> set ?cs" using that len by simp
    ultimately have "chunk_at st (file_id row, int i) = Some (?cs ! i)" using file_chunks_at [OF ok'] by metis
    then show ?thesis using assms(4) [of "int i"] that by (simp add: s content_def)
  qed
  have "map (\<lambda>c. the (disk (cr_StoragePath c))) ?cs = ps"
    using stored len by (intro nth_equalityI) simp_all
  moreover have "assemble sha NoFault disk (int 0) [] ?cs = Inr ([] @ concat (map (\<lambda>c. the (disk (cr_StoragePath c))) ?cs))"
  proof (rule assemble_stored)
    show "map cr_Index ?cs = map int [0..<0 + length ?cs]" using idx len by simp
    fix c assume c: "c \<in> set ?cs"
    then have "chunk_ok sha root disk c" using chunk_ok_at [OF ok'] file_chunks_at [OF ok' c] by blast
    then show "\<exists>data. disk (cr_StoragePath c) = Some data \<and> int (length data) = cr_Size c \<and> sha data = cr_SHA256 c"
      by (auto simp: chunk_ok_def split: option.splits)
  qed
  ultimately have bytes: "assemble sha NoFault disk 0 [] ?cs = Inr (concat ps)" by simp
  have prep: "PrepareFileCompletion st session (file_id row) = Inr (file_record row, ?cs)"
    using assms(3) by (simp add: PrepareFileCompletion_Inr uploading_def s)
  have "file_status row = ''UPLOADING''" using assms(3) by (auto simp: uploading_def dest!: find_SomeD)
  then have status: "fr_Status (file_record row) \<noteq> ''AVAILABLE_ON_NODE''" by (simp add: file_record_def)
  obtain db where "CompleteFile request st session (file_id row) (final_path root (file_id row)) now = (st\<lparr>ft_db := db\<rparr>, Inr ())"
    using prepared_completes [OF prep status] by blast
  then show ?thesis
    using prep status bytes assms(2,5,6) len
    by (simp add: Complete_def finish_completion_def s plain_segment_def file_record_def Let_def)
qed

text \<open>
  C13. A file can always be sent through the Node: from the moment its row is uploading and none
  of its chunks are stored, a sender that uploads the chunks of the file, in any order and with
  any repetitions, has every upload accepted: each is answered with the record of that chunk, its index, size
  and digest. Completing the file then succeeds and publishes exactly the bytes of the file.
\<close>

theorem upload_and_complete:
  assumes "store_ok sha root s" and "storage_root root" and "plain_segment (file_id row)" and "slash \<notin> set rnd"
    and "\<And>x. length (sha x) = 32" and "uploading (fst s) session row"
    and "\<And>i. content s (file_id row, i) = None"
    and "0 < file_chunk_size row" and "int (length data) = file_size row" and "file_size row < max_int64"
    and "file_chunk_count row = int (length (pieces (nat (file_chunk_size row)) data))" and "file_sha256 row = sha data"
    and "set order = {..<length (pieces (nat (file_chunk_size row)) data)}"
  shows "\<exists>s1 answers.
    upload_all sha root rnd now session (file_id row) (pieces (nat (file_chunk_size row)) data) order s = (s1, answers) \<and>
    list_all2 (\<lambda>i answer. \<exists>c. answer = Inr c \<and> cr_FileID c = file_id row \<and> cr_Index c = int i \<and>
        cr_SHA256 c = sha (pieces (nat (file_chunk_size row)) data ! i) \<and>
        cr_Size c = int (length (pieces (nat (file_chunk_size row)) data ! i))) order answers \<and>
    (\<exists>file s'. Complete sha root rnd' NoFault request later s1 session (file_id row) = (s', Inr file) \<and>
       snd s' (fr_StoragePath file) = Some data)"
proof -
  let ?ps = "pieces (nat (file_chunk_size row)) data"
  let ?s = "fold (upload_piece sha root rnd now session (file_id row) ?ps) order s"
  have sizes: "expectedChunkSize (file_record row) (int i) = Inr (int (length (?ps ! i))) \<and>
      in64 (int (length (?ps ! i)) + 1)" if "i < length ?ps" for i
  proof -
    have "length (?ps ! i) \<le> length data" using that assms(8) by (subst pieces_length) simp_all
    then have "int (length (?ps ! i)) \<le> file_size row" using assms(9) by linarith
    with that assms(8-11) expectedChunkSize_pieces [of "file_record row" data i] show ?thesis
      by (simp add: file_record_def in64_def)
  qed
  have order: "set order \<subseteq> {..<length ?ps}" using assms(13) by simp
  have fresh: "content s (file_id row, int i) \<in> {None, Some (?ps ! i)}" if "i < length ?ps" for i
    using assms(7) by simp
  note answers = honest_answers [OF assms(2,3,4,5) sizes order assms(1,6) fresh, of now]
  note run = honest_uploads [OF assms(2,3,4,5) sizes order assms(1,6) fresh, of now]
  have "content ?s (file_id row, i) = (if i \<in> int ` {..<length ?ps} then Some (?ps ! nat i) else None)" for i
    using conjunct2 [OF conjunct2 [OF run], THEN spec, of "(file_id row, i)"] assms(7,13) by simp
  moreover have "file_sha256 row = sha (concat ?ps)" using assms(8,12) by simp
  ultimately obtain fl s' where "Complete sha root rnd' NoFault request later ?s session (file_id row) = (s', Inr fl)"
      "snd s' (fr_StoragePath fl) = Some (concat ?ps)"
    using complete_stored [OF conjunct1 [OF run] assms(3), of session ?ps]
      uploading_cong [OF conjunct1 [OF conjunct2 [OF run]]] assms(6,11) by blast
  then have "\<exists>file s'. Complete sha root rnd' NoFault request later ?s session (file_id row) = (s', Inr file) \<and>
      snd s' (fr_StoragePath file) = Some data"
    using assms(8) by simp
  moreover have "upload_all sha root rnd now session (file_id row) ?ps order s =
      (?s, snd (upload_all sha root rnd now session (file_id row) ?ps order s))"
    by (simp add: upload_all_fold [symmetric])
  ultimately show ?thesis using answers by blast
qed

end
