(* ===== verification/TransferStore.thy ===== *)
theory TransferStore
  imports TransferTables Tables
begin

text \<open>
  The transfer operations of \<open>internal/postgres/store.go\<close>: creation with its quotas, progress
  reports, retry, cancellation, hiding and reading. An operation returns the tables after it
  together with its result: a transaction that fails leaves the tables as they were, while the
  final read-back of an operation that has committed may still fail. A database that cannot be
  reached is not modelled: it leaves the tables as they were.
\<close>

type_synonym 'a outcome = "transfer_db \<times> (transfer_error + 'a)"

section \<open>Target resolution and quotas\<close>

definition trusted_device :: "DeviceRow \<Rightarrow> bool" where
  "trusted_device d \<longleftrightarrow> dev_trusted d \<and> dev_revoked_at d = None"

definition group_device :: "transfer_db \<Rightarrow> string \<Rightarrow> string \<Rightarrow> DeviceRow \<Rightarrow> bool" where
  "group_device db g u d \<longleftrightarrow> (g, dev_id d) \<in> set (db_group_devices db) \<and> (g, u) \<in> set (db_group_members db)"

definition ResolveTransferTargets ::
  "transfer_db \<Rightarrow> Session \<Rightarrow> TargetType \<Rightarrow> string \<Rightarrow> string list \<Rightarrow> transfer_error + string list"
where
  "ResolveTransferTargets db session targetType groupID requested =
     (let own = (\<lambda>d. dev_user d = usr_ID session \<and> trusted_device d);
          in_group = (\<lambda>d. group_device db groupID (usr_ID session) d \<and> trusted_device d);
          select = (\<lambda>P. map dev_id (filter P (db_devices db)));
          exactly = (\<lambda>ids. if length ids \<noteq> length requested then Inl ErrForbidden else Inr ids)
      in case targetType of
           TargetSingle \<Rightarrow> exactly (select (\<lambda>d. own d \<and> dev_id d \<in> set requested))
         | TargetMultiple \<Rightarrow> exactly (select (\<lambda>d. own d \<and> dev_id d \<in> set requested))
         | TargetAllDevices \<Rightarrow> Inr (select (\<lambda>d. own d \<and> sess_DeviceID session \<noteq> None \<and>
             \<not> device_in (sess_DeviceID session) (dev_id d)))
         | TargetGroupAll \<Rightarrow> Inr (select in_group)
         | TargetGroupSelected \<Rightarrow> exactly (select (\<lambda>d. in_group d \<and> dev_id d \<in> set requested))
         | TargetOther s \<Rightarrow> Inl ErrInvalid)"

definition exceeds :: "int \<Rightarrow> int \<Rightarrow> int \<Rightarrow> bool" where
  "exceeds current requested limit \<longleftrightarrow> limit < 0 \<or> requested > limit \<or> current > i64 (limit - requested)"

definition startOfUTCDay :: "time \<Rightarrow> time" where
  "startOfUTCDay t = t div (24 * hour) * (24 * hour)"

definition nodeFiles :: "Prepared \<Rightarrow> nat list" where
  "nodeFiles p = remdups (map ftg_FileIndex
     (filter (\<lambda>ft. ftg_SelectedRoute ft = SelectedRouteNode) (pr_FileTargets p)))"

text \<open>The sizes of the requested files, in the order the code visits them.\<close>

fun requested_bytes :: "int \<Rightarrow> int \<Rightarrow> int list \<Rightarrow> transfer_error + int" where
  "requested_bytes limit requested [] = Inr requested"
| "requested_bytes limit requested (sz # szs) =
     (if sz > limit then Inl ErrFileTooLarge
      else if requested > max_int64 - sz then Inl ErrQuotaExceeded
      else requested_bytes limit (requested + sz) szs)"

text \<open>The files that count against a quota: stored on the Node, not expired.\<close>

definition counted :: "transfer_db \<Rightarrow> time \<Rightarrow> (TaskRow \<Rightarrow> bool) \<Rightarrow> int" where
  "counted db now P = sum_list (map file_size (filter (\<lambda>f.
     file_status f \<noteq> ''EXPIRED'' \<and> now < file_expires_at f \<and>
     list_ex (\<lambda>r. ftr_file r = file_id f \<and> ftr_route r = SelectedRouteNode) (db_file_targets db) \<and>
     list_ex (\<lambda>t. task_id t = file_transfer f \<and> P t) (db_tasks db)) (db_files db)))"

definition quota_of :: "transfer_db \<Rightarrow> bool \<Rightarrow> string \<Rightarrow> int \<Rightarrow> int \<Rightarrow> int \<times> int" where
  "quota_of db for_group owner default_bytes default_daily =
     (case find (\<lambda>q. quo_group q = for_group \<and> quo_owner q = owner) (db_quotas db) of
        None \<Rightarrow> (default_bytes, default_daily)
      | Some q \<Rightarrow> (quo_byte_limit q, case quo_daily_limit q of None \<Rightarrow> default_daily | Some d \<Rightarrow> d))"

definition quota_exceeded :: "transfer_db \<Rightarrow> Prepared \<Rightarrow> int \<Rightarrow> (TaskRow \<Rightarrow> bool) \<Rightarrow> int \<times> int \<Rightarrow> bool" where
  "quota_exceeded db p requested P limits \<longleftrightarrow>
     exceeds (counted db (pr_CreatedAt p) P) requested (fst limits) \<or>
     exceeds (counted db (pr_CreatedAt p) (\<lambda>t. P t \<and> startOfUTCDay (pr_CreatedAt p) \<le> task_created_at t))
       requested (snd limits)"

definition enforceTransferQuotas :: "transfer_db \<Rightarrow> Session \<Rightarrow> Prepared \<Rightarrow> transfer_error + transfer_db" where
  "enforceTransferQuotas db session p =
     (if nodeFiles p = [] then Inr db
      else
        let s = db_settings db;
            node_usage = counted db (pr_CreatedAt p) (\<lambda>t. True)
        in bindE (requested_bytes (set_single_file_limit s) 0 (map (\<lambda>i. tf_Size (rq_Files p ! i)) (nodeFiles p)))
          (\<lambda>requested.
            if quota_exceeded db p requested (\<lambda>t. task_sender_user t = usr_ID session)
                (quota_of db False (usr_ID session) (set_default_user_quota s) (set_default_user_daily s))
            then Inl ErrQuotaExceeded
            else if exceeds node_usage requested (go_div (i64 (set_node_cache_limit s * set_stop_percent s)) 100)
            then Inl ErrStorageFull
            else if rq_GroupID p \<noteq> '''' \<and>
                quota_exceeded db p requested (\<lambda>t. task_group t = Some (rq_GroupID p))
                  (quota_of db True (rq_GroupID p) (set_default_group_quota s) (set_default_group_daily s))
            then Inl ErrQuotaExceeded
            else if go_div (i64 (set_node_cache_limit s * set_warning_percent s)) 100 \<le> node_usage + requested
            then Inr (db\<lparr>db_warnings := db_warnings db + 1\<rparr>)
            else Inr db))"

section \<open>Creation\<close>

definition nullable :: "string \<Rightarrow> string option" where
  "nullable s = (if s = '''' then None else Some s)"

text \<open>The identifiers the database generates for a creation.\<close>

record NewIDs =
  new_transfer :: string
  new_file :: "nat \<Rightarrow> string"
  new_execution :: "nat \<Rightarrow> string"

definition insert_task :: "NewIDs \<Rightarrow> Session \<Rightarrow> Prepared \<Rightarrow> transfer_db \<Rightarrow> transfer_db" where
  "insert_task ids session p db = db\<lparr>db_tasks := db_tasks db @ [\<lparr>
     task_id = new_transfer ids, task_sender_user = usr_ID session,
     task_sender_device = optional (sess_DeviceID session), task_group = nullable (rq_GroupID p),
     task_batch = nullable (rq_ClientBatchID p), task_idempotency_key = nullable (rq_IdempotencyKey p),
     task_fingerprint = pr_RequestFingerprint p, task_target_type = rq_TargetType p,
     task_content_type = rq_ContentType p, task_file_count = int (length (rq_Files p)),
     task_total_size = i64 (sum_list (map tf_Size (rq_Files p))), task_status = pr_Status p,
     task_created_at = pr_CreatedAt p, task_expires_at = pr_ExpiresAt p, task_group_deleted_at = None\<rparr>]\<rparr>"

definition insert_keys :: "NewIDs \<Rightarrow> Session \<Rightarrow> Prepared \<Rightarrow> transfer_db \<Rightarrow> transfer_db" where
  "insert_keys ids session p db =
     (let row = (\<lambda>d. case rq_WrappedContentKeys p d of None \<Rightarrow> [] | Some k \<Rightarrow>
            if k = '''' then [] else [\<lparr>key_transfer = new_transfer ids, key_device = d, key_wrapped = k\<rparr>]);
          devices = pr_ResolvedDeviceIDs p @ (case sess_DeviceID session of None \<Rightarrow> []
            | Some d \<Rightarrow> if d \<in> set (pr_ResolvedDeviceIDs p) then [] else [d])
      in db\<lparr>db_keys := db_keys db @ concat (map row devices)\<rparr>)"

definition insert_message :: "NewIDs \<Rightarrow> Prepared \<Rightarrow> transfer_db \<Rightarrow> transfer_db" where
  "insert_message ids p db =
     (if rq_Content p = '''' then db
      else db\<lparr>db_messages := db_messages db @ [\<lparr>msg_transfer = new_transfer ids, msg_content = rq_Content p,
        msg_targets = map (\<lambda>d. (d, optional (rq_WrappedContentKeys p d))) (pr_ResolvedDeviceIDs p)\<rparr>]\<rparr>)"

definition insert_files :: "NewIDs \<Rightarrow> Prepared \<Rightarrow> transfer_db \<Rightarrow> transfer_db" where
  "insert_files ids p db = db\<lparr>db_files := db_files db @ map (\<lambda>i. let f = rq_Files p ! i in \<lparr>
     file_id = new_file ids i, file_transfer = new_transfer ids, file_name = tf_Name f, file_mime = tf_MIMEType f,
     file_size = tf_Size f, file_sha256 = tf_SHA256 f, file_chunk_size = tf_ChunkSize f,
     file_chunk_count = tf_ChunkCount f, file_status = ''UPLOADING'',
     file_storage_path = ''pending/'' @ new_file ids i, file_expires_at = pr_ExpiresAt p,
     file_completed_at = None\<rparr>) [0..<length (rq_Files p)]\<rparr>"

text \<open>The event of a target, and the event of its status when that has a code.\<close>

definition insert_status_events :: "string \<Rightarrow> TimelineEvent \<Rightarrow> transfer_db \<Rightarrow> transfer_db" where
  "insert_status_events request event db =
     (let db = insertTransferTimelineEvent request (event\<lparr>ev_Code := EventTargetResolved\<rparr>) db
      in case EventCodeForStatus (ev_Status event) of
           None \<Rightarrow> db
         | Some c \<Rightarrow> insertTransferTimelineEvent request (event\<lparr>ev_Code := c\<rparr>) db)"

definition insert_target :: "string \<Rightarrow> NewIDs \<Rightarrow> Prepared \<Rightarrow> nat \<times> Target \<Rightarrow> transfer_db \<Rightarrow> transfer_db" where
  "insert_target request ids p it db =
     (let (i, t) = it;
          row = \<lparr>tgt_transfer = new_transfer ids, tgt_device = tg_DeviceID t, tgt_route = tg_SelectedRoute t,
            tgt_status = tg_Status t, tgt_bytes = 0, tgt_started_at = None, tgt_completed_at = None,
            tgt_read_at = None, tgt_error_code = None\<rparr>;
          execution = \<lparr>ex_id = new_execution ids i, ex_transfer = new_transfer ids, ex_device = tg_DeviceID t,
            ex_attempt = 1, ex_status = tg_Status t, ex_started_at = pr_CreatedAt p, ex_completed_at = None,
            ex_idempotency_key = None, ex_error_code = None\<rparr>;
          event = (blank_event (new_transfer ids) EventTargetResolved (pr_CreatedAt p))\<lparr>
            ev_TargetDeviceID := tg_DeviceID t, ev_ExecutionID := new_execution ids i,
            ev_Route := tg_SelectedRoute t, ev_Status := tg_Status t\<rparr>;
          db = insert_status_events request event
            (db\<lparr>db_targets := db_targets db @ [row], db_executions := db_executions db @ [execution]\<rparr>)
      in db\<lparr>db_notices := db_notices db @
           [\<lparr>nt_device = tg_DeviceID t, nt_transfer = new_transfer ids, nt_created_at = pr_CreatedAt p\<rparr>]\<rparr>)"

definition execution_id_for :: "NewIDs \<Rightarrow> Prepared \<Rightarrow> string \<Rightarrow> string" where
  "execution_id_for ids p d =
     (case index_of d (map tg_DeviceID (pr_Targets p)) of None \<Rightarrow> '''' | Some i \<Rightarrow> new_execution ids i)"

definition insert_file_target :: "string \<Rightarrow> NewIDs \<Rightarrow> Prepared \<Rightarrow> FileTarget \<Rightarrow> transfer_db \<Rightarrow> transfer_db" where
  "insert_file_target request ids p ft db =
     insert_status_events request
       ((blank_event (new_transfer ids) EventTargetResolved (pr_CreatedAt p))\<lparr>
          ev_FileID := new_file ids (ftg_FileIndex ft), ev_TargetDeviceID := ftg_DeviceID ft,
          ev_ExecutionID := execution_id_for ids p (ftg_DeviceID ft),
          ev_Route := ftg_SelectedRoute ft, ev_Status := ftg_Status ft\<rparr>)
       (db\<lparr>db_file_targets := db_file_targets db @
          [\<lparr>ftr_file = new_file ids (ftg_FileIndex ft), ftr_device = ftg_DeviceID ft,
            ftr_route = ftg_SelectedRoute ft, ftr_status = ftg_Status ft\<rparr>]\<rparr>)"

definition insert_transfer :: "string \<Rightarrow> NewIDs \<Rightarrow> Session \<Rightarrow> Prepared \<Rightarrow> transfer_db \<Rightarrow> transfer_db" where
  "insert_transfer request ids session p db =
     fold (insert_file_target request ids p) (pr_FileTargets p)
       (fold (insert_target request ids p) (zip [0..<length (pr_Targets p)] (pr_Targets p))
         (insert_files ids p (insert_message ids p (insert_keys ids session p
           (insertTransferTimelineEvent request
             ((blank_event (new_transfer ids) EventTaskCreated (pr_CreatedAt p))\<lparr>ev_Status := pr_Status p\<rparr>)
             (insert_task ids session p db))))))"

definition CreateTransfer ::
  "string \<Rightarrow> NewIDs \<Rightarrow> transfer_db \<Rightarrow> Session \<Rightarrow> Prepared \<Rightarrow> Transfer outcome"
where
  "CreateTransfer request ids db session p =
     (case (if rq_IdempotencyKey p = '''' then None
            else find (\<lambda>t. device_in (sess_DeviceID session) (task_sender_device t) \<and>
                   task_idempotency_key t = Some (rq_IdempotencyKey p)) (db_tasks db)) of
        Some t \<Rightarrow>
          if task_fingerprint t \<noteq> pr_RequestFingerprint p then (db, Inl ErrIdempotencyConflict)
          else (db, getTransfer db session (task_id t))
      | None \<Rightarrow>
          (case enforceTransferQuotas db session p of
             Inl e \<Rightarrow> (db, Inl e)
           | Inr db1 \<Rightarrow>
               let db2 = insert_transfer request ids session p db1
               in (db2, getTransfer db2 session (new_transfer ids))))"

end
