(* ===== verification/TransferProgress.thy ===== *)
theory TransferProgress
  imports TransferStore
begin

text \<open>
  The operations of \<open>internal/postgres/store.go\<close> that move a transfer along: progress reports,
  retries, cancellation, reading and hiding, and the timeline events a client reports. JSON and
  SHA-256 are the parameter that hashes a request.
\<close>

section \<open>Idempotency records\<close>

definition find_record :: "transfer_db \<Rightarrow> string \<Rightarrow> string \<Rightarrow> string \<Rightarrow> string \<Rightarrow> IdempotencyRow option" where
  "find_record db device method resource key =
     find (\<lambda>i. idm_device i = device \<and> idm_method i = method \<and> idm_resource i = resource \<and> idm_key i = key)
       (db_idempotency db)"

definition insert_record :: "string \<Rightarrow> string \<Rightarrow> string \<Rightarrow> string \<Rightarrow> string \<Rightarrow> transfer_db \<Rightarrow> transfer_db" where
  "insert_record device method resource key h db = db\<lparr>db_idempotency := db_idempotency db @
     [\<lparr>idm_device = device, idm_method = method, idm_resource = resource, idm_key = key, idm_hash = h,
       idm_response = None\<rparr>]\<rparr>"

definition completeIdempotencyRecord ::
  "string \<Rightarrow> string \<Rightarrow> string \<Rightarrow> string \<Rightarrow> string \<Rightarrow> Response \<Rightarrow> transfer_db \<Rightarrow> transfer_error + transfer_db"
where
  "completeIdempotencyRecord device method resource key h response db =
     (let hit = (\<lambda>i. idm_device i = device \<and> idm_method i = method \<and> idm_resource i = resource \<and>
            idm_key i = key \<and> idm_hash i = h \<and> idm_response i = None)
      in if length (filter hit (db_idempotency db)) = 1
         then Inr (db\<lparr>db_idempotency :=
           update_where hit (\<lambda>i. i\<lparr>idm_response := Some response\<rparr>) (db_idempotency db)\<rparr>)
         else Inl ErrIdempotencyConflict)"

section \<open>Progress reports\<close>

definition progress_resource :: "string \<Rightarrow> string \<Rightarrow> string" where
  "progress_resource transferID deviceID = ''/api/transfers/'' @ transferID @ ''/targets/'' @ deviceID"

text \<open>The target a device may report on: its own, or one of a transfer it sends.\<close>

definition reportable_target :: "transfer_db \<Rightarrow> string \<Rightarrow> string \<Rightarrow> string \<Rightarrow> (TargetRow \<times> ExecutionRow) option" where
  "reportable_target db actor transferID deviceID =
     (case find (\<lambda>r. is_target transferID deviceID r \<and>
              (actor = deviceID \<and> list_ex (\<lambda>t. task_id t = transferID) (db_tasks db) \<or>
               list_ex (\<lambda>t. task_id t = transferID \<and> task_sender_device t = actor) (db_tasks db))) (db_targets db) of
        None \<Rightarrow> None
      | Some r \<Rightarrow> map_option (\<lambda>e. (r, e)) (latest_execution db transferID deviceID))"

definition progress_allowed :: "TransferStatus \<Rightarrow> TransferStatus \<Rightarrow> bool" where
  "progress_allowed current next_status \<longleftrightarrow>
     \<not> (IsTerminal current \<or> current = TransferDelivered \<and> next_status \<noteq> TransferRead) \<and>
     \<not> ((current = TransferSourceFileMissing \<or> current = TransferSourceFileChanged) \<and>
        next_status = TransferCheckingRoute) \<and>
     (current = next_status \<or> CanTransitionTo current next_status)"

definition migrate_route ::
  "string \<Rightarrow> string \<Rightarrow> Progress \<Rightarrow> string \<Rightarrow> SelectedRoute \<Rightarrow> time \<Rightarrow> transfer_db \<Rightarrow> transfer_db"
where
  "migrate_route request transferID p execution route now db =
     insertTransferTimelineEvent request
       ((blank_event transferID EventRouteMigrated now)\<lparr>ev_TargetDeviceID := pg_DeviceID p,
          ev_ExecutionID := execution, ev_Route := route, ev_Status := pg_Status p\<rparr>)
       (db\<lparr>db_routes := update_where
            (\<lambda>r. rt_transfer r = transferID \<and> rt_device r = pg_DeviceID p \<and> rt_ended_at r = None)
            (\<lambda>r. r\<lparr>rt_ended_at := Some now\<rparr>) (db_routes db) @
          [\<lparr>rt_transfer = transferID, rt_device = pg_DeviceID p, rt_route = route, rt_started_at = now,
            rt_ended_at = None\<rparr>]\<rparr>)"

definition progress_target :: "Progress \<Rightarrow> SelectedRoute \<Rightarrow> time \<Rightarrow> TargetRow \<Rightarrow> TargetRow" where
  "progress_target p route now r =
     r\<lparr>tgt_route := route, tgt_status := pg_Status p, tgt_bytes := max (tgt_bytes r) (pg_BytesTransferred p),
       tgt_started_at := (case tgt_started_at r of None \<Rightarrow> Some now | s \<Rightarrow> s),
       tgt_completed_at := (if pg_Status p \<in> {TransferDelivered, TransferRead, TransferFailed} then Some now
         else tgt_completed_at r),
       tgt_read_at := (if pg_Status p = TransferRead then Some now else tgt_read_at r),
       tgt_error_code := nullable (pg_ErrorCode p)\<rparr>"

definition progress_execution :: "Progress \<Rightarrow> time \<Rightarrow> ExecutionRow \<Rightarrow> ExecutionRow" where
  "progress_execution p now e =
     e\<lparr>ex_status := pg_Status p,
       ex_completed_at := (if pg_Status p \<in> {TransferRead, TransferFailed, TransferCancelled, TransferExpired}
         then Some now else ex_completed_at e),
       ex_error_code := nullable (pg_ErrorCode p)\<rparr>"

definition is_current :: "transfer_db \<Rightarrow> string \<Rightarrow> string \<Rightarrow> ExecutionRow \<Rightarrow> bool" where
  "is_current db t d e \<longleftrightarrow> ex_transfer e = t \<and> ex_device e = d \<and> ex_attempt e = max_attempt db t d"

definition upsert_delivery :: "DeliveryRow \<Rightarrow> (DeliveryRow \<Rightarrow> DeliveryRow) \<Rightarrow> transfer_db \<Rightarrow> transfer_db" where
  "upsert_delivery row f db =
     (let same = (\<lambda>d. dl_transfer d = dl_transfer row \<and> dl_device d = dl_device row)
      in db\<lparr>db_deliveries := (if list_ex same (db_deliveries db) then update_where same f (db_deliveries db)
           else db_deliveries db @ [row])\<rparr>)"

definition coalesce :: "'a option \<Rightarrow> 'a option \<Rightarrow> 'a option" where
  "coalesce a b = (case a of None \<Rightarrow> b | Some x \<Rightarrow> Some x)"

definition record_delivery :: "string \<Rightarrow> Progress \<Rightarrow> time \<Rightarrow> transfer_db \<Rightarrow> transfer_db" where
  "record_delivery transferID p now db =
     (let read_at = (if pg_Status p = TransferRead then Some now else None)
      in if pg_Status p = TransferDelivered \<or> pg_Status p = TransferRead
         then upsert_delivery
           \<lparr>dl_transfer = transferID, dl_device = pg_DeviceID p, dl_delivered_at = Some now, dl_read_at = read_at\<rparr>
           (\<lambda>d. d\<lparr>dl_delivered_at := coalesce (dl_delivered_at d) (Some now),
                  dl_read_at := coalesce (dl_read_at d) read_at\<rparr>) db
         else db)"

definition task_status_after :: "TargetRow list \<Rightarrow> TransferStatus \<Rightarrow> TransferStatus \<Rightarrow> TransferStatus" where
  "task_status_after targets reported current =
     (if list_all (\<lambda>r. tgt_status r = TransferRead) targets then TransferRead
      else if list_all (\<lambda>r. tgt_status r \<in> {TransferDelivered, TransferRead}) targets then TransferDelivered
      else if list_all (\<lambda>r. tgt_status r \<in> {TransferFailed, TransferCancelled, TransferExpired}) targets then TransferFailed
      else if reported \<in> {TransferDelivered, TransferRead, TransferFailed} then current
      else reported)"

definition update_task_status :: "string \<Rightarrow> Progress \<Rightarrow> transfer_db \<Rightarrow> transfer_db" where
  "update_task_status transferID p db =
     db\<lparr>db_tasks := update_where (\<lambda>t. task_id t = transferID)
        (\<lambda>t. t\<lparr>task_status := task_status_after (filter (\<lambda>r. tgt_transfer r = transferID) (db_targets db))
                 (pg_Status p) (task_status t)\<rparr>) (db_tasks db)\<rparr>"

text \<open>The writes of an accepted report, in the order of the code.\<close>

definition apply_progress ::
  "string \<Rightarrow> string \<Rightarrow> Progress \<Rightarrow> TargetRow \<Rightarrow> ExecutionRow \<Rightarrow> time \<Rightarrow> transfer_db \<Rightarrow> transfer_db"
where
  "apply_progress request transferID p row execution now db =
     (let route = (if pg_Route p \<noteq> SelectedRouteOther '''' then pg_Route p else tgt_route row);
          db = (if route \<noteq> tgt_route row then migrate_route request transferID p (ex_id execution) route now db else db);
          db = db\<lparr>db_targets := update_where (is_target transferID (pg_DeviceID p)) (progress_target p route now) (db_targets db)\<rparr>;
          db = (if tgt_status row \<noteq> pg_Status p
                then case EventCodeForStatus (pg_Status p) of None \<Rightarrow> db
                  | Some c \<Rightarrow> insertTransferTimelineEvent request
                      ((blank_event transferID c now)\<lparr>ev_TargetDeviceID := pg_DeviceID p, ev_ExecutionID := ex_id execution,
                        ev_Route := route, ev_Status := pg_Status p, ev_ErrorCode := pg_ErrorCode p\<rparr>) db
                else db);
          db = db\<lparr>db_executions := update_where (is_current db transferID (pg_DeviceID p)) (progress_execution p now) (db_executions db)\<rparr>;
          db = record_delivery transferID p now db
      in update_task_status transferID p db)"

definition finish_report ::
  "string \<Rightarrow> Session \<Rightarrow> string \<Rightarrow> Progress \<Rightarrow> string \<Rightarrow> transfer_db \<Rightarrow> transfer_error + transfer_db \<times> Transfer"
where
  "finish_report actor session transferID p h db =
     bindE (getTransfer db session transferID) (\<lambda>result.
       if pg_IdempotencyKey p = '''' then Inr (db, result)
       else bindE (completeIdempotencyRecord actor ''PUT'' (progress_resource transferID (pg_DeviceID p))
              (pg_IdempotencyKey p) h (ResponseTransfer result) db) (\<lambda>db. Inr (db, result)))"

definition report_on_target ::
  "string \<Rightarrow> string \<Rightarrow> Session \<Rightarrow> string \<Rightarrow> Progress \<Rightarrow> string \<Rightarrow> time \<Rightarrow> transfer_db \<Rightarrow> transfer_error + transfer_db \<times> Transfer"
where
  "report_on_target request actor session transferID p h now db =
     (case reportable_target db actor transferID (pg_DeviceID p) of
        None \<Rightarrow> Inl ErrForbidden
      | Some (row, execution) \<Rightarrow>
          let current = tgt_status row
          in if current = pg_Status p \<and> (IsTerminal current \<or> current = TransferDelivered)
             then finish_report actor session transferID p h db
             else if \<not> progress_allowed current (pg_Status p) then Inl ErrConflict
             else finish_report actor session transferID p h (apply_progress request transferID p row execution now db))"

definition ReportTransferProgress ::
  "(Progress \<Rightarrow> string) \<Rightarrow> string \<Rightarrow> transfer_db \<Rightarrow> Session \<Rightarrow> string \<Rightarrow> Progress \<Rightarrow> time \<Rightarrow> Transfer outcome"
where
  "ReportTransferProgress hash_of request db session transferID p now =
     (case sess_DeviceID session of
        None \<Rightarrow> (db, Inl ErrForbidden)
      | Some actor \<Rightarrow>
          let resource = progress_resource transferID (pg_DeviceID p);
              commit = (\<lambda>r. case r of Inl e \<Rightarrow> (db, Inl e) | Inr (db', result) \<Rightarrow> (db', Inr result))
          in if pg_IdempotencyKey p = ''''
             then commit (report_on_target request actor session transferID p '''' now db)
             else case find_record db actor ''PUT'' resource (pg_IdempotencyKey p) of
               Some i \<Rightarrow>
                 if idm_hash i \<noteq> hash_of p then (db, Inl ErrIdempotencyConflict)
                 else (case idm_response i of
                     Some (ResponseTransfer result) \<Rightarrow> (db, Inr result)
                   | _ \<Rightarrow> (db, Inl ErrIdempotencyConflict))
             | None \<Rightarrow>
                 commit (report_on_target request actor session transferID p (hash_of p) now
                   (insert_record actor ''PUT'' resource (pg_IdempotencyKey p) (hash_of p) db)))"

section \<open>Retry\<close>

definition retryable :: "TransferStatus \<Rightarrow> bool" where
  "retryable s \<longleftrightarrow> s = TransferFailed \<or> s = TransferPaused \<or> s = TransferSourceFileMissing \<or>
     s = TransferSourceFileChanged"

definition start_retry :: "string \<Rightarrow> string \<Rightarrow> string \<Rightarrow> string \<Rightarrow> string \<Rightarrow> time \<Rightarrow> transfer_db \<Rightarrow> transfer_db" where
  "start_retry request executionID transferID deviceID key now db =
     (let db = db\<lparr>db_executions := db_executions db @
            [\<lparr>ex_id = executionID, ex_transfer = transferID, ex_device = deviceID,
              ex_attempt = max_attempt db transferID deviceID + 1, ex_status = TransferCheckingRoute,
              ex_started_at = now, ex_completed_at = None, ex_idempotency_key = Some key, ex_error_code = None\<rparr>]\<rparr>;
          db = insertTransferTimelineEvent request
            ((blank_event transferID EventRetryStarted now)\<lparr>ev_TargetDeviceID := deviceID,
               ev_ExecutionID := executionID, ev_Status := TransferCheckingRoute\<rparr>) db
      in db\<lparr>db_targets := update_where (is_target transferID deviceID)
              (\<lambda>r. r\<lparr>tgt_status := TransferCheckingRoute, tgt_started_at := Some now, tgt_completed_at := None,
                     tgt_read_at := None, tgt_error_code := None\<rparr>) (db_targets db),
            db_tasks := update_where (\<lambda>t. task_id t = transferID)
              (\<lambda>t. t\<lparr>task_status := TransferCheckingRoute\<rparr>) (db_tasks db)\<rparr>)"

definition RetryTransferTarget ::
  "string \<Rightarrow> string \<Rightarrow> transfer_db \<Rightarrow> Session \<Rightarrow> string \<Rightarrow> string \<Rightarrow> string \<Rightarrow> time \<Rightarrow> Transfer outcome"
where
  "RetryTransferTarget request executionID db session transferID deviceID key now =
     (if sess_DeviceID session = None then (db, Inl ErrForbidden)
      else case find (\<lambda>r. is_target transferID deviceID r \<and>
              list_ex (\<lambda>t. task_id t = transferID \<and> task_sender_user t = usr_ID session) (db_tasks db)) (db_targets db) of
        None \<Rightarrow> (db, Inl ErrForbidden)
      | Some r \<Rightarrow>
          if list_ex (\<lambda>e. ex_idempotency_key e = Some key) (executions_of db transferID deviceID)
          then (db, getTransfer db session transferID)
          else if \<not> retryable (tgt_status r) then (db, Inl ErrConflict)
          else let db' = start_retry request executionID transferID deviceID key now db
               in (db', getTransfer db' session transferID))"

section \<open>Cancellation, reading, hiding\<close>

definition cancel_event :: "transfer_db \<Rightarrow> time \<Rightarrow> TargetRow \<Rightarrow> TimelineEvent" where
  "cancel_event db now r = (blank_event (tgt_transfer r) EventTargetCancelled now)\<lparr>
     ev_TargetDeviceID := tgt_device r,
     ev_ExecutionID := optional (map_option ex_id (latest_execution db (tgt_transfer r) (tgt_device r))),
     ev_Route := tgt_route r, ev_Status := TransferCancelled\<rparr>"

definition cancel_targets :: "string \<Rightarrow> string \<Rightarrow> time \<Rightarrow> transfer_db \<Rightarrow> transfer_db" where
  "cancel_targets request transferID now db =
     (let db = db\<lparr>db_targets := update_where (\<lambda>r. tgt_transfer r = transferID \<and> unfinished (tgt_status r))
              (\<lambda>r. r\<lparr>tgt_status := TransferCancelled, tgt_completed_at := Some now\<rparr>) (db_targets db),
            db_file_targets := update_where
              (\<lambda>r. list_ex (\<lambda>f. file_id f = ftr_file r \<and> file_transfer f = transferID) (db_files db) \<and>
                   unfinished (ftr_status r))
              (\<lambda>r. r\<lparr>ftr_status := TransferCancelled\<rparr>) (db_file_targets db)\<rparr>
      in fold (insertTransferTimelineEvent request)
           (map (cancel_event db now)
             (filter (\<lambda>r. tgt_transfer r = transferID \<and> tgt_status r = TransferCancelled) (db_targets db))) db)"

definition CancelTransfer :: "string \<Rightarrow> transfer_db \<Rightarrow> Session \<Rightarrow> string \<Rightarrow> time \<Rightarrow> Transfer outcome" where
  "CancelTransfer request db session transferID now =
     (let hit = (\<lambda>t. task_id t = transferID \<and> task_sender_user t = usr_ID session \<and> unfinished (task_status t))
      in if list_ex hit (db_tasks db)
         then let db' = cancel_targets request transferID now
                (db\<lparr>db_tasks := update_where hit (\<lambda>t. t\<lparr>task_status := TransferCancelled\<rparr>) (db_tasks db)\<rparr>)
              in (db', getTransfer db' session transferID)
         else (db, Inl ErrForbidden))"

definition HideTransfer :: "transfer_db \<Rightarrow> Session \<Rightarrow> string \<Rightarrow> time \<Rightarrow> unit outcome" where
  "HideTransfer db session transferID now =
     (let may_hide = (\<lambda>t. task_id t = transferID \<and> task_group_deleted_at t = None \<and>
            (task_sender_user t = usr_ID session \<or>
             sess_DeviceID session \<noteq> None \<and>
             list_ex (\<lambda>r. tgt_transfer r = transferID \<and>
               list_ex (\<lambda>d. dev_id d = tgt_device r \<and> dev_user d = usr_ID session) (db_devices db)) (db_targets db)));
          hidden = is_hidden db transferID (usr_ID session)
      in if hidden then (db, Inr ())
         else if list_ex may_hide (db_tasks db)
         then (db\<lparr>db_hidden := db_hidden db @
           [\<lparr>hid_transfer = transferID, hid_user = usr_ID session, hid_at = now\<rparr>]\<rparr>, Inr ())
         else (db, Inl ErrForbidden))"

definition mark_read :: "string \<Rightarrow> string \<Rightarrow> string \<Rightarrow> time \<Rightarrow> transfer_db \<Rightarrow> transfer_error + transfer_db" where
  "mark_read request transferID device now db =
     (let db = db\<lparr>db_targets := update_where (\<lambda>r. is_target transferID device r \<and> tgt_status r = TransferDelivered)
            (\<lambda>r. r\<lparr>tgt_status := TransferRead, tgt_read_at := Some now\<rparr>) (db_targets db)\<rparr>;
          db = upsert_delivery \<lparr>dl_transfer = transferID, dl_device = device, dl_delivered_at = Some now, dl_read_at = Some now\<rparr>
            (\<lambda>d. d\<lparr>dl_read_at := Some now\<rparr>) db;
          db = db\<lparr>db_executions := update_where (is_current db transferID device)
            (\<lambda>e. e\<lparr>ex_status := TransferRead, ex_completed_at := Some now\<rparr>) (db_executions db)\<rparr>
      in case latest_execution db transferID device of
           None \<Rightarrow> Inl ErrStore
         | Some e \<Rightarrow> Inr (insertTransferTimelineEvent request
             ((blank_event transferID EventTargetRead now)\<lparr>ev_TargetDeviceID := device, ev_ExecutionID := ex_id e,
                ev_Status := TransferRead\<rparr>) db))"

definition ReadTransfer :: "string \<Rightarrow> transfer_db \<Rightarrow> Session \<Rightarrow> string \<Rightarrow> time \<Rightarrow> Transfer outcome" where
  "ReadTransfer request db session transferID now =
     (case sess_DeviceID session of
        None \<Rightarrow> (db, Inl ErrForbidden)
      | Some device \<Rightarrow>
          if list_ex (\<lambda>r. is_target transferID device r \<and> tgt_status r = TransferDelivered) (db_targets db)
          then (case mark_read request transferID device now db of
              Inl e \<Rightarrow> (db, Inl e)
            | Inr db' \<Rightarrow> (db', getTransfer db' session transferID))
          else if list_ex (\<lambda>r. is_target transferID device r \<and> tgt_status r = TransferRead) (db_targets db)
          then (db, getTransfer db session transferID)
          else (db, Inl ErrForbidden))"

section \<open>Events reported by a client\<close>

definition may_report_event :: "transfer_db \<Rightarrow> string \<Rightarrow> string \<Rightarrow> TimelineEventReport \<Rightarrow> bool" where
  "may_report_event db actor transferID report \<longleftrightarrow>
     list_ex (\<lambda>t. task_id t = transferID \<and>
       list_ex (is_target transferID (er_TargetDeviceID report)) (db_targets db) \<and>
       (task_sender_device t = actor \<or> er_TargetDeviceID report = actor)) (db_tasks db) \<and>
     (er_FileID report = '''' \<or>
      list_ex (\<lambda>f. file_id f = er_FileID report \<and> file_transfer f = transferID) (db_files db)) \<and>
     (er_ExecutionID report = '''' \<or>
      list_ex (\<lambda>e. ex_id e = er_ExecutionID report) (executions_of db transferID (er_TargetDeviceID report)))"

text \<open>Milliseconds since the last attempt at a direct connection, for the two codes that end one.\<close>

definition handshake_millis :: "transfer_db \<Rightarrow> string \<Rightarrow> TimelineEventReport \<Rightarrow> time \<Rightarrow> int" where
  "handshake_millis db transferID report now =
     (if er_Code report = EventTLSAuthenticated \<or> er_Code report = EventFallbackSelected
      then case SliceStable (\<lambda>e f. (ev_OccurredAt f, ev_Sequence f) < (ev_OccurredAt e, ev_Sequence e))
             (filter (\<lambda>e. ev_TransferID e = transferID \<and> ev_TargetDeviceID e = er_TargetDeviceID report \<and>
                ev_Code e = EventDirectAttempted) (db_timeline db)) of
           [] \<Rightarrow> 0
         | e # _ \<Rightarrow> if ev_OccurredAt e < now then go_div (time_Sub now (ev_OccurredAt e)) millisecond else 0
      else 0)"

definition ReportTransferTimelineEvent ::
  "(TimelineEventReport \<Rightarrow> string) \<Rightarrow> string \<Rightarrow> transfer_db \<Rightarrow> Session \<Rightarrow> string \<Rightarrow> TimelineEventReport \<Rightarrow> time \<Rightarrow>
   TimelineEvent outcome"
where
  "ReportTransferTimelineEvent hash_of request db session transferID report now =
     (case sess_DeviceID session of
        None \<Rightarrow> (db, Inl ErrForbidden)
      | Some actor \<Rightarrow>
          let resource = ''/api/transfers/'' @ transferID @ ''/timeline''; key = er_IdempotencyKey report
          in (case find_record db actor ''POST'' resource key of
               Some i \<Rightarrow>
                 if idm_hash i \<noteq> hash_of report then (db, Inl ErrIdempotencyConflict)
                 else (case idm_response i of
                     Some (ResponseEvent event) \<Rightarrow> (db, Inr event)
                   | _ \<Rightarrow> (db, Inl ErrIdempotencyConflict))
             | None \<Rightarrow>
                 if \<not> may_report_event db actor transferID report then (db, Inl ErrForbidden)
                 else
                   let event = (blank_event transferID (er_Code report) now)\<lparr>ev_FileID := er_FileID report,
                         ev_TargetDeviceID := er_TargetDeviceID report, ev_ExecutionID := er_ExecutionID report,
                         ev_Route := er_Route report, ev_ErrorCode := er_ErrorCode report,
                         ev_DurationMillis := handshake_millis db transferID report now\<rparr>;
                       db1 = insertTransferTimelineEvent request event
                         (insert_record actor ''POST'' resource key (hash_of report) db);
                       result = last (db_timeline db1)
                   in (case completeIdempotencyRecord actor ''POST'' resource key (hash_of report) (ResponseEvent result) db1 of
                         Inl e \<Rightarrow> (db, Inl e)
                       | Inr db2 \<Rightarrow> (db2, Inr result))))"

end
