(* ===== verification/TransferHistory.thy ===== *)
theory TransferHistory
  imports TransferProgress
begin

text \<open>
  What the transfer operations keep: the rows of \<open>transfer_targets\<close> stay and only evolve along the
  status machine of \<open>internal/domain\<close>, the retry rule and cancellation, so that a delivered target
  is never restarted; a repeated report is answered without being applied again. A run is a
  sequence of operations by any sessions (\<open>store_step\<close>).
\<close>

section \<open>Tables an operation does not touch\<close>

lemma insert_event_simps [simp]:
  "db_targets (insertTransferTimelineEvent rq e db) = db_targets db"
  "db_tasks (insertTransferTimelineEvent rq e db) = db_tasks db"
  "db_idempotency (insertTransferTimelineEvent rq e db) = db_idempotency db"
  "db_executions (insertTransferTimelineEvent rq e db) = db_executions db"
  "db_files (insertTransferTimelineEvent rq e db) = db_files db"
  "db_file_targets (insertTransferTimelineEvent rq e db) = db_file_targets db"
  "db_hidden (insertTransferTimelineEvent rq e db) = db_hidden db"
  by (simp_all add: insertTransferTimelineEvent_def)

lemma insert_events_simps [simp]:
  "db_targets (fold (insertTransferTimelineEvent rq) es db) = db_targets db"
  "db_tasks (fold (insertTransferTimelineEvent rq) es db) = db_tasks db"
  by (induction es arbitrary: db) simp_all

lemma upsert_delivery_simps [simp]:
  "db_targets (upsert_delivery row f db) = db_targets db"
  "db_tasks (upsert_delivery row f db) = db_tasks db"
  "db_idempotency (upsert_delivery row f db) = db_idempotency db"
  "db_executions (upsert_delivery row f db) = db_executions db"
  "db_hidden (upsert_delivery row f db) = db_hidden db"
  by (simp_all add: upsert_delivery_def Let_def)

lemma record_delivery_simps [simp]:
  "db_targets (record_delivery t p now db) = db_targets db"
  "db_tasks (record_delivery t p now db) = db_tasks db"
  "db_idempotency (record_delivery t p now db) = db_idempotency db"
  "db_hidden (record_delivery t p now db) = db_hidden db"
  by (simp_all add: record_delivery_def Let_def)

lemma migrate_route_simps [simp]:
  "db_targets (migrate_route rq t p e route now db) = db_targets db"
  "db_tasks (migrate_route rq t p e route now db) = db_tasks db"
  "db_idempotency (migrate_route rq t p e route now db) = db_idempotency db"
  "db_hidden (migrate_route rq t p e route now db) = db_hidden db"
  by (simp_all add: migrate_route_def)

lemma insert_record_simps [simp]:
  "db_targets (insert_record d m r k h db) = db_targets db"
  "db_tasks (insert_record d m r k h db) = db_tasks db"
  "db_hidden (insert_record d m r k h db) = db_hidden db"
  by (simp_all add: insert_record_def)

lemma complete_record_simps:
  "completeIdempotencyRecord d m r k h resp db = Inr db' \<Longrightarrow>
     db_targets db' = db_targets db \<and> db_tasks db' = db_tasks db"
  by (auto simp: completeIdempotencyRecord_def Let_def split: if_splits)

lemma update_tasks_ids [simp]:
  "map task_id (update_where hit (\<lambda>t. t\<lparr>task_status := s t\<rparr>) ts) = map task_id ts"
  by simp

lemma apply_progress_tables:
  "db_targets (apply_progress rq t p row e now db) =
     update_where (is_target t (pg_DeviceID p))
       (progress_target p (if pg_Route p \<noteq> SelectedRouteOther '''' then pg_Route p else tgt_route row) now) (db_targets db)"
  "map task_id (db_tasks (apply_progress rq t p row e now db)) = map task_id (db_tasks db)"
  "db_idempotency (apply_progress rq t p row e now db) = db_idempotency db"
  "db_hidden (apply_progress rq t p row e now db) = db_hidden db"
  by (simp_all add: apply_progress_def update_task_status_def Let_def split: option.split)

section \<open>How one row evolves\<close>

definition status_step :: "TransferStatus \<Rightarrow> TransferStatus \<Rightarrow> bool" where
  "status_step s s' \<longleftrightarrow> s' = s \<or> CanTransitionTo s s' \<or>
     retryable s \<and> s' = TransferCheckingRoute \<or> unfinished s \<and> s' = TransferCancelled"

definition evolves :: "TargetRow \<Rightarrow> TargetRow \<Rightarrow> bool" where
  "evolves r r' \<longleftrightarrow> tgt_transfer r' = tgt_transfer r \<and> tgt_device r' = tgt_device r \<and>
     tgt_bytes r \<le> tgt_bytes r' \<and> status_step (tgt_status r) (tgt_status r')"

lemma evolves_refl [simp]: "evolves r r"
  by (simp add: evolves_def status_step_def)

lemma update_evolves:
  "(\<And>r. r \<in> set rows \<Longrightarrow> hit r \<Longrightarrow> evolves r (f r)) \<Longrightarrow> list_all2 evolves rows (update_where hit f rows)"
  by (induction rows) auto

definition target_key :: "TargetRow \<Rightarrow> string \<times> string" where
  "target_key r = (tgt_transfer r, tgt_device r)"

text \<open>The unique key of \<open>transfer_targets\<close> and its reference to \<open>transfer_tasks\<close>.\<close>

definition targets_ok :: "transfer_db \<Rightarrow> bool" where
  "targets_ok db \<longleftrightarrow> distinct (map target_key (db_targets db)) \<and>
     tgt_transfer ` set (db_targets db) \<subseteq> set (map task_id (db_tasks db))"

definition evolved :: "transfer_db \<Rightarrow> transfer_db \<Rightarrow> bool" where
  "evolved db db' \<longleftrightarrow> list_all2 evolves (db_targets db) (db_targets db') \<and>
     map task_id (db_tasks db') = map task_id (db_tasks db)"

lemma list_all2_evolves_keys:
  "list_all2 evolves rows rows' \<Longrightarrow> map target_key rows' = map target_key rows \<and>
     map tgt_transfer rows' = map tgt_transfer rows"
  by (induction rule: list_all2_induct) (auto simp: evolves_def target_key_def)

lemma evolved_refl [simp]: "evolved db db"
  by (simp add: evolved_def list_all2_refl)

lemma evolved_ok: "targets_ok db \<Longrightarrow> evolved db db' \<Longrightarrow> targets_ok db'"
  unfolding targets_ok_def evolved_def by (metis list_all2_evolves_keys set_map)

section \<open>The operations evolve the tables\<close>

lemma progress_allowed_step: "progress_allowed s s' \<Longrightarrow> status_step s s'"
  by (auto simp: progress_allowed_def status_step_def)

lemma report_on_target_evolved:
  assumes "targets_ok db" and "report_on_target rq actor session t p h now db = Inr (db', x)"
  shows "evolved db db'"
proof -
  obtain row e where row: "reportable_target db actor t (pg_DeviceID p) = Some (row, e)"
    using assms(2) by (auto simp: report_on_target_def split: option.splits)
  have row_in: "row \<in> set (db_targets db)" "is_target t (pg_DeviceID p) row"
    using row by (auto simp: reportable_target_def split: option.splits dest!: find_SomeD)
  let ?route = "if pg_Route p \<noteq> SelectedRouteOther '''' then pg_Route p else tgt_route row"
  consider "finish_report actor session t p h db = Inr (db', x)"
    | "progress_allowed (tgt_status row) (pg_Status p)"
      "finish_report actor session t p h (apply_progress rq t p row e now db) = Inr (db', x)"
    using assms(2) row by (auto simp: report_on_target_def Let_def split: if_splits)
  then show ?thesis
  proof cases
    case 1
    then have "db_targets db' = db_targets db \<and> db_tasks db' = db_tasks db"
      by (auto simp: finish_report_def split: if_splits dest: complete_record_simps)
    then show ?thesis by (simp add: evolved_def list_all2_refl)
  next
    case 2
    let ?db = "apply_progress rq t p row e now db"
    have same: "db_targets db' = db_targets ?db \<and> db_tasks db' = db_tasks ?db"
      using 2(2) by (auto simp: finish_report_def split: if_splits dest: complete_record_simps)
    have "evolves r (progress_target p ?route now r)" if "r \<in> set (db_targets db)" "is_target t (pg_DeviceID p) r" for r
    proof -
      have "distinct (map target_key (db_targets db))" using assms(1) by (simp add: targets_ok_def)
      then have "r = row"
        by (rule distinct_keyD [OF _ that(1) row_in(1)]) (use that(2) row_in(2) in \<open>simp add: is_target_def target_key_def\<close>)
      with 2(1) show ?thesis by (simp add: evolves_def progress_target_def progress_allowed_step)
    qed
    then show ?thesis
      using same by (auto simp: evolved_def apply_progress_tables intro: update_evolves)
  qed
qed

lemma Report_evolved:
  assumes "targets_ok db"
  shows "evolved db (fst (ReportTransferProgress hash_of rq db session t p now))"
proof -
  have "evolved db db'" if "report_on_target rq a session t p h now (insert_record a m r k h' db) = Inr (db', x)"
    for a m r k h h' db' x
  proof -
    have "evolved (insert_record a m r k h' db) db'"
      using that assms by (intro report_on_target_evolved) (simp_all add: targets_ok_def)
    then show ?thesis by (simp add: evolved_def)
  qed
  then show ?thesis
    using report_on_target_evolved [OF assms]
    by (auto simp: ReportTransferProgress_def Let_def split: option.split sum.split Response.split)
qed

lemma Retry_evolved:
  assumes "targets_ok db"
  shows "evolved db (fst (RetryTransferTarget rq eid db session t d key now))"
proof -
  have "evolved db (start_retry rq eid t d key now db)"
    if "find (\<lambda>r. is_target t d r \<and> Q) (db_targets db) = Some row" "retryable (tgt_status row)" for row Q
  proof -
    have row: "row \<in> set (db_targets db)" "is_target t d row" using that(1) by (auto dest: find_SomeD)
    have "distinct (map target_key (db_targets db))" using assms by (simp add: targets_ok_def)
    then have "r = row" if "r \<in> set (db_targets db)" "is_target t d r" for r
      by (rule distinct_keyD [OF _ that(1) row(1)]) (use that(2) row(2) in \<open>simp add: is_target_def target_key_def\<close>)
    with that(2) show ?thesis
      by (auto simp: evolved_def start_retry_def Let_def evolves_def status_step_def intro!: update_evolves)
  qed
  then show ?thesis
    by (auto simp: RetryTransferTarget_def Let_def split: option.split)
qed

lemma Cancel_evolved: "evolved db (fst (CancelTransfer rq db session t now))"
  by (auto simp: CancelTransfer_def cancel_targets_def Let_def evolved_def evolves_def status_step_def
      list_all2_refl intro!: update_evolves)

lemma mark_read_tables:
  "mark_read rq t d now db = Inr db' \<Longrightarrow>
     db_targets db' = update_where (\<lambda>r. is_target t d r \<and> tgt_status r = TransferDelivered)
       (\<lambda>r. r\<lparr>tgt_status := TransferRead, tgt_read_at := Some now\<rparr>) (db_targets db) \<and> db_tasks db' = db_tasks db"
  by (auto simp: mark_read_def Let_def split: option.splits)

lemma Delivered_to_Read: "CanTransitionTo TransferDelivered TransferRead"
  by code_simp

lemma Read_evolved: "evolved db (fst (ReadTransfer rq db session t now))"
proof -
  have "evolved db db'" if "mark_read rq t d now db = Inr db'" for d db'
    using mark_read_tables [OF that]
    by (auto simp: evolved_def evolves_def status_step_def Delivered_to_Read intro!: update_evolves)
  then show ?thesis
    by (auto simp: ReadTransfer_def split: option.split sum.split)
qed

lemma Hide_evolved: "evolved db (fst (HideTransfer db session t now))"
  by (simp add: HideTransfer_def Let_def evolved_def list_all2_refl)

lemma Event_evolved: "evolved db (fst (ReportTransferTimelineEvent hash_of rq db session t report now))"
  by (auto simp: ReportTransferTimelineEvent_def Let_def evolved_def list_all2_refl
      dest!: complete_record_simps split: option.split sum.split Response.split)

section \<open>Creation adds rows\<close>

lemma insert_status_events_simps [simp]:
  "db_targets (insert_status_events rq e db) = db_targets db"
  "db_tasks (insert_status_events rq e db) = db_tasks db"
  by (simp_all add: insert_status_events_def Let_def split: option.split)

definition new_row :: "string \<Rightarrow> Target \<Rightarrow> TargetRow" where
  "new_row transferID t = \<lparr>tgt_transfer = transferID, tgt_device = tg_DeviceID t, tgt_route = tg_SelectedRoute t,
     tgt_status = tg_Status t, tgt_bytes = 0, tgt_started_at = None, tgt_completed_at = None,
     tgt_read_at = None, tgt_error_code = None\<rparr>"

lemma insert_target_tables [simp]:
  "db_targets (insert_target rq ids p it db) = db_targets db @ [new_row (new_transfer ids) (snd it)]"
  "db_tasks (insert_target rq ids p it db) = db_tasks db"
  by (cases it; simp add: insert_target_def new_row_def Let_def)+

lemma insert_targets_tables [simp]:
  "db_targets (fold (insert_target rq ids p) its db) = db_targets db @ map (new_row (new_transfer ids) \<circ> snd) its"
  "db_tasks (fold (insert_target rq ids p) its db) = db_tasks db"
  by (induction its arbitrary: db) simp_all

lemma insert_file_targets_tables [simp]:
  "db_targets (fold (insert_file_target rq ids p) fts db) = db_targets db"
  "db_tasks (fold (insert_file_target rq ids p) fts db) = db_tasks db"
  by (induction fts arbitrary: db) (simp_all add: insert_file_target_def)

lemma insert_transfer_tables:
  "db_targets (insert_transfer rq ids session p db) = db_targets db @ map (new_row (new_transfer ids)) (pr_Targets p)"
  "map task_id (db_tasks (insert_transfer rq ids session p db)) = map task_id (db_tasks db) @ [new_transfer ids]"
  by (simp_all add: insert_transfer_def insert_files_def insert_message_def insert_keys_def insert_task_def Let_def
      flip: map_map)

lemma enforceTransferQuotas_tables:
  "enforceTransferQuotas db session p = Inr db' \<Longrightarrow> db_targets db' = db_targets db \<and> db_tasks db' = db_tasks db"
  by (auto simp: enforceTransferQuotas_def Let_def split: if_splits)

text \<open>Every row of the table before is still there, evolved.\<close>

definition keeps :: "transfer_db \<Rightarrow> transfer_db \<Rightarrow> bool" where
  "keeps db db' \<longleftrightarrow> (\<forall>r \<in> set (db_targets db). \<exists>r' \<in> set (db_targets db'). evolves r r')"

lemma evolved_keeps: "evolved db db' \<Longrightarrow> keeps db db'"
  unfolding evolved_def keeps_def by (metis in_set_conv_nth list_all2_conv_all_nth)

lemma Create_keeps:
  assumes "targets_ok db" and "new_transfer ids \<notin> set (map task_id (db_tasks db))"
    and "distinct (map tg_DeviceID (pr_Targets p))"
  shows "targets_ok (fst (CreateTransfer rq ids db session p)) \<and> keeps db (fst (CreateTransfer rq ids db session p))"
proof -
  have "targets_ok (insert_transfer rq ids session p db1) \<and> keeps db (insert_transfer rq ids session p db1)"
    if "enforceTransferQuotas db session p = Inr db1" for db1
  proof -
    have same: "db_targets db1 = db_targets db" "db_tasks db1 = db_tasks db"
      using enforceTransferQuotas_tables [OF that] by simp_all
    have "map target_key (map (new_row (new_transfer ids)) (pr_Targets p)) =
        map (Pair (new_transfer ids)) (map tg_DeviceID (pr_Targets p))"
      by (simp add: target_key_def new_row_def)
    then have "distinct (map target_key (map (new_row (new_transfer ids)) (pr_Targets p)))"
      using assms(3) by (simp add: distinct_map inj_on_def)
    moreover have neq: "target_key r \<noteq> target_key (new_row (new_transfer ids) t)" if "r \<in> set (db_targets db)" for r t
    proof -
      have "tgt_transfer r \<in> set (map task_id (db_tasks db))"
        using that assms(1) by (auto simp only: targets_ok_def)
      with assms(2) show ?thesis by (auto simp: target_key_def new_row_def)
    qed
    moreover have "set (map target_key (db_targets db)) \<inter>
        set (map target_key (map (new_row (new_transfer ids)) (pr_Targets p))) = {}"
      using neq by (auto simp only: set_map disjoint_iff image_iff) metis
    moreover have "tgt_transfer ` set (map (new_row (new_transfer ids)) (pr_Targets p)) \<subseteq> {new_transfer ids}"
      by (auto simp: new_row_def)
    ultimately have "targets_ok (insert_transfer rq ids session p db1)"
      using assms(1) unfolding targets_ok_def insert_transfer_tables same map_append distinct_append
        set_append image_Un by (auto simp: new_row_def)
    moreover have "keeps db (insert_transfer rq ids session p db1)"
      unfolding keeps_def insert_transfer_tables same set_append using evolves_refl by blast
    ultimately show ?thesis by blast
  qed
  moreover have "keeps db db" unfolding keeps_def using evolves_refl by blast
  ultimately show ?thesis
    using assms(1) by (auto simp: CreateTransfer_def Let_def split: option.split sum.split)
qed

section \<open>Runs of the store\<close>

inductive store_step :: "transfer_db \<Rightarrow> transfer_db \<Rightarrow> bool" where
  create: "new_transfer ids \<notin> set (map task_id (db_tasks db)) \<Longrightarrow> distinct (map tg_DeviceID (pr_Targets p)) \<Longrightarrow>
    store_step db (fst (CreateTransfer rq ids db session p))"
| report: "store_step db (fst (ReportTransferProgress hash_of rq db session t p now))"
| retry: "store_step db (fst (RetryTransferTarget rq eid db session t d key now))"
| cancel: "store_step db (fst (CancelTransfer rq db session t now))"
| read: "store_step db (fst (ReadTransfer rq db session t now))"
| hide: "store_step db (fst (HideTransfer db session t now))"
| event: "store_step db (fst (ReportTransferTimelineEvent event_hash rq db session t report now))"

lemma store_step_keeps: "store_step db db' \<Longrightarrow> targets_ok db \<Longrightarrow> targets_ok db' \<and> keeps db db'"
proof (induction rule: store_step.induct)
  case (create ids db p rq session)
  then show ?case using Create_keeps by blast
next
  case (report db hash_of rq session t p now)
  then show ?case by (meson Report_evolved evolved_keeps evolved_ok)
next
  case (retry db rq eid session t d key now)
  then show ?case by (meson Retry_evolved evolved_keeps evolved_ok)
next
  case (cancel db rq session t now)
  then show ?case by (meson Cancel_evolved evolved_keeps evolved_ok)
next
  case (read db rq session t now)
  then show ?case by (meson Read_evolved evolved_keeps evolved_ok)
next
  case (hide db session t now)
  then show ?case by (meson Hide_evolved evolved_keeps evolved_ok)
next
  case (event db event_hash rq session t report now)
  then show ?case by (meson Event_evolved evolved_keeps evolved_ok)
qed

text \<open>What a run may do to a target, over any number of operations.\<close>

definition history :: "TargetRow \<Rightarrow> TargetRow \<Rightarrow> bool" where
  "history r r' \<longleftrightarrow> target_key r' = target_key r \<and> tgt_bytes r \<le> tgt_bytes r' \<and>
     (tgt_status r \<in> {TransferRead, TransferCancelled, TransferExpired} \<longrightarrow> tgt_status r' = tgt_status r) \<and>
     (tgt_status r = TransferDelivered \<longrightarrow> tgt_status r' \<in> {TransferDelivered, TransferRead})"

lemma evolves_history: "evolves r r' \<Longrightarrow> history r r'"
  using CanTransitionTo_iff [of "tgt_status r" "tgt_status r'"]
  by (auto simp: evolves_def history_def target_key_def status_step_def retryable_def unfinished_def)

lemma history_trans: "history r r' \<Longrightarrow> history r' r'' \<Longrightarrow> history r r''"
  by (auto simp: history_def)

lemma store_steps_history:
  assumes "store_step\<^sup>*\<^sup>* db db'" and "targets_ok db"
  shows "targets_ok db' \<and> (\<forall>r \<in> set (db_targets db). \<exists>r' \<in> set (db_targets db'). history r r')"
  using assms
proof (induction rule: rtranclp_induct)
  case base
  then show ?case using evolves_history evolves_refl by blast
next
  case (step db1 db2)
  then have "targets_ok db2 \<and> keeps db1 db2" using store_step_keeps by blast
  with step show ?case unfolding keeps_def by (meson evolves_history history_trans)
qed

text \<open>
  C8. Whatever sequence of creations, progress reports, retries, cancellations, reads, hides and
  timeline reports any sessions perform on the Node's tables, a transfer target never disappears
  and never loses bytes; once it is delivered it can only become read, and once it is read,
  cancelled or expired its status never changes again.
\<close>

theorem delivered_targets_stay:
  assumes "targets_ok db" and "store_step\<^sup>*\<^sup>* db db'" and "r \<in> set (db_targets db)"
  shows "\<exists>r'. find (is_target (tgt_transfer r) (tgt_device r)) (db_targets db') = Some r' \<and>
    tgt_bytes r \<le> tgt_bytes r' \<and>
    (tgt_status r \<in> {TransferRead, TransferCancelled, TransferExpired} \<longrightarrow> tgt_status r' = tgt_status r) \<and>
    (tgt_status r = TransferDelivered \<longrightarrow> tgt_status r' \<in> {TransferDelivered, TransferRead})"
proof -
  obtain r' where r': "r' \<in> set (db_targets db')" "history r r'" and ok: "targets_ok db'"
    using store_steps_history [OF assms(2,1)] assms(3) by blast
  have "find (is_target (tgt_transfer r) (tgt_device r)) (db_targets db') = Some r'"
  proof (rule find_unique)
    show "is_target (tgt_transfer r) (tgt_device r) r'" using r' by (simp add: history_def target_key_def is_target_def)
    fix y assume y: "y \<in> set (db_targets db')" "is_target (tgt_transfer r) (tgt_device r) y"
    have "distinct (map target_key (db_targets db'))" using ok by (simp add: targets_ok_def)
    then show "y = r'"
      by (rule distinct_keyD [OF _ y(1) r'(1)]) (use y r'(2) in \<open>simp add: history_def target_key_def is_target_def\<close>)
  qed (rule r')
  with r'(2) show ?thesis by (simp add: history_def)
qed


section \<open>An example\<close>

definition sample_task :: "TransferStatus \<Rightarrow> TaskRow" where
  "sample_task s = \<lparr>task_id = ''t1'', task_sender_user = ''u1'', task_sender_device = ''d0'', task_group = None,
     task_batch = None, task_idempotency_key = None, task_fingerprint = ''f'', task_target_type = TargetSingle,
     task_content_type = ContentFile, task_file_count = 1, task_total_size = 250, task_status = s,
     task_created_at = 1, task_expires_at = 1000, task_group_deleted_at = None\<rparr>"

definition sample_target :: "TransferStatus \<Rightarrow> TargetRow" where
  "sample_target s = \<lparr>tgt_transfer = ''t1'', tgt_device = ''d1'', tgt_route = SelectedRouteNode, tgt_status = s,
     tgt_bytes = 10, tgt_started_at = None, tgt_completed_at = None, tgt_read_at = None, tgt_error_code = None\<rparr>"

definition sample_execution :: "TransferStatus \<Rightarrow> ExecutionRow" where
  "sample_execution s = \<lparr>ex_id = ''e1'', ex_transfer = ''t1'', ex_device = ''d1'', ex_attempt = 1, ex_status = s,
     ex_started_at = 1, ex_completed_at = None, ex_idempotency_key = None, ex_error_code = None\<rparr>"

definition sample_db :: "TransferStatus \<Rightarrow> transfer_db" where
  "sample_db s = \<lparr>db_tasks = [sample_task s], db_targets = [sample_target s], db_executions = [sample_execution s],
     db_routes = [], db_deliveries = [], db_files = [], db_file_targets = [], db_keys = [], db_messages = [],
     db_hidden = [], db_notices = [], db_devices = [], db_group_devices = [], db_group_members = [],
     db_timeline = [], db_idempotency = [],
     db_settings = \<lparr>set_single_file_limit = 1000, set_default_user_quota = 1000, set_default_group_quota = 1000,
       set_node_cache_limit = 1000, set_default_user_daily = 1000, set_default_group_daily = 1000,
       set_warning_percent = 80, set_stop_percent = 95\<rparr>,
     db_quotas = [], db_warnings = 0\<rparr>"

lemmas sample_defs = sample_task_def sample_target_def sample_execution_def sample_db_def

lemma sample_ok: "targets_ok (sample_db s)"
  by (simp add: targets_ok_def sample_defs)

theorem delivered_targets_stay_witness:
  "\<exists>r'. find (is_target ''t1'' ''d1'')
      (db_targets (fst (CancelTransfer ''rq'' (sample_db TransferDelivered) (example_session ''d0'') ''t1'' 5))) = Some r' \<and>
    tgt_status r' \<in> {TransferDelivered, TransferRead}"
proof -
  have "store_step\<^sup>*\<^sup>* (sample_db TransferDelivered)
      (fst (CancelTransfer ''rq'' (sample_db TransferDelivered) (example_session ''d0'') ''t1'' 5))"
    by (rule r_into_rtranclp) (rule store_step.cancel)
  from delivered_targets_stay [OF sample_ok this, of "sample_target TransferDelivered"]
  show ?thesis by (auto simp: sample_defs)
qed

section \<open>Repeated and blocked reports\<close>

lemma find_update_where:
  "find P xs = None \<Longrightarrow> (\<And>x. x \<in> set xs \<Longrightarrow> hit x \<Longrightarrow> P x) \<Longrightarrow> find P (update_where hit f xs) = None"
  by (induction xs) (auto split: if_splits)

lemma completed_record:
  assumes "find_record db d m r k = None"
    and "completeIdempotencyRecord d m r k h resp db' = Inr db''"
    and "db_idempotency db' = db_idempotency (insert_record d m r k h db)"
  shows "\<exists>i. find_record db'' d m r k = Some i \<and> idm_hash i = h \<and> idm_response i = Some resp"
proof -
  let ?hit = "\<lambda>i. idm_device i = d \<and> idm_method i = m \<and> idm_resource i = r \<and> idm_key i = k \<and>
      idm_hash i = h \<and> idm_response i = None"
  let ?P = "\<lambda>i. idm_device i = d \<and> idm_method i = m \<and> idm_resource i = r \<and> idm_key i = k"
  have none: "find ?P (db_idempotency db) = None" using assms(1) by (simp add: find_record_def)
  have "find ?P (update_where ?hit (\<lambda>i. i\<lparr>idm_response := Some resp\<rparr>) (db_idempotency db)) = None"
    using none by (rule find_update_where) simp
  moreover have "db_idempotency db'' =
      update_where ?hit (\<lambda>i. i\<lparr>idm_response := Some resp\<rparr>) (db_idempotency db)
      @ [\<lparr>idm_device = d, idm_method = m, idm_resource = r, idm_key = k, idm_hash = h, idm_response = Some resp\<rparr>]"
    using assms(2,3)
    by (auto simp: completeIdempotencyRecord_def Let_def insert_record_def update_where_def split: if_splits)
  ultimately show ?thesis by (simp add: find_record_def find_append)
qed

lemma report_completes:
  assumes "report_on_target rq actor session t p h now (insert_record actor ''PUT'' (progress_resource t (pg_DeviceID p)) (pg_IdempotencyKey p) h db) = Inr (db', x)"
    and "pg_IdempotencyKey p \<noteq> ''''" and "find_record db actor ''PUT'' (progress_resource t (pg_DeviceID p)) (pg_IdempotencyKey p) = None"
  shows "\<exists>i. find_record db' actor ''PUT'' (progress_resource t (pg_DeviceID p)) (pg_IdempotencyKey p) = Some i \<and>
    idm_hash i = h \<and> idm_response i = Some (ResponseTransfer x)"
proof -
  let ?db = "insert_record actor ''PUT'' (progress_resource t (pg_DeviceID p)) (pg_IdempotencyKey p) h db"
  obtain db1 where "finish_report actor session t p h db1 = Inr (db', x)" "db_idempotency db1 = db_idempotency ?db"
    using assms(1) by (auto simp: report_on_target_def Let_def apply_progress_tables split: option.splits if_splits)
  with assms(2,3) show ?thesis
    by (auto simp: finish_report_def split: if_splits intro: completed_record)
qed

text \<open>
  A progress report with an idempotency key is applied once: when it has succeeded, sending it
  again from the same device, for the same target, at any later time, returns the same answer and
  leaves the tables untouched, and sending a different report with the same key is refused.
\<close>

theorem ReportTransferProgress_replay:
  assumes "ReportTransferProgress hash_of rq db session t p now = (db', Inr x)"
    and "pg_IdempotencyKey p \<noteq> ''''"
    and "pg_DeviceID q = pg_DeviceID p" and "pg_IdempotencyKey q = pg_IdempotencyKey p"
  shows "ReportTransferProgress hash_of rq' db' session t q later =
    (if hash_of q = hash_of p then (db', Inr x) else (db', Inl ErrIdempotencyConflict))"
proof -
  obtain actor where actor: "sess_DeviceID session = Some actor"
    using assms(1) by (auto simp: ReportTransferProgress_def split: option.splits)
  let ?r = "progress_resource t (pg_DeviceID p)"
  have "\<exists>i. find_record db' actor ''PUT'' ?r (pg_IdempotencyKey p) = Some i \<and>
      idm_hash i = hash_of p \<and> idm_response i = Some (ResponseTransfer x)"
  proof (cases "find_record db actor ''PUT'' ?r (pg_IdempotencyKey p)")
    case None
    then have "report_on_target rq actor session t p (hash_of p) now
        (insert_record actor ''PUT'' ?r (pg_IdempotencyKey p) (hash_of p) db) = Inr (db', x)"
      using assms(1,2) actor by (auto simp: ReportTransferProgress_def Let_def split: sum.splits)
    then show ?thesis using report_completes assms(2) None by blast
  next
    case (Some i)
    then show ?thesis
      using assms(1,2) actor
      by (auto simp: ReportTransferProgress_def Let_def split: if_splits option.splits Response.splits)
  qed
  then obtain i where "find_record db' actor ''PUT'' ?r (pg_IdempotencyKey p) = Some i"
    "idm_hash i = hash_of p" "idm_response i = Some (ResponseTransfer x)" by blast
  then show ?thesis
    using actor assms(2-4) by (auto simp: ReportTransferProgress_def Let_def)
qed

lemma hidden_not_visible: "is_hidden db t (usr_ID session) \<Longrightarrow> getTransfer db session t = Inl ErrNotFound"
  by (auto simp: getTransfer_def visible_def intro: find_eq_NoneI split: option.split dest!: find_SomeD)

lemma apply_progress_hidden: "is_hidden (apply_progress rq t p row e now db) = is_hidden db"
  by (intro ext) (simp add: is_hidden_def apply_progress_tables)

text \<open>
  Hiding is not only a matter of the history view: once a user has hidden a transfer, no
  device of that user can report any further progress on it, neither the receiving device nor the
  sending one. Every report fails and is rolled back, because the transfer is read back through
  the hidden filter before the transaction commits.
\<close>

theorem hidden_transfer_blocks_progress:
  assumes "HideTransfer db session t now = (db', Inr ())" and "usr_ID device_session = usr_ID session"
    and "pg_IdempotencyKey p = ''''"
  shows "\<exists>e. ReportTransferProgress hash_of rq db' device_session t p later = (db', Inl e)"
proof -
  have hidden: "is_hidden db' t (usr_ID device_session)"
    using assms(1,2) by (auto simp: HideTransfer_def Let_def is_hidden_def split: if_splits)
  have "report_on_target rq actor device_session t p h later db' \<noteq> Inr y" for actor h y
    using hidden_not_visible [OF hidden] hidden_not_visible [of "apply_progress rq t p row e later db'" t device_session for row e]
    by (auto simp: report_on_target_def finish_report_def apply_progress_hidden hidden Let_def split: option.splits)
  then show ?thesis
    using assms(3) by (auto simp: ReportTransferProgress_def Let_def split: option.split sum.split)
qed


definition sample_progress :: "string \<Rightarrow> Progress" where
  "sample_progress key = \<lparr>pg_IdempotencyKey = key, pg_DeviceID = ''d1'', pg_Status = TransferDelivered,
     pg_Route = SelectedRouteOther '''', pg_BytesTransferred = 250, pg_ErrorCode = ''''\<rparr>"

lemma sample_report_succeeds:
  "case snd (ReportTransferProgress (\<lambda>p. ''h'') ''rq'' (sample_db TransferVerifying) (example_session ''d1'') ''t1''
      (sample_progress ''k'') 9) of Inl e \<Rightarrow> False | Inr x \<Rightarrow> tr_Status x = TransferDelivered"
  by code_simp

theorem ReportTransferProgress_replay_witness:
  "\<exists>db' x. ReportTransferProgress (\<lambda>p. ''h'') ''rq'' (sample_db TransferVerifying) (example_session ''d1'') ''t1''
      (sample_progress ''k'') 9 = (db', Inr x) \<and> tr_Status x = TransferDelivered \<and>
    ReportTransferProgress (\<lambda>p. ''h'') ''other'' db' (example_session ''d1'') ''t1'' (sample_progress ''k'') 30 = (db', Inr x)"
proof -
  obtain db' x where report: "ReportTransferProgress (\<lambda>p. ''h'') ''rq'' (sample_db TransferVerifying)
      (example_session ''d1'') ''t1'' (sample_progress ''k'') 9 = (db', Inr x)" and "tr_Status x = TransferDelivered"
    using sample_report_succeeds
    by (cases "ReportTransferProgress (\<lambda>p. ''h'') ''rq'' (sample_db TransferVerifying)
        (example_session ''d1'') ''t1'' (sample_progress ''k'') 9") (simp split: sum.splits)
  moreover have "pg_IdempotencyKey (sample_progress ''k'') \<noteq> ''''" by (simp add: sample_progress_def)
  ultimately show ?thesis
    using ReportTransferProgress_replay [OF report, of "sample_progress ''k''" "''other''" 30] by auto
qed

theorem hidden_transfer_blocks_progress_witness:
  "\<exists>db' e. HideTransfer (sample_db TransferVerifying) (example_session ''d0'') ''t1'' 3 = (db', Inr ()) \<and>
    ReportTransferProgress (\<lambda>p. ''h'') ''rq'' db' (example_session ''d1'') ''t1'' (sample_progress '''') 9 = (db', Inl e)"
proof -
  obtain db' where hide: "HideTransfer (sample_db TransferVerifying) (example_session ''d0'') ''t1'' 3 = (db', Inr ())"
    by (simp add: HideTransfer_def is_hidden_def sample_defs example_session_def)
  have "usr_ID (example_session ''d1'') = usr_ID (example_session ''d0'')" "pg_IdempotencyKey (sample_progress '''') = ''''"
    by (simp_all add: example_session_def sample_progress_def)
  with hidden_transfer_blocks_progress [OF hide this] hide show ?thesis by blast
qed

end
