(* ===== verification/FileHistory.thy ===== *)
theory FileHistory
  imports FileTransfer TransferHistory
begin

text \<open>
  File operations among the other operations of the Node: two completions of the same file that
  overlap, and the completion of a file whose transfer has been cancelled.
\<close>

section \<open>Examples\<close>

definition sample_file_row :: FileRow where
  "sample_file_row = \<lparr>file_id = ''f1'', file_transfer = ''t1'', file_name = ''a.bin'', file_mime = '''', file_size = 5,
     file_sha256 = take 32 (''abcde'' @ replicate 32 CHR ''x''), file_chunk_size = 2, file_chunk_count = 3,
     file_status = ''UPLOADING'', file_storage_path = '''', file_expires_at = 1000, file_completed_at = None\<rparr>"

definition sample_sha :: "string \<Rightarrow> string" where
  "sample_sha s = take 32 (s @ replicate 32 CHR ''x'')"

definition sample_root :: string where
  "sample_root = abs_path [''data'']"

definition sample_tables :: "TransferStatus \<Rightarrow> file_tables" where
  "sample_tables s = \<lparr>ft_db = (sample_db s)\<lparr>db_files := [sample_file_row],
     db_file_targets := [\<lparr>ftr_file = ''f1'', ftr_device = ''d1'', ftr_route = SelectedRouteNode, ftr_status = s\<rparr>]\<rparr>,
     ft_chunks = []\<rparr>"

definition sample_chunk :: "int \<Rightarrow> string \<Rightarrow> ChunkRecord" where
  "sample_chunk i p = \<lparr>cr_FileID = ''f1'', cr_Index = i, cr_Size = int (length p), cr_SHA256 = sample_sha p,
     cr_StoragePath = chunk_file sample_root ''f1'' i (sample_sha p), cr_CompletedAt = 2\<rparr>"

text \<open>All three chunks stored.\<close>

definition sample_store :: "file_tables \<times> disk" where
  "sample_store =
     ((sample_tables TransferQueued)\<lparr>ft_chunks := [sample_chunk 0 ''ab'', sample_chunk 1 ''cd'', sample_chunk 2 ''e'']\<rparr>,
      [chunk_file sample_root ''f1'' 0 (sample_sha ''ab'') \<mapsto> ''ab'',
       chunk_file sample_root ''f1'' 1 (sample_sha ''cd'') \<mapsto> ''cd'',
       chunk_file sample_root ''f1'' 2 (sample_sha ''e'') \<mapsto> ''e''])"

lemmas sample_file_defs = sample_tables_def sample_file_row_def sample_defs example_session_def

lemma sample_root_ok: "storage_root sample_root"
  unfolding storage_root_def sample_root_def by (rule exI [of _ "[''data'']"]) (simp add: plain_segment_def)

lemma sample_f1: "plain_segment ''f1''" "CHR ''.'' \<notin> set ''f1''"
  by (simp_all add: plain_segment_def)

lemma sample_store_ok: "store_ok sample_sha sample_root sample_store"
proof -
  have "chunk_file sample_root ''f1'' i d \<noteq> chunk_file sample_root ''f1'' j e" if "0 \<le> i" "0 \<le> j" "i \<noteq> j" for i j d e
    using chunk_file_inject [OF sample_root_ok sample_f1(1) sample_f1(1) that(1,2)] that(3) by blast
  then show ?thesis
    by (simp add: store_ok_def sample_store_def chunk_ok_def sample_chunk_def chunk_key_def sample_f1)
qed

lemma sample_uploading: "uploading (sample_tables s) (example_session ''d0'') sample_file_row"
  by (simp add: uploading_def own_file_def sends_def node_target_def device_in_def sample_file_defs)

lemma sample_complete:
  "\<exists>s' file. Complete sample_sha sample_root ''7'' NoFault ''rq'' 9 sample_store (example_session ''d0'') ''f1'' = (s', Inr file)"
proof -
  have "case snd (Complete sample_sha sample_root ''7'' NoFault ''rq'' 9 sample_store (example_session ''d0'') ''f1'') of
      Inl e \<Rightarrow> False | Inr file \<Rightarrow> True" by code_simp
  then show ?thesis
    by (cases "Complete sample_sha sample_root ''7'' NoFault ''rq'' 9 sample_store (example_session ''d0'') ''f1''")
      (auto split: sum.splits)
qed

section \<open>Overlapping completions\<close>

lemma assemble_cong:
  "(\<And>c. c \<in> set cs \<Longrightarrow> disk' (cr_StoragePath c) = disk (cr_StoragePath c)) \<Longrightarrow>
     assemble sha fault disk' k w cs = assemble sha fault disk k w cs"
  by (induction cs arbitrary: k w) (auto split: option.split)

lemma completed_row:
  assumes "CompleteFile request st session f path at = (st', Inr ())"
  shows "\<exists>row \<in> set (db_files (ft_db st')). file_id row = f \<and> file_status row = ''AVAILABLE_ON_NODE'' \<and> file_storage_path row = path"
    and "CompleteFile request' st' session f path' at' = (st', Inl ErrConflict)"
proof -
  obtain row where row: "row \<in> set (db_files (ft_db st))" "file_id row = f"
    and st': "st' = st\<lparr>ft_db := available_tables request (file_transfer row) f path at (ft_db st)\<rparr>"
    using assms by (auto simp: CompleteFile_def own_file_def split: option.splits dest!: find_SomeD)
  have files: "db_files (ft_db st') = update_where (\<lambda>r. file_id r = f) (publish_row path at) (db_files (ft_db st))"
    by (simp add: st' available_tables_def)
  show "\<exists>row \<in> set (db_files (ft_db st')). file_id row = f \<and> file_status row = ''AVAILABLE_ON_NODE'' \<and> file_storage_path row = path"
  proof (rule bexI [of _ "publish_row path at row"])
    show "publish_row path at row \<in> set (db_files (ft_db st'))"
      unfolding files set_update_where using row by blast
  qed (use row in \<open>simp add: publish_row_def\<close>)
  have "find (\<lambda>r. own_file (ft_db st') session f r \<and> file_status r = ''UPLOADING'') (db_files (ft_db st')) = None"
  proof (rule find_eq_NoneI)
    fix x assume "x \<in> set (db_files (ft_db st'))"
    then consider r where "x = publish_row path at r" | "file_id x \<noteq> f"
      unfolding files set_update_where by blast
    then show "\<not> (own_file (ft_db st') session f x \<and> file_status x = ''UPLOADING'')"
      by cases (simp_all add: publish_row_def own_file_def)
  qed
  then show "CompleteFile request' st' session f path' at' = (st', Inl ErrConflict)" by (simp add: CompleteFile_def)
qed

text \<open>
  C14. Two completions of one file that overlap destroy it: when a second request has read the
  file's row and chunks before the first one finishes, and then does the rest of its work
  undisturbed, it is answered with a conflict and, on its way out, removes the file the first
  request has published; the row still says the file is available on the Node, at a path that no
  longer exists.
\<close>

theorem overlapping_completions_lose_file:
  assumes "store_ok sha root s" and "storage_root root" and "plain_segment f" and "slash \<notin> set rnd" and "slash \<notin> set rnd'"
    and "PrepareFileCompletion (fst s) session f = Inr (prepared, cs)"
    and first: "finish_completion sha root rnd fault request now s session f prepared cs = (s1, Inr published)"
    and second: "finish_completion sha root rnd' NoFault request' later s1 session f prepared cs = (s2, out)"
  shows "snd s1 (final_path root f) \<noteq> None \<and> out = Inl ErrConflict \<and> snd s2 (final_path root f) = None \<and>
    (\<exists>row \<in> set (db_files (ft_db (fst s2))). file_id row = f \<and> file_status row = ''AVAILABLE_ON_NODE'' \<and>
       file_storage_path row = final_path root f)"
proof -
  obtain st disk where s: "s = (st, disk)" by (cases s)
  have cs: "cs = file_chunks st f" using assms(6) by (auto simp: PrepareFileCompletion_Inr s)
  obtain bytes st1 where parts: "int (length cs) = fr_ChunkCount prepared" "assemble sha fault disk 0 [] cs = Inr bytes"
    "sha bytes = fr_SHA256 prepared" "CompleteFile request st session f (final_path root f) now = (st1, Inr ())"
    "s1 = (st1, disk(assemble_temporary root rnd := None, final_path root f \<mapsto> bytes))"
    using first by (auto simp: finish_completion_def s Let_def split: if_splits sum.splits prod.splits)
  let ?disk = "disk(assemble_temporary root rnd := None, final_path root f \<mapsto> bytes)"
  have "assemble sha NoFault disk k w xs = Inr b" if "assemble sha fault disk k w xs = Inr b" for k w xs b
    using that by (induction xs arbitrary: k w) (auto split: option.splits if_splits)
  moreover have "?disk (cr_StoragePath c) = disk (cr_StoragePath c)" if "c \<in> set cs" for c
    using chunk_apart [OF assms(1) [unfolded s] assms(2,3,4), of c] that by (auto simp: cs file_chunks_def)
  ultimately have again: "assemble sha NoFault ?disk 0 [] cs = Inr bytes"
    using parts(2) assemble_cong [of cs ?disk disk] by auto
  have "CompleteFile request' st1 session f (final_path root f) later = (st1, Inl ErrConflict)"
    by (rule completed_row(2) [OF parts(4)])
  then have s2: "(s2, out) = ((st1, ?disk(assemble_temporary root rnd' := None, final_path root f := None)), Inl ErrConflict)"
    using second parts(1,3) again unfolding parts(5) by (simp add: finish_completion_def Let_def)
  then show ?thesis using completed_row(1) [OF parts(4)] by (simp add: parts(5))
qed

lemma sample_prepared:
  "PrepareFileCompletion (fst sample_store) (example_session ''d0'') ''f1'' =
     Inr (file_record sample_file_row, file_chunks (fst sample_store) ''f1'')"
  using sample_uploading [of TransferQueued]
  unfolding PrepareFileCompletion_Inr uploading_def by (simp add: sample_store_def) (simp add: sample_file_row_def)

theorem overlapping_completions_lose_file_witness:
  "\<exists>s1 s2 published.
     finish_completion sample_sha sample_root ''7'' NoFault ''rq'' 9 sample_store (example_session ''d0'') ''f1''
       (file_record sample_file_row) (file_chunks (fst sample_store) ''f1'') = (s1, Inr published) \<and>
     finish_completion sample_sha sample_root ''8'' NoFault ''rq2'' 10 s1 (example_session ''d0'') ''f1''
       (file_record sample_file_row) (file_chunks (fst sample_store) ''f1'') = (s2, Inl ErrConflict) \<and>
     snd s1 (final_path sample_root ''f1'') \<noteq> None \<and> snd s2 (final_path sample_root ''f1'') = None"
proof -
  let ?finish = "\<lambda>rnd rq now s. finish_completion sample_sha sample_root rnd NoFault rq now s (example_session ''d0'') ''f1''
       (file_record sample_file_row) (file_chunks (fst sample_store) ''f1'')"
  have status: "fr_Status (file_record sample_file_row) \<noteq> ''AVAILABLE_ON_NODE''"
    by (simp add: file_record_def sample_file_row_def)
  obtain s1 published where first: "?finish ''7'' ''rq'' 9 sample_store = (s1, Inr published)"
    using sample_complete sample_prepared status by (auto simp: Complete_def)
  obtain s2 out where second: "?finish ''8'' ''rq2'' 10 s1 = (s2, out)" by (cases "?finish ''8'' ''rq2'' 10 s1")
  have "slash \<notin> set ''7''" "slash \<notin> set ''8''" by simp_all
  from overlapping_completions_lose_file [OF sample_store_ok sample_root_ok sample_f1(1) this sample_prepared first second]
  have "snd s1 (final_path sample_root ''f1'') \<noteq> None" "out = Inl ErrConflict" "snd s2 (final_path sample_root ''f1'') = None"
    by blast+
  with first second show ?thesis by blast
qed

section \<open>Completing a file of a cancelled transfer\<close>


text \<open>
  Cancelling a transfer does not stop the upload of its files: completing a file afterwards
  succeeds and sets every Node target of the transfer to available, also those the cancellation has
  just finished, so that cancelled targets start again.
\<close>

theorem completion_restarts_cancelled:
  assumes "CancelTransfer request db session t now = (db', Inr cancelled)"
    and "row \<in> set (db_files db)" and "own_file db session f row" and "file_transfer row = t" and "file_status row = ''UPLOADING''"
    and "\<And>row'. row' \<in> set (db_files db) \<Longrightarrow> file_id row' = f \<Longrightarrow> row' = row"
    and "r \<in> set (db_targets db)" and "tgt_transfer r = t" and "tgt_route r = SelectedRouteNode" and "unfinished (tgt_status r)"
  shows "\<exists>r' \<in> set (db_targets db'). tgt_device r' = tgt_device r \<and> tgt_status r' = TransferCancelled \<and>
    (\<exists>st. CompleteFile request' \<lparr>ft_db = db', ft_chunks = cs\<rparr> session f path at = (st, Inr ()) \<and>
      (\<exists>r'' \<in> set (db_targets (ft_db st)). r'' = r'\<lparr>tgt_status := TransferAvailableOnNode\<rparr>))"
proof -
  let ?hit = "\<lambda>k. task_id k = t \<and> task_sender_user k = usr_ID session \<and> unfinished (task_status k)"
  let ?db = "db\<lparr>db_tasks := update_where ?hit (\<lambda>k. k\<lparr>task_status := TransferCancelled\<rparr>) (db_tasks db)\<rparr>"
  have db': "db' = cancel_targets request t now ?db"
    using assms(1) by (auto simp: CancelTransfer_def Let_def split: if_splits)
  have fold_files: "db_files (fold (insertTransferTimelineEvent request) es d) = db_files d" for es d
    by (induction es arbitrary: d) simp_all
  have files: "db_files db' = db_files db" by (simp add: db' cancel_targets_def Let_def fold_files)
  have targets: "db_targets db' = update_where (\<lambda>r. tgt_transfer r = t \<and> unfinished (tgt_status r))
      (\<lambda>r. r\<lparr>tgt_status := TransferCancelled, tgt_completed_at := Some now\<rparr>) (db_targets db)"
    by (simp add: db' cancel_targets_def Let_def)
  have tasks: "db_tasks db' = update_where ?hit (\<lambda>k. k\<lparr>task_status := TransferCancelled\<rparr>) (db_tasks db)"
    by (simp add: db' cancel_targets_def Let_def)
  let ?r = "r\<lparr>tgt_status := TransferCancelled, tgt_completed_at := Some now\<rparr>"
  have r': "?r \<in> set (db_targets db')" unfolding targets set_update_where using assms(7,8,10) by blast
  have "sends db' session t = sends db session t"
    unfolding sends_def tasks by (rule list_ex_update_where) simp
  then have "own_file db' session f row" using assms(3,4) by (simp add: own_file_def)
  then have "find (\<lambda>f'. own_file db' session f f' \<and> file_status f' = ''UPLOADING'') (db_files db') = Some row"
    unfolding files by (intro find_unique [OF assms(2)]) (use assms(5,6) in \<open>auto simp: own_file_def\<close>)
  then have complete: "CompleteFile request' \<lparr>ft_db = db', ft_chunks = cs\<rparr> session f path at =
      (\<lparr>ft_db = available_tables request' t f path at db', ft_chunks = cs\<rparr>, Inr ())"
    using assms(4) by (simp add: CompleteFile_def)
  have "db_targets (available_tables request' t f path at db') =
      update_where (\<lambda>r. tgt_transfer r = t \<and> tgt_route r = SelectedRouteNode)
        (\<lambda>r. r\<lparr>tgt_status := TransferAvailableOnNode\<rparr>) (db_targets db')"
    by (simp add: available_tables_def)
  then have "?r\<lparr>tgt_status := TransferAvailableOnNode\<rparr> \<in> set (db_targets (available_tables request' t f path at db'))"
    using update_where_mem [OF r', of "\<lambda>r. tgt_transfer r = t \<and> tgt_route r = SelectedRouteNode"
        "tgt_status_update (\<lambda>_. TransferAvailableOnNode)"] assms(8,9) by simp
  with complete r' show ?thesis by (intro bexI [OF _ r']) simp
qed

theorem completion_restarts_cancelled_witness:
  "\<exists>db' x st r. CancelTransfer ''rq'' (ft_db (sample_tables TransferQueued)) (example_session ''d0'') ''t1'' 5 = (db', Inr x) \<and>
     CompleteFile ''rq2'' \<lparr>ft_db = db', ft_chunks = []\<rparr> (example_session ''d0'') ''f1'' ''/data/files/f1'' 6 = (st, Inr ()) \<and>
     r \<in> set (db_targets (ft_db st)) \<and> tgt_device r = ''d1'' \<and> tgt_status r = TransferAvailableOnNode"
proof -
  let ?db = "ft_db (sample_tables TransferQueued)" and ?r = "sample_target TransferQueued"
  have "case snd (CancelTransfer ''rq'' ?db (example_session ''d0'') ''t1'' 5) of Inl e \<Rightarrow> False | Inr x \<Rightarrow> True"
    by code_simp
  then obtain db' x where cancel: "CancelTransfer ''rq'' ?db (example_session ''d0'') ''t1'' 5 = (db', Inr x)"
    by (cases "CancelTransfer ''rq'' ?db (example_session ''d0'') ''t1'' 5") (auto split: sum.splits)
  have files: "db_files ?db = [sample_file_row]" "db_targets ?db = [?r]"
    by (simp_all add: sample_tables_def sample_db_def)
  have own: "own_file ?db (example_session ''d0'') ''f1'' sample_file_row"
    by (simp add: own_file_def sends_def device_in_def sample_file_defs)
  have hyps: "sample_file_row \<in> set (db_files ?db)" "file_transfer sample_file_row = ''t1''"
      "file_status sample_file_row = ''UPLOADING''" "?r \<in> set (db_targets ?db)" "tgt_transfer ?r = ''t1''"
      "tgt_route ?r = SelectedRouteNode" "unfinished (tgt_status ?r)"
    by (simp_all add: files) (simp_all add: sample_file_row_def sample_target_def unfinished_def)
  have only: "row' = sample_file_row" if "row' \<in> set (db_files ?db)" "file_id row' = ''f1''" for row'
    using that by (simp add: files)
  from completion_restarts_cancelled [OF cancel hyps(1) own hyps(2,3) only hyps(4-7), of "''rq2''" "[]" "''/data/files/f1''" 6]
  obtain r' st where "tgt_device r' = tgt_device ?r"
      "CompleteFile ''rq2'' \<lparr>ft_db = db', ft_chunks = []\<rparr> (example_session ''d0'') ''f1'' ''/data/files/f1'' 6 = (st, Inr ())"
      "r'\<lparr>tgt_status := TransferAvailableOnNode\<rparr> \<in> set (db_targets (ft_db st))"
    by blast
  moreover have "tgt_device ?r = ''d1''" by (simp add: sample_target_def)
  ultimately show ?thesis
    using cancel by (intro exI [of _ db'] exI [of _ x] exI [of _ st] exI [of _ "r'\<lparr>tgt_status := TransferAvailableOnNode\<rparr>"]) simp
qed

section \<open>The chunk store at work\<close>

theorem UploadChunk_refines_witness:
  "\<exists>s' c. UploadChunk sample_sha sample_root ''7'' NoFault 3 (sample_tables TransferQueued, Map.empty) (example_session ''d0'')
      ''f1'' 0 (sample_sha ''ab'') (Some \<lparr>rd_data = ''ab'', rd_fails = False\<rparr>) = (s', Inr c) \<and>
    store_ok sample_sha sample_root s' \<and> content s' (''f1'', 0) \<noteq> None \<and> content s' (''f1'', 1) = None"
proof -
  let ?s = "(sample_tables TransferQueued, Map.empty)"
  let ?up = "UploadChunk sample_sha sample_root ''7'' NoFault 3 ?s (example_session ''d0'') ''f1'' 0 (sample_sha ''ab'')
      (Some \<lparr>rd_data = ''ab'', rd_fails = False\<rparr>)"
  have ok: "store_ok sample_sha sample_root ?s" "content ?s k = None" for k
    by (simp_all add: store_ok_def content_def chunk_at_def sample_tables_def)
  have id: "file_id sample_file_row = ''f1''" by (simp add: sample_file_row_def)
  have "\<exists>c. snd ?up = Inr c"
    using honest_upload [OF ok(1) sample_root_ok, of sample_file_row "''7''" "example_session ''d0''" "''ab''" 0 3]
      sample_uploading [of TransferQueued] ok(2) sample_f1(1)
    unfolding id by (auto simp: sample_sha_def expectedChunkSize_def file_record_def sample_file_row_def in64_def)
  then obtain s' c where up: "?up = (s', Inr c)" by (cases ?up) auto
  have "slash \<notin> set ''7''" by simp
  from UploadChunk_refines [OF ok(1) sample_root_ok sample_f1(1) this up] up show ?thesis
    using ok(2) by (intro exI [of _ s'] exI [of _ c]) auto
qed

theorem Complete_refines_witness:
  "\<exists>s' published bytes. Complete sample_sha sample_root ''7'' NoFault ''rq'' 9 sample_store (example_session ''d0'') ''f1''
      = (s', Inr published) \<and> store_ok sample_sha sample_root s' \<and> content s' = content sample_store \<and>
    snd s' (final_path sample_root ''f1'') = Some bytes \<and>
    file_completed_at (hd (db_files (ft_db (fst s')))) = Some 9"
proof -
  obtain s' p where c: "Complete sample_sha sample_root ''7'' NoFault ''rq'' 9 sample_store (example_session ''d0'') ''f1'' = (s', Inr p)"
    using sample_complete by blast
  have "slash \<notin> set ''7''" by simp
  note result = Complete_refines [OF sample_store_ok sample_root_ok sample_f1 this c]
  have files: "db_files (ft_db (fst sample_store)) = [sample_file_row]"
    by (simp add: sample_store_def sample_tables_def)
  have "file_status sample_file_row = ''UPLOADING''" "file_id sample_file_row = ''f1''"
    by (simp_all add: sample_file_row_def)
  with result c show ?thesis by (auto simp: Let_def files)
qed

theorem upload_and_complete_witness:
  "\<exists>s1 answers published s'. upload_all sample_sha sample_root ''7'' 3 (example_session ''d0'') ''f1'' [''ab'', ''cd'', ''e'']
      [2, 0, 1, 0] (sample_tables TransferQueued, Map.empty) = (s1, answers) \<and> list_all (\<lambda>a. \<not> isl a) answers \<and>
    Complete sample_sha sample_root ''9'' NoFault ''rq'' 9 s1 (example_session ''d0'') ''f1'' = (s', Inr published) \<and>
    snd s' (fr_StoragePath published) = Some ''abcde''"
proof -
  let ?s = "(sample_tables TransferQueued, Map.empty)"
  have ok: "store_ok sample_sha sample_root ?s" "content ?s k = None" for k
    by (simp_all add: store_ok_def content_def chunk_at_def sample_tables_def)
  have row: "file_id sample_file_row = ''f1''" "file_chunk_size sample_file_row = 2" "file_size sample_file_row = 5"
    "file_chunk_count sample_file_row = 3" "file_sha256 sample_file_row = sample_sha ''abcde''"
    by (simp_all add: sample_file_row_def sample_sha_def)
  have p: "pieces (nat (file_chunk_size sample_file_row)) ''abcde'' = [''ab'', ''cd'', ''e'']"
    by (simp add: row pieces_step)
  have h: "plain_segment (file_id sample_file_row)" "slash \<notin> set ''7''" "\<And>x. length (sample_sha x) = 32"
    "uploading (fst ?s) (example_session ''d0'') sample_file_row" "0 < file_chunk_size sample_file_row"
    "int (length ''abcde'') = file_size sample_file_row" "file_size sample_file_row < max_int64"
    using sample_f1(1) sample_uploading by (simp_all add: row sample_sha_def)
  have h': "file_chunk_count sample_file_row = int (length (pieces (nat (file_chunk_size sample_file_row)) ''abcde''))"
    "set [2, 0, 1, 0] = {..<length (pieces (nat (file_chunk_size sample_file_row)) ''abcde'')}"
    unfolding p by (auto simp: row)
  from upload_and_complete [OF ok(1) sample_root_ok h(1-4) ok(2) h(5-7) h'(1) row(5) h'(2), of 3 "''9''" "''rq''" 9]
  show ?thesis unfolding p row(1) by (fastforce simp: list_all2_Cons1)
qed

end
