(* ===== verification/Version.thy ===== *)
theory Version
  imports Encoding Tables
begin

text \<open>
  Protocol versions and capabilities (\<open>internal/version/compatibility.go\<close>): which protocols and
  clients the Node accepts, the registry of capabilities, and the negotiation between parties. The
  two variables set by the build (product version, commit), the environment variable of the node
  identity and SHA-256 are arguments. Sets kept as Go maps are lists of their keys.
\<close>

section \<open>Versions\<close>

definition APIVersion :: string where "APIVersion = ''1''"
definition CurrentProtocol :: string where "CurrentProtocol = ''1.2''"
definition PreviousProtocol :: string where "PreviousProtocol = ''1.1''"
definition LegacyProtocol :: string where "LegacyProtocol = ''1.0''"
definition MinimumClientVersion :: string where "MinimumClientVersion = ''1.0''"
definition CapabilitySchemaVersion :: int where "CapabilitySchemaVersion = 1"
definition CapabilityUnavailableCode :: string where "CapabilityUnavailableCode = ''CAPABILITY_UNAVAILABLE''"

definition SupportedProtocol :: "string \<Rightarrow> bool" where
  "SupportedProtocol value \<longleftrightarrow> value = CurrentProtocol \<or> value = PreviousProtocol \<or> value = LegacyProtocol \<or> value = ''1''"

text \<open>\<open>strings.LastIndex\<close>: -1 when the text does not occur.\<close>

definition LastIndex :: "string \<Rightarrow> string \<Rightarrow> int" where
  "LastIndex s p = (case find (\<lambda>i. HasPrefix (drop i s) p) (rev [0..<length s + 1]) of None \<Rightarrow> - 1 | Some i \<Rightarrow> int i)"

definition parse :: "string \<Rightarrow> int \<times> int \<times> bool" where
  "parse value =
     (let parts = split_on CHR ''.'' value
      in if length parts < 1 \<or> 2 < length parts then (0, 0, False)
         else let (major, ok) = Atoi (parts ! 0)
              in if \<not> ok \<or> major < 0 then (0, 0, False)
                 else if length parts = 2
                 then let (minor, ok) = Atoi (parts ! 1)
                      in if \<not> ok \<or> minor < 0 then (0, 0, False) else (major, minor, True)
                 else (major, 0, True))"

definition SupportedClient :: "string \<Rightarrow> bool" where
  "SupportedClient value =
     (let separator = LastIndex value ''-v''
      in if separator < 1 \<or> int (length value) \<le> separator + 2 then False
         else let (major, minor, ok) = parse (TrimSpace (drop (nat separator + 2) value))
              in ok \<and> major = 1 \<and> 0 \<le> minor \<and> minor \<le> 2)"

section \<open>Capabilities\<close>

record VersionLimits =
  lim_MaxChunkSize :: int
  lim_MaxParallelChunks :: int
  lim_MaxRecipients :: int

definition CurrentLimits :: VersionLimits where
  "CurrentLimits = \<lparr>lim_MaxChunkSize = 8 * 1024 * 1024, lim_MaxParallelChunks = 6, lim_MaxRecipients = 100\<rparr>"

record CapabilityDefinition =
  cap_ID :: string
  cap_SchemaVersion :: int
  cap_Parties :: "string list"
  cap_Fallback :: string
  cap_UnavailableError :: string

definition capability :: "string \<Rightarrow> string list \<Rightarrow> string \<Rightarrow> CapabilityDefinition" where
  "capability i parties fallback = \<lparr>cap_ID = i, cap_SchemaVersion = CapabilitySchemaVersion, cap_Parties = parties,
     cap_Fallback = fallback, cap_UnavailableError = CapabilityUnavailableCode\<rparr>"

definition capabilityRegistry :: "CapabilityDefinition list" where
  "capabilityRegistry =
    [capability ''capability_negotiation'' [''node'', ''client''] ''Use protocol and minimum-client version checks.'',
     capability ''structured_errors'' [''node'', ''client''] ''Parse the legacy string error envelope.'',
     capability ''cursor_pagination'' [''node'', ''client''] ''Use the legacy unpaginated or offset-compatible history response.'',
     capability ''idempotency_replay'' [''node'', ''client''] ''Do not automatically retry a non-idempotent request.'',
     capability ''resumable_chunks'' [''sender'', ''receiver''] ''Restart the file transfer from the first chunk.'',
     capability ''realtime_versions'' [''node'', ''client''] ''Use the initial HTTP version document and periodic refresh.'',
     capability ''adaptive_route_racing'' [''sender'', ''receiver''] ''Use sequential LAN-first routing and Node fallback.'',
     capability ''adaptive_transfer_profile'' [''sender'', ''receiver''] ''Use the fixed negotiated chunk size and one transfer stream.'',
     capability ''transfer_recovery'' [''node''] ''Use manual per-target retry and startup cleanup.'',
     capability ''scoped_device_enrollment'' [''node'', ''client''] ''Use legacy Node-key device creation during the migration window.'',
     capability ''offline_delivery_policies'' [''node'', ''client''] ''Queue content without platform-aware background constraints.'',
     capability ''relay_pool'' [''node'', ''client''] ''Use the primary Node as the only relay path.'',
     capability ''folder_manifest'' [''sender'', ''receiver''] ''Return unsupported-feature or use an explicitly requested archive.'',
     capability ''message_lifecycle'' [''node'', ''client''] ''Use existing cursor history, local hide, and fixed retention behavior.'']"

definition Registry :: "CapabilityDefinition list" where
  "Registry = capabilityRegistry"

definition SupportedCapabilities :: "string list" where
  "SupportedCapabilities = map cap_ID capabilityRegistry"

text \<open>The loop, with the capabilities seen so far; \<open>seen\<close> and \<open>result\<close> hold the same keys.\<close>

fun negotiate :: "string list \<Rightarrow> string list \<Rightarrow> string list" where
  "negotiate result [] = result"
| "negotiate result (c # cs) =
     (let capability = TrimSpace c
      in if capability \<notin> set SupportedCapabilities \<or> capability \<in> set result then negotiate result cs
         else negotiate (result @ [capability]) cs)"

definition NegotiateCapabilities :: "string list \<Rightarrow> string list" where
  "NegotiateCapabilities advertised = negotiate [] advertised"

definition MutualCapabilities :: "string list list \<Rightarrow> string list" where
  "MutualCapabilities parties =
     (case parties of
        [] \<Rightarrow> []
      | p # ps \<Rightarrow>
          let allowed = foldl (\<lambda>allowed advertised. filter (\<lambda>c. c \<in> set (NegotiateCapabilities advertised)) allowed)
                (NegotiateCapabilities p) ps
          in filter (\<lambda>c. c \<in> set allowed) (map cap_ID capabilityRegistry))"

text \<open>The error names the first required capability that is missing.\<close>

definition RequireCapabilities :: "string list \<Rightarrow> string list \<Rightarrow> (string \<times> string) + unit" where
  "RequireCapabilities advertised required =
     (case find (\<lambda>c. c \<notin> set (NegotiateCapabilities advertised)) required of
        Some c \<Rightarrow> Inl (CapabilityUnavailableCode, c)
      | None \<Rightarrow> Inr ())"

definition CapabilityUnavailableError :: "string \<times> string \<Rightarrow> string" where
  "CapabilityUnavailableError err = fst err @ '': '' @ snd err"

section \<open>The version document\<close>

definition identity_char :: "char \<Rightarrow> bool" where
  "identity_char c \<longleftrightarrow> byte_in (CHR ''a'') (CHR ''z'') c \<or> byte_in (CHR ''A'') (CHR ''Z'') c \<or> is_digit c \<or>
     c \<in> set ''._~-''"

definition nodeIdentity :: "string \<Rightarrow> string" where
  "nodeIdentity env =
     (let identity = TrimSpace env
      in if 8 \<le> length identity \<and> length identity \<le> 128 \<and> list_all identity_char identity then identity
         else ''node-development'')"

record Information =
  inf_ProductVersion :: string
  inf_BuildCommit :: string
  inf_APIVersion :: string
  inf_ProtocolVersion :: string
  inf_PreviousProtocol :: string
  inf_LegacyProtocol :: string
  inf_MinimumClientVersion :: string
  inf_NodeIdentity :: string
  inf_CapabilitySchemaVersion :: int
  inf_VersionFingerprint :: string
  inf_Capabilities :: "string list"
  inf_Limits :: VersionLimits

definition Current :: "(string \<Rightarrow> string) \<Rightarrow> string \<Rightarrow> string \<Rightarrow> string \<Rightarrow> Information" where
  "Current sha product commit env =
     (let limits = CurrentLimits;
          text = join_with ''|'' [product, commit, CurrentProtocol, Itoa CapabilitySchemaVersion,
            join_with '','' SupportedCapabilities, Itoa (lim_MaxChunkSize limits),
            Itoa (lim_MaxParallelChunks limits), Itoa (lim_MaxRecipients limits)]
      in \<lparr>inf_ProductVersion = product, inf_BuildCommit = commit, inf_APIVersion = APIVersion,
          inf_ProtocolVersion = CurrentProtocol, inf_PreviousProtocol = PreviousProtocol,
          inf_LegacyProtocol = LegacyProtocol, inf_MinimumClientVersion = MinimumClientVersion,
          inf_NodeIdentity = nodeIdentity env, inf_CapabilitySchemaVersion = CapabilitySchemaVersion,
          inf_VersionFingerprint = hex_encode (sha text), inf_Capabilities = SupportedCapabilities,
          inf_Limits = limits\<rparr>)"

section \<open>Negotiation\<close>

lemma set_negotiate:
  "set (negotiate result cs) = set result \<union> (TrimSpace ` set cs \<inter> set SupportedCapabilities)"
  by (induction result cs rule: negotiate.induct) (auto simp: Let_def)

lemma distinct_negotiate: "distinct result \<Longrightarrow> distinct (negotiate result cs)"
  by (induction result cs rule: negotiate.induct) (auto simp: Let_def)

lemma set_NegotiateCapabilities:
  "set (NegotiateCapabilities cs) = TrimSpace ` set cs \<inter> set SupportedCapabilities"
  by (simp add: NegotiateCapabilities_def set_negotiate)

lemma set_foldl_filter:
  "set (foldl (\<lambda>allowed p. filter (\<lambda>c. c \<in> set (f p)) allowed) a ps) = {c \<in> set a. \<forall>p \<in> set ps. c \<in> set (f p)}"
  by (induction ps arbitrary: a) auto

lemma SupportedCapabilities_list: "SupportedCapabilities =
    [''capability_negotiation'', ''structured_errors'', ''cursor_pagination'', ''idempotency_replay'', ''resumable_chunks'',
     ''realtime_versions'', ''adaptive_route_racing'', ''adaptive_transfer_profile'', ''transfer_recovery'',
     ''scoped_device_enrollment'', ''offline_delivery_policies'', ''relay_pool'', ''folder_manifest'', ''message_lifecycle'']"
  by (simp add: SupportedCapabilities_def capabilityRegistry_def capability_def)

lemma SupportedCapabilities_distinct: "distinct SupportedCapabilities"
  by (simp add: SupportedCapabilities_list)

lemma MutualCapabilities_eq:
  "MutualCapabilities parties =
     (if parties = [] then [] else filter (\<lambda>c. \<forall>p \<in> set parties. c \<in> TrimSpace ` set p) SupportedCapabilities)"
proof (cases parties)
  case (Cons p ps)
  have "c \<in> set (foldl (\<lambda>allowed advertised. filter (\<lambda>c. c \<in> set (NegotiateCapabilities advertised)) allowed)
      (NegotiateCapabilities p) ps) \<longleftrightarrow> (\<forall>q \<in> set (p # ps). c \<in> TrimSpace ` set q)" if "c \<in> set SupportedCapabilities" for c
    unfolding set_foldl_filter using that by (auto simp: set_NegotiateCapabilities)
  then show ?thesis
    unfolding MutualCapabilities_def SupportedCapabilities_def [symmetric] Cons Let_def list.case
    by (auto intro!: filter_cong)
qed (simp add: MutualCapabilities_def)

lemma SupportedCapabilities_trimmed: "list_all (\<lambda>c. TrimSpace c = c) SupportedCapabilities"
  by code_simp

text \<open>
  Parties agree on capabilities whatever the order: the mutual capabilities are those of the
  registry, in registry order and without repetition, that every party advertises (surrounding
  space apart); permuting the parties, or the lists they advertise, does not change them; every
  party, asked for all of them, has them; and negotiating them again with the same parties changes
  nothing.
\<close>

theorem MutualCapabilities_agreed:
  assumes "parties \<noteq> []"
  shows "MutualCapabilities parties =
      filter (\<lambda>c. list_all (\<lambda>p. c \<in> TrimSpace ` set p) parties) SupportedCapabilities \<and>
    distinct (MutualCapabilities parties) \<and>
    (\<forall>parties'. set (map set parties') = set (map set parties) \<longrightarrow> MutualCapabilities parties' = MutualCapabilities parties) \<and>
    list_all (\<lambda>p. RequireCapabilities p (MutualCapabilities parties) = Inr ()) parties \<and>
    MutualCapabilities (MutualCapabilities parties # parties) = MutualCapabilities parties"
proof (intro conjI)
  show form: "MutualCapabilities parties =
      filter (\<lambda>c. list_all (\<lambda>p. c \<in> TrimSpace ` set p) parties) SupportedCapabilities"
    using assms by (simp add: MutualCapabilities_eq list_all_iff)
  show "distinct (MutualCapabilities parties)"
    by (simp add: form SupportedCapabilities_distinct)
  show "\<forall>parties'. set (map set parties') = set (map set parties) \<longrightarrow> MutualCapabilities parties' = MutualCapabilities parties"
  proof (intro allI impI)
    fix parties' assume eq: "set (map set parties') = set (map set parties)"
    have all: "(\<forall>p \<in> set ps. c \<in> TrimSpace ` set p) \<longleftrightarrow> (\<forall>S \<in> set (map set ps). c \<in> TrimSpace ` S)" for c ps
      by simp
    have "parties' \<noteq> []" using eq assms by auto
    with assms show "MutualCapabilities parties' = MutualCapabilities parties"
      unfolding MutualCapabilities_eq all eq by simp
  qed
  show "list_all (\<lambda>p. RequireCapabilities p (MutualCapabilities parties) = Inr ()) parties"
    using assms
    by (auto simp: list_all_iff RequireCapabilities_def set_NegotiateCapabilities MutualCapabilities_eq
        find_None_iff split: option.split dest: find_SomeD)
  have "c \<in> TrimSpace ` set (MutualCapabilities parties)" if "c \<in> set (MutualCapabilities parties)" for c
    using that SupportedCapabilities_trimmed
    by (intro image_eqI [of c TrimSpace c]) (auto simp: form list_all_iff)
  then show "MutualCapabilities (MutualCapabilities parties # parties) = MutualCapabilities parties"
    using assms by (auto simp: MutualCapabilities_eq [of "_ # _"] MutualCapabilities_eq [of parties] intro!: filter_cong)
qed

theorem MutualCapabilities_agreed_witness:
  "MutualCapabilities [[''relay_pool'', ''unknown'', ''folder_manifest''], [''folder_manifest'', ''relay_pool'', ''relay_pool'']] =
     [''relay_pool'', ''folder_manifest'']"
proof -
  let ?ps = "[[''relay_pool'', ''unknown'', ''folder_manifest''], [''folder_manifest'', ''relay_pool'', ''relay_pool'']]"
  have trimmed: "map TrimSpace [''relay_pool'', ''unknown'', ''folder_manifest''] = [''relay_pool'', ''unknown'', ''folder_manifest'']"
    "map TrimSpace [''folder_manifest'', ''relay_pool'', ''relay_pool''] = [''folder_manifest'', ''relay_pool'', ''relay_pool'']"
    by code_simp+
  have "filter (\<lambda>c. list_all (\<lambda>p. c \<in> TrimSpace ` set p) ?ps) SupportedCapabilities = [''relay_pool'', ''folder_manifest'']"
    unfolding image_set list.pred_inject trimmed by (simp add: SupportedCapabilities_list)
  with MutualCapabilities_agreed [of ?ps] show ?thesis by simp
qed

end
