(* ===== verification/Recovery.thy ===== *)
theory Recovery
  imports GoStrings
begin

text \<open>
  The recovery coordinator (\<open>internal/recovery/coordinator.go\<close>): the classification of a failed
  transfer target, the backoff before the next attempt, and one pass over the recoverable targets.
  The store and the runner, interfaces without an implementation in the repository, are an
  environment whose answers may depend on all calls made before; a pass returns the calls it makes,
  in order. SHA-256 is a parameter.
\<close>

section \<open>Data\<close>

text \<open>\<open>Unclassified\<close> is the empty string.\<close>

datatype Classification = RetryImmediately | RetryWithBackoff | WaitForReceiver | ReconcileState | TerminalFailure
  | Unclassified

record WorkItem =
  wi_TransferID :: string
  wi_TargetID :: string
  wi_RetryCount :: int
  wi_NextAttempt :: time
  wi_ErrorCode :: string
  wi_Verified :: "(int \<times> string) list"
  wi_UpdatedAt :: time

record Outcome =
  oc_Completed :: bool
  oc_ReceiverOffline :: bool
  oc_Inconsistent :: bool
  oc_Repaired :: bool
  oc_ErrorCode :: string

record Config =
  cfg_BaseBackoff :: duration
  cfg_MaxBackoff :: duration
  cfg_MaxRetries :: int
  cfg_LeaseTTL :: duration

definition config_normalized :: "Config \<Rightarrow> Config" where
  "config_normalized c0 =
     (let c1 = (if cfg_BaseBackoff c0 \<le> 0 then c0\<lparr>cfg_BaseBackoff := 5 * second\<rparr> else c0);
          c2 = (if cfg_MaxBackoff c1 < cfg_BaseBackoff c1 then c1\<lparr>cfg_MaxBackoff := 30 * minute\<rparr> else c1);
          c3 = (if cfg_MaxRetries c2 \<le> 0 then c2\<lparr>cfg_MaxRetries := 8\<rparr> else c2)
      in if cfg_LeaseTTL c3 \<le> 0 then c3\<lparr>cfg_LeaseTTL := 2 * minute\<rparr> else c3)"

record Report =
  rep_Scanned :: int
  rep_Leased :: int
  rep_Completed :: int
  rep_Waiting :: int
  rep_Repaired :: int
  rep_DeadLetters :: int

section \<open>Classification\<close>

text \<open>An error of the runner, of which only its presence matters.\<close>

definition stableError :: "Outcome \<Rightarrow> bool \<Rightarrow> string" where
  "stableError outcome failed =
     (if oc_ErrorCode outcome \<noteq> '''' then oc_ErrorCode outcome
      else if \<not> failed then ''NONE'' else ''RECOVERY_FAILED'')"

definition Classify :: "string \<Rightarrow> Outcome \<Rightarrow> bool \<Rightarrow> Classification" where
  "Classify previousError outcome failed =
     (if oc_Completed outcome \<and> \<not> failed then Unclassified
      else if oc_ReceiverOffline outcome \<or> previousError = ''RECEIVER_OFFLINE'' \<or> oc_ErrorCode outcome = ''RECEIVER_OFFLINE''
      then WaitForReceiver
      else if oc_Inconsistent outcome \<or> previousError = ''MISSING_CHUNK'' \<or> previousError = ''LOST_ACK'' then ReconcileState
      else let c = stableError outcome failed
           in if c \<in> {''DATABASE_UNAVAILABLE'', ''NETWORK_UNAVAILABLE'', ''TIMEOUT'', ''NODE_RESTARTED''} then RetryWithBackoff
              else if c = ''STALE_LOCK'' then RetryImmediately
              else if c \<in> {''INVALID_MANIFEST'', ''HASH_MISMATCH'', ''PERMISSION_DENIED'', ''DEVICE_REVOKED'',
                ''STORAGE_QUOTA_EXHAUSTED''} then TerminalFailure
              else if failed then RetryWithBackoff
              else TerminalFailure)"

section \<open>Backoff\<close>

text \<open>The first four bytes of the digest, big endian.\<close>

definition be_uint32 :: "string \<Rightarrow> int" where
  "be_uint32 d = foldl (\<lambda>v c. v * 256 + int (code c)) 0 (take 4 d)"

text \<open>\<open>None\<close> is the panic of a shift by a negative count.\<close>

definition Backoff :: "(string \<Rightarrow> string) \<Rightarrow> WorkItem \<Rightarrow> Config \<Rightarrow> duration option" where
  "Backoff sha item config0 =
     (let config = config_normalized config0;
          shift = (if 20 < wi_RetryCount item then 20 else wi_RetryCount item)
      in if shift < 0 then None
         else let product = i64 (cfg_BaseBackoff config * 2 ^ nat shift);
                  backoff = (if cfg_MaxBackoff config < product then cfg_MaxBackoff config else product);
                  jitter = (be_uint32 (sha (wi_TransferID item @ '':'' @ wi_TargetID item)) mod 1000) * millisecond
              in if cfg_MaxBackoff config < i64 (backoff + jitter) then Some (cfg_MaxBackoff config)
                 else Some (i64 (backoff + jitter)))"

section \<open>A pass\<close>

datatype Call =
    TryLease WorkItem time
  | Resume WorkItem
  | MarkCompleted WorkItem time
  | MarkWaiting WorkItem Classification time string
  | MarkDeadLetter WorkItem string time
  | RecordRepair WorkItem time
  | ReleaseLease WorkItem

text \<open>What the interfaces answer, given the calls made so far; writes answer with an error or none.\<close>

record RecoveryEnv =
  env_ListRecoverable :: "time \<Rightarrow> int \<Rightarrow> string + WorkItem list"
  env_TryLease :: "Call list \<Rightarrow> WorkItem \<Rightarrow> string + bool"
  env_Resume :: "Call list \<Rightarrow> WorkItem \<Rightarrow> Outcome \<times> bool"
  env_Write :: "Call list \<Rightarrow> Call \<Rightarrow> string option"

text \<open>The counter an outcome increments and the call that settles it; \<open>None\<close> is the panic in \<open>Backoff\<close>.\<close>

definition settle ::
  "(string \<Rightarrow> string) \<Rightarrow> Config \<Rightarrow> time \<Rightarrow> WorkItem \<Rightarrow> Outcome \<Rightarrow> bool \<Rightarrow> Report \<Rightarrow> (Report \<times> (string + Call)) option"
where
  "settle sha config now item outcome failed report =
     (let classification = Classify (wi_ErrorCode item) outcome failed;
          waiting = report\<lparr>rep_Waiting := rep_Waiting report + 1\<rparr>;
          dead = report\<lparr>rep_DeadLetters := rep_DeadLetters report + 1\<rparr>;
          stable = stableError outcome failed
      in case classification of
           RetryImmediately \<Rightarrow> Some (waiting, Inr (MarkWaiting item classification now stable))
         | RetryWithBackoff \<Rightarrow>
             if cfg_MaxRetries config \<le> wi_RetryCount item then Some (dead, Inr (MarkDeadLetter item stable now))
             else map_option (\<lambda>b. (waiting, Inr (MarkWaiting item classification (now + b) stable))) (Backoff sha item config)
         | WaitForReceiver \<Rightarrow> Some (waiting, Inr (MarkWaiting item classification (now + cfg_MaxBackoff config) stable))
         | ReconcileState \<Rightarrow>
             if oc_Repaired outcome
             then Some (report\<lparr>rep_Repaired := rep_Repaired report + 1\<rparr>, Inr (RecordRepair item now))
             else Some (waiting, Inr (MarkWaiting item classification (now + cfg_BaseBackoff config) stable))
         | TerminalFailure \<Rightarrow> Some (dead, Inr (MarkDeadLetter item stable now))
         | Unclassified \<Rightarrow>
             if oc_Completed outcome \<and> \<not> failed
             then Some (report\<lparr>rep_Completed := rep_Completed report + 1\<rparr>, Inr (MarkCompleted item now))
             else Some (report, Inl ''unclassified recovery result''))"

definition due :: "time \<Rightarrow> WorkItem \<Rightarrow> bool" where
  "due now item \<longleftrightarrow> \<not> (wi_TransferID item = '''' \<or> wi_TargetID item = '''' \<or>
     \<not> IsZero (wi_NextAttempt item) \<and> now < wi_NextAttempt item)"

text \<open>A leased item: resume it, settle it, release the lease. The error ends the pass.\<close>

definition recover ::
  "(string \<Rightarrow> string) \<Rightarrow> RecoveryEnv \<Rightarrow> Config \<Rightarrow> time \<Rightarrow> Call list \<Rightarrow> Report \<Rightarrow> WorkItem \<Rightarrow>
     (Call list \<times> Report \<times> string option) option"
where
  "recover sha env config now calls report item =
     (let (outcome, failed) = env_Resume env calls item;
          calls1 = calls @ [Resume item]
      in case settle sha config now item outcome failed (report\<lparr>rep_Leased := rep_Leased report + 1\<rparr>) of
           None \<Rightarrow> None
         | Some (report', Inl e) \<Rightarrow> Some (calls1, report', Some e)
         | Some (report', Inr call) \<Rightarrow>
             let calls2 = calls1 @ [call]
             in case env_Write env calls1 call of
                  Some e \<Rightarrow> Some (calls2, report', Some e)
                | None \<Rightarrow> Some (calls2 @ [ReleaseLease item], report', env_Write env calls2 (ReleaseLease item)))"

fun run_items ::
  "(string \<Rightarrow> string) \<Rightarrow> RecoveryEnv \<Rightarrow> Config \<Rightarrow> time \<Rightarrow> WorkItem list \<Rightarrow> Call list \<Rightarrow> Report \<Rightarrow>
     (Call list \<times> Report \<times> string option) option"
where
  "run_items sha env config now [] calls report = Some (calls, report, None)"
| "run_items sha env config now (item # items) calls report =
     (if \<not> due now item then run_items sha env config now items calls report
      else
        let calls1 = calls @ [TryLease item (now + cfg_LeaseTTL config)]
        in case env_TryLease env calls item of
             Inl e \<Rightarrow> Some (calls1, report, Some e)
           | Inr False \<Rightarrow> run_items sha env config now items calls1 report
           | Inr True \<Rightarrow>
               (case recover sha env config now calls1 report item of
                  Some (calls2, report', None) \<Rightarrow> run_items sha env config now items calls2 report'
                | r \<Rightarrow> r))"

definition RunOnce ::
  "(string \<Rightarrow> string) \<Rightarrow> RecoveryEnv \<Rightarrow> Config \<Rightarrow> time \<Rightarrow> int \<Rightarrow> (Call list \<times> Report \<times> string option) option"
where
  "RunOnce sha env config0 now limit =
     (let config = config_normalized config0;
          empty = \<lparr>rep_Scanned = 0, rep_Leased = 0, rep_Completed = 0, rep_Waiting = 0, rep_Repaired = 0, rep_DeadLetters = 0\<rparr>
      in case env_ListRecoverable env now (if limit < 1 then 100 else limit) of
           Inl e \<Rightarrow> Some ([], empty, Some e)
         | Inr items \<Rightarrow> run_items sha env config now items [] (empty\<lparr>rep_Scanned := int (length items)\<rparr>))"

section \<open>Bounds of the backoff\<close>

lemma config_normalized_bounds:
  "0 < cfg_BaseBackoff (config_normalized c)" "0 < cfg_MaxBackoff (config_normalized c)"
  "0 < cfg_MaxRetries (config_normalized c)" "0 < cfg_LeaseTTL (config_normalized c)"
  by (auto simp: config_normalized_def Let_def)


lemma be_uint32_nonneg: "0 \<le> be_uint32 d"
proof -
  have "0 \<le> foldl (\<lambda>v c. v * 256 + int (code c)) v cs" if "0 \<le> v" for v :: int and cs
    using that by (induction cs arbitrary: v) simp_all
  then show ?thesis by (simp add: be_uint32_def)
qed

text \<open>
  The backoff before the next attempt doubles with every retry, up to twenty times, is
  spread by less than a second that depends only on the identifiers of the work item, and never
  exceeds the configured maximum: whenever the base is at most 8796093022207 nanoseconds (about two
  hours and twenty-six minutes) and the maximum leaves room for the jitter, no 64-bit operation
  overflows and the result is exactly this, positive and growing with the retry count.
\<close>

theorem Backoff_exact:
  assumes "0 \<le> wi_RetryCount item" and "cfg_BaseBackoff (config_normalized c) \<le> 8796093022207"
    and "cfg_MaxBackoff (config_normalized c) \<le> max_int64 - second"
  shows "\<exists>jitter. 0 \<le> jitter \<and> jitter < second \<and>
    (\<forall>n \<ge> 0. Backoff sha (item\<lparr>wi_RetryCount := n\<rparr>) c =
       Some (min (cfg_MaxBackoff (config_normalized c)) (cfg_BaseBackoff (config_normalized c) * 2 ^ nat (min 20 n) + jitter))) \<and>
    (\<exists>d. Backoff sha item c = Some d \<and> 0 < d \<and> d \<le> cfg_MaxBackoff (config_normalized c) \<and>
      (\<forall>n \<ge> wi_RetryCount item. \<exists>d'. Backoff sha (item\<lparr>wi_RetryCount := n\<rparr>) c = Some d' \<and> d \<le> d'))"
proof -
  let ?c = "config_normalized c"
  let ?B = "cfg_BaseBackoff ?c" and ?M = "cfg_MaxBackoff ?c"
  define jitter where "jitter = (be_uint32 (sha (wi_TransferID item @ '':'' @ wi_TargetID item)) mod 1000) * millisecond"
  have j: "0 \<le> jitter" "jitter < second"
    unfolding jitter_def using pos_mod_bound [of 1000 "be_uint32 (sha (wi_TransferID item @ '':'' @ wi_TargetID item))"]
    by simp_all
  have exact: "Backoff sha (item\<lparr>wi_RetryCount := n\<rparr>) c = Some (min ?M (?B * 2 ^ nat (min 20 n) + jitter))" if "0 \<le> n" for n
  proof -
    have "nat (min 20 n) \<le> 20" by simp
    then have "(2::int) ^ nat (min 20 n) \<le> 2 ^ 20" by (rule power_increasing) simp
    then have "?B * 2 ^ nat (min 20 n) \<le> 8796093022207 * 2 ^ 20"
      using assms(2) config_normalized_bounds(1) [of c] by (intro mult_mono) simp_all
    moreover have "0 < ?B * 2 ^ nat (min 20 n)" using config_normalized_bounds(1) [of c] by simp
    ultimately have product: "i64 (?B * 2 ^ nat (min 20 n)) = ?B * 2 ^ nat (min 20 n)" "0 < ?B * 2 ^ nat (min 20 n)"
      by (simp_all add: in64_def)
    define P where "P = ?B * 2 ^ nat (min 20 n)"
    note P = product [folded P_def]
    have sum: "i64 (min ?M P + jitter) = min ?M P + jitter"
      using P(2) j assms(3) config_normalized_bounds(2) [of c] by (intro i64_id) (auto simp: in64_def min_def)
    have shift: "(if 20 < n then 20 else n) = min 20 n" and nonneg: "\<not> min 20 n < 0" using that by auto
    have cap: "(if ?M < P then ?M else P) = min ?M P" by simp
    have fields: "wi_RetryCount (item\<lparr>wi_RetryCount := n\<rparr>) = n" "wi_TransferID (item\<lparr>wi_RetryCount := n\<rparr>) = wi_TransferID item"
      "wi_TargetID (item\<lparr>wi_RetryCount := n\<rparr>) = wi_TargetID item" by simp_all
    have "Backoff sha (item\<lparr>wi_RetryCount := n\<rparr>) c =
        (if ?M < min ?M P + jitter then Some ?M else Some (min ?M P + jitter))"
      by (simp only: Backoff_def Let_def fields shift nonneg if_False
          P(1) P_def [symmetric] cap jitter_def [symmetric] sum)
    also have "\<dots> = Some (min ?M (P + jitter))" using j(1) by (auto simp: min_def)
    finally show ?thesis by (simp only: P_def)
  qed
  have mono: "min ?M (?B * 2 ^ nat (min 20 m) + jitter) \<le> min ?M (?B * 2 ^ nat (min 20 n) + jitter)"
    if "0 \<le> m" "m \<le> n" for m n
  proof -
    have "nat (min 20 m) \<le> nat (min 20 n)" using that by (intro nat_mono) simp
    then have "(2::int) ^ nat (min 20 m) \<le> 2 ^ nat (min 20 n)" by (rule power_increasing) simp
    then have "?B * 2 ^ nat (min 20 m) \<le> ?B * 2 ^ nat (min 20 n)"
      using config_normalized_bounds(1) [of c] by (intro mult_left_mono) simp_all
    then show ?thesis by simp
  qed
  have self: "item\<lparr>wi_RetryCount := wi_RetryCount item\<rparr> = item" by simp
  have pos: "0 < min ?M (?B * 2 ^ nat (min 20 (wi_RetryCount item)) + jitter)"
    using config_normalized_bounds(1,2) [of c] j(1) by (simp add: add_pos_nonneg)
  show ?thesis
  proof (rule exI [of _ jitter], intro conjI allI impI)
    fix n :: int assume "0 \<le> n"
    then show "Backoff sha (item\<lparr>wi_RetryCount := n\<rparr>) c = Some (min ?M (?B * 2 ^ nat (min 20 n) + jitter))"
      by (rule exact)
  next
    show "\<exists>d. Backoff sha item c = Some d \<and> 0 < d \<and> d \<le> ?M \<and>
        (\<forall>n \<ge> wi_RetryCount item. \<exists>d'. Backoff sha (item\<lparr>wi_RetryCount := n\<rparr>) c = Some d' \<and> d \<le> d')"
    proof (rule exI [of _ "min ?M (?B * 2 ^ nat (min 20 (wi_RetryCount item)) + jitter)"], intro conjI allI impI)
      show "Backoff sha item c = Some (min ?M (?B * 2 ^ nat (min 20 (wi_RetryCount item)) + jitter))"
        using exact [OF assms(1)] by (simp only: self)
      fix n assume "wi_RetryCount item \<le> n"
      then show "\<exists>d'. Backoff sha (item\<lparr>wi_RetryCount := n\<rparr>) c = Some d' \<and>
          min ?M (?B * 2 ^ nat (min 20 (wi_RetryCount item)) + jitter) \<le> d'"
        using exact [of n] mono [OF assms(1)] assms(1) by (intro exI conjI) auto
    qed (use pos in simp_all)
  qed (use j in simp_all)
qed

definition example_item :: "int \<Rightarrow> WorkItem" where
  "example_item n = \<lparr>wi_TransferID = ''t1'', wi_TargetID = ''d1'', wi_RetryCount = n, wi_NextAttempt = 0,
     wi_ErrorCode = ''TIMEOUT'', wi_Verified = [], wi_UpdatedAt = 0\<rparr>"

definition default_config :: Config where
  "default_config = \<lparr>cfg_BaseBackoff = 0, cfg_MaxBackoff = 0, cfg_MaxRetries = 0, cfg_LeaseTTL = 0\<rparr>"

theorem Backoff_exact_witness:
  "\<exists>d. Backoff (\<lambda>s. s) (example_item 3) default_config = Some d \<and> 0 < d \<and> d \<le> 30 * minute"
proof -
  have c: "config_normalized default_config =
      \<lparr>cfg_BaseBackoff = 5 * second, cfg_MaxBackoff = 30 * minute, cfg_MaxRetries = 8, cfg_LeaseTTL = 2 * minute\<rparr>"
    by (simp add: config_normalized_def default_config_def Let_def)
  have "0 \<le> wi_RetryCount (example_item 3)" "cfg_BaseBackoff (config_normalized default_config) \<le> 8796093022207"
    "cfg_MaxBackoff (config_normalized default_config) \<le> max_int64 - second"
    by (simp_all add: c example_item_def)
  from Backoff_exact [OF this, of "\<lambda>s. s"] show ?thesis by (auto simp: c)
qed

text \<open>With a base of three hours the product overflows and the backoff is negative.\<close>

lemma Backoff_overflow:
  "\<exists>d. Backoff (\<lambda>s. s) (example_item 20) \<lparr>cfg_BaseBackoff = 3 * hour, cfg_MaxBackoff = 3 * hour, cfg_MaxRetries = 50,
      cfg_LeaseTTL = minute\<rparr> = Some d \<and> d < 0"
  by (simp add: Backoff_def config_normalized_def Let_def example_item_def i64_def be_uint32_def code_def)

text \<open>A missing chunk that the runner reports for the first time ends the target.\<close>

lemma missing_chunk_dead_letter:
  "Classify ''NONE'' \<lparr>oc_Completed = False, oc_ReceiverOffline = False, oc_Inconsistent = False, oc_Repaired = False,
     oc_ErrorCode = ''MISSING_CHUNK''\<rparr> failed = (if failed then RetryWithBackoff else TerminalFailure)"
  by (simp add: Classify_def stableError_def)

section \<open>What a pass does\<close>

text \<open>The conditions under which an item is settled, in terms of the row and of what the runner answers.\<close>

definition finished :: "Outcome \<Rightarrow> bool \<Rightarrow> bool" where
  "finished oc failed \<longleftrightarrow> oc_Completed oc \<and> \<not> failed"

definition offline :: "WorkItem \<Rightarrow> Outcome \<Rightarrow> bool" where
  "offline item oc \<longleftrightarrow> oc_ReceiverOffline oc \<or> ''RECEIVER_OFFLINE'' \<in> {wi_ErrorCode item, oc_ErrorCode oc}"

definition inconsistent :: "WorkItem \<Rightarrow> Outcome \<Rightarrow> bool" where
  "inconsistent item oc \<longleftrightarrow> oc_Inconsistent oc \<or> wi_ErrorCode item \<in> {''MISSING_CHUNK'', ''LOST_ACK''}"

definition transient_error :: "string \<Rightarrow> bool" where
  "transient_error e \<longleftrightarrow> e \<in> {''DATABASE_UNAVAILABLE'', ''NETWORK_UNAVAILABLE'', ''TIMEOUT'', ''NODE_RESTARTED''}"

definition permanent_error :: "string \<Rightarrow> bool" where
  "permanent_error e \<longleftrightarrow> e \<in> {''INVALID_MANIFEST'', ''HASH_MISMATCH'', ''PERMISSION_DENIED'', ''DEVICE_REVOKED'',
     ''STORAGE_QUOTA_EXHAUSTED''}"

text \<open>An error for which a later attempt is worthwhile: a transient one, or one of the runner that is not known.\<close>

definition may_pass :: "string \<Rightarrow> bool \<Rightarrow> bool" where
  "may_pass e failed \<longleftrightarrow> transient_error e \<or> failed \<and> e \<noteq> ''STALE_LOCK'' \<and> \<not> permanent_error e"

text \<open>The call that settles an item after the runner has answered \<open>oc\<close>, with or without an error.\<close>

definition settles ::
  "(string \<Rightarrow> string) \<Rightarrow> Config \<Rightarrow> time \<Rightarrow> WorkItem \<Rightarrow> Outcome \<Rightarrow> bool \<Rightarrow> Call \<Rightarrow> bool"
where
  "settles sha config now item oc failed call \<longleftrightarrow>
     (case call of
        MarkCompleted i t \<Rightarrow> i = item \<and> t = now \<and> finished oc failed
      | RecordRepair i t \<Rightarrow> i = item \<and> t = now \<and> \<not> finished oc failed \<and> \<not> offline item oc \<and> inconsistent item oc \<and>
          oc_Repaired oc
      | MarkWaiting i c t e \<Rightarrow> i = item \<and> e = stableError oc failed \<and> \<not> finished oc failed \<and>
          (if offline item oc then c = WaitForReceiver \<and> t = now + cfg_MaxBackoff config
           else if inconsistent item oc then c = ReconcileState \<and> \<not> oc_Repaired oc \<and> t = now + cfg_BaseBackoff config
           else c = RetryImmediately \<and> e = ''STALE_LOCK'' \<and> t = now \<or>
             c = RetryWithBackoff \<and> may_pass e failed \<and> wi_RetryCount item < cfg_MaxRetries config \<and>
               (\<exists>b. Backoff sha item config = Some b \<and> t = now + b))
      | MarkDeadLetter i e t \<Rightarrow> i = item \<and> t = now \<and> e = stableError oc failed \<and> \<not> finished oc failed \<and>
          \<not> offline item oc \<and> \<not> inconsistent item oc \<and> e \<noteq> ''STALE_LOCK'' \<and>
          (may_pass e failed \<longrightarrow> cfg_MaxRetries config \<le> wi_RetryCount item)
      | _ \<Rightarrow> False)"

text \<open>
  A pass over the items, from the calls made before to the calls made in the end, with its error. What
  is done for an item follows from what the store and the runner answer at that point.
\<close>

inductive pass ::
  "(string \<Rightarrow> string) \<Rightarrow> RecoveryEnv \<Rightarrow> Config \<Rightarrow> time \<Rightarrow> Call list \<Rightarrow> WorkItem list \<Rightarrow> Call list \<Rightarrow> string option \<Rightarrow> bool"
  for sha env config now where
  finish: "pass sha env config now calls [] calls None"
| not_due: "\<not> due now item \<Longrightarrow> pass sha env config now calls items calls' err \<Longrightarrow>
    pass sha env config now calls (item # items) calls' err"
| lease_fails: "due now item \<Longrightarrow> env_TryLease env calls item = Inl e \<Longrightarrow>
    pass sha env config now calls (item # items) (calls @ [TryLease item (now + cfg_LeaseTTL config)]) (Some e)"
| not_leased: "due now item \<Longrightarrow> env_TryLease env calls item = Inr False \<Longrightarrow>
    pass sha env config now (calls @ [TryLease item (now + cfg_LeaseTTL config)]) items calls' err \<Longrightarrow>
    pass sha env config now calls (item # items) calls' err"
| write_fails: "due now item \<Longrightarrow> env_TryLease env calls item = Inr True \<Longrightarrow>
    before = calls @ [TryLease item (now + cfg_LeaseTTL config)] \<Longrightarrow> env_Resume env before item = (oc, failed) \<Longrightarrow>
    settles sha config now item oc failed call \<Longrightarrow> env_Write env (before @ [Resume item]) call = Some e \<Longrightarrow>
    pass sha env config now calls (item # items) (before @ [Resume item, call]) (Some e)"
| release_fails: "due now item \<Longrightarrow> env_TryLease env calls item = Inr True \<Longrightarrow>
    before = calls @ [TryLease item (now + cfg_LeaseTTL config)] \<Longrightarrow> env_Resume env before item = (oc, failed) \<Longrightarrow>
    settles sha config now item oc failed call \<Longrightarrow> env_Write env (before @ [Resume item]) call = None \<Longrightarrow>
    env_Write env (before @ [Resume item, call]) (ReleaseLease item) = Some e \<Longrightarrow>
    pass sha env config now calls (item # items) (before @ [Resume item, call, ReleaseLease item]) (Some e)"
| settled: "due now item \<Longrightarrow> env_TryLease env calls item = Inr True \<Longrightarrow>
    before = calls @ [TryLease item (now + cfg_LeaseTTL config)] \<Longrightarrow> env_Resume env before item = (oc, failed) \<Longrightarrow>
    settles sha config now item oc failed call \<Longrightarrow> env_Write env (before @ [Resume item]) call = None \<Longrightarrow>
    env_Write env (before @ [Resume item, call]) (ReleaseLease item) = None \<Longrightarrow>
    pass sha env config now (before @ [Resume item, call, ReleaseLease item]) items calls' err \<Longrightarrow>
    pass sha env config now calls (item # items) calls' err"

text \<open>The report that belongs to a number of items and a list of calls.\<close>

definition report_of :: "int \<Rightarrow> Call list \<Rightarrow> Report" where
  "report_of scanned calls = \<lparr>rep_Scanned = scanned,
     rep_Leased = int (length [i. Resume i \<leftarrow> calls]),
     rep_Completed = int (length [i. MarkCompleted i t \<leftarrow> calls]),
     rep_Waiting = int (length [i. MarkWaiting i c t e \<leftarrow> calls]),
     rep_Repaired = int (length [i. RecordRepair i t \<leftarrow> calls]),
     rep_DeadLetters = int (length [i. MarkDeadLetter i e t \<leftarrow> calls])\<rparr>"

lemma report_of_Scanned [simp]: "rep_Scanned (report_of n calls) = n"
  by (simp add: report_of_def)

lemma Backoff_returns: "0 \<le> wi_RetryCount item \<Longrightarrow> \<exists>b. Backoff sha item config = Some b"
  by (auto simp: Backoff_def Let_def)

text \<open>A negative retry count makes the shift panic.\<close>

lemma Backoff_negative: "wi_RetryCount item < 0 \<Longrightarrow> Backoff sha item config = None"
  by (simp add: Backoff_def Let_def)

lemma Classify_table:
  "Classify (wi_ErrorCode item) oc failed =
     (if finished oc failed then Unclassified else if offline item oc then WaitForReceiver
      else if inconsistent item oc then ReconcileState
      else if stableError oc failed = ''STALE_LOCK'' then RetryImmediately
      else if may_pass (stableError oc failed) failed then RetryWithBackoff else TerminalFailure)"
proof -
  have codes: "(if e \<in> {''DATABASE_UNAVAILABLE'', ''NETWORK_UNAVAILABLE'', ''TIMEOUT'', ''NODE_RESTARTED''} then RetryWithBackoff
      else if e = ''STALE_LOCK'' then RetryImmediately
      else if e \<in> {''INVALID_MANIFEST'', ''HASH_MISMATCH'', ''PERMISSION_DENIED'', ''DEVICE_REVOKED'', ''STORAGE_QUOTA_EXHAUSTED''}
      then TerminalFailure else if failed then RetryWithBackoff else TerminalFailure) =
    (if e = ''STALE_LOCK'' then RetryImmediately else if may_pass e failed then RetryWithBackoff else TerminalFailure)" for e
    by (auto simp: may_pass_def transient_error_def permanent_error_def)
  show ?thesis
    unfolding Classify_def Let_def codes by (auto simp: finished_def offline_def inconsistent_def)
qed

lemma settle_call:
  assumes "0 \<le> wi_RetryCount item"
  shows "\<exists>call. settle sha config now item outcome failed (report_of n (calls @ [Resume item])) =
      Some (report_of n (calls @ [Resume item, call]), Inr call) \<and> settles sha config now item outcome failed call"
proof -
  obtain b where b: "Backoff sha item config = Some b" using Backoff_returns assms by blast
  let ?e = "stableError outcome failed"
  let ?settled = "\<lambda>call. settle sha config now item outcome failed (report_of n (calls @ [Resume item])) =
      Some (report_of n (calls @ [Resume item, call]), Inr call) \<and> settles sha config now item outcome failed call"
  consider (completed) "Classify (wi_ErrorCode item) outcome failed = Unclassified" "finished outcome failed"
    | (waits) "Classify (wi_ErrorCode item) outcome failed = WaitForReceiver" "\<not> finished outcome failed" "offline item outcome"
    | (broken) "Classify (wi_ErrorCode item) outcome failed = ReconcileState" "\<not> finished outcome failed" "\<not> offline item outcome"
        "inconsistent item outcome"
    | (lock) "Classify (wi_ErrorCode item) outcome failed = RetryImmediately" "\<not> finished outcome failed" "\<not> offline item outcome"
        "\<not> inconsistent item outcome" "?e = ''STALE_LOCK''"
    | (later) "Classify (wi_ErrorCode item) outcome failed = RetryWithBackoff" "\<not> finished outcome failed" "\<not> offline item outcome"
        "\<not> inconsistent item outcome" "?e \<noteq> ''STALE_LOCK''" "may_pass ?e failed"
    | (ends) "Classify (wi_ErrorCode item) outcome failed = TerminalFailure" "\<not> finished outcome failed" "\<not> offline item outcome"
        "\<not> inconsistent item outcome" "?e \<noteq> ''STALE_LOCK''" "\<not> may_pass ?e failed"
    unfolding Classify_table by (simp split: if_splits) blast
  then show ?thesis
  proof cases
    case completed
    then have "?settled (MarkCompleted item now)" by (simp add: settle_def settles_def report_of_def finished_def)
    then show ?thesis by blast
  next
    case waits
    then have "?settled (MarkWaiting item WaitForReceiver (now + cfg_MaxBackoff config) ?e)"
      by (simp add: settle_def settles_def report_of_def Let_def)
    then show ?thesis by blast
  next
    case broken
    then have "?settled (if oc_Repaired outcome then RecordRepair item now
        else MarkWaiting item ReconcileState (now + cfg_BaseBackoff config) ?e)"
      by (simp add: settle_def settles_def report_of_def Let_def)
    then show ?thesis by blast
  next
    case lock
    then have "?settled (MarkWaiting item RetryImmediately now ?e)" by (simp add: settle_def settles_def report_of_def Let_def)
    then show ?thesis by blast
  next
    case later
    then have "?settled (if cfg_MaxRetries config \<le> wi_RetryCount item then MarkDeadLetter item ?e now
        else MarkWaiting item RetryWithBackoff (now + b) ?e)"
      using b by (simp add: settle_def settles_def report_of_def Let_def)
    then show ?thesis by blast
  next
    case ends
    then have "?settled (MarkDeadLetter item ?e now)" by (simp add: settle_def settles_def report_of_def Let_def)
    then show ?thesis by blast
  qed
qed

lemma recover_calls:
  assumes "0 \<le> wi_RetryCount item"
  shows "\<exists>oc failed call. env_Resume env calls item = (oc, failed) \<and> settles sha config now item oc failed call \<and>
    recover sha env config now calls (report_of n calls) item =
      (case env_Write env (calls @ [Resume item]) call of
         Some e \<Rightarrow> Some (calls @ [Resume item, call], report_of n (calls @ [Resume item, call]), Some e)
       | None \<Rightarrow> Some (calls @ [Resume item, call, ReleaseLease item], report_of n (calls @ [Resume item, call, ReleaseLease item]),
           env_Write env (calls @ [Resume item, call]) (ReleaseLease item)))"
proof -
  obtain oc failed where resume: "env_Resume env calls item = (oc, failed)" by fastforce
  obtain call where call: "settle sha config now item oc failed (report_of n (calls @ [Resume item])) =
      Some (report_of n (calls @ [Resume item, call]), Inr call)" "settles sha config now item oc failed call"
    using settle_call [OF assms] by blast
  have "(report_of n calls)\<lparr>rep_Leased := rep_Leased (report_of n calls) + 1\<rparr> = report_of n (calls @ [Resume item])"
    by (simp add: report_of_def)
  moreover have "report_of n (calls @ [Resume item, call, ReleaseLease item]) = report_of n (calls @ [Resume item, call])"
    by (simp add: report_of_def)
  ultimately show ?thesis
    using resume call by (intro exI [of _ oc] exI [of _ failed] exI [of _ call]) (simp add: recover_def Let_def split: option.split)
qed

lemma run_items_pass:
  assumes "list_all (\<lambda>i. 0 \<le> wi_RetryCount i) items"
  shows "\<exists>calls' err. run_items sha env config now items calls (report_of n calls) = Some (calls', report_of n calls', err) \<and>
    pass sha env config now calls items calls' err"
  using assms
proof (induction items arbitrary: calls)
  case Nil
  show ?case using finish by auto
next
  case (Cons item items)
  have rest: "\<exists>calls' err. run_items sha env config now items calls (report_of n calls) = Some (calls', report_of n calls', err) \<and>
    pass sha env config now calls items calls' err" for calls
    using Cons by simp
  let ?before = "calls @ [TryLease item (now + cfg_LeaseTTL config)]"
  have same: "report_of n ?before = report_of n calls" by (simp add: report_of_def)
  show ?case
  proof (cases "due now item")
    case False
    then show ?thesis using rest [of calls] not_due by fastforce
  next
    case due: True
    consider e where "env_TryLease env calls item = Inl e" | "env_TryLease env calls item = Inr False"
      | "env_TryLease env calls item = Inr True"
      by (metis (full_types) sum.exhaust)
    then show ?thesis
    proof cases
      case 1
      then show ?thesis using due lease_fails [OF due 1] same by auto
    next
      case 2
      then show ?thesis using due rest [of ?before] not_leased [OF due 2] same by fastforce
    next
      case 3
      obtain oc failed call where resume: "env_Resume env ?before item = (oc, failed)"
        and call: "settles sha config now item oc failed call"
        and rec: "recover sha env config now ?before (report_of n ?before) item =
          (case env_Write env (?before @ [Resume item]) call of
             Some e \<Rightarrow> Some (?before @ [Resume item, call], report_of n (?before @ [Resume item, call]), Some e)
           | None \<Rightarrow> Some (?before @ [Resume item, call, ReleaseLease item],
               report_of n (?before @ [Resume item, call, ReleaseLease item]),
               env_Write env (?before @ [Resume item, call]) (ReleaseLease item)))"
        using recover_calls [of item env ?before sha config now n] Cons.prems by auto
      note step = due 3 refl resume call
      have run: "run_items sha env config now (item # items) calls (report_of n calls) =
          (case recover sha env config now ?before (report_of n ?before) item of
             Some (calls2, report', None) \<Rightarrow> run_items sha env config now items calls2 report' | r \<Rightarrow> r)"
        using due 3 same by (simp add: Let_def)
      show ?thesis
      proof (cases "env_Write env (?before @ [Resume item]) call")
        case (Some e)
        then show ?thesis unfolding run rec using write_fails [OF step Some] by auto
      next
        case None
        let ?released = "?before @ [Resume item, call, ReleaseLease item]"
        show ?thesis
        proof (cases "env_Write env (?before @ [Resume item, call]) (ReleaseLease item)")
          case err: (Some e)
          then show ?thesis unfolding run rec None using release_fails [OF step None err] by auto
        next
          case ok: None
          obtain calls' err where "run_items sha env config now items ?released (report_of n ?released) = Some (calls', report_of n calls', err)"
            "pass sha env config now ?released items calls' err"
            using rest by blast
          then show ?thesis unfolding run rec None ok using settled [OF step None ok] by auto
        qed
      qed
    qed
  qed
qed

text \<open>What follows for the calls as a whole.\<close>

lemma pass_leases:
  "pass sha env config now calls items calls' err \<Longrightarrow> \<exists>more n. calls' = calls @ more \<and>
     [i. TryLease i t \<leftarrow> more] = take n (filter (due now) items) \<and> (err = None \<longrightarrow> [i. TryLease i t \<leftarrow> more] = filter (due now) items)"
proof (induction rule: pass.induct)
  case (finish calls)
  show ?case by simp
next
  case (not_due item calls items calls' err)
  then show ?case by simp
next
  case (lease_fails item calls e items)
  then show ?case by (intro exI [of _ "[TryLease item (now + cfg_LeaseTTL config)]"] exI [of _ 1]) simp
next
  case (not_leased item calls items calls' err)
  then obtain more n where more: "calls' = (calls @ [TryLease item (now + cfg_LeaseTTL config)]) @ more"
    "[i. TryLease i t \<leftarrow> more] = take n (filter (due now) items)"
    "err = None \<longrightarrow> [i. TryLease i t \<leftarrow> more] = filter (due now) items" by blast
  then show ?case
    using not_leased(1) by (intro exI [of _ "TryLease item (now + cfg_LeaseTTL config) # more"] exI [of _ "Suc n"]) simp
next
  case (write_fails item calls before oc failed call e items)
  then show ?case
    by (intro exI [of _ "[TryLease item (now + cfg_LeaseTTL config), Resume item, call]"] exI [of _ 1])
      (auto simp: settles_def split: Call.splits)
next
  case (release_fails item calls before oc failed call e items)
  then show ?case
    by (intro exI [of _ "[TryLease item (now + cfg_LeaseTTL config), Resume item, call, ReleaseLease item]"] exI [of _ 1])
      (auto simp: settles_def split: Call.splits)
next
  case (settled item calls before oc failed call items calls' err)
  then obtain more n where more: "calls' = (before @ [Resume item, call, ReleaseLease item]) @ more"
    "[i. TryLease i t \<leftarrow> more] = take n (filter (due now) items)"
    "err = None \<longrightarrow> [i. TryLease i t \<leftarrow> more] = filter (due now) items" by blast
  then show ?case
    using settled(1,3,5)
    by (intro exI [of _ "TryLease item (now + cfg_LeaseTTL config) # Resume item # call # ReleaseLease item # more"] exI [of _ "Suc n"])
      (auto simp: settles_def split: Call.splits)
qed

text \<open>Every leased item is settled by exactly one call.\<close>

lemma pass_balanced:
  assumes "pass sha env config now calls items calls' err"
    and "rep_Leased (report_of n calls) = rep_Completed (report_of n calls) + rep_Waiting (report_of n calls) +
      rep_Repaired (report_of n calls) + rep_DeadLetters (report_of n calls)"
  shows "rep_Leased (report_of n calls') = rep_Completed (report_of n calls') + rep_Waiting (report_of n calls') +
      rep_Repaired (report_of n calls') + rep_DeadLetters (report_of n calls')"
  using assms
proof (induction rule: pass.induct)
  case (write_fails item calls before oc failed call e items)
  then show ?case by (cases call) (simp_all add: report_of_def settles_def)
next
  case (release_fails item calls before oc failed call e items)
  then show ?case by (cases call) (simp_all add: report_of_def settles_def)
next
  case (settled item calls before oc failed call items calls' err)
  then show ?case by (cases call) (simp_all add: report_of_def settles_def)
qed (simp_all add: report_of_def)

text \<open>
  C17. One pass of the recovery coordinator, whatever the store and the runner answer at each call,
  always returns (for items with a retry count that is not negative: a negative one makes \<open>Backoff\<close> panic), and goes through
  the recoverable items in order, asking for a lease for the due ones only. A refused lease is followed by
  no further call for the item. With the lease it resumes the item once and settles it once, by what the runner answers: it is
  marked completed exactly when the runner has completed it without an error; otherwise it waits for
  an offline receiver; an inconsistent one is recorded as repaired or waits; a stale lock waits
  until now; a transient or unknown error waits with backoff below the retry limit and is a dead letter from
  it on; everything else is a dead letter. Then the lease is released. An error of the store ends the pass at once.
  The report is the number of these calls, so that every leased item is report_of once.
\<close>

theorem RunOnce_settles:
  assumes "env_ListRecoverable env now (if limit < 1 then 100 else limit) = Inr items"
    and "list_all (\<lambda>i. 0 \<le> wi_RetryCount i) items"
  shows "\<exists>calls report err. RunOnce sha env config now limit = Some (calls, report, err) \<and>
    pass sha env (config_normalized config) now [] items calls err \<and>
    report = report_of (int (length items)) calls \<and>
    rep_Leased report = rep_Completed report + rep_Waiting report + rep_Repaired report + rep_DeadLetters report \<and>
    (\<exists>n. [i. TryLease i t \<leftarrow> calls] = take n (filter (due now) items)) \<and>
    (err = None \<longrightarrow> [i. TryLease i t \<leftarrow> calls] = filter (due now) items)"
proof -
  let ?n = "int (length items)"
  have start: "report_of ?n [] = \<lparr>rep_Scanned = ?n, rep_Leased = 0, rep_Completed = 0, rep_Waiting = 0, rep_Repaired = 0, rep_DeadLetters = 0\<rparr>"
    by (simp add: report_of_def)
  obtain calls err where
    run: "run_items sha env (config_normalized config) now items [] (report_of ?n []) = Some (calls, report_of ?n calls, err)"
    and pass: "pass sha env (config_normalized config) now [] items calls err"
    using run_items_pass [OF assms(2)] by blast
  have "RunOnce sha env config now limit = Some (calls, report_of ?n calls, err)"
    using run assms(1) by (simp add: RunOnce_def Let_def start)
  moreover have "rep_Leased (report_of ?n calls) = rep_Completed (report_of ?n calls) + rep_Waiting (report_of ?n calls) +
      rep_Repaired (report_of ?n calls) + rep_DeadLetters (report_of ?n calls)"
    by (rule pass_balanced [OF pass]) (simp add: report_of_def)
  ultimately show ?thesis using pass pass_leases [OF pass] by auto
qed

definition example_env :: RecoveryEnv where
  "example_env = \<lparr>env_ListRecoverable = (\<lambda>t n. Inr [example_item 3, example_item 8]),
     env_TryLease = (\<lambda>calls i. Inr True),
     env_Resume = (\<lambda>calls i. (\<lparr>oc_Completed = False, oc_ReceiverOffline = False, oc_Inconsistent = False,
       oc_Repaired = False, oc_ErrorCode = ''TIMEOUT''\<rparr>, True)),
     env_Write = (\<lambda>calls c. None)\<rparr>"

theorem RunOnce_settles_witness:
  "\<exists>calls report. RunOnce (\<lambda>s. s) example_env default_config 7 0 = Some (calls, report, None) \<and>
     rep_Scanned report = 2 \<and> rep_Waiting report = 1 \<and> rep_DeadLetters report = 1 \<and> rep_Leased report = 2"
proof -
  have items: "env_ListRecoverable example_env 7 (if (0::int) < 1 then 100 else 0) = Inr [example_item 3, example_item 8]"
    "list_all (\<lambda>i. 0 \<le> wi_RetryCount i) [example_item 3, example_item 8]"
    by (simp_all add: example_env_def example_item_def)
  have "case RunOnce (\<lambda>s. s) example_env default_config 7 0 of
      Some (calls, report, err) \<Rightarrow> err = None \<and> rep_Waiting report = 1 \<and> rep_DeadLetters report = 1 \<and> rep_Leased report = 2 | None \<Rightarrow> False"
    by code_simp
  with RunOnce_settles [OF items, of "\<lambda>s. s" default_config] show ?thesis
    by (auto split: option.splits)
qed

end
