(* ===== verification/Floats.thy ===== *)
theory Floats
  imports Adaptive StableSort "HOL-Library.Log_Nat"
begin

text \<open>
  Arithmetic of Go's \<open>float64\<close>: every operation is exact and then rounded to the nearest double, ties to
  even, with gradual underflow and overflow to the infinities. The type \<open>float64\<close> of Adaptive has one zero; the sign of
  a zero matters only where it divides, and the sources divide by positive numbers. The compiler for
  amd64 does not fuse operations. Rounding is executable, and monotone (\<open>round64_mono\<close>).
\<close>

section \<open>Rounding\<close>

definition floor_log2 :: "rat \<Rightarrow> int" where
  "floor_log2 r = (case quotient_of r of (p, q) \<Rightarrow>
     let e = int (floorlog 2 (nat p)) - int (floorlog 2 (nat q)) in if 2 powi e \<le> r then e else e - 1)"

definition round_even :: "rat \<Rightarrow> int" where
  "round_even x = (let n = \<lfloor>x\<rfloor>; d = x - of_int n in
     if d < 1 / 2 then n else if d > 1 / 2 then n + 1 else if even n then n else n + 1)"

text \<open>The exponent of the last place of the doubles near a positive number.\<close>

definition last_place :: "rat \<Rightarrow> int" where
  "last_place a = max (floor_log2 a) (- 1022) - 52"

definition round_mag :: "rat \<Rightarrow> rat" where
  "round_mag a = (if a \<le> 0 then 0 else of_int (round_even (a / 2 powi last_place a)) * 2 powi last_place a)"

text \<open>From this bound on a rounded value is infinite.\<close>

definition overflow_bound :: rat where "overflow_bound = 2 powi 1024"

definition round64 :: "rat \<Rightarrow> float64" where
  "round64 r = (let v = round_mag \<bar>r\<bar> in
     if overflow_bound \<le> v then (if r < 0 then FNegInf else FPosInf) else FFin (if r < 0 then - v else v))"

lemma overflow_bound_pos [simp]: "0 < overflow_bound" "\<not> overflow_bound \<le> 0"
  using zero_less_power_int [of "2 :: rat" 1024] by (simp_all only: overflow_bound_def not_le zero_less_numeral)

section \<open>Operations\<close>

fun fneg :: "float64 \<Rightarrow> float64" where
  "fneg FNaN = FNaN"
| "fneg FNegInf = FPosInf"
| "fneg FPosInf = FNegInf"
| "fneg (FFin x) = FFin (- x)"

fun fadd :: "float64 \<Rightarrow> float64 \<Rightarrow> float64" where
  "fadd FNaN y = FNaN"
| "fadd x FNaN = FNaN"
| "fadd (FFin x) (FFin y) = round64 (x + y)"
| "fadd FPosInf y = (if y = FNegInf then FNaN else FPosInf)"
| "fadd FNegInf y = (if y = FPosInf then FNaN else FNegInf)"
| "fadd x y = y"

definition fsub :: "float64 \<Rightarrow> float64 \<Rightarrow> float64" where
  "fsub x y = fadd x (fneg y)"

text \<open>The sign of a float, for products and quotients with infinities.\<close>

fun fsgn :: "float64 \<Rightarrow> rat" where
  "fsgn FNegInf = - 1"
| "fsgn FPosInf = 1"
| "fsgn (FFin x) = sgn x"
| "fsgn FNaN = 0"

definition finf :: "rat \<Rightarrow> float64" where
  "finf s = (if s = 0 then FNaN else if s < 0 then FNegInf else FPosInf)"

fun fmul :: "float64 \<Rightarrow> float64 \<Rightarrow> float64" where
  "fmul FNaN y = FNaN"
| "fmul x FNaN = FNaN"
| "fmul (FFin x) (FFin y) = round64 (x * y)"
| "fmul x y = finf (fsgn x * fsgn y)"

fun fdiv :: "float64 \<Rightarrow> float64 \<Rightarrow> float64" where
  "fdiv FNaN y = FNaN"
| "fdiv x FNaN = FNaN"
| "fdiv (FFin x) (FFin y) = (if y = 0 then finf (sgn x) else round64 (x / y))"
| "fdiv (FFin x) y = FFin 0"
| "fdiv x (FFin y) = finf (fsgn x * (if y < 0 then - 1 else 1))"
| "fdiv x y = FNaN"

definition fmin :: "float64 \<Rightarrow> float64 \<Rightarrow> float64" where
  "fmin x y = (if x = FNegInf \<or> y = FNegInf then FNegInf else if x = FNaN \<or> y = FNaN then FNaN
     else if flt y x then y else x)"

definition feq :: "float64 \<Rightarrow> float64 \<Rightarrow> bool" where
  "feq x y \<longleftrightarrow> x \<noteq> FNaN \<and> x = y"

definition float64_of_int :: "int \<Rightarrow> float64" where
  "float64_of_int n = round64 (of_int n)"

text \<open>\<open>clamp\<close> of the packages \<open>relay\<close> and \<open>routing\<close>, and two accessors of \<open>time.Duration\<close>.\<close>

definition clamp :: "float64 \<Rightarrow> float64 \<Rightarrow> float64 \<Rightarrow> float64" where
  "clamp v minimum maximum = (if flt v minimum then minimum else if flt maximum v then maximum else v)"

definition Milliseconds :: "duration \<Rightarrow> int" where
  "Milliseconds d = go_div d 1000000"

definition Seconds :: "duration \<Rightarrow> float64" where
  "Seconds d = fadd (float64_of_int (go_div d 1000000000))
     (fdiv (float64_of_int (go_rem d 1000000000)) (FFin 1000000000))"

section \<open>Exponents\<close>

lemma two_powi_mono: "i \<le> j \<Longrightarrow> (2 :: rat) powi i \<le> 2 powi j"
  by (rule power_int_increasing) simp_all

lemma two_powi_less: "(2 :: rat) powi i < 2 powi j \<longleftrightarrow> i < j"
  using two_powi_mono [of j i] power_int_strict_increasing [of i j "2 :: rat"] by (cases "i < j") auto

lemma two_powi_pos [simp]: "0 < (2 :: rat) powi i"
  by (rule zero_less_power_int) simp

lemma two_powi_nonzero [simp]: "(2 :: rat) powi i \<noteq> 0"
  by simp

lemma two_powi_diff: "(2 :: rat) powi i / 2 powi j = 2 powi (i - j)"
  by (simp add: power_int_diff)

lemma floorlog2_bounds:
  assumes "0 < p"
  shows "2 powi (int (floorlog 2 (nat p)) - 1) \<le> (of_int p :: rat)" and "(of_int p :: rat) < 2 powi int (floorlog 2 (nat p))"
proof -
  let ?k = "floorlog 2 (nat p)"
  have b: "2 ^ (?k - 1) \<le> nat p" "nat p < 2 ^ ?k" using floorlog_bounds [of "nat p" 2] assms by simp_all
  have "0 < ?k" using b assms by (cases ?k) auto
  then have k: "int ?k - 1 = int (?k - 1)" by simp
  have "int (2 ^ (?k - 1)) \<le> p" "p < int (2 ^ ?k)" using b assms by linarith+
  then have "(of_int (int (2 ^ (?k - 1))) :: rat) \<le> of_int p" "(of_int p :: rat) < of_int (int (2 ^ ?k))"
    by (simp_all only: of_int_le_iff of_int_less_iff)
  then show "2 powi (int ?k - 1) \<le> (of_int p :: rat)" "(of_int p :: rat) < 2 powi int ?k"
    unfolding k by simp_all
qed

lemma floor_log2_bounds:
  assumes "0 < r"
  shows "2 powi floor_log2 r \<le> r \<and> r < 2 powi (floor_log2 r + 1)"
proof -
  obtain p q where pq: "quotient_of r = (p, q)" by (cases "quotient_of r")
  have r: "r = of_int p / of_int q" and q: "0 < q" using quotient_of_div [OF pq] quotient_of_denom_pos [OF pq] by simp_all
  have p: "0 < p" using assms q unfolding r by (simp add: zero_less_divide_iff)
  let ?e = "int (floorlog 2 (nat p)) - int (floorlog 2 (nat q))"
  have "2 powi (int (floorlog 2 (nat p)) - 1) / 2 powi int (floorlog 2 (nat q)) < r"
    unfolding r using floorlog2_bounds [OF p] floorlog2_bounds [OF q] p q
    by (intro frac_less2) simp_all
  moreover have "r < 2 powi int (floorlog 2 (nat p)) / 2 powi (int (floorlog 2 (nat q)) - 1)"
    unfolding r using floorlog2_bounds [OF p] floorlog2_bounds [OF q] p q by (intro frac_less) simp_all
  ultimately have "2 powi (int (floorlog 2 (nat p)) - 1 - int (floorlog 2 (nat q))) < r"
    "r < 2 powi (int (floorlog 2 (nat p)) - (int (floorlog 2 (nat q)) - 1))"
    by (simp_all only: two_powi_diff)
  moreover have "int (floorlog 2 (nat p)) - 1 - int (floorlog 2 (nat q)) = ?e - 1"
    "int (floorlog 2 (nat p)) - (int (floorlog 2 (nat q)) - 1) = ?e + 1" by simp_all
  ultimately have "2 powi (?e - 1) < r" "r < 2 powi (?e + 1)" by simp_all
  then show ?thesis by (simp add: floor_log2_def pq Let_def)
qed

lemma floor_log2_le: "0 < a \<Longrightarrow> a \<le> b \<Longrightarrow> floor_log2 a \<le> floor_log2 b"
  using floor_log2_bounds [of a] floor_log2_bounds [of b] two_powi_less [of "floor_log2 a" "floor_log2 b + 1"] by linarith

section \<open>Rounding is monotone\<close>

lemma round_even_mono:
  assumes "x \<le> y"
  shows "round_even x \<le> round_even y"
proof -
  have bounds: "\<lfloor>z\<rfloor> \<le> round_even z \<and> round_even z \<le> \<lfloor>z\<rfloor> + 1" for z
    by (simp add: round_even_def Let_def)
  consider "\<lfloor>x\<rfloor> = \<lfloor>y\<rfloor>" | "\<lfloor>x\<rfloor> + 1 \<le> \<lfloor>y\<rfloor>" using floor_mono [OF assms] by linarith
  then show ?thesis
  proof cases
    case 1
    then show ?thesis using assms by (auto simp: round_even_def Let_def)
  next
    case 2
    then show ?thesis using bounds [of x] bounds [of y] by linarith
  qed
qed

lemma round_even_of_int [simp]: "round_even (of_int n) = n"
  by (simp add: round_even_def)

lemma round_mag_mono:
  assumes "a \<le> b"
  shows "round_mag a \<le> round_mag b"
proof -
  have nonneg: "0 \<le> round_mag c" for c
    using round_even_mono [of 0 "c / 2 powi last_place c"] round_even_of_int [of 0] by (simp add: round_mag_def)
  consider "a \<le> 0" | "0 < a" "last_place a = last_place b" | "0 < a" "last_place a < last_place b"
    using floor_log2_le [OF _ assms] assms unfolding last_place_def by linarith
  then show ?thesis
  proof cases
    case 1
    then show ?thesis using nonneg [of b] by (simp add: round_mag_def)
  next
    case 2
    then show ?thesis
      using assms round_even_mono [of "a / 2 powi last_place b" "b / 2 powi last_place b"]
      by (simp add: round_mag_def divide_right_mono)
  next
    case 3
    let ?m = "(2 :: rat) powi floor_log2 b"
    have e: "last_place b = floor_log2 b - 52" "floor_log2 a + 1 \<le> floor_log2 b" "last_place a \<le> floor_log2 b"
      using 3 unfolding last_place_def by linarith+
    have m: "a \<le> ?m" "?m \<le> b"
      using floor_log2_bounds [of a] floor_log2_bounds [of b] 3(1) assms two_powi_mono [OF e(2)] by linarith+
    have exact: "of_int (round_even (?m / 2 powi l)) * 2 powi l = ?m" if l: "l \<le> floor_log2 b" for l
    proof -
      have "?m / 2 powi l = of_int (2 ^ nat (floor_log2 b - l))" using l unfolding two_powi_diff by (simp add: power_int_def)
      then have "of_int (round_even (?m / 2 powi l)) = ?m / 2 powi l" by (simp only: round_even_of_int)
      then show ?thesis by simp
    qed
    have "round_mag a \<le> of_int (round_even (?m / 2 powi last_place a)) * 2 powi last_place a"
      using m 3(1) round_even_mono [of "a / 2 powi last_place a"] by (simp add: round_mag_def divide_right_mono)
    also have "\<dots> = of_int (round_even (?m / 2 powi last_place b)) * 2 powi last_place b"
      using e exact by simp
    also have "\<dots> \<le> round_mag b"
      using m 3(1) assms round_even_mono [of "?m / 2 powi last_place b"] by (simp add: round_mag_def divide_right_mono)
    finally show ?thesis .
  qed
qed

lemma fle_FFin [simp]: "fle (FFin x) (FFin y) \<longleftrightarrow> x \<le> y"
  by (auto simp: fle_def)

theorem round64_mono:
  assumes "r \<le> s"
  shows "fle (round64 r) (round64 s)"
proof -
  have zero: "round_mag 0 = 0" by (simp add: round_mag_def)
  have nonneg: "0 \<le> round_mag \<bar>c\<bar>" for c using round_mag_mono [of 0 "\<bar>c\<bar>"] zero by simp
  have pos: "round_mag \<bar>r\<bar> \<le> round_mag \<bar>s\<bar>" if "0 \<le> r" using that assms by (intro round_mag_mono) simp
  have neg: "round_mag \<bar>s\<bar> \<le> round_mag \<bar>r\<bar>" if "s < 0" using that assms by (intro round_mag_mono) simp
  show ?thesis
    using assms pos neg nonneg [of r] nonneg [of s]
    by (auto simp: round64_def Let_def fle_def not_less)
qed

lemma round64_not_NaN [simp]: "round64 r \<noteq> FNaN"
  by (simp add: round64_def Let_def)

lemma divide_powi: "l \<le> 0 \<Longrightarrow> (of_int n :: rat) / 2 powi l = of_int (n * 2 ^ nat (- l))"
  by (cases "l = 0") (simp_all add: power_int_def power_one_over)

text \<open>Integers of up to 53 bits are doubles.\<close>

lemma round64_of_int:
  assumes "\<bar>n\<bar> < 2 ^ 53"
  shows "round64 (of_int n) = FFin (of_int n)"
proof (cases "n = 0")
  case True
  then show ?thesis by (simp add: round64_def round_mag_def)
next
  case False
  let ?a = "of_int \<bar>n\<bar> :: rat" and ?l = "last_place (of_int \<bar>n\<bar>)"
  have "(of_int \<bar>n\<bar> :: rat) < of_int (2 ^ 53)" using assms by (simp only: of_int_less_iff)
  then have a: "0 < ?a" "?a < 2 powi 53" using False by simp_all
  then have "floor_log2 ?a < 53"
    using floor_log2_bounds [of ?a] two_powi_less [of "floor_log2 ?a" 53] by linarith
  then have l: "?l \<le> 0" by (simp add: last_place_def)
  have "?a / 2 powi ?l = of_int (\<bar>n\<bar> * 2 ^ nat (- ?l))"
    using l by (rule divide_powi)
  then have "of_int (round_even (?a / 2 powi ?l)) = ?a / 2 powi ?l" by (simp only: round_even_of_int)
  then have mag: "round_mag ?a = ?a" using a by (simp add: round_mag_def)
  have "2 powi 53 \<le> overflow_bound" unfolding overflow_bound_def by (rule two_powi_mono) simp
  then have "\<not> overflow_bound \<le> ?a" using a(2) by linarith
  then show ?thesis using mag False by (auto simp: round64_def Let_def)
qed

lemma round64_numeral [simp]: "(numeral w :: int) < 2 ^ 53 \<Longrightarrow> round64 (numeral w) = FFin (numeral w)"
  using round64_of_int [of "numeral w"] by simp

lemma round64_small [simp]: "round64 0 = FFin 0" "round64 1 = FFin 1"
  using round64_of_int [of 0] round64_of_int [of 1] by simp_all

section \<open>Order\<close>

text \<open>A linear order that has NaN first and agrees with \<open>flt\<close> on all other values.\<close>

instantiation float64 :: linorder
begin

definition less_float64 :: "float64 \<Rightarrow> float64 \<Rightarrow> bool" where
  "less_float64 x y \<longleftrightarrow> flt x y \<or> x = FNaN \<and> y \<noteq> FNaN"

definition less_eq_float64 :: "float64 \<Rightarrow> float64 \<Rightarrow> bool" where
  "less_eq_float64 x y \<longleftrightarrow> x = y \<or> x < y"

instance
proof
  fix x y z :: float64
  show "x < y \<longleftrightarrow> x \<le> y \<and> \<not> y \<le> x"
    by (cases x; cases y) (auto simp: less_eq_float64_def less_float64_def)
  show "x \<le> x" by (simp add: less_eq_float64_def)
  show "x \<le> y \<Longrightarrow> y \<le> z \<Longrightarrow> x \<le> z"
    by (cases x; cases y; cases z) (auto simp: less_eq_float64_def less_float64_def)
  show "x \<le> y \<Longrightarrow> y \<le> x \<Longrightarrow> x = y"
    by (cases x; cases y) (auto simp: less_eq_float64_def less_float64_def)
  show "x \<le> y \<or> y \<le> x"
    by (cases x; cases y) (auto simp: less_eq_float64_def less_float64_def)
qed

end

lemma flt_less: "x \<noteq> FNaN \<Longrightarrow> flt x y \<longleftrightarrow> x < y"
  by (cases x) (auto simp: less_float64_def)

lemma fle_le: "fle x y \<longleftrightarrow> x \<noteq> FNaN \<and> x \<le> y"
  by (cases x; cases y) (auto simp: fle_def less_eq_float64_def less_float64_def)

lemma FFin_le [simp]: "FFin x \<le> FFin y \<longleftrightarrow> x \<le> y"
  using fle_le [of "FFin x" "FFin y"] by simp

lemma round64_le: "r \<le> s \<Longrightarrow> round64 r \<le> round64 s"
  using round64_mono [of r s] by (simp add: fle_le)

text \<open>A comparison by falling score, ties broken by a second comparison, as the packages write it.\<close>

definition by_score :: "('a \<Rightarrow> float64) \<Rightarrow> ('a \<Rightarrow> 'a \<Rightarrow> bool) \<Rightarrow> 'a \<Rightarrow> 'a \<Rightarrow> bool" where
  "by_score score lt i j = (if \<not> feq (score i) (score j) then flt (score j) (score i) else lt i j)"

definition by_order :: "('a \<Rightarrow> 'k::linorder) \<Rightarrow> ('a \<Rightarrow> 'a \<Rightarrow> bool) \<Rightarrow> 'a \<Rightarrow> 'a \<Rightarrow> bool" where
  "by_order key lt i j = (if key i \<noteq> key j then key j < key i else lt i j)"

lemma by_order_iff: "by_order key lt x y \<longleftrightarrow> key y < key x \<or> key x = key y \<and> lt x y"
  by (auto simp: by_order_def)

lemma stable_by_order:
  assumes "stable_order lt"
  shows "stable_order (by_order key lt)"
proof
  note lt = stable_order.less_irrefl [OF assms] stable_order.less_trans [OF assms] stable_order.less_incomp_trans [OF assms]
  show "\<not> by_order key lt x x" for x by (simp add: by_order_iff lt(1))
  show "by_order key lt x y \<Longrightarrow> by_order key lt y z \<Longrightarrow> by_order key lt x z" for x y z
    unfolding by_order_iff by (metis lt(2) order.strict_trans)
  show "\<not> by_order key lt x y \<Longrightarrow> \<not> by_order key lt y z \<Longrightarrow> \<not> by_order key lt x z" for x y z
    unfolding by_order_iff using lt(3) [of x y z] by (metis linorder_neqE order.strict_trans)
qed

lemma insert_stable_agree:
  "(\<And>y. y \<in> set xs \<Longrightarrow> lt y x = lt' y x) \<Longrightarrow> insert_stable lt x xs = insert_stable lt' x xs"
  by (induction xs) simp_all

lemma SliceStable_agree:
  "(\<And>x y. x \<in> set xs \<Longrightarrow> y \<in> set xs \<Longrightarrow> lt x y = lt' x y) \<Longrightarrow> SliceStable lt xs = SliceStable lt' xs"
proof (induction xs)
  case (Cons x xs)
  have "SliceStable lt xs = SliceStable lt' xs" using Cons by simp
  moreover have "insert_stable lt x (SliceStable lt' xs) = insert_stable lt' x (SliceStable lt' xs)"
    using Cons.prems by (intro insert_stable_agree) simp
  ultimately show ?case by simp
qed simp

text \<open>Where no score is NaN the comparison sorts.\<close>

lemma by_score_sorts:
  assumes "stable_order lt" and "\<And>x. x \<in> set xs \<Longrightarrow> score x \<noteq> FNaN"
  shows "SliceStable (by_score score lt) xs = SliceStable (by_order score lt) xs"
    and "ordered_by (by_score score lt) (SliceStable (by_score score lt) xs)"
proof -
  have agree: "by_score score lt x y = by_order score lt x y" if "x \<in> set xs" "y \<in> set xs" for x y
    using assms(2) [OF that(1)] assms(2) [OF that(2)] by (auto simp: by_score_def by_order_def feq_def flt_less)
  show eq: "SliceStable (by_score score lt) xs = SliceStable (by_order score lt) xs"
    by (rule SliceStable_agree) (rule agree)
  have "ordered_by (by_order score lt) (SliceStable (by_order score lt) xs)"
    by (rule stable_order.ordered_SliceStable [OF stable_by_order [OF assms(1)]])
  then show "ordered_by (by_score score lt) (SliceStable (by_score score lt) xs)"
    unfolding eq ordered_by_def by (rule sorted_wrt_mono_rel [rotated]) (simp add: agree)
qed

section \<open>Bounds\<close>

lemma round64_minus: "round64 (- r) = fneg (round64 r)"
  by (cases "r = 0") (auto simp: round64_def round_mag_def Let_def)

lemma round64_power:
  assumes "k \<le> 1023"
  shows "round64 (2 ^ k) = FFin (2 ^ k)"
proof -
  let ?a = "(2 :: rat) powi int k"
  have "floor_log2 ?a = int k"
    using floor_log2_bounds [of ?a] two_powi_less [of "floor_log2 ?a" "int k + 1"] two_powi_less [of "int k" "floor_log2 ?a + 1"]
      two_powi_less [of "int k" "int k + 1"] by simp
  then have l: "last_place ?a = int k - 52" by (simp add: last_place_def)
  have "?a / 2 powi last_place ?a = of_int (2 ^ 52)" unfolding l two_powi_diff by (simp add: power_int_def)
  then have "of_int (round_even (?a / 2 powi last_place ?a)) = ?a / 2 powi last_place ?a" by (simp only: round_even_of_int)
  then have mag: "round_mag ?a = ?a" by (simp add: round_mag_def not_le)
  have "?a < overflow_bound" unfolding overflow_bound_def using assms by (subst two_powi_less) simp
  then have "round64 ?a = FFin ?a" using mag by (simp add: round64_def not_le)
  then show ?thesis by simp
qed

text \<open>Finite values of at most \<open>2 ^ k\<close>.\<close>

definition up_to :: "nat \<Rightarrow> float64 \<Rightarrow> bool" where
  "up_to k x \<longleftrightarrow> (\<exists>r. x = FFin r \<and> \<bar>r\<bar> \<le> 2 ^ k)"

lemma up_to_not_NaN: "up_to k x \<Longrightarrow> x \<noteq> FNaN"
  by (auto simp: up_to_def)

lemma up_to_mono: "up_to k x \<Longrightarrow> k \<le> n \<Longrightarrow> up_to n x"
proof -
  assume "up_to k x" "k \<le> n"
  then obtain r where r: "x = FFin r" "\<bar>r\<bar> \<le> 2 ^ k" by (auto simp: up_to_def)
  moreover have "(2 :: rat) ^ k \<le> 2 ^ n" using \<open>k \<le> n\<close> by simp
  ultimately show ?thesis unfolding up_to_def using order_trans by blast
qed

lemma up_to_FFin: "\<bar>r\<bar> \<le> 2 ^ k \<Longrightarrow> up_to k (FFin r)"
  by (simp add: up_to_def)

lemma up_to_round64:
  assumes "\<bar>r\<bar> \<le> 2 ^ k" and "k \<le> 1023"
  shows "up_to k (round64 r)"
proof -
  have "r \<le> 2 ^ k" "- (2 ^ k) \<le> r" using assms(1) by linarith+
  then have "round64 r \<le> FFin (2 ^ k)" "FFin (- (2 ^ k)) \<le> round64 r"
    using round64_le [of r "2 ^ k"] round64_le [of "- (2 ^ k)" r] round64_power [OF assms(2)] by (simp_all add: round64_minus)
  then show ?thesis
    by (cases "round64 r") (auto simp: up_to_def less_eq_float64_def less_float64_def abs_le_iff)
qed

lemma up_to_fadd: "up_to k x \<Longrightarrow> up_to k y \<Longrightarrow> k < 1023 \<Longrightarrow> up_to (Suc k) (fadd x y)"
  by (auto simp: up_to_def [of k] intro!: up_to_round64)

lemma up_to_fneg: "up_to k x \<Longrightarrow> up_to k (fneg x)"
  by (auto simp: up_to_def)

lemma up_to_fsub: "up_to k x \<Longrightarrow> up_to k y \<Longrightarrow> k < 1023 \<Longrightarrow> up_to (Suc k) (fsub x y)"
  unfolding fsub_def by (intro up_to_fadd up_to_fneg)

lemma up_to_fmul: "up_to j x \<Longrightarrow> up_to k y \<Longrightarrow> j + k \<le> 1023 \<Longrightarrow> up_to (j + k) (fmul x y)"
  by (auto simp: up_to_def [of j] up_to_def [of k] abs_mult power_add intro!: up_to_round64 mult_mono)

lemma up_to_fdiv: "up_to k x \<Longrightarrow> 1 \<le> y \<Longrightarrow> k \<le> 1023 \<Longrightarrow> up_to k (fdiv x (FFin y))"
proof -
  assume "up_to k x" "1 \<le> y" "k \<le> 1023"
  then obtain r where r: "x = FFin r" "\<bar>r\<bar> \<le> 2 ^ k" by (auto simp: up_to_def)
  have "\<bar>r / y\<bar> \<le> \<bar>r\<bar>" using \<open>1 \<le> y\<close> mult_left_mono [of 1 y "\<bar>r\<bar>"] by (simp add: divide_le_eq)
  then show ?thesis using r \<open>1 \<le> y\<close> \<open>k \<le> 1023\<close> by (auto intro!: up_to_round64)
qed

lemma up_to_fmin: "up_to k x \<Longrightarrow> up_to k y \<Longrightarrow> up_to k (fmin x y)"
  by (auto simp: up_to_def fmin_def)

lemma up_to_int64: "in64 n \<Longrightarrow> up_to 63 (float64_of_int n)"
proof -
  assume "in64 n"
  then have "\<bar>n\<bar> \<le> 2 ^ 63" by (simp add: in64_def abs_le_iff)
  then have "of_int \<bar>n\<bar> \<le> (of_int (2 ^ 63) :: rat)" by (simp only: of_int_le_iff)
  then show ?thesis unfolding float64_of_int_def by (intro up_to_round64) simp_all
qed

lemma up_to_clamp: "x \<noteq> FNaN \<Longrightarrow> \<bar>r\<bar> \<le> 2 ^ k \<Longrightarrow> \<bar>s\<bar> \<le> 2 ^ k \<Longrightarrow> r \<le> s \<Longrightarrow> up_to k (clamp x (FFin r) (FFin s))"
  by (cases x) (auto simp: clamp_def up_to_def)

lemma float64_of_int_le: "m \<le> n \<Longrightarrow> float64_of_int m \<le> float64_of_int n"
  unfolding float64_of_int_def by (rule round64_le) simp

lemma float64_of_int_small: "\<bar>n\<bar> < 2 ^ 53 \<Longrightarrow> float64_of_int n = FFin (of_int n)"
  unfolding float64_of_int_def by (rule round64_of_int)

section \<open>Operations are monotone\<close>

lemma fadd_mono: "up_to k x' \<Longrightarrow> up_to k y' \<Longrightarrow> up_to k x \<Longrightarrow> up_to k y \<Longrightarrow> x \<le> x' \<Longrightarrow> y \<le> y' \<Longrightarrow> fadd x y \<le> fadd x' y'"
  by (auto simp: up_to_def intro!: round64_le)

lemma fsub_mono: "up_to k x' \<Longrightarrow> up_to k y' \<Longrightarrow> up_to k x \<Longrightarrow> up_to k y \<Longrightarrow> x \<le> x' \<Longrightarrow> y' \<le> y \<Longrightarrow> fsub x y \<le> fsub x' y'"
  by (auto simp: up_to_def fsub_def intro!: round64_le)

lemma fmul_mono: "up_to k x \<Longrightarrow> up_to k x' \<Longrightarrow> 0 \<le> c \<Longrightarrow> x \<le> x' \<Longrightarrow> fmul (FFin c) x \<le> fmul (FFin c) x'"
  by (auto simp: up_to_def intro!: round64_le mult_left_mono)

lemma fdiv_mono: "up_to k x \<Longrightarrow> up_to k x' \<Longrightarrow> 0 < c \<Longrightarrow> x \<le> x' \<Longrightarrow> fdiv x (FFin c) \<le> fdiv x' (FFin c)"
  by (auto simp: up_to_def intro!: round64_le divide_right_mono)

lemma fmin_mono: "up_to k x \<Longrightarrow> up_to k x' \<Longrightarrow> x \<le> x' \<Longrightarrow> fmin (FFin c) x \<le> fmin (FFin c) x'"
  by (auto simp: up_to_def fmin_def)

lemma clamp_mono: "x \<noteq> FNaN \<Longrightarrow> x \<le> x' \<Longrightarrow> r \<le> s \<Longrightarrow> clamp x (FFin r) (FFin s) \<le> clamp x' (FFin r) (FFin s)"
  by (cases x; cases x') (auto simp: clamp_def less_eq_float64_def less_float64_def)

end
