(* ===== verification/Relay.thy ===== *)
theory Relay
  imports SignedToken Floats
begin

text \<open>
  The relay pool (\<open>internal/relay/pool.go\<close>): the choice of a relay by its score, and the signed grants that
  allow one operation on one file at one relay. HMAC, JSON and randomness are parameters.
\<close>

section \<open>Choosing a relay\<close>

datatype relay_error = ErrNoRelay | ErrInvalidGrant | ErrExpiredGrant | ErrEncode

record Relay =
  rl_ID :: string
  rl_Endpoint :: string
  rl_Region :: string
  rl_Healthy :: bool
  rl_Draining :: bool
  rl_CapacityBytes :: int
  rl_UsedBytes :: int
  rl_Latency :: duration
  rl_FailureRate :: float64
  rl_LastSuccessful :: time

definition eligible :: "int \<Rightarrow> Relay \<Rightarrow> bool" where
  "eligible requiredBytes r \<longleftrightarrow> \<not> (rl_ID r = '''' \<or> rl_Endpoint r = '''' \<or> \<not> rl_Healthy r \<or> rl_Draining r \<or>
     requiredBytes < 0 \<or> i64 (rl_CapacityBytes r - rl_UsedBytes r) < requiredBytes)"

definition relayScore :: "string \<Rightarrow> Relay \<Rightarrow> float64" where
  "relayScore preferredRegion r =
     (let availableRatio = fdiv (float64_of_int (i64 (rl_CapacityBytes r - rl_UsedBytes r)))
            (float64_of_int (max (rl_CapacityBytes r) 1));
          score = fsub (fmul (FFin 100) availableRatio) (fmul (FFin 60) (clamp (rl_FailureRate r) (FFin 0) (FFin 1)));
          score = (if preferredRegion \<noteq> '''' \<and> rl_Region r = preferredRegion then fadd score (FFin 20) else score)
      in if 0 < rl_Latency r
         then fsub score (fmin (FFin 30) (fdiv (float64_of_int (Milliseconds (rl_Latency r))) (FFin 10)))
         else score)"

definition relay_less :: "string \<Rightarrow> Relay \<Rightarrow> Relay \<Rightarrow> bool" where
  "relay_less preferredRegion = by_score (relayScore preferredRegion) (\<lambda>i j. rl_ID i < rl_ID j)"

definition Select_relay :: "Relay list \<Rightarrow> int \<Rightarrow> string \<Rightarrow> relay_error + Relay" where
  "Select_relay relays requiredBytes preferredRegion =
     (case SliceStable (relay_less preferredRegion) (filter (eligible requiredBytes) relays) of
        [] \<Rightarrow> Inl ErrNoRelay
      | r # _ \<Rightarrow> Inr r)"

section \<open>Grants\<close>

datatype Operation = OperationUpload | OperationDownload | OperationDelete | OperationOther string

record GrantClaims =
  gc_Version :: int
  gc_RelayID :: string
  gc_TransferID :: string
  gc_FileID :: string
  gc_Operation :: Operation
  gc_MaxBytes :: int
  gc_ExpiresAt :: int
  gc_Nonce :: string

definition validOperation :: "Operation \<Rightarrow> bool" where
  "validOperation operation \<longleftrightarrow> operation = OperationUpload \<or> operation = OperationDownload \<or> operation = OperationDelete"

definition NewGrantSigner :: "string \<Rightarrow> relay_error + string" where
  "NewGrantSigner secret = (if length secret < 32 then Inl ErrInvalidGrant else Inr secret)"

definition grant_label :: string where
  "grant_label = ''nexdrop/relay-grant/v1'' @ [CHR 0x0A]"

definition grant_signature :: "hmac \<Rightarrow> string \<Rightarrow> string \<Rightarrow> string" where
  "grant_signature hmac secret payload = mac_signature hmac grant_label secret payload"

text \<open>The sixteen random bytes, or \<open>None\<close> when the source of randomness fails.\<close>

definition Grant_Issue ::
  "hmac \<Rightarrow> (GrantClaims \<Rightarrow> string option) \<Rightarrow> string \<Rightarrow> time \<Rightarrow> string option \<Rightarrow> string \<Rightarrow> string \<Rightarrow> string \<Rightarrow> Operation \<Rightarrow>
     int \<Rightarrow> duration \<Rightarrow> relay_error + string"
where
  "Grant_Issue hmac marshal secret now rnd relayID transferID fileID operation maxBytes ttl =
     (if TrimSpace relayID = '''' \<or> TrimSpace transferID = '''' \<or> TrimSpace fileID = '''' \<or> \<not> validOperation operation \<or>
         maxBytes < 0 \<or> ttl \<le> 0 \<or> hour < ttl
      then Inl ErrInvalidGrant
      else case rnd of
        None \<Rightarrow> Inl ErrEncode
      | Some nonce \<Rightarrow>
          (case marshal \<lparr>gc_Version = 1, gc_RelayID = relayID, gc_TransferID = transferID, gc_FileID = fileID,
                 gc_Operation = operation, gc_MaxBytes = maxBytes, gc_ExpiresAt = time_Unix (now + ttl),
                 gc_Nonce = b64_encode nonce\<rparr> of
             None \<Rightarrow> Inl ErrEncode
           | Some payload \<Rightarrow> Inr (seal3 ''v1'' (grant_signature hmac secret) (b64_encode payload))))"

definition Grant_Verify ::
  "hmac \<Rightarrow> (string \<Rightarrow> GrantClaims option) \<Rightarrow> string \<Rightarrow> time \<Rightarrow> string \<Rightarrow> string \<Rightarrow> string \<Rightarrow> string \<Rightarrow> Operation \<Rightarrow> int \<Rightarrow>
     relay_error + GrantClaims"
where
  "Grant_Verify hmac unmarshal secret now token relayID transferID fileID operation requestedBytes =
     (case unseal3 ''v1'' (grant_signature hmac secret) token of
        None \<Rightarrow> Inl ErrInvalidGrant
      | Some encoded \<Rightarrow>
          (case b64_decode encoded of
             None \<Rightarrow> Inl ErrInvalidGrant
           | Some payload \<Rightarrow>
               (case unmarshal payload of
                  None \<Rightarrow> Inl ErrInvalidGrant
                | Some claims \<Rightarrow>
                    if gc_Version claims \<noteq> 1 \<or> gc_Nonce claims = '''' \<or> \<not> validOperation (gc_Operation claims)
                    then Inl ErrInvalidGrant
                    else if Unix_time (gc_ExpiresAt claims) < now then Inl ErrExpiredGrant
                    else if gc_RelayID claims \<noteq> relayID \<or> gc_TransferID claims \<noteq> transferID \<or> gc_FileID claims \<noteq> fileID \<or>
                      gc_Operation claims \<noteq> operation \<or> requestedBytes < 0 \<or> gc_MaxBytes claims < requestedBytes
                    then Inl ErrInvalidGrant
                    else Inr claims)))"

interpretation relay_grant: sealing "seal3 ''v1'' (grant_signature hmac secret)" "unseal3 ''v1'' (grant_signature hmac secret)"
  for hmac secret
  by (rule sealing_seal3) (simp_all add: grant_signature_def)

lemma b64_encode_nonempty: "s \<noteq> [] \<Longrightarrow> b64_encode s \<noteq> []"
  using b64_encode_inject [of s "[]"] by (auto simp: b64_encode_def [of "[]"])

lemma Grant_Verify_Issue:
  assumes issue: "Grant_Issue hmac marshal secret now (Some nonce) relayID transferID fileID operation maxBytes ttl = Inr t"
    and nonce: "nonce \<noteq> []" and json: "\<And>c p. marshal c = Some p \<Longrightarrow> unmarshal p = Some c"
  shows "\<exists>c. Grant_Verify hmac unmarshal secret later t r' t' f' o' n =
      (if Unix_time (time_Unix (now + ttl)) < later then Inl ErrExpiredGrant
       else if relayID = r' \<and> transferID = t' \<and> fileID = f' \<and> operation = o' \<and> 0 \<le> n \<and> n \<le> maxBytes then Inr c
       else Inl ErrInvalidGrant) \<and>
    gc_RelayID c = relayID \<and> gc_TransferID c = transferID \<and> gc_FileID c = fileID \<and> gc_Operation c = operation \<and>
    gc_MaxBytes c = maxBytes"
proof -
  let ?c = "\<lparr>gc_Version = 1, gc_RelayID = relayID, gc_TransferID = transferID, gc_FileID = fileID,
     gc_Operation = operation, gc_MaxBytes = maxBytes, gc_ExpiresAt = time_Unix (now + ttl), gc_Nonce = b64_encode nonce\<rparr>"
  from issue obtain p where p: "marshal ?c = Some p" and t: "t = seal3 ''v1'' (grant_signature hmac secret) (b64_encode p)"
    and op: "validOperation operation"
    by (auto simp: Grant_Issue_def split: if_splits option.splits)
  show ?thesis
    using json [OF p] op b64_encode_nonempty [OF nonce]
    by (intro exI [of _ ?c]) (auto simp: Grant_Verify_def t)
qed

text \<open>
  A relay grant opens exactly the door it was issued for: while its lifetime, cut to whole
  seconds, lasts, a token issued by the Node is accepted for the relay, transfer, file and operation
  it names, and for any number of bytes from 0 to its limit, and for nothing else; afterwards it is
  expired for every request. (JSON reads back what it wrote, the nonce is not empty.)
\<close>

theorem Grant_accepted:
  assumes "Grant_Issue hmac marshal secret now (Some nonce) relayID transferID fileID operation maxBytes ttl = Inr t"
    and "nonce \<noteq> []" and "\<And>c p. marshal c = Some p \<Longrightarrow> unmarshal p = Some c"
  shows "(\<exists>c. Grant_Verify hmac unmarshal secret later t r' t' f' o' n = Inr c) \<longleftrightarrow>
      later \<le> Unix_time (time_Unix (now + ttl)) \<and>
      (r', t', f', o') = (relayID, transferID, fileID, operation) \<and> 0 \<le> n \<and> n \<le> maxBytes"
proof -
  obtain c where eq: "Grant_Verify hmac unmarshal secret later t r' t' f' o' n =
      (if Unix_time (time_Unix (now + ttl)) < later then Inl ErrExpiredGrant
       else if relayID = r' \<and> transferID = t' \<and> fileID = f' \<and> operation = o' \<and> 0 \<le> n \<and> n \<le> maxBytes then Inr c
       else Inl ErrInvalidGrant)"
    using Grant_Verify_Issue [where unmarshal = unmarshal, OF assms] by blast
  show ?thesis unfolding eq by auto
qed

definition demo_grant :: GrantClaims where
  "demo_grant = \<lparr>gc_Version = 1, gc_RelayID = ''r'', gc_TransferID = ''t'', gc_FileID = ''f'',
     gc_Operation = OperationUpload, gc_MaxBytes = 5, gc_ExpiresAt = 60, gc_Nonce = b64_encode ''n''\<rparr>"

theorem Grant_accepted_witness:
  "let hmac = (\<lambda>key text. key @ rev text);
       unmarshal = (\<lambda>p. if p = ''json'' then Some demo_grant else None);
       t = seal3 ''v1'' (grant_signature hmac ''k'') (b64_encode ''json'')
   in (\<exists>c. Grant_Verify hmac unmarshal ''k'' (Unix_time 60) t ''r'' ''t'' ''f'' OperationUpload 5 = Inr c) \<and>
      \<not> (\<exists>c. Grant_Verify hmac unmarshal ''k'' (Unix_time 60) t ''r'' ''t'' ''f'' OperationDownload 5 = Inr c)"
proof -
  let ?hmac = "\<lambda>key text. key @ rev text :: string"
  let ?m = "\<lambda>c. if c = demo_grant then Some ''json'' else None"
  let ?u = "\<lambda>p. if p = ''json'' then Some demo_grant else None"
  have now: "time_Unix (Unix_time 0 + minute) = 60" by (simp add: time_Unix_def Unix_time_def)
  have trim: "TrimSpace ''r'' = ''r''" "TrimSpace ''t'' = ''t''" "TrimSpace ''f'' = ''f''" by code_simp+
  then have issue: "Grant_Issue ?hmac ?m ''k'' (Unix_time 0) (Some ''n'') ''r'' ''t'' ''f'' OperationUpload 5 minute =
      Inr (seal3 ''v1'' (grant_signature ?hmac ''k'') (b64_encode ''json''))"
    by (simp add: Grant_Issue_def validOperation_def demo_grant_def now)
  have json: "?u p = Some c" if "?m c = Some p" for c p using that by (auto split: if_splits)
  have "''n'' \<noteq> []" by simp
  note accepted = Grant_accepted [where unmarshal = ?u, OF issue this json, unfolded now]
  have "\<exists>c. Grant_Verify ?hmac ?u ''k'' (Unix_time 60)
      (seal3 ''v1'' (grant_signature ?hmac ''k'') (b64_encode ''json'')) ''r'' ''t'' ''f'' OperationUpload 5 = Inr c"
    by (rule accepted [THEN iffD2]) simp_all
  moreover have "\<not> (\<exists>c. Grant_Verify ?hmac ?u ''k'' (Unix_time 60)
      (seal3 ''v1'' (grant_signature ?hmac ''k'') (b64_encode ''json'')) ''r'' ''t'' ''f'' OperationDownload 5 = Inr c)"
    by (subst accepted) simp_all
  ultimately show ?thesis unfolding Let_def by (rule conjI)
qed

section \<open>The best relay\<close>

lemma Select_relay_none:
  "Select_relay relays n region = Inl e \<longleftrightarrow> e = ErrNoRelay \<and> (\<forall>r \<in> set relays. \<not> eligible n r)"
  by (auto simp: Select_relay_def filter_empty_conv split: list.splits)
     (metis SliceStable_eq_Nil filter_empty_conv list.distinct(1))+

interpretation by_relay_id: keyed_order "\<lambda>i j. rl_ID i < rl_ID j" rl_ID
  by unfold_locales simp

text \<open>The rows a database can hold, and a failure rate that is a number.\<close>

definition relay_ok :: "Relay \<Rightarrow> bool" where
  "relay_ok r \<longleftrightarrow> in64 (rl_CapacityBytes r) \<and> in64 (rl_UsedBytes r) \<and> in64 (rl_Latency r) \<and> rl_FailureRate r \<noteq> FNaN"

definition free_points :: "Relay \<Rightarrow> float64" where
  "free_points r = fmul (FFin 100) (fdiv (float64_of_int (i64 (rl_CapacityBytes r - rl_UsedBytes r)))
     (float64_of_int (max (rl_CapacityBytes r) 1)))"

definition failure_malus :: "Relay \<Rightarrow> float64" where
  "failure_malus r = fmul (FFin 60) (clamp (rl_FailureRate r) (FFin 0) (FFin 1))"

definition relay_base :: "Relay \<Rightarrow> float64" where
  "relay_base r = fsub (free_points r) (failure_malus r)"

definition latency_malus :: "Relay \<Rightarrow> float64" where
  "latency_malus r = fmin (FFin 30) (fdiv (float64_of_int (Milliseconds (rl_Latency r))) (FFin 10))"

lemma relayScore_parts:
  "relayScore region r = (let s = (if region \<noteq> '''' \<and> rl_Region r = region then fadd (relay_base r) (FFin 20) else relay_base r)
     in if 0 < rl_Latency r then fsub s (latency_malus r) else s)"
  by (simp add: relayScore_def relay_base_def free_points_def failure_malus_def latency_malus_def Let_def)

lemma capacity_float:
  assumes "in64 c"
  shows "\<exists>y. float64_of_int (max c 1) = FFin y \<and> 1 \<le> y"
proof -
  have "in64 (max c 1)" using assms by (simp add: in64_def)
  then obtain y where y: "float64_of_int (max c 1) = FFin y" using up_to_int64 by (auto simp: up_to_def)
  have "FFin 1 \<le> float64_of_int (max c 1)"
    using float64_of_int_le [of 1 "max c 1"] float64_of_int_small [of 1] by simp
  then show ?thesis using y by simp
qed

lemma ratio_up_to: "in64 c \<Longrightarrow> up_to 63 (fdiv (float64_of_int (i64 n)) (float64_of_int (max c 1)))"
  using capacity_float [of c] up_to_int64 [OF in64_i64 [of n]] by (auto intro!: up_to_fdiv)

lemma clamped_up_to: "relay_ok r \<Longrightarrow> up_to 63 (clamp (rl_FailureRate r) (FFin 0) (FFin 1))"
  by (intro up_to_clamp) (simp_all add: relay_ok_def)

lemma relay_base_up_to:
  assumes "relay_ok r"
  shows "up_to 70 (free_points r)" and "up_to 70 (failure_malus r)" and "up_to 71 (relay_base r)"
proof -
  have seven: "up_to 7 (FFin 100)" "up_to 7 (FFin 60)" by (rule up_to_FFin, simp)+
  have "in64 (rl_CapacityBytes r)" using assms by (simp add: relay_ok_def)
  from up_to_fmul [OF seven(1) ratio_up_to [OF this]] show free: "up_to 70 (free_points r)" by (simp add: free_points_def)
  from up_to_fmul [OF seven(2) clamped_up_to [OF assms]] show fail: "up_to 70 (failure_malus r)" by (simp add: failure_malus_def)
  from up_to_fsub [OF free fail] show "up_to 71 (relay_base r)" by (simp add: relay_base_def)
qed

lemma latency_up_to: "relay_ok r \<Longrightarrow> 0 < rl_Latency r \<Longrightarrow> up_to 63 (fdiv (float64_of_int (Milliseconds (rl_Latency r))) (FFin 10))"
  by (intro up_to_fdiv up_to_int64) (auto simp: relay_ok_def in64_def Milliseconds_def)

lemma malus_up_to: "relay_ok r \<Longrightarrow> 0 < rl_Latency r \<Longrightarrow> up_to 72 (latency_malus r)"
  unfolding latency_malus_def by (intro up_to_fmin up_to_FFin up_to_mono [OF latency_up_to]) simp_all

lemma bonus_up_to:
  assumes "relay_ok r"
  shows "up_to 72 (fadd (relay_base r) (FFin 20))" and "up_to 72 (relay_base r)"
proof -
  have "up_to 71 (FFin 20)" by (rule up_to_FFin) simp
  then show "up_to 72 (fadd (relay_base r) (FFin 20))"
    using up_to_fadd [OF relay_base_up_to(3) [OF assms]] by simp
  show "up_to 72 (relay_base r)" by (rule up_to_mono [OF relay_base_up_to(3) [OF assms]]) simp
qed

lemma score_up_to:
  assumes "relay_ok r"
  shows "up_to 73 (relayScore region r)"
proof -
  have "up_to 73 (fsub x (latency_malus r)) \<and> up_to 73 x" if "up_to 72 x" "0 < rl_Latency r" for x
    using up_to_fsub [OF that(1) malus_up_to [OF assms that(2)]] up_to_mono [OF that(1), of 73] by simp
  moreover have "up_to 73 x" if "up_to 72 x" for x using up_to_mono [OF that, of 73] by simp
  ultimately show ?thesis
    using bonus_up_to [OF assms] by (simp add: relayScore_parts Let_def)
qed

text \<open>
  A relay comparable to another, of the same capacity and region, that is at least as good: it has
  at least as many free bytes, a failure rate no higher and a measured latency no higher.
\<close>

definition at_least_as_good :: "Relay \<Rightarrow> Relay \<Rightarrow> bool" where
  "at_least_as_good c r \<longleftrightarrow> rl_CapacityBytes c = rl_CapacityBytes r \<and> rl_Region c = rl_Region r \<and>
     i64 (rl_CapacityBytes r - rl_UsedBytes r) \<le> i64 (rl_CapacityBytes c - rl_UsedBytes c) \<and>
     rl_FailureRate c \<le> rl_FailureRate r \<and> 0 < rl_Latency c \<and> rl_Latency c \<le> rl_Latency r"

lemma base_mono:
  assumes "relay_ok c" and "relay_ok r" and "at_least_as_good c r"
  shows "relay_base r \<le> relay_base c"
proof -
  have good: "rl_CapacityBytes c = rl_CapacityBytes r" "rl_FailureRate c \<le> rl_FailureRate r"
      "i64 (rl_CapacityBytes r - rl_UsedBytes r) \<le> i64 (rl_CapacityBytes r - rl_UsedBytes c)"
    using assms(3) by (auto simp: at_least_as_good_def)
  have cap: "in64 (rl_CapacityBytes r)" using assms(2) by (simp add: relay_ok_def)
  obtain y where y: "float64_of_int (max (rl_CapacityBytes r) 1) = FFin y" "1 \<le> y" using capacity_float [OF cap] by blast
  have "fdiv (float64_of_int (i64 (rl_CapacityBytes r - rl_UsedBytes r))) (FFin y) \<le>
      fdiv (float64_of_int (i64 (rl_CapacityBytes r - rl_UsedBytes c))) (FFin y)"
    using good(3) y(2) by (intro fdiv_mono [OF up_to_int64 up_to_int64] float64_of_int_le) simp_all
  then have free: "free_points r \<le> free_points c"
    unfolding free_points_def good(1) y(1)
    using ratio_up_to [OF cap] y(1) by (intro fmul_mono [of 63]) simp_all
  have "clamp (rl_FailureRate c) (FFin 0) (FFin 1) \<le> clamp (rl_FailureRate r) (FFin 0) (FFin 1)"
    using assms(1) good(2) by (intro clamp_mono) (simp_all add: relay_ok_def)
  then have "failure_malus c \<le> failure_malus r"
    unfolding failure_malus_def using clamped_up_to [OF assms(1)] clamped_up_to [OF assms(2)] by (intro fmul_mono [of 63]) simp_all
  with free show ?thesis
    unfolding relay_base_def using relay_base_up_to [OF assms(1)] relay_base_up_to [OF assms(2)] by (intro fsub_mono [of 70])
qed

lemma malus_mono:
  assumes "relay_ok c" and "relay_ok r" and "at_least_as_good c r"
  shows "latency_malus c \<le> latency_malus r"
proof -
  have "Milliseconds (rl_Latency c) \<le> Milliseconds (rl_Latency r)"
    using assms(3) by (simp add: at_least_as_good_def Milliseconds_def zdiv_mono1)
  then show ?thesis
    unfolding latency_malus_def using assms latency_up_to
    by (intro fmin_mono [OF latency_up_to latency_up_to] fdiv_mono [OF up_to_int64 up_to_int64] float64_of_int_le)
       (auto simp: at_least_as_good_def relay_ok_def in64_def Milliseconds_def)
qed

lemma score_mono:
  assumes "relay_ok c" and "relay_ok r" and "at_least_as_good c r"
  shows "relayScore region r \<le> relayScore region c"
proof -
  have lat: "0 < rl_Latency c" "0 < rl_Latency r" "rl_Region c = rl_Region r" using assms(3) by (auto simp: at_least_as_good_def)
  have "up_to 71 (FFin 20)" by (rule up_to_FFin) simp
  then have "fadd (relay_base r) (FFin 20) \<le> fadd (relay_base c) (FFin 20)"
    using relay_base_up_to(3) assms(1,2) base_mono [OF assms] by (intro fadd_mono [of 71]) simp_all
  moreover have "fsub x (latency_malus r) \<le> fsub x' (latency_malus c)" if "up_to 72 x" "up_to 72 x'" "x \<le> x'" for x x'
    using that malus_mono [OF assms] malus_up_to [OF assms(1)] malus_up_to [OF assms(2)] lat by (intro fsub_mono [of 72]) simp_all
  ultimately show ?thesis
    using lat bonus_up_to [OF assms(1)] bonus_up_to [OF assms(2)] base_mono [OF assms] by (simp add: relayScore_parts Let_def)
qed

text \<open>
  C33. The best relay is chosen: among rows whose numbers fit their columns and whose failure rate is
  a number, the chosen relay is one of the rows, named, reachable by an endpoint, healthy, not draining and
  with the required bytes free; no such relay has a higher score, and of those with its score it has the
  first identifier. In spite of the rounding of every floating-point operation, a relay of the
  same capacity and region with at least as many free bytes, a failure rate no higher and a positive latency no
  higher scores at least as high, so that it can lose to the chosen one only with an equal score and a later identifier.
\<close>

theorem best_relay_chosen:
  assumes "Select_relay relays n region = Inr r" and "list_all relay_ok relays" and "c \<in> set relays" and "eligible n c"
  shows "r \<in> set relays \<and> rl_ID r \<noteq> '''' \<and> rl_Endpoint r \<noteq> '''' \<and> rl_Healthy r \<and> \<not> rl_Draining r \<and>
    0 \<le> n \<and> n \<le> i64 (rl_CapacityBytes r - rl_UsedBytes r) \<and> relayScore region c \<le> relayScore region r \<and>
    (relayScore region c = relayScore region r \<longrightarrow> rl_ID r \<le> rl_ID c) \<and>
    (at_least_as_good c r \<longrightarrow> relayScore region c = relayScore region r \<and> rl_ID r \<le> rl_ID c)"
proof -
  let ?xs = "filter (eligible n) relays"
  obtain rs where rs: "SliceStable (relay_less region) ?xs = r # rs"
    using assms(1) by (auto simp: Select_relay_def split: list.splits)
  then have "r \<in> set (SliceStable (relay_less region) ?xs)" by simp
  then have r: "r \<in> set relays" "eligible n r" by simp_all
  have num: "relayScore region x \<noteq> FNaN" if "x \<in> set relays" for x
    using up_to_not_NaN [OF score_up_to] that assms(2) by (auto simp: list_all_iff)
  have ok: "relay_ok c" "relay_ok r" using assms(2,3) r by (auto simp: list_all_iff)
  have "by_order (relayScore region) (\<lambda>i j. rl_ID i < rl_ID j) c r = False"
    using stable_order.hd_SliceStable_least [OF stable_by_order [OF by_relay_id.stable_order_axioms], of "relayScore region" ?xs r rs c]
      by_score_sorts(1) [OF by_relay_id.stable_order_axioms, of ?xs "relayScore region"] rs num assms(3,4)
    by (simp add: relay_less_def)
  then show ?thesis using r score_mono [OF ok, of region] by (auto simp: by_order_iff eligible_def)
qed

definition demo_relay :: "string \<Rightarrow> int \<Rightarrow> Relay" where
  "demo_relay i used = \<lparr>rl_ID = i, rl_Endpoint = ''e'', rl_Region = ''eu'', rl_Healthy = True, rl_Draining = False, rl_CapacityBytes = 1000,
     rl_UsedBytes = used, rl_Latency = 20000000, rl_FailureRate = FFin 0, rl_LastSuccessful = 0\<rparr>"

lemma demo_scores: "relayScore ''eu'' (demo_relay i 1000) = FFin 18" "relayScore ''eu'' (demo_relay i 0) = FFin 118"
  by (simp_all add: relayScore_def demo_relay_def i64_def float64_of_int_def clamp_def fsub_def fmin_def Milliseconds_def Let_def)

theorem best_relay_chosen_witness:
  "Select_relay [demo_relay ''a'' 1000, demo_relay ''b'' 0] 0 ''eu'' = Inr (demo_relay ''b'' 0) \<and>
   relayScore ''eu'' (demo_relay ''a'' 1000) \<le> relayScore ''eu'' (demo_relay ''b'' 0)"
proof -
  have eligible: "eligible 0 (demo_relay i u)" if "i \<noteq> ''''" "u = 0 \<or> u = 1000" for i u
    using that by (auto simp: eligible_def demo_relay_def i64_def)
  have chosen: "Select_relay [demo_relay ''a'' 1000, demo_relay ''b'' 0] 0 ''eu'' = Inr (demo_relay ''b'' 0)"
    by (simp add: Select_relay_def relay_less_def by_score_def feq_def demo_scores eligible)
  show ?thesis
    using best_relay_chosen [OF chosen, of "demo_relay ''a'' 1000"] chosen eligible
    by (simp add: relay_ok_def in64_def demo_relay_def)
qed

end
