(* ===== verification/Enrollment.thy ===== *)
theory Enrollment
  imports SignedToken
begin

text \<open>
  Scoped device enrollment (\<open>internal/enrollment/service.go\<close>): signed tokens that let a new device
  redeem a credential. The store, an interface without an implementation in the repository, is a
  record of functions on its state; SHA-256, HMAC, JSON and randomness are parameters.
\<close>

section \<open>Data\<close>

text \<open>\<open>ErrStore\<close> stands for the errors of the store, \<open>ErrEncode\<close> for those of JSON and randomness.\<close>

datatype enrollment_error = ErrInvalidToken | ErrExpiredToken | ErrExhausted | ErrRevoked | ErrConfiguration
  | ErrEncode | ErrStore string

record Permissions =
  pm_SendFiles :: bool
  pm_ReceiveBroadcast :: bool

record Grant =
  gr_ID :: string
  gr_NodeID :: string
  gr_TokenHash :: string
  gr_ExpiresAt :: time
  gr_MaxUses :: int
  gr_Uses :: int
  gr_DeviceType :: string
  gr_NameHint :: string
  gr_OwnerID :: string
  gr_Permissions :: Permissions
  gr_RevokedAt :: "time option"

record CredentialRecord =
  crd_DeviceType :: string
  crd_Name :: string
  crd_OwnerID :: string
  crd_SecretHash :: string
  crd_Permissions :: Permissions
  crd_CreatedAt :: time

record 's GrantStore =
  SaveGrant :: "Grant \<Rightarrow> 's \<Rightarrow> 's \<times> (enrollment_error + unit)"
  ConsumeGrant :: "string \<Rightarrow> string \<Rightarrow> time \<Rightarrow> 's \<Rightarrow> 's \<times> (enrollment_error + Grant)"
  CreateDeviceCredential :: "Grant \<Rightarrow> CredentialRecord \<Rightarrow> 's \<Rightarrow> 's \<times> (enrollment_error + string)"
  RevokeGrant :: "string \<Rightarrow> time \<Rightarrow> 's \<Rightarrow> 's \<times> (enrollment_error + unit)"

record IssueRequest =
  iq_TTL :: duration
  iq_MaxUses :: int
  iq_DeviceType :: string
  iq_NameHint :: string
  iq_OwnerID :: string
  iq_Permissions :: Permissions

record Issued =
  is_GrantID :: string
  is_Token :: string
  is_ExpiresAt :: time

record claims =
  cl_Version :: int
  cl_GrantID :: string
  cl_NodeID :: string
  cl_Expires :: int
  cl_Nonce :: string

record RedeemRequest =
  rd_Token :: string
  rd_DeviceType :: string
  rd_DeviceName :: string
  rd_OwnerID :: string

record DeviceCredential =
  cd_DeviceID :: string
  cd_Secret :: string
  cd_Permissions :: Permissions

record EnrollmentService =
  es_nodeID :: string
  es_rootSecret :: string

definition clockSkew :: duration where "clockSkew = 30 * second"

definition NewEnrollment :: "string \<Rightarrow> string \<Rightarrow> enrollment_error + EnrollmentService" where
  "NewEnrollment nodeID rootSecret =
     (if length (TrimSpace nodeID) < 8 \<or> length rootSecret < 32 then Inl ErrConfiguration
      else Inr \<lparr>es_nodeID = TrimSpace nodeID, es_rootSecret = rootSecret\<rparr>)"

section \<open>Tokens\<close>

definition enrollment_label :: string where
  "enrollment_label = ''nexdrop/enrollment/v1'' @ [CHR 0x0A]"

definition enrollment_signature :: "hmac \<Rightarrow> EnrollmentService \<Rightarrow> string \<Rightarrow> string" where
  "enrollment_signature hmac service payload = mac_signature hmac enrollment_label (es_rootSecret service) payload"

definition parse_token :: "hmac \<Rightarrow> (string \<Rightarrow> claims option) \<Rightarrow> EnrollmentService \<Rightarrow> string \<Rightarrow> enrollment_error + claims" where
  "parse_token hmac unmarshal service token =
     (case split_on CHR ''.'' token of
        [version, encoded, signature] \<Rightarrow>
          if version \<noteq> ''v1'' \<or> encoded = '''' \<or> signature = '''' then Inl ErrInvalidToken
          else if signature \<noteq> enrollment_signature hmac service encoded then Inl ErrInvalidToken
          else (case b64_decode encoded of
             None \<Rightarrow> Inl ErrInvalidToken
           | Some payload \<Rightarrow>
               (case unmarshal payload of
                  None \<Rightarrow> Inl ErrInvalidToken
                | Some parsed \<Rightarrow>
                    if cl_Version parsed \<noteq> 1 \<or> cl_GrantID parsed = '''' \<or> cl_NodeID parsed \<noteq> es_nodeID service \<or>
                      cl_Nonce parsed = ''''
                    then Inl ErrInvalidToken else Inr parsed))
      | _ \<Rightarrow> Inl ErrInvalidToken)"

section \<open>Operations\<close>

text \<open>The random bytes of the grant identifier and of the nonce, if the source of randomness answers.\<close>

definition Issue ::
  "(string \<Rightarrow> string) \<Rightarrow> hmac \<Rightarrow> (claims \<Rightarrow> string option) \<Rightarrow> 's GrantStore \<Rightarrow> EnrollmentService \<Rightarrow> time \<Rightarrow>
     string option \<Rightarrow> string option \<Rightarrow> IssueRequest \<Rightarrow> 's \<Rightarrow> 's \<times> (enrollment_error + Issued)"
where
  "Issue sha hmac marshal store service now id_bytes nonce_bytes request s =
     (if iq_TTL request \<le> 0 \<or> 24 * hour < iq_TTL request \<or> iq_MaxUses request < 1 \<or> 100 < iq_MaxUses request \<or>
         50 < length (iq_DeviceType request) \<or> 100 < length (iq_NameHint request) \<or> 100 < length (iq_OwnerID request)
      then (s, Inl ErrInvalidToken)
      else case (id_bytes, nonce_bytes) of
        (Some i, Some n) \<Rightarrow>
          let grantID = b64_encode i;
              expiresAt = now + iq_TTL request
          in (case marshal \<lparr>cl_Version = 1, cl_GrantID = grantID, cl_NodeID = es_nodeID service,
                   cl_Expires = time_Unix expiresAt, cl_Nonce = b64_encode n\<rparr> of
                None \<Rightarrow> (s, Inl ErrEncode)
              | Some payload \<Rightarrow>
                  let token = seal3 ''v1'' (enrollment_signature hmac service) (b64_encode payload);
                      grant = \<lparr>gr_ID = grantID, gr_NodeID = es_nodeID service, gr_TokenHash = sha token,
                        gr_ExpiresAt = expiresAt, gr_MaxUses = iq_MaxUses request, gr_Uses = 0,
                        gr_DeviceType = TrimSpace (iq_DeviceType request), gr_NameHint = TrimSpace (iq_NameHint request),
                        gr_OwnerID = TrimSpace (iq_OwnerID request), gr_Permissions = iq_Permissions request,
                        gr_RevokedAt = None\<rparr>
                  in (case SaveGrant store grant s of
                        (s', Inl e) \<Rightarrow> (s', Inl e)
                      | (s', Inr _) \<Rightarrow> (s', Inr \<lparr>is_GrantID = grantID, is_Token = token, is_ExpiresAt = expiresAt\<rparr>)))
      | _ \<Rightarrow> (s, Inl ErrEncode))"

text \<open>The name the device gets: its own, or the hint of the grant.\<close>

definition device_name :: "Grant \<Rightarrow> RedeemRequest \<Rightarrow> string" where
  "device_name grant request = (let name = TrimSpace (rd_DeviceName request) in if name = '''' then gr_NameHint grant else name)"

definition Redeem ::
  "(string \<Rightarrow> string) \<Rightarrow> hmac \<Rightarrow> (string \<Rightarrow> claims option) \<Rightarrow> 's GrantStore \<Rightarrow> EnrollmentService \<Rightarrow> time \<Rightarrow>
     string option \<Rightarrow> RedeemRequest \<Rightarrow> 's \<Rightarrow> 's \<times> (enrollment_error + DeviceCredential)"
where
  "Redeem sha hmac unmarshal store service now secret_bytes request s =
     (case parse_token hmac unmarshal service (rd_Token request) of
        Inl e \<Rightarrow> (s, Inl e)
      | Inr parsed \<Rightarrow>
          if Unix_time (cl_Expires parsed) + clockSkew < now then (s, Inl ErrExpiredToken)
          else (case ConsumeGrant store (cl_GrantID parsed) (sha (rd_Token request)) now s of
             (s1, Inl e) \<Rightarrow> (s1, Inl e)
           | (s1, Inr grant) \<Rightarrow>
               let deviceType = TrimSpace (rd_DeviceType request);
                   name = device_name grant request
               in if gr_NodeID grant \<noteq> es_nodeID service \<or>
                     \<not> IsZero (gr_ExpiresAt grant) \<and> gr_ExpiresAt grant + clockSkew < now then (s1, Inl ErrExpiredToken)
                  else if gr_DeviceType grant \<noteq> '''' \<and> deviceType \<noteq> gr_DeviceType grant then (s1, Inl ErrInvalidToken)
                  else if name = '''' \<or> 100 < length name \<or> gr_OwnerID grant \<noteq> '''' \<and> rd_OwnerID request \<noteq> gr_OwnerID grant
                  then (s1, Inl ErrInvalidToken)
                  else (case secret_bytes of
                     None \<Rightarrow> (s1, Inl ErrEncode)
                   | Some bytes \<Rightarrow>
                       let secret = b64_encode bytes
                       in (case CreateDeviceCredential store grant
                             \<lparr>crd_DeviceType = deviceType, crd_Name = name, crd_OwnerID = rd_OwnerID request,
                              crd_SecretHash = sha secret, crd_Permissions = gr_Permissions grant, crd_CreatedAt = now\<rparr> s1 of
                             (s2, Inl e) \<Rightarrow> (s2, Inl e)
                           | (s2, Inr deviceID) \<Rightarrow>
                               (s2, Inr \<lparr>cd_DeviceID = deviceID, cd_Secret = secret, cd_Permissions = gr_Permissions grant\<rparr>)))))"

definition Revoke :: "'s GrantStore \<Rightarrow> time \<Rightarrow> string \<Rightarrow> 's \<Rightarrow> 's \<times> (enrollment_error + unit)" where
  "Revoke store now grantID s =
     (if TrimSpace grantID = '''' then (s, Inl ErrInvalidToken) else RevokeGrant store grantID now s)"

interpretation enrollment_token: sealing "seal3 ''v1'' (enrollment_signature hmac service)"
    "unseal3 ''v1'' (enrollment_signature hmac service)"
  for hmac service
  by (rule sealing_seal3) (simp_all add: enrollment_signature_def)

section \<open>Redeeming\<close>

lemma parse_token_Inr:
  assumes "parse_token hmac unmarshal service t = Inr c"
  shows "\<exists>e p. dotless e \<and> t = seal3 ''v1'' (enrollment_signature hmac service) e \<and> b64_decode e = Some p \<and>
    unmarshal p = Some c \<and> cl_NodeID c = es_nodeID service \<and> cl_GrantID c \<noteq> ''''"
proof -
  obtain e sig p where t: "split_on CHR ''.'' t = [''v1'', e, sig]" "sig = enrollment_signature hmac service e"
    and p: "b64_decode e = Some p" "unmarshal p = Some c" "cl_NodeID c = es_nodeID service" "cl_GrantID c \<noteq> ''''"
    using assms by (auto simp: parse_token_def split: list.splits if_splits option.splits)
  then have "unseal3 ''v1'' (enrollment_signature hmac service) t = Some e" by (simp add: unseal3_def)
  then show ?thesis using p enrollment_token.unseal_iff by blast
qed

lemma parse_token_sealed:
  assumes "unmarshal p = Some c" and "cl_Version c = 1" and "cl_GrantID c \<noteq> ''''" and "cl_NodeID c = es_nodeID service"
    and "cl_Nonce c \<noteq> ''''" and "p \<noteq> []" and "enrollment_signature hmac service (b64_encode p) \<noteq> ''''"
  shows "parse_token hmac unmarshal service (seal3 ''v1'' (enrollment_signature hmac service) (b64_encode p)) = Inr c"
proof -
  have "b64_encode p \<noteq> []" using assms(6) b64_encode_inject [of p "[]"] by (auto simp: b64_encode_def [of "[]"])
  moreover have "split_on CHR ''.'' (seal3 ''v1'' (enrollment_signature hmac service) (b64_encode p)) =
      [''v1'', b64_encode p, enrollment_signature hmac service (b64_encode p)]"
    by (rule split_seal3) (simp_all add: enrollment_signature_def)
  ultimately show ?thesis using assms by (simp add: parse_token_def)
qed

text \<open>
  A credential is only ever handed out for a token sealed with the Node's own secret that names
  this Node, not later than thirty seconds after both the token and the stored grant expire, after
  the store has consumed one use of the grant the token names, looked up by the digest of the whole
  token, and to a device of the type and owner the grant is bound to, if it is bound. The device
  gets the permissions of the grant and no others, and the store receives the digest of the secret,
  never the secret.
\<close>

theorem Redeem_authorised:
  assumes "Redeem sha hmac unmarshal store service now secret_bytes request s = (s', Inr credential)"
  shows "\<exists>e p c grant s1 crd. rd_Token request = seal3 ''v1'' (enrollment_signature hmac service) e \<and>
    b64_decode e = Some p \<and> unmarshal p = Some c \<and> cl_NodeID c = es_nodeID service \<and>
    now \<le> Unix_time (cl_Expires c) + clockSkew \<and>
    ConsumeGrant store (cl_GrantID c) (sha (rd_Token request)) now s = (s1, Inr grant) \<and>
    gr_NodeID grant = es_nodeID service \<and> (gr_ExpiresAt grant = 0 \<or> now \<le> gr_ExpiresAt grant + clockSkew) \<and>
    gr_DeviceType grant \<in> {'''', TrimSpace (rd_DeviceType request)} \<and> gr_OwnerID grant \<in> {'''', rd_OwnerID request} \<and>
    CreateDeviceCredential store grant crd s1 = (s', Inr (cd_DeviceID credential)) \<and>
    crd_Name crd \<noteq> '''' \<and> crd_SecretHash crd = sha (cd_Secret credential) \<and>
    crd_Permissions crd = gr_Permissions grant \<and> cd_Permissions credential = gr_Permissions grant"
proof -
  obtain c where c: "parse_token hmac unmarshal service (rd_Token request) = Inr c"
    using assms by (auto simp: Redeem_def split: sum.splits)
  obtain e p where token: "rd_Token request = seal3 ''v1'' (enrollment_signature hmac service) e"
    "b64_decode e = Some p" "unmarshal p = Some c" "cl_NodeID c = es_nodeID service"
    using parse_token_Inr [OF c] by blast
  obtain s1 grant where g: "ConsumeGrant store (cl_GrantID c) (sha (rd_Token request)) now s = (s1, Inr grant)"
    and expires: "now \<le> Unix_time (cl_Expires c) + clockSkew"
    using assms c by (auto simp: Redeem_def split: if_splits prod.splits sum.splits)
  show ?thesis
    using assms c g expires unfolding token(1) [symmetric]
    by (intro exI [of _ e] exI [of _ p] exI [of _ c] exI [of _ grant] exI [of _ s1]
          exI [of _ "\<lparr>crd_DeviceType = TrimSpace (rd_DeviceType request), crd_Name = device_name grant request,
            crd_OwnerID = rd_OwnerID request, crd_SecretHash = sha (cd_Secret credential),
            crd_Permissions = gr_Permissions grant, crd_CreatedAt = now\<rparr>"])
      (auto simp: Redeem_def Let_def token split: if_splits option.splits prod.splits sum.splits)
qed

definition demo_permissions :: Permissions where
  "demo_permissions = \<lparr>pm_SendFiles = True, pm_ReceiveBroadcast = False\<rparr>"

definition demo_enrollment_grant :: Grant where
  "demo_enrollment_grant = \<lparr>gr_ID = ''g'', gr_NodeID = ''node-one'', gr_TokenHash = '''', gr_ExpiresAt = 0, gr_MaxUses = 1, gr_Uses = 0,
     gr_DeviceType = '''', gr_NameHint = ''phone'', gr_OwnerID = '''', gr_Permissions = demo_permissions, gr_RevokedAt = None\<rparr>"

text \<open>A store whose state counts the uses of one grant.\<close>

definition demo_store :: "nat GrantStore" where
  "demo_store = \<lparr>SaveGrant = (\<lambda>g n. (n, Inr ())),
     ConsumeGrant = (\<lambda>i h t n. if n < 1 then (Suc n, Inr demo_enrollment_grant) else (n, Inl ErrExhausted)),
     CreateDeviceCredential = (\<lambda>g c n. (n, Inr ''device'')), RevokeGrant = (\<lambda>i t n. (n, Inr ()))\<rparr>"

definition demo_claims :: claims where
  "demo_claims = \<lparr>cl_Version = 1, cl_GrantID = ''g'', cl_NodeID = ''node-one'', cl_Expires = 60, cl_Nonce = ''n''\<rparr>"

theorem Redeem_authorised_witness:
  "let hmac = (\<lambda>key text. key @ rev text); unmarshal = (\<lambda>p. if p = ''json'' then Some demo_claims else None);
       service = \<lparr>es_nodeID = ''node-one'', es_rootSecret = ''secret''\<rparr>;
       request = \<lparr>rd_Token = seal3 ''v1'' (enrollment_signature hmac service) (b64_encode ''json''), rd_DeviceType = '''',
         rd_DeviceName = '''', rd_OwnerID = ''u''\<rparr>
   in \<exists>credential. Redeem rev hmac unmarshal demo_store service 5 (Some ''bytes'') request 0 = (1, Inr credential) \<and>
        cd_Permissions credential = demo_permissions"
proof -
  let ?hmac = "\<lambda>key text. key @ rev text :: string" and ?u = "\<lambda>p. if p = ''json'' then Some demo_claims else None"
  let ?service = "\<lparr>es_nodeID = ''node-one'', es_rootSecret = ''secret''\<rparr>"
  let ?t = "seal3 ''v1'' (enrollment_signature ?hmac ?service) (b64_encode ''json'')"
  let ?request = "\<lparr>rd_Token = ?t, rd_DeviceType = '''', rd_DeviceName = '''', rd_OwnerID = ''u''\<rparr>"
  have "enrollment_signature ?hmac ?service (b64_encode ''json'') \<noteq> ''''"
    using b64_encode_inject [of "''secret'' @ rev (enrollment_label @ b64_encode ''json'')" "[]"]
    by (simp add: enrollment_signature_def mac_signature_def b64_encode_def [of "[]"])
  then have parse: "parse_token ?hmac ?u ?service ?t = Inr demo_claims"
    by (intro parse_token_sealed) (simp_all add: demo_claims_def)
  have "\<exists>credential. Redeem rev ?hmac ?u demo_store ?service 5 (Some ''bytes'') ?request 0 = (1, Inr credential)"
    by (simp add: Redeem_def parse) (simp add: demo_claims_def demo_store_def demo_enrollment_grant_def device_name_def
        Unix_time_def unix_epoch_def clockSkew_def)
  then obtain credential where redeem:
    "Redeem rev ?hmac ?u demo_store ?service 5 (Some ''bytes'') ?request 0 = (1, Inr credential)" by blast
  have "cd_Permissions credential = demo_permissions"
    using Redeem_authorised [OF redeem]
    by (elim exE conjE) (auto simp: demo_store_def demo_enrollment_grant_def)
  with redeem show ?thesis by (simp only: Let_def) blast
qed

end
