(* ===== verification/Devices.thy ===== *)
theory Devices
  imports Auth StableSort
begin

text \<open>
  Devices of an account: the services of \<open>internal/device/service.go\<close> and
  \<open>internal/pairing/service.go\<close> with the operations of \<open>internal/postgres/store.go\<close> and
  \<open>internal/postgres/device_session.go\<close> they run on. The tables extend those of the logins. Hashes,
  X25519, PEM, X.509 and randomness are parameters; the identifiers the database generates are
  arguments.
\<close>

section \<open>Data\<close>

text \<open>\<open>ErrConstraint\<close> stands for a violated constraint of a table, \<open>ErrRandom\<close> for a failing generator.\<close>

datatype device_error = ErrInvalid | ErrNotFound | ErrForbidden | ErrConstraint | ErrRandom

datatype pairing_error = ErrInvalidCode | ErrExpired | ErrUsed | ErrLocked | ErrDevice device_error

datatype DeviceType = TypeWindows | TypeAndroid | TypeWebChrome | TypeWebEdge | TypeOther string

datatype TrustStatus = TrustPending | TrustTrusted | TrustRevoked

record Device =
  dv_ID :: string
  dv_DisplayName :: string
  dv_Type :: DeviceType
  dv_PublicKey :: string
  dv_Algorithm :: string
  dv_LANShortID :: string
  dv_LANFingerprint :: string
  dv_LANCertificate :: string
  dv_TrustStatus :: TrustStatus
  dv_Online :: bool
  dv_LastSeenAt :: "time option"
  dv_RevokedAt :: "time option"
  dv_CreatedAt :: time

record SessionChallenge =
  sc_ID :: string
  sc_SessionID :: string
  sc_EphemeralPublicKey :: string
  sc_Nonce :: string
  sc_ExpiresAt :: time

record PairingChallenge =
  pch_ID :: string
  pch_DeviceID :: string
  pch_Code :: string
  pch_ExpiresAt :: time
  pch_QRPayload :: string

record LANIdentity =
  li_ShortDeviceID :: string
  li_Fingerprint :: string
  li_Certificate :: string

text \<open>The rows of the tables, named after their columns.\<close>

record DevRow =
  dr_id :: string
  dr_user :: string
  dr_name :: string
  dr_type :: DeviceType
  dr_trust :: TrustStatus
  dr_revoked_at :: "time option"
  dr_created_at :: time

record DeviceKeyRow =
  dk_device :: string
  dk_public_key :: string
  dk_algorithm :: string

record LANRow =
  ln_device :: string
  ln_short_id :: string
  ln_fingerprint :: string
  ln_certificate :: string
  ln_updated_at :: time

record ConnectionRow =
  cn_device :: string
  cn_connected_at :: time
  cn_last_seen_at :: time
  cn_disconnected_at :: "time option"
  cn_protocol_version :: string
  cn_client_version :: string

text \<open>Challenges of sessions and pairing codes share the columns that bound their attempts.\<close>

record ChallengeRow =
  ch_id :: string
  ch_device :: string
  ch_session :: string
  ch_hash :: string
  ch_attempts :: int
  ch_expires_at :: time
  ch_used_at :: "time option"
  ch_created_at :: time

text \<open>
  The tables of an account. \<open>ddb_referenced\<close> lists the devices that rows of other tables
  (transfers, messages, audit events) refer to by a foreign key without \<open>ON DELETE\<close>.
\<close>

record device_db = auth_db +
  ddb_devices :: "DevRow list"
  ddb_keys :: "DeviceKeyRow list"
  ddb_lan :: "LANRow list"
  ddb_connections :: "ConnectionRow list"
  ddb_challenges :: "ChallengeRow list"
  ddb_codes :: "ChallengeRow list"
  ddb_referenced :: "string list"

section \<open>The device store (postgres/store.go)\<close>

definition key_of :: "'a device_db_scheme \<Rightarrow> string \<Rightarrow> DeviceKeyRow option" where
  "key_of db d = find (\<lambda>k. dk_device k = d) (ddb_keys db)"

definition scanDevice :: "DevRow \<Rightarrow> DeviceKeyRow \<Rightarrow> Device" where
  "scanDevice d k = \<lparr>dv_ID = dr_id d, dv_DisplayName = dr_name d, dv_Type = dr_type d,
     dv_PublicKey = dk_public_key k, dv_Algorithm = dk_algorithm k, dv_LANShortID = '''', dv_LANFingerprint = '''',
     dv_LANCertificate = '''', dv_TrustStatus = dr_trust d, dv_Online = False, dv_LastSeenAt = None,
     dv_RevokedAt = dr_revoked_at d, dv_CreatedAt = dr_created_at d\<rparr>"

text \<open>
  \<open>UPDATE devices d ... FROM device_keys k WHERE ... k.device_id = d.id RETURNING\<close>: the rows that
  match and have a key, and what \<open>scanDevice\<close> makes of the first.
\<close>

definition update_device ::
  "(DevRow \<Rightarrow> bool) \<Rightarrow> (DevRow \<Rightarrow> DevRow) \<Rightarrow> 'a device_db_scheme \<Rightarrow> device_error + 'a device_db_scheme \<times> Device"
where
  "update_device P f db =
     (let hit = (\<lambda>d. P d \<and> key_of db (dr_id d) \<noteq> None)
      in case find hit (ddb_devices db) of
           None \<Rightarrow> Inl ErrNotFound
         | Some d \<Rightarrow> Inr (db\<lparr>ddb_devices := update_where hit f (ddb_devices db)\<rparr>,
             scanDevice (f d) (the (key_of db (dr_id d)))))"

definition trusted :: "DevRow \<Rightarrow> bool" where
  "trusted d \<longleftrightarrow> dr_trust d = TrustTrusted \<and> dr_revoked_at d = None"

definition open_session :: "string \<Rightarrow> SessionRow \<Rightarrow> bool" where
  "open_session s r \<longleftrightarrow> s_id r = s \<and> s_revoked_at r = None"

definition CreateDevice ::
  "Session \<Rightarrow> string \<Rightarrow> DeviceType \<Rightarrow> string \<Rightarrow> string \<Rightarrow> string \<Rightarrow> time \<Rightarrow> 'a device_db_scheme \<Rightarrow>
     device_error + 'a device_db_scheme \<times> Device"
where
  "CreateDevice session name deviceType publicKey algorithm newID now db =
     (let d = \<lparr>dr_id = newID, dr_user = usr_ID session, dr_name = name, dr_type = deviceType, dr_trust = TrustTrusted,
            dr_revoked_at = None, dr_created_at = now\<rparr>;
          k = \<lparr>dk_device = newID, dk_public_key = publicKey, dk_algorithm = algorithm\<rparr>;
          hit = (\<lambda>s. open_session (sess_SessionID session) s \<and> s_user_id s = usr_ID session \<and> s_device_id s = None)
      in if list_ex (\<lambda>d. dr_id d = newID) (ddb_devices db) \<or> key_of db newID \<noteq> None \<or>
            \<not> list_ex (\<lambda>u. u_id u = usr_ID session) (db_users db)
         then Inl ErrConstraint
         else if \<not> list_ex hit (db_sessions db) then Inl ErrForbidden
         else Inr (db\<lparr>ddb_devices := ddb_devices db @ [d], ddb_keys := ddb_keys db @ [k],
           db_sessions := update_where hit (\<lambda>s. s\<lparr>s_device_id := Some newID\<rparr>) (db_sessions db)\<rparr>, scanDevice d k))"

definition list_view :: "'a device_db_scheme \<Rightarrow> time \<Rightarrow> DevRow \<Rightarrow> DeviceKeyRow \<Rightarrow> Device" where
  "list_view db now d k =
     (let lan = find (\<lambda>l. ln_device l = dr_id d) (ddb_lan db);
          connection = find (\<lambda>c. cn_device c = dr_id d) (ddb_connections db)
      in (scanDevice d k)
        \<lparr>dv_LANShortID := (case lan of None \<Rightarrow> '''' | Some l \<Rightarrow> ln_short_id l),
         dv_LANFingerprint := (case lan of None \<Rightarrow> '''' | Some l \<Rightarrow> ln_fingerprint l),
         dv_LANCertificate := (case lan of None \<Rightarrow> '''' | Some l \<Rightarrow> ln_certificate l),
         dv_Online := (case connection of None \<Rightarrow> False
            | Some c \<Rightarrow> cn_disconnected_at c = None \<and> now - 45 * second \<le> cn_last_seen_at c),
         dv_LastSeenAt := map_option cn_last_seen_at connection\<rparr>)"

definition ListDevices :: "'a device_db_scheme \<Rightarrow> time \<Rightarrow> string \<Rightarrow> Device list" where
  "ListDevices db now userID =
     map (\<lambda>(d, k). list_view db now d k)
       (SliceStable (\<lambda>(d, k) (d', k'). dr_created_at d < dr_created_at d')
         (filter (\<lambda>(d, k). dk_device k = dr_id d \<and> dr_user d = userID)
           (List.product (ddb_devices db) (ddb_keys db))))"

text \<open>\<open>INSERT ... ON CONFLICT (device_id) DO UPDATE\<close>; the short identifier and the fingerprint are unique.\<close>

definition store_RegisterLANIdentity ::
  "Session \<Rightarrow> string \<Rightarrow> string \<Rightarrow> string \<Rightarrow> string \<Rightarrow> time \<Rightarrow> 'a device_db_scheme \<Rightarrow> device_error + 'a device_db_scheme"
where
  "store_RegisterLANIdentity session deviceID shortID fingerprint certificate updatedAt db =
     (let l = \<lparr>ln_device = deviceID, ln_short_id = shortID, ln_fingerprint = fingerprint,
            ln_certificate = certificate, ln_updated_at = updatedAt\<rparr>;
          others = filter (\<lambda>r. ln_device r \<noteq> deviceID) (ddb_lan db)
      in if \<not> list_ex (\<lambda>d. dr_id d = deviceID \<and> dr_trust d \<noteq> TrustRevoked \<and> dr_revoked_at d = None) (ddb_devices db) \<or>
            \<not> list_ex (\<lambda>s. open_session (sess_SessionID session) s \<and> s_device_id s = Some deviceID) (db_sessions db)
         then Inl ErrForbidden
         else if list_ex (\<lambda>r. ln_short_id r = shortID \<or> ln_fingerprint r = fingerprint) others then Inl ErrConstraint
         else Inr (db\<lparr>ddb_lan := others @ [l]\<rparr>))"

definition RenameDevice ::
  "string \<Rightarrow> string \<Rightarrow> string \<Rightarrow> 'a device_db_scheme \<Rightarrow> device_error + 'a device_db_scheme \<times> Device"
where
  "RenameDevice userID deviceID name db =
     update_device (\<lambda>d. dr_id d = deviceID \<and> dr_user d = userID) (\<lambda>d. d\<lparr>dr_name := name\<rparr>) db"

text \<open>What the deletion of a device takes with it: \<open>ON DELETE CASCADE\<close>, also through its sessions.\<close>

definition delete_cascade :: "string \<Rightarrow> 'a device_db_scheme \<Rightarrow> 'a device_db_scheme" where
  "delete_cascade d db =
     (let gone = (\<lambda>s. list_ex (\<lambda>r. s_id r = s \<and> s_device_id r = Some d) (db_sessions db));
          keep = (\<lambda>c. ch_device c \<noteq> d \<and> \<not> gone (ch_session c))
      in db\<lparr>ddb_devices := filter (\<lambda>r. dr_id r \<noteq> d) (ddb_devices db),
            ddb_keys := filter (\<lambda>r. dk_device r \<noteq> d) (ddb_keys db),
            ddb_lan := filter (\<lambda>r. ln_device r \<noteq> d) (ddb_lan db),
            ddb_connections := filter (\<lambda>r. cn_device r \<noteq> d) (ddb_connections db),
            db_sessions := filter (\<lambda>r. s_device_id r \<noteq> Some d) (db_sessions db),
            ddb_challenges := filter keep (ddb_challenges db),
            ddb_codes := filter keep (ddb_codes db)\<rparr>)"

definition DeleteDevice :: "string \<Rightarrow> string \<Rightarrow> 'a device_db_scheme \<Rightarrow> device_error + 'a device_db_scheme" where
  "DeleteDevice userID deviceID db =
     (if \<not> list_ex (\<lambda>d. dr_id d = deviceID \<and> dr_user d = userID) (ddb_devices db) then Inl ErrNotFound
      else if deviceID \<in> set (ddb_referenced db) then Inl ErrConstraint
      else Inr (delete_cascade deviceID db))"

text \<open>
  The branch for \<open>pgx.ErrNoRows\<close> is dead: \<open>scanDevice\<close> has turned that error into
  \<open>device.ErrNotFound\<close>.
\<close>

definition RevokeDevice ::
  "Session \<Rightarrow> string \<Rightarrow> time \<Rightarrow> 'a device_db_scheme \<Rightarrow> device_error + 'a device_db_scheme \<times> Device"
where
  "RevokeDevice session deviceID now db =
     bindE (update_device (\<lambda>d. dr_id d = deviceID \<and> (usr_Admin session \<or> dr_user d = usr_ID session))
         (\<lambda>d. d\<lparr>dr_trust := TrustRevoked, dr_revoked_at := Some now\<rparr>) db)
       (\<lambda>(db, result). Inr (db\<lparr>db_sessions := update_where
           (\<lambda>s. s_device_id s = Some deviceID \<and> s_revoked_at s = None) (\<lambda>s. s\<lparr>s_revoked_at := Some now\<rparr>)
           (db_sessions db)\<rparr>, result))"

section \<open>Session challenges (postgres/device_session.go)\<close>

text \<open>A trusted device of the user whose open session is bound to no other device.\<close>

definition attachable :: "'a device_db_scheme \<Rightarrow> Session \<Rightarrow> string \<Rightarrow> bool" where
  "attachable db session deviceID \<longleftrightarrow>
     list_ex (\<lambda>d. dr_id d = deviceID \<and> dr_user d = usr_ID session \<and> trusted d) (ddb_devices db) \<and>
     list_ex (\<lambda>s. open_session (sess_SessionID session) s \<and> s_user_id s = usr_ID session \<and>
       s_device_id s \<in> {None, Some deviceID}) (db_sessions db)"

definition DevicePublicKeyForSession :: "'a device_db_scheme \<Rightarrow> Session \<Rightarrow> string \<Rightarrow> device_error + string" where
  "DevicePublicKeyForSession db session deviceID =
     (case key_of db deviceID of
        Some k \<Rightarrow> if attachable db session deviceID then Inr (dk_public_key k) else Inl ErrForbidden
      | None \<Rightarrow> Inl ErrForbidden)"

text \<open>A row of either table of challenges as it is inserted.\<close>

definition fresh_challenge :: "string \<Rightarrow> string \<Rightarrow> string \<Rightarrow> string \<Rightarrow> time \<Rightarrow> time \<Rightarrow> ChallengeRow" where
  "fresh_challenge i d s h expiresAt now =
     \<lparr>ch_id = i, ch_device = d, ch_session = s, ch_hash = h, ch_attempts = 0, ch_expires_at = expiresAt,
      ch_used_at = None, ch_created_at = now\<rparr>"

definition CreateDeviceSessionChallenge ::
  "Session \<Rightarrow> string \<Rightarrow> string \<Rightarrow> time \<Rightarrow> time \<Rightarrow> string \<Rightarrow> 'a device_db_scheme \<Rightarrow> device_error + 'a device_db_scheme \<times> string"
where
  "CreateDeviceSessionChallenge session deviceID proofHash expiresAt now newID db =
     (if \<not> attachable db session deviceID then Inl ErrForbidden
      else if list_ex (\<lambda>c. ch_id c = newID) (ddb_challenges db) then Inl ErrConstraint
      else Inr (db\<lparr>ddb_challenges := ddb_challenges db @
        [fresh_challenge newID deviceID (sess_SessionID session) proofHash expiresAt now]\<rparr>, newID))"

definition count_attempt :: "string \<Rightarrow> ChallengeRow list \<Rightarrow> ChallengeRow list" where
  "count_attempt i = update_where (\<lambda>c. ch_id c = i) (\<lambda>c. c\<lparr>ch_attempts := ch_attempts c + 1\<rparr>)"

definition mark_used :: "string \<Rightarrow> time \<Rightarrow> ChallengeRow list \<Rightarrow> ChallengeRow list" where
  "mark_used i now = update_where (\<lambda>c. ch_id c = i) (\<lambda>c. c\<lparr>ch_used_at := Some now\<rparr>)"

text \<open>The counted attempt is committed although the caller gets an error.\<close>

definition RedeemDeviceSessionChallenge ::
  "Session \<Rightarrow> string \<Rightarrow> string \<Rightarrow> string \<Rightarrow> time \<Rightarrow> int \<Rightarrow> 'a device_db_scheme \<Rightarrow> 'a device_db_scheme \<times> (device_error + unit)"
where
  "RedeemDeviceSessionChallenge session deviceID challengeID proofHash now maximumAttempts db =
     (case find (\<lambda>c. ch_id c = challengeID \<and> ch_device c = deviceID \<and> ch_session c = sess_SessionID session)
             (ddb_challenges db) of
        None \<Rightarrow> (db, Inl ErrForbidden)
      | Some c \<Rightarrow>
          if ch_used_at c \<noteq> None \<or> \<not> now < ch_expires_at c \<or> maximumAttempts \<le> ch_attempts c then (db, Inl ErrForbidden)
          else if ch_hash c \<noteq> proofHash
          then (db\<lparr>ddb_challenges := count_attempt challengeID (ddb_challenges db)\<rparr>, Inl ErrForbidden)
          else if \<not> attachable db session deviceID then (db, Inl ErrForbidden)
          else (db\<lparr>db_sessions := update_where
                  (\<lambda>s. open_session (sess_SessionID session) s \<and> s_user_id s = usr_ID session \<and>
                     s_device_id s \<in> {None, Some deviceID})
                  (\<lambda>s. s\<lparr>s_device_id := Some deviceID\<rparr>) (db_sessions db),
                ddb_challenges := mark_used challengeID now (ddb_challenges db)\<rparr>, Inr ()))"

section \<open>Pairing codes (postgres/store.go)\<close>

definition CreatePairingCode ::
  "Session \<Rightarrow> string \<Rightarrow> string \<Rightarrow> time \<Rightarrow> time \<Rightarrow> string \<Rightarrow> 'a device_db_scheme \<Rightarrow> device_error + 'a device_db_scheme \<times> string"
where
  "CreatePairingCode session deviceID codeHash expiresAt now newID db =
     (if \<not> list_ex (\<lambda>d. dr_id d = deviceID \<and> dr_trust d = TrustPending \<and> dr_revoked_at d = None) (ddb_devices db) \<or>
         \<not> list_ex (\<lambda>s. open_session (sess_SessionID session) s \<and> s_device_id s = Some deviceID) (db_sessions db)
      then Inl ErrForbidden
      else if list_ex (\<lambda>c. ch_id c = newID) (ddb_codes db) then Inl ErrConstraint
      else Inr (db\<lparr>ddb_codes := ddb_codes db @
        [fresh_challenge newID deviceID (sess_SessionID session) codeHash expiresAt now]\<rparr>, newID))"

text \<open>The user of the trusted device the session acts for.\<close>

definition actor_user :: "'a device_db_scheme \<Rightarrow> Session \<Rightarrow> string \<Rightarrow> string option" where
  "actor_user db session deviceID =
     (if list_ex (\<lambda>s. open_session (sess_SessionID session) s \<and> s_device_id s = Some deviceID) (db_sessions db)
      then map_option dr_user (find (\<lambda>d. dr_id d = deviceID \<and> trusted d) (ddb_devices db)) else None)"

text \<open>The code together with its target, a device of the same user that is not revoked.\<close>

definition code_and_target :: "'a device_db_scheme \<Rightarrow> string \<Rightarrow> string \<Rightarrow> (ChallengeRow \<times> DevRow) option" where
  "code_and_target db challengeID userID =
     find (\<lambda>(c, d). ch_id c = challengeID \<and> dr_id d = ch_device c \<and> dr_user d = userID \<and> dr_revoked_at d = None)
       (List.product (ddb_codes db) (ddb_devices db))"

definition RedeemPairingCode ::
  "Session \<Rightarrow> string \<Rightarrow> string \<Rightarrow> string \<Rightarrow> time \<Rightarrow> int \<Rightarrow> 'a device_db_scheme \<Rightarrow>
     'a device_db_scheme \<times> (pairing_error + Device)"
where
  "RedeemPairingCode session deviceID challengeID codeHash now maximumAttempts db =
     (case actor_user db session deviceID of
        None \<Rightarrow> (db, Inl (ErrDevice ErrForbidden))
      | Some user \<Rightarrow>
        (case code_and_target db challengeID user of
           None \<Rightarrow> (db, Inl ErrInvalidCode)
         | Some (c, target) \<Rightarrow>
             if ch_used_at c \<noteq> None then (db, Inl ErrUsed)
             else if dr_trust target \<noteq> TrustPending then (db, Inl ErrInvalidCode)
             else if \<not> now < ch_expires_at c then (db, Inl ErrExpired)
             else if maximumAttempts \<le> ch_attempts c then (db, Inl ErrLocked)
             else if ch_hash c \<noteq> codeHash
             then (db\<lparr>ddb_codes := count_attempt challengeID (ddb_codes db)\<rparr>,
                   Inl (if maximumAttempts \<le> ch_attempts c + 1 then ErrLocked else ErrInvalidCode))
             else (case update_device (\<lambda>d. dr_id d = ch_device c \<and> dr_trust d = TrustPending \<and> dr_revoked_at d = None)
                     (\<lambda>d. d\<lparr>dr_trust := TrustTrusted\<rparr>)
                     (db\<lparr>ddb_codes := mark_used challengeID now (ddb_codes db)\<rparr>) of
                Inl e \<Rightarrow> (db, Inl (ErrDevice e))
              | Inr (db', result) \<Rightarrow> (db', Inr result))))"

section \<open>The device service (device/service.go)\<close>

definition sessionChallengeTTL :: duration where "sessionChallengeTTL = 5 * minute"
definition maximumChallengeAttempts :: int where "maximumChallengeAttempts = 5"

text \<open>
  Package \<open>ecdh\<close>: \<open>valid_key\<close> tells whether \<open>NewPublicKey\<close> accepts the bytes, and \<open>ecdh\<close> is the
  shared secret of a private key with the bytes of a public key, if they have one.
\<close>

record Crypto =
  cr_sha256 :: "string \<Rightarrow> string"
  cr_hmac :: hmac
  cr_valid_key :: "string \<Rightarrow> bool"
  cr_public :: "string \<Rightarrow> string"
  cr_ecdh :: "string \<Rightarrow> string \<Rightarrow> string option"

definition sessionProof :: "Crypto \<Rightarrow> string \<Rightarrow> string \<Rightarrow> string \<Rightarrow> string" where
  "sessionProof cr shared sessionID nonce = cr_hmac cr shared (''nexdrop/session-attach/v1'' @ sessionID @ nonce)"

text \<open>\<open>ephemeral\<close> and \<open>nonce\<close> are the private key and the bytes the generators return, if they do.\<close>

definition CreateSessionChallenge ::
  "Crypto \<Rightarrow> string option \<Rightarrow> string option \<Rightarrow> Session \<Rightarrow> string \<Rightarrow> time \<Rightarrow> string \<Rightarrow> 'a device_db_scheme \<Rightarrow>
     device_error + 'a device_db_scheme \<times> SessionChallenge"
where
  "CreateSessionChallenge cr ephemeral nonce session deviceID now newID db =
     (if deviceID = '''' then Inl ErrInvalid
      else bindE (DevicePublicKeyForSession db session deviceID) (\<lambda>publicKey.
        if \<not> cr_valid_key cr publicKey then Inl ErrInvalid
        else case ephemeral of None \<Rightarrow> Inl ErrRandom | Some private \<Rightarrow>
          (case cr_ecdh cr private publicKey of None \<Rightarrow> Inl ErrInvalid | Some shared \<Rightarrow>
            (case nonce of None \<Rightarrow> Inl ErrRandom | Some n \<Rightarrow>
               bindE (CreateDeviceSessionChallenge session deviceID
                   (cr_sha256 cr (sessionProof cr shared (sess_SessionID session) n))
                   (now + sessionChallengeTTL) now newID db)
                 (\<lambda>(db, i). Inr (db, \<lparr>sc_ID = i, sc_SessionID = sess_SessionID session,
                    sc_EphemeralPublicKey = cr_public cr private, sc_Nonce = n,
                    sc_ExpiresAt = now + sessionChallengeTTL\<rparr>))))))"

definition AttachSession ::
  "Crypto \<Rightarrow> Session \<Rightarrow> string \<Rightarrow> string \<Rightarrow> string \<Rightarrow> time \<Rightarrow> 'a device_db_scheme \<Rightarrow> 'a device_db_scheme \<times> (device_error + unit)"
where
  "AttachSession cr session deviceID challengeID proof now db =
     (if deviceID = '''' \<or> challengeID = '''' \<or> length proof \<noteq> 32 then (db, Inl ErrInvalid)
      else RedeemDeviceSessionChallenge session deviceID challengeID (cr_sha256 cr proof) now maximumChallengeAttempts db)"

definition validType :: "DeviceType \<Rightarrow> bool" where
  "validType t \<longleftrightarrow> (case t of TypeOther s \<Rightarrow> False | _ \<Rightarrow> True)"

definition Create_device ::
  "Session \<Rightarrow> string \<Rightarrow> DeviceType \<Rightarrow> string \<Rightarrow> string \<Rightarrow> string \<Rightarrow> time \<Rightarrow> 'a device_db_scheme \<Rightarrow>
     device_error + 'a device_db_scheme \<times> Device"
where
  "Create_device session name deviceType publicKey algorithm newID now db =
     (let name = TrimSpace name; algorithm = TrimSpace algorithm
      in if name = '''' \<or> 100 < length name \<or> \<not> validType deviceType \<or> length publicKey \<noteq> 32 \<or> algorithm \<noteq> ''X25519''
         then Inl ErrInvalid else CreateDevice session name deviceType publicKey algorithm newID now db)"

definition Rename ::
  "Session \<Rightarrow> string \<Rightarrow> string \<Rightarrow> 'a device_db_scheme \<Rightarrow> device_error + 'a device_db_scheme \<times> Device"
where
  "Rename session i name db =
     (let name = TrimSpace name
      in if i = '''' \<or> name = '''' \<or> 100 < length name then Inl ErrInvalid
         else RenameDevice (usr_ID session) i name db)"

definition Delete :: "Session \<Rightarrow> string \<Rightarrow> 'a device_db_scheme \<Rightarrow> device_error + 'a device_db_scheme" where
  "Delete session i db = (if i = '''' then Inl ErrInvalid else DeleteDevice (usr_ID session) i db)"

definition Revoke_device ::
  "Session \<Rightarrow> string \<Rightarrow> time \<Rightarrow> 'a device_db_scheme \<Rightarrow> device_error + 'a device_db_scheme \<times> Device"
where
  "Revoke_device session i now db = (if i = '''' then Inl ErrInvalid else RevokeDevice session i now db)"

text \<open>
  Packages \<open>pem\<close> and \<open>x509\<close>: the first block of a text (its type, its bytes, the rest of the text),
  the text of a \<open>CERTIFICATE\<close> block, and a certificate with the outcome of checking it against itself.
\<close>

record Certificate =
  ce_CommonName :: string
  ce_NotBefore :: time
  ce_NotAfter :: time
  ce_SelfSigned :: bool

record X509 =
  xp_Decode :: "string \<Rightarrow> (string \<times> string \<times> string) option"
  xp_Encode :: "string \<Rightarrow> string"
  xp_Parse :: "string \<Rightarrow> Certificate option"

definition lan_hex_digit :: "char \<Rightarrow> bool" where
  "lan_hex_digit c \<longleftrightarrow> \<not> ((c < CHR ''0'' \<or> CHR ''9'' < c) \<and> (c < CHR ''a'' \<or> CHR ''f'' < c))"

definition certificate_ok :: "X509 \<Rightarrow> string \<Rightarrow> time \<Rightarrow> string \<Rightarrow> bool" where
  "certificate_ok xp shortID now bytes \<longleftrightarrow>
     (case xp_Parse xp bytes of
        None \<Rightarrow> False
      | Some c \<Rightarrow> ce_CommonName c = ''nexdrop:'' @ shortID \<and> \<not> now < ce_NotBefore c \<and> \<not> ce_NotAfter c < now \<and>
          ce_SelfSigned c)"

definition RegisterLANIdentity ::
  "(string \<Rightarrow> string) \<Rightarrow> X509 \<Rightarrow> Session \<Rightarrow> string \<Rightarrow> string \<Rightarrow> time \<Rightarrow> 'a device_db_scheme \<Rightarrow>
     device_error + 'a device_db_scheme \<times> LANIdentity"
where
  "RegisterLANIdentity sha xp session i certificatePEM now db =
     (let compactID = filter (\<lambda>c. c \<noteq> CHR ''-'') i;
          shortID = take 12 compactID
      in if sess_DeviceID session \<noteq> Some i then Inl ErrForbidden
         else if length compactID \<noteq> 32 \<or> 16384 < length certificatePEM then Inl ErrInvalid
         else if \<not> list_all lan_hex_digit compactID then Inl ErrInvalid
         else case xp_Decode xp certificatePEM of
           None \<Rightarrow> Inl ErrInvalid
         | Some (kind, bytes, remainder) \<Rightarrow>
             if kind \<noteq> ''CERTIFICATE'' \<or> length (TrimSpace remainder) \<noteq> 0 \<or> \<not> certificate_ok xp shortID now bytes
             then Inl ErrInvalid
             else let identity = \<lparr>li_ShortDeviceID = shortID, li_Fingerprint = hex_encode (sha bytes),
                        li_Certificate = xp_Encode xp bytes\<rparr>
                  in bindE (store_RegisterLANIdentity session i shortID (li_Fingerprint identity) (li_Certificate identity) now db)
                       (\<lambda>db. Inr (db, identity)))"

section \<open>The pairing service (pairing/service.go)\<close>

definition CodeLifetime :: duration where "CodeLifetime = 10 * minute"
definition MaximumCodeAttempts :: int where "MaximumCodeAttempts = 5"

text \<open>\<open>newCode\<close>, given the number below a million that \<open>rand.Int\<close> returns.\<close>

definition newCode :: "nat option \<Rightarrow> string option" where
  "newCode random = map_option six_digits random"

text \<open>\<open>query_escape\<close> is \<open>url.QueryEscape\<close>; \<open>Values.Encode\<close> sorts by key.\<close>

definition qr_payload :: "(string \<Rightarrow> string) \<Rightarrow> string \<Rightarrow> string \<Rightarrow> string \<Rightarrow> string" where
  "qr_payload query_escape i deviceID pairingCode =
     ''nexdrop://pair?code='' @ query_escape pairingCode @ ''&device='' @ query_escape deviceID @ ''&id='' @ query_escape i"

definition Create_pairing ::
  "(string \<Rightarrow> string) \<Rightarrow> (string \<Rightarrow> string) \<Rightarrow> nat option \<Rightarrow> Session \<Rightarrow> string \<Rightarrow> time \<Rightarrow> string \<Rightarrow> 'a device_db_scheme \<Rightarrow>
     device_error + 'a device_db_scheme \<times> PairingChallenge"
where
  "Create_pairing sha query_escape random session deviceID now newID db =
     (if deviceID = '''' then Inl ErrInvalid
      else case newCode random of None \<Rightarrow> Inl ErrRandom | Some pairingCode \<Rightarrow>
        bindE (CreatePairingCode session deviceID (sha pairingCode) (now + CodeLifetime) now newID db)
          (\<lambda>(db, i). Inr (db, \<lparr>pch_ID = i, pch_DeviceID = deviceID, pch_Code = pairingCode,
             pch_ExpiresAt = now + CodeLifetime, pch_QRPayload = qr_payload query_escape i deviceID pairingCode\<rparr>)))"

definition Redeem_pairing ::
  "(string \<Rightarrow> string) \<Rightarrow> Session \<Rightarrow> string \<Rightarrow> string \<Rightarrow> string \<Rightarrow> time \<Rightarrow> 'a device_db_scheme \<Rightarrow>
     'a device_db_scheme \<times> (pairing_error + Device)"
where
  "Redeem_pairing sha session deviceID challengeID pairingCode now db =
     (if deviceID = '''' \<or> challengeID = '''' \<or> length pairingCode \<noteq> 6 then (db, Inl ErrInvalidCode)
      else if list_ex (\<lambda>c. c < CHR ''0'' \<or> CHR ''9'' < c) pairingCode then (db, Inl ErrInvalidCode)
      else RedeemPairingCode session deviceID challengeID (sha pairingCode) now MaximumCodeAttempts db)"

section \<open>Errors\<close>

text \<open>
  Revoking somebody else's device is answered like an unknown one: \<open>RevokeDevice\<close> means to return
  \<open>device.ErrForbidden\<close> for it, but that error is never returned.
\<close>

lemma RevokeDevice_never_forbidden: "RevokeDevice session d now db \<noteq> Inl ErrForbidden"
  by (auto simp: RevokeDevice_def bindE_eq_Inl update_device_def Let_def split: option.splits)

end
