(* ===== verification/DeviceHistory.thy ===== *)
theory DeviceHistory
  imports Devices
begin

text \<open>
  Histories of the device, pairing and login operations on the tables of \<open>Devices\<close>, what each
  operation changes, and that revoking a device is final.
\<close>

section \<open>Histories\<close>

text \<open>What a history gets from outside: the cryptography, the certificate packages and \<open>url.QueryEscape\<close>.\<close>

record Outside =
  out_crypto :: Crypto
  out_x509 :: X509
  out_query_escape :: "string \<Rightarrow> string"

text \<open>The operations, each with the arguments of its request and the values generated for it.\<close>

datatype device_op =
    OpLogin string string string time string time
  | OpRotate string string time string time
  | OpLogout string
  | OpCreate Session string DeviceType string string string
  | OpRename Session string string
  | OpDelete Session string
  | OpRevoke Session string
  | OpRegister Session string string
  | OpChallenge "string option" "string option" Session string string
  | OpAttach Session string string string
  | OpPair "nat option" Session string string
  | OpRedeem Session string string string

text \<open>The tables of the logins as \<open>Auth\<close> sees them, and back.\<close>

definition auth_part :: "device_db \<Rightarrow> auth_db" where
  "auth_part db = \<lparr>db_users = db_users db, db_sessions = db_sessions db\<rparr>"

definition with_auth :: "device_db \<Rightarrow> auth_error + auth_db \<Rightarrow> device_db" where
  "with_auth db r = (case r of Inl e \<Rightarrow> db | Inr a \<Rightarrow> db\<lparr>db_users := db_users a, db_sessions := db_sessions a\<rparr>)"

text \<open>An operation that fails leaves the tables as they were.\<close>

definition commit :: "device_db \<Rightarrow> 'e + device_db \<times> 'a \<Rightarrow> device_db" where
  "commit db r = (case r of Inl e \<Rightarrow> db | Inr (db', v) \<Rightarrow> db')"

fun exec :: "Outside \<Rightarrow> time \<times> device_op \<Rightarrow> device_db \<Rightarrow> device_db" where
  "exec out (now, OpLogin sid user access accessExpires refresh refreshExpires) db =
     with_auth db (CreateSession (auth_part db) sid user access accessExpires refresh refreshExpires)"
| "exec out (now, OpRotate old access accessExpires refresh refreshExpires) db =
     with_auth db (RotateSession (auth_part db) old access accessExpires refresh refreshExpires now)"
| "exec out (now, OpLogout refresh) db = with_auth db (RevokeSessionByRefreshToken (auth_part db) refresh now)"
| "exec out (now, OpCreate session name ty key algorithm newID) db =
     commit db (Create_device session name ty key algorithm newID now db)"
| "exec out (now, OpRename session i name) db = commit db (Rename session i name db)"
| "exec out (now, OpDelete session i) db = (case Delete session i db of Inl e \<Rightarrow> db | Inr db' \<Rightarrow> db')"
| "exec out (now, OpRevoke session i) db = commit db (Revoke_device session i now db)"
| "exec out (now, OpRegister session i pem) db =
     commit db (RegisterLANIdentity (cr_sha256 (out_crypto out)) (out_x509 out) session i pem now db)"
| "exec out (now, OpChallenge ephemeral nonce session i newID) db =
     commit db (CreateSessionChallenge (out_crypto out) ephemeral nonce session i now newID db)"
| "exec out (now, OpAttach session i challengeID proof) db =
     fst (AttachSession (out_crypto out) session i challengeID proof now db)"
| "exec out (now, OpPair random session i newID) db =
     commit db (Create_pairing (cr_sha256 (out_crypto out)) (out_query_escape out) random session i now newID db)"
| "exec out (now, OpRedeem session i challengeID guess) db =
     fst (Redeem_pairing (cr_sha256 (out_crypto out)) session i challengeID guess now db)"

definition run :: "Outside \<Rightarrow> (time \<times> device_op) list \<Rightarrow> device_db \<Rightarrow> device_db" where
  "run out evs = fold (exec out) evs"

text \<open>The identifier an operation has the database generate.\<close>

fun new_id :: "device_op \<Rightarrow> string option" where
  "new_id (OpLogin sid user access accessExpires refresh refreshExpires) = Some sid"
| "new_id (OpCreate session name ty key algorithm i) = Some i"
| "new_id (OpChallenge ephemeral nonce session d i) = Some i"
| "new_id (OpPair random session d i) = Some i"
| "new_id _ = None"

lemma run_simps [simp]: "run out [] db = db" "run out (e # evs) db = run out evs (exec out e db)"
  by (simp_all add: run_def)

lemma run_append [simp]: "run out (evs @ evs') db = run out evs' (run out evs db)"
  by (simp add: run_def)

section \<open>What each operation changes\<close>

named_theorems device_ops \<open>unfolding rules of the device operations\<close>

lemmas [device_ops] = commit_def with_auth_def auth_part_def Let_def
  Create_device_def CreateDevice_def Rename_def RenameDevice_def Delete_def DeleteDevice_def delete_cascade_def
  Revoke_device_def RevokeDevice_def RegisterLANIdentity_def store_RegisterLANIdentity_def
  CreateSessionChallenge_def CreateDeviceSessionChallenge_def AttachSession_def RedeemDeviceSessionChallenge_def
  Create_pairing_def CreatePairingCode_def Redeem_pairing_def RedeemPairingCode_def update_device_def
  CreateSession_def RotateSession_def RevokeSessionByRefreshToken_def store_sessions_def

lemma exec_challenge:
  "exec out (now, OpChallenge ephemeral nonce session i newID) db = db \<or>
   \<not> list_ex (\<lambda>c. ch_id c = newID) (ddb_challenges db) \<and>
   (\<exists>h t. exec out (now, OpChallenge ephemeral nonce session i newID) db = db\<lparr>ddb_challenges := ddb_challenges db @
      [fresh_challenge newID i (sess_SessionID session) h t now]\<rparr>)"
proof (cases "CreateSessionChallenge (out_crypto out) ephemeral nonce session i now newID db")
  case (Inr r)
  then show ?thesis
    by (auto simp: commit_def CreateSessionChallenge_def CreateDeviceSessionChallenge_def Let_def
        split: if_splits option.splits prod.splits)
qed (simp add: commit_def)

lemma exec_pair:
  "exec out (now, OpPair random session i newID) db = db \<or>
   \<not> list_ex (\<lambda>c. ch_id c = newID) (ddb_codes db) \<and>
   (\<exists>h t. exec out (now, OpPair random session i newID) db = db\<lparr>ddb_codes := ddb_codes db @
      [fresh_challenge newID i (sess_SessionID session) h t now]\<rparr>)"
proof (cases "Create_pairing (cr_sha256 (out_crypto out)) (out_query_escape out) random session i now newID db")
  case (Inr r)
  then show ?thesis
    by (auto simp: commit_def Create_pairing_def CreatePairingCode_def Let_def
        split: if_splits option.splits prod.splits)
qed (simp add: commit_def)

lemma exec_register:
  "exec out (now, OpRegister session i pem) db = db \<or>
   (\<exists>ls. exec out (now, OpRegister session i pem) db = db\<lparr>ddb_lan := ls\<rparr>)"
proof (cases "RegisterLANIdentity (cr_sha256 (out_crypto out)) (out_x509 out) session i pem now db")
  case (Inr r)
  then show ?thesis
    by (auto simp: commit_def RegisterLANIdentity_def store_RegisterLANIdentity_def Let_def
        split: if_splits option.splits prod.splits)
qed (simp add: commit_def)

text \<open>A device that is gone or revoked, and no open session acting for it.\<close>

definition locked_out :: "string \<Rightarrow> device_db \<Rightarrow> bool" where
  "locked_out d db \<longleftrightarrow> list_all (\<lambda>r. dr_id r = d \<longrightarrow> dr_revoked_at r \<noteq> None) (ddb_devices db) \<and>
     list_all (\<lambda>s. s_device_id s = Some d \<longrightarrow> s_revoked_at s \<noteq> None) (db_sessions db)"

lemma locked_outD: "locked_out d db \<Longrightarrow> \<not> list_ex (\<lambda>r. dr_id r = d \<and> dr_user r = u \<and> trusted r) (ddb_devices db)"
  by (auto simp: locked_out_def trusted_def list_all_iff list_ex_iff)

lemma locked_out_exec:
  assumes "locked_out d db" and "new_id (snd e) \<noteq> Some d"
  shows "locked_out d (exec out e db)"
proof (cases e)
  case (Pair now op)
  show ?thesis
  proof (cases op)
    case (OpChallenge ephemeral nonce session i newID)
    then show ?thesis
      using assms(1) exec_challenge [of out now ephemeral nonce session i newID db] unfolding Pair
      by (auto simp: locked_out_def simp del: exec.simps)
  next
    case (OpPair random session i newID)
    then show ?thesis
      using assms(1) exec_pair [of out now random session i newID db] unfolding Pair
      by (auto simp: locked_out_def simp del: exec.simps)
  next
    case (OpRegister session i pem)
    then show ?thesis
      using assms(1) exec_register [of out now session i pem db] unfolding Pair
      by (auto simp: locked_out_def simp del: exec.simps)
  next
    case OpAttach
    then show ?thesis using assms locked_outD [OF assms(1)]
      by (auto simp: Pair device_ops locked_out_def attachable_def intro!: list_all_update_where split: option.splits)
  next
    case OpRedeem
    then show ?thesis using assms
      by (auto simp: Pair device_ops locked_out_def intro!: list_all_update_where split: option.splits)
  qed (use assms in \<open>auto simp: Pair device_ops locked_out_def intro!: list_all_update_where list_all_filter
         split: option.splits sum.splits prod.splits if_splits\<close>)
qed

lemma locked_out_run:
  "locked_out d db \<Longrightarrow> list_all (\<lambda>e. new_id (snd e) \<noteq> Some d) evs \<Longrightarrow> locked_out d (run out evs db)"
  by (induction evs arbitrary: db) (auto intro: locked_out_exec)

lemma revoke_locks_out:
  assumes "distinct (map dr_id (ddb_devices db))" and "Revoke_device session d now db = Inr (db', v)"
  shows "locked_out d db'"
proof -
  let ?mine = "\<lambda>r. dr_id r = d \<and> (usr_Admin session \<or> dr_user r = usr_ID session)"
  let ?hit = "\<lambda>r. ?mine r \<and> key_of db (dr_id r) \<noteq> None"
  obtain r where r: "r \<in> set (ddb_devices db)" "?hit r" and
    db': "ddb_devices db' = update_where ?hit (\<lambda>r. r\<lparr>dr_trust := TrustRevoked, dr_revoked_at := Some now\<rparr>) (ddb_devices db)"
    "db_sessions db' = update_where (\<lambda>s. s_device_id s = Some d \<and> s_revoked_at s = None)
       (\<lambda>s. s\<lparr>s_revoked_at := Some now\<rparr>) (db_sessions db)"
    using assms(2) by (auto simp: Revoke_device_def RevokeDevice_def update_device_def Let_def dest!: find_SomeD
        split: if_splits option.splits)
  have "?hit x" if "x \<in> set (ddb_devices db)" "dr_id x = d" for x
    using distinct_keyD [OF assms(1) that(1) r(1)] that(2) r(2) by auto
  then show ?thesis
    unfolding locked_out_def db' by (intro conjI list_all_update_whereI) (simp, blast, simp_all)
qed

lemma authenticated_session:
  assumes "Authenticate svc db t token = Inr s"
  shows "\<exists>r \<in> set (db_sessions db). s_revoked_at r = None \<and> s_device_id r = sess_DeviceID s"
  using assms
  by (auto simp: Authenticate_def SessionByAccessToken_def session_view_def session_open_def
      dest!: find_SomeD split: if_splits option.splits prod.splits)

text \<open>
  Revoking a device is final. Whatever logins, refreshes and device operations follow, as long as
  the database does not generate the identifier of the device anew, no access token authenticates a
  session that acts for the revoked device, and no session can be attached to it again: neither an
  outstanding challenge nor a pairing code brings it back.
\<close>

theorem revocation_final:
  assumes "distinct (map dr_id (ddb_devices db))" and "Revoke_device session d now db = Inr (db', v)"
    and "list_all (\<lambda>e. new_id (snd e) \<noteq> Some d) evs"
  shows "(\<forall>svc t token s. Authenticate svc (auth_part (run out evs db')) t token = Inr s \<longrightarrow> sess_DeviceID s \<noteq> Some d) \<and>
    (\<forall>cr actor challengeID answer t. snd (AttachSession cr actor d challengeID answer t (run out evs db')) \<noteq> Inr ())"
proof -
  have *: "locked_out d (run out evs db')"
    using locked_out_run [OF revoke_locks_out [OF assms(1,2)] assms(3)] .
  moreover have "snd (AttachSession cr actor d challengeID answer t (run out evs db')) \<noteq> Inr ()" for cr actor challengeID answer t
    using locked_outD [OF *]
    by (auto simp: AttachSession_def RedeemDeviceSessionChallenge_def attachable_def split: option.splits)
  ultimately show ?thesis
    by (auto simp: locked_out_def list_all_iff auth_part_def dest!: authenticated_session)
qed

end
