(* ===== verification/Challenges.thy ===== *)
theory Challenges
  imports DeviceHistory
begin

text \<open>
  Challenges that admit a bounded number of wrong answers and are redeemed once: the contract
  (locale \<open>bounded_attempts\<close>), its interpretations on the challenges of sessions and on pairing
  codes over the histories of \<open>DeviceHistory\<close>, the properties that rest on them, and that the
  owner of the right key can attach a session.
\<close>

section \<open>Challenges with a bounded number of attempts\<close>

text \<open>
  The contract of both kinds of challenge, over any state with operations. \<open>wrong\<close> tells that an
  operation answers the challenge, addressed as it must be, with something else than what it asks
  for, and \<open>accepted\<close> that it redeems it; \<open>admissible\<close> operations do not create it anew. The number
  of wrong answers that come before an accepted one is below the limit, and nothing is accepted
  after it.
\<close>

locale bounded_attempts =
  fixes lookup :: "'s \<Rightarrow> ChallengeRow option" and exec_op :: "time \<times> 'op \<Rightarrow> 's \<Rightarrow> 's"
    and accepted wrong :: "time \<times> 'op \<Rightarrow> 's \<Rightarrow> bool" and admissible :: "time \<times> 'op \<Rightarrow> bool"
    and presented :: "time \<times> 'op \<Rightarrow> string" and ok :: "'s \<Rightarrow> bool" and limit :: int
  assumes ok_exec: "ok s \<Longrightarrow> ok (exec_op e s)"
    and accepted_redeems: "ok s \<Longrightarrow> accepted e s \<Longrightarrow>
      \<exists>c. lookup s = Some c \<and> ch_used_at c = None \<and> fst e < ch_expires_at c \<and> ch_attempts c < limit \<and>
        ch_hash c = presented e \<and> \<not> wrong e s \<and> lookup (exec_op e s) = Some (c\<lparr>ch_used_at := Some (fst e)\<rparr>)"
    and wrong_counts: "ok s \<Longrightarrow> wrong e s \<Longrightarrow> lookup s = Some c \<Longrightarrow> ch_used_at c = None \<Longrightarrow> fst e < ch_expires_at c \<Longrightarrow>
      ch_attempts c < limit \<Longrightarrow> lookup (exec_op e s) = Some (c\<lparr>ch_attempts := ch_attempts c + 1\<rparr>)"
    and refused_keeps: "ok s \<Longrightarrow> \<not> accepted e s \<Longrightarrow> lookup s = Some c \<Longrightarrow>
      \<not> wrong e s \<or> ch_used_at c \<noteq> None \<or> \<not> fst e < ch_expires_at c \<or> limit \<le> ch_attempts c \<Longrightarrow>
      lookup (exec_op e s) \<in> {None, Some c}"
    and gone_stays: "ok s \<Longrightarrow> lookup s = None \<Longrightarrow> admissible e \<Longrightarrow> lookup (exec_op e s) = None"
begin

primrec wrongs :: "(time \<times> 'op) list \<Rightarrow> 's \<Rightarrow> nat" where
  "wrongs [] s = 0"
| "wrongs (e # es) s = (if wrong e s then 1 else 0) + wrongs es (exec_op e s)"

lemma gone_fold:
  "ok s \<Longrightarrow> lookup s = None \<Longrightarrow> list_all admissible es \<Longrightarrow> lookup (fold exec_op es s) = None \<and> ok (fold exec_op es s)"
  by (induction es arbitrary: s) (auto simp: gone_stays ok_exec)

lemma not_accepted_gone: "ok s \<Longrightarrow> lookup s = None \<Longrightarrow> \<not> accepted e s"
  using accepted_redeems by fastforce

lemma accepted_bound:
  assumes "ok s" and "lookup s = Some c" and "list_all admissible es" and "list_all (\<lambda>e'. fst e' \<le> fst e) es"
    and "accepted e (fold exec_op es s)"
  shows "ch_hash c = presented e \<and> ch_used_at c = None \<and> fst e < ch_expires_at c \<and>
    ch_attempts c + int (wrongs es s) < limit"
  using assms
proof (induction es arbitrary: s c)
  case Nil
  then show ?case using accepted_redeems [of s e] by auto
next
  case (Cons a es)
  have ok': "ok (exec_op a s)" using ok_exec Cons.prems(1) .
  have here: "\<exists>c'. lookup (exec_op a s) = Some c'"
    using gone_fold [OF ok'] not_accepted_gone Cons.prems by (cases "lookup (exec_op a s)") auto
  have later: "ch_hash c' = presented e \<and> ch_used_at c' = None \<and> fst e < ch_expires_at c' \<and>
      ch_attempts c' + int (wrongs es (exec_op a s)) < limit"
    if "lookup (exec_op a s) = Some c'" for c'
    using Cons.IH [OF ok' that] Cons.prems(3-5) by simp
  show ?case
  proof (cases "accepted a s")
    case True
    then show ?thesis using accepted_redeems [OF Cons.prems(1) True] later by auto
  next
    case False
    show ?thesis
    proof (cases "wrong a s \<and> ch_used_at c = None \<and> fst a < ch_expires_at c \<and> ch_attempts c < limit")
      case True
      then show ?thesis using later wrong_counts [of s a c] Cons.prems(1,2) by auto
    next
      case dead: False
      then have same: "lookup (exec_op a s) = Some c"
        using here refused_keeps [OF Cons.prems(1) False Cons.prems(2)] by auto
      then have "\<not> wrong a s" using later [OF same] dead Cons.prems(4) by auto
      then show ?thesis using later [OF same] by simp
    qed
  qed
qed

lemma accepted_once:
  assumes "ok s" and "accepted e s" and "list_all admissible es" and "list_all (\<lambda>e''. fst e'' \<le> fst e') es"
  shows "\<not> accepted e' (fold exec_op es (exec_op e s))"
  using accepted_redeems [OF assms(1,2)] accepted_bound [OF ok_exec [OF assms(1)] _ assms(3,4)] by fastforce

lemma ok_fold: "ok s \<Longrightarrow> ok (fold exec_op es s)"
  by (induction es arbitrary: s) (auto intro: ok_exec)

end

section \<open>Both kinds of challenge\<close>

definition row_of :: "string \<Rightarrow> ChallengeRow list \<Rightarrow> ChallengeRow option" where
  "row_of i rows = find (\<lambda>c. ch_id c = i) rows"

lemma row_of_append: "row_of i (rows @ [c]) = (case row_of i rows of None \<Rightarrow> if ch_id c = i then Some c else None | Some r \<Rightarrow> Some r)"
  by (simp add: row_of_def find_append split: option.split)

lemma row_of_fresh: "i \<notin> ch_id ` set rows \<Longrightarrow> row_of i rows = None"
  by (force simp: row_of_def find_None_iff)

lemma row_of_filter: "distinct (map ch_id rows) \<Longrightarrow> row_of i (filter P rows) \<in> {None, row_of i rows}"
proof (induction rows)
  case (Cons c rows)
  have "row_of i (filter P rows) = None" if "ch_id c = i"
    using Cons.prems that by (intro row_of_fresh) auto
  then show ?case using Cons by (auto simp: row_of_def)
qed simp

lemma row_of_unique:
  assumes "distinct (map ch_id rows)"
  shows "find (\<lambda>c. ch_id c = i \<and> P c) rows = (case row_of i rows of None \<Rightarrow> None | Some c \<Rightarrow> if P c then Some c else None)"
  using assms
proof (induction rows)
  case (Cons c rows)
  have "row_of i rows = None" if "ch_id c = i"
    using Cons.prems that by (intro row_of_fresh) auto
  then show ?case using Cons by (auto simp: row_of_def split: option.splits)
qed (simp add: row_of_def)

lemma row_of_SomeD: "row_of i rows = Some c \<Longrightarrow> c \<in> set rows \<and> ch_id c = i"
  unfolding row_of_def by (drule find_SomeD) simp

lemma count_attempt_row [simp]:
  "row_of i (count_attempt i' rows) = map_option (\<lambda>c. if i = i' then c\<lparr>ch_attempts := ch_attempts c + 1\<rparr> else c) (row_of i rows)"
  by (induction rows) (auto simp: row_of_def count_attempt_def)

lemma mark_used_row [simp]:
  "row_of i (mark_used i' now rows) = map_option (\<lambda>c. if i = i' then c\<lparr>ch_used_at := Some now\<rparr> else c) (row_of i rows)"
  by (induction rows) (auto simp: row_of_def mark_used_def)

lemma count_mark_ids [simp]: "map ch_id (count_attempt i rows) = map ch_id rows" "map ch_id (mark_used i now rows) = map ch_id rows"
  by (simp_all add: count_attempt_def mark_used_def)

lemma distinct_append_fresh:
  "distinct (map ch_id rows) \<Longrightarrow> \<not> list_ex (\<lambda>c. ch_id c = i) rows \<Longrightarrow>
   distinct (map ch_id (rows @ [fresh_challenge i d s h t now]))"
  by (auto simp: fresh_challenge_def list_ex_iff)

lemma challenges_frame:
  assumes "case op of OpDelete s i \<Rightarrow> False | OpChallenge a b s i j \<Rightarrow> False | OpAttach s i j p \<Rightarrow> False | _ \<Rightarrow> True"
  shows "ddb_challenges (exec out (now, op) db) = ddb_challenges db"
proof (cases op)
  case (OpPair random session i newID)
  then show ?thesis using exec_pair [of out now random session i newID db] by (auto simp del: exec.simps)
next
  case (OpRegister session i pem)
  then show ?thesis using exec_register [of out now session i pem db] by (auto simp del: exec.simps)
qed (use assms in \<open>auto simp: device_ops split: option.splits sum.splits prod.splits\<close>)

lemma codes_frame:
  assumes "case op of OpDelete s i \<Rightarrow> False | OpPair r s i j \<Rightarrow> False | OpRedeem s i j p \<Rightarrow> False | _ \<Rightarrow> True"
  shows "ddb_codes (exec out (now, op) db) = ddb_codes db"
proof (cases op)
  case (OpChallenge ephemeral nonce session i newID)
  then show ?thesis using exec_challenge [of out now ephemeral nonce session i newID db] by (auto simp del: exec.simps)
next
  case (OpRegister session i pem)
  then show ?thesis using exec_register [of out now session i pem db] by (auto simp del: exec.simps)
qed (use assms in \<open>auto simp: device_ops split: option.splits sum.splits prod.splits\<close>)

text \<open>The digest an answer presents.\<close>

fun presented :: "Outside \<Rightarrow> time \<times> device_op \<Rightarrow> string" where
  "presented out (now, OpAttach session d i answer) = cr_sha256 (out_crypto out) answer"
| "presented out (now, OpRedeem session d i guess) = cr_sha256 (out_crypto out) guess"
| "presented out _ = ''''"

text \<open>An answer to a challenge of a session by the right device and session, and a wrong one.\<close>

fun attach_accepted :: "Outside \<Rightarrow> string \<Rightarrow> time \<times> device_op \<Rightarrow> device_db \<Rightarrow> bool" where
  "attach_accepted out i (now, OpAttach session d i' answer) db \<longleftrightarrow>
     i' = i \<and> snd (AttachSession (out_crypto out) session d i answer now db) = Inr ()"
| "attach_accepted out i _ db \<longleftrightarrow> False"

fun attach_wrong :: "Outside \<Rightarrow> string \<Rightarrow> time \<times> device_op \<Rightarrow> device_db \<Rightarrow> bool" where
  "attach_wrong out i (now, OpAttach session d i' answer) db \<longleftrightarrow>
     i' = i \<and> d \<noteq> '''' \<and> i \<noteq> '''' \<and> length answer = 32 \<and>
     (case row_of i (ddb_challenges db) of None \<Rightarrow> False
      | Some c \<Rightarrow> ch_device c = d \<and> ch_session c = sess_SessionID session \<and>
          ch_hash c \<noteq> cr_sha256 (out_crypto out) answer)"
| "attach_wrong out i _ db \<longleftrightarrow> False"

lemma challenges_exec:
  assumes "distinct (map ch_id (ddb_challenges db))"
  shows "distinct (map ch_id (ddb_challenges (exec out e db)))"
proof (cases e)
  case (Pair now op)
  show ?thesis
  proof (cases op)
    case (OpChallenge ephemeral nonce session i newID)
    then show ?thesis
      using exec_challenge [of out now ephemeral nonce session i newID db] assms Pair distinct_append_fresh [OF assms]
      by (auto simp del: exec.simps map_append distinct_append)
  next
    case OpDelete
    then show ?thesis using assms Pair by (simp add: device_ops distinct_map_filter)
  next
    case OpAttach
    then show ?thesis using assms Pair by (auto simp: device_ops split: option.splits)
  qed (use assms Pair challenges_frame [of op out now db] in auto)
qed

lemma codes_exec:
  assumes "distinct (map ch_id (ddb_codes db))"
  shows "distinct (map ch_id (ddb_codes (exec out e db)))"
proof (cases e)
  case (Pair now op)
  show ?thesis
  proof (cases op)
    case (OpPair random session i newID)
    then show ?thesis
      using exec_pair [of out now random session i newID db] assms Pair distinct_append_fresh [OF assms]
      by (auto simp del: exec.simps map_append distinct_append)
  next
    case OpDelete
    then show ?thesis using assms Pair by (simp add: device_ops distinct_map_filter)
  next
    case OpRedeem
    then show ?thesis using assms Pair by (auto simp: device_ops split: option.splits)
  qed (use assms Pair codes_frame [of op out now db] in auto)
qed

lemma attach_lookup:
  assumes "distinct (map ch_id (ddb_challenges db))"
  shows "find (\<lambda>c. ch_id c = i \<and> ch_device c = d \<and> ch_session c = s) (ddb_challenges db) =
    (case row_of i (ddb_challenges db) of None \<Rightarrow> None | Some c \<Rightarrow> if ch_device c = d \<and> ch_session c = s then Some c else None)"
  using row_of_unique [OF assms, of i "\<lambda>c. ch_device c = d \<and> ch_session c = s"] by simp

lemma challenge_row_exec:
  assumes "distinct (map ch_id (ddb_challenges db))"
    and "\<And>session d answer. op \<noteq> OpAttach session d i answer" and "new_id op \<noteq> Some i \<or> row_of i (ddb_challenges db) \<noteq> None"
  shows "row_of i (ddb_challenges (exec out (now, op) db)) \<in> {None, row_of i (ddb_challenges db)}"
proof (cases op)
  case (OpChallenge ephemeral nonce session d newID)
  then show ?thesis
    using exec_challenge [of out now ephemeral nonce session d newID db] assms
    by (auto simp: row_of_append fresh_challenge_def simp del: exec.simps split: option.splits)
next
  case (OpDelete session d)
  then show ?thesis using row_of_filter [OF assms(1), of i] by (simp add: device_ops)
next
  case (OpAttach session d i' answer)
  then have "i' \<noteq> i" using assms(2) by blast
  then show ?thesis by (auto simp: OpAttach device_ops option.map_ident split: option.splits)
qed (use challenges_frame [of op out now db] in simp_all)

lemma attach_exec:
  assumes "distinct (map ch_id (ddb_challenges db))" and "e = (now, OpAttach session d i answer)"
  shows "attach_accepted out i e db \<Longrightarrow>
      \<exists>c. row_of i (ddb_challenges db) = Some c \<and> ch_used_at c = None \<and> now < ch_expires_at c \<and>
        ch_attempts c < maximumChallengeAttempts \<and> ch_hash c = presented out e \<and> \<not> attach_wrong out i e db \<and>
        row_of i (ddb_challenges (exec out e db)) = Some (c\<lparr>ch_used_at := Some now\<rparr>)"
    and "attach_wrong out i e db \<Longrightarrow> row_of i (ddb_challenges db) = Some c \<Longrightarrow> ch_used_at c = None \<Longrightarrow>
      now < ch_expires_at c \<Longrightarrow> ch_attempts c < maximumChallengeAttempts \<Longrightarrow>
      row_of i (ddb_challenges (exec out e db)) = Some (c\<lparr>ch_attempts := ch_attempts c + 1\<rparr>)"
    and "\<not> attach_accepted out i e db \<Longrightarrow> row_of i (ddb_challenges db) = Some c \<Longrightarrow>
      \<not> attach_wrong out i e db \<or> ch_used_at c \<noteq> None \<or> \<not> now < ch_expires_at c \<or> maximumChallengeAttempts \<le> ch_attempts c \<Longrightarrow>
      row_of i (ddb_challenges (exec out e db)) = Some c"
    and "row_of i (ddb_challenges db) = None \<Longrightarrow> row_of i (ddb_challenges (exec out e db)) = None"
  using attach_lookup [OF assms(1), of i d "sess_SessionID session"]
  by (auto simp: assms(2) AttachSession_def RedeemDeviceSessionChallenge_def split: if_splits option.splits)

interpretation attach: bounded_attempts "\<lambda>db. row_of i (ddb_challenges db)" "exec out" "attach_accepted out i"
    "attach_wrong out i" "\<lambda>e. new_id (snd e) \<noteq> Some i" "presented out" "\<lambda>db. distinct (map ch_id (ddb_challenges db))"
    maximumChallengeAttempts
  for out i
proof (unfold_locales, goal_cases)
  case (1 s e)
  then show ?case by (rule challenges_exec)
next
  case (2 s e)
  then obtain now session d answer where e: "e = (now, OpAttach session d i answer)"
    by (elim attach_accepted.elims) auto
  show ?case using attach_exec(1) [OF 2(1) e 2(2)] e by simp
next
  case (3 s e c)
  then obtain now session d answer where e: "e = (now, OpAttach session d i answer)"
    by (elim attach_wrong.elims) auto
  show ?case using attach_exec(2) [OF 3(1) e 3(2) 3(3)] 3 e by simp
next
  case (4 s e c)
  show ?case
  proof (cases "\<exists>session d answer. snd e = OpAttach session d i answer")
    case True
    then obtain now session d answer where e: "e = (now, OpAttach session d i answer)" by (cases e) auto
    show ?thesis using attach_exec(3) [OF 4(1) e 4(2) 4(3)] 4(4) e by simp
  next
    case False
    then show ?thesis using challenge_row_exec [OF 4(1), of "snd e" i out "fst e"] 4(3) by auto
  qed
next
  case (5 s e)
  show ?case
  proof (cases "\<exists>session d answer. snd e = OpAttach session d i answer")
    case True
    then obtain now session d answer where e: "e = (now, OpAttach session d i answer)" by (cases e) auto
    show ?thesis using attach_exec(4) [OF 5(1) e 5(2)] .
  next
    case False
    then show ?thesis using challenge_row_exec [OF 5(1), of "snd e" i out "fst e"] 5(2,3) by auto
  qed
qed

text \<open>The same for pairing codes: the actor must be a trusted device of the user of the target.\<close>

fun pairing_accepted :: "Outside \<Rightarrow> string \<Rightarrow> time \<times> device_op \<Rightarrow> device_db \<Rightarrow> bool" where
  "pairing_accepted out i (now, OpRedeem session d i' guess) db \<longleftrightarrow>
     i' = i \<and> (case snd (Redeem_pairing (cr_sha256 (out_crypto out)) session d i guess now db) of Inl e \<Rightarrow> False | Inr v \<Rightarrow> True)"
| "pairing_accepted out i _ db \<longleftrightarrow> False"

definition well_formed_code :: "string \<Rightarrow> bool" where
  "well_formed_code g \<longleftrightarrow> length g = 6 \<and> \<not> list_ex (\<lambda>c. c < CHR ''0'' \<or> CHR ''9'' < c) g"

fun pairing_wrong :: "Outside \<Rightarrow> string \<Rightarrow> time \<times> device_op \<Rightarrow> device_db \<Rightarrow> bool" where
  "pairing_wrong out i (now, OpRedeem session d i' guess) db \<longleftrightarrow>
     i' = i \<and> d \<noteq> '''' \<and> i \<noteq> '''' \<and> well_formed_code guess \<and>
     (case actor_user db session d of None \<Rightarrow> False | Some u \<Rightarrow>
       (case code_and_target db i u of None \<Rightarrow> False
        | Some (c, target) \<Rightarrow> dr_trust target = TrustPending \<and> ch_hash c \<noteq> cr_sha256 (out_crypto out) guess))"
| "pairing_wrong out i _ db \<longleftrightarrow> False"

lemma code_and_target_row:
  assumes "distinct (map ch_id (ddb_codes db))" and "code_and_target db i u = Some (c, target)"
  shows "row_of i (ddb_codes db) = Some c"
proof -
  have c: "c \<in> set (ddb_codes db)" "ch_id c = i"
    using assms(2) by (auto simp: code_and_target_def dest!: find_SomeD)
  then show ?thesis
    unfolding row_of_def by (intro find_unique) (auto intro: distinct_keyD [OF assms(1)])
qed

lemma update_device_codes:
  "update_device P f db = Inr (db', v) \<Longrightarrow> ddb_codes db' = ddb_codes db"
  by (auto simp: update_device_def Let_def split: option.splits)

lemma code_row_exec:
  assumes "distinct (map ch_id (ddb_codes db))"
    and "\<And>session d guess. op \<noteq> OpRedeem session d i guess" and "new_id op \<noteq> Some i \<or> row_of i (ddb_codes db) \<noteq> None"
  shows "row_of i (ddb_codes (exec out (now, op) db)) \<in> {None, row_of i (ddb_codes db)}"
proof (cases op)
  case (OpPair random session d newID)
  then show ?thesis
    using exec_pair [of out now random session d newID db] assms
    by (auto simp: row_of_append fresh_challenge_def simp del: exec.simps split: option.splits)
next
  case (OpDelete session d)
  then show ?thesis using row_of_filter [OF assms(1), of i] by (simp add: device_ops)
next
  case (OpRedeem session d i' guess)
  then have "i' \<noteq> i" using assms(2) by blast
  then show ?thesis
    by (auto simp: OpRedeem Redeem_pairing_def RedeemPairingCode_def option.map_ident
        dest!: update_device_codes split: option.splits sum.splits)
qed (use codes_frame [of op out now db] in simp_all)

lemma pairing_exec:
  assumes "distinct (map ch_id (ddb_codes db))" and "e = (now, OpRedeem session d i guess)"
  shows "pairing_accepted out i e db \<Longrightarrow>
      \<exists>c. row_of i (ddb_codes db) = Some c \<and> ch_used_at c = None \<and> now < ch_expires_at c \<and>
        ch_attempts c < MaximumCodeAttempts \<and> ch_hash c = presented out e \<and> \<not> pairing_wrong out i e db \<and>
        row_of i (ddb_codes (exec out e db)) = Some (c\<lparr>ch_used_at := Some now\<rparr>)"
    and "pairing_wrong out i e db \<Longrightarrow> row_of i (ddb_codes db) = Some c \<Longrightarrow> ch_used_at c = None \<Longrightarrow>
      now < ch_expires_at c \<Longrightarrow> ch_attempts c < MaximumCodeAttempts \<Longrightarrow>
      row_of i (ddb_codes (exec out e db)) = Some (c\<lparr>ch_attempts := ch_attempts c + 1\<rparr>)"
    and "\<not> pairing_accepted out i e db \<Longrightarrow> row_of i (ddb_codes db) = Some c \<Longrightarrow>
      \<not> pairing_wrong out i e db \<or> ch_used_at c \<noteq> None \<or> \<not> now < ch_expires_at c \<or> MaximumCodeAttempts \<le> ch_attempts c \<Longrightarrow>
      row_of i (ddb_codes (exec out e db)) = Some c"
    and "row_of i (ddb_codes db) = None \<Longrightarrow> row_of i (ddb_codes (exec out e db)) = None"
proof -
  let ?sha = "cr_sha256 (out_crypto out)"
  let ?target = "case actor_user db session d of None \<Rightarrow> None | Some u \<Rightarrow> code_and_target db i u"
  let ?form = "d \<noteq> '''' \<and> i \<noteq> '''' \<and> well_formed_code guess"
  let ?outcome = "\<lambda>c (target :: DevRow). row_of i (ddb_codes db) = Some c \<and>
      (let live = (ch_used_at c = None \<and> dr_trust target = TrustPending \<and> now < ch_expires_at c \<and>
             ch_attempts c < MaximumCodeAttempts)
       in pairing_wrong out i e db = (dr_trust target = TrustPending \<and> ch_hash c \<noteq> ?sha guess) \<and>
          (pairing_accepted out i e db \<longrightarrow> live \<and> ch_hash c = ?sha guess) \<and>
          row_of i (ddb_codes (exec out e db)) =
            (if pairing_accepted out i e db then Some (c\<lparr>ch_used_at := Some now\<rparr>)
             else if live \<and> ch_hash c \<noteq> ?sha guess then Some (c\<lparr>ch_attempts := ch_attempts c + 1\<rparr>) else Some c))"
  note defs = assms(2) Redeem_pairing_def RedeemPairingCode_def well_formed_code_def
  have none: "\<not> pairing_accepted out i e db \<and> \<not> pairing_wrong out i e db \<and> exec out e db = db"
    if "\<not> ?form \<or> ?target = None"
    using that by (auto simp: defs split: option.splits)
  have some: "?outcome c target"
    if form: ?form and t: "?target = Some (c, target)" for c target
  proof -
    obtain u where u: "actor_user db session d = Some u" "code_and_target db i u = Some (c, target)"
      using t by (auto split: option.splits)
    note row = code_and_target_row [OF assms(1) u(2)]
    show ?thesis
      using form row by (auto simp: defs u Let_def dest!: update_device_codes split: sum.splits)
  qed
  have all: "\<not> pairing_accepted out i e db \<and> \<not> pairing_wrong out i e db \<and> exec out e db = db \<or>
    (\<exists>c (target :: DevRow). ?outcome c target)"
  proof (cases "\<not> ?form \<or> ?target = None")
    case False
    then obtain c target where "?target = Some (c, target)" by fastforce
    then have "?outcome c target" using False some by blast
    then show ?thesis by blast
  qed (use none in blast)
  show "pairing_accepted out i e db \<Longrightarrow>
      \<exists>c. row_of i (ddb_codes db) = Some c \<and> ch_used_at c = None \<and> now < ch_expires_at c \<and>
        ch_attempts c < MaximumCodeAttempts \<and> ch_hash c = presented out e \<and> \<not> pairing_wrong out i e db \<and>
        row_of i (ddb_codes (exec out e db)) = Some (c\<lparr>ch_used_at := Some now\<rparr>)"
    using all by (auto simp: Let_def assms(2))
  show "pairing_wrong out i e db \<Longrightarrow> row_of i (ddb_codes db) = Some c \<Longrightarrow> ch_used_at c = None \<Longrightarrow>
      now < ch_expires_at c \<Longrightarrow> ch_attempts c < MaximumCodeAttempts \<Longrightarrow>
      row_of i (ddb_codes (exec out e db)) = Some (c\<lparr>ch_attempts := ch_attempts c + 1\<rparr>)"
    using all by (auto simp: Let_def)
  show "\<not> pairing_accepted out i e db \<Longrightarrow> row_of i (ddb_codes db) = Some c \<Longrightarrow>
      \<not> pairing_wrong out i e db \<or> ch_used_at c \<noteq> None \<or> \<not> now < ch_expires_at c \<or> MaximumCodeAttempts \<le> ch_attempts c \<Longrightarrow>
      row_of i (ddb_codes (exec out e db)) = Some c"
    using all by (auto simp: Let_def split: if_splits)
  show "row_of i (ddb_codes db) = None \<Longrightarrow> row_of i (ddb_codes (exec out e db)) = None"
    using all by auto
qed

interpretation pairing_code: bounded_attempts "\<lambda>db. row_of i (ddb_codes db)" "exec out" "pairing_accepted out i"
    "pairing_wrong out i" "\<lambda>e. new_id (snd e) \<noteq> Some i" "presented out" "\<lambda>db. distinct (map ch_id (ddb_codes db))"
    MaximumCodeAttempts
  for out i
proof (unfold_locales, goal_cases)
  case (1 s e)
  then show ?case by (rule codes_exec)
next
  case (2 s e)
  then obtain now session d guess where e: "e = (now, OpRedeem session d i guess)"
    by (elim pairing_accepted.elims) auto
  show ?case using pairing_exec(1) [OF 2(1) e 2(2)] e by simp
next
  case (3 s e c)
  then obtain now session d guess where e: "e = (now, OpRedeem session d i guess)"
    by (elim pairing_wrong.elims) auto
  show ?case using pairing_exec(2) [OF 3(1) e 3(2) 3(3)] 3 e by simp
next
  case (4 s e c)
  show ?case
  proof (cases "\<exists>session d guess. snd e = OpRedeem session d i guess")
    case True
    then obtain now session d guess where e: "e = (now, OpRedeem session d i guess)" by (cases e) auto
    show ?thesis using pairing_exec(3) [OF 4(1) e 4(2) 4(3)] 4(4) e by simp
  next
    case False
    then show ?thesis using code_row_exec [OF 4(1), of "snd e" i out "fst e"] 4(3) by auto
  qed
next
  case (5 s e)
  show ?case
  proof (cases "\<exists>session d guess. snd e = OpRedeem session d i guess")
    case True
    then obtain now session d guess where e: "e = (now, OpRedeem session d i guess)" by (cases e) auto
    show ?thesis using pairing_exec(4) [OF 5(1) e 5(2)] .
  next
    case False
    then show ?thesis using code_row_exec [OF 5(1), of "snd e" i out "fst e"] 5(2,3) by auto
  qed
qed

section \<open>Properties of the challenges\<close>

text \<open>The wrong answers among the operations of a history, judged at the state each of them meets.\<close>

primrec wrong_answers ::
  "(time \<times> device_op \<Rightarrow> device_db \<Rightarrow> bool) \<Rightarrow> Outside \<Rightarrow> (time \<times> device_op) list \<Rightarrow> device_db \<Rightarrow> nat"
where
  "wrong_answers wrong out [] db = 0"
| "wrong_answers wrong out (e # evs) db = (if wrong e db then 1 else 0) + wrong_answers wrong out evs (exec out e db)"

lemma attach_wrongs: "attach.wrongs out i evs db = wrong_answers (attach_wrong out i) out evs db"
  by (induction evs arbitrary: db) simp_all

lemma pairing_wrongs: "pairing_code.wrongs out i evs db = wrong_answers (pairing_wrong out i) out evs db"
  by (induction evs arbitrary: db) simp_all

text \<open>A history in the order of its clock in which the database does not generate an identifier twice.\<close>

definition history :: "string \<Rightarrow> (time \<times> device_op) list \<Rightarrow> bool" where
  "history i evs \<longleftrightarrow> sorted (map fst evs) \<and> list_all (\<lambda>e. new_id (snd e) \<noteq> Some i) evs"

lemma history_split:
  assumes "history i (pre @ e # post @ [e'])"
  shows "list_all (\<lambda>e. new_id (snd e) \<noteq> Some i) pre" "list_all (\<lambda>p. fst p \<le> fst e) pre"
    "list_all (\<lambda>e. new_id (snd e) \<noteq> Some i) post" "list_all (\<lambda>p. fst p \<le> fst e') post"
  using assms by (auto simp: history_def sorted_append list_all_iff)

text \<open>
  A session is attached to a device only with the proof its challenge asks for, before the challenge
  expires, and after fewer than five wrong proofs, whatever logins, device operations, pairings and
  attempts at this or other challenges come before; and a challenge attaches a session at most once.
  So no more than five proofs are ever compared with one challenge.
\<close>

theorem session_challenge_bounded:
  assumes "distinct (map ch_id (ddb_challenges db))" and "row_of i (ddb_challenges db) = Some c"
    and "history i (pre @ (now, OpAttach session d i answer) # post @ [e'])"
    and "snd (AttachSession (out_crypto out) session d i answer now (run out pre db)) = Inr ()"
  shows "cr_sha256 (out_crypto out) answer = ch_hash c \<and> ch_used_at c = None \<and> now < ch_expires_at c \<and>
    ch_attempts c + int (wrong_answers (attach_wrong out i) out pre db) < 5 \<and>
    \<not> attach_accepted out i e' (run out (pre @ (now, OpAttach session d i answer) # post) db)"
proof -
  let ?e = "(now, OpAttach session d i answer)"
  have accepted: "attach_accepted out i ?e (fold (exec out) pre db)" using assms(4) by (simp add: run_def)
  note split = history_split [OF assms(3)]
  have "cr_sha256 (out_crypto out) answer = ch_hash c \<and> ch_used_at c = None \<and> now < ch_expires_at c \<and> ch_attempts c + int (attach.wrongs out i pre db) < maximumChallengeAttempts"
    using attach.accepted_bound [OF assms(1,2) split(1,2) accepted] by simp
  moreover have "\<not> attach_accepted out i e' (fold (exec out) post (exec out ?e (fold (exec out) pre db)))"
    using attach.accepted_once [OF attach.ok_fold [OF assms(1)] accepted split(3,4)] .
  ultimately show ?thesis by (simp add: attach_wrongs maximumChallengeAttempts_def run_def del: exec.simps)
qed

text \<open>The device a code belongs to never changes.\<close>

lemma code_device_exec:
  assumes "distinct (map ch_id (ddb_codes db))" and "row_of i (ddb_codes (exec out e db)) = Some c'"
    and "new_id (snd e) \<noteq> Some i"
  shows "\<exists>c. row_of i (ddb_codes db) = Some c \<and> ch_device c' = ch_device c"
proof -
  obtain now op where e: "e = (now, op)" by (cases e)
  show ?thesis
  proof (cases "\<exists>session d i' guess. op = OpRedeem session d i' guess")
    case True
    then obtain session d i' guess where "op = OpRedeem session d i' guess" by blast
    then show ?thesis
      using assms(2) unfolding e
      by (auto simp: Redeem_pairing_def RedeemPairingCode_def dest!: update_device_codes split: option.splits sum.splits if_splits)
  next
    case False
    then have "row_of i (ddb_codes (exec out (now, op) db)) \<in> {None, row_of i (ddb_codes db)}"
      using assms(3) by (intro code_row_exec [OF assms(1)]) (auto simp: e)
    then have "row_of i (ddb_codes db) = Some c'" using assms(2) by (simp only: e) auto
    then show ?thesis by blast
  qed
qed

lemma code_device_run:
  assumes "distinct (map ch_id (ddb_codes db))" and "row_of i (ddb_codes (run out evs db)) = Some c'"
    and "list_all (\<lambda>e. new_id (snd e) \<noteq> Some i) evs"
  shows "\<exists>c. row_of i (ddb_codes db) = Some c \<and> ch_device c' = ch_device c"
  using assms
proof (induction evs arbitrary: db)
  case (Cons e evs)
  obtain c where c: "row_of i (ddb_codes (exec out e db)) = Some c" "ch_device c' = ch_device c"
    using Cons.IH [of "exec out e db"] Cons.prems codes_exec [of db] by auto
  then show ?case using code_device_exec [OF Cons.prems(1) c(1)] Cons.prems(3) by auto
qed simp

text \<open>What an accepted code does to the table of devices.\<close>

lemma redeemed_device:
  assumes "distinct (map ch_id (ddb_codes db))" and "snd (Redeem_pairing sha session d i guess now db) = Inr dev"
  shows "\<exists>c. row_of i (ddb_codes db) = Some c \<and> dv_ID dev = ch_device c \<and>
    (\<exists>target \<in> set (ddb_devices db). dr_id target = ch_device c \<and> dr_trust target = TrustPending \<and> dr_revoked_at target = None \<and>
       (\<exists>a \<in> set (ddb_devices db). dr_id a = d \<and> trusted a \<and> dr_user a = dr_user target)) \<and>
    ddb_devices (fst (Redeem_pairing sha session d i guess now db)) =
      update_where (\<lambda>r. dr_id r = ch_device c \<and> dr_trust r = TrustPending \<and> dr_revoked_at r = None \<and> key_of db (dr_id r) \<noteq> None)
        (\<lambda>r. r\<lparr>dr_trust := TrustTrusted\<rparr>) (ddb_devices db)"
proof -
  obtain u c target where u: "actor_user db session d = Some u" and t: "code_and_target db i u = Some (c, target)"
    and pending: "dr_trust target = TrustPending"
    and redeem: "Redeem_pairing sha session d i guess now db =
      (case update_device (\<lambda>r. dr_id r = ch_device c \<and> dr_trust r = TrustPending \<and> dr_revoked_at r = None)
          (\<lambda>r. r\<lparr>dr_trust := TrustTrusted\<rparr>) (db\<lparr>ddb_codes := mark_used i now (ddb_codes db)\<rparr>) of
         Inl e \<Rightarrow> (db, Inl (ErrDevice e)) | Inr (db', result) \<Rightarrow> (db', Inr result))"
    using assms(2) by (auto simp: Redeem_pairing_def RedeemPairingCode_def split: if_splits option.splits prod.splits)
  have target: "target \<in> set (ddb_devices db)" "dr_id target = ch_device c" "dr_user target = u" "dr_revoked_at target = None"
    using t by (auto simp: code_and_target_def dest!: find_SomeD)
  obtain a where a: "a \<in> set (ddb_devices db)" "dr_id a = d" "trusted a" "dr_user a = u"
    using u by (auto simp: actor_user_def dest!: find_SomeD split: if_splits)
  have key: "key_of (db\<lparr>ddb_codes := cs\<rparr>) x = key_of db x" for cs x by (simp add: key_of_def)
  have "dv_ID dev = ch_device c \<and> ddb_devices (fst (Redeem_pairing sha session d i guess now db)) =
      update_where (\<lambda>r. dr_id r = ch_device c \<and> dr_trust r = TrustPending \<and> dr_revoked_at r = None \<and> key_of db (dr_id r) \<noteq> None)
        (\<lambda>r. r\<lparr>dr_trust := TrustTrusted\<rparr>) (ddb_devices db)"
    using assms(2) unfolding redeem
    by (auto simp: update_device_def key scanDevice_def Let_def conj_assoc dest!: find_SomeD split: option.splits)
  then show ?thesis using code_and_target_row [OF assms(1) t] target a pending by blast
qed

lemma trust_kept:
  assumes "\<And>r. trusted (f r) \<Longrightarrow> trusted r" and "\<And>r. dr_id (f r) = dr_id r"
    and "r' \<in> set (update_where hit f rows)" and "trusted r'"
  shows "\<exists>r \<in> set rows. dr_id r = dr_id r' \<and> trusted r"
proof -
  consider "r' \<in> set rows" | r where "r \<in> set rows" "r' = f r"
    using assms(3) unfolding set_update_where by blast
  then show ?thesis
  proof cases
    case 1
    then show ?thesis using assms(4) by blast
  next
    case 2
    then show ?thesis using assms(1) [of r] assms(2) [of r] assms(4) by (intro bexI [OF _ 2(1)]) simp
  qed
qed

text \<open>No other operation makes a known device trusted.\<close>

lemma trust_gained:
  assumes "distinct (map ch_id (ddb_codes db))" and "r' \<in> set (ddb_devices (exec out e db))" and "trusted r'"
    and "\<not> (\<exists>r \<in> set (ddb_devices db). dr_id r = dr_id r' \<and> trusted r)" and "\<exists>r \<in> set (ddb_devices db). dr_id r = dr_id r'"
  shows "\<exists>now session d i guess c. e = (now, OpRedeem session d i guess) \<and> pairing_accepted out i e db \<and>
    row_of i (ddb_codes db) = Some c \<and> ch_device c = dr_id r'"
proof -
  obtain now op where e: "e = (now, op)" by (cases e)
  have changed: "r' \<notin> set (ddb_devices db)" using assms(3,4) by blast
  have no_update: False
    if "ddb_devices (exec out e db) = update_where hit f (ddb_devices db)"
      "\<And>r. trusted (f r) \<Longrightarrow> trusted r" "\<And>r. dr_id (f r) = dr_id r" for hit f
    using trust_kept [OF that(2,3) _ assms(3)] assms(2,4) unfolding that(1) by blast
  show ?thesis
  proof (cases op)
    case (OpCreate session name ty key algorithm newID)
    then have False using assms(2,5) changed unfolding e
      by (auto simp: device_ops list_ex_iff split: option.splits sum.splits prod.splits if_splits)
    then show ?thesis ..
  next
    case (OpRename session i name)
    then have "ddb_devices (exec out e db) = ddb_devices db \<or>
        (\<exists>hit. ddb_devices (exec out e db) = update_where hit (\<lambda>r. r\<lparr>dr_name := TrimSpace name\<rparr>) (ddb_devices db)) \<or>
        (\<exists>hit. ddb_devices (exec out e db) = update_where hit (\<lambda>r. r\<lparr>dr_name := name\<rparr>) (ddb_devices db))"
      unfolding e by (auto simp: device_ops split: option.splits sum.splits prod.splits if_splits)
    then have False
    proof (elim disjE exE)
      assume "ddb_devices (exec out e db) = ddb_devices db"
      then show False using assms(2) changed by simp
    qed (erule no_update; simp add: trusted_def)+
    then show ?thesis ..
  next
    case (OpRevoke session i)
    then have "ddb_devices (exec out e db) = ddb_devices db \<or>
        (\<exists>hit. ddb_devices (exec out e db) =
           update_where hit (\<lambda>r. r\<lparr>dr_trust := TrustRevoked, dr_revoked_at := Some now\<rparr>) (ddb_devices db))"
      unfolding e by (auto simp: device_ops split: option.splits sum.splits prod.splits if_splits)
    then have False
    proof (elim disjE exE)
      assume "ddb_devices (exec out e db) = ddb_devices db"
      then show False using assms(2) changed by simp
    qed (erule no_update; simp add: trusted_def)
    then show ?thesis ..
  next
    case (OpDelete session i)
    then have False using assms(2) changed unfolding e
      by (auto simp: device_ops split: option.splits sum.splits prod.splits if_splits)
    then show ?thesis ..
  next
    case (OpRedeem session d i guess)
    then have exec: "exec out e db = fst (Redeem_pairing (cr_sha256 (out_crypto out)) session d i guess now db)" by (simp add: e)
    have "ddb_devices (exec out e db) = ddb_devices db"
      if "snd (Redeem_pairing (cr_sha256 (out_crypto out)) session d i guess now db) = Inl err" for err
      using that unfolding exec
      by (auto simp: Redeem_pairing_def RedeemPairingCode_def split: option.splits sum.splits prod.splits if_splits)
    then obtain dev where dev: "snd (Redeem_pairing (cr_sha256 (out_crypto out)) session d i guess now db) = Inr dev"
      using assms(2) changed by (cases "snd (Redeem_pairing (cr_sha256 (out_crypto out)) session d i guess now db)") auto
    from redeemed_device [OF assms(1) dev] obtain c where c: "row_of i (ddb_codes db) = Some c"
      "ddb_devices (exec out e db) = update_where (\<lambda>r. dr_id r = ch_device c \<and> dr_trust r = TrustPending \<and>
         dr_revoked_at r = None \<and> key_of db (dr_id r) \<noteq> None) (\<lambda>r. r\<lparr>dr_trust := TrustTrusted\<rparr>) (ddb_devices db)"
      unfolding exec by blast
    have "ch_device c = dr_id r'" using assms(2) changed unfolding c(2) set_update_where by auto
    then show ?thesis using c(1) dev OpRedeem e by auto
  next
    case (OpChallenge ephemeral nonce session i newID)
    then show ?thesis
      using assms(2) changed exec_challenge [of out now ephemeral nonce session i newID db] unfolding e
      by (auto simp del: exec.simps)
  next
    case (OpPair random session i newID)
    then show ?thesis
      using assms(2) changed exec_pair [of out now random session i newID db] unfolding e
      by (auto simp del: exec.simps)
  next
    case (OpRegister session i pem)
    then show ?thesis
      using assms(2) changed exec_register [of out now session i pem db] unfolding e
      by (auto simp del: exec.simps)
  qed (use assms(2) changed in \<open>auto simp: e device_ops split: option.splits sum.splits prod.splits if_splits\<close>)
qed

text \<open>
  C18. A pending device becomes trusted only with the pairing code it was given, before the code
  expires, and after fewer than five wrong codes, whatever comes before, from however many trusted
  devices of the user the guesses come; and a code is redeemed at most once. Of the million
  codes no more than five are ever compared. The redemption is asked for by a trusted device of the
  owner of the pending device, and it makes trusted exactly the device that the code was made for,
  which was pending and not revoked: the rows of all other devices are as before. And in the tables that any such history leaves, no
  operation whatever makes a known device trusted, except the accepted redemption of a code made for that
  device.
\<close>

theorem pairing_code_bounded:
  assumes "distinct (map ch_id (ddb_codes db))" and "row_of i (ddb_codes db) = Some c"
    and "history i (pre @ (now, OpRedeem session d i guess) # post @ [e'])"
    and "snd (Redeem_pairing (cr_sha256 (out_crypto out)) session d i guess now (run out pre db)) = Inr dev"
  shows "cr_sha256 (out_crypto out) guess = ch_hash c \<and> ch_used_at c = None \<and> now < ch_expires_at c \<and>
    ch_attempts c + int (wrong_answers (pairing_wrong out i) out pre db) < 5 \<and>
    \<not> pairing_accepted out i e' (run out (pre @ (now, OpRedeem session d i guess) # post) db) \<and>
    dv_ID dev = ch_device c \<and>
    (\<exists>target \<in> set (ddb_devices (run out pre db)). dr_id target = ch_device c \<and> dr_trust target = TrustPending \<and>
       dr_revoked_at target = None \<and>
       (\<exists>a \<in> set (ddb_devices (run out pre db)). dr_id a = d \<and> trusted a \<and> dr_user a = dr_user target)) \<and>
    ddb_devices (run out (pre @ [(now, OpRedeem session d i guess)]) db) =
      update_where (\<lambda>r. dr_id r = ch_device c \<and> dr_trust r = TrustPending \<and> dr_revoked_at r = None \<and>
          key_of (run out pre db) (dr_id r) \<noteq> None)
        (\<lambda>r. r\<lparr>dr_trust := TrustTrusted\<rparr>) (ddb_devices (run out pre db)) \<and>
    (\<forall>e r'. r' \<in> set (ddb_devices (exec out e (run out pre db))) \<and> trusted r' \<and>
       (\<exists>r \<in> set (ddb_devices (run out pre db)). dr_id r = dr_id r') \<and>
       \<not> (\<exists>r \<in> set (ddb_devices (run out pre db)). dr_id r = dr_id r' \<and> trusted r) \<longrightarrow>
       (\<exists>t s actor j g code. e = (t, OpRedeem s actor j g) \<and> pairing_accepted out j e (run out pre db) \<and>
          row_of j (ddb_codes (run out pre db)) = Some code \<and> ch_device code = dr_id r'))"
proof -
  let ?e = "(now, OpRedeem session d i guess)"
  have accepted: "pairing_accepted out i ?e (fold (exec out) pre db)" using assms(4) by (simp add: run_def)
  note split = history_split [OF assms(3)]
  have "cr_sha256 (out_crypto out) guess = ch_hash c \<and> ch_used_at c = None \<and> now < ch_expires_at c \<and>
      ch_attempts c + int (pairing_code.wrongs out i pre db) < MaximumCodeAttempts"
    using pairing_code.accepted_bound [OF assms(1,2) split(1,2) accepted] by simp
  moreover have "\<not> pairing_accepted out i e' (fold (exec out) post (exec out ?e (fold (exec out) pre db)))"
    using pairing_code.accepted_once [OF pairing_code.ok_fold [OF assms(1)] accepted split(3,4)] .
  ultimately have code: "cr_sha256 (out_crypto out) guess = ch_hash c \<and> ch_used_at c = None \<and> now < ch_expires_at c \<and>
    ch_attempts c + int (wrong_answers (pairing_wrong out i) out pre db) < 5 \<and>
    \<not> pairing_accepted out i e' (run out (pre @ (now, OpRedeem session d i guess) # post) db)"
    by (simp add: pairing_wrongs MaximumCodeAttempts_def run_def del: exec.simps)
  have dist: "distinct (map ch_id (ddb_codes (run out pre db)))"
    using pairing_code.ok_fold [OF assms(1), of out pre] by (simp add: run_def)
  note gained = trust_gained [OF dist]
  obtain c' where c': "row_of i (ddb_codes (run out pre db)) = Some c'" "dv_ID dev = ch_device c'"
    "\<exists>target \<in> set (ddb_devices (run out pre db)). dr_id target = ch_device c' \<and> dr_trust target = TrustPending \<and>
       dr_revoked_at target = None \<and>
       (\<exists>a \<in> set (ddb_devices (run out pre db)). dr_id a = d \<and> trusted a \<and> dr_user a = dr_user target)"
    "ddb_devices (fst (Redeem_pairing (cr_sha256 (out_crypto out)) session d i guess now (run out pre db))) =
      update_where (\<lambda>r. dr_id r = ch_device c' \<and> dr_trust r = TrustPending \<and> dr_revoked_at r = None \<and>
          key_of (run out pre db) (dr_id r) \<noteq> None)
        (\<lambda>r. r\<lparr>dr_trust := TrustTrusted\<rparr>) (ddb_devices (run out pre db))"
    using redeemed_device [OF dist assms(4)] by blast
  have same: "ch_device c' = ch_device c"
    using code_device_run [OF assms(1) c'(1) split(1)] assms(2) by simp
  have last: "run out (pre @ [?e]) db = fst (Redeem_pairing (cr_sha256 (out_crypto out)) session d i guess now (run out pre db))"
    by simp
  show ?thesis
    using code c'(2-4) gained unfolding last same by blast
qed

section \<open>Attaching a session\<close>

text \<open>
  A device that holds the private key of its public key can attach a session. From the challenge
  the Node hands out it computes the shared secret and the proof, and within five minutes
  \<open>AttachSession\<close> accepts that proof and binds the session to the device. The hypotheses on the
  primitives are the agreement of X25519 and the length of an HMAC-SHA256.
\<close>

theorem attach_succeeds:
  assumes "CreateSessionChallenge cr (Some ephemeral) (Some n) session d now newID db = Inr (db', challenge)"
    and "key_of db d = Some k" and "dk_public_key k = cr_public cr own" and "newID \<noteq> ''''"
    and agreement: "cr_ecdh cr own (cr_public cr ephemeral) = cr_ecdh cr ephemeral (cr_public cr own)"
    and digest: "\<And>key text. length (cr_hmac cr key text) = 32"
    and "t < now + 5 * minute"
  shows "\<exists>shared db''. cr_ecdh cr own (sc_EphemeralPublicKey challenge) = Some shared \<and>
    AttachSession cr session d (sc_ID challenge) (sessionProof cr shared (sc_SessionID challenge) (sc_Nonce challenge)) t db' =
      (db'', Inr ()) \<and>
    list_ex (\<lambda>s. open_session (sess_SessionID session) s \<and> s_device_id s = Some d) (db_sessions db'')"
proof -
  obtain shared where d: "d \<noteq> ''''" "attachable db session d" "cr_ecdh cr ephemeral (cr_public cr own) = Some shared"
    and fresh: "\<not> list_ex (\<lambda>c. ch_id c = newID) (ddb_challenges db)"
    and db': "db' = db\<lparr>ddb_challenges := ddb_challenges db @ [fresh_challenge newID d (sess_SessionID session)
        (cr_sha256 cr (sessionProof cr shared (sess_SessionID session) n)) (now + sessionChallengeTTL) now]\<rparr>"
    and challenge: "challenge = \<lparr>sc_ID = newID, sc_SessionID = sess_SessionID session,
        sc_EphemeralPublicKey = cr_public cr ephemeral, sc_Nonce = n, sc_ExpiresAt = now + sessionChallengeTTL\<rparr>"
    using assms(1-3)
    by (auto simp: CreateSessionChallenge_def CreateDeviceSessionChallenge_def DevicePublicKeyForSession_def
        split: if_splits option.splits)
  have "find (\<lambda>c. ch_id c = newID \<and> ch_device c = d \<and> ch_session c = sess_SessionID session) (ddb_challenges db) = None"
    using fresh by (auto simp: find_None_iff list_ex_iff)
  then have lookup: "find (\<lambda>c. ch_id c = newID \<and> ch_device c = d \<and> ch_session c = sess_SessionID session)
      (ddb_challenges db') = Some (last (ddb_challenges db'))"
    unfolding db' by (simp add: find_append fresh_challenge_def)
  have attachable: "attachable db' session d" using d(2) by (simp add: attachable_def db')
  then obtain s where s: "s \<in> set (db_sessions db')" "open_session (sess_SessionID session) s"
      "s_user_id s = usr_ID session" "s_device_id s \<in> {None, Some d}"
    by (auto simp: attachable_def list_ex_iff)
  have bound: "list_ex (\<lambda>s. open_session (sess_SessionID session) s \<and> s_device_id s = Some d)
      (update_where (\<lambda>s. open_session (sess_SessionID session) s \<and> s_user_id s = usr_ID session \<and>
         s_device_id s \<in> {None, Some d}) (\<lambda>s. s\<lparr>s_device_id := Some d\<rparr>) (db_sessions db'))"
    unfolding list_ex_iff by (rule bexI [OF _ update_where_mem [OF s(1)]]) (use s in \<open>auto simp: open_session_def\<close>)
  have "AttachSession cr session d newID (sessionProof cr shared (sess_SessionID session) n) t db' =
      (db'\<lparr>db_sessions := update_where (\<lambda>s. open_session (sess_SessionID session) s \<and> s_user_id s = usr_ID session \<and>
          s_device_id s \<in> {None, Some d}) (\<lambda>s. s\<lparr>s_device_id := Some d\<rparr>) (db_sessions db'),
        ddb_challenges := mark_used newID t (ddb_challenges db')\<rparr>, Inr ())"
    using lookup attachable d(1) assms(4,7) digest
    by (simp add: AttachSession_def RedeemDeviceSessionChallenge_def sessionProof_def db' fresh_challenge_def
        sessionChallengeTTL_def maximumChallengeAttempts_def)
  with bound show ?thesis using d(3) by (simp add: agreement challenge)
qed

section \<open>Examples\<close>

definition demo_session :: "string \<Rightarrow> string option \<Rightarrow> Session" where
  "demo_session i d = \<lparr>usr_ID = ''u'', usr_Username = ''u'', usr_Email = ''u'', usr_Admin = False,
     usr_TOTPEnabled = False, sess_SessionID = i, sess_DeviceID = d, sess_AdminVerified = False\<rparr>"

definition demo_session_row :: "string \<Rightarrow> string option \<Rightarrow> SessionRow" where
  "demo_session_row i d = \<lparr>s_id = i, s_user_id = ''u'', s_device_id = d, s_access_token_hash = i,
     s_access_expires_at = 100, s_refresh_token_hash = i, s_expires_at = 100, s_revoked_at = None,
     s_admin_verified_at = None\<rparr>"

definition demo_device :: "string \<Rightarrow> TrustStatus \<Rightarrow> DevRow" where
  "demo_device i trust = \<lparr>dr_id = i, dr_user = ''u'', dr_name = i, dr_type = TypeAndroid, dr_trust = trust,
     dr_revoked_at = None, dr_created_at = 1\<rparr>"

text \<open>A trusted and a pending device of one user; the session \<open>''s''\<close> acts for no device yet.\<close>

definition demo_devices :: device_db where
  "demo_devices = \<lparr>db_users = [],
     db_sessions = [demo_session_row ''s'' None, demo_session_row ''a'' (Some ''d''), demo_session_row ''b'' (Some ''p'')],
     ddb_devices = [demo_device ''d'' TrustTrusted, demo_device ''p'' TrustPending],
     ddb_keys = [\<lparr>dk_device = ''d'', dk_public_key = ''key'', dk_algorithm = ''X25519''\<rparr>,
       \<lparr>dk_device = ''p'', dk_public_key = ''key'', dk_algorithm = ''X25519''\<rparr>],
     ddb_lan = [], ddb_connections = [],
     ddb_challenges = [fresh_challenge ''c'' ''d'' ''s'' (replicate 32 CHR ''x'') 100 1],
     ddb_codes = [fresh_challenge ''c'' ''p'' ''b'' ''123456'' 100 1], ddb_referenced = []\<rparr>"

definition demo_outside :: Outside where
  "demo_outside = \<lparr>out_crypto = \<lparr>cr_sha256 = (\<lambda>t. t), cr_hmac = (\<lambda>key t. replicate 32 CHR ''x''),
       cr_valid_key = (\<lambda>k. True), cr_public = (\<lambda>k. k), cr_ecdh = (\<lambda>a b. Some ''shared'')\<rparr>,
     out_x509 = \<lparr>xp_Decode = (\<lambda>t. None), xp_Encode = (\<lambda>t. t), xp_Parse = (\<lambda>t. None)\<rparr>,
     out_query_escape = (\<lambda>t. t)\<rparr>"

lemmas demo_defs = demo_devices_def demo_outside_def demo_session_def demo_session_row_def demo_device_def
  fresh_challenge_def row_of_def

theorem revocation_final_witness:
  "case Revoke_device (demo_session ''a'' (Some ''d'')) ''d'' 5 demo_devices of
     Inl e \<Rightarrow> False
   | Inr (db, v) \<Rightarrow> snd (AttachSession (out_crypto demo_outside) (demo_session ''s'' None) ''d'' ''c'' (replicate 32 CHR ''x'') 7
        (run demo_outside [(6, OpLogout ''b'')] db)) \<noteq> Inr ()"
proof -
  have "\<exists>db v. Revoke_device (demo_session ''a'' (Some ''d'')) ''d'' 5 demo_devices = Inr (db, v)"
    by (simp add: Revoke_device_def RevokeDevice_def update_device_def key_of_def demo_defs)
  then obtain db v where revoked: "Revoke_device (demo_session ''a'' (Some ''d'')) ''d'' 5 demo_devices = Inr (db, v)" by blast
  have "distinct (map dr_id (ddb_devices demo_devices))" by (simp add: demo_defs)
  then show ?thesis
    using revocation_final [OF _ revoked, of "[(6, OpLogout ''b'')]" demo_outside] revoked
    by (simp del: exec.simps run_simps)
qed

theorem session_challenge_bounded_witness:
  "snd (AttachSession (out_crypto demo_outside) (demo_session ''s'' None) ''d'' ''c'' (replicate 32 CHR ''x'') 7
     (run demo_outside [(6, OpAttach (demo_session ''s'' None) ''d'' ''c'' (replicate 32 CHR ''y''))] demo_devices)) = Inr () \<and>
   \<not> attach_accepted demo_outside ''c'' (9, OpAttach (demo_session ''s'' None) ''d'' ''c'' (replicate 32 CHR ''x''))
     (run demo_outside [(6, OpAttach (demo_session ''s'' None) ''d'' ''c'' (replicate 32 CHR ''y'')),
        (7, OpAttach (demo_session ''s'' None) ''d'' ''c'' (replicate 32 CHR ''x''))] demo_devices)"
proof -
  let ?pre = "[(6, OpAttach (demo_session ''s'' None) ''d'' ''c'' (replicate 32 CHR ''y''))]"
  have accepted: "snd (AttachSession (out_crypto demo_outside) (demo_session ''s'' None) ''d'' ''c'' (replicate 32 CHR ''x'') 7
     (run demo_outside ?pre demo_devices)) = Inr ()"
    by (simp add: AttachSession_def RedeemDeviceSessionChallenge_def demo_defs count_attempt_def
        maximumChallengeAttempts_def attachable_def open_session_def trusted_def)
  have "distinct (map ch_id (ddb_challenges demo_devices))"
    "row_of ''c'' (ddb_challenges demo_devices) = Some (fresh_challenge ''c'' ''d'' ''s'' (replicate 32 CHR ''x'') 100 1)"
    by (simp_all add: demo_defs)
  moreover have "history ''c'' (?pre @ (7, OpAttach (demo_session ''s'' None) ''d'' ''c'' (replicate 32 CHR ''x'')) # [] @
      [(9, OpAttach (demo_session ''s'' None) ''d'' ''c'' (replicate 32 CHR ''x''))])"
    by (simp add: history_def)
  ultimately have "\<not> attach_accepted demo_outside ''c'' (9, OpAttach (demo_session ''s'' None) ''d'' ''c'' (replicate 32 CHR ''x''))
      (run demo_outside (?pre @ (7, OpAttach (demo_session ''s'' None) ''d'' ''c'' (replicate 32 CHR ''x'')) # []) demo_devices)"
    using session_challenge_bounded [OF _ _ _ accepted] by blast
  with accepted show ?thesis by (simp del: exec.simps run_simps attach_accepted.simps)
qed

theorem pairing_code_bounded_witness:
  "\<exists>v. snd (Redeem_pairing (cr_sha256 (out_crypto demo_outside)) (demo_session ''a'' (Some ''d'')) ''d'' ''c'' ''123456'' 7
     (run demo_outside [(6, OpRedeem (demo_session ''a'' (Some ''d'')) ''d'' ''c'' ''123450'')] demo_devices)) = Inr v \<and>
   \<not> pairing_accepted demo_outside ''c'' (9, OpRedeem (demo_session ''a'' (Some ''d'')) ''d'' ''c'' ''123456'')
     (run demo_outside [(6, OpRedeem (demo_session ''a'' (Some ''d'')) ''d'' ''c'' ''123450''),
        (7, OpRedeem (demo_session ''a'' (Some ''d'')) ''d'' ''c'' ''123456'')] demo_devices)"
proof -
  let ?pre = "[(6, OpRedeem (demo_session ''a'' (Some ''d'')) ''d'' ''c'' ''123450'')]"
  have "\<exists>v. snd (Redeem_pairing (cr_sha256 (out_crypto demo_outside)) (demo_session ''a'' (Some ''d'')) ''d'' ''c'' ''123456'' 7
     (run demo_outside ?pre demo_devices)) = Inr v"
    by (simp add: Redeem_pairing_def RedeemPairingCode_def demo_defs count_attempt_def mark_used_def actor_user_def
        code_and_target_def MaximumCodeAttempts_def open_session_def trusted_def update_device_def key_of_def)
  then obtain v where v: "snd (Redeem_pairing (cr_sha256 (out_crypto demo_outside)) (demo_session ''a'' (Some ''d'')) ''d'' ''c'' ''123456'' 7
     (run demo_outside ?pre demo_devices)) = Inr v" by blast
  have "distinct (map ch_id (ddb_codes demo_devices))"
    "row_of ''c'' (ddb_codes demo_devices) = Some (fresh_challenge ''c'' ''p'' ''b'' ''123456'' 100 1)"
    by (simp_all add: demo_defs)
  moreover have "history ''c'' (?pre @ (7, OpRedeem (demo_session ''a'' (Some ''d'')) ''d'' ''c'' ''123456'') # [] @
      [(9, OpRedeem (demo_session ''a'' (Some ''d'')) ''d'' ''c'' ''123456'')])"
    by (simp add: history_def)
  ultimately have "\<not> pairing_accepted demo_outside ''c'' (9, OpRedeem (demo_session ''a'' (Some ''d'')) ''d'' ''c'' ''123456'')
      (run demo_outside (?pre @ (7, OpRedeem (demo_session ''a'' (Some ''d'')) ''d'' ''c'' ''123456'') # []) demo_devices)"
    using pairing_code_bounded [OF _ _ _ v] by blast
  with v show ?thesis by (simp del: exec.simps run_simps)
qed

theorem attach_succeeds_witness:
  "\<exists>db challenge shared db'. CreateSessionChallenge (out_crypto demo_outside) (Some ''e'') (Some ''n'') (demo_session ''s'' None) ''d'' 5 ''new''
       demo_devices = Inr (db, challenge) \<and>
     AttachSession (out_crypto demo_outside) (demo_session ''s'' None) ''d'' (sc_ID challenge)
       (sessionProof (out_crypto demo_outside) shared (sc_SessionID challenge) (sc_Nonce challenge)) 6 db = (db', Inr ())"
proof -
  have "\<exists>db challenge. CreateSessionChallenge (out_crypto demo_outside) (Some ''e'') (Some ''n'') (demo_session ''s'' None) ''d'' 5 ''new''
       demo_devices = Inr (db, challenge)"
    by (simp add: CreateSessionChallenge_def DevicePublicKeyForSession_def CreateDeviceSessionChallenge_def
        key_of_def attachable_def open_session_def trusted_def demo_defs)
  then obtain db challenge where created: "CreateSessionChallenge (out_crypto demo_outside) (Some ''e'') (Some ''n'')
      (demo_session ''s'' None) ''d'' 5 ''new'' demo_devices = Inr (db, challenge)" by blast
  have "key_of demo_devices ''d'' = Some \<lparr>dk_device = ''d'', dk_public_key = ''key'', dk_algorithm = ''X25519''\<rparr>"
    by (simp add: key_of_def demo_defs)
  from attach_succeeds [OF created this, of "''key''" 6] created show ?thesis
    by (auto simp: demo_outside_def)
qed

end
