(* ===== verification/DeviceGroups.thy ===== *)
theory DeviceGroups
  imports Devices TransferStore
begin

text \<open>
  Groups of users and devices: \<open>internal/group/service.go\<close> with its operations in
  \<open>internal/postgres/store.go\<close>, over the tables of the devices and three more. The history at the
  end follows the operations, and the deletion of devices, through those tables.
\<close>

section \<open>Data\<close>

text \<open>\<open>ErrDatabase\<close> stands for the errors of the database that the code passes on as they are.\<close>

datatype group_error = ErrInvalid | ErrNotFound | ErrForbidden | ErrConflict | ErrDatabase

datatype Role = RoleOwner | RoleAdmin | RoleMember | RoleOther string

record Group =
  gro_ID :: string
  gro_Name :: string
  gro_OwnerID :: string
  gro_Role :: Role
  gro_CreatedAt :: time

record Member =
  mem_UserID :: string
  mem_Username :: string
  mem_Role :: Role
  mem_JoinedAt :: time

record GroupDevice =
  gde_ID :: string
  gde_OwnerUserID :: string
  gde_DisplayName :: string
  gde_Type :: DeviceType
  gde_PublicKey :: string
  gde_Algorithm :: string
  gde_LANShortID :: string
  gde_LANFingerprint :: string
  gde_LANCertificate :: string
  gde_AddedAt :: time

record Details =
  det_Group :: Group
  det_Members :: "Member list"
  det_Devices :: "GroupDevice list"

record GroupRow =
  gp_id :: string
  gp_owner :: string
  gp_name :: string
  gp_created_at :: time

record MemberRow =
  mb_group :: string
  mb_user :: string
  mb_role :: Role
  mb_joined_at :: time

record GroupDeviceRow =
  gv_group :: string
  gv_device :: string
  gv_added_at :: time

text \<open>
  \<open>gdb_referenced\<close> lists the groups that rows of \<open>transfer_tasks\<close> refer to, by a foreign key without
  \<open>ON DELETE\<close>.
\<close>

record group_db = device_db +
  gdb_groups :: "GroupRow list"
  gdb_members :: "MemberRow list"
  gdb_devices :: "GroupDeviceRow list"
  gdb_referenced :: "string list"

section \<open>The group store (postgres/store.go)\<close>

definition member_of :: "group_db \<Rightarrow> string \<Rightarrow> string \<Rightarrow> MemberRow option" where
  "member_of db g u = find (\<lambda>m. mb_group m = g \<and> mb_user m = u) (gdb_members db)"

definition role_of :: "group_db \<Rightarrow> string \<Rightarrow> string \<Rightarrow> Role option" where
  "role_of db g u = map_option mb_role (member_of db g u)"

definition group_view :: "GroupRow \<Rightarrow> Role \<Rightarrow> Group" where
  "group_view g r = \<lparr>gro_ID = gp_id g, gro_Name = gp_name g, gro_OwnerID = gp_owner g, gro_Role = r,
     gro_CreatedAt = gp_created_at g\<rparr>"

definition CreateGroup :: "Session \<Rightarrow> string \<Rightarrow> string \<Rightarrow> time \<Rightarrow> group_db \<Rightarrow> group_error + group_db \<times> Details" where
  "CreateGroup session name newID now db =
     (let g = \<lparr>gp_id = newID, gp_owner = usr_ID session, gp_name = name, gp_created_at = now\<rparr>;
          m = \<lparr>mb_group = newID, mb_user = usr_ID session, mb_role = RoleOwner, mb_joined_at = now\<rparr>
      in if list_ex (\<lambda>g. gp_id g = newID) (gdb_groups db) \<or> \<not> list_ex (\<lambda>u. u_id u = usr_ID session) (db_users db)
         then Inl ErrDatabase
         else Inr (db\<lparr>gdb_groups := gdb_groups db @ [g], gdb_members := gdb_members db @ [m]\<rparr>,
           \<lparr>det_Group = group_view g RoleOwner,
            det_Members = [\<lparr>mem_UserID = usr_ID session, mem_Username = usr_Username session, mem_Role = RoleOwner,
              mem_JoinedAt = now\<rparr>],
            det_Devices = []\<rparr>))"

definition ListGroups :: "group_db \<Rightarrow> Session \<Rightarrow> Group list" where
  "ListGroups db session =
     map (\<lambda>(g, m). group_view g (mb_role m))
       (SliceStable (\<lambda>(g, m) (g', m'). gp_created_at g' < gp_created_at g)
         (filter (\<lambda>(g, m). mb_group m = gp_id g \<and> mb_user m = usr_ID session)
           (List.product (gdb_groups db) (gdb_members db))))"

definition member_list :: "group_db \<Rightarrow> string \<Rightarrow> Member list" where
  "member_list db groupID =
     map (\<lambda>(m, u). \<lparr>mem_UserID = mb_user m, mem_Username = u_username u, mem_Role = mb_role m, mem_JoinedAt = mb_joined_at m\<rparr>)
       (SliceStable (\<lambda>(m, u) (m', u'). mb_joined_at m < mb_joined_at m')
         (filter (\<lambda>(m, u). u_id u = mb_user m \<and> mb_group m = groupID) (List.product (gdb_members db) (db_users db))))"

definition group_device_view :: "group_db \<Rightarrow> DevRow \<Rightarrow> DeviceKeyRow \<Rightarrow> time \<Rightarrow> GroupDevice" where
  "group_device_view db d k addedAt =
     (let lan = find (\<lambda>l. ln_device l = dr_id d) (ddb_lan db)
      in \<lparr>gde_ID = dr_id d, gde_OwnerUserID = dr_user d, gde_DisplayName = dr_name d, gde_Type = dr_type d,
          gde_PublicKey = dk_public_key k, gde_Algorithm = dk_algorithm k,
          gde_LANShortID = (case lan of None \<Rightarrow> '''' | Some l \<Rightarrow> ln_short_id l),
          gde_LANFingerprint = (case lan of None \<Rightarrow> '''' | Some l \<Rightarrow> ln_fingerprint l),
          gde_LANCertificate = (case lan of None \<Rightarrow> '''' | Some l \<Rightarrow> ln_certificate l),
          gde_AddedAt = addedAt\<rparr>)"

definition device_list :: "group_db \<Rightarrow> string \<Rightarrow> GroupDevice list" where
  "device_list db groupID =
     map (\<lambda>(v, d, k). group_device_view db d k (gv_added_at v))
       (SliceStable (\<lambda>(v, d, k) (v', d', k'). gv_added_at v < gv_added_at v')
         (filter (\<lambda>(v, d, k). gv_group v = groupID \<and> dr_id d = gv_device v \<and> dk_device k = dr_id d)
           (List.product (gdb_devices db) (List.product (ddb_devices db) (ddb_keys db)))))"

definition GetGroup :: "group_db \<Rightarrow> Session \<Rightarrow> string \<Rightarrow> group_error + Details" where
  "GetGroup db session groupID =
     (case (find (\<lambda>g. gp_id g = groupID) (gdb_groups db), role_of db groupID (usr_ID session)) of
        (Some g, Some r) \<Rightarrow> Inr \<lparr>det_Group = group_view g r, det_Members = member_list db groupID,
          det_Devices = device_list db groupID\<rparr>
      | _ \<Rightarrow> Inl ErrNotFound)"

definition RenameGroup :: "Session \<Rightarrow> string \<Rightarrow> string \<Rightarrow> group_db \<Rightarrow> group_error + group_db \<times> Group" where
  "RenameGroup session groupID name db =
     (let hit = (\<lambda>g. gp_id g = groupID \<and> gp_owner g = usr_ID session)
      in case find hit (gdb_groups db) of
           None \<Rightarrow> Inl ErrForbidden
         | Some g \<Rightarrow> Inr (db\<lparr>gdb_groups := update_where hit (\<lambda>g. g\<lparr>gp_name := name\<rparr>) (gdb_groups db)\<rparr>,
             group_view (g\<lparr>gp_name := name\<rparr>) RoleOwner))"

text \<open>
  The deletion of a group cascades to its members and devices, but a transfer that still refers to
  the group makes the statement fail.
\<close>

definition DeleteGroup :: "Session \<Rightarrow> string \<Rightarrow> group_db \<Rightarrow> group_error + group_db" where
  "DeleteGroup session groupID db =
     (if \<not> list_ex (\<lambda>g. gp_id g = groupID \<and> gp_owner g = usr_ID session) (gdb_groups db) then Inl ErrForbidden
      else if groupID \<in> set (gdb_referenced db) then Inl ErrDatabase
      else Inr (db\<lparr>gdb_groups := filter (\<lambda>g. gp_id g \<noteq> groupID) (gdb_groups db),
        gdb_members := filter (\<lambda>m. mb_group m \<noteq> groupID) (gdb_members db),
        gdb_devices := filter (\<lambda>v. gv_group v \<noteq> groupID) (gdb_devices db)\<rparr>))"

definition AddGroupMember ::
  "Session \<Rightarrow> string \<Rightarrow> string \<Rightarrow> Role \<Rightarrow> time \<Rightarrow> group_db \<Rightarrow> group_error + group_db \<times> Member"
where
  "AddGroupMember session groupID userID role now db =
     (case (find (\<lambda>u. u_id u = userID) (db_users db), role_of db groupID (usr_ID session)) of
        (Some u, Some actor) \<Rightarrow>
          if \<not> (actor = RoleOwner \<or> actor = RoleAdmin \<and> role = RoleMember) then Inl ErrForbidden
          else (case member_of db groupID userID of
             None \<Rightarrow>
               let m = \<lparr>mb_group = groupID, mb_user = userID, mb_role = role, mb_joined_at = now\<rparr>
               in Inr (db\<lparr>gdb_members := gdb_members db @ [m]\<rparr>,
                    \<lparr>mem_UserID = userID, mem_Username = u_username u, mem_Role = role, mem_JoinedAt = now\<rparr>)
           | Some m \<Rightarrow>
               if mb_role m \<noteq> RoleOwner \<and> (mb_role m = RoleMember \<or> actor = RoleOwner)
               then Inr (db\<lparr>gdb_members := update_where (\<lambda>m. mb_group m = groupID \<and> mb_user m = userID)
                        (\<lambda>m. m\<lparr>mb_role := role\<rparr>) (gdb_members db)\<rparr>,
                      \<lparr>mem_UserID = userID, mem_Username = u_username u, mem_Role = role, mem_JoinedAt = mb_joined_at m\<rparr>)
               else Inl ErrForbidden)
      | _ \<Rightarrow> Inl ErrForbidden)"

text \<open>Only the membership goes; the devices the user has in the group stay in \<open>group_devices\<close>.\<close>

definition RemoveGroupMember :: "Session \<Rightarrow> string \<Rightarrow> string \<Rightarrow> group_db \<Rightarrow> group_error + group_db" where
  "RemoveGroupMember session groupID userID db =
     (let actor = role_of db groupID (usr_ID session);
          hit = (\<lambda>m. mb_group m = groupID \<and> mb_user m = userID \<and> mb_role m \<noteq> RoleOwner \<and>
            (actor = Some RoleOwner \<or> actor = Some RoleAdmin \<and> mb_role m = RoleMember))
      in if \<not> list_ex hit (gdb_members db) then Inl ErrForbidden
         else Inr (db\<lparr>gdb_members := filter (\<lambda>m. \<not> hit m) (gdb_members db)\<rparr>))"

text \<open>
  A device without a key is inserted all the same, but its missing columns cannot be read back. The
  row that is returned has no LAN columns.
\<close>

definition AddGroupDevice ::
  "Session \<Rightarrow> string \<Rightarrow> string \<Rightarrow> time \<Rightarrow> group_db \<Rightarrow> group_db \<times> (group_error + GroupDevice)"
where
  "AddGroupDevice session groupID deviceID addedAt db =
     (case (find (\<lambda>d. dr_id d = deviceID \<and> trusted d) (ddb_devices db), role_of db groupID (usr_ID session)) of
        (Some d, Some actor) \<Rightarrow>
          if role_of db groupID (dr_user d) = None \<or> \<not> (actor \<in> {RoleOwner, RoleAdmin} \<or> dr_user d = usr_ID session)
          then (db, Inl ErrForbidden)
          else if list_ex (\<lambda>v. gv_group v = groupID \<and> gv_device v = deviceID) (gdb_devices db) then (db, Inl ErrConflict)
          else (db\<lparr>gdb_devices := gdb_devices db @ [\<lparr>gv_group = groupID, gv_device = deviceID, gv_added_at = addedAt\<rparr>]\<rparr>,
            case key_of db deviceID of
              None \<Rightarrow> Inl ErrDatabase
            | Some k \<Rightarrow> Inr ((group_device_view db d k addedAt)
                \<lparr>gde_LANShortID := '''', gde_LANFingerprint := '''', gde_LANCertificate := ''''\<rparr>))
      | _ \<Rightarrow> (db, Inl ErrForbidden))"

definition RemoveGroupDevice :: "Session \<Rightarrow> string \<Rightarrow> string \<Rightarrow> group_db \<Rightarrow> group_error + group_db" where
  "RemoveGroupDevice session groupID deviceID db =
     (let actor = role_of db groupID (usr_ID session);
          hit = (\<lambda>v. gv_group v = groupID \<and> gv_device v = deviceID \<and>
            list_ex (\<lambda>d. dr_id d = deviceID \<and>
              (actor = Some RoleOwner \<or> actor = Some RoleAdmin \<or> actor \<noteq> None \<and> dr_user d = usr_ID session)) (ddb_devices db))
      in if \<not> list_ex hit (gdb_devices db) then Inl ErrForbidden
         else Inr (db\<lparr>gdb_devices := filter (\<lambda>v. \<not> hit v) (gdb_devices db)\<rparr>))"

section \<open>The group service (group/service.go)\<close>

definition validName :: "string \<Rightarrow> bool" where
  "validName name \<longleftrightarrow> name \<noteq> '''' \<and> length name \<le> 100"

definition Create_group :: "Session \<Rightarrow> string \<Rightarrow> string \<Rightarrow> time \<Rightarrow> group_db \<Rightarrow> group_error + group_db \<times> Details" where
  "Create_group session name newID now db =
     (let name = TrimSpace name in if \<not> validName name then Inl ErrInvalid else CreateGroup session name newID now db)"

definition Get_group :: "group_db \<Rightarrow> Session \<Rightarrow> string \<Rightarrow> group_error + Details" where
  "Get_group db session i = (if i = '''' then Inl ErrInvalid else GetGroup db session i)"

definition Rename_group :: "Session \<Rightarrow> string \<Rightarrow> string \<Rightarrow> group_db \<Rightarrow> group_error + group_db \<times> Group" where
  "Rename_group session i name db =
     (let name = TrimSpace name in if i = '''' \<or> \<not> validName name then Inl ErrInvalid else RenameGroup session i name db)"

definition Delete_group :: "Session \<Rightarrow> string \<Rightarrow> group_db \<Rightarrow> group_error + group_db" where
  "Delete_group session i db = (if i = '''' then Inl ErrInvalid else DeleteGroup session i db)"

definition AddMember ::
  "Session \<Rightarrow> string \<Rightarrow> string \<Rightarrow> Role \<Rightarrow> time \<Rightarrow> group_db \<Rightarrow> group_error + group_db \<times> Member"
where
  "AddMember session groupID userID role now db =
     (if groupID = '''' \<or> userID = '''' \<or> role \<noteq> RoleMember \<and> role \<noteq> RoleAdmin then Inl ErrInvalid
      else AddGroupMember session groupID userID role now db)"

definition RemoveMember :: "Session \<Rightarrow> string \<Rightarrow> string \<Rightarrow> group_db \<Rightarrow> group_error + group_db" where
  "RemoveMember session groupID userID db =
     (if groupID = '''' \<or> userID = '''' then Inl ErrInvalid else RemoveGroupMember session groupID userID db)"

definition AddDevice ::
  "Session \<Rightarrow> string \<Rightarrow> string \<Rightarrow> time \<Rightarrow> group_db \<Rightarrow> group_db \<times> (group_error + GroupDevice)"
where
  "AddDevice session groupID deviceID now db =
     (if groupID = '''' \<or> deviceID = '''' then (db, Inl ErrInvalid) else AddGroupDevice session groupID deviceID now db)"

definition RemoveDevice :: "Session \<Rightarrow> string \<Rightarrow> string \<Rightarrow> group_db \<Rightarrow> group_error + group_db" where
  "RemoveDevice session groupID deviceID db =
     (if groupID = '''' \<or> deviceID = '''' then Inl ErrInvalid else RemoveGroupDevice session groupID deviceID db)"

section \<open>Histories\<close>

datatype group_op =
    OpCreateGroup Session string string
  | OpRenameGroup Session string string
  | OpDeleteGroup Session string
  | OpAddMember Session string string Role
  | OpRemoveMember Session string string
  | OpAddDevice Session string string
  | OpRemoveDevice Session string string

definition keep_on_error :: "'s \<Rightarrow> ('v \<Rightarrow> 's) \<Rightarrow> 'e + 'v \<Rightarrow> 's" where
  "keep_on_error db f r = (case r of Inl e \<Rightarrow> db | Inr v \<Rightarrow> f v)"

fun group_exec :: "time \<times> group_op \<Rightarrow> group_db \<Rightarrow> group_db" where
  "group_exec (now, OpCreateGroup session name i) db = keep_on_error db fst (Create_group session name i now db)"
| "group_exec (now, OpRenameGroup session i name) db = keep_on_error db fst (Rename_group session i name db)"
| "group_exec (now, OpDeleteGroup session i) db = keep_on_error db id (Delete_group session i db)"
| "group_exec (now, OpAddMember session g u r) db = keep_on_error db fst (AddMember session g u r now db)"
| "group_exec (now, OpRemoveMember session g u) db = keep_on_error db id (RemoveMember session g u db)"
| "group_exec (now, OpAddDevice session g d) db = fst (AddDevice session g d now db)"
| "group_exec (now, OpRemoveDevice session g d) db = keep_on_error db id (RemoveDevice session g d db)"

definition group_run :: "(time \<times> group_op) list \<Rightarrow> group_db \<Rightarrow> group_db" where
  "group_run evs = fold group_exec evs"

named_theorems group_ops \<open>unfolding rules of the group operations\<close>

lemmas [group_ops] = keep_on_error_def Let_def Create_group_def CreateGroup_def Rename_group_def RenameGroup_def
  Delete_group_def DeleteGroup_def AddMember_def AddGroupMember_def RemoveMember_def RemoveGroupMember_def
  AddDevice_def AddGroupDevice_def RemoveDevice_def RemoveGroupDevice_def

section \<open>Roles\<close>

text \<open>The keys of the tables, and the owner of every group as its one member with the role \<open>OWNER\<close>.\<close>

definition owner_rows :: "GroupRow list \<Rightarrow> MemberRow \<Rightarrow> bool" where
  "owner_rows gs m \<longleftrightarrow> list_ex (\<lambda>g. gp_id g = mb_group m \<and> (mb_role m = RoleOwner \<longrightarrow> gp_owner g = mb_user m)) gs"

definition groups_ok :: "group_db \<Rightarrow> bool" where
  "groups_ok db \<longleftrightarrow> distinct (map gp_id (gdb_groups db)) \<and> distinct (map (\<lambda>m. (mb_group m, mb_user m)) (gdb_members db)) \<and>
     list_all (owner_rows (gdb_groups db)) (gdb_members db) \<and>
     list_all (\<lambda>g. list_ex (\<lambda>m. mb_group m = gp_id g \<and> mb_user m = gp_owner g \<and> mb_role m = RoleOwner) (gdb_members db))
       (gdb_groups db)"

lemma member_ofD: "member_of db g u = Some m \<Longrightarrow> m \<in> set (gdb_members db) \<and> mb_group m = g \<and> mb_user m = u"
  unfolding member_of_def by (drule find_SomeD) simp

lemma member_of_None: "member_of db g u = None \<longleftrightarrow> (\<forall>m \<in> set (gdb_members db). \<not> (mb_group m = g \<and> mb_user m = u))"
  by (auto simp: member_of_def find_None_iff)

lemma member_of_row:
  assumes "groups_ok db" and "m \<in> set (gdb_members db)"
  shows "member_of db (mb_group m) (mb_user m) = Some m"
proof -
  have "distinct (map (\<lambda>m. (mb_group m, mb_user m)) (gdb_members db))" using assms(1) by (simp add: groups_ok_def)
  then show ?thesis
    unfolding member_of_def by (intro find_unique) (auto simp: assms(2) dest: distinct_keyD [OF _ assms(2)])
qed

lemma group_of_member:
  "groups_ok db \<Longrightarrow> m \<in> set (gdb_members db) \<Longrightarrow> list_ex (\<lambda>g. gp_id g = mb_group m) (gdb_groups db)"
  by (fastforce simp: groups_ok_def owner_rows_def list_all_iff list_ex_iff)

lemma add_member_ok:
  assumes "groups_ok db" and "AddMember session g u r now db = Inr (db', v)"
  shows "groups_ok db'"
proof -
  have r: "r \<noteq> RoleOwner" and actor: "role_of db g (usr_ID session) \<noteq> None"
    using assms(2) by (auto simp: AddMember_def AddGroupMember_def split: if_splits option.splits)
  then have gs: "list_ex (\<lambda>x. gp_id x = g) (gdb_groups db)"
    using group_of_member [OF assms(1)] by (auto simp: role_of_def dest!: member_ofD)
  show ?thesis
  proof (cases "member_of db g u")
    case None
    then have "db' = db\<lparr>gdb_members := gdb_members db @ [\<lparr>mb_group = g, mb_user = u, mb_role = r, mb_joined_at = now\<rparr>]\<rparr>"
      using assms(2) by (auto simp: AddMember_def AddGroupMember_def Let_def split: if_splits option.splits)
    then show ?thesis
      using assms(1) None gs r by (auto simp: groups_ok_def owner_rows_def list_all_iff member_of_None)
  next
    case (Some m)
    let ?hit = "\<lambda>m. mb_group m = g \<and> mb_user m = u"
    have db': "db' = db\<lparr>gdb_members := update_where ?hit (\<lambda>m. m\<lparr>mb_role := r\<rparr>) (gdb_members db)\<rparr>" "mb_role m \<noteq> RoleOwner"
      using assms(2) Some by (auto simp: AddMember_def AddGroupMember_def Let_def split: if_splits option.splits)
    have plain: "mb_role x \<noteq> RoleOwner" if "x \<in> set (gdb_members db)" "?hit x" for x
      using member_of_row [OF assms(1) that(1)] that(2) Some db'(2) by simp
    have "list_all (owner_rows (gdb_groups db)) (update_where ?hit (\<lambda>m. m\<lparr>mb_role := r\<rparr>) (gdb_members db))"
      using assms(1) gs r by (intro list_all_update_where) (auto simp: groups_ok_def owner_rows_def)
    moreover have "list_ex (\<lambda>m. mb_group m = gp_id x \<and> mb_user m = gp_owner x \<and> mb_role m = RoleOwner)
        (update_where ?hit (\<lambda>m. m\<lparr>mb_role := r\<rparr>) (gdb_members db))" if x: "x \<in> set (gdb_groups db)" for x
    proof -
      obtain w where w: "w \<in> set (gdb_members db)" "mb_group w = gp_id x" "mb_user w = gp_owner x" "mb_role w = RoleOwner"
        using assms(1) x by (auto simp: groups_ok_def list_all_iff list_ex_iff)
      then have "w \<in> set (update_where ?hit (\<lambda>m. m\<lparr>mb_role := r\<rparr>) (gdb_members db))"
        using plain by (auto simp: set_update_where)
      with w show ?thesis by (auto simp: list_ex_iff)
    qed
    ultimately show ?thesis
      using assms(1) by (simp add: groups_ok_def db' list_all_iff)
  qed
qed

lemma group_exec_ok:
  assumes "groups_ok db"
  shows "groups_ok (group_exec e db)"
proof (cases e)
  case (Pair now op)
  show ?thesis
  proof (cases op)
    case (OpCreateGroup session name i)
    then show ?thesis using assms
      by (auto simp: Pair group_ops groups_ok_def owner_rows_def list_all_iff list_ex_iff)
  next
    case (OpRenameGroup session i name)
    then show ?thesis using assms
      by (auto simp: Pair group_ops groups_ok_def owner_rows_def list_all_iff list_ex_update_where set_update_where
          split: option.splits)
  next
    case (OpDeleteGroup session i)
    have "list_all (owner_rows (filter (\<lambda>g. gp_id g \<noteq> i) (gdb_groups db))) (filter (\<lambda>m. mb_group m \<noteq> i) (gdb_members db))"
      using assms by (fastforce simp: groups_ok_def owner_rows_def list_all_iff list_ex_iff)
    moreover have "list_all (\<lambda>g. list_ex (\<lambda>m. mb_group m = gp_id g \<and> mb_user m = gp_owner g \<and> mb_role m = RoleOwner)
        (filter (\<lambda>m. mb_group m \<noteq> i) (gdb_members db))) (filter (\<lambda>g. gp_id g \<noteq> i) (gdb_groups db))"
      using assms by (fastforce simp: groups_ok_def list_all_iff list_ex_iff)
    ultimately show ?thesis using assms OpDeleteGroup
      by (simp add: Pair group_ops groups_ok_def distinct_map_filter)
  next
    case (OpAddMember session g u r)
    then show ?thesis using add_member_ok [OF assms, of session g u r now]
      by (auto simp: Pair keep_on_error_def assms split: sum.splits)
  next
    case (OpRemoveMember session g u)
    then show ?thesis using assms
      by (auto simp: Pair group_ops groups_ok_def owner_rows_def list_all_iff list_ex_iff distinct_map_filter)
  next
    case (OpAddDevice session g d)
    then show ?thesis using assms
      by (auto simp: Pair group_ops groups_ok_def split: option.splits)
  next
    case (OpRemoveDevice session g d)
    then show ?thesis using assms
      by (auto simp: Pair group_ops groups_ok_def)
  qed
qed

lemma group_run_ok: "groups_ok db \<Longrightarrow> groups_ok (group_run evs db)"
  unfolding group_run_def by (induction evs arbitrary: db) (simp_all add: group_exec_ok)

lemma role_of_owner:
  assumes "groups_ok db" and "g \<in> set (gdb_groups db)"
  shows "role_of db (gp_id g) u = Some RoleOwner \<longleftrightarrow> u = gp_owner g"
proof
  assume "role_of db (gp_id g) u = Some RoleOwner"
  then obtain m where m: "m \<in> set (gdb_members db)" "mb_group m = gp_id g" "mb_user m = u" "mb_role m = RoleOwner"
    by (auto simp: role_of_def dest!: member_ofD)
  then obtain g' where g': "g' \<in> set (gdb_groups db)" "gp_id g' = gp_id g" "gp_owner g' = u"
    using assms(1) by (fastforce simp: groups_ok_def owner_rows_def list_all_iff list_ex_iff)
  then have "g' = g" using assms by (auto simp: groups_ok_def dest: distinct_keyD)
  with g'(3) show "u = gp_owner g" by simp
next
  assume "u = gp_owner g"
  then obtain m where "m \<in> set (gdb_members db)" "mb_group m = gp_id g" "mb_user m = u" "mb_role m = RoleOwner"
    using assms by (auto simp: groups_ok_def list_all_iff list_ex_iff)
  then show "role_of db (gp_id g) u = Some RoleOwner"
    using member_of_row [OF assms(1)] by (fastforce simp: role_of_def)
qed

text \<open>
  C19. A group always has exactly one owner. In every history of group operations, by whomever, a
  member has the role \<open>OWNER\<close> of a group exactly if it is the owner recorded with the group: the
  owner can be neither removed nor demoted, and nobody else is promoted to it.
\<close>

theorem one_owner:
  assumes "groups_ok db"
  shows "list_all (\<lambda>g. \<forall>u. role_of (group_run evs db) (gp_id g) u = Some RoleOwner \<longleftrightarrow> u = gp_owner g)
    (gdb_groups (group_run evs db))"
  using role_of_owner [OF group_run_ok [OF assms]] by (simp add: list_all_iff)

fun session_of :: "group_op \<Rightarrow> Session" where
  "session_of (OpCreateGroup session name i) = session"
| "session_of (OpRenameGroup session i name) = session"
| "session_of (OpDeleteGroup session i) = session"
| "session_of (OpAddMember session g u r) = session"
| "session_of (OpRemoveMember session g u) = session"
| "session_of (OpAddDevice session g d) = session"
| "session_of (OpRemoveDevice session g d) = session"

definition has_role :: "group_db \<Rightarrow> string \<Rightarrow> string \<Rightarrow> Role \<Rightarrow> bool" where
  "has_role db g u r \<longleftrightarrow> list_ex (\<lambda>m. mb_group m = g \<and> mb_user m = u \<and> mb_role m = r) (gdb_members db)"

lemma role_of_iff: "groups_ok db \<Longrightarrow> role_of db g u = Some r \<longleftrightarrow> has_role db g u r"
  using member_of_row [of db] by (fastforce simp: has_role_def role_of_def list_ex_iff dest!: member_ofD)

lemma role_of_eqI:
  assumes "groups_ok db" and "groups_ok db'" and "\<And>r. has_role db' g u r = has_role db g u r"
  shows "role_of db' g u = role_of db g u"
proof (cases "role_of db g u")
  case None
  then have "role_of db' g u \<noteq> Some r" for r using assms by (metis role_of_iff option.distinct(1))
  with None show ?thesis by (cases "role_of db' g u") auto
next
  case (Some r)
  then show ?thesis using assms by (metis role_of_iff)
qed

lemma add_member_facts:
  assumes "groups_ok db" and "AddMember session g w r now db = Inr (db', x)"
  shows "(role_of db g (usr_ID session) = Some RoleOwner \<or>
      role_of db g (usr_ID session) = Some RoleAdmin \<and> r = RoleMember \<and> role_of db g w \<in> {None, Some RoleMember}) \<and>
    (\<forall>g' u r'. has_role db' g' u r' = (if g' = g \<and> u = w then r' = r else has_role db g' u r'))"
proof (cases "member_of db g w")
  case None
  then have db': "db' = db\<lparr>gdb_members := gdb_members db @ [\<lparr>mb_group = g, mb_user = w, mb_role = r, mb_joined_at = now\<rparr>]\<rparr>"
      "role_of db g (usr_ID session) = Some RoleOwner \<or> role_of db g (usr_ID session) = Some RoleAdmin \<and> r = RoleMember"
    using assms(2) by (auto simp: AddMember_def AddGroupMember_def Let_def split: if_splits option.splits)
  have "\<not> has_role db g w r'" for r'
    using None by (auto simp: has_role_def list_ex_iff member_of_None)
  then show ?thesis using None db'(2) by (auto simp: db'(1) has_role_def role_of_def)
next
  case (Some m)
  let ?hit = "\<lambda>m. mb_group m = g \<and> mb_user m = w"
  have db': "db' = db\<lparr>gdb_members := update_where ?hit (\<lambda>m. m\<lparr>mb_role := r\<rparr>) (gdb_members db)\<rparr>"
      "role_of db g (usr_ID session) = Some RoleOwner \<or>
        role_of db g (usr_ID session) = Some RoleAdmin \<and> r = RoleMember \<and> mb_role m = RoleMember"
    using assms(2) Some by (auto simp: AddMember_def AddGroupMember_def Let_def split: if_splits option.splits)
  have "has_role db' g' u r' = (if g' = g \<and> u = w then r' = r else has_role db g' u r')" for g' u r'
  proof (cases "g' = g \<and> u = w")
    case True
    have "m \<in> set (gdb_members db)" "?hit m" using member_ofD [OF Some] by auto
    then have m: "m\<lparr>mb_role := r\<rparr> \<in> set (gdb_members db')" "?hit (m\<lparr>mb_role := r\<rparr>)"
      using update_where_mem [of m "gdb_members db" ?hit "\<lambda>m. m\<lparr>mb_role := r\<rparr>"] by (simp_all add: db'(1))
    have "\<exists>x \<in> set (gdb_members db'). ?hit x \<and> mb_role x = r"
      by (rule bexI [OF _ m(1)]) (use m(2) in simp)
    moreover have "list_all (\<lambda>x. ?hit x \<longrightarrow> mb_role x = r) (update_where ?hit (\<lambda>m. m\<lparr>mb_role := r\<rparr>) (gdb_members db))"
      by (rule list_all_update_whereI) auto
    then have "mb_role x = r" if "x \<in> set (gdb_members db')" "?hit x" for x
      using that by (simp add: db'(1) list_all_iff)
    ultimately show ?thesis using True by (auto simp: has_role_def list_ex_iff)
  next
    case False
    then have "has_role db' g' u r' = has_role db g' u r'"
      by (auto simp: db'(1) has_role_def intro!: list_ex_update_where)
    with False show ?thesis by auto
  qed
  then show ?thesis using db'(2) Some by (auto simp: role_of_def)
qed

lemma remove_member_facts:
  assumes "groups_ok db" and "RemoveMember session g w db = Inr db'"
  shows "(role_of db g (usr_ID session) = Some RoleOwner \<or>
      role_of db g (usr_ID session) = Some RoleAdmin \<and> role_of db g w = Some RoleMember) \<and>
    (\<forall>g' u r'. has_role db' g' u r' = (\<not> (g' = g \<and> u = w) \<and> has_role db g' u r'))"
proof -
  let ?actor = "role_of db g (usr_ID session)"
  let ?hit = "\<lambda>m. mb_group m = g \<and> mb_user m = w \<and> mb_role m \<noteq> RoleOwner \<and>
    (?actor = Some RoleOwner \<or> ?actor = Some RoleAdmin \<and> mb_role m = RoleMember)"
  have "list_ex ?hit (gdb_members db)" and db': "db' = db\<lparr>gdb_members := filter (\<lambda>m. \<not> ?hit m) (gdb_members db)\<rparr>"
    using assms(2) by (auto simp: RemoveMember_def RemoveGroupMember_def Let_def split: if_splits)
  then obtain m where m: "m \<in> set (gdb_members db)" "?hit m" by (auto simp: list_ex_iff)
  then have only: "x = m" if "x \<in> set (gdb_members db)" "mb_group x = g" "mb_user x = w" for x
    using that member_of_row [OF assms(1), of m] member_of_row [OF assms(1), of x] by simp
  have "has_role db' g' u r' = (\<not> (g' = g \<and> u = w) \<and> has_role db g' u r')" for g' u r'
    unfolding db' has_role_def using m(2) only by (auto simp: list_ex_iff)
  then show ?thesis using m member_of_row [OF assms(1) m(1)] by (auto simp: role_of_def)
qed

text \<open>
  C20. Who may change a membership. If an operation changes the role of a user in a group, or whether
  it is a member at all, then the user who asks for it is the owner of the group, or an
  administrator of the group that admits or removes a plain member, or the user creates the group.
  Administrators cannot make, demote or remove one another.
\<close>

theorem membership_authorised:
  assumes "groups_ok db" and "role_of (group_exec (now, op) db) g v \<noteq> role_of db g v"
  defines "u \<equiv> usr_ID (session_of op)"
  shows "role_of db g u = Some RoleOwner \<or>
    role_of db g u = Some RoleAdmin \<and> role_of db g v \<in> {None, Some RoleMember} \<and>
      role_of (group_exec (now, op) db) g v \<in> {None, Some RoleMember} \<or>
    (\<exists>session name. op = OpCreateGroup session name g) \<and> v = u"
proof -
  note ok' = group_exec_ok [OF assms(1), of "(now, op)"]
  have differ: False if "\<And>r. has_role (group_exec (now, op) db) g v r = has_role db g v r"
    using role_of_eqI [OF assms(1) ok' that] assms(2) by simp
  show ?thesis
  proof (cases op)
    case (OpCreateGroup session name i)
    then show ?thesis using differ
      by (cases "i = g \<and> v = u") (auto simp: group_ops has_role_def u_def)
  next
    case (OpRenameGroup session i name)
    have False by (rule differ) (simp add: OpRenameGroup group_ops has_role_def split: option.splits)
    then show ?thesis ..
  next
    case (OpDeleteGroup session i)
    show ?thesis
    proof (cases "i = g \<and> list_ex (\<lambda>x. gp_id x = g \<and> gp_owner x = u) (gdb_groups db)")
      case True
      then show ?thesis using role_of_owner [OF assms(1)] by (auto simp: list_ex_iff)
    next
      case False
      have False
        by (rule differ) (use False in \<open>auto simp: OpDeleteGroup group_ops has_role_def u_def list_ex_iff split: if_splits\<close>)
      then show ?thesis ..
    qed
  next
    case (OpAddMember session i w r)
    show ?thesis
    proof (cases "AddMember session i w r now db")
      case (Inl e)
      then show ?thesis using differ by (simp add: OpAddMember keep_on_error_def)
    next
      case (Inr p)
      then obtain db' x where p: "AddMember session i w r now db = Inr (db', x)" by (cases p) simp
      note facts = add_member_facts [OF assms(1) p]
      have db': "group_exec (now, op) db = db'" by (simp add: OpAddMember keep_on_error_def p)
      then have same: "i = g \<and> w = v"
        using differ facts by (cases "i = g \<and> w = v") auto
      have "role_of db' g v = Some r" using facts role_of_iff [OF ok'] same unfolding db' by simp
      then show ?thesis using facts same unfolding db' u_def by (auto simp: OpAddMember)
    qed
  next
    case (OpRemoveMember session i w)
    show ?thesis
    proof (cases "RemoveMember session i w db")
      case (Inl e)
      then show ?thesis using differ by (simp add: OpRemoveMember keep_on_error_def)
    next
      case (Inr db')
      note facts = remove_member_facts [OF assms(1) Inr]
      have db': "group_exec (now, op) db = db'" by (simp add: OpRemoveMember keep_on_error_def Inr)
      then have same: "i = g \<and> w = v"
        using differ facts by (cases "i = g \<and> w = v") auto
      have "role_of db' g v = None" using facts role_of_iff [OF ok'] same unfolding db' by (cases "role_of db' g v") auto
      then show ?thesis using facts same unfolding db' u_def by (auto simp: OpRemoveMember)
    qed
  next
    case (OpAddDevice session i d)
    have False by (rule differ) (simp add: OpAddDevice group_ops has_role_def split: option.splits)
    then show ?thesis ..
  next
    case (OpRemoveDevice session i d)
    have False by (rule differ) (simp add: OpRemoveDevice group_ops has_role_def)
    then show ?thesis ..
  qed
qed

section \<open>Groups and transfers\<close>

text \<open>The tables as the transfer operations see them.\<close>

definition transfer_view :: "group_db \<Rightarrow> transfer_db \<Rightarrow> transfer_db" where
  "transfer_view db base = base\<lparr>
     db_devices := map (\<lambda>d. \<lparr>dev_id = dr_id d, dev_user = dr_user d, dev_trusted = (dr_trust d = TrustTrusted),
       dev_revoked_at = dr_revoked_at d\<rparr>) (ddb_devices db),
     db_group_devices := map (\<lambda>v. (gv_group v, gv_device v)) (gdb_devices db),
     db_group_members := map (\<lambda>m. (mb_group m, mb_user m)) (gdb_members db)\<rparr>"

lemma resolve_group:
  "ResolveTransferTargets (transfer_view db base) session TargetGroupAll g [] =
     Inr (map dr_id (filter (\<lambda>d. trusted d \<and> role_of db g (usr_ID session) \<noteq> None \<and>
       list_ex (\<lambda>v. gv_group v = g \<and> gv_device v = dr_id d) (gdb_devices db)) (ddb_devices db)))"
proof -
  have "(g, usr_ID session) \<in> (\<lambda>m. (mb_group m, mb_user m)) ` set (gdb_members db) \<longleftrightarrow> role_of db g (usr_ID session) \<noteq> None"
    by (auto simp: role_of_def member_of_None)
  moreover have "(g, d) \<in> (\<lambda>v. (gv_group v, gv_device v)) ` set (gdb_devices db) \<longleftrightarrow>
      list_ex (\<lambda>v. gv_group v = g \<and> gv_device v = d) (gdb_devices db)" for d
    by (auto simp: list_ex_iff)
  ultimately show ?thesis
    by (auto simp: ResolveTransferTargets_def transfer_view_def group_device_def trusted_device_def trusted_def
        filter_map comp_def conj_commute intro: arg_cong [where f = "map dr_id"] filter_cong)
qed

text \<open>
  Removing a member from a group does not take its devices out of the group: every trusted device
  the removed user had added stays a target of the transfers that the others send to the whole
  group, and the removed user, no longer a member, cannot take it out.
\<close>

theorem removed_member_keeps_receiving:
  assumes "groups_ok db" and "RemoveMember session g v db = Inr db'"
    and "d \<in> set (ddb_devices db)" and "dr_user d = v" and "trusted d"
    and "list_ex (\<lambda>r. gv_group r = g \<and> gv_device r = dr_id d) (gdb_devices db)"
    and "role_of db g (usr_ID sender) \<noteq> None" and "usr_ID sender \<noteq> v"
    and "usr_ID removed = v"
  shows "role_of db' g v = None \<and>
    (\<exists>targets. ResolveTransferTargets (transfer_view db' base) sender TargetGroupAll g [] = Inr targets \<and> dr_id d \<in> set targets) \<and>
    RemoveGroupDevice removed g (dr_id d) db' = Inl ErrForbidden"
proof -
  note facts = remove_member_facts [OF assms(1,2)]
  have ok': "groups_ok db'"
    using group_exec_ok [OF assms(1), of "(0, OpRemoveMember session g v)"] assms(2) by (simp add: keep_on_error_def)
  have kept: "ddb_devices db' = ddb_devices db" "gdb_devices db' = gdb_devices db"
    using assms(2) by (auto simp: RemoveMember_def RemoveGroupMember_def Let_def split: if_splits)
  have gone: "role_of db' g v = None"
    using facts role_of_iff [OF ok'] by (cases "role_of db' g v") auto
  have "role_of db' g (usr_ID sender) = role_of db g (usr_ID sender)"
    using facts assms(8) by (intro role_of_eqI [OF assms(1) ok']) simp
  moreover have "RemoveGroupDevice removed g (dr_id d) db' = Inl ErrForbidden"
    using gone assms(9) by (auto simp: RemoveGroupDevice_def list_ex_iff)
  ultimately show ?thesis
    using gone assms(3,5-7) by (auto simp: resolve_group kept)
qed

text \<open>The owner of a group to which a transfer was ever sent cannot delete it, unlike an administrator of the Node.\<close>

lemma used_group_stays:
  "i \<in> set (gdb_referenced db) \<Longrightarrow> \<exists>e. Delete_group session i db = Inl e"
  by (simp add: Delete_group_def DeleteGroup_def)

section \<open>Examples\<close>

definition demo_user_session :: "string \<Rightarrow> Session" where
  "demo_user_session u = \<lparr>usr_ID = u, usr_Username = u, usr_Email = u, usr_Admin = False,
     usr_TOTPEnabled = False, sess_SessionID = u, sess_DeviceID = None, sess_AdminVerified = False\<rparr>"

definition demo_group_device :: DevRow where
  "demo_group_device = \<lparr>dr_id = ''d'', dr_user = ''v'', dr_name = ''d'', dr_type = TypeWindows, dr_trust = TrustTrusted,
     dr_revoked_at = None, dr_created_at = 1\<rparr>"

definition demo_group :: group_db where
  "demo_group = \<lparr>db_users = map (\<lambda>u. \<lparr>u_id = u, u_username = u, u_email = u, u_password_hash = '''', u_totp_secret = None,
       u_is_admin = False, u_disabled_at = None\<rparr>) [''o'', ''v'', ''w''],
     db_sessions = [], ddb_devices = [demo_group_device], ddb_keys = [], ddb_lan = [], ddb_connections = [],
     ddb_challenges = [], ddb_codes = [], ddb_referenced = [],
     gdb_groups = [\<lparr>gp_id = ''g'', gp_owner = ''o'', gp_name = ''g'', gp_created_at = 1\<rparr>],
     gdb_members = [\<lparr>mb_group = ''g'', mb_user = ''o'', mb_role = RoleOwner, mb_joined_at = 1\<rparr>,
       \<lparr>mb_group = ''g'', mb_user = ''v'', mb_role = RoleMember, mb_joined_at = 2\<rparr>],
     gdb_devices = [\<lparr>gv_group = ''g'', gv_device = ''d'', gv_added_at = 3\<rparr>], gdb_referenced = []\<rparr>"

definition demo_settings :: Settings where
  "demo_settings = \<lparr>set_single_file_limit = 1, set_default_user_quota = 1, set_default_group_quota = 1,
     set_node_cache_limit = 1, set_default_user_daily = 1, set_default_group_daily = 1, set_warning_percent = 80,
     set_stop_percent = 95\<rparr>"

definition demo_transfers :: transfer_db where
  "demo_transfers = \<lparr>db_tasks = [], db_targets = [], db_executions = [], db_routes = [], db_deliveries = [],
     db_files = [], db_file_targets = [], db_keys = [], db_messages = [], db_hidden = [], db_notices = [],
     db_devices = [], db_group_devices = [], db_group_members = [], db_timeline = [], db_idempotency = [],
     db_settings = demo_settings, db_quotas = [], db_warnings = 0\<rparr>"

lemma demo_group_ok: "groups_ok demo_group"
  by (simp add: groups_ok_def demo_group_def owner_rows_def)

theorem one_owner_witness:
  "list_ex (\<lambda>g. role_of (group_run [(4, OpAddMember (demo_user_session ''o'') ''g'' ''w'' RoleAdmin),
      (5, OpRemoveMember (demo_user_session ''w'') ''g'' ''o'')] demo_group) (gp_id g) ''o'' = Some RoleOwner)
    (gdb_groups (group_run [(4, OpAddMember (demo_user_session ''o'') ''g'' ''w'' RoleAdmin),
      (5, OpRemoveMember (demo_user_session ''w'') ''g'' ''o'')] demo_group))"
proof -
  let ?evs = "[(4, OpAddMember (demo_user_session ''o'') ''g'' ''w'' RoleAdmin),
      (5, OpRemoveMember (demo_user_session ''w'') ''g'' ''o'')]"
  have "gdb_groups (group_run ?evs demo_group) = [\<lparr>gp_id = ''g'', gp_owner = ''o'', gp_name = ''g'', gp_created_at = 1\<rparr>]"
    by (simp add: group_run_def group_ops role_of_def member_of_def demo_group_def demo_user_session_def)
  then show ?thesis using one_owner [OF demo_group_ok, of ?evs] by simp
qed

theorem membership_authorised_witness:
  "role_of demo_group ''g'' ''w'' = None \<and>
   role_of (group_exec (4, OpAddMember (demo_user_session ''o'') ''g'' ''w'' RoleAdmin) demo_group) ''g'' ''w'' = Some RoleAdmin \<and>
   role_of demo_group ''g'' ''o'' = Some RoleOwner"
proof -
  have "role_of demo_group ''g'' ''w'' = None"
    "role_of (group_exec (4, OpAddMember (demo_user_session ''o'') ''g'' ''w'' RoleAdmin) demo_group) ''g'' ''w'' = Some RoleAdmin"
    by (simp_all add: group_ops role_of_def member_of_def demo_group_def demo_user_session_def)
  moreover have "role_of demo_group ''g'' ''o'' = Some RoleOwner"
    using membership_authorised [OF demo_group_ok, of 4 "OpAddMember (demo_user_session ''o'') ''g'' ''w'' RoleAdmin" "''g''" "''w''"]
      calculation by (simp add: demo_user_session_def del: group_exec.simps)
  ultimately show ?thesis by simp
qed

theorem removed_member_keeps_receiving_witness:
  "\<exists>db' targets. RemoveMember (demo_user_session ''o'') ''g'' ''v'' demo_group = Inr db' \<and> role_of db' ''g'' ''v'' = None \<and>
     ResolveTransferTargets (transfer_view db' demo_transfers) (demo_user_session ''o'') TargetGroupAll ''g'' [] = Inr targets \<and>
     ''d'' \<in> set targets"
proof -
  have "\<exists>db'. RemoveMember (demo_user_session ''o'') ''g'' ''v'' demo_group = Inr db'"
    by (simp add: group_ops role_of_def member_of_def demo_group_def demo_user_session_def)
  then obtain db' where db': "RemoveMember (demo_user_session ''o'') ''g'' ''v'' demo_group = Inr db'" by blast
  have "demo_group_device \<in> set (ddb_devices demo_group)" "dr_user demo_group_device = ''v''" "trusted demo_group_device"
    "list_ex (\<lambda>r. gv_group r = ''g'' \<and> gv_device r = dr_id demo_group_device) (gdb_devices demo_group)"
    "role_of demo_group ''g'' (usr_ID (demo_user_session ''o'')) \<noteq> None" "usr_ID (demo_user_session ''o'') \<noteq> ''v''"
    "usr_ID (demo_user_session ''v'') = ''v''"
    by (simp_all add: demo_group_def demo_group_device_def trusted_def role_of_def member_of_def demo_user_session_def)
  from removed_member_keeps_receiving [OF demo_group_ok db' this, of demo_transfers] db' show ?thesis
    by (simp add: demo_group_device_def)
qed

end
