(* ===== verification/Cleaner.thy ===== *)
theory Cleaner
  imports FileHistory
begin

text \<open>
  The removal of expired files: \<open>internal/maintenance/cleaner.go\<close> with \<open>ExpiredFiles\<close> and
  \<open>MarkFileExpired\<close> of \<open>internal/postgres/store.go\<close>, over the tables and the disk of the file
  service. The ticker that starts the passes, the log and the metrics are left out.
\<close>

section \<open>The file store (postgres/store.go)\<close>

record ExpiredFile =
  xf_ID :: string
  xf_TransferID :: string
  xf_StoragePath :: string
  xf_ChunkPaths :: "string list"

text \<open>The target rows of a file that take it from the Node.\<close>

definition node_targets :: "transfer_db \<Rightarrow> FileRow \<Rightarrow> TargetRow list" where
  "node_targets db f = filter (\<lambda>r. tgt_transfer r = file_transfer f \<and>
     list_ex (\<lambda>t. ftr_file t = file_id f \<and> ftr_route t = SelectedRouteNode \<and> ftr_device t = tgt_device r)
       (db_file_targets db)) (db_targets db)"

text \<open>\<open>MAX(target.completed_at) <= $1 - interval '24 hours'\<close>; \<open>MAX\<close> skips NULL and is NULL of no rows.\<close>

definition all_fetched_since :: "transfer_db \<Rightarrow> FileRow \<Rightarrow> time \<Rightarrow> bool" where
  "all_fetched_since db f t \<longleftrightarrow>
     (let completed = List.map_filter tgt_completed_at (node_targets db f)
      in completed \<noteq> [] \<and> list_all (\<lambda>c. c \<le> t) completed)"

definition expired :: "transfer_db \<Rightarrow> time \<Rightarrow> FileRow \<Rightarrow> bool" where
  "expired db now f \<longleftrightarrow> file_status f \<noteq> ''EXPIRED'' \<and>
     (file_expires_at f \<le> now \<or>
      file_status f = ''AVAILABLE_ON_NODE'' \<and> node_target db (file_id f) \<and>
      list_all (\<lambda>r. tgt_status r = TransferDelivered \<or> tgt_status r = TransferRead) (node_targets db f) \<and>
      all_fetched_since db f (now - 24 * hour))"

definition ExpiredFiles :: "file_tables \<Rightarrow> time \<Rightarrow> nat \<Rightarrow> ExpiredFile list" where
  "ExpiredFiles st now limit =
     map (\<lambda>f. \<lparr>xf_ID = file_id f, xf_TransferID = file_transfer f, xf_StoragePath = file_storage_path f,
         xf_ChunkPaths = map cr_StoragePath (filter (\<lambda>c. cr_FileID c = file_id f) (ft_chunks st))\<rparr>)
       (take limit (SliceStable (\<lambda>f g. file_expires_at f < file_expires_at g)
         (filter (expired (ft_db st) now) (db_files (ft_db st)))))"

text \<open>The five updates of \<open>MarkFileExpired\<close>, each over the tables the one before leaves.\<close>

definition expire_file :: "string \<Rightarrow> transfer_db \<Rightarrow> transfer_db" where
  "expire_file fileID db = db\<lparr>
     db_files := update_where (\<lambda>f. file_id f = fileID \<and> file_status f \<noteq> ''EXPIRED'')
       (\<lambda>f. f\<lparr>file_status := ''EXPIRED'', file_storage_path := '''', file_completed_at := None\<rparr>) (db_files db),
     db_file_targets := update_where (\<lambda>r. ftr_file r = fileID) (\<lambda>r. r\<lparr>ftr_status := TransferExpired\<rparr>) (db_file_targets db)\<rparr>"

text \<open>A file of the transfer that is still there for the device.\<close>

definition file_left :: "transfer_db \<Rightarrow> string \<Rightarrow> string \<Rightarrow> bool" where
  "file_left db transferID d \<longleftrightarrow> list_ex (\<lambda>f. file_transfer f = transferID \<and> file_status f \<noteq> ''EXPIRED'' \<and>
     list_ex (\<lambda>t. ftr_file t = file_id f \<and> ftr_device t = d) (db_file_targets db)) (db_files db)"

definition expire_targets :: "string \<Rightarrow> time \<Rightarrow> transfer_db \<Rightarrow> transfer_db" where
  "expire_targets transferID at db = db\<lparr>
     db_targets := update_where (\<lambda>r. tgt_transfer r = transferID \<and> \<not> file_left db transferID (tgt_device r))
       (\<lambda>r. r\<lparr>tgt_status := TransferExpired, tgt_completed_at := Some at\<rparr>) (db_targets db)\<rparr>"

definition expire_task :: "string \<Rightarrow> transfer_db \<Rightarrow> transfer_db" where
  "expire_task transferID db = db\<lparr>
     db_tasks := update_where (\<lambda>t. task_id t = transferID \<and>
         \<not> list_ex (\<lambda>r. tgt_transfer r = transferID \<and> tgt_status r \<noteq> TransferExpired) (db_targets db))
       (\<lambda>t. t\<lparr>task_status := TransferExpired\<rparr>) (db_tasks db)\<rparr>"

definition MarkFileExpired :: "string \<Rightarrow> time \<Rightarrow> file_tables \<Rightarrow> file_error + file_tables" where
  "MarkFileExpired fileID expiredAt st =
     (case find (\<lambda>f. file_id f = fileID \<and> file_status f \<noteq> ''EXPIRED'') (db_files (ft_db st)) of
        None \<Rightarrow> Inl ErrNotFound
      | Some f \<Rightarrow> Inr (st\<lparr>
          ft_db := expire_task (file_transfer f) (expire_targets (file_transfer f) expiredAt (expire_file fileID (ft_db st))),
          ft_chunks := filter (\<lambda>c. cr_FileID c \<noteq> fileID) (ft_chunks st)\<rparr>))"

section \<open>Paths below the root (maintenance/cleaner.go)\<close>

datatype cleaner_error = ErrUnsafePath | ErrRemove | ErrFileStore file_error | ErrWorkingDirectory

text \<open>\<open>filepath.Rel\<close> of two absolute paths, by the segments of the cleaned paths.\<close>

fun strip_common :: "string list \<Rightarrow> string list \<Rightarrow> string list \<times> string list" where
  "strip_common (b # bs) (t # ts) = (if b = t then strip_common bs ts else (b # bs, t # ts))"
| "strip_common bs ts = (bs, ts)"

definition abs_segments :: "string \<Rightarrow> string list" where
  "abs_segments p = filter (\<lambda>w. w \<noteq> '''') (split_on slash (path_Clean p))"

definition filepath_Rel :: "string \<Rightarrow> string \<Rightarrow> string" where
  "filepath_Rel base targ =
     (case strip_common (abs_segments base) (abs_segments targ) of
        ([], []) \<Rightarrow> ''.''
      | (bs, ts) \<Rightarrow> join_with ''/'' (replicate (length bs) ''..'' @ ts))"

definition NewCleaner :: "string option \<Rightarrow> string \<Rightarrow> cleaner_error + string" where
  "NewCleaner cwd root =
     (if root = '''' then Inl ErrUnsafePath
      else if HasPrefix root ''/'' then Inr (path_Clean root)
      else case cwd of None \<Rightarrow> Inl ErrWorkingDirectory | Some d \<Rightarrow> Inr (filepath_Join [d, root]))"

definition safePath :: "string \<Rightarrow> string \<Rightarrow> cleaner_error + string" where
  "safePath root storedPath =
     (let path = path_Clean (if HasPrefix storedPath ''/'' then storedPath else filepath_Join [root, storedPath]);
          relative = filepath_Rel root path
      in if relative = ''..'' \<or> HasPrefix relative ''../'' then Inl ErrUnsafePath else Inr path)"

section \<open>A pass of the cleaner\<close>

text \<open>
  \<open>refuses\<close> tells which paths \<open>os.Remove\<close> fails to remove; a path that does not exist is no error.
  Directories are not modelled, and with them the removal of directories that have become empty.
\<close>

fun remove_paths :: "string \<Rightarrow> (string \<Rightarrow> bool) \<Rightarrow> string list \<Rightarrow> disk \<Rightarrow> disk \<times> cleaner_error option" where
  "remove_paths root refuses [] disk = (disk, None)"
| "remove_paths root refuses (p # ps) disk =
     (if p = '''' then remove_paths root refuses ps disk
      else case safePath root p of
        Inl e \<Rightarrow> (disk, Some e)
      | Inr path \<Rightarrow> if refuses path then (disk, Some ErrRemove)
          else remove_paths root refuses ps (disk(path := None)))"

fun clean_files ::
  "string \<Rightarrow> (string \<Rightarrow> bool) \<Rightarrow> time \<Rightarrow> nat \<Rightarrow> ExpiredFile list \<Rightarrow> file_tables \<times> disk \<Rightarrow>
     (file_tables \<times> disk) \<times> nat \<times> cleaner_error option"
where
  "clean_files root refuses now cleaned [] s = (s, cleaned, None)"
| "clean_files root refuses now cleaned (f # fs) (st, disk) =
     (case remove_paths root refuses (xf_StoragePath f # xf_ChunkPaths f) disk of
        (disk', Some e) \<Rightarrow> ((st, disk'), cleaned, Some e)
      | (disk', None) \<Rightarrow>
          (case MarkFileExpired (xf_ID f) now st of
             Inl e \<Rightarrow> ((st, disk'), cleaned, Some (ErrFileStore e))
           | Inr st' \<Rightarrow> clean_files root refuses now (cleaned + 1) fs (st', disk')))"

definition RunOnce_cleaner ::
  "string \<Rightarrow> (string \<Rightarrow> bool) \<Rightarrow> time \<Rightarrow> int \<Rightarrow> file_tables \<times> disk \<Rightarrow> (file_tables \<times> disk) \<times> nat \<times> cleaner_error option"
where
  "RunOnce_cleaner root refuses now limit s =
     (if limit \<le> 0 then (s, 0, None)
      else clean_files root refuses now 0 (ExpiredFiles (fst s) now (nat limit)) s)"

section \<open>Nothing outside the root is removed\<close>

lemma abs_segments_abs: "list_all plain_segment ws \<Longrightarrow> abs_segments (abs_path ws) = ws"
proof (cases "ws = []")
  case True
  then show ?thesis by (simp add: abs_segments_def path_Clean_def abs_path_def)
next
  case False
  assume ws: "list_all plain_segment ws"
  then have "filter (\<lambda>w. w \<noteq> '''') ws = ws"
    by (auto simp: list_all_iff plain_segment_def filter_id_conv)
  then show ?thesis using split_abs_path [OF ws False] by (simp add: abs_segments_def path_Clean_abs ws)
qed

lemma strip_common_spec:
  "strip_common bs ts = (bs', ts') \<Longrightarrow> \<exists>cs. bs = cs @ bs' \<and> ts = cs @ ts'"
proof (induction bs ts rule: strip_common.induct)
  case (1 b bs t ts)
  then show ?case by (auto split: if_splits)
qed auto

lemma strip_common_same: "strip_common bs (bs @ cs) = ([], cs)"
proof (induction bs)
  case Nil
  then show ?case by (cases cs) simp_all
qed simp

lemma Join_rooted: "HasPrefix (filepath_Join [abs_path ws, p]) ''/''"
  by (cases "p = ''''") (simp_all add: filepath_Join_def abs_path_def path_Clean_def)

lemma safePath_abs:
  assumes "root = abs_path ws" and "list_all plain_segment ws" and "safePath root p = Inr q"
  shows "\<exists>vs. q = abs_path (ws @ vs) \<and> list_all plain_segment vs"
proof -
  let ?p = "if HasPrefix p ''/'' then p else filepath_Join [root, p]"
  have q: "q = path_Clean ?p" and rel: "\<not> (filepath_Rel root q = ''..'' \<or> HasPrefix (filepath_Rel root q) ''../'')"
    using assms(3) by (auto simp: safePath_def Let_def split: if_splits)
  have "HasPrefix ?p ''/''" using Join_rooted [of ws p] by (auto simp: assms(1))
  then obtain us where us: "q = abs_path us" "list_all plain_segment us"
    using path_Clean_rooted q by blast
  obtain bs ts where s: "strip_common ws us = (bs, ts)" by fastforce
  obtain cs where cs: "ws = cs @ bs" "us = cs @ ts" using strip_common_spec [OF s] by blast
  have "bs = []"
  proof (rule ccontr)
    assume "bs \<noteq> []"
    then obtain b bs' where bs: "bs = b # bs'" by (cases bs) auto
    then have "filepath_Rel root q = join_with ''/'' (''..'' # replicate (length bs') ''..'' @ ts)"
      by (simp add: filepath_Rel_def assms(1,2) us abs_segments_abs s)
    then show False using rel by (cases "replicate (length bs') ''..'' @ ts") auto
  qed
  then show ?thesis using cs us assms(2) by (intro exI [of _ ts]) simp
qed

lemma safePath_below:
  assumes "root = abs_path ws" and "list_all plain_segment ws" and "list_all plain_segment vs"
  shows "safePath root (abs_path (ws @ vs)) = Inr (abs_path (ws @ vs))"
proof -
  have plain: "list_all plain_segment (ws @ vs)" using assms(2,3) by simp
  have "filepath_Rel root (abs_path (ws @ vs)) = (if vs = [] then ''.'' else join_with ''/'' vs)"
    using strip_common_same [of ws vs] abs_segments_abs [OF plain] abs_segments_abs [OF assms(2)]
    by (cases vs) (simp_all add: filepath_Rel_def assms(1))
  moreover have "join_with ''/'' vs \<noteq> ''..'' \<and> \<not> HasPrefix (join_with ''/'' vs) ''../''" if nonempty: "vs \<noteq> []"
  proof -
    obtain v vs' where v: "vs = v # vs'" using nonempty by (cases vs) auto
    then have "split_on slash (join_with ''/'' vs) = vs"
      using assms(3) by (intro split_join) (auto simp: list_all_iff plain_segment_def)
    moreover have "split_on slash ''..'' = [''..'']" by simp
    moreover have "split_on slash (''../'' @ x) = ''..'' # split_on slash x" for x
      using split_on_append [of slash "''..''"] by simp
    ultimately show ?thesis using assms(3) v by (auto simp: HasPrefix_iff plain_segment_def)
  qed
  moreover have "HasPrefix (abs_path (ws @ vs)) ''/''" by (simp add: abs_path_def)
  ultimately show ?thesis by (auto simp: safePath_def path_Clean_abs [OF plain])
qed

section \<open>What a pass removes\<close>

definition removable :: "string \<Rightarrow> string \<Rightarrow> bool" where
  "removable root p \<longleftrightarrow> p = '''' \<or> (\<exists>q. safePath root p = Inr q)"

definition without :: "string \<Rightarrow> disk \<Rightarrow> string list \<Rightarrow> disk" where
  "without root disk ps = (\<lambda>q. if \<exists>p \<in> set ps. p \<noteq> '''' \<and> safePath root p = Inr q then None else disk q)"

lemma remove_paths_removable:
  assumes "list_all (removable root) ps" and "\<And>p. \<not> refuses p"
  shows "remove_paths root refuses ps disk = (without root disk ps, None)"
  using assms(1)
proof (induction ps arbitrary: disk)
  case (Cons p ps)
  then show ?case using assms(2) by (auto simp: without_def removable_def fun_eq_iff split: sum.split)
qed (simp add: without_def)

text \<open>The path a row of \<open>files\<close> has until the file is completed, relative to the root.\<close>

definition pending_path :: "string \<Rightarrow> string" where
  "pending_path f = ''pending/'' @ f"

lemma safePath_pending:
  assumes "root = abs_path ws" and "list_all plain_segment ws" and "ws \<noteq> []" and "plain_segment f"
  shows "safePath root (pending_path f) = Inr (abs_path (ws @ [''pending'', f]))"
proof -
  have plain: "list_all plain_segment (ws @ [''pending'', f])" using assms(2,4) by (simp add: plain_segment_def [of "''pending''"])
  have "filepath_Join [root, pending_path f] = filepath_Join [root, ''pending'', f]"
    using assms(4) by (simp add: filepath_Join_def pending_path_def plain_segment_def assms(1) abs_path_def)
  also have "\<dots> = abs_path (ws @ [''pending'', f])"
    unfolding assms(1) by (rule filepath_Join_abs) (use assms(2-4) in \<open>simp_all add: plain_segment_def [of "''pending''"]\<close>)
  finally have "safePath root (pending_path f) = safePath root (abs_path (ws @ [''pending'', f]))"
    by (simp add: safePath_def pending_path_def path_Clean_abs [OF plain]) (simp add: abs_path_def)
  then show ?thesis using safePath_below [OF assms(1,2), of "[''pending'', f]"] plain by simp
qed

text \<open>Where the rows of files say their bytes lie.\<close>

definition files_ok :: "string \<Rightarrow> transfer_db \<Rightarrow> bool" where
  "files_ok root db \<longleftrightarrow> distinct (map file_id (db_files db)) \<and>
     list_all (\<lambda>f. plain_segment (file_id f) \<and> file_storage_path f \<in> {'''', pending_path (file_id f), final_path root (file_id f)}) (db_files db)"

text \<open>An entry of the list agrees with the tables.\<close>

definition lists :: "file_tables \<Rightarrow> ExpiredFile \<Rightarrow> bool" where
  "lists st x \<longleftrightarrow> list_ex (\<lambda>f. file_id f = xf_ID x \<and> file_status f \<noteq> ''EXPIRED'' \<and> file_storage_path f = xf_StoragePath x)
       (db_files (ft_db st)) \<and>
     xf_ChunkPaths x = map cr_StoragePath (filter (\<lambda>c. cr_FileID c = xf_ID x) (ft_chunks st))"

definition expire_row :: "FileRow \<Rightarrow> FileRow" where
  "expire_row f = f\<lparr>file_status := ''EXPIRED'', file_storage_path := '''', file_completed_at := None\<rparr>"

lemma MarkFileExpired_lists:
  assumes "lists st x" and "files_ok root (ft_db st)"
  shows "\<exists>st'. MarkFileExpired (xf_ID x) now st = Inr st' \<and>
    ft_chunks st' = filter (\<lambda>c. cr_FileID c \<noteq> xf_ID x) (ft_chunks st) \<and>
    db_files (ft_db st') = update_where (\<lambda>f. file_id f = xf_ID x) expire_row (db_files (ft_db st))"
proof -
  obtain f where f: "f \<in> set (db_files (ft_db st))" "file_id f = xf_ID x" "file_status f \<noteq> ''EXPIRED''"
    using assms(1) by (auto simp: lists_def list_ex_iff)
  have "distinct (map file_id (db_files (ft_db st)))" using assms(2) by (simp add: files_ok_def)
  then have same: "g = f" if "g \<in> set (db_files (ft_db st))" "file_id g = xf_ID x" for g
    by (rule distinct_keyD [of file_id "db_files (ft_db st)"]) (use that f(1,2) in simp_all)
  have "find (\<lambda>f. file_id f = xf_ID x \<and> file_status f \<noteq> ''EXPIRED'') (db_files (ft_db st)) = Some f"
  proof (rule find_unique [OF f(1)])
    show "file_id f = xf_ID x \<and> file_status f \<noteq> ''EXPIRED''" using f(2,3) by simp
    show "y = f" if "y \<in> set (db_files (ft_db st))" "file_id y = xf_ID x \<and> file_status y \<noteq> ''EXPIRED''" for y
      using same that by blast
  qed
  moreover have "update_where (\<lambda>f. file_id f = xf_ID x \<and> file_status f \<noteq> ''EXPIRED'') expire_row (db_files (ft_db st)) =
      update_where (\<lambda>f. file_id f = xf_ID x) expire_row (db_files (ft_db st))"
    unfolding update_where_def by (rule map_cong [OF refl]) (use same f(3) in fastforce)
  ultimately show ?thesis
    by (simp add: MarkFileExpired_def expire_task_def expire_targets_def expire_file_def expire_row_def [abs_def])
qed

lemma listed_file:
  assumes "files_ok root (ft_db st)" and "lists st x"
  shows "plain_segment (xf_ID x)" and "xf_StoragePath x \<in> {'''', pending_path (xf_ID x), final_path root (xf_ID x)}"
proof -
  obtain f where f: "f \<in> set (db_files (ft_db st))" "file_id f = xf_ID x" "file_storage_path f = xf_StoragePath x"
    using assms(2) by (auto simp: lists_def list_ex_iff)
  then have "plain_segment (file_id f) \<and> file_storage_path f \<in> {'''', pending_path (file_id f), final_path root (file_id f)}"
    using assms(1) unfolding files_ok_def list_all_iff by blast
  then show "plain_segment (xf_ID x)" "xf_StoragePath x \<in> {'''', pending_path (xf_ID x), final_path root (xf_ID x)}"
    by (simp_all add: f(2,3))
qed

text \<open>Where the paths of a file lie: below \<open>files\<close> or \<open>pending\<close>, and below \<open>chunks\<close>.\<close>

lemma storage_path_place:
  assumes "root = abs_path ws" and "list_all plain_segment ws" and "ws \<noteq> []" and "files_ok root (ft_db st)" and "lists st x"
    and "xf_StoragePath x \<noteq> ''''"
  shows "\<exists>w. (w = ''files'' \<or> w = ''pending'') \<and> safePath root (xf_StoragePath x) = Inr (abs_path (ws @ [w, xf_ID x]))"
proof -
  note fl = listed_file [OF assms(4,5)]
  consider "xf_StoragePath x = pending_path (xf_ID x)" | "xf_StoragePath x = final_path root (xf_ID x)"
    using fl(2) assms(6) by blast
  then show ?thesis
  proof cases
    case 1
    then show ?thesis using safePath_pending [OF assms(1-3) fl(1)] by auto
  next
    case 2
    then have "xf_StoragePath x = abs_path (ws @ [''files'', xf_ID x])"
      using final_path_abs [OF assms(2,3) fl(1)] by (simp add: assms(1))
    then show ?thesis using safePath_below [OF assms(1,2), of "[''files'', xf_ID x]"] fl(1)
      by (auto simp: plain_segment_def [of "''files''"])
  qed
qed

lemma chunk_path_place:
  assumes "root = abs_path ws" and "list_all plain_segment ws" and "ws \<noteq> []" and "store_ok sha root (st, disk)" and c: "c \<in> set (ft_chunks st)"
  shows "cr_StoragePath c = abs_path (ws @ [''chunks'', cr_FileID c, chunk_name (cr_Index c) (cr_SHA256 c)])"
    and "list_all plain_segment [''chunks'', cr_FileID c, chunk_name (cr_Index c) (cr_SHA256 c)]"
    and "safePath root (cr_StoragePath c) = Inr (cr_StoragePath c)"
proof -
  show path: "cr_StoragePath c = abs_path (ws @ [''chunks'', cr_FileID c, chunk_name (cr_Index c) (cr_SHA256 c)])"
    using store_ok_path [OF assms(4) c] chunk_file_abs [OF assms(2,3)] by (simp add: assms(1))
  show plain: "list_all plain_segment [''chunks'', cr_FileID c, chunk_name (cr_Index c) (cr_SHA256 c)]"
    using store_ok_path [OF assms(4) c] by (simp add: plain_segment_def [of "''chunks''"])
  show "safePath root (cr_StoragePath c) = Inr (cr_StoragePath c)"
    unfolding path by (rule safePath_below [OF assms(1,2) plain])
qed

lemma chunk_not_storage:
  assumes "root = abs_path ws" and "list_all plain_segment ws" and "ws \<noteq> []" and "store_ok sha root (st, disk)" and "c \<in> set (ft_chunks st)"
    and "w = ''files'' \<or> w = ''pending''" and "plain_segment i"
  shows "cr_StoragePath c \<noteq> abs_path (ws @ [w, i])"
proof
  assume eq: "cr_StoragePath c = abs_path (ws @ [w, i])"
  note place = chunk_path_place [OF assms(1-5)]
  have "ws @ [''chunks'', cr_FileID c, chunk_name (cr_Index c) (cr_SHA256 c)] = ws @ [w, i]"
    using assms(2,6,7) place(1,2) eq by (intro abs_path_inject) (auto simp: plain_segment_def [of "''files''"] plain_segment_def [of "''pending''"])
  then show False by simp
qed

lemma storage_paths_removable:
  assumes "storage_root root" and "store_ok sha root (st, disk)" and "files_ok root (ft_db st)" and "lists st x"
  shows "list_all (removable root) (xf_StoragePath x # xf_ChunkPaths x)"
proof -
  obtain ws where ws: "root = abs_path ws" "list_all plain_segment ws" "ws \<noteq> []"
    using assms(1) by (auto simp: storage_root_def)
  have "removable root (xf_StoragePath x)"
    using storage_path_place [OF ws assms(3,4)] by (auto simp: removable_def)
  moreover have "removable root (cr_StoragePath c)" if "c \<in> set (ft_chunks st)" for c
    using chunk_path_place(3) [OF ws assms(2) that] by (auto simp: removable_def)
  ultimately show ?thesis using assms(4) by (auto simp: lists_def list_all_iff)
qed

lemma find_filter_key:
  "find (\<lambda>c. chunk_key c = k) (filter (\<lambda>c. cr_FileID c \<noteq> f) cs) = (if fst k = f then None else find (\<lambda>c. chunk_key c = k) cs)"
  by (induction cs) (auto simp: chunk_key_def)

text \<open>Removing the bytes of one file and its rows takes that file, and nothing else, out of the store.\<close>

lemma clean_one:
  assumes "store_ok sha root (st, disk)" and "storage_root root" and "files_ok root (ft_db st)" and "lists st x"
    and "MarkFileExpired (xf_ID x) now st = Inr st'"
    and chunks': "ft_chunks st' = filter (\<lambda>c. cr_FileID c \<noteq> xf_ID x) (ft_chunks st)"
  defines "disk' \<equiv> without root disk (xf_StoragePath x # xf_ChunkPaths x)"
  shows "store_ok sha root (st', disk')" and "content (st', disk') = (\<lambda>k. if fst k = xf_ID x then None else content (st, disk) k)"
proof -
  obtain ws where ws: "root = abs_path ws" "list_all plain_segment ws" "ws \<noteq> []"
    using assms(2) by (auto simp: storage_root_def)
  note plain = listed_file(1) [OF assms(3,4)]
  have kept: "disk' (cr_StoragePath c) = disk (cr_StoragePath c)"
    if c: "c \<in> set (ft_chunks st)" "cr_FileID c \<noteq> xf_ID x" for c
  proof -
    have other: "cr_StoragePath c \<noteq> cr_StoragePath c'" if "c' \<in> set (ft_chunks st)" "cr_FileID c' = xf_ID x" for c'
      using chunk_file_inject [OF assms(2), of "cr_FileID c" "cr_FileID c'"] store_ok_path [OF assms(1) c(1)]
        store_ok_path [OF assms(1) that(1)] c(2) that(2) by metis
    have "safePath root p \<noteq> Inr (cr_StoragePath c)" if p: "p \<in> set (xf_ChunkPaths x)" for p
    proof -
      obtain c' where c': "c' \<in> set (ft_chunks st)" "cr_FileID c' = xf_ID x" "p = cr_StoragePath c'"
        using p unfolding conjunct2 [OF assms(4) [unfolded lists_def]] by auto
      then show ?thesis using chunk_path_place(3) [OF ws assms(1) c'(1)] other [OF c'(1,2)] by simp
    qed
    moreover have "safePath root (xf_StoragePath x) \<noteq> Inr (cr_StoragePath c)" if "xf_StoragePath x \<noteq> ''''"
      using storage_path_place [OF ws assms(3,4) that] chunk_not_storage [OF ws assms(1) c(1) _ plain]
      by (metis sum.inject(2))
    ultimately have "\<not> (\<exists>p \<in> set (xf_StoragePath x # xf_ChunkPaths x). p \<noteq> '''' \<and> safePath root p = Inr (cr_StoragePath c))"
      unfolding set_simps by blast
    then show ?thesis unfolding disk'_def without_def by (rule if_not_P)
  qed
  show "store_ok sha root (st', disk')"
    using assms(1) kept by (auto simp: store_ok_def chunks' list_all_iff chunk_ok_def distinct_map_filter)
  show "content (st', disk') = (\<lambda>k. if fst k = xf_ID x then None else content (st, disk) k)"
  proof
    fix k
    have "chunk_at st' k = (if fst k = xf_ID x then None else chunk_at st k)"
      unfolding chunk_at_def chunks' by (rule find_filter_key)
    then show "content (st', disk') k = (if fst k = xf_ID x then None else content (st, disk) k)"
      using kept by (auto simp: content_def chunk_key_def dest!: chunk_at_SomeD split: option.split)
  qed
qed

lemma lists_other:
  assumes "lists st x" and "xf_ID x \<noteq> i" and "ft_chunks st' = filter (\<lambda>c. cr_FileID c \<noteq> i) (ft_chunks st)"
    and "db_files (ft_db st') = update_where (\<lambda>f. file_id f = i) expire_row (db_files (ft_db st))"
  shows "lists st' x"
proof -
  have "filter (\<lambda>c. cr_FileID c = xf_ID x \<and> cr_FileID c \<noteq> i) (ft_chunks st) = filter (\<lambda>c. cr_FileID c = xf_ID x) (ft_chunks st)"
    using assms(2) by (intro filter_cong) auto
  moreover have "list_ex (\<lambda>f. file_id f = xf_ID x \<and> file_status f \<noteq> ''EXPIRED'' \<and> file_storage_path f = xf_StoragePath x)
      (update_where (\<lambda>f. file_id f = i) expire_row (db_files (ft_db st))) =
    list_ex (\<lambda>f. file_id f = xf_ID x \<and> file_status f \<noteq> ''EXPIRED'' \<and> file_storage_path f = xf_StoragePath x) (db_files (ft_db st))"
    using assms(2) by (intro list_ex_update_where) (auto simp: expire_row_def)
  ultimately show ?thesis using assms(1,3,4) by (simp add: lists_def conj_commute)
qed

lemma files_ok_expire:
  "files_ok root db \<Longrightarrow> db_files db' = update_where (\<lambda>f. file_id f = i) expire_row (db_files db) \<Longrightarrow> files_ok root db'"
  by (auto simp: files_ok_def expire_row_def intro!: list_all_update_where)

definition listed_paths :: "ExpiredFile list \<Rightarrow> string list" where
  "listed_paths xs = concat (map (\<lambda>x. xf_StoragePath x # xf_ChunkPaths x) xs)"

lemma without_append: "without root (without root disk ps) qs = without root disk (ps @ qs)"
  unfolding without_def set_append by (rule ext) auto

lemma clean_files_refines:
  assumes "storage_root root" and "\<And>p. \<not> refuses p"
    and "store_ok sha root (st, disk)" and "files_ok root (ft_db st)" and "list_all (lists st) xs" and "distinct (map xf_ID xs)"
  shows "\<exists>st' disk'. clean_files root refuses now n xs (st, disk) = ((st', disk'), n + length xs, None) \<and>
    store_ok sha root (st', disk') \<and>
    content (st', disk') = (\<lambda>k. if fst k \<in> set (map xf_ID xs) then None else content (st, disk) k) \<and>
    db_files (ft_db st') = update_where (\<lambda>f. file_id f \<in> set (map xf_ID xs)) expire_row (db_files (ft_db st)) \<and>
    disk' = without root disk (listed_paths xs)"
  using assms(3-)
proof (induction xs arbitrary: st disk n)
  case Nil
  then show ?case by (simp add: update_where_def listed_paths_def without_def)
next
  case (Cons x xs)
  obtain ws where ws: "root = abs_path ws" "list_all plain_segment ws" "ws \<noteq> []"
    using assms(1) by (auto simp: storage_root_def)
  have x: "lists st x" "xf_ID x \<notin> set (map xf_ID xs)" using Cons.prems by simp_all
  let ?disk = "without root disk (xf_StoragePath x # xf_ChunkPaths x)"
  obtain st1 where st1: "MarkFileExpired (xf_ID x) now st = Inr st1"
      "ft_chunks st1 = filter (\<lambda>c. cr_FileID c \<noteq> xf_ID x) (ft_chunks st)"
      "db_files (ft_db st1) = update_where (\<lambda>f. file_id f = xf_ID x) expire_row (db_files (ft_db st))"
    using MarkFileExpired_lists [OF x(1) Cons.prems(2)] by blast
  note one = clean_one [OF Cons.prems(1) assms(1) Cons.prems(2) x(1) st1(1,2)]
  have "list_all (lists st1) xs"
    unfolding list_all_iff
  proof
    fix y
    assume y: "y \<in> set xs"
    then have "xf_ID y \<noteq> xf_ID x" using x(2) by (metis image_eqI set_map)
    moreover have "lists st y" using Cons.prems(3) y by (simp add: list_all_iff)
    ultimately show "lists st1 y" by (intro lists_other [OF _ _ st1(2,3)])
  qed
  moreover have "distinct (map xf_ID xs)" using Cons.prems(4) by simp
  ultimately obtain st' disk' where IH: "clean_files root refuses now (n + 1) xs (st1, ?disk) = ((st', disk'), n + 1 + length xs, None)"
      "store_ok sha root (st', disk')"
      "content (st', disk') = (\<lambda>k. if fst k \<in> set (map xf_ID xs) then None else content (st1, ?disk) k)"
      "db_files (ft_db st') = update_where (\<lambda>f. file_id f \<in> set (map xf_ID xs)) expire_row (db_files (ft_db st1))"
      "disk' = without root ?disk (listed_paths xs)"
    using Cons.IH [OF one(1) files_ok_expire [OF Cons.prems(2) st1(3)], of "n + 1"] by blast
  have "remove_paths root refuses (xf_StoragePath x # xf_ChunkPaths x) disk = (?disk, None)"
    by (rule remove_paths_removable [OF storage_paths_removable [OF assms(1) Cons.prems(1,2) x(1)] assms(2)])
  then have run: "clean_files root refuses now n (x # xs) (st, disk) = ((st', disk'), n + length (x # xs), None)"
    using st1(1) IH(1) by simp
  have "content (st', disk') = (\<lambda>k. if fst k \<in> set (map xf_ID (x # xs)) then None else content (st, disk) k)"
    by (auto simp: IH(3) one(2) fun_eq_iff)
  moreover have "db_files (ft_db st') = update_where (\<lambda>f. file_id f \<in> set (map xf_ID (x # xs))) expire_row (db_files (ft_db st))"
    using x(2) by (auto simp: IH(4) st1(3) update_where_def expire_row_def)
  moreover have "disk' = without root disk (listed_paths (x # xs))"
    unfolding IH(5) without_append by (simp add: listed_paths_def)
  ultimately show ?case using run IH(2) by (intro exI [of _ st'] exI [of _ disk']) simp
qed

section \<open>The pass as a whole\<close>

lemma SliceStable_keys: "distinct (map f xs) \<Longrightarrow> distinct (map f (SliceStable lt xs))"
proof -
  have "mset (map f (SliceStable lt xs)) = mset (map f xs)" by simp
  then show "distinct (map f xs) \<Longrightarrow> distinct (map f (SliceStable lt xs))" using mset_eq_imp_distinct_iff by blast
qed

lemma ExpiredFiles_listed:
  assumes "files_ok root (ft_db st)"
  shows "list_all (lists st) (ExpiredFiles st now limit)" and "distinct (map xf_ID (ExpiredFiles st now limit))"
proof -
  let ?fs = "SliceStable (\<lambda>f g. file_expires_at f < file_expires_at g) (filter (expired (ft_db st) now) (db_files (ft_db st)))"
  have mem: "f \<in> set (db_files (ft_db st)) \<and> file_status f \<noteq> ''EXPIRED''" if "f \<in> set (take limit ?fs)" for f
    using set_take_subset [of limit ?fs] that by (auto simp: expired_def)
  show "list_all (lists st) (ExpiredFiles st now limit)"
    unfolding ExpiredFiles_def list_all_iff set_map
  proof (rule ballI, elim imageE)
    fix x f
    assume x: "x = \<lparr>xf_ID = file_id f, xf_TransferID = file_transfer f, xf_StoragePath = file_storage_path f,
        xf_ChunkPaths = map cr_StoragePath (filter (\<lambda>c. cr_FileID c = file_id f) (ft_chunks st))\<rparr>"
      and f: "f \<in> set (take limit ?fs)"
    show "lists st x"
      unfolding lists_def list_ex_iff x using mem [OF f] by (intro conjI bexI [of _ f]) simp_all
  qed
  have "distinct (map file_id (filter (expired (ft_db st) now) (db_files (ft_db st))))"
    using assms by (simp add: files_ok_def distinct_map_filter)
  then show "distinct (map xf_ID (ExpiredFiles st now limit))"
    using distinct_take [OF SliceStable_keys] by (simp add: ExpiredFiles_def comp_def flip: take_map)
qed

text \<open>
  What the list of a query stands for, in terms of the tables: the chunks of the files it names, and the
  published copies of these files.
\<close>

lemma removed_paths:
  assumes "storage_root root" and "store_ok sha root (st, disk)" and "files_ok root (ft_db st)" and "list_all (lists st) xs"
  shows "(\<exists>p \<in> set (listed_paths xs). p \<noteq> '''' \<and> safePath root p = Inr q) \<longleftrightarrow>
    (\<exists>c \<in> set (ft_chunks st). cr_FileID c \<in> set (map xf_ID xs) \<and> cr_StoragePath c = q) \<or>
    (\<exists>f \<in> set (db_files (ft_db st)). file_id f \<in> set (map xf_ID xs) \<and> file_storage_path f \<noteq> '''' \<and>
       safePath root (file_storage_path f) = Inr q)"
proof -
  obtain ws where ws: "root = abs_path ws" "list_all plain_segment ws" "ws \<noteq> []"
    using assms(1) by (auto simp: storage_root_def)
  have chunk: "cr_StoragePath c \<noteq> '''' \<and> safePath root (cr_StoragePath c) = Inr (cr_StoragePath c)"
    if "c \<in> set (ft_chunks st)" for c
    using chunk_path_place(1,3) [OF ws assms(2) that] by (simp add: abs_path_def)
  have row: "file_storage_path f = xf_StoragePath x"
    if "x \<in> set xs" "f \<in> set (db_files (ft_db st))" "file_id f = xf_ID x" for x f
  proof -
    have "lists st x" using assms(4) that(1) by (simp add: list_all_iff)
    then obtain g where g: "g \<in> set (db_files (ft_db st))" "file_id g = xf_ID x" "file_storage_path g = xf_StoragePath x"
      by (auto simp: lists_def list_ex_iff)
    have "distinct (map file_id (db_files (ft_db st)))" using assms(3) by (simp add: files_ok_def)
    then have "f = g" by (rule distinct_keyD [OF _ that(2) g(1)]) (use that(3) g(2) in simp)
    with g(3) show ?thesis by simp
  qed
  have chunks: "set (xf_ChunkPaths x) = cr_StoragePath ` {c \<in> set (ft_chunks st). cr_FileID c = xf_ID x}" if "x \<in> set xs" for x
    using assms(4) that by (auto simp: list_all_iff lists_def)
  have exists: "\<exists>f \<in> set (db_files (ft_db st)). file_id f = xf_ID x" if "x \<in> set xs" for x
    using assms(4) that by (auto simp: list_all_iff lists_def list_ex_iff)
  have "(\<exists>p \<in> set (listed_paths xs). p \<noteq> '''' \<and> safePath root p = Inr q) \<longleftrightarrow>
      (\<exists>x \<in> set xs. xf_StoragePath x \<noteq> '''' \<and> safePath root (xf_StoragePath x) = Inr q \<or>
        (\<exists>p \<in> set (xf_ChunkPaths x). p \<noteq> '''' \<and> safePath root p = Inr q))"
    by (auto simp: listed_paths_def)
  also have "\<dots> \<longleftrightarrow> (\<exists>x \<in> set xs. xf_StoragePath x \<noteq> '''' \<and> safePath root (xf_StoragePath x) = Inr q) \<or>
      (\<exists>x \<in> set xs. \<exists>p \<in> set (xf_ChunkPaths x). p \<noteq> '''' \<and> safePath root p = Inr q)"
    by blast
  also have "(\<exists>x \<in> set xs. \<exists>p \<in> set (xf_ChunkPaths x). p \<noteq> '''' \<and> safePath root p = Inr q) \<longleftrightarrow>
      (\<exists>c \<in> set (ft_chunks st). cr_FileID c \<in> set (map xf_ID xs) \<and> cr_StoragePath c = q)"
  proof
    assume "\<exists>x \<in> set xs. \<exists>p \<in> set (xf_ChunkPaths x). p \<noteq> '''' \<and> safePath root p = Inr q"
    then obtain x p where x: "x \<in> set xs" "p \<in> set (xf_ChunkPaths x)" "safePath root p = Inr q" by blast
    then obtain c where c: "c \<in> set (ft_chunks st)" "cr_FileID c = xf_ID x" "p = cr_StoragePath c"
      unfolding chunks [OF x(1)] by blast
    then have "cr_StoragePath c = q" using chunk [OF c(1)] x(3) by simp
    then show "\<exists>c \<in> set (ft_chunks st). cr_FileID c \<in> set (map xf_ID xs) \<and> cr_StoragePath c = q"
      using c(1,2) x(1) by auto
  next
    assume "\<exists>c \<in> set (ft_chunks st). cr_FileID c \<in> set (map xf_ID xs) \<and> cr_StoragePath c = q"
    then obtain c x where c: "c \<in> set (ft_chunks st)" "x \<in> set xs" "cr_FileID c = xf_ID x" "cr_StoragePath c = q"
      by auto
    then have "cr_StoragePath c \<in> set (xf_ChunkPaths x)" unfolding chunks [OF c(2)] by blast
    then show "\<exists>x \<in> set xs. \<exists>p \<in> set (xf_ChunkPaths x). p \<noteq> '''' \<and> safePath root p = Inr q"
      using chunk [OF c(1)] c(2,4) by metis
  qed
  also have "(\<exists>x \<in> set xs. xf_StoragePath x \<noteq> '''' \<and> safePath root (xf_StoragePath x) = Inr q) \<longleftrightarrow>
      (\<exists>f \<in> set (db_files (ft_db st)). file_id f \<in> set (map xf_ID xs) \<and> file_storage_path f \<noteq> '''' \<and>
         safePath root (file_storage_path f) = Inr q)"
  proof
    assume "\<exists>x \<in> set xs. xf_StoragePath x \<noteq> '''' \<and> safePath root (xf_StoragePath x) = Inr q"
    then obtain x where x: "x \<in> set xs" "xf_StoragePath x \<noteq> ''''" "safePath root (xf_StoragePath x) = Inr q" by blast
    obtain f where f: "f \<in> set (db_files (ft_db st))" "file_id f = xf_ID x" using exists [OF x(1)] by blast
    show "\<exists>f \<in> set (db_files (ft_db st)). file_id f \<in> set (map xf_ID xs) \<and> file_storage_path f \<noteq> '''' \<and>
         safePath root (file_storage_path f) = Inr q"
      using f x row [OF x(1) f] by (intro bexI [OF _ f(1)]) simp
  next
    assume "\<exists>f \<in> set (db_files (ft_db st)). file_id f \<in> set (map xf_ID xs) \<and> file_storage_path f \<noteq> '''' \<and>
         safePath root (file_storage_path f) = Inr q"
    then obtain f x where f: "f \<in> set (db_files (ft_db st))" "x \<in> set xs" "file_id f = xf_ID x"
      "file_storage_path f \<noteq> ''''" "safePath root (file_storage_path f) = Inr q" by auto
    then show "\<exists>x \<in> set xs. xf_StoragePath x \<noteq> '''' \<and> safePath root (xf_StoragePath x) = Inr q"
      using row [OF f(2,1,3)] by (intro bexI [OF _ f(2)]) simp
  qed
  finally show ?thesis by (simp only: disj_commute)
qed

text \<open>
  C21. A pass of the cleaner refines the removal of keys from the map of stored chunks: when no
  removal is refused, it ends without an error, counts exactly the files the query found, turns
  these rows, and no others, into expired ones, takes exactly the chunks of these files out of the
  store and leaves the store and the rows consistent. On the disk it removes exactly the bytes of every chunk
  of these files and their published copies: all other paths keep what they hold.
\<close>

theorem RunOnce_refines:
  fixes now :: time
  assumes "storage_root root" and "\<And>p. \<not> refuses p" and "0 < limit"
    and "store_ok sha root (st, disk)" and "files_ok root (ft_db st)"
  defines "ids \<equiv> set (map xf_ID (ExpiredFiles st now (nat limit)))"
  shows "\<exists>st' disk'. RunOnce_cleaner root refuses now limit (st, disk) =
      ((st', disk'), length (ExpiredFiles st now (nat limit)), None) \<and>
    store_ok sha root (st', disk') \<and> files_ok root (ft_db st') \<and>
    content (st', disk') = (\<lambda>k. if fst k \<in> ids then None else content (st, disk) k) \<and>
    db_files (ft_db st') = update_where (\<lambda>f. file_id f \<in> ids) expire_row (db_files (ft_db st)) \<and>
    (\<forall>q. disk' q =
      (if (\<exists>c \<in> set (ft_chunks st). cr_FileID c \<in> ids \<and> cr_StoragePath c = q) \<or>
          (\<exists>f \<in> set (db_files (ft_db st)). file_id f \<in> ids \<and> file_storage_path f \<noteq> '''' \<and>
             safePath root (file_storage_path f) = Inr q)
       then None else disk q))"
proof -
  let ?xs = "ExpiredFiles st now (nat limit)"
  note listed = ExpiredFiles_listed [OF assms(5), of now "nat limit"]
  obtain st' disk' where run: "clean_files root refuses now 0 ?xs (st, disk) = ((st', disk'), 0 + length ?xs, None)"
      "store_ok sha root (st', disk')"
      "content (st', disk') = (\<lambda>k. if fst k \<in> ids then None else content (st, disk) k)"
      "db_files (ft_db st') = update_where (\<lambda>f. file_id f \<in> ids) expire_row (db_files (ft_db st))"
      "disk' = without root disk (listed_paths ?xs)"
    using clean_files_refines [where refuses = refuses and now = now and n = 0, OF assms(1,2,4,5) listed]
    unfolding ids_def by blast
  have "files_ok root (ft_db st')"
    using assms(5) unfolding files_ok_def run(4)
    by (auto simp: expire_row_def intro!: list_all_update_where)
  moreover have "disk' q = (if (\<exists>c \<in> set (ft_chunks st). cr_FileID c \<in> ids \<and> cr_StoragePath c = q) \<or>
          (\<exists>f \<in> set (db_files (ft_db st)). file_id f \<in> ids \<and> file_storage_path f \<noteq> '''' \<and>
             safePath root (file_storage_path f) = Inr q)
       then None else disk q)" for q
    unfolding run(5) without_def removed_paths [OF assms(1,4,5) listed(1)] ids_def ..
  ultimately show ?thesis
    using run assms(3) by (intro exI [of _ st'] exI [of _ disk']) (simp add: RunOnce_cleaner_def)
qed

lemma RunOnce_refines_witness:
  "\<exists>st' disk'. RunOnce_cleaner sample_root (\<lambda>p. False) 1000 100 sample_store = ((st', disk'), 1, None) \<and>
     content (st', disk') (''f1'', 0) = None \<and> disk' (chunk_file sample_root ''f1'' 0 (sample_sha ''ab'')) = None"
proof -
  have files: "files_ok sample_root (ft_db (fst sample_store))"
    by (simp add: files_ok_def sample_store_def sample_file_defs sample_f1(1))
  have xs: "map xf_ID (ExpiredFiles (fst sample_store) 1000 (nat 100)) = [''f1'']"
    by (simp add: ExpiredFiles_def comp_def expired_def sample_store_def sample_file_defs SliceStable_id)
  then have len: "length (ExpiredFiles (fst sample_store) 1000 (nat 100)) = 1" by (metis length_map list.size(3,4) One_nat_def add_0)
  have "store_ok sample_sha sample_root (fst sample_store, snd sample_store)" using sample_store_ok by simp
  from RunOnce_refines [of sample_root "\<lambda>p. False" 100, OF sample_root_ok _ _ this files, of 1000, unfolded xs len]
  obtain st' disk' where run: "RunOnce_cleaner sample_root (\<lambda>p. False) 1000 100 (fst sample_store, snd sample_store) = ((st', disk'), 1, None)"
    and "content (st', disk') = (\<lambda>k. if fst k \<in> set [''f1''] then None else content (fst sample_store, snd sample_store) k)"
    and disk: "\<And>q. disk' q =
      (if (\<exists>c \<in> set (ft_chunks (fst sample_store)). cr_FileID c \<in> set [''f1''] \<and> cr_StoragePath c = q) \<or>
          (\<exists>f \<in> set (db_files (ft_db (fst sample_store))). file_id f \<in> set [''f1''] \<and> file_storage_path f \<noteq> '''' \<and>
             safePath sample_root (file_storage_path f) = Inr q)
       then None else snd sample_store q)"
    by auto
  then have "content (st', disk') (''f1'', 0) = None" by simp
  moreover have "sample_chunk 0 ''ab'' \<in> set (ft_chunks (fst sample_store))" by (simp add: sample_store_def)
  then have "disk' (chunk_file sample_root ''f1'' 0 (sample_sha ''ab'')) = None"
    unfolding disk by (intro if_P disjI1 bexI [of _ "sample_chunk 0 ''ab''"]) (simp_all add: sample_chunk_def)
  ultimately show ?thesis using run by simp
qed

section \<open>Delivered targets expire\<close>

text \<open>
  The removal of a file takes back deliveries: once the last file of a transfer that was still
  there is removed, every target of the transfer becomes EXPIRED and gets the time of the pass as
  its time of completion, whatever its status was, and so does the transfer; a target that had been
  delivered or read is no exception, although no transition leads from these statuses to EXPIRED.
\<close>

theorem cleaner_expires_delivered:
  assumes "MarkFileExpired fileID now st = Inr st'" and "distinct (map file_id (db_files (ft_db st)))"
    and "filter (\<lambda>f. file_transfer f = tr \<and> file_status f \<noteq> ''EXPIRED'') (db_files (ft_db st)) = [f]" and "file_id f = fileID"
  shows "db_targets (ft_db st') = update_where (\<lambda>r. tgt_transfer r = tr)
      (\<lambda>r. r\<lparr>tgt_status := TransferExpired, tgt_completed_at := Some now\<rparr>) (db_targets (ft_db st)) \<and>
    db_tasks (ft_db st') = update_where (\<lambda>t. task_id t = tr) (\<lambda>t. t\<lparr>task_status := TransferExpired\<rparr>) (db_tasks (ft_db st)) \<and>
    \<not> CanTransitionTo TransferDelivered TransferExpired \<and> \<not> CanTransitionTo TransferRead TransferExpired"
proof -
  have f: "f \<in> set (db_files (ft_db st))" "file_transfer f = tr" "file_status f \<noteq> ''EXPIRED''"
    and only: "\<And>g. g \<in> set (db_files (ft_db st)) \<Longrightarrow> file_transfer g = tr \<Longrightarrow> file_status g \<noteq> ''EXPIRED'' \<Longrightarrow> g = f"
  proof -
    have *: "set (filter (\<lambda>f. file_transfer f = tr \<and> file_status f \<noteq> ''EXPIRED'') (db_files (ft_db st))) = {f}"
      using assms(3) by simp
    then show "f \<in> set (db_files (ft_db st))" "file_transfer f = tr" "file_status f \<noteq> ''EXPIRED''" by auto
    show "g = f" if "g \<in> set (db_files (ft_db st))" "file_transfer g = tr" "file_status g \<noteq> ''EXPIRED''" for g
      using * that by auto
  qed
  have "find (\<lambda>f. file_id f = fileID \<and> file_status f \<noteq> ''EXPIRED'') (db_files (ft_db st)) = Some f"
  proof (rule find_unique [OF f(1)])
    show "file_id f = fileID \<and> file_status f \<noteq> ''EXPIRED''" using f(3) assms(4) by simp
    show "y = f" if "y \<in> set (db_files (ft_db st))" "file_id y = fileID \<and> file_status y \<noteq> ''EXPIRED''" for y
      using distinct_keyD [OF assms(2) that(1) f(1)] that(2) assms(4) by simp
  qed
  then have st': "ft_db st' = expire_task tr (expire_targets tr now (expire_file fileID (ft_db st)))"
    using assms(1) f(2) by (auto simp: MarkFileExpired_def)
  let ?db = "expire_file fileID (ft_db st)"
  have "file_status g = ''EXPIRED''" if g: "g \<in> set (db_files ?db)" "file_transfer g = tr" for g
  proof (rule ccontr)
    assume s: "file_status g \<noteq> ''EXPIRED''"
    then have "g \<in> set (db_files (ft_db st)) \<and> \<not> (file_id g = fileID \<and> file_status g \<noteq> ''EXPIRED'')"
      using g(1) by (auto simp: expire_file_def set_update_where)
    then show False using only [of g] g(2) s assms(4) by blast
  qed
  then have "\<not> file_left ?db tr d" for d unfolding file_left_def list_ex_iff by blast
  then have "db_targets (expire_targets tr now ?db) = update_where (\<lambda>r. tgt_transfer r = tr)
      (\<lambda>r. r\<lparr>tgt_status := TransferExpired, tgt_completed_at := Some now\<rparr>) (db_targets (ft_db st))" (is "?targets = ?new")
    by (simp add: expire_targets_def expire_file_def)
  moreover have "\<not> list_ex (\<lambda>r. tgt_transfer r = tr \<and> tgt_status r \<noteq> TransferExpired) ?new"
    unfolding list_ex_iff set_update_where by (rule notI) (elim bexE conjE UnE imageE; simp)
  moreover have "db_tasks (expire_targets tr now ?db) = db_tasks (ft_db st)" by (simp add: expire_targets_def expire_file_def)
  ultimately have "db_tasks (ft_db st') = update_where (\<lambda>t. task_id t = tr) (\<lambda>t. t\<lparr>task_status := TransferExpired\<rparr>) (db_tasks (ft_db st))"
    and "db_targets (ft_db st') = ?new"
    unfolding st' expire_task_def by simp_all
  then show ?thesis by (simp add: CanTransitionTo_def)
qed

lemma cleaner_expires_delivered_witness:
  "\<exists>st'. MarkFileExpired ''f1'' 1000 (sample_tables TransferDelivered) = Inr st' \<and>
     map tgt_status (db_targets (ft_db (sample_tables TransferDelivered))) = [TransferDelivered] \<and>
     map tgt_status (db_targets (ft_db st')) = [TransferExpired]"
proof -
  have "\<not> isl (MarkFileExpired ''f1'' 1000 (sample_tables TransferDelivered))" by code_simp
  then obtain st' where st': "MarkFileExpired ''f1'' 1000 (sample_tables TransferDelivered) = Inr st'"
    by (cases "MarkFileExpired ''f1'' 1000 (sample_tables TransferDelivered)") auto
  have "db_targets (ft_db st') = update_where (\<lambda>r. tgt_transfer r = ''t1'')
      (\<lambda>r. r\<lparr>tgt_status := TransferExpired, tgt_completed_at := Some 1000\<rparr>) (db_targets (ft_db (sample_tables TransferDelivered)))"
    using cleaner_expires_delivered [OF st', of "''t1''" sample_file_row] by (simp add: sample_file_defs)
  then show ?thesis using st' by (simp add: sample_file_defs)
qed

end
