(* ===== verification/Presence.thy ===== *)
theory Presence
  imports Devices Version
begin

text \<open>
  The hub of live connections, \<open>internal/presence/hub.go\<close>, with the operations of
  \<open>internal/postgres/store.go\<close> it runs on. Every connection has two goroutines, the handler that
  reads messages and the writer that sends them; \<open>hub_step\<close> makes one atomic step of one of them, an
  access to the database, to the locked map of clients or to the queue between the two. Which step
  comes next, what a client sends and whether a write succeeds is up to the environment.
\<close>

section \<open>Notifications and connections in the store (postgres/store.go)\<close>

record NotificationRow =
  nt_id :: string
  nt_device :: string
  nt_type :: string
  nt_payload :: string
  nt_created_at :: time
  nt_acknowledged_at :: "time option"

record presence_db = device_db +
  pdb_notifications :: "NotificationRow list"

record Notification =
  no_ID :: string
  no_Type :: string
  no_Payload :: string

definition device_available :: "presence_db \<Rightarrow> string \<Rightarrow> bool" where
  "device_available db d \<longleftrightarrow> list_ex (\<lambda>r. dr_id r = d \<and> trusted r) (ddb_devices db)"

definition connection_row :: "string \<Rightarrow> time \<Rightarrow> string \<Rightarrow> string \<Rightarrow> ConnectionRow" where
  "connection_row d at protocol clientVersion = \<lparr>cn_device = d, cn_connected_at = at, cn_last_seen_at = at,
     cn_disconnected_at = None, cn_protocol_version = protocol, cn_client_version = clientVersion\<rparr>"

definition ConnectDevice ::
  "string \<Rightarrow> time \<Rightarrow> string \<Rightarrow> string \<Rightarrow> presence_db \<Rightarrow> device_error + presence_db"
where
  "ConnectDevice d at protocol clientVersion db =
     (if \<not> device_available db d then Inl ErrForbidden
      else if list_ex (\<lambda>r. cn_device r = d) (ddb_connections db)
      then Inr (db\<lparr>ddb_connections := update_where (\<lambda>r. cn_device r = d)
             (\<lambda>r. connection_row d at protocol clientVersion) (ddb_connections db)\<rparr>)
      else Inr (db\<lparr>ddb_connections := ddb_connections db @ [connection_row d at protocol clientVersion]\<rparr>))"

definition HeartbeatDevice :: "string \<Rightarrow> time \<Rightarrow> presence_db \<Rightarrow> device_error + presence_db" where
  "HeartbeatDevice d at db =
     (let hit = (\<lambda>r. cn_device r = d \<and> cn_disconnected_at r = None \<and> device_available db d)
      in if list_ex hit (ddb_connections db)
         then Inr (db\<lparr>ddb_connections := update_where hit (\<lambda>r. r\<lparr>cn_last_seen_at := at\<rparr>) (ddb_connections db)\<rparr>)
         else Inl ErrNotFound)"

definition DisconnectDevice :: "string \<Rightarrow> time \<Rightarrow> presence_db \<Rightarrow> presence_db" where
  "DisconnectDevice d at db = db\<lparr>ddb_connections := update_where (\<lambda>r. cn_device r = d \<and> cn_disconnected_at r = None)
     (\<lambda>r. r\<lparr>cn_disconnected_at := Some at\<rparr>) (ddb_connections db)\<rparr>"

definition pending :: "presence_db \<Rightarrow> string \<Rightarrow> NotificationRow list" where
  "pending db d = filter (\<lambda>n. nt_device n = d \<and> nt_acknowledged_at n = None) (pdb_notifications db)"

definition notification_of :: "NotificationRow \<Rightarrow> Notification" where
  "notification_of n = \<lparr>no_ID = nt_id n, no_Type = nt_type n, no_Payload = nt_payload n\<rparr>"

definition PendingNotifications :: "presence_db \<Rightarrow> string \<Rightarrow> device_error + Notification list" where
  "PendingNotifications db d =
     (if \<not> device_available db d then Inl ErrForbidden
      else Inr (map notification_of
        (take 100 (SliceStable (\<lambda>m n. nt_created_at m < nt_created_at n) (pending db d)))))"

definition AcknowledgeNotification :: "string \<Rightarrow> string \<Rightarrow> time \<Rightarrow> presence_db \<Rightarrow> device_error + presence_db" where
  "AcknowledgeNotification d i at db =
     (let hit = (\<lambda>n. nt_id n = i \<and> nt_device n = d \<and> nt_acknowledged_at n = None)
      in if list_ex hit (pdb_notifications db)
         then Inr (db\<lparr>pdb_notifications := update_where hit (\<lambda>n. n\<lparr>nt_acknowledged_at := Some at\<rparr>) (pdb_notifications db)\<rparr>)
         else Inl ErrNotFound)"

section \<open>Requests and messages (presence/hub.go)\<close>

definition HeartbeatInterval :: duration where "HeartbeatInterval = 15 * second"
definition ProtocolVersion :: string where "ProtocolVersion = CurrentProtocol"

text \<open>What \<open>ServeHTTP\<close> reads of a request; a header or a query value that is absent is empty.\<close>

record WSRequest =
  ws_Authorization :: string
  ws_Protocol :: string
  ws_access_token :: string
  ws_protocolVersion :: string
  ws_clientVersion :: string
  ws_capabilities :: string

definition websocketToken :: "WSRequest \<Rightarrow> string" where
  "websocketToken r =
     (if HasPrefix (ws_Authorization r) ''Bearer '' then TrimSpace (TrimPrefix (ws_Authorization r) ''Bearer '')
      else case find (\<lambda>p. HasPrefix p ''bearer.'') (map TrimSpace (split_on (CHR '','') (ws_Protocol r))) of
        Some p \<Rightarrow> TrimPrefix p ''bearer.''
      | None \<Rightarrow> ws_access_token r)"

definition capabilityAvailable :: "string list \<Rightarrow> string \<Rightarrow> bool" where
  "capabilityAvailable capabilities required \<longleftrightarrow> list_ex (\<lambda>c. c = required) capabilities"

text \<open>
  The checks of \<open>ServeHTTP\<close> before the upgrade: the HTTP status of a refusal, or the device and
  the negotiated capabilities.
\<close>

definition admit :: "(string \<Rightarrow> auth_error + Session) \<Rightarrow> WSRequest \<Rightarrow> int + string \<times> string list" where
  "admit authenticate r =
     (case authenticate (websocketToken r) of
        Inl e \<Rightarrow> Inl 401
      | Inr session \<Rightarrow>
          (case sess_DeviceID session of
             None \<Rightarrow> Inl 401
           | Some d \<Rightarrow>
               if \<not> SupportedProtocol (ws_protocolVersion r) then Inl 426
               else if \<not> SupportedClient (ws_clientVersion r) then Inl 426
               else Inr (d, MutualCapabilities [SupportedCapabilities, split_on (CHR '','') (ws_capabilities r)])))"

text \<open>
  The payload of a \<open>connected\<close> message: the interval in seconds, the capabilities, and whether the
  document \<open>version.Current()\<close> is added.
\<close>

datatype Payload = NoPayload | ConnectedPayload int "string list" bool

record HubMessage =
  ms_Type :: string
  ms_NotificationID :: string
  ms_Notification :: "Notification option"
  ms_Payload :: Payload

definition plain_message :: "string \<Rightarrow> HubMessage" where
  "plain_message t = \<lparr>ms_Type = t, ms_NotificationID = '''', ms_Notification = None, ms_Payload = NoPayload\<rparr>"

definition connected_message :: "string list \<Rightarrow> HubMessage" where
  "connected_message capabilities = (plain_message ''connected'')
     \<lparr>ms_Payload := ConnectedPayload (HeartbeatInterval div second) capabilities (capabilityAvailable capabilities ''realtime_versions'')\<rparr>"

definition notification_message :: "Notification \<Rightarrow> HubMessage" where
  "notification_message n = (plain_message ''notification'')\<lparr>ms_Notification := Some n\<rparr>"

section \<open>Connections\<close>

text \<open>
  Where the handler of a connection stands: before \<open>ConnectDevice\<close>, before \<open>register\<close>, before the
  cancellation of the connection it has replaced, before \<open>connected\<close> is queued, in the reading
  loop, before \<open>unregister\<close>, before \<open>DisconnectDevice\<close>, returned.
\<close>

datatype Phase = Accepted | Connecting | Replacing "nat option" | Announcing | Serving | Closing | Unregistered | Done

datatype Writer = Starting | Running | Stopped

record client =
  cl_device :: string
  cl_version :: string
  cl_capabilities :: "string list"
  cl_phase :: Phase
  cl_cancelled :: bool
  cl_send :: "HubMessage list"
  cl_writer :: Writer
  cl_wire :: "HubMessage list"

record Hub =
  hub_db :: presence_db
  hub_clients :: "string \<Rightarrow> nat option"
  hub_conns :: "nat \<Rightarrow> client option"

definition sendBuffer :: nat where "sendBuffer = 32"

definition enqueue :: "HubMessage list \<Rightarrow> HubMessage \<Rightarrow> HubMessage list option" where
  "enqueue q m = (if length q < sendBuffer then Some (q @ [m]) else None)"

fun enqueue_all :: "HubMessage list \<Rightarrow> HubMessage list \<Rightarrow> HubMessage list \<times> bool" where
  "enqueue_all q [] = (q, True)"
| "enqueue_all q (m # ms) = (case enqueue q m of None \<Rightarrow> (q, False) | Some q' \<Rightarrow> enqueue_all q' ms)"

definition update_conn :: "nat \<Rightarrow> (client \<Rightarrow> client) \<Rightarrow> Hub \<Rightarrow> Hub" where
  "update_conn c f h = h\<lparr>hub_conns := (hub_conns h)(c := map_option f (hub_conns h c))\<rparr>"

definition closing :: "client \<Rightarrow> client" where
  "closing x = x\<lparr>cl_phase := Closing\<rparr>"

text \<open>\<open>sendNotifications\<close>, and the end of the writer when it fails; \<open>running\<close> is the state after it.\<close>

definition sendNotifications :: "presence_db \<Rightarrow> client \<Rightarrow> client" where
  "sendNotifications db x =
     (if cl_cancelled x then x\<lparr>cl_writer := Stopped\<rparr>
      else case PendingNotifications db (cl_device x) of
        Inl e \<Rightarrow> x\<lparr>cl_writer := Stopped\<rparr>
      | Inr ns \<Rightarrow>
          (case enqueue_all (cl_send x) (map notification_message ns) of
             (q, ok) \<Rightarrow> x\<lparr>cl_send := q, cl_writer := if ok then Running else Stopped\<rparr>))"

text \<open>One turn of the reading loop. A writer that has stopped has put its error in \<open>writeErrors\<close>.\<close>

definition after_message :: "client \<Rightarrow> client" where
  "after_message x = (if cl_writer x = Stopped then closing x else x)"

definition handle_message :: "time \<Rightarrow> HubMessage \<Rightarrow> presence_db \<Rightarrow> client \<Rightarrow> presence_db \<times> client" where
  "handle_message now m db x =
     (if cl_cancelled x then (db, closing x)
      else if ms_Type m = ''heartbeat'' then
        (case HeartbeatDevice (cl_device x) now db of
           Inl e \<Rightarrow> (db, closing x)
         | Inr db' \<Rightarrow>
             (case enqueue (cl_send x) (plain_message ''heartbeat_ack'') of
                None \<Rightarrow> (db', closing x)
              | Some q \<Rightarrow> (db', after_message (x\<lparr>cl_send := q\<rparr>))))
      else if ms_Type m = ''notification_ack'' then
        (if ms_NotificationID m = '''' then (db, closing x)
         else case AcknowledgeNotification (cl_device x) (ms_NotificationID m) now db of
           Inl e \<Rightarrow> (db, closing x)
         | Inr db' \<Rightarrow> (db', after_message x))
      else (db, closing x))"

section \<open>Steps\<close>

text \<open>
  The steps of the handler of connection \<open>c\<close> from the request to the return, those of its writer, and
  what the rest of the program does to the tables the hub reads.
\<close>

datatype hub_event =
    Request nat "string \<Rightarrow> auth_error + Session" WSRequest bool
  | Connect nat time
  | Register nat
  | CancelPrevious nat
  | Announce nat
  | Receive nat time HubMessage
  | ReadFails nat
  | Unregister nat
  | Disconnect nat time
  | WriterStart nat
  | WriterPoll nat
  | WriterSend nat bool
  | WriterPing nat bool
  | WriterDone nat
  | Notify NotificationRow
  | SetDevices "DevRow list"

definition new_client :: "string \<Rightarrow> string \<Rightarrow> string list \<Rightarrow> client" where
  "new_client d clientVersion capabilities = \<lparr>cl_device = d, cl_version = clientVersion, cl_capabilities = capabilities,
     cl_phase = Accepted, cl_cancelled = False, cl_send = [], cl_writer = Stopped, cl_wire = []\<rparr>"

text \<open>The locked section of \<open>register\<close>, and the cancellation of the connection it has replaced.\<close>

definition register :: "nat \<Rightarrow> client \<Rightarrow> Hub \<Rightarrow> Hub" where
  "register c x h = update_conn c (\<lambda>x. x\<lparr>cl_phase := Replacing (hub_clients h (cl_device x))\<rparr>)
     (h\<lparr>hub_clients := (hub_clients h)(cl_device x \<mapsto> c)\<rparr>)"

definition cancel_previous :: "nat option \<Rightarrow> Hub \<Rightarrow> Hub" where
  "cancel_previous previous h =
     (case previous of None \<Rightarrow> h | Some p \<Rightarrow> update_conn p (\<lambda>y. y\<lparr>cl_cancelled := True\<rparr>) h)"

text \<open>The deferred end of a handler up to \<open>unregister\<close>, which tells whether the row is to be closed.\<close>

definition unregister :: "nat \<Rightarrow> client \<Rightarrow> Hub \<Rightarrow> Hub" where
  "unregister c x h =
     (if hub_clients h (cl_device x) \<noteq> Some c
      then update_conn c (\<lambda>x. x\<lparr>cl_phase := Done, cl_cancelled := True\<rparr>) h
      else update_conn c (\<lambda>x. x\<lparr>cl_phase := Unregistered, cl_cancelled := True\<rparr>)
        (h\<lparr>hub_clients := (hub_clients h)(cl_device x := None)\<rparr>))"

declare register_def [simp] cancel_previous_def [simp] unregister_def [simp]

text \<open>A step of the writer of a connection, from the connection's state \<open>x\<close>.\<close>

fun writer_step :: "hub_event \<Rightarrow> nat \<Rightarrow> client \<Rightarrow> Hub \<Rightarrow> Hub option" where
  "writer_step (WriterStart _) c x h =
     (if cl_writer x \<noteq> Starting then None else Some (update_conn c (sendNotifications (hub_db h)) h))"
| "writer_step (WriterPoll _) c x h =
     (if cl_writer x \<noteq> Running then None else Some (update_conn c (sendNotifications (hub_db h)) h))"
| "writer_step (WriterSend _ success) c x h =
     (if cl_writer x \<noteq> Running then None
      else case cl_send x of
        [] \<Rightarrow> None
      | m # q \<Rightarrow> Some (update_conn c (\<lambda>x. if success \<and> \<not> cl_cancelled x
            then x\<lparr>cl_send := q, cl_wire := cl_wire x @ [m]\<rparr> else x\<lparr>cl_send := q, cl_writer := Stopped\<rparr>) h))"
| "writer_step (WriterPing _ success) c x h =
     (if cl_writer x \<noteq> Running then None
      else Some (update_conn c (\<lambda>x. if success \<and> \<not> cl_cancelled x then x else x\<lparr>cl_writer := Stopped\<rparr>) h))"
| "writer_step (WriterDone _) c x h =
     (if cl_writer x = Running \<and> cl_cancelled x then Some (update_conn c (\<lambda>x. x\<lparr>cl_writer := Stopped\<rparr>) h) else None)"
| "writer_step _ c x h = None"

text \<open>A step of the handler of a connection.\<close>

fun conn_step :: "hub_event \<Rightarrow> nat \<Rightarrow> client \<Rightarrow> Hub \<Rightarrow> Hub option" where
  "conn_step (Connect _ now) c x h =
     (if cl_phase x \<noteq> Accepted then None
      else Some (case ConnectDevice (cl_device x) now ProtocolVersion (cl_version x) (hub_db h) of
        Inl e \<Rightarrow> update_conn c (\<lambda>x. x\<lparr>cl_phase := Done\<rparr>) h
      | Inr db \<Rightarrow> update_conn c (\<lambda>x. x\<lparr>cl_phase := Connecting\<rparr>) (h\<lparr>hub_db := db\<rparr>)))"
| "conn_step (Register _) c x h = (if cl_phase x \<noteq> Connecting then None else Some (register c x h))"
| "conn_step (CancelPrevious _) c x h =
     (case cl_phase x of
        Replacing previous \<Rightarrow>
          Some (update_conn c (\<lambda>x. x\<lparr>cl_phase := Announcing, cl_writer := Starting\<rparr>) (cancel_previous previous h))
      | _ \<Rightarrow> None)"
| "conn_step (Announce _) c x h =
     (if cl_phase x \<noteq> Announcing then None
      else Some (update_conn c (\<lambda>x. case enqueue (cl_send x) (connected_message (cl_capabilities x)) of
          None \<Rightarrow> closing x | Some q \<Rightarrow> x\<lparr>cl_phase := Serving, cl_send := q\<rparr>) h))"
| "conn_step (Receive _ now m) c x h =
     (if cl_phase x \<noteq> Serving then None
      else Some (case handle_message now m (hub_db h) x of (db, y) \<Rightarrow> update_conn c (\<lambda>_. y) (h\<lparr>hub_db := db\<rparr>)))"
| "conn_step (ReadFails _) c x h =
     (if cl_phase x \<noteq> Serving then None else Some (update_conn c closing h))"
| "conn_step (Unregister _) c x h = (if cl_phase x \<noteq> Closing then None else Some (unregister c x h))"
| "conn_step (Disconnect _ now) c x h =
     (if cl_phase x \<noteq> Unregistered then None
      else Some (update_conn c (\<lambda>x. x\<lparr>cl_phase := Done\<rparr>) (h\<lparr>hub_db := DisconnectDevice (cl_device x) now (hub_db h)\<rparr>)))"
| "conn_step e c x h = writer_step e c x h"

fun event_conn :: "hub_event \<Rightarrow> nat option" where
  "event_conn (Request c _ _ _) = None"
| "event_conn (Connect c _) = Some c"
| "event_conn (Register c) = Some c"
| "event_conn (CancelPrevious c) = Some c"
| "event_conn (Announce c) = Some c"
| "event_conn (Receive c _ _) = Some c"
| "event_conn (ReadFails c) = Some c"
| "event_conn (Unregister c) = Some c"
| "event_conn (Disconnect c _) = Some c"
| "event_conn (WriterStart c) = Some c"
| "event_conn (WriterPoll c) = Some c"
| "event_conn (WriterSend c _) = Some c"
| "event_conn (WriterPing c _) = Some c"
| "event_conn (WriterDone c) = Some c"
| "event_conn (Notify _) = None"
| "event_conn (SetDevices _) = None"

fun hub_step :: "hub_event \<Rightarrow> Hub \<Rightarrow> Hub option" where
  "hub_step (Request c authenticate r upgraded) h =
     (if hub_conns h c \<noteq> None then None
      else Some (case admit authenticate r of
        Inl status \<Rightarrow> h
      | Inr (d, capabilities) \<Rightarrow> if upgraded
          then h\<lparr>hub_conns := (hub_conns h)(c \<mapsto> new_client d (ws_clientVersion r) capabilities)\<rparr> else h))"
| "hub_step (Notify n) h = Some (h\<lparr>hub_db := (hub_db h)\<lparr>pdb_notifications := pdb_notifications (hub_db h) @ [n]\<rparr>\<rparr>)"
| "hub_step (SetDevices ds) h = Some (h\<lparr>hub_db := (hub_db h)\<lparr>ddb_devices := ds\<rparr>\<rparr>)"
| "hub_step e h =
     (case event_conn e of
        None \<Rightarrow> None
      | Some c \<Rightarrow> (case hub_conns h c of None \<Rightarrow> None | Some x \<Rightarrow> conn_step e c x h))"

fun hub_run :: "hub_event list \<Rightarrow> Hub \<Rightarrow> Hub option" where
  "hub_run [] h = Some h"
| "hub_run (e # es) h = (case hub_step e h of None \<Rightarrow> None | Some h' \<Rightarrow> hub_run es h')"

definition NewHub :: "presence_db \<Rightarrow> Hub" where
  "NewHub db = \<lparr>hub_db = db, hub_clients = (\<lambda>d. None), hub_conns = (\<lambda>c. None)\<rparr>"

section \<open>Which connections are live\<close>

lemma update_conn_simps [simp]:
  "hub_db (update_conn c f h) = hub_db h" "hub_clients (update_conn c f h) = hub_clients h"
  "hub_conns (update_conn c f h) = (hub_conns h)(c := map_option f (hub_conns h c))"
  by (simp_all add: update_conn_def)

fun registered_phase :: "Phase \<Rightarrow> bool" where
  "registered_phase (Replacing p) = True"
| "registered_phase p = (p \<in> {Announcing, Serving, Closing})"

text \<open>Another handler of the device has taken the connection's place and is about to cancel it.\<close>

definition being_replaced :: "Hub \<Rightarrow> nat \<Rightarrow> string \<Rightarrow> bool" where
  "being_replaced h c d \<longleftrightarrow>
     (\<exists>i z. hub_conns h i = Some z \<and> cl_device z = d \<and> cl_phase z = Replacing (Some c))"

text \<open>
  The map of clients holds handlers between \<open>register\<close> and \<open>unregister\<close>, such a handler is in the
  map unless it is cancelled or about to be, and no queue is over its capacity.
\<close>

definition hub_ok :: "Hub \<Rightarrow> bool" where
  "hub_ok h \<longleftrightarrow>
     (\<forall>d c. hub_clients h d = Some c \<longrightarrow>
        (\<exists>x. hub_conns h c = Some x \<and> cl_device x = d \<and> registered_phase (cl_phase x))) \<and>
     (\<forall>c x. hub_conns h c = Some x \<and> registered_phase (cl_phase x) \<and> \<not> cl_cancelled x \<longrightarrow>
        hub_clients h (cl_device x) = Some c \<or>
        being_replaced h c (cl_device x)) \<and>
     (\<forall>c x. hub_conns h c = Some x \<longrightarrow> length (cl_send x) \<le> sendBuffer)"

lemma hub_okD:
  assumes "hub_ok h"
  shows "hub_clients h d = Some c \<Longrightarrow> \<exists>x. hub_conns h c = Some x \<and> cl_device x = d \<and> registered_phase (cl_phase x)"
    and "hub_conns h c = Some x \<Longrightarrow> registered_phase (cl_phase x) \<Longrightarrow> \<not> cl_cancelled x \<Longrightarrow>
      hub_clients h (cl_device x) = Some c \<or> being_replaced h c (cl_device x)"
    and "hub_conns h c = Some x \<Longrightarrow> length (cl_send x) \<le> sendBuffer"
  using assms unfolding hub_ok_def by blast+

lemma NewHub_ok: "hub_ok (NewHub db)"
  by (simp add: hub_ok_def NewHub_def)

lemma being_replaced_keep:
  assumes "being_replaced h i e"
    and "\<And>c w. hub_conns h c = Some w \<Longrightarrow> cl_phase w = Replacing (Some i) \<Longrightarrow>
      \<exists>v. hub_conns h' c = Some v \<and> cl_device v = cl_device w \<and> cl_phase v = cl_phase w"
  shows "being_replaced h' i e"
proof -
  obtain c w where "hub_conns h c = Some w" "cl_device w = e" "cl_phase w = Replacing (Some i)"
    using assms(1) unfolding being_replaced_def by blast
  then show ?thesis using assms(2) unfolding being_replaced_def by metis
qed

text \<open>A step that keeps the connection's place in the map.\<close>

lemma hub_ok_keep:
  assumes "hub_ok h" and "hub_conns h c = Some x" and "cl_device y = cl_device x" and "length (cl_send y) \<le> sendBuffer"
    and "hub_clients h (cl_device x) = Some c \<Longrightarrow> registered_phase (cl_phase y)"
    and "registered_phase (cl_phase y) \<Longrightarrow> \<not> cl_cancelled y \<Longrightarrow> registered_phase (cl_phase x) \<and> \<not> cl_cancelled x"
    and "\<And>p. cl_phase x = Replacing (Some p) \<Longrightarrow> cl_phase y = Replacing (Some p)"
    and "hub_clients h' = hub_clients h" and "hub_conns h' = (hub_conns h)(c \<mapsto> y)"
  shows "hub_ok h'"
  unfolding hub_ok_def
proof (intro conjI allI impI)
  fix d i assume "hub_clients h' d = Some i"
  then have "hub_clients h d = Some i" by (simp add: assms(8))
  then show "\<exists>x. hub_conns h' i = Some x \<and> cl_device x = d \<and> registered_phase (cl_phase x)"
    using hub_okD(1) [OF assms(1), of d i] assms(2,3,5,9) by (cases "i = c") auto
next
  fix i z assume z: "hub_conns h' i = Some z \<and> registered_phase (cl_phase z) \<and> \<not> cl_cancelled z"
  have "being_replaced h' i e" if "being_replaced h i e" for e
    by (rule being_replaced_keep [OF that]) (use assms(2,3,7,9) in auto)
  moreover have "hub_clients h (cl_device z) = Some i \<or> being_replaced h i (cl_device z)"
    using z hub_okD(2) [OF assms(1), of i] assms(2,3,6,9) by (cases "i = c") auto
  ultimately show "hub_clients h' (cl_device z) = Some i \<or> being_replaced h' i (cl_device z)"
    using assms(8) by auto
next
  fix i z assume "hub_conns h' i = Some z"
  then show "length (cl_send z) \<le> sendBuffer"
    using hub_okD(3) [OF assms(1), of i] assms(4,9) by (cases "i = c") auto
qed

lemma enqueue_length: "enqueue q m = Some q' \<Longrightarrow> length q' \<le> sendBuffer"
  by (auto simp: enqueue_def split: if_splits)

lemma enqueue_all_length: "length q \<le> sendBuffer \<Longrightarrow> length (fst (enqueue_all q ms)) \<le> sendBuffer"
  by (induction ms arbitrary: q) (auto dest: enqueue_length split: option.split)

lemma sendNotifications_keeps [simp]:
  "cl_device (sendNotifications db x) = cl_device x" "cl_phase (sendNotifications db x) = cl_phase x"
  "cl_cancelled (sendNotifications db x) = cl_cancelled x" "cl_wire (sendNotifications db x) = cl_wire x"
  by (simp_all add: sendNotifications_def split: sum.split prod.split)

lemma sendNotifications_length:
  "length (cl_send x) \<le> sendBuffer \<Longrightarrow> length (cl_send (sendNotifications db x)) \<le> sendBuffer"
  by (auto simp: sendNotifications_def split: sum.split prod.split) (metis enqueue_all_length fst_conv)

lemma handle_message_keeps:
  assumes "handle_message now m db x = (db', y)"
  shows "cl_device y = cl_device x" and "cl_cancelled y = cl_cancelled x" and "cl_wire y = cl_wire x" and "cl_writer y = cl_writer x"
    and "cl_phase y = cl_phase x \<or> cl_phase y = Closing" and "length (cl_send x) \<le> sendBuffer \<Longrightarrow> length (cl_send y) \<le> sendBuffer"
  using assms by (auto simp: handle_message_def closing_def after_message_def dest: enqueue_length
      split: if_splits sum.splits option.splits)

lemma hub_ok_Request:
  assumes "hub_ok h" and "hub_conns h c = None" and "h' = h\<lparr>hub_conns := (hub_conns h)(c \<mapsto> new_client d v caps)\<rparr>"
  shows "hub_ok h'"
  unfolding hub_ok_def
proof (intro conjI allI impI)
  fix e i assume "hub_clients h' e = Some i"
  then show "\<exists>x. hub_conns h' i = Some x \<and> cl_device x = e \<and> registered_phase (cl_phase x)"
    using hub_okD(1) [OF assms(1), of e i] assms(2,3) by (cases "i = c") auto
next
  fix i z assume z: "hub_conns h' i = Some z \<and> registered_phase (cl_phase z) \<and> \<not> cl_cancelled z"
  then have "hub_conns h i = Some z" using assms(3) by (cases "i = c") (auto simp: new_client_def)
  moreover have "being_replaced h' i e" if "being_replaced h i e" for e
    by (rule being_replaced_keep [OF that]) (use assms(2,3) in auto)
  ultimately show "hub_clients h' (cl_device z) = Some i \<or> being_replaced h' i (cl_device z)"
    using z hub_okD(2) [OF assms(1), of i z] assms(3) by fastforce
next
  fix i z assume "hub_conns h' i = Some z"
  then show "length (cl_send z) \<le> sendBuffer"
    using hub_okD(3) [OF assms(1), of i] assms(3) by (cases "i = c") (auto simp: new_client_def)
qed

lemma hub_ok_Register:
  assumes "hub_ok h" and "hub_conns h c = Some x" and "cl_phase x = Connecting" and "conn_step (Register c0) c x h = Some h'"
  shows "hub_ok h'"
proof -
  let ?y = "x\<lparr>cl_phase := Replacing (hub_clients h (cl_device x))\<rparr>"
  have h': "hub_clients h' = (hub_clients h)(cl_device x \<mapsto> c)" "hub_conns h' = (hub_conns h)(c \<mapsto> ?y)"
    using assms by auto
  show ?thesis
    unfolding hub_ok_def
  proof (intro conjI allI impI)
    fix d i assume "hub_clients h' d = Some i"
    then show "\<exists>z. hub_conns h' i = Some z \<and> cl_device z = d \<and> registered_phase (cl_phase z)"
      using hub_okD(1) [OF assms(1), of d i] h' assms(2,3) by (cases "d = cl_device x"; cases "i = c") auto
  next
    fix i z assume z: "hub_conns h' i = Some z \<and> registered_phase (cl_phase z) \<and> \<not> cl_cancelled z"
    show "hub_clients h' (cl_device z) = Some i \<or> being_replaced h' i (cl_device z)"
    proof (cases "i = c")
      case True
      then show ?thesis using z h' by auto
    next
      case False
      then have z0: "hub_conns h i = Some z" using z h' by simp
      have replaced: "being_replaced h' i e" if "being_replaced h i e" for e
        by (rule being_replaced_keep [OF that]) (use assms(2,3) h' in auto)
      consider "hub_clients h (cl_device z) = Some i" "cl_device z = cl_device x" | "hub_clients h (cl_device z) = Some i" "cl_device z \<noteq> cl_device x"
        | "being_replaced h i (cl_device z)"
        using hub_okD(2) [OF assms(1) z0] z by blast
      then show ?thesis
      proof cases
        case 1
        then show ?thesis using h' unfolding being_replaced_def by (intro disjI2 exI [of _ c] exI [of _ ?y]) simp
      next
        case 2
        then show ?thesis using h' by simp
      next
        case 3
        then show ?thesis using replaced by blast
      qed
    qed
  next
    fix i z assume "hub_conns h' i = Some z"
    then show "length (cl_send z) \<le> sendBuffer"
      using hub_okD(3) [OF assms(1), of i] hub_okD(3) [OF assms(1,2)] h' by (cases "i = c") auto
  qed
qed

lemma hub_ok_CancelPrevious:
  assumes "hub_ok h" and "hub_conns h c = Some x" and "cl_phase x = Replacing prev" and "conn_step (CancelPrevious c0) c x h = Some h'"
  shows "hub_ok h'"
proof -
  have clients: "hub_clients h' = hub_clients h" using assms(3,4) by (auto split: option.splits)
  have conns: "hub_conns h' i = (case hub_conns h i of None \<Rightarrow> None | Some z \<Rightarrow>
      let z' = if prev = Some i then z\<lparr>cl_cancelled := True\<rparr> else z
      in Some (if i = c then z'\<lparr>cl_phase := Announcing, cl_writer := Starting\<rparr> else z'))" for i
    using assms(2,3,4) by (auto simp: Let_def split: option.splits)
  show ?thesis
    unfolding hub_ok_def
  proof (intro conjI allI impI)
    fix d i assume "hub_clients h' d = Some i"
    then show "\<exists>z. hub_conns h' i = Some z \<and> cl_device z = d \<and> registered_phase (cl_phase z)"
      using hub_okD(1) [OF assms(1), of d i] by (auto simp: clients conns Let_def)
  next
    fix i z assume z: "hub_conns h' i = Some z \<and> registered_phase (cl_phase z) \<and> \<not> cl_cancelled z"
    then have not_prev: "prev \<noteq> Some i" by (auto simp: conns Let_def split: option.splits if_splits)
    obtain z0 where z0: "hub_conns h i = Some z0" "cl_device z0 = cl_device z" "registered_phase (cl_phase z0)" "\<not> cl_cancelled z0"
      using z assms(2,3) by (auto simp: conns Let_def split: option.splits if_splits)
    have "being_replaced h' i e" if w: "being_replaced h i e" for e
    proof (rule being_replaced_keep [OF w])
      fix c' w assume w: "hub_conns h c' = Some w" "cl_phase w = Replacing (Some i)"
      have "c' \<noteq> c" using w assms(2,3) not_prev by auto
      then show "\<exists>v. hub_conns h' c' = Some v \<and> cl_device v = cl_device w \<and> cl_phase v = cl_phase w"
        using w by (simp add: conns Let_def)
    qed
    then show "hub_clients h' (cl_device z) = Some i \<or> being_replaced h' i (cl_device z)"
      using hub_okD(2) [OF assms(1) z0(1,3,4)] z0(2) by (auto simp: clients)
  next
    fix i z assume "hub_conns h' i = Some z"
    then show "length (cl_send z) \<le> sendBuffer"
      using hub_okD(3) [OF assms(1), of i] by (auto simp: conns Let_def split: option.splits if_splits)
  qed
qed

lemma hub_ok_Unregister:
  assumes "hub_ok h" and "hub_conns h c = Some x" and "cl_phase x = Closing" and "conn_step (Unregister c0) c x h = Some h'"
  shows "hub_ok h'"
proof -
  obtain y where y: "hub_conns h' = (hub_conns h)(c \<mapsto> y)" "cl_device y = cl_device x" "cl_cancelled y" "cl_send y = cl_send x"
    using assms by (auto split: if_splits)
  have clients: "hub_clients h' d = (if d = cl_device x \<and> hub_clients h d = Some c then None else hub_clients h d)" for d
    using assms by (auto split: if_splits)
  show ?thesis
    unfolding hub_ok_def
  proof (intro conjI allI impI)
    fix d i assume "hub_clients h' d = Some i"
    then show "\<exists>z. hub_conns h' i = Some z \<and> cl_device z = d \<and> registered_phase (cl_phase z)"
      using hub_okD(1) [OF assms(1), of d i] assms(2) y by (cases "i = c") (auto simp: clients split: if_splits)
  next
    fix i z assume z: "hub_conns h' i = Some z \<and> registered_phase (cl_phase z) \<and> \<not> cl_cancelled z"
    then have z0: "hub_conns h i = Some z" "i \<noteq> c" using y by (auto split: if_splits)
    have "being_replaced h' i e" if "being_replaced h i e" for e
      by (rule being_replaced_keep [OF that]) (use assms(2,3) y in auto)
    then show "hub_clients h' (cl_device z) = Some i \<or> being_replaced h' i (cl_device z)"
      using hub_okD(2) [OF assms(1) z0(1)] z z0(2) by (auto simp: clients)
  next
    fix i z assume "hub_conns h' i = Some z"
    then show "length (cl_send z) \<le> sendBuffer"
      using hub_okD(3) [OF assms(1), of i] hub_okD(3) [OF assms(1,2)] y by (cases "i = c") auto
  qed
qed

definition keeps_place :: "client \<Rightarrow> client \<Rightarrow> bool" where
  "keeps_place x y \<longleftrightarrow> cl_device y = cl_device x \<and>
     (length (cl_send x) \<le> sendBuffer \<longrightarrow> length (cl_send y) \<le> sendBuffer) \<and>
     (registered_phase (cl_phase x) \<longrightarrow> registered_phase (cl_phase y)) \<and>
     (registered_phase (cl_phase y) \<and> \<not> cl_cancelled y \<longrightarrow> registered_phase (cl_phase x) \<and> \<not> cl_cancelled x) \<and>
     (\<forall>p. cl_phase x = Replacing p \<longrightarrow> cl_phase y = Replacing p)"

lemma hub_ok_keeps_place:
  assumes "hub_ok h" and "hub_conns h c = Some x" and "keeps_place x y"
    and "hub_clients h' = hub_clients h" and "hub_conns h' = (hub_conns h)(c \<mapsto> y)"
  shows "hub_ok h'"
proof (rule hub_ok_keep [OF assms(1,2) _ _ _ _ _ assms(4,5)])
  show "length (cl_send y) \<le> sendBuffer" using hub_okD(3) [OF assms(1,2)] assms(3) by (simp add: keeps_place_def)
  show "registered_phase (cl_phase y)" if "hub_clients h (cl_device x) = Some c"
    using hub_okD(1) [OF assms(1) that] assms(2,3) by (auto simp: keeps_place_def)
qed (use assms(3) in \<open>simp_all add: keeps_place_def\<close>)

lemma keeps_place_Receive:
  "cl_phase x = Serving \<Longrightarrow> handle_message now m db x = (db', y) \<Longrightarrow> keeps_place x y"
  using handle_message_keeps [of now m db x db' y] by (auto simp: keeps_place_def)

lemma conn_step_keeps_place:
  assumes "conn_step e c x h = Some h'" and "hub_conns h c = Some x"
  shows "(\<exists>c0. e = Register c0 \<and> cl_phase x = Connecting) \<or> (\<exists>c0 p. e = CancelPrevious c0 \<and> cl_phase x = Replacing p) \<or>
    (\<exists>c0. e = Unregister c0 \<and> cl_phase x = Closing) \<or>
    hub_clients h' = hub_clients h \<and> (\<exists>y. hub_conns h' = (hub_conns h)(c \<mapsto> y) \<and> keeps_place x y)"
proof (cases e)
  case (Connect c0 now)
  then show ?thesis using assms by (auto simp: keeps_place_def split: if_splits sum.splits)
next
  case (Register c0)
  then show ?thesis using assms by (auto split: if_splits)
next
  case (CancelPrevious c0)
  then show ?thesis using assms by (auto split: Phase.splits)
next
  case (Announce c0)
  define y where "y = (case enqueue (cl_send x) (connected_message (cl_capabilities x)) of
      None \<Rightarrow> closing x | Some q \<Rightarrow> x\<lparr>cl_phase := Serving, cl_send := q\<rparr>)"
  have "hub_clients h' = hub_clients h \<and> hub_conns h' = (hub_conns h)(c \<mapsto> y) \<and> cl_phase x = Announcing"
    using assms Announce by (auto simp: y_def split: if_splits)
  moreover from this have "keeps_place x y"
    by (auto simp: keeps_place_def y_def closing_def dest: enqueue_length split: option.splits)
  ultimately show ?thesis by blast
next
  case (Receive c0 now m)
  obtain db y where y: "handle_message now m (hub_db h) x = (db, y)" by fastforce
  then have "hub_clients h' = hub_clients h \<and> hub_conns h' = (hub_conns h)(c \<mapsto> y) \<and> keeps_place x y"
    using assms Receive keeps_place_Receive [OF _ y] by (auto split: if_splits)
  then show ?thesis by blast
next
  case (WriterStart c0)
  then show ?thesis using assms sendNotifications_length [of x "hub_db h"] by (auto simp: keeps_place_def split: if_splits)
next
  case (WriterPoll c0)
  then show ?thesis using assms sendNotifications_length [of x "hub_db h"] by (auto simp: keeps_place_def split: if_splits)
next
  case (WriterSend c0 success)
  then show ?thesis using assms by (auto simp: keeps_place_def split: if_splits list.splits)
qed (use assms in \<open>auto simp: keeps_place_def closing_def split: if_splits\<close>)

lemma hub_ok_cong: "hub_ok h \<Longrightarrow> hub_clients h' = hub_clients h \<Longrightarrow> hub_conns h' = hub_conns h \<Longrightarrow> hub_ok h'"
  by (simp add: hub_ok_def being_replaced_def)

lemma hub_step_ok:
  assumes "hub_ok h" and "hub_step e h = Some h'"
  shows "hub_ok h'"
proof (cases "event_conn e")
  case None
  then show ?thesis
  proof (cases e)
    case (Request c authenticate r upgraded)
    then show ?thesis
      using assms hub_ok_Request [OF assms(1), of c h'] by (auto split: if_splits sum.splits prod.splits)
  qed (use assms hub_ok_cong [OF assms(1)] in auto)
next
  case (Some c)
  then obtain x where x: "hub_conns h c = Some x" "conn_step e c x h = Some h'"
    using assms(2) by (cases e) (auto split: option.splits)
  consider c0 where "e = Register c0" "cl_phase x = Connecting" | c0 p where "e = CancelPrevious c0" "cl_phase x = Replacing p"
    | c0 where "e = Unregister c0" "cl_phase x = Closing"
    | y where "hub_clients h' = hub_clients h" "hub_conns h' = (hub_conns h)(c \<mapsto> y)" "keeps_place x y"
    using conn_step_keeps_place [OF x(2,1)] by blast
  then show ?thesis
  proof cases
    case 1
    then show ?thesis using hub_ok_Register [OF assms(1) x(1)] x(2) by simp
  next
    case 2
    then show ?thesis using hub_ok_CancelPrevious [OF assms(1) x(1)] x(2) by simp
  next
    case 3
    then show ?thesis using hub_ok_Unregister [OF assms(1) x(1)] x(2) by simp
  next
    case 4
    then show ?thesis using hub_ok_keeps_place [OF assms(1) x(1)] by simp
  qed
qed

lemma hub_run_ok: "hub_run es h = Some h' \<Longrightarrow> hub_ok h \<Longrightarrow> hub_ok h'"
  by (induction es arbitrary: h) (auto intro: hub_step_ok split: option.splits)

text \<open>
  C22. A device has at most one live connection: whatever requests, handlers, writers and clients
  have done in whatever order, of any two handlers of one device that are between \<open>register\<close> and
  \<open>unregister\<close> - those that are on their way to their deferred end included - one has had its
  context cancelled, or a handler of that device has taken its place in the map and its next step
  cancels it. A handler of which neither holds is the one the map has for the device. And no queue
  to a writer holds more than its 32 messages.
\<close>

theorem one_live_connection:
  assumes "hub_run es (NewHub db) = Some h" and "hub_conns h c = Some x"
  shows "length (cl_send x) \<le> 32 \<and>
    (registered_phase (cl_phase x) \<longrightarrow>
       (cl_cancelled x \<or> being_replaced h c (cl_device x) \<or> hub_clients h (cl_device x) = Some c) \<and>
       (\<forall>d y. hub_conns h d = Some y \<and> d \<noteq> c \<and> cl_device y = cl_device x \<and> registered_phase (cl_phase y) \<longrightarrow>
          (cl_cancelled x \<or> being_replaced h c (cl_device x)) \<or> (cl_cancelled y \<or> being_replaced h d (cl_device y))))"
proof -
  have ok: "hub_ok h" using hub_run_ok [OF assms(1) NewHub_ok] .
  have mapped: "hub_clients h (cl_device z) = Some i"
    if "hub_conns h i = Some z" "registered_phase (cl_phase z)" "\<not> (cl_cancelled z \<or> being_replaced h i (cl_device z))" for i z
    using hub_okD(2) [OF ok that(1,2)] that(3) by blast
  have "(cl_cancelled x \<or> being_replaced h c (cl_device x)) \<or> (cl_cancelled y \<or> being_replaced h d (cl_device y))"
    if "registered_phase (cl_phase x)" and y: "hub_conns h d = Some y" "d \<noteq> c" "cl_device y = cl_device x" "registered_phase (cl_phase y)" for d y
  proof (rule ccontr)
    assume "\<not> ((cl_cancelled x \<or> being_replaced h c (cl_device x)) \<or> (cl_cancelled y \<or> being_replaced h d (cl_device y)))"
    then have "hub_clients h (cl_device x) = Some c" "hub_clients h (cl_device y) = Some d"
      using mapped [OF assms(2) that(1)] mapped [OF y(1,4)] by blast+
    then show False using y(2,3) by simp
  qed
  moreover have "length (cl_send x) \<le> 32" using hub_okD(3) [OF ok assms(2)] by (simp add: sendBuffer_def)
  ultimately show ?thesis using mapped [OF assms(2)] by blast
qed

text \<open>The handler that has taken another's place cancels it with its next step.\<close>

lemma replacing_cancels:
  assumes "hub_conns h i = Some z" and "cl_phase z = Replacing (Some c)" and "hub_conns h c = Some x"
  shows "\<exists>h' x'. hub_step (CancelPrevious i) h = Some h' \<and> hub_conns h' c = Some x' \<and> cl_cancelled x'"
  using assms by (cases "c = i") auto

section \<open>Delivery of notifications\<close>

lemma enqueue_all_room:
  "length q + length ms \<le> sendBuffer \<Longrightarrow> enqueue_all q ms = (q @ ms, True)"
  by (induction ms arbitrary: q) (simp_all add: enqueue_def)

lemma enqueue_all_full:
  "length q \<le> sendBuffer \<Longrightarrow> sendBuffer < length q + length ms \<Longrightarrow> \<exists>q'. enqueue_all q ms = (q', False)"
proof (induction ms arbitrary: q)
  case Nil
  then show ?case by simp
qed (auto simp: enqueue_def)

lemma writer_flushes:
  assumes "hub_conns h c = Some x" and "cl_writer x = Running" and "\<not> cl_cancelled x"
  shows "\<exists>h'. hub_run (replicate (length (cl_send x)) (WriterSend c True)) h = Some h' \<and>
     hub_conns h' c = Some (x\<lparr>cl_send := [], cl_wire := cl_wire x @ cl_send x\<rparr>)"
  using assms
proof (induction "length (cl_send x)" arbitrary: x h)
  case 0
  then show ?case by simp
next
  case (Suc n)
  then obtain m q where q: "cl_send x = m # q" by (cases "cl_send x") auto
  let ?x = "x\<lparr>cl_send := q, cl_wire := cl_wire x @ [m]\<rparr>"
  obtain h1 where h1: "hub_step (WriterSend c True) h = Some h1" "hub_conns h1 c = Some ?x"
    using Suc.prems q by simp
  obtain h' where "hub_run (replicate (length q) (WriterSend c True)) h1 = Some h'"
      "hub_conns h' c = Some (?x\<lparr>cl_send := [], cl_wire := cl_wire ?x @ q\<rparr>)"
    using Suc.hyps(1) [of ?x h1] Suc.hyps(2) Suc.prems h1(2) q by auto
  then show ?case using h1(1) q by (intro exI [of _ h']) simp
qed

text \<open>
  C23. What is pending reaches the device: when the writer of a connection starts, the device is
  still trusted, and the queue has room for the notifications that are pending, then the writer
  queues them all, and as many successful writes as there are messages put the queue and, after it,
  every pending notification in the order of their creation on the wire.
\<close>

theorem notifications_delivered:
  assumes "hub_conns h c = Some x" and "cl_writer x = Starting" and "\<not> cl_cancelled x"
    and "device_available (hub_db h) (cl_device x)"
    and "length (cl_send x) + length (pending (hub_db h) (cl_device x)) \<le> 32"
  shows "\<exists>h' y. hub_run (WriterStart c # replicate (length (cl_send x) + length (pending (hub_db h) (cl_device x))) (WriterSend c True)) h = Some h' \<and>
    hub_conns h' c = Some y \<and> cl_send y = [] \<and>
    cl_wire y = cl_wire x @ cl_send x @ map (notification_message \<circ> notification_of)
      (SliceStable (\<lambda>m n. nt_created_at m < nt_created_at n) (pending (hub_db h) (cl_device x)))"
proof -
  let ?ns = "SliceStable (\<lambda>m n. nt_created_at m < nt_created_at n) (pending (hub_db h) (cl_device x))"
  let ?ms = "map (notification_message \<circ> notification_of) ?ns"
  let ?x = "x\<lparr>cl_send := cl_send x @ ?ms, cl_writer := Running\<rparr>"
  have "PendingNotifications (hub_db h) (cl_device x) = Inr (map notification_of ?ns)"
    using assms(4,5) by (simp add: PendingNotifications_def)
  moreover have "enqueue_all (cl_send x) ?ms = (cl_send x @ ?ms, True)"
    using assms(5) by (intro enqueue_all_room) (simp add: sendBuffer_def)
  ultimately have "sendNotifications (hub_db h) x = ?x" using assms(3) by (simp add: sendNotifications_def)
  then obtain h1 where h1: "hub_step (WriterStart c) h = Some h1" "hub_conns h1 c = Some ?x" using assms(1,2) by simp
  have "length (cl_send ?x) = length (cl_send x) + length (pending (hub_db h) (cl_device x))" by simp
  then obtain h' where "hub_run (replicate (length (cl_send x) + length (pending (hub_db h) (cl_device x))) (WriterSend c True)) h1 = Some h'"
      "hub_conns h' c = Some (?x\<lparr>cl_send := [], cl_wire := cl_wire ?x @ cl_send ?x\<rparr>)"
    using writer_flushes [OF h1(2)] assms(3) by auto
  then show ?thesis using h1(1) by (intro exI [of _ h'] exI) auto
qed

section \<open>A backlog is never delivered\<close>

text \<open>A client acknowledges only notifications it has received on the connection.\<close>

fun honest :: "hub_event \<Rightarrow> Hub \<Rightarrow> bool" where
  "honest (Receive c now m) h \<longleftrightarrow> ms_Type m \<noteq> ''notification_ack'' \<or>
     (case hub_conns h c of
        None \<Rightarrow> True
      | Some x \<Rightarrow> list_ex (\<lambda>w. case ms_Notification w of None \<Rightarrow> False | Some n \<Rightarrow> no_ID n = ms_NotificationID m) (cl_wire x))"
| "honest e h \<longleftrightarrow> True"

fun honest_run :: "hub_event list \<Rightarrow> Hub \<Rightarrow> bool" where
  "honest_run [] h \<longleftrightarrow> True"
| "honest_run (e # es) h \<longleftrightarrow> honest e h \<and> (case hub_step e h of None \<Rightarrow> True | Some h' \<Rightarrow> honest_run es h')"

definition starved :: "string \<Rightarrow> Hub \<Rightarrow> bool" where
  "starved d h \<longleftrightarrow> sendBuffer < length (pending (hub_db h) d) \<and> hub_ok h \<and>
     (\<forall>c x. hub_conns h c = Some x \<and> cl_device x = d \<longrightarrow> cl_wire x = [] \<and> cl_writer x \<noteq> Running)"

lemma sendNotifications_starved:
  assumes "sendBuffer < length (pending db (cl_device x))" and "length (cl_send x) \<le> sendBuffer"
  shows "cl_writer (sendNotifications db x) = Stopped"
proof -
  let ?ns = "take 100 (SliceStable (\<lambda>m n. nt_created_at m < nt_created_at n) (pending db (cl_device x)))"
  have "sendBuffer < length (cl_send x) + length (map notification_message (map notification_of ?ns))"
    using assms(1) by (simp add: sendBuffer_def)
  from enqueue_all_full [OF assms(2) this] show ?thesis
    by (auto simp: sendNotifications_def PendingNotifications_def simp del: map_map split: if_splits)
qed

text \<open>The tables after a message: only an acknowledgment takes pending notifications away.\<close>

lemma pending_other_tables:
  "pending (db\<lparr>ddb_connections := cs\<rparr>) d = pending db d" "pending (db\<lparr>ddb_devices := ds\<rparr>) d = pending db d"
  by (simp_all add: pending_def)

lemma ConnectDevice_pending: "ConnectDevice e at p v db = Inr db' \<Longrightarrow> pending db' d = pending db d"
  by (auto simp: ConnectDevice_def pending_other_tables split: if_splits)

lemma DisconnectDevice_pending: "pending (DisconnectDevice e at db) d = pending db d"
  by (simp add: DisconnectDevice_def pending_other_tables)

lemma filter_update_where:
  "(\<And>r. hit r \<Longrightarrow> \<not> P r \<and> \<not> P (f r)) \<Longrightarrow> filter P (update_where hit f rs) = filter P rs"
  by (induction rs) auto

lemma pending_ack_other:
  assumes "e \<noteq> d" and "AcknowledgeNotification e i at db = Inr db'"
  shows "pending db' d = pending db d"
proof -
  let ?hit = "\<lambda>n. nt_id n = i \<and> nt_device n = e \<and> nt_acknowledged_at n = None"
  have "db' = db\<lparr>pdb_notifications := update_where ?hit (\<lambda>n. n\<lparr>nt_acknowledged_at := Some at\<rparr>) (pdb_notifications db)\<rparr>"
    using assms(2) by (auto simp: AcknowledgeNotification_def Let_def split: if_splits)
  then show ?thesis using assms(1) by (simp add: pending_def) (rule filter_update_where, auto)
qed

lemma HeartbeatDevice_pending: "HeartbeatDevice e at db = Inr db' \<Longrightarrow> pending db' d = pending db d"
  by (auto simp: HeartbeatDevice_def Let_def pending_other_tables split: if_splits)

lemma handle_message_pending:
  assumes "handle_message now m db x = (db', y)" and "ms_Type m \<noteq> ''notification_ack'' \<or> cl_device x \<noteq> d"
  shows "pending db' d = pending db d"
  using assms HeartbeatDevice_pending pending_ack_other
  by (auto simp: handle_message_def split: if_splits sum.splits option.splits)

text \<open>A step of a connection keeps a starved device starved.\<close>

definition hungry :: "client \<Rightarrow> bool" where
  "hungry x \<longleftrightarrow> cl_wire x = [] \<and> cl_writer x \<noteq> Running"

lemma starvedD:
  assumes "starved d h"
  shows "sendBuffer < length (pending (hub_db h) d)" and "hub_ok h"
    and "hub_conns h c = Some x \<Longrightarrow> cl_device x = d \<Longrightarrow> hungry x"
  using assms by (simp_all add: starved_def hungry_def)

lemma hungry_simps [simp]:
  "hungry (x\<lparr>cl_phase := p\<rparr>) = hungry x" "hungry (x\<lparr>cl_send := q\<rparr>) = hungry x" "hungry (x\<lparr>cl_cancelled := b\<rparr>) = hungry x"
  "hungry (closing x) = hungry x" "cl_device (closing x) = cl_device x"
  "hungry (x\<lparr>cl_phase := p, cl_writer := Starting\<rparr>) \<longleftrightarrow> cl_wire x = []"
  by (simp_all add: hungry_def closing_def)

lemma hungry_conn_step:
  assumes "conn_step e c x h = Some h'" and "hub_conns h c = Some x" and "honest e h" and "event_conn e = Some c"
    and "hub_ok h" and "sendBuffer < length (pending (hub_db h) d)"
    and hungry: "\<And>i z. hub_conns h i = Some z \<Longrightarrow> cl_device z = d \<Longrightarrow> hungry z"
  shows "pending (hub_db h') d = pending (hub_db h) d \<and>
    (\<forall>i z. hub_conns h' i = Some z \<and> cl_device z = d \<longrightarrow> hungry z)"
proof (cases e)
  case (Connect c0 now)
  then show ?thesis using assms ConnectDevice_pending by (auto split: if_splits sum.splits)
next
  case (CancelPrevious c0)
  then show ?thesis using assms(1,2) hungry
    by (auto simp: hungry_def split: Phase.splits option.splits if_splits)
next
  case (Announce c0)
  then show ?thesis using assms(1,2) hungry by (auto split: if_splits option.splits)
next
  case (Receive c0 now m)
  obtain db y where y: "handle_message now m (hub_db h) x = (db, y)" by fastforce
  have "c0 = c" using assms(4) Receive by simp
  have "ms_Type m \<noteq> ''notification_ack'' \<or> cl_device x \<noteq> d"
    using hungry [OF assms(2)] assms(2,3) Receive \<open>c0 = c\<close> by (auto simp: hungry_def)
  then have "pending db d = pending (hub_db h) d" by (rule handle_message_pending [OF y])
  moreover have "hungry y" if "cl_device y = d"
    using hungry [OF assms(2)] that handle_message_keeps(1,3,4) [OF y] by (simp add: hungry_def)
  ultimately show ?thesis using assms(1,2) Receive hungry y by (auto split: if_splits)
next
  case (Disconnect c0 now)
  then show ?thesis using assms(1,2) hungry by (auto simp: DisconnectDevice_pending split: if_splits)
next
  case (WriterStart c0)
  then show ?thesis using assms(1,2,6) hungry sendNotifications_starved hub_okD(3) [OF assms(5,2)]
    by (auto simp: hungry_def split: if_splits)
next
  case (WriterPoll c0)
  then show ?thesis using assms(1,2,6) hungry sendNotifications_starved hub_okD(3) [OF assms(5,2)]
    by (auto simp: hungry_def split: if_splits)
next
  case (WriterSend c0 success)
  then show ?thesis using assms(1,2) hungry by (auto simp: hungry_def split: if_splits list.splits)
next
  case (WriterPing c0 success)
  then show ?thesis using assms(1,2) hungry by (auto simp: hungry_def split: if_splits)
next
  case (WriterDone c0)
  then show ?thesis using assms(1,2) hungry by (auto simp: hungry_def split: if_splits)
qed (use assms(1,2) hungry in \<open>auto split: if_splits\<close>)

lemma starved_hub_step:
  assumes "starved d h" and "hub_step e h = Some h'" and "honest e h"
  shows "starved d h'"
proof -
  note old = starvedD [OF assms(1)]
  have "sendBuffer < length (pending (hub_db h') d) \<and> (\<forall>i z. hub_conns h' i = Some z \<and> cl_device z = d \<longrightarrow> hungry z)"
  proof (cases "event_conn e")
    case None
    then show ?thesis
    proof (cases e)
      case (Request c authenticate r upgraded)
      then show ?thesis using assms(2) old by (auto simp: new_client_def hungry_def split: if_splits sum.splits prod.splits)
    next
      case (Notify n)
      then show ?thesis using assms(2) old by (auto simp: pending_def)
    next
      case (SetDevices ds)
      then show ?thesis using assms(2) old by (auto simp: pending_other_tables)
    qed simp_all
  next
    case (Some c)
    then obtain x where x: "hub_conns h c = Some x" "conn_step e c x h = Some h'"
      using assms(2) by (cases e) (auto split: option.splits)
    have step: "pending (hub_db h') d = pending (hub_db h) d \<and> (\<forall>i z. hub_conns h' i = Some z \<and> cl_device z = d \<longrightarrow> hungry z)"
      by (rule hungry_conn_step [OF x(2,1) assms(3) Some old(2,1)]) (rule old(3))
    show ?thesis by (rule conjI [OF _ conjunct2 [OF step]]) (use old(1) conjunct1 [OF step] in simp)
  qed
  then show ?thesis using hub_step_ok [OF old(2) assms(2)] unfolding starved_def hungry_def by blast
qed

lemma starved_hub_run:
  "starved d h \<Longrightarrow> hub_run es h = Some h' \<Longrightarrow> honest_run es h \<Longrightarrow> starved d h'"
  by (induction es arbitrary: h) (auto intro: starved_hub_step split: option.splits)

text \<open>
  A device with more than 32 pending notifications never receives anything again: however often
  its clients connect, whatever they send, as long as they acknowledge only what they have received,
  and whatever else happens, no connection of the device ever carries a message, not even the
  \<open>connected\<close> one, and the notifications stay pending. The writer queues all pending notifications
  before it writes the first, and gives up when the queue of 32 is full.
\<close>

theorem backlog_never_delivered:
  assumes "32 < length (pending db d)" and "hub_run es (NewHub db) = Some h" and "honest_run es (NewHub db)"
  shows "32 < length (pending (hub_db h) d) \<and> (\<nexists>c x. hub_conns h c = Some x \<and> cl_device x = d \<and> cl_wire x \<noteq> [])"
proof -
  have "starved d (NewHub db)" using assms(1) NewHub_ok by (simp add: starved_def NewHub_def sendBuffer_def)
  then have "starved d h" by (rule starved_hub_run [OF _ assms(2,3)])
  then show ?thesis by (auto simp: starved_def sendBuffer_def)
qed

section \<open>A late disconnect\<close>

text \<open>
  The row of a connected device may be closed by the handler of its previous connection: when
  the device connects again after the old handler has left the map of clients and before it has
  called \<open>DisconnectDevice\<close>, that call closes the row the new connection has just opened. The new
  connection is registered and read from, but every row of the device says it is disconnected, and
  the first heartbeat ends the connection.
\<close>

theorem late_disconnect_drops_connection:
  assumes "hub_conns h c = Some x" and "cl_phase x = Unregistered" and "hub_clients h (cl_device x) = None"
    and "hub_conns h c' = Some (new_client (cl_device x) v caps)" and "device_available (hub_db h) (cl_device x)"
  shows "\<exists>h1 y h2 z. hub_run [Connect c' t1, Register c', CancelPrevious c', Announce c', Disconnect c t2] h = Some h1 \<and>
    hub_clients h1 (cl_device x) = Some c' \<and> hub_conns h1 c' = Some y \<and> cl_phase y = Serving \<and> \<not> cl_cancelled y \<and>
    list_all (\<lambda>r. cn_device r \<noteq> cl_device x \<or> cn_disconnected_at r \<noteq> None) (ddb_connections (hub_db h1)) \<and>
    hub_step (Receive c' t3 (plain_message ''heartbeat'')) h1 = Some h2 \<and> hub_conns h2 c' = Some z \<and> cl_phase z = Closing"
proof -
  let ?d = "cl_device x"
  have "cl_phase (new_client ?d v caps) = Accepted" by (simp add: new_client_def)
  then have "c' \<noteq> c" using assms(1,2,4) by auto
  obtain db where db: "ConnectDevice ?d t1 ProtocolVersion v (hub_db h) = Inr db"
    using assms(5) by (cases "ConnectDevice ?d t1 ProtocolVersion v (hub_db h)") (auto simp: ConnectDevice_def split: if_splits)
  let ?db = "DisconnectDevice ?d t2 db"
  have gone: "list_all (\<lambda>r. cn_device r \<noteq> ?d \<or> cn_disconnected_at r \<noteq> None) (ddb_connections ?db)"
    by (auto simp: DisconnectDevice_def intro!: list_all_update_whereI)
  then have beat: "HeartbeatDevice ?d t3 ?db = Inl ErrNotFound"
    by (auto simp: HeartbeatDevice_def Let_def list_all_iff list_ex_iff)
  obtain q where q: "enqueue [] (connected_message caps) = Some q" by (simp add: enqueue_def sendBuffer_def)
  let ?y = "(new_client ?d v caps)\<lparr>cl_phase := Serving, cl_writer := Starting, cl_send := q\<rparr>"
  obtain h1 where h1: "hub_run [Connect c' t1, Register c', CancelPrevious c', Announce c', Disconnect c t2] h = Some h1"
      "hub_clients h1 ?d = Some c'" "hub_conns h1 c' = Some ?y" "hub_db h1 = ?db"
    using assms \<open>c' \<noteq> c\<close> db q by (simp add: new_client_def)
  have "handle_message t3 (plain_message ''heartbeat'') ?db ?y = (?db, closing ?y)"
    using beat by (simp add: handle_message_def plain_message_def new_client_def)
  then obtain h2 where "hub_step (Receive c' t3 (plain_message ''heartbeat'')) h1 = Some h2" "hub_conns h2 c' = Some (closing ?y)"
    using h1(3,4) by simp
  then show ?thesis using h1 gone
    by (intro exI [of _ h1] exI [of _ ?y] exI [of _ h2] exI [of _ "closing ?y"]) (simp add: closing_def new_client_def)
qed

text \<open>
  A notification is sent again at every poll until it is acknowledged; the second acknowledgment
  fails, which ends the connection.
\<close>

lemma acknowledged_once:
  assumes "AcknowledgeNotification d i at db = Inr db'"
  shows "AcknowledgeNotification d i at' db' = Inl ErrNotFound"
proof -
  let ?hit = "\<lambda>n. nt_id n = i \<and> nt_device n = d \<and> nt_acknowledged_at n = None"
  have db': "db' = db\<lparr>pdb_notifications := update_where ?hit (\<lambda>n. n\<lparr>nt_acknowledged_at := Some at\<rparr>) (pdb_notifications db)\<rparr>"
    using assms by (auto simp: AcknowledgeNotification_def Let_def split: if_splits)
  have "list_all (\<lambda>n. \<not> ?hit n) (pdb_notifications db')"
    unfolding db' by (auto intro!: list_all_update_whereI)
  then show ?thesis by (auto simp: AcknowledgeNotification_def Let_def list_all_iff list_ex_iff)
qed

section \<open>Examples\<close>

definition presence_sample :: "nat \<Rightarrow> presence_db" where
  "presence_sample n = \<lparr>db_users = [], db_sessions = [],
     ddb_devices = [\<lparr>dr_id = ''d1'', dr_user = ''u1'', dr_name = ''phone'', dr_type = TypeAndroid, dr_trust = TrustTrusted,
       dr_revoked_at = None, dr_created_at = 1\<rparr>],
     ddb_keys = [], ddb_lan = [], ddb_connections = [], ddb_challenges = [], ddb_codes = [], ddb_referenced = [],
     pdb_notifications = replicate n \<lparr>nt_id = ''n'', nt_device = ''d1'', nt_type = ''TRANSFER'', nt_payload = '''',
       nt_created_at = 1, nt_acknowledged_at = None\<rparr>\<rparr>"

definition presence_session :: "string \<Rightarrow> auth_error + Session" where
  "presence_session t = Inr \<lparr>usr_ID = ''u1'', usr_Username = ''user'', usr_Email = '''', usr_Admin = False,
     usr_TOTPEnabled = False, sess_SessionID = ''s1'', sess_DeviceID = Some ''d1'', sess_AdminVerified = False\<rparr>"

definition presence_request :: WSRequest where
  "presence_request = \<lparr>ws_Authorization = ''Bearer t'', ws_Protocol = '''', ws_access_token = '''', ws_protocolVersion = ''1.2'',
     ws_clientVersion = ''web-v1.2'', ws_capabilities = ''''\<rparr>"

lemma sample_admitted: "\<exists>caps. admit presence_session presence_request = Inr (''d1'', caps)"
proof -
  have "SupportedClient ''web-v1.2''" by code_simp
  moreover have "SupportedProtocol ''1.2''" by code_simp
  ultimately show ?thesis
    by (simp add: admit_def presence_session_def presence_request_def)
qed

definition connect_events :: "nat \<Rightarrow> time \<Rightarrow> hub_event list" where
  "connect_events c t = [Request c presence_session presence_request True, Connect c t, Register c, CancelPrevious c, Announce c]"

lemma one_live_connection_witness:
  "case hub_run (connect_events 1 1 @ connect_events 2 2) (NewHub (presence_sample 0)) of
     None \<Rightarrow> False
   | Some h \<Rightarrow> (case (hub_conns h 1, hub_conns h 2) of
       (Some x, Some y) \<Rightarrow>
         ((cl_cancelled x \<or> being_replaced h 1 (cl_device x)) \<or> (cl_cancelled y \<or> being_replaced h 2 (cl_device y))) \<and>
         (cl_cancelled x \<or> being_replaced h 1 (cl_device x) \<or> hub_clients h (cl_device x) = Some 1) \<and>
         length (cl_send x) \<le> 32
     | _ \<Rightarrow> False)"
proof -
  obtain caps where "admit presence_session presence_request = Inr (''d1'', caps)" using sample_admitted by blast
  then obtain h x y where h: "hub_run (connect_events 1 1 @ connect_events 2 2) (NewHub (presence_sample 0)) = Some h"
    and conns: "hub_conns h = [1 \<mapsto> x, 2 \<mapsto> y]" "cl_phase x = Serving" "cl_phase y = Serving" "cl_device x = ''d1''" "cl_device y = ''d1''"
    by (simp add: connect_events_def NewHub_def presence_sample_def device_available_def ConnectDevice_def new_client_def trusted_def connection_row_def
        enqueue_def sendBuffer_def map_upd_Some_unfold fun_upd_twist)
  have "hub_conns h 1 = Some x" and y: "hub_conns h 2 = Some y" "2 \<noteq> (1::nat)" using conns by (auto split: if_splits)
  moreover have "registered_phase (cl_phase x)" "registered_phase (cl_phase y)" using conns by simp_all
  ultimately have "((cl_cancelled x \<or> being_replaced h 1 (cl_device x)) \<or> (cl_cancelled y \<or> being_replaced h 2 (cl_device y))) \<and>
      (cl_cancelled x \<or> being_replaced h 1 (cl_device x) \<or> hub_clients h (cl_device x) = Some 1) \<and> length (cl_send x) \<le> 32"
    using one_live_connection [OF h, of 1 x] conns(4,5) by simp
  then show ?thesis using h conns by simp
qed

lemma notifications_delivered_witness:
  "\<exists>h h' y. hub_run (connect_events 1 1) (NewHub (presence_sample 2)) = Some h \<and>
     hub_run (WriterStart 1 # replicate 3 (WriterSend 1 True)) h = Some h' \<and> hub_conns h' 1 = Some y \<and> length (cl_wire y) = 3"
proof -
  obtain caps where "admit presence_session presence_request = Inr (''d1'', caps)" using sample_admitted by blast
  then obtain h x where h: "hub_run (connect_events 1 1) (NewHub (presence_sample 2)) = Some h" "hub_conns h 1 = Some x"
      "cl_writer x = Starting" "\<not> cl_cancelled x" "cl_device x = ''d1''" "length (cl_send x) = 1" "cl_wire x = []"
      "device_available (hub_db h) ''d1''" "length (pending (hub_db h) ''d1'') = 2"
    by (simp add: connect_events_def NewHub_def presence_sample_def device_available_def ConnectDevice_def new_client_def trusted_def connection_row_def
        enqueue_def sendBuffer_def pending_def)
  from notifications_delivered [OF h(2,3,4), unfolded h(5), OF h(8), unfolded h(6,9)]
  obtain h' y where h': "hub_run (WriterStart 1 # replicate (1 + 2) (WriterSend 1 True)) h = Some h'" "hub_conns h' 1 = Some y"
      "cl_wire y = cl_wire x @ cl_send x @ map (notification_message \<circ> notification_of)
        (SliceStable (\<lambda>m n. nt_created_at m < nt_created_at n) (pending (hub_db h) ''d1''))"
    by auto
  then have "length (cl_wire y) = 3" by (simp add: h)
  then show ?thesis using h(1) h'(1,2) by (intro exI [of _ h] exI [of _ h'] exI [of _ y]) (simp add: eval_nat_numeral)
qed

lemma backlog_never_delivered_witness:
  "\<exists>h. hub_run (connect_events 1 1 @ [WriterStart 1]) (NewHub (presence_sample 33)) = Some h \<and>
     32 < length (pending (hub_db h) ''d1'') \<and> (\<nexists>c x. hub_conns h c = Some x \<and> cl_device x = ''d1'' \<and> cl_wire x \<noteq> [])"
proof -
  obtain caps where "admit presence_session presence_request = Inr (''d1'', caps)" using sample_admitted by blast
  then obtain h where h: "hub_run (connect_events 1 1 @ [WriterStart 1]) (NewHub (presence_sample 33)) = Some h"
    by (simp add: connect_events_def NewHub_def presence_sample_def device_available_def ConnectDevice_def new_client_def trusted_def connection_row_def
        enqueue_def sendBuffer_def)
  have "honest_run (connect_events 1 1 @ [WriterStart 1]) (NewHub (presence_sample 33))"
    by (simp add: connect_events_def split: option.split)
  moreover have "32 < length (pending (presence_sample 33) ''d1'')" by (simp add: presence_sample_def pending_def)
  ultimately show ?thesis using h backlog_never_delivered [OF _ h] by blast
qed

lemma late_disconnect_drops_connection_witness:
  "\<exists>h h1 h2 z. hub_run (connect_events 1 1 @ [ReadFails 1, Unregister 1, Request 2 presence_session presence_request True]) (NewHub (presence_sample 0)) = Some h \<and>
     hub_run [Connect 2 2, Register 2, CancelPrevious 2, Announce 2, Disconnect 1 3] h = Some h1 \<and>
     hub_step (Receive 2 4 (plain_message ''heartbeat'')) h1 = Some h2 \<and> hub_conns h2 2 = Some z \<and> cl_phase z = Closing"
proof -
  obtain caps where "admit presence_session presence_request = Inr (''d1'', caps)" using sample_admitted by blast
  then obtain h x where h: "hub_run (connect_events 1 1 @ [ReadFails 1, Unregister 1, Request 2 presence_session presence_request True])
        (NewHub (presence_sample 0)) = Some h" "hub_conns h 1 = Some x" "cl_phase x = Unregistered" "hub_clients h ''d1'' = None"
      "hub_conns h 2 = Some (new_client ''d1'' ''web-v1.2'' caps)" "device_available (hub_db h) ''d1''" "cl_device x = ''d1''"
    by (simp add: connect_events_def NewHub_def presence_sample_def device_available_def ConnectDevice_def new_client_def trusted_def connection_row_def
        enqueue_def sendBuffer_def closing_def presence_request_def)
  show ?thesis
    using late_disconnect_drops_connection [OF h(2,3), unfolded h(7), OF h(4,5,6), of 2 3 4] h(1) by blast
qed

end
