(* ===== verification/Analytics.thy ===== *)
theory Analytics
  imports Complex_Main "HOL-Library.Sublist" DeviceGroups
begin

text \<open>
  Transfer metrics that devices upload and the statistics over them:
  \<open>internal/analytics/service.go\<close> and its operations in \<open>internal/postgres/store.go\<close>. The tables extend
  those of the groups. Text that the database casts to \<open>uuid\<close> is kept in lower case (\<open>uuid\<close>); an
  average is the exact quotient, before it is rounded to a floating point number.
\<close>

section \<open>Data\<close>

text \<open>\<open>ErrRange\<close> stands for a number that does not fit its column or the variable it is read into.\<close>

datatype analytics_error = ErrInvalid | ErrForbidden | ErrConflict | ErrRange

definition MaximumBatchSize :: nat where "MaximumBatchSize = 500"

record Metric =
  mt_EventID :: string
  mt_TransferID :: string
  mt_SenderDeviceID :: string
  mt_ReceiverDeviceID :: string
  mt_GroupID :: string
  mt_ContentType :: string
  mt_Route :: SelectedRoute
  mt_FileSize :: int
  mt_StartedAt :: time
  mt_CompletedAt :: "time option"
  mt_AverageBytesPerSecond :: int
  mt_RetryCount :: int
  mt_Succeeded :: bool
  mt_ErrorCode :: string

record BatchResult =
  br_Accepted :: nat
  br_Duplicates :: nat

record TimeRange =
  rng_From :: time
  rng_To :: time

record Overview =
  ov_TransferCount :: int
  ov_TotalBytes :: int
  ov_Succeeded :: int
  ov_Failed :: int
  ov_RouteCounts :: "(SelectedRoute \<times> int) list"
  ov_RouteBytes :: "(SelectedRoute \<times> int) list"

record DailyTransfer =
  dt_Date :: string
  dt_Count :: int
  dt_TotalBytes :: int
  dt_LANBytes :: int
  dt_NodeBytes :: int
  dt_Failed :: int

record DeviceStatistic =
  ds_DeviceID :: string
  ds_DisplayName :: string
  ds_DeviceType :: DeviceType
  ds_TrustStatus :: TrustStatus
  ds_Online :: bool
  ds_LastSeenAt :: "time option"
  ds_SentCount :: int
  ds_ReceivedCount :: int
  ds_SentBytes :: int
  ds_ReceivedBytes :: int
  ds_AverageSpeed :: rat

record GroupStatistic =
  gs_GroupID :: string
  gs_Name :: string
  gs_MessageCount :: int
  gs_FileCount :: int
  gs_TransferBytes :: int
  gs_ActiveDevices :: int
  gs_ActiveUsers :: int

record NodeMetric =
  nm_RecordedAt :: time
  nm_CPUPercent :: rat
  nm_MemoryBytes :: int
  nm_DiskBytes :: int
  nm_CacheBytes :: int
  nm_NetworkUploadBytes :: int
  nm_NetworkDownloadBytes :: int
  nm_OnlineDevices :: int
  nm_ActiveTransfers :: int

text \<open>The rows of \<open>transfer_metrics\<close> and the idempotency records of \<open>/api/metrics/batch\<close>.\<close>

record MetricRow =
  mr_event :: string
  mr_transfer :: string
  mr_user :: string
  mr_sender :: string
  mr_receiver :: "string option"
  mr_group :: "string option"
  mr_content :: string
  mr_route :: SelectedRoute
  mr_size :: int
  mr_started :: time
  mr_completed :: "time option"
  mr_speed :: int
  mr_retries :: int
  mr_succeeded :: bool
  mr_error :: string

record BatchRecord =
  bt_device :: string
  bt_key :: string
  bt_hash :: string
  bt_result :: BatchResult

record analytics_db = group_db +
  adb_metrics :: "MetricRow list"
  adb_batches :: "BatchRecord list"
  adb_system :: "NodeMetric list"

section \<open>The service (analytics/service.go)\<close>

definition hex_digit :: "char \<Rightarrow> bool" where
  "hex_digit c \<longleftrightarrow> byte_in CHR ''0'' CHR ''9'' c \<or> byte_in CHR ''a'' CHR ''f'' c \<or> byte_in CHR ''A'' CHR ''F'' c"

definition isUUID :: "string \<Rightarrow> bool" where
  "isUUID v \<longleftrightarrow> length v = 36 \<and>
     list_all (\<lambda>(i, c). if i \<in> {8, 13, 18, 23} then c = CHR ''-'' else hex_digit c) (enumerate 0 v)"

definition validMetric :: "Metric \<Rightarrow> string \<Rightarrow> bool" where
  "validMetric m sender \<longleftrightarrow>
     isUUID (mt_EventID m) \<and> isUUID (mt_TransferID m) \<and> mt_SenderDeviceID m = sender \<and>
     (mt_ReceiverDeviceID m = '''' \<or> isUUID (mt_ReceiverDeviceID m)) \<and>
     (mt_GroupID m = '''' \<or> isUUID (mt_GroupID m)) \<and>
     mt_ContentType m \<noteq> '''' \<and> 0 \<le> mt_FileSize m \<and> 0 \<le> mt_RetryCount m \<and> 0 \<le> mt_AverageBytesPerSecond m \<and>
     \<not> IsZero (mt_StartedAt m) \<and>
     (case mt_CompletedAt m of None \<Rightarrow> True | Some t \<Rightarrow> mt_StartedAt m \<le> t) \<and>
     mt_Route m \<in> {SelectedRouteLAN, SelectedRouteNode, SelectedRouteWaitingLAN}"

definition validRange :: "TimeRange \<Rightarrow> bool" where
  "validRange r \<longleftrightarrow> \<not> IsZero (rng_From r) \<and> \<not> IsZero (rng_To r) \<and> rng_From r < rng_To r \<and>
     rng_To r - rng_From r \<le> 366 * 24 * hour"

section \<open>Upload (postgres/store.go)\<close>

definition uuid :: "string \<Rightarrow> string" where
  "uuid s = map ascii_lower s"

definition uuid_or_null :: "string \<Rightarrow> string option" where
  "uuid_or_null s = (if s = '''' then None else Some (uuid s))"

definition metric_row :: "string \<Rightarrow> Metric \<Rightarrow> MetricRow" where
  "metric_row user m = \<lparr>mr_event = uuid (mt_EventID m), mr_transfer = uuid (mt_TransferID m), mr_user = user,
     mr_sender = uuid (mt_SenderDeviceID m), mr_receiver = uuid_or_null (mt_ReceiverDeviceID m),
     mr_group = uuid_or_null (mt_GroupID m), mr_content = mt_ContentType m, mr_route = mt_Route m,
     mr_size = mt_FileSize m, mr_started = mt_StartedAt m, mr_completed = mt_CompletedAt m,
     mr_speed = mt_AverageBytesPerSecond m, mr_retries = mt_RetryCount m, mr_succeeded = mt_Succeeded m,
     mr_error = mt_ErrorCode m\<rparr>"

definition in32 :: "int \<Rightarrow> bool" where
  "in32 x \<longleftrightarrow> - 2147483648 \<le> x \<and> x \<le> 2147483647"

text \<open>The \<open>SELECT\<close> that feeds the insertion yields a row.\<close>

definition metric_admitted :: "analytics_db \<Rightarrow> string \<Rightarrow> Metric \<Rightarrow> bool" where
  "metric_admitted db user m \<longleftrightarrow>
     list_ex (\<lambda>d. dr_id d = uuid (mt_SenderDeviceID m) \<and> dr_user d = user \<and> trusted d) (ddb_devices db) \<and>
     (case uuid_or_null (mt_ReceiverDeviceID m) of None \<Rightarrow> True | Some r \<Rightarrow> list_ex (\<lambda>d. dr_id d = r) (ddb_devices db)) \<and>
     (case uuid_or_null (mt_GroupID m) of None \<Rightarrow> True
      | Some g \<Rightarrow> list_ex (\<lambda>x. mb_group x = g \<and> mb_user x = user) (gdb_members db))"

definition metric_stored :: "analytics_db \<Rightarrow> string \<Rightarrow> bool" where
  "metric_stored db e \<longleftrightarrow> list_ex (\<lambda>r. mr_event r = e) (adb_metrics db)"

text \<open>One turn of the loop; \<open>retry_count\<close> is a 32-bit column.\<close>

definition insert_metric ::
  "string \<Rightarrow> Metric \<Rightarrow> analytics_db \<times> BatchResult \<Rightarrow> analytics_error + analytics_db \<times> BatchResult"
where
  "insert_metric user m s =
     (case s of (db, result) \<Rightarrow>
        if \<not> in32 (mt_RetryCount m) then Inl ErrRange
        else if metric_admitted db user m \<and> \<not> metric_stored db (uuid (mt_EventID m))
        then Inr (db\<lparr>adb_metrics := adb_metrics db @ [metric_row user m]\<rparr>, result\<lparr>br_Accepted := br_Accepted result + 1\<rparr>)
        else if metric_stored db (uuid (mt_EventID m))
        then Inr (db, result\<lparr>br_Duplicates := br_Duplicates result + 1\<rparr>)
        else Inl ErrForbidden)"

fun insert_all ::
  "string \<Rightarrow> Metric list \<Rightarrow> analytics_db \<times> BatchResult \<Rightarrow> analytics_error + analytics_db \<times> BatchResult"
where
  "insert_all user [] s = Inr s"
| "insert_all user (m # ms) s = bindE (insert_metric user m s) (insert_all user ms)"

text \<open>\<open>key\<close> is the idempotency key of the request, empty for none; it is a \<open>uuid\<close> column.\<close>

definition insertMetrics ::
  "Session \<Rightarrow> string \<Rightarrow> string \<Rightarrow> Metric list \<Rightarrow> analytics_db \<Rightarrow> analytics_error + analytics_db \<times> BatchResult"
where
  "insertMetrics session key fingerprint metrics db =
     (let device = (case sess_DeviceID session of None \<Rightarrow> '''' | Some d \<Rightarrow> d);
          fresh = bindE (insert_all (usr_ID session) metrics (db, \<lparr>br_Accepted = 0, br_Duplicates = 0\<rparr>))
            (\<lambda>(db', result). Inr (if key = '''' then db'
               else db'\<lparr>adb_batches := adb_batches db' @
                 [\<lparr>bt_device = device, bt_key = uuid key, bt_hash = fingerprint, bt_result = result\<rparr>]\<rparr>, result))
      in if key = '''' then fresh
         else case find (\<lambda>b. bt_device b = device \<and> bt_key b = uuid key) (adb_batches db) of
           None \<Rightarrow> fresh
         | Some b \<Rightarrow> if bt_hash b \<noteq> fingerprint then Inl ErrConflict else Inr (db, bt_result b))"

definition InsertMetrics ::
  "Session \<Rightarrow> Metric list \<Rightarrow> analytics_db \<Rightarrow> analytics_error + analytics_db \<times> BatchResult" where
  "InsertMetrics session metrics db = insertMetrics session '''' '''' metrics db"

definition InsertMetricsIdempotent ::
  "Session \<Rightarrow> string \<Rightarrow> string \<Rightarrow> Metric list \<Rightarrow> analytics_db \<Rightarrow> analytics_error + analytics_db \<times> BatchResult" where
  "InsertMetricsIdempotent session key fingerprint metrics db = insertMetrics session key fingerprint metrics db"

definition UploadIdempotent ::
  "Session \<Rightarrow> string \<Rightarrow> string \<Rightarrow> Metric list \<Rightarrow> analytics_db \<Rightarrow> analytics_error + analytics_db \<times> BatchResult"
where
  "UploadIdempotent session key fingerprint metrics db =
     (case sess_DeviceID session of
        None \<Rightarrow> Inl ErrInvalid
      | Some d \<Rightarrow>
          if metrics = [] \<or> MaximumBatchSize < length metrics then Inl ErrInvalid
          else if \<not> list_all (\<lambda>m. validMetric m d) metrics then Inl ErrInvalid
          else if key \<noteq> '''' then InsertMetricsIdempotent session key fingerprint metrics db
          else InsertMetrics session metrics db)"

definition Upload :: "Session \<Rightarrow> Metric list \<Rightarrow> analytics_db \<Rightarrow> analytics_error + analytics_db \<times> BatchResult" where
  "Upload session metrics db = UploadIdempotent session '''' '''' metrics db"

section \<open>Statistics (postgres/store.go)\<close>

text \<open>\<open>GROUP BY\<close>: the keys with the rows that have them.\<close>

definition group_by :: "('a \<Rightarrow> 'k) \<Rightarrow> 'a list \<Rightarrow> ('k \<times> 'a list) list" where
  "group_by key rows = map (\<lambda>k. (k, filter (\<lambda>r. key r = k) rows)) (remdups (map key rows))"

definition total_size :: "MetricRow list \<Rightarrow> int" where
  "total_size rows = sum_list (map mr_size rows)"

text \<open>Reading a sum, which the database computes without bound, into an \<open>int64\<close>.\<close>

definition scan64 :: "int \<Rightarrow> analytics_error + int" where
  "scan64 x = (if in64 x then Inr x else Inl ErrRange)"

definition in_range :: "TimeRange \<Rightarrow> MetricRow \<Rightarrow> bool" where
  "in_range r m \<longleftrightarrow> rng_From r \<le> mr_started m \<and> mr_started m < rng_To r"

definition own_metrics :: "analytics_db \<Rightarrow> Session \<Rightarrow> TimeRange \<Rightarrow> MetricRow list" where
  "own_metrics db session r = filter (\<lambda>m. mr_user m = usr_ID session \<and> in_range r m) (adb_metrics db)"

definition AnalyticsOverview :: "analytics_db \<Rightarrow> Session \<Rightarrow> TimeRange \<Rightarrow> analytics_error + Overview" where
  "AnalyticsOverview db session r =
     (let rows = own_metrics db session r
      in bindE (scan64 (total_size rows)) (\<lambda>total.
         bindE (collect (\<lambda>(route, ms). bindE (scan64 (total_size ms)) (\<lambda>n. Inr (route, int (length ms), n))) (group_by mr_route rows))
           (\<lambda>routes. Inr \<lparr>ov_TransferCount = int (length rows), ov_TotalBytes = total,
              ov_Succeeded = int (length (filter mr_succeeded rows)),
              ov_Failed = int (length (filter (\<lambda>m. \<not> mr_succeeded m) rows)),
              ov_RouteCounts = map (\<lambda>(route, n, b). (route, n)) routes, ov_RouteBytes = map (\<lambda>(route, n, b). (route, b)) routes\<rparr>)))"

text \<open>\<open>date_text\<close> is the text of a date, given by its days since the first of January of year 1.\<close>

definition day_of :: "MetricRow \<Rightarrow> int" where
  "day_of m = mr_started m div (24 * hour)"

definition daily_item :: "string \<Rightarrow> MetricRow list \<Rightarrow> analytics_error + DailyTransfer" where
  "daily_item date ms =
     bindE (scan64 (total_size ms)) (\<lambda>total.
     bindE (scan64 (total_size (filter (\<lambda>m. mr_route m = SelectedRouteLAN) ms))) (\<lambda>lan.
     bindE (scan64 (total_size (filter (\<lambda>m. mr_route m = SelectedRouteNode) ms))) (\<lambda>node.
       Inr \<lparr>dt_Date = date, dt_Count = int (length ms), dt_TotalBytes = total, dt_LANBytes = lan, dt_NodeBytes = node,
         dt_Failed = int (length (filter (\<lambda>m. \<not> mr_succeeded m) ms))\<rparr>)))"

definition DailyTransfers ::
  "(int \<Rightarrow> string) \<Rightarrow> analytics_db \<Rightarrow> Session \<Rightarrow> TimeRange \<Rightarrow> analytics_error + DailyTransfer list"
where
  "DailyTransfers date_text db session r =
     collect (\<lambda>(date, ms). daily_item date ms)
       (SliceStable (\<lambda>p q. fst p < fst q) (group_by (\<lambda>m. date_text (day_of m)) (own_metrics db session r)))"

text \<open>The metrics a device is joined with: those it sent or received, whoever uploaded them.\<close>

definition device_metrics :: "analytics_db \<Rightarrow> TimeRange \<Rightarrow> string \<Rightarrow> MetricRow list" where
  "device_metrics db r d = filter (\<lambda>m. (mr_sender m = d \<or> mr_receiver m = Some d) \<and> in_range r m) (adb_metrics db)"

definition average :: "int list \<Rightarrow> rat" where
  "average xs = (if xs = [] then 0 else of_int (sum_list xs) / of_nat (length xs))"

definition device_item :: "analytics_db \<Rightarrow> time \<Rightarrow> TimeRange \<Rightarrow> DevRow \<Rightarrow> analytics_error + DeviceStatistic" where
  "device_item db now r d =
     (let ms = device_metrics db r (dr_id d);
          sent = filter (\<lambda>m. mr_sender m = dr_id d) ms;
          received = filter (\<lambda>m. mr_receiver m = Some (dr_id d)) ms;
          connection = find (\<lambda>c. cn_device c = dr_id d) (ddb_connections db)
      in bindE (scan64 (total_size sent)) (\<lambda>sent_bytes.
         bindE (scan64 (total_size received)) (\<lambda>received_bytes.
           Inr \<lparr>ds_DeviceID = dr_id d, ds_DisplayName = dr_name d, ds_DeviceType = dr_type d, ds_TrustStatus = dr_trust d,
             ds_Online = (case connection of None \<Rightarrow> False
               | Some c \<Rightarrow> cn_disconnected_at c = None \<and> now - 45 * second \<le> cn_last_seen_at c),
             ds_LastSeenAt = map_option cn_last_seen_at connection,
             ds_SentCount = int (length sent), ds_ReceivedCount = int (length received),
             ds_SentBytes = sent_bytes, ds_ReceivedBytes = received_bytes, ds_AverageSpeed = average (map mr_speed sent)\<rparr>)))"

definition DeviceStatistics ::
  "analytics_db \<Rightarrow> time \<Rightarrow> Session \<Rightarrow> TimeRange \<Rightarrow> analytics_error + DeviceStatistic list" where
  "DeviceStatistics db now session r =
     collect (device_item db now r) (SliceStable (\<lambda>c d. dr_name c < dr_name d)
       (filter (\<lambda>d. dr_user d = usr_ID session) (ddb_devices db)))"

definition group_item :: "analytics_db \<Rightarrow> TimeRange \<Rightarrow> GroupRow \<Rightarrow> analytics_error + GroupStatistic" where
  "group_item db r g =
     (let ms = filter (\<lambda>m. mr_group m = Some (gp_id g) \<and> in_range r m) (adb_metrics db);
          senders = remdups (map mr_sender ms)
      in bindE (scan64 (total_size ms)) (\<lambda>total.
           Inr \<lparr>gs_GroupID = gp_id g, gs_Name = gp_name g,
             gs_MessageCount = int (length (filter (\<lambda>m. mr_content m \<in> {''TEXT'', ''URL'', ''NOTIFICATION''}) ms)),
             gs_FileCount = int (length (filter (\<lambda>m. mr_content m \<in> {''FILE'', ''IMAGE''}) ms)),
             gs_TransferBytes = total, gs_ActiveDevices = int (length senders),
             gs_ActiveUsers = int (length (remdups (List.map_filter
               (\<lambda>s. map_option dr_user (find (\<lambda>d. dr_id d = s) (ddb_devices db))) senders)))\<rparr>))"

definition GroupStatistics :: "analytics_db \<Rightarrow> Session \<Rightarrow> TimeRange \<Rightarrow> analytics_error + GroupStatistic list" where
  "GroupStatistics db session r =
     collect (group_item db r) (SliceStable (\<lambda>g h. gp_name g < gp_name h)
       (filter (\<lambda>g. list_ex (\<lambda>m. mb_group m = gp_id g \<and> mb_user m = usr_ID session) (gdb_members db)) (gdb_groups db)))"

definition NodeStatistics :: "analytics_db \<Rightarrow> Session \<Rightarrow> TimeRange \<Rightarrow> analytics_error + NodeMetric list" where
  "NodeStatistics db session r =
     (if \<not> usr_Admin session then Inl ErrForbidden
      else Inr (SliceStable (\<lambda>m n. nm_RecordedAt m < nm_RecordedAt n)
        (filter (\<lambda>m. rng_From r \<le> nm_RecordedAt m \<and> nm_RecordedAt m < rng_To r) (adb_system db))))"

text \<open>The operations of the service; \<open>utcRange\<close> keeps the instants.\<close>

definition Overview_op :: "analytics_db \<Rightarrow> Session \<Rightarrow> TimeRange \<Rightarrow> analytics_error + Overview" where
  "Overview_op db session r = (if \<not> validRange r then Inl ErrInvalid else AnalyticsOverview db session r)"

definition Transfers_op ::
  "(int \<Rightarrow> string) \<Rightarrow> analytics_db \<Rightarrow> Session \<Rightarrow> TimeRange \<Rightarrow> analytics_error + DailyTransfer list" where
  "Transfers_op date_text db session r = (if \<not> validRange r then Inl ErrInvalid else DailyTransfers date_text db session r)"

definition Devices_op :: "analytics_db \<Rightarrow> time \<Rightarrow> Session \<Rightarrow> TimeRange \<Rightarrow> analytics_error + DeviceStatistic list" where
  "Devices_op db now session r = (if \<not> validRange r then Inl ErrInvalid else DeviceStatistics db now session r)"

definition Groups_op :: "analytics_db \<Rightarrow> Session \<Rightarrow> TimeRange \<Rightarrow> analytics_error + GroupStatistic list" where
  "Groups_op db session r = (if \<not> validRange r then Inl ErrInvalid else GroupStatistics db session r)"

definition Node_op :: "analytics_db \<Rightarrow> Session \<Rightarrow> TimeRange \<Rightarrow> analytics_error + NodeMetric list" where
  "Node_op db session r =
     (if \<not> usr_Admin session then Inl ErrForbidden
      else if \<not> validRange r then Inl ErrInvalid else NodeStatistics db session r)"

section \<open>The rows that uploads leave\<close>

definition typed_metric :: "Metric \<Rightarrow> bool" where
  "typed_metric m \<longleftrightarrow> in64 (mt_FileSize m) \<and> in64 (mt_AverageBytesPerSecond m) \<and> in64 (mt_RetryCount m)"

definition row_ok :: "MetricRow \<Rightarrow> bool" where
  "row_ok r \<longleftrightarrow> isUUID (mr_event r) \<and> uuid (mr_event r) = mr_event r \<and> 0 \<le> mr_size r \<and> in64 (mr_size r) \<and>
     0 \<le> mr_retries r \<and> in32 (mr_retries r) \<and> 0 \<le> mr_speed r \<and> in64 (mr_speed r) \<and> mr_content r \<noteq> '''' \<and>
     mr_route r \<in> {SelectedRouteLAN, SelectedRouteNode, SelectedRouteWaitingLAN} \<and>
     (case mr_completed r of None \<Rightarrow> True | Some t \<Rightarrow> mr_started r \<le> t)"

definition metrics_ok :: "analytics_db \<Rightarrow> bool" where
  "metrics_ok db \<longleftrightarrow> list_all row_ok (adb_metrics db) \<and> distinct (map mr_event (adb_metrics db)) \<and>
     distinct (map (\<lambda>b. (bt_device b, bt_key b)) (adb_batches db)) \<and>
     list_all (\<lambda>b. 0 < br_Accepted (bt_result b) + br_Duplicates (bt_result b)) (adb_batches db)"

lemma ascii_lower_idem [simp]: "ascii_lower (ascii_lower c) = ascii_lower c"
  by (auto simp: ascii_lower_def byte_in_def code_def)

lemma uuid_idem [simp]: "uuid (uuid s) = uuid s"
  by (simp add: uuid_def)

lemma hex_digit_lower: "hex_digit c \<Longrightarrow> hex_digit (ascii_lower c)"
  by (auto simp: hex_digit_def ascii_lower_def byte_in_def code_def)

lemma dash_lower: "ascii_lower CHR ''-'' = CHR ''-''"
  by (simp add: ascii_lower_def byte_in_def code_def)

lemma list_all_enumerate_map:
  "list_all P (enumerate n xs) \<Longrightarrow> (\<And>i c. P (i, c) \<Longrightarrow> P (i, f c)) \<Longrightarrow> list_all P (enumerate n (map f xs))"
  by (induction xs arbitrary: n) auto

lemma isUUID_uuid: "isUUID s \<Longrightarrow> isUUID (uuid s)"
  unfolding isUUID_def uuid_def
  by (elim conjE, intro conjI, simp, erule list_all_enumerate_map) (simp add: dash_lower hex_digit_lower split: if_splits)

lemma row_ok_metric:
  assumes "validMetric m d" and "typed_metric m" and "in32 (mt_RetryCount m)"
  shows "row_ok (metric_row user m)"
  using assms isUUID_uuid by (simp add: row_ok_def metric_row_def validMetric_def typed_metric_def split: option.splits)

lemma insert_metric_Inr:
  assumes "insert_metric user m (db, result) = Inr (db', result')"
  shows "(\<exists>new. db' = db\<lparr>adb_metrics := adb_metrics db @ new\<rparr> \<and>
       (new = [] \<or> new = [metric_row user m] \<and> \<not> metric_stored db (uuid (mt_EventID m)))) \<and> in32 (mt_RetryCount m) \<and>
     metric_stored db' (uuid (mt_EventID m)) \<and> br_Accepted result' + br_Duplicates result' = Suc (br_Accepted result + br_Duplicates result)"
proof (cases "metric_admitted db user m \<and> \<not> metric_stored db (uuid (mt_EventID m))")
  case True
  then have "db' = db\<lparr>adb_metrics := adb_metrics db @ [metric_row user m]\<rparr>" "in32 (mt_RetryCount m)"
      "br_Accepted result' = Suc (br_Accepted result)" "br_Duplicates result' = br_Duplicates result"
    using assms by (auto simp: insert_metric_def split: if_splits)
  moreover from this have "metric_stored db' (uuid (mt_EventID m))" by (simp add: metric_stored_def metric_row_def)
  ultimately show ?thesis using True by (intro conjI exI [of _ "[metric_row user m]"]) simp_all
next
  case False
  then have "db' = db" "in32 (mt_RetryCount m)" "metric_stored db (uuid (mt_EventID m))"
      "br_Accepted result' = br_Accepted result" "br_Duplicates result' = Suc (br_Duplicates result)"
    using assms by (auto simp: insert_metric_def split: if_splits)
  then show ?thesis by (intro conjI exI [of _ "[]"]) simp_all
qed

lemma insert_all_Inr:
  assumes "insert_all user ms (db, result) = Inr (db', result')" and "list_all row_ok (adb_metrics db)"
    and "distinct (map mr_event (adb_metrics db))" and "list_all (\<lambda>m. validMetric m d \<and> typed_metric m) ms"
  shows "(\<exists>new. db' = db\<lparr>adb_metrics := adb_metrics db @ new\<rparr>) \<and> list_all row_ok (adb_metrics db') \<and>
     distinct (map mr_event (adb_metrics db')) \<and>
     br_Accepted result' + br_Duplicates result' = length ms + (br_Accepted result + br_Duplicates result) \<and>
     list_all (\<lambda>m. metric_stored db' (uuid (mt_EventID m)) \<and> in32 (mt_RetryCount m)) ms"
  using assms
proof (induction ms arbitrary: db result)
  case Nil
  then have "db' = db\<lparr>adb_metrics := adb_metrics db @ []\<rparr>" by simp
  then show ?case using Nil by (intro conjI exI [of _ "[]"]) simp_all
next
  case (Cons m ms)
  obtain db1 r1 where one: "insert_metric user m (db, result) = Inr (db1, r1)" "insert_all user ms (db1, r1) = Inr (db', result')"
    using Cons.prems(1) by auto
  note step = insert_metric_Inr [OF one(1)]
  obtain new where new: "db1 = db\<lparr>adb_metrics := adb_metrics db @ new\<rparr>"
      "new = [] \<or> new = [metric_row user m] \<and> \<not> metric_stored db (uuid (mt_EventID m))"
    using step by blast
  have "row_ok (metric_row user m)" using Cons.prems(4) step by (intro row_ok_metric) auto
  then have "list_all row_ok (adb_metrics db1)" using Cons.prems(2) new by auto
  moreover have "distinct (map mr_event (adb_metrics db1))"
    using Cons.prems(3) new by (auto simp: metric_stored_def list_ex_iff metric_row_def)
  ultimately have IH: "(\<exists>new. db' = db1\<lparr>adb_metrics := adb_metrics db1 @ new\<rparr>) \<and> list_all row_ok (adb_metrics db') \<and>
     distinct (map mr_event (adb_metrics db')) \<and>
     br_Accepted result' + br_Duplicates result' = length ms + (br_Accepted r1 + br_Duplicates r1) \<and>
     list_all (\<lambda>m. metric_stored db' (uuid (mt_EventID m)) \<and> in32 (mt_RetryCount m)) ms"
    using Cons.IH [OF one(2)] Cons.prems(4) by simp
  moreover have "metric_stored db' (uuid (mt_EventID m))"
    using IH step by (auto simp: metric_stored_def)
  moreover have "\<exists>new. db' = db\<lparr>adb_metrics := adb_metrics db @ new\<rparr>"
    using conjunct1 [OF IH] unfolding new(1) by (elim exE) (rule exI, simp)
  ultimately show ?case using step by simp
qed

lemma insertMetrics_Inr:
  assumes "insertMetrics session key fp ms db = Inr (db', result)"
  shows "(\<exists>b. key \<noteq> '''' \<and> find (\<lambda>b. bt_device b = (case sess_DeviceID session of None \<Rightarrow> '''' | Some d \<Rightarrow> d) \<and> bt_key b = uuid key) (adb_batches db) = Some b \<and>
        bt_hash b = fp \<and> db' = db \<and> result = bt_result b) \<or>
     (\<exists>db1 new. insert_all (usr_ID session) ms (db, \<lparr>br_Accepted = 0, br_Duplicates = 0\<rparr>) = Inr (db1, result) \<and>
        db' = db1\<lparr>adb_batches := adb_batches db1 @ new\<rparr> \<and>
        (key = '''' \<and> new = [] \<or> key \<noteq> '''' \<and> new = [\<lparr>bt_device = (case sess_DeviceID session of None \<Rightarrow> '''' | Some d \<Rightarrow> d),
           bt_key = uuid key, bt_hash = fp, bt_result = result\<rparr>] \<and>
           find (\<lambda>b. bt_device b = (case sess_DeviceID session of None \<Rightarrow> '''' | Some d \<Rightarrow> d) \<and> bt_key b = uuid key) (adb_batches db) = None))"
  using assms by (auto simp: insertMetrics_def Let_def split: if_splits option.splits)

lemma UploadIdempotent_Inr:
  assumes "UploadIdempotent session key fp ms db = Inr (db', result)"
  obtains d where "sess_DeviceID session = Some d" and "ms \<noteq> []" and "length ms \<le> MaximumBatchSize"
    and "list_all (\<lambda>m. validMetric m d) ms"
    and "insertMetrics session key (if key = '''' then '''' else fp) ms db = Inr (db', result)"
  using assms that by (auto simp: UploadIdempotent_def InsertMetrics_def InsertMetricsIdempotent_def split: option.splits if_splits)

text \<open>
  C24. Uploads keep the table of metrics well formed, whoever sends them and whatever they contain:
  every row has an event id of its own in the form of a UUID, sizes, speeds and numbers of retries
  that are not negative and fit their columns, one of the three routes, and a completion that is not
  before the start; a device has one batch record per idempotency key, and no batch is empty.
  Rows already there are never changed or removed.
\<close>

theorem Upload_keeps_metrics_ok:
  assumes "metrics_ok db" and "list_all typed_metric ms" and "UploadIdempotent session key fp ms db = Inr (db', result)"
  shows "metrics_ok db' \<and> prefix (adb_metrics db) (adb_metrics db') \<and> prefix (adb_batches db) (adb_batches db')"
proof -
  obtain d where d: "ms \<noteq> []" "list_all (\<lambda>m. validMetric m d) ms"
    and up: "insertMetrics session key (if key = '''' then '''' else fp) ms db = Inr (db', result)"
    using assms(3) by (rule UploadIdempotent_Inr)
  have "list_all (\<lambda>m. validMetric m d \<and> typed_metric m) ms" using d(2) assms(2) by (simp add: list_all_iff)
  note all = insert_all_Inr [OF _ _ _ this]
  consider "db' = db" | db1 new where "insert_all (usr_ID session) ms (db, \<lparr>br_Accepted = 0, br_Duplicates = 0\<rparr>) = Inr (db1, result)"
      "db' = db1\<lparr>adb_batches := adb_batches db1 @ new\<rparr>"
      "new = [] \<or> (\<exists>dev k. new = [\<lparr>bt_device = dev, bt_key = k, bt_hash = fp, bt_result = result\<rparr>] \<and>
           find (\<lambda>b. bt_device b = dev \<and> bt_key b = k) (adb_batches db) = None)"
    using insertMetrics_Inr [OF up] by auto
  then show ?thesis
  proof cases
    case 1
    then show ?thesis using assms(1) by simp
  next
    case 2
    note db1 = all [OF 2(1)]
    have old: "list_all row_ok (adb_metrics db)" "distinct (map mr_event (adb_metrics db))"
      "distinct (map (\<lambda>b. (bt_device b, bt_key b)) (adb_batches db))"
      "list_all (\<lambda>b. 0 < br_Accepted (bt_result b) + br_Duplicates (bt_result b)) (adb_batches db)"
      using assms(1) by (simp_all add: metrics_ok_def)
    obtain rows where rows: "db1 = db\<lparr>adb_metrics := adb_metrics db @ rows\<rparr>" using db1 [OF old(1,2)] by blast
    then have batches: "adb_batches db1 = adb_batches db" by simp
    have "0 < br_Accepted result + br_Duplicates result" using db1 [OF old(1,2)] d(1) by (cases ms) auto
    then have "distinct (map (\<lambda>b. (bt_device b, bt_key b)) (adb_batches db')) \<and>
        list_all (\<lambda>b. 0 < br_Accepted (bt_result b) + br_Duplicates (bt_result b)) (adb_batches db')"
      using 2(2,3) old(3,4) by (auto simp: batches find_None_iff)
    then show ?thesis using db1 [OF old(1,2)] 2(2) rows by (simp add: metrics_ok_def)
  qed
qed

lemma insert_all_stored:
  "list_all (\<lambda>m. metric_stored db (uuid (mt_EventID m)) \<and> in32 (mt_RetryCount m)) ms \<Longrightarrow>
     insert_all user ms (db, r) = Inr (db, r\<lparr>br_Duplicates := br_Duplicates r + length ms\<rparr>)"
  by (induction ms arbitrary: r) (simp_all add: insert_metric_def)

text \<open>
  An upload may be repeated: after one that succeeded, the same request with the same idempotency
  key gives the same answer, and without a key every metric is counted as a duplicate; either way the
  tables stay as they are.
\<close>

theorem Upload_repeated:
  assumes "metrics_ok db" and "list_all typed_metric ms" and "UploadIdempotent session key fp ms db = Inr (db', result)"
  shows "UploadIdempotent session key fp ms db' =
    Inr (db', if key = '''' then \<lparr>br_Accepted = 0, br_Duplicates = length ms\<rparr> else result)"
proof -
  obtain d where d: "sess_DeviceID session = Some d" "ms \<noteq> []" "length ms \<le> MaximumBatchSize" "list_all (\<lambda>m. validMetric m d) ms"
    and up: "insertMetrics session key (if key = '''' then '''' else fp) ms db = Inr (db', result)"
    using assms(3) by (rule UploadIdempotent_Inr)
  have typed: "list_all (\<lambda>m. validMetric m d \<and> typed_metric m) ms" using d(4) assms(2) by (simp add: list_all_iff)
  have again: "UploadIdempotent session key fp ms db' = insertMetrics session key (if key = '''' then '''' else fp) ms db'"
    using d by (simp add: UploadIdempotent_def InsertMetrics_def InsertMetricsIdempotent_def)
  show ?thesis
  proof (cases "key = ''''")
    case True
    then obtain db1 where "insert_all (usr_ID session) ms (db, \<lparr>br_Accepted = 0, br_Duplicates = 0\<rparr>) = Inr (db1, result)" "db' = db1"
      using insertMetrics_Inr [OF up] by auto
    then have "list_all (\<lambda>m. metric_stored db' (uuid (mt_EventID m)) \<and> in32 (mt_RetryCount m)) ms"
      using insert_all_Inr [OF _ _ _ typed] assms(1) by (simp add: metrics_ok_def)
    then show ?thesis unfolding again by (simp add: True insertMetrics_def Let_def insert_all_stored)
  next
    case False
    let ?mine = "\<lambda>b. bt_device b = d \<and> bt_key b = uuid key"
    have up': "insertMetrics session key fp ms db = Inr (db', result)" using up False by simp
    consider (replay) b where "find ?mine (adb_batches db) = Some b" "bt_hash b = fp" "db' = db" "result = bt_result b"
      | (fresh) db1 where "insert_all (usr_ID session) ms (db, \<lparr>br_Accepted = 0, br_Duplicates = 0\<rparr>) = Inr (db1, result)"
        "db' = db1\<lparr>adb_batches := adb_batches db1 @ [\<lparr>bt_device = d, bt_key = uuid key, bt_hash = fp, bt_result = result\<rparr>]\<rparr>"
        "find ?mine (adb_batches db) = None"
      using insertMetrics_Inr [OF up'] False d(1) by auto
    then have "\<exists>b. find ?mine (adb_batches db') = Some b \<and> bt_hash b = fp \<and> bt_result b = result"
    proof cases
      case replay
      then show ?thesis by simp
    next
      case fresh
      then have "adb_batches db1 = adb_batches db"
        using insert_all_Inr [OF fresh(1) _ _ typed] assms(1) by (auto simp: metrics_ok_def)
      then show ?thesis using fresh(2,3) by (simp add: find_append)
    qed
    then obtain b where "find ?mine (adb_batches db') = Some b" "bt_hash b = fp" "bt_result b = result" by blast
    then show ?thesis using False d(1) by (simp add: again insertMetrics_def Let_def)
  qed
qed

section \<open>Statistics agree with each other\<close>

lemma collect_Inr: "collect f xs = Inr ys \<Longrightarrow> list_all2 (\<lambda>x y. f x = Inr y) xs ys"
  by (induction xs arbitrary: ys) auto

lemma sum_list_collect:
  assumes "collect f xs = Inr ys" and "\<And>x y. f x = Inr y \<Longrightarrow> g y = h x"
  shows "sum_list (map g ys) = sum_list (map h xs)"
  using collect_Inr [OF assms(1)]
  by (induction xs ys rule: list_all2_induct) (simp_all add: assms(2))

lemma sum_list_distinct_single:
  "distinct ks \<Longrightarrow> (\<Sum>x\<leftarrow>ks. if k = x then (a :: int) else 0) = (if k \<in> set ks then a else 0)"
  by (induction ks) auto

lemma sum_filter_keys:
  "distinct ks \<Longrightarrow> key ` set xs \<subseteq> set ks \<Longrightarrow>
     (\<Sum>k\<leftarrow>ks. sum_list (map f (filter (\<lambda>x. key x = k) xs))) = (sum_list (map f xs) :: int)"
proof (induction xs)
  case (Cons x xs)
  have "(\<Sum>k\<leftarrow>ks. sum_list (map f (filter (\<lambda>y. key y = k) (x # xs)))) =
      (\<Sum>k\<leftarrow>ks. (if key x = k then f x else 0) + sum_list (map f (filter (\<lambda>y. key y = k) xs)))"
    by (intro arg_cong [where f = sum_list] map_cong) auto
  also have "\<dots> = f x + sum_list (map f xs)"
    using Cons sum_list_distinct_single [of ks "key x" "f x"] by (simp add: sum_list_addf)
  finally show ?case by simp
qed simp

text \<open>Sums over the groups add up to the sum over the rows.\<close>

lemma sum_group_by: "sum_list (map (\<lambda>p. sum_list (map f (snd p))) (group_by key xs)) = (sum_list (map f xs) :: int)"
  by (simp add: group_by_def comp_def sum_filter_keys)

lemma group_by_keys: "distinct (map fst (group_by key xs))"
  by (simp add: group_by_def comp_def)

lemma sum_list_SliceStable: "sum_list (map f (SliceStable lt xs)) = (sum_list (map f xs) :: int)"
  by (metis mset_SliceStable mset_map sum_mset_sum_list)

lemma length_filter_sum: "int (length (filter P xs)) = sum_list (map (\<lambda>x. if P x then 1 else 0) xs)"
  by (induction xs) auto

lemma length_sum: "int (length xs) = sum_list (map (\<lambda>x. 1) xs)"
  by (induction xs) auto

lemma scan64_Inr [simp]: "scan64 x = Inr y \<longleftrightarrow> in64 x \<and> y = x"
  by (auto simp: scan64_def)

lemma daily_item_Inr:
  assumes "daily_item date ms = Inr item"
  shows "dt_Count item = sum_list (map (\<lambda>m. 1) ms)" and "dt_TotalBytes item = sum_list (map mr_size ms)"
    and "dt_Failed item = sum_list (map (\<lambda>m. if \<not> mr_succeeded m then 1 else 0) ms)"
  using assms by (auto simp: daily_item_def total_size_def simp flip: length_sum length_filter_sum)

text \<open>
  The statistics of one user and one range agree: the overview counts as many transfers as
  have succeeded and failed together, its counts and bytes by route add up to its totals, and so do
  the counts, bytes and failures of the days.
\<close>

theorem statistics_agree:
  assumes "AnalyticsOverview db session r = Inr ov" and "DailyTransfers date_text db session r = Inr days"
  shows "ov_TransferCount ov = ov_Succeeded ov + ov_Failed ov \<and>
    sum_list (map snd (ov_RouteCounts ov)) = ov_TransferCount ov \<and> sum_list (map snd (ov_RouteBytes ov)) = ov_TotalBytes ov \<and>
    distinct (map fst (ov_RouteCounts ov)) \<and>
    sum_list (map dt_Count days) = ov_TransferCount ov \<and> sum_list (map dt_TotalBytes days) = ov_TotalBytes ov \<and>
    sum_list (map dt_Failed days) = ov_Failed ov"
proof -
  let ?rows = "own_metrics db session r"
  let ?route = "\<lambda>(route, ms). bindE (scan64 (total_size ms)) (\<lambda>n. Inr (route, int (length ms), n))"
  obtain routes where routes: "collect ?route (group_by mr_route ?rows) = Inr routes"
    and ov: "ov = \<lparr>ov_TransferCount = int (length ?rows), ov_TotalBytes = total_size ?rows,
              ov_Succeeded = int (length (filter mr_succeeded ?rows)),
              ov_Failed = int (length (filter (\<lambda>m. \<not> mr_succeeded m) ?rows)),
              ov_RouteCounts = map (\<lambda>(route, n, b). (route, n)) routes, ov_RouteBytes = map (\<lambda>(route, n, b). (route, b)) routes\<rparr>"
    using assms(1) by (auto simp: AnalyticsOverview_def Let_def)
  have counts: "sum_list (map (\<lambda>p. fst (snd p)) routes) = sum_list (map (\<lambda>p. sum_list (map (\<lambda>m. 1) (snd p))) (group_by mr_route ?rows))"
    by (rule sum_list_collect [OF routes]) (auto simp: length_sum)
  have bytes: "sum_list (map (\<lambda>p. snd (snd p)) routes) = sum_list (map (\<lambda>p. sum_list (map mr_size (snd p))) (group_by mr_route ?rows))"
    by (rule sum_list_collect [OF routes]) (auto simp: total_size_def)
  have "list_all2 (\<lambda>p q. fst p = fst q) (group_by mr_route ?rows) routes"
    using collect_Inr [OF routes] by (rule list_all2_mono) auto
  then have "map fst routes = map fst (group_by mr_route ?rows)"
    by (induction rule: list_all2_induct) simp_all
  then have keys: "distinct (map fst routes)" using group_by_keys by metis
  note day = sum_list_collect [OF assms(2) [unfolded DailyTransfers_def]]
  have days: "sum_list (map g days) = sum_list (map f ?rows)"
    if "\<And>date ms item. daily_item date ms = Inr item \<Longrightarrow> g item = sum_list (map f ms)" for g and f :: "MetricRow \<Rightarrow> int"
  proof -
    have "sum_list (map g days) = sum_list (map (\<lambda>p. sum_list (map f (snd p)))
        (SliceStable (\<lambda>p q. fst p < fst q) (group_by (\<lambda>m. date_text (day_of m)) ?rows)))"
      by (rule day) (use that in auto)
    then show ?thesis by (simp add: sum_list_SliceStable sum_group_by)
  qed
  have "int (length ?rows) = int (length (filter mr_succeeded ?rows)) + int (length (filter (\<lambda>m. \<not> mr_succeeded m) ?rows))"
    using sum_length_filter_compl [of mr_succeeded ?rows] by simp
  moreover have "sum_list (map dt_Count days) = int (length ?rows)"
    using days [of dt_Count "\<lambda>m. 1"] daily_item_Inr(1) by (simp add: length_sum)
  moreover have "sum_list (map dt_TotalBytes days) = total_size ?rows"
    using days [of dt_TotalBytes mr_size] daily_item_Inr(2) by (simp add: total_size_def)
  moreover have "sum_list (map dt_Failed days) = int (length (filter (\<lambda>m. \<not> mr_succeeded m) ?rows))"
    using days [of dt_Failed "\<lambda>m. if \<not> mr_succeeded m then 1 else 0"] daily_item_Inr(3) by (simp add: length_filter_sum)
  moreover have "sum_list (map snd (ov_RouteCounts ov)) = int (length ?rows)"
    using counts sum_group_by [of "\<lambda>m. 1" mr_route ?rows] by (simp add: ov length_sum comp_def case_prod_beta)
  moreover have "sum_list (map snd (ov_RouteBytes ov)) = total_size ?rows"
    using bytes sum_group_by [of mr_size mr_route ?rows] by (simp add: ov total_size_def comp_def case_prod_beta)
  ultimately show ?thesis using keys by (simp add: ov comp_def case_prod_beta)
qed

section \<open>Metrics about devices of others\<close>

lemma collect_error:
  assumes "x \<in> set xs" and "f x = Inl e" and "\<And>y e'. f y = Inl e' \<Longrightarrow> e' = e"
  shows "collect f xs = Inl e"
  using assms(1)
proof (induction xs)
  case (Cons z zs)
  show ?case
  proof (cases "f z")
    case (Inl e')
    then show ?thesis using assms(3) by simp
  next
    case (Inr y)
    then have "x \<in> set zs" using Cons.prems assms(2) by auto
    then show ?thesis using Cons.IH Inr by simp
  qed
qed simp

lemma total_size_nonneg: "list_all row_ok ms \<Longrightarrow> 0 \<le> total_size (filter P ms)"
  by (induction ms) (auto simp: total_size_def row_ok_def)

lemma total_size_append [simp]: "total_size (xs @ ys) = total_size xs + total_size ys"
  by (simp add: total_size_def)

text \<open>A metric of \<open>a\<close> about a transfer of the largest size to device \<open>v\<close>.\<close>

definition huge_metric :: "string \<Rightarrow> string \<Rightarrow> string \<Rightarrow> time \<Rightarrow> Metric" where
  "huge_metric a v e t = \<lparr>mt_EventID = e, mt_TransferID = e, mt_SenderDeviceID = a, mt_ReceiverDeviceID = v, mt_GroupID = '''',
     mt_ContentType = ''FILE'', mt_Route = SelectedRouteLAN, mt_FileSize = max_int64, mt_StartedAt = t, mt_CompletedAt = None,
     mt_AverageBytesPerSecond = 0, mt_RetryCount = 0, mt_Succeeded = True, mt_ErrorCode = ''''\<rparr>"

lemma huge_metric_valid:
  "isUUID e \<Longrightarrow> isUUID v \<Longrightarrow> t \<noteq> 0 \<Longrightarrow> validMetric (huge_metric a v e t) a"
  by (simp add: validMetric_def huge_metric_def)

lemma huge_metric_inserted:
  assumes "isUUID v" and "uuid v = v" and "uuid a = a"
    and "list_ex (\<lambda>d. dr_id d = a \<and> dr_user d = user \<and> trusted d) (ddb_devices db)" and "list_ex (\<lambda>d. dr_id d = v) (ddb_devices db)"
    and "\<not> metric_stored db (uuid e)"
  shows "insert_metric user (huge_metric a v e t) (db, b) =
    Inr (db\<lparr>adb_metrics := adb_metrics db @ [metric_row user (huge_metric a v e t)]\<rparr>, b\<lparr>br_Accepted := br_Accepted b + 1\<rparr>)"
proof -
  have "v \<noteq> ''''" using assms(1) by (auto simp: isUUID_def)
  then have "metric_admitted db user (huge_metric a v e t)"
    using assms(2-5) by (simp add: metric_admitted_def huge_metric_def uuid_or_null_def)
  then show ?thesis using assms(6) by (simp add: insert_metric_def in32_def huge_metric_def)
qed

text \<open>
  Any trusted device can break the statistics of another user: nobody checks that the receiver of
  an uploaded metric has anything to do with the sender, so two metrics of the largest size that name
  a device of the other user as their receiver are accepted, and from then on the device statistics of
  that user, for every range that contains their time, fail, because the sum does not fit an \<open>int64\<close>.
\<close>

theorem foreign_metrics_break_statistics:
  fixes a :: string and t :: time
  assumes "metrics_ok db" and "sess_DeviceID s = Some a" and "uuid a = a"
    and trusted: "list_ex (\<lambda>d. dr_id d = a \<and> dr_user d = usr_ID s \<and> trusted d) (ddb_devices db)"
    and "v \<in> set (ddb_devices db)" and "dr_user v = usr_ID victim" and "isUUID (dr_id v)" and "uuid (dr_id v) = dr_id v"
    and "isUUID e" and "isUUID f" and "uuid e \<noteq> uuid f" and "\<not> metric_stored db (uuid e)" and "\<not> metric_stored db (uuid f)"
    and "t \<noteq> 0" and "rng_From r \<le> t" and "t < rng_To r"
  shows "\<exists>db'. Upload s [huge_metric a (dr_id v) e t, huge_metric a (dr_id v) f t] db = Inr (db', \<lparr>br_Accepted = 2, br_Duplicates = 0\<rparr>) \<and>
    DeviceStatistics db' now victim r = Inl ErrRange"
proof -
  let ?m = "\<lambda>i. huge_metric a (dr_id v) i t"
  let ?new = "[metric_row (usr_ID s) (?m e), metric_row (usr_ID s) (?m f)]"
  let ?db = "db\<lparr>adb_metrics := adb_metrics db @ ?new\<rparr>"
  have known: "list_ex (\<lambda>d. dr_id d = dr_id v) (ddb_devices db)" using assms(5) by (auto simp: list_ex_iff)
  note insert = huge_metric_inserted [OF assms(7,8,3)]
  have "\<not> metric_stored (db\<lparr>adb_metrics := adb_metrics db @ [metric_row (usr_ID s) (?m e)]\<rparr>) (uuid f)"
    using assms(11,13) by (simp add: metric_stored_def metric_row_def huge_metric_def)
  then have "insert_all (usr_ID s) [?m e, ?m f] (db, \<lparr>br_Accepted = 0, br_Duplicates = 0\<rparr>) = Inr (?db, \<lparr>br_Accepted = 2, br_Duplicates = 0\<rparr>)"
    using insert [of "usr_ID s" db e t] insert [of "usr_ID s" _ f t] trusted known assms(12) by simp
  then have up: "Upload s [?m e, ?m f] db = Inr (?db, \<lparr>br_Accepted = 2, br_Duplicates = 0\<rparr>)"
    using huge_metric_valid [OF assms(9,7,14)] huge_metric_valid [OF assms(10,7,14)] assms(2)
    by (simp add: Upload_def UploadIdempotent_def InsertMetrics_def insertMetrics_def Let_def MaximumBatchSize_def del: insert_all.simps)
  let ?received = "\<lambda>ms. filter (\<lambda>m. mr_receiver m = Some (dr_id v)) (filter (\<lambda>m. (mr_sender m = dr_id v \<or> mr_receiver m = Some (dr_id v)) \<and> in_range r m) ms)"
  have "?received ?new = ?new"
    using assms(7,8,15,16) by (auto simp: metric_row_def huge_metric_def uuid_or_null_def in_range_def isUUID_def)
  moreover have "total_size ?new = 2 * max_int64" by (simp add: total_size_def metric_row_def huge_metric_def)
  moreover have "0 \<le> total_size (?received (adb_metrics db))"
    using total_size_nonneg [of "adb_metrics db"] assms(1) by (simp add: metrics_ok_def)
  ultimately have "max_int64 < total_size (filter (\<lambda>m. mr_receiver m = Some (dr_id v)) (device_metrics ?db r (dr_id v)))"
    by (simp add: device_metrics_def del: filter_filter)
  then have "scan64 (total_size (filter (\<lambda>m. mr_receiver m = Some (dr_id v)) (device_metrics ?db r (dr_id v)))) = Inl ErrRange"
    by (simp add: scan64_def in64_def)
  then have "device_item ?db now r v = Inl ErrRange"
    by (simp add: device_item_def Let_def) (simp add: scan64_def)
  then have "DeviceStatistics ?db now victim r = Inl ErrRange"
    unfolding DeviceStatistics_def
    by (rule collect_error [of v, rotated])
      (use assms(5,6) in \<open>auto simp: device_item_def Let_def bindE_eq_Inl scan64_def split: if_splits\<close>)
  then show ?thesis using up by blast
qed

section \<open>Examples\<close>

definition sample_uuid :: "char \<Rightarrow> string" where
  "sample_uuid c = replicate 8 c @ ''-'' @ replicate 4 c @ ''-'' @ replicate 4 c @ ''-'' @ replicate 4 c @ ''-'' @ replicate 12 c"

lemma isUUID_sample [simp]: "hex_digit c \<Longrightarrow> isUUID (sample_uuid c)"
  by (simp add: isUUID_def sample_uuid_def numeral_eq_Suc)

lemma uuid_sample [simp]: "uuid (sample_uuid c) = sample_uuid (ascii_lower c)"
  by (simp add: uuid_def sample_uuid_def ascii_lower_def byte_in_def code_def)

lemma upper_sample [simp]: "map ascii_upper (sample_uuid c) = sample_uuid (ascii_upper c)"
  by (simp add: sample_uuid_def ascii_upper_def byte_in_def code_def)

lemma sample_uuid_inject [simp]: "sample_uuid c = sample_uuid d \<longleftrightarrow> c = d"
  by (simp add: sample_uuid_def numeral_eq_Suc)

lemma sample_digits:
  "hex_digit CHR ''1''" "hex_digit CHR ''2''" "hex_digit CHR ''3''" "hex_digit CHR ''4''" "hex_digit CHR ''A''"
  "ascii_lower CHR ''1'' = CHR ''1''" "ascii_lower CHR ''2'' = CHR ''2''" "ascii_lower CHR ''3'' = CHR ''3''"
  "ascii_lower CHR ''4'' = CHR ''4''" "ascii_lower CHR ''A'' = CHR ''a''" "ascii_upper CHR ''a'' = CHR ''A''"
  by code_simp+

lemma sample_uuids:
  "isUUID (sample_uuid CHR ''1'')" "isUUID (sample_uuid CHR ''2'')" "isUUID (sample_uuid CHR ''3'')" "isUUID (sample_uuid CHR ''4'')"
  "uuid (sample_uuid CHR ''1'') = sample_uuid CHR ''1''" "uuid (sample_uuid CHR ''2'') = sample_uuid CHR ''2''"
  "uuid (sample_uuid CHR ''3'') \<noteq> uuid (sample_uuid CHR ''4'')"
  by (simp_all add: sample_digits)

definition analytics_sample :: analytics_db where
  "analytics_sample = \<lparr>db_users = [], db_sessions = [],
     ddb_devices = [\<lparr>dr_id = sample_uuid CHR ''1'', dr_user = ''u1'', dr_name = ''phone'', dr_type = TypeAndroid,
         dr_trust = TrustTrusted, dr_revoked_at = None, dr_created_at = 1\<rparr>,
       \<lparr>dr_id = sample_uuid CHR ''2'', dr_user = ''u2'', dr_name = ''laptop'', dr_type = TypeWindows,
         dr_trust = TrustTrusted, dr_revoked_at = None, dr_created_at = 1\<rparr>],
     ddb_keys = [], ddb_lan = [], ddb_connections = [], ddb_challenges = [], ddb_codes = [], ddb_referenced = [],
     gdb_groups = [], gdb_members = [], gdb_devices = [], gdb_referenced = [],
     adb_metrics = [], adb_batches = [], adb_system = []\<rparr>"

definition analytics_session :: "string \<Rightarrow> char \<Rightarrow> Session" where
  "analytics_session u c = \<lparr>usr_ID = u, usr_Username = ''user'', usr_Email = '''', usr_Admin = False,
     usr_TOTPEnabled = False, sess_SessionID = ''s1'', sess_DeviceID = Some (sample_uuid c), sess_AdminVerified = False\<rparr>"

definition sample_metric :: Metric where
  "sample_metric = (huge_metric (sample_uuid CHR ''1'') (sample_uuid CHR ''2'') (sample_uuid CHR ''3'') 5)
     \<lparr>mt_FileSize := 7, mt_CompletedAt := Some 9\<rparr>"

lemma analytics_sample_ok: "metrics_ok analytics_sample"
  by (simp add: metrics_ok_def analytics_sample_def)

lemma sample_metric_typed: "list_all typed_metric [sample_metric]"
  by (simp add: typed_metric_def sample_metric_def huge_metric_def in64_def)

lemma sample_upload:
  "\<exists>db'. UploadIdempotent (analytics_session ''u1'' CHR ''1'') ''k'' ''h'' [sample_metric] analytics_sample =
     Inr (db', \<lparr>br_Accepted = 1, br_Duplicates = 0\<rparr>)"
proof -
  have "validMetric sample_metric (sample_uuid CHR ''1'')"
    using sample_uuids by (simp add: validMetric_def sample_metric_def huge_metric_def)
  moreover have "metric_admitted analytics_sample ''u1'' sample_metric" by code_simp
  ultimately show ?thesis
    by (simp add: UploadIdempotent_def InsertMetricsIdempotent_def insertMetrics_def Let_def insert_metric_def
        analytics_session_def MaximumBatchSize_def metric_stored_def analytics_sample_def in32_def sample_metric_def huge_metric_def)
qed

lemma Upload_keeps_metrics_ok_witness:
  "\<exists>db' result. UploadIdempotent (analytics_session ''u1'' CHR ''1'') ''k'' ''h'' [sample_metric] analytics_sample = Inr (db', result) \<and>
     metrics_ok db' \<and> prefix (adb_metrics analytics_sample) (adb_metrics db')"
  using sample_upload Upload_keeps_metrics_ok [OF analytics_sample_ok sample_metric_typed] by blast

lemma Upload_repeated_witness:
  "\<exists>db'. UploadIdempotent (analytics_session ''u1'' CHR ''1'') ''k'' ''h'' [sample_metric] db' =
     Inr (db', \<lparr>br_Accepted = 1, br_Duplicates = 0\<rparr>)"
proof -
  obtain db' where up: "UploadIdempotent (analytics_session ''u1'' CHR ''1'') ''k'' ''h'' [sample_metric] analytics_sample =
     Inr (db', \<lparr>br_Accepted = 1, br_Duplicates = 0\<rparr>)" using sample_upload by blast
  show ?thesis using Upload_repeated [OF analytics_sample_ok sample_metric_typed up] by (intro exI [of _ db']) simp
qed

definition sample_statistics :: analytics_db where
  "sample_statistics = analytics_sample\<lparr>adb_metrics := [metric_row ''u1'' sample_metric,
     (metric_row ''u1'' sample_metric)\<lparr>mr_event := sample_uuid CHR ''4'', mr_route := SelectedRouteNode, mr_succeeded := False\<rparr>]\<rparr>"

lemma statistics_agree_witness:
  "\<exists>ov days. AnalyticsOverview sample_statistics (analytics_session ''u1'' CHR ''1'') \<lparr>rng_From = 1, rng_To = 9\<rparr> = Inr ov \<and>
     DailyTransfers (\<lambda>d. ''day'') sample_statistics (analytics_session ''u1'' CHR ''1'') \<lparr>rng_From = 1, rng_To = 9\<rparr> = Inr days \<and>
     ov_TransferCount ov = 2 \<and> sum_list (map dt_Failed days) = 1"
proof -
  have rows: "own_metrics sample_statistics (analytics_session ''u1'' CHR ''1'') \<lparr>rng_From = 1, rng_To = 9\<rparr> = adb_metrics sample_statistics"
    by (simp add: own_metrics_def sample_statistics_def metric_row_def sample_metric_def huge_metric_def analytics_session_def in_range_def)
  obtain ov where ov: "AnalyticsOverview sample_statistics (analytics_session ''u1'' CHR ''1'') \<lparr>rng_From = 1, rng_To = 9\<rparr> = Inr ov"
      "ov_TransferCount ov = 2" "ov_Failed ov = 1"
    by (simp add: AnalyticsOverview_def rows)
      (simp add: group_by_def sample_statistics_def metric_row_def sample_metric_def huge_metric_def total_size_def scan64_def in64_def)
  obtain days where days: "DailyTransfers (\<lambda>d. ''day'') sample_statistics (analytics_session ''u1'' CHR ''1'') \<lparr>rng_From = 1, rng_To = 9\<rparr> = Inr days"
    by (simp add: DailyTransfers_def rows daily_item_def SliceStable_id)
      (simp add: group_by_def sample_statistics_def metric_row_def sample_metric_def huge_metric_def total_size_def scan64_def in64_def SliceStable_id daily_item_def)
  show ?thesis using statistics_agree [OF ov(1) days] ov days by (intro exI [of _ ov] exI [of _ days]) simp
qed

lemma foreign_metrics_break_statistics_witness:
  "\<exists>db'. Upload (analytics_session ''u1'' CHR ''1'') [huge_metric (sample_uuid CHR ''1'') (sample_uuid CHR ''2'') (sample_uuid CHR ''3'') 5,
       huge_metric (sample_uuid CHR ''1'') (sample_uuid CHR ''2'') (sample_uuid CHR ''4'') 5] analytics_sample =
     Inr (db', \<lparr>br_Accepted = 2, br_Duplicates = 0\<rparr>) \<and>
     DeviceStatistics db' 9 (analytics_session ''u2'' CHR ''2'') \<lparr>rng_From = 1, rng_To = 9\<rparr> = Inl ErrRange"
  using foreign_metrics_break_statistics [of analytics_sample "analytics_session ''u1'' CHR ''1''" "sample_uuid CHR ''1''"
      "ddb_devices analytics_sample ! 1" "analytics_session ''u2'' CHR ''2''" "sample_uuid CHR ''3''" "sample_uuid CHR ''4''" 5
      "\<lparr>rng_From = 1, rng_To = 9\<rparr>" 9] analytics_sample_ok sample_uuids
  by (simp add: analytics_sample_def analytics_session_def metric_stored_def trusted_def)

end
