(* ===== verification/ApiRequests.thy ===== *)
theory ApiRequests
  imports SignedToken
begin

text \<open>
  What the HTTP layer does with a request before it reaches a service: the limiter of logins
  (\<open>internal/api/rate_limit.go\<close>), idempotency keys (\<open>internal/api/request.go\<close>) and the cursors of
  listings (\<open>internal/api/cursor.go\<close>). The clock, HMAC, Unicode case and the text of an instant are
  parameters.
\<close>

section \<open>The login limiter (api/rate_limit.go)\<close>

record rateWindow =
  rw_count :: int
  rw_reset :: time

type_synonym windows = "string \<Rightarrow> rateWindow option"

text \<open>A key that is absent from the map reads as the zero window.\<close>

definition window_of :: "windows \<Rightarrow> string \<Rightarrow> rateWindow" where
  "window_of w key = (case w key of None \<Rightarrow> \<lparr>rw_count = 0, rw_reset = 0\<rparr> | Some x \<Rightarrow> x)"

definition next_window :: "time \<Rightarrow> rateWindow \<Rightarrow> rateWindow" where
  "next_window now x =
     (let y = (if IsZero (rw_reset x) \<or> rw_reset x \<le> now then \<lparr>rw_count = 0, rw_reset = now + minute\<rparr> else x)
      in y\<lparr>rw_count := rw_count y + 1\<rparr>)"

definition allow :: "int \<Rightarrow> string \<Rightarrow> time \<Rightarrow> windows \<Rightarrow> windows \<times> bool \<times> duration" where
  "allow limit key now w =
     (let x = next_window now (window_of w key)
      in (w(key \<mapsto> x), rw_count x \<le> limit, rw_reset x - now))"

definition rateLimit :: "string \<Rightarrow> int \<Rightarrow> int" where
  "rateLimit env fallback = (case Atoi env of (v, ok) \<Rightarrow> if \<not> ok \<or> v < 1 then fallback else v)"

text \<open>\<open>splitHostPort\<close> is the host \<open>net.SplitHostPort\<close> returns, \<open>None\<close> for its error.\<close>

definition rateLimitKey :: "(string \<Rightarrow> string option) \<Rightarrow> (string \<Rightarrow> string) \<Rightarrow> string \<Rightarrow> string \<Rightarrow> string" where
  "rateLimitKey splitHostPort lower remoteAddr identity =
     (case splitHostPort remoteAddr of None \<Rightarrow> remoteAddr | Some host \<Rightarrow> host) @ ''|'' @ lower (TrimSpace identity)"

text \<open>The answer to a refused request carries the seconds to wait, rounded down and at least one.\<close>

definition retry_after :: "duration \<Rightarrow> int" where
  "retry_after d = max 1 (d div second)"

definition enforceRateLimit :: "int \<Rightarrow> string \<Rightarrow> time \<Rightarrow> windows \<Rightarrow> windows \<times> int option" where
  "enforceRateLimit limit key now w =
     (case allow limit key now w of (w', ok, wait) \<Rightarrow> (w', if ok then None else Some (retry_after wait)))"

text \<open>Requests in the order in which they take the lock, with their keys and instants.\<close>

fun outcomes :: "int \<Rightarrow> (string \<times> time) list \<Rightarrow> windows \<Rightarrow> (string \<times> time \<times> bool) list" where
  "outcomes limit [] w = []"
| "outcomes limit ((key, t) # rs) w =
     (case allow limit key t w of (w', ok, wait) \<Rightarrow> (key, t, ok) # outcomes limit rs w')"

text \<open>What happens to one key depends on its window only.\<close>

fun window_run :: "int \<Rightarrow> time list \<Rightarrow> rateWindow \<Rightarrow> (time \<times> bool) list" where
  "window_run limit [] x = []"
| "window_run limit (t # ts) x =
     (t, rw_count (next_window t x) \<le> limit) # window_run limit ts (next_window t x)"

lemma outcomes_key:
  "map snd (filter (\<lambda>q. fst q = k) (outcomes limit rs w)) =
     window_run limit (map snd (filter (\<lambda>r. fst r = k) rs)) (window_of w k)"
proof (induction rs arbitrary: w)
  case (Cons r rs)
  obtain key t where r: "r = (key, t)" by fastforce
  show ?case using Cons by (simp add: r allow_def Let_def window_of_def)
qed simp

definition passed :: "(time \<times> bool) list \<Rightarrow> int" where
  "passed qs = int (length (filter snd qs))"

lemma passed_simps [simp]:
  "passed [] = 0" "passed (q # qs) = (if snd q then 1 else 0) + passed qs"
  by (simp_all add: passed_def)

lemma passed_append: "passed (xs @ ys) = passed xs + passed ys"
  by (simp add: passed_def)

lemma next_window_count: "0 \<le> rw_count x \<Longrightarrow> 1 \<le> rw_count (next_window t x)"
  by (simp add: next_window_def Let_def)

lemma passed_in_window:
  "\<forall>t \<in> set ts. t < rw_reset x \<Longrightarrow> rw_reset x \<noteq> 0 \<Longrightarrow> passed (window_run limit ts x) \<le> max 0 (limit - rw_count x)"
proof (induction ts arbitrary: x)
  case (Cons t ts)
  have x: "next_window t x = x\<lparr>rw_count := rw_count x + 1\<rparr>" using Cons.prems by (simp add: next_window_def)
  have "passed (window_run limit ts (next_window t x)) \<le> max 0 (limit - rw_count (next_window t x))"
    using Cons.prems by (intro Cons.IH) (simp_all add: x)
  then show ?case by (auto simp: x)
qed simp

lemma passed_two_windows:
  assumes "\<forall>t \<in> set ts. a \<le> t \<and> t < a + minute" and "0 < a" and "0 \<le> limit"
  shows "passed (window_run limit ts x) \<le> max 0 (limit - rw_count x) + limit"
  using assms(1)
proof (induction ts arbitrary: x)
  case Nil
  then show ?case using assms(3) by simp
next
  case (Cons t ts)
  show ?case
  proof (cases "rw_reset x = 0 \<or> rw_reset x \<le> t")
    case True
    then have y: "next_window t x = \<lparr>rw_count = 1, rw_reset = t + minute\<rparr>" by (simp add: next_window_def)
    have "passed (window_run limit ts (next_window t x)) \<le> max 0 (limit - 1)"
      using passed_in_window [of ts "next_window t x" limit] Cons.prems assms(2) by (force simp: y)
    then show ?thesis using assms(3) by (auto simp: y)
  next
    case False
    then have y: "next_window t x = x\<lparr>rw_count := rw_count x + 1\<rparr>" by (simp add: next_window_def)
    have "passed (window_run limit ts (next_window t x)) \<le> max 0 (limit - rw_count (next_window t x)) + limit"
      using Cons.prems by (intro Cons.IH) simp
    then show ?thesis by (auto simp: y)
  qed
qed

lemma window_run_append:
  "\<exists>y. window_run limit (xs @ ys) x = window_run limit xs x @ window_run limit ys y \<and> (0 \<le> rw_count x \<longrightarrow> 0 \<le> rw_count y)"
proof (induction xs arbitrary: x)
  case Nil
  then show ?case by auto
next
  case (Cons t xs)
  obtain y where "window_run limit (xs @ ys) (next_window t x) = window_run limit xs (next_window t x) @ window_run limit ys y"
      "0 \<le> rw_count (next_window t x) \<longrightarrow> 0 \<le> rw_count y" using Cons by blast
  then show ?case using next_window_count [of x t] by (intro exI [of _ y]) auto
qed

lemma map_fst_window_run [simp]: "map fst (window_run limit ts x) = ts"
  by (induction ts arbitrary: x) simp_all

lemma filter_window_run_none:
  "(\<And>t. t \<in> set ts \<Longrightarrow> \<not> P t) \<Longrightarrow> filter (\<lambda>q. P (fst q)) (window_run limit ts x) = []"
  by (induction ts arbitrary: x) simp_all

lemma filter_window_run_all:
  "(\<And>t. t \<in> set ts \<Longrightarrow> P t) \<Longrightarrow> filter (\<lambda>q. P (fst q)) (window_run limit ts x) = window_run limit ts x"
  by (induction ts arbitrary: x) simp_all

lemma passed_in_interval:
  assumes "sorted ts" and "0 \<le> rw_count x" and "0 < a" and "0 \<le> limit"
  shows "passed (filter (\<lambda>q. a \<le> fst q \<and> fst q < a + minute) (window_run limit ts x)) \<le> 2 * limit"
proof -
  define before inside after where
    "before = takeWhile (\<lambda>t. t < a) ts" and "inside = takeWhile (\<lambda>t. t < a + minute) (dropWhile (\<lambda>t. t < a) ts)"
    and "after = dropWhile (\<lambda>t. t < a + minute) (dropWhile (\<lambda>t. t < a) ts)"
  have ts: "ts = before @ (inside @ after)" by (simp add: before_def inside_def after_def)
  have rest: "sorted (dropWhile (\<lambda>t. t < a) ts)" using assms(1) by (simp add: sorted_dropWhile)
  have ge: "a \<le> t" if "t \<in> set (dropWhile (\<lambda>t. t < a) ts)" for t
    using that rest by (cases "dropWhile (\<lambda>t. t < a) ts") (auto simp: dropWhile_eq_Cons_conv)
  have late: "a + minute \<le> t" if "t \<in> set after" for t
    using that sorted_dropWhile [OF rest, of "\<lambda>t. t < a + minute"] unfolding after_def
    by (cases "dropWhile (\<lambda>t. t < a + minute) (dropWhile (\<lambda>t. t < a) ts)") (auto simp: dropWhile_eq_Cons_conv)
  have early: "t < a" if "t \<in> set before" for t using that by (auto simp: before_def dest: set_takeWhileD)
  have mid: "a \<le> t \<and> t < a + minute" if "t \<in> set inside" for t
    using that ge set_takeWhileD [of t] unfolding inside_def by blast
  obtain y where y: "window_run limit ts x = window_run limit before x @ window_run limit (inside @ after) y" "0 \<le> rw_count y"
    using window_run_append [of limit before "inside @ after" x] assms(2) ts by auto
  obtain z where z: "window_run limit (inside @ after) y = window_run limit inside y @ window_run limit after z"
    using window_run_append by blast
  have "filter (\<lambda>q. a \<le> fst q \<and> fst q < a + minute) (window_run limit ts x) = window_run limit inside y"
  proof -
    let ?P = "\<lambda>t. a \<le> t \<and> t < a + minute"
    have "filter (\<lambda>q. ?P (fst q)) (window_run limit before x) = []" by (rule filter_window_run_none) (use early in force)
    moreover have "filter (\<lambda>q. ?P (fst q)) (window_run limit after z) = []" by (rule filter_window_run_none) (use late in force)
    moreover have "filter (\<lambda>q. ?P (fst q)) (window_run limit inside y) = window_run limit inside y"
      by (rule filter_window_run_all) (use mid in force)
    ultimately show ?thesis by (simp add: y(1) z)
  qed
  moreover have "passed (window_run limit inside y) \<le> 2 * limit"
    using passed_two_windows [of inside a limit y] mid assms(3,4) y(2) by force
  ultimately show ?thesis by simp
qed

text \<open>
  C25. Nobody gets more than twice the limit of logins per minute: as long as the clock does not run
  backwards, of all requests for one key that fall into any interval of a minute, whatever came
  before and whatever other keys do, at most \<open>2 * limit\<close> are let through.
\<close>

theorem login_rate_bounded:
  assumes "sorted (map snd rs)" and "0 < a" and "0 \<le> limit"
  shows "int (length (filter (\<lambda>(k, t, ok). k = key \<and> a \<le> t \<and> t < a + minute \<and> ok) (outcomes limit rs (\<lambda>k. None)))) \<le> 2 * limit"
proof -
  let ?ts = "map snd (filter (\<lambda>r. fst r = key) rs)"
  have "sorted ?ts" using assms(1) by (induction rs) auto
  then have "passed (filter (\<lambda>q. a \<le> fst q \<and> fst q < a + minute) (window_run limit ?ts (window_of (\<lambda>k. None) key))) \<le> 2 * limit"
    by (rule passed_in_interval) (use assms in \<open>simp_all add: window_of_def\<close>)
  moreover have inside: "filter (\<lambda>q. a \<le> fst q \<and> fst q < a + minute) (map snd (filter (\<lambda>q. fst q = key) qs)) =
      map snd (filter (\<lambda>(k, t, ok). k = key \<and> a \<le> t \<and> t < a + minute) qs)" for qs :: "(string \<times> time \<times> bool) list"
    by (induction qs) auto
  moreover have count: "passed (map snd (filter (\<lambda>(k, t, ok). k = key \<and> a \<le> t \<and> t < a + minute) qs)) =
      int (length (filter (\<lambda>(k, t, ok). k = key \<and> a \<le> t \<and> t < a + minute \<and> ok) qs))" for qs :: "(string \<times> time \<times> bool) list"
    by (induction qs) auto
  ultimately show ?thesis unfolding outcomes_key [symmetric] inside count by blast
qed

lemma login_rate_bounded_witness:
  "int (length (filter (\<lambda>(k, t, ok). k = ''a'' \<and> 1 \<le> t \<and> t < 1 + minute \<and> ok)
     (outcomes 1 [(''a'', 1), (''a'', 2), (''b'', 2), (''a'', minute)] (\<lambda>k. None)))) \<le> 2"
  using login_rate_bounded [of "[(''a'', 1), (''a'', 2), (''b'', 2), (''a'', minute)]" 1 1 "''a''"] by simp

text \<open>The bound is met: a burst before and a burst after the end of a window.\<close>

lemma login_rate_tight:
  "length (filter (\<lambda>(k, t, ok). 2 \<le> t \<and> t < 2 + minute \<and> ok)
     (outcomes 2 [(''a'', 1), (''a'', minute), (''a'', minute), (''a'', 1 + minute), (''a'', 1 + minute)] (\<lambda>k. None))) = 3"
  by (simp add: allow_def next_window_def window_of_def Let_def)

text \<open>A client that waits as long as it was told may be refused again: the seconds are rounded down.\<close>

lemma retry_after_too_early:
  "enforceRateLimit limit key now w = (w', Some s) \<Longrightarrow> rw_reset (window_of w' key) - now = second + r \<Longrightarrow> 0 < r \<Longrightarrow> r < second \<Longrightarrow>
     \<exists>w'' s'. enforceRateLimit limit key (now + s * second) w' = (w'', Some s')"
  by (auto simp: enforceRateLimit_def allow_def Let_def retry_after_def next_window_def window_of_def split: if_splits)

text \<open>No window is ever removed: there is one for every key that was ever seen.\<close>

lemma allow_windows: "allow limit key now w = (w', ok, d) \<Longrightarrow> dom w' = insert key (dom w)"
  by (auto simp: allow_def Let_def)

section \<open>Idempotency keys and identifiers (api/request.go)\<close>

definition versionMediaType :: string where
  "versionMediaType = ''application/vnd.nexdrop.v1+json''"

definition validUUID :: "string \<Rightarrow> bool" where
  "validUUID value \<longleftrightarrow>
     (case hex_decode (filter (\<lambda>c. c \<noteq> CHR ''-'') value) of None \<Rightarrow> False | Some decoded \<Rightarrow> length decoded = 16 \<and> length value = 36)"

text \<open>The key, or \<open>None\<close> when the request is answered with \<open>IDEMPOTENCY_KEY_REQUIRED\<close>.\<close>

definition requireIdempotencyKey :: "string \<Rightarrow> string \<Rightarrow> string option" where
  "requireIdempotencyKey accept header =
     (if \<not> Contains accept versionMediaType then Some ''''
      else let key = TrimSpace header in if \<not> validUUID key then None else Some key)"

lemma hex_decode_length: "hex_decode s = Some d \<Longrightarrow> length s = 2 * length d"
  by (induction s arbitrary: d rule: hex_decode.induct) (auto split: option.splits)

text \<open>The four dashes may stand anywhere.\<close>

lemma validUUID_dashes: "validUUID value \<Longrightarrow> length (filter (\<lambda>c. c = CHR ''-'') value) = 4"
  using sum_length_filter_compl [of "\<lambda>c. c = CHR ''-''" "value"]
  by (auto simp: validUUID_def dest!: hex_decode_length split: option.splits)

lemma validUUID_misplaced:
  "validUUID (''----'' @ replicate 32 CHR ''0'')"
  by code_simp

section \<open>Cursors (api/cursor.go)\<close>

definition cursor_payload :: "(time \<Rightarrow> string) \<Rightarrow> time \<Rightarrow> string \<Rightarrow> string" where
  "cursor_payload format createdAt i = format createdAt @ ''|'' @ i"

definition encodeCursor :: "hmac \<Rightarrow> (time \<Rightarrow> string) \<Rightarrow> string \<Rightarrow> time \<Rightarrow> string \<Rightarrow> string" where
  "encodeCursor hmac format key createdAt i =
     (let payload = cursor_payload format createdAt i
      in b64_encode payload @ ''.'' @ b64_encode (hmac key payload))"

definition decodeCursor :: "hmac \<Rightarrow> (string \<Rightarrow> time option) \<Rightarrow> string \<Rightarrow> string \<Rightarrow> (time \<times> string) option" where
  "decodeCursor hmac parse key value =
     (case split_on (CHR ''.'') value of
        [encoded, signature] \<Rightarrow>
          (case (b64_decode encoded, b64_decode signature) of
             (Some payload, Some supplied) \<Rightarrow>
               if supplied \<noteq> hmac key payload then None
               else (case cut_at (CHR ''|'') payload of
                 None \<Rightarrow> None
               | Some (text, i) \<Rightarrow>
                   if \<not> validUUID i then None
                   else map_option (\<lambda>t. (t, i)) (parse text))
           | _ \<Rightarrow> None)
      | _ \<Rightarrow> None)"

text \<open>
  The Node accepts the cursors it issues: decoding what was encoded gives back the instant and the
  identifier, for every identifier that is a UUID, given that the text of an instant can be parsed back
  and has no bar in it; and whatever is accepted carries the HMAC of its payload under the Node's key.
\<close>

theorem cursor_roundtrip:
  assumes "\<And>t. parse (format t) = Some t" and "\<And>t. CHR ''|'' \<notin> set (format t)"
  shows "(validUUID i \<longrightarrow> decodeCursor hmac parse key (encodeCursor hmac format key t i) = Some (t, i)) \<and>
    (decodeCursor hmac parse key value = Some (u, j) \<longrightarrow> validUUID j \<and>
       (\<exists>encoded signature text. split_on (CHR ''.'') value = [encoded, signature] \<and> b64_decode encoded = Some (text @ ''|'' @ j) \<and>
          b64_decode signature = Some (hmac key (text @ ''|'' @ j)) \<and> parse text = Some u))"
proof (intro conjI impI)
  assume i: "validUUID i"
  let ?p = "cursor_payload format t i"
  have "split_on (CHR ''.'') (encodeCursor hmac format key t i) = [b64_encode ?p, b64_encode (hmac key ?p)]"
    using split_join [of "[b64_encode ?p, b64_encode (hmac key ?p)]" "CHR ''.''"] by (simp add: encodeCursor_def Let_def)
  moreover have "cut_at (CHR ''|'') ?p = Some (format t, i)"
    using assms(2) by (simp add: cursor_payload_def cut_at_append)
  ultimately show "decodeCursor hmac parse key (encodeCursor hmac format key t i) = Some (t, i)"
    using i assms(1) by (simp add: decodeCursor_def)
next
  assume "decodeCursor hmac parse key value = Some (u, j)"
  then show "validUUID j"
    "\<exists>encoded signature text. split_on (CHR ''.'') value = [encoded, signature] \<and> b64_decode encoded = Some (text @ ''|'' @ j) \<and>
          b64_decode signature = Some (hmac key (text @ ''|'' @ j)) \<and> parse text = Some u"
    by (auto simp: decodeCursor_def split: list.splits option.splits if_splits dest!: cut_at_SomeD)
qed

definition sample_format :: "time \<Rightarrow> string" where
  "sample_format t = (if 0 \<le> t then replicate (nat t) CHR ''a'' else replicate (nat (- t)) CHR ''b'')"

definition sample_parse :: "string \<Rightarrow> time option" where
  "sample_parse s = Some (if s \<noteq> '''' \<and> hd s = CHR ''b'' then - int (length s) else int (length s))"

lemma cursor_roundtrip_witness:
  "decodeCursor (\<lambda>key p. key @ p) sample_parse ''k''
     (encodeCursor (\<lambda>key p. key @ p) sample_format ''k'' 5 ''00000000-0000-4000-8000-000000000000'') =
   Some (5, ''00000000-0000-4000-8000-000000000000'')"
proof -
  have "sample_parse (sample_format t) = Some t" for t
    by (cases "nat (- t)") (auto simp: sample_parse_def sample_format_def)
  moreover have "CHR ''|'' \<notin> set (sample_format t)" for t by (simp add: sample_format_def)
  moreover have "validUUID ''00000000-0000-4000-8000-000000000000''" by code_simp
  ultimately show ?thesis using cursor_roundtrip [of sample_parse sample_format] by blast
qed

end
