(* ===== verification/Admin.thy ===== *)
theory Admin
  imports Analytics Cleaner
begin

text \<open>
  Administration of a Node: \<open>internal/admin/service.go\<close> and \<open>internal/postgres/admin.go\<close>, over the
  tables of accounts, devices and groups, the invitations, the audit log, and the tables of transfers
  and files. Password hashing, SHA-256, Unicode case and randomness are parameters; identifiers and
  instants that the database generates are arguments. An identifier compared in SQL is a \<open>uuid\<close>.
\<close>

section \<open>Data\<close>

text \<open>\<open>ErrDatabase\<close> is any other error of the database, \<open>ErrHash\<close> one of bcrypt, \<open>ErrRandom\<close> of the generator.\<close>

datatype admin_error = ErrInvalid | ErrForbidden | ErrNotFound | ErrConflict | ErrDatabase | ErrHash | ErrRandom | ErrRemove

record AdminUser =
  au_ID :: string
  au_Username :: string
  au_Email :: string
  au_Admin :: bool
  au_DisabledAt :: "time option"
  au_CreatedAt :: time

record AdminDevice =
  ad_ID :: string
  ad_OwnerUserID :: string
  ad_OwnerUsername :: string
  ad_DisplayName :: string
  ad_Type :: DeviceType
  ad_TrustStatus :: TrustStatus
  ad_CreatedAt :: time

record AdminGroup =
  ag_ID :: string
  ag_Name :: string
  ag_OwnerUserID :: string
  ag_OwnerUsername :: string
  ag_MemberCount :: int
  ag_DeviceCount :: int
  ag_CreatedAt :: time

record Invitation =
  inv_ID :: string
  inv_Username :: string
  inv_Email :: string
  inv_Admin :: bool
  inv_Token :: string
  inv_ExpiresAt :: time
  inv_CreatedAt :: time

record NodeSettings =
  ns_PublicRegistrationEnabled :: bool
  ns_Limits :: Settings

record Quota =
  qt_OwnerType :: string
  qt_OwnerID :: string
  qt_ByteLimit :: int
  qt_BytesUsed :: int
  qt_DailyTransferLimit :: int
  qt_DailyTransferUsed :: int
  qt_UpdatedAt :: time

record StorageOverview =
  so_FileCount :: int
  so_StoredBytes :: int
  so_UploadingBytes :: int
  so_ExpiredBytes :: int
  so_QuotaBytesUsed :: int
  so_QuotaByteLimit :: int

record Failure =
  fl_TransferID :: string
  fl_TargetDeviceID :: string
  fl_ErrorCode :: string
  fl_CreatedAt :: time

record AuditLog =
  al_ID :: string
  al_ActorUserID :: "string option"
  al_ActorDeviceID :: "string option"
  al_Action :: string
  al_TargetType :: string
  al_TargetID :: "string option"
  al_Metadata :: string
  al_CreatedAt :: time

record PageKey_admin =
  pk_ID :: string
  pk_CreatedAt :: time

record PageOptions_admin =
  po_Limit :: int
  po_Cursor :: PageKey_admin
  po_From :: time
  po_To :: time
  po_Status :: string

record 'a AdminPage =
  pg_Items :: "'a list"
  pg_NextCursor :: string
  pg_NextPageKey :: PageKey_admin

record InvitationRow =
  iv_id :: string
  iv_invited_by :: string
  iv_username :: string
  iv_email :: string
  iv_is_admin :: bool
  iv_token_hash :: string
  iv_expires_at :: time
  iv_accepted_at :: "time option"
  iv_created_at :: time

text \<open>
  The tables. The columns \<open>bytes_used\<close> and \<open>daily_transfer_used\<close> of \<open>storage_quotas\<close>, which no statement
  ever writes, are 0.
\<close>

record admin_db = group_db +
  adb_user_created :: "string \<Rightarrow> time"
  adb_invitations :: "InvitationRow list"
  adb_audit :: "AuditLog list"
  adb_registration :: bool
  adb_files :: file_tables

section \<open>Users (postgres/admin.go)\<close>

definition admin_user :: "admin_db \<Rightarrow> UserRow \<Rightarrow> AdminUser" where
  "admin_user db u = \<lparr>au_ID = u_id u, au_Username = u_username u, au_Email = u_email u, au_Admin = u_is_admin u,
     au_DisabledAt = u_disabled_at u, au_CreatedAt = adb_user_created db (u_id u)\<rparr>"

text \<open>The unique indexes on \<open>lower(username)\<close> and \<open>lower(email)\<close>.\<close>

definition same_name :: "(string \<Rightarrow> string) \<Rightarrow> string \<Rightarrow> string \<Rightarrow> string \<Rightarrow> string \<Rightarrow> bool" where
  "same_name lower username email username' email' \<longleftrightarrow> lower username = lower username' \<or> lower email = lower email'"

definition user_exists :: "(string \<Rightarrow> string) \<Rightarrow> string \<Rightarrow> string \<Rightarrow> admin_db \<Rightarrow> bool" where
  "user_exists lower username email db \<longleftrightarrow>
     list_ex (\<lambda>u. same_name lower username email (u_username u) (u_email u)) (db_users db)"

definition insert_user ::
  "(string \<Rightarrow> string) \<Rightarrow> string \<Rightarrow> time \<Rightarrow> string \<Rightarrow> string \<Rightarrow> string \<Rightarrow> bool \<Rightarrow> admin_db \<Rightarrow> admin_error + admin_db \<times> AdminUser"
where
  "insert_user lower newID moment username email passwordHash isAdmin db =
     (if user_exists lower username email db \<or> list_ex (\<lambda>u. u_id u = newID) (db_users db) then Inl ErrConflict
      else let u = \<lparr>u_id = newID, u_username = username, u_email = email, u_password_hash = passwordHash,
                 u_totp_secret = None, u_is_admin = isAdmin, u_disabled_at = None\<rparr>;
               db' = db\<lparr>db_users := db_users db @ [u], adb_user_created := (adb_user_created db)(newID := moment)\<rparr>
           in Inr (db', admin_user db' u))"

text \<open>The foreign keys of \<open>audit_logs\<close> ask for the user and the device of the session.\<close>

definition append_audit ::
  "string \<Rightarrow> time \<Rightarrow> string option \<Rightarrow> string option \<Rightarrow> string \<Rightarrow> string \<Rightarrow> string option \<Rightarrow> string \<Rightarrow> admin_db \<Rightarrow> admin_error + admin_db"
where
  "append_audit auditID moment user device action targetType target metadata db =
     (if (case user of None \<Rightarrow> False | Some u \<Rightarrow> \<not> list_ex (\<lambda>x. u_id x = u) (db_users db)) \<or>
         (case device of None \<Rightarrow> False | Some d \<Rightarrow> \<not> list_ex (\<lambda>x. dr_id x = d) (ddb_devices db))
      then Inl ErrDatabase
      else Inr (db\<lparr>adb_audit := adb_audit db @ [\<lparr>al_ID = auditID, al_ActorUserID = user, al_ActorDeviceID = device,
        al_Action = action, al_TargetType = targetType, al_TargetID = target, al_Metadata = metadata, al_CreatedAt = moment\<rparr>]\<rparr>))"

text \<open>\<open>ids\<close> are the identifier and the instant of the new audit row.\<close>

definition insertAudit ::
  "string \<times> time \<Rightarrow> Session \<Rightarrow> string \<Rightarrow> string \<Rightarrow> string \<Rightarrow> admin_db \<Rightarrow> admin_error + admin_db"
where
  "insertAudit ids actor action targetType targetID db =
     append_audit (fst ids) (snd ids) (Some (usr_ID actor)) (sess_DeviceID actor) action targetType
       (if targetID = '''' then None else Some (uuid targetID)) ''{}'' db"

definition BootstrapAdmin :: "string \<Rightarrow> time \<Rightarrow> string \<Rightarrow> string \<Rightarrow> string \<Rightarrow> admin_db \<Rightarrow> admin_db" where
  "BootstrapAdmin newID moment username email passwordHash db =
     (if db_users db \<noteq> [] then db
      else db\<lparr>db_users := [\<lparr>u_id = newID, u_username = username, u_email = email, u_password_hash = passwordHash,
             u_totp_secret = None, u_is_admin = True, u_disabled_at = None\<rparr>],
           adb_user_created := (adb_user_created db)(newID := moment)\<rparr>)"

text \<open>\<open>LIMIT\<close> and \<open>OFFSET\<close> of a listing in descending order of \<open>created\<close>.\<close>

definition page_desc :: "('a \<Rightarrow> time) \<Rightarrow> nat \<Rightarrow> nat \<Rightarrow> 'a list \<Rightarrow> 'a list" where
  "page_desc created limit offset rows = take limit (drop offset (SliceStable (\<lambda>a b. created b < created a) rows))"

definition ListAdminUsers :: "admin_db \<Rightarrow> nat \<Rightarrow> nat \<Rightarrow> AdminUser list" where
  "ListAdminUsers db limit offset = page_desc au_CreatedAt limit offset (map (admin_user db) (db_users db))"

definition CreateAdminUser ::
  "(string \<Rightarrow> string) \<Rightarrow> string \<Rightarrow> string \<times> time \<Rightarrow> Session \<Rightarrow> string \<Rightarrow> string \<Rightarrow> string \<Rightarrow> bool \<Rightarrow> admin_db \<Rightarrow>
     admin_error + admin_db \<times> AdminUser"
where
  "CreateAdminUser lower newID ids actor username email passwordHash isAdmin db =
     bindE (insert_user lower newID (snd ids) username email passwordHash isAdmin db) (\<lambda>(db1, user).
     bindE (insertAudit ids actor ''USER_CREATED'' ''USER'' newID db1) (\<lambda>db2. Inr (db2, user)))"

definition CreateAdminInvitation ::
  "(string \<Rightarrow> string) \<Rightarrow> string \<Rightarrow> string \<times> time \<Rightarrow> Session \<Rightarrow> string \<Rightarrow> string \<Rightarrow> bool \<Rightarrow> string \<Rightarrow> time \<Rightarrow> admin_db \<Rightarrow>
     admin_error + admin_db \<times> Invitation"
where
  "CreateAdminInvitation lower newID ids actor username email isAdmin tokenHash expiresAt db =
     (let moment = snd ids;
          named = (\<lambda>i. same_name lower username email (iv_username i) (iv_email i));
          left = filter (\<lambda>i. \<not> (iv_accepted_at i = None \<and> iv_expires_at i \<le> moment \<and> named i)) (adb_invitations db);
          row = \<lparr>iv_id = newID, iv_invited_by = usr_ID actor, iv_username = username, iv_email = email, iv_is_admin = isAdmin,
            iv_token_hash = tokenHash, iv_expires_at = expiresAt, iv_accepted_at = None, iv_created_at = moment\<rparr>
      in if user_exists lower username email db then Inl ErrConflict
         else if list_ex (\<lambda>i. iv_id i = newID \<or> iv_token_hash i = tokenHash \<or> iv_accepted_at i = None \<and> named i) left \<or>
           \<not> list_ex (\<lambda>u. u_id u = usr_ID actor) (db_users db) then Inl ErrConflict
         else bindE (insertAudit ids actor ''USER_INVITED'' ''USER_INVITATION'' newID (db\<lparr>adb_invitations := left @ [row]\<rparr>)) (\<lambda>db'.
           Inr (db', \<lparr>inv_ID = newID, inv_Username = username, inv_Email = email, inv_Admin = isAdmin, inv_Token = '''',
             inv_ExpiresAt = expiresAt, inv_CreatedAt = moment\<rparr>)))"

text \<open>\<open>jsonb_build_object\<close> of the identifier of the invitation.\<close>

definition invitation_metadata :: "string \<Rightarrow> string" where
  "invitation_metadata i = (let quoted = (\<lambda>s. CHR 0x22 # s @ [CHR 0x22])
     in ''{'' @ quoted ''invitationId'' @ '': '' @ quoted i @ ''}'')"

definition AcceptAdminInvitation ::
  "(string \<Rightarrow> string) \<Rightarrow> string \<Rightarrow> string \<times> time \<Rightarrow> string \<Rightarrow> string \<Rightarrow> time \<Rightarrow> admin_db \<Rightarrow> admin_error + admin_db \<times> AdminUser"
where
  "AcceptAdminInvitation lower newID ids tokenHash passwordHash now db =
     (case find (\<lambda>i. iv_token_hash i = tokenHash \<and> iv_accepted_at i = None \<and> now < iv_expires_at i) (adb_invitations db) of
        None \<Rightarrow> Inl ErrNotFound
      | Some i \<Rightarrow>
          bindE (insert_user lower newID (snd ids) (iv_username i) (iv_email i) passwordHash (iv_is_admin i) db) (\<lambda>(db1, user).
          bindE (append_audit (fst ids) (snd ids) None None ''USER_INVITATION_ACCEPTED'' ''USER'' (Some newID) (invitation_metadata (iv_id i))
            (db1\<lparr>adb_invitations := update_where (\<lambda>x. iv_id x = iv_id i) (\<lambda>x. x\<lparr>iv_accepted_at := Some now\<rparr>) (adb_invitations db1)\<rparr>))
            (\<lambda>db2. Inr (db2, user))))"

text \<open>\<open>UPDATE user_sessions SET revoked_at\<close> for the sessions of a user or of a device.\<close>

definition revoke_sessions :: "(SessionRow \<Rightarrow> bool) \<Rightarrow> time \<Rightarrow> admin_db \<Rightarrow> admin_db" where
  "revoke_sessions P now db = db\<lparr>db_sessions :=
     update_where (\<lambda>s. P s \<and> s_revoked_at s = None) (\<lambda>s. s\<lparr>s_revoked_at := Some now\<rparr>) (db_sessions db)\<rparr>"

definition DisableAdminUser :: "string \<times> time \<Rightarrow> Session \<Rightarrow> string \<Rightarrow> time \<Rightarrow> admin_db \<Rightarrow> admin_error + admin_db" where
  "DisableAdminUser ids actor userID now db =
     (let hit = (\<lambda>u. u_id u = uuid userID \<and> u_disabled_at u = None)
      in if \<not> list_ex hit (db_users db) then Inl ErrNotFound
         else insertAudit ids actor ''USER_DISABLED'' ''USER'' userID
           (revoke_sessions (\<lambda>s. s_user_id s = uuid userID) now
             (db\<lparr>db_users := update_where hit (\<lambda>u. u\<lparr>u_disabled_at := Some now\<rparr>) (db_users db)\<rparr>)))"

definition ResetAdminPassword ::
  "string \<times> time \<Rightarrow> Session \<Rightarrow> string \<Rightarrow> string \<Rightarrow> time \<Rightarrow> admin_db \<Rightarrow> admin_error + admin_db"
where
  "ResetAdminPassword ids actor userID passwordHash now db =
     (let hit = (\<lambda>u. u_id u = uuid userID \<and> u_disabled_at u = None)
      in if \<not> list_ex hit (db_users db) then Inl ErrNotFound
         else insertAudit ids actor ''USER_PASSWORD_RESET'' ''USER'' userID
           (revoke_sessions (\<lambda>s. s_user_id s = uuid userID) now
             (db\<lparr>db_users := update_where hit (\<lambda>u. u\<lparr>u_password_hash := passwordHash\<rparr>) (db_users db)\<rparr>)))"

text \<open>Every row that matches is updated; only the first one returned is read.\<close>

definition ResetAdminPasswordByIdentifier ::
  "(string \<Rightarrow> string) \<Rightarrow> string \<times> time \<Rightarrow> string \<Rightarrow> string \<Rightarrow> time \<Rightarrow> admin_db \<Rightarrow> admin_error + admin_db"
where
  "ResetAdminPasswordByIdentifier lower ids identifier passwordHash now db =
     (let hit = (\<lambda>u. (lower (u_username u) = lower identifier \<or> lower (u_email u) = lower identifier) \<and> u_disabled_at u = None)
      in case find hit (db_users db) of
           None \<Rightarrow> Inl ErrNotFound
         | Some u \<Rightarrow> append_audit (fst ids) (snd ids) None None ''USER_PASSWORD_RESET_CLI'' ''USER'' (Some (u_id u)) ''{}''
             (revoke_sessions (\<lambda>s. s_user_id s = u_id u) now
               (db\<lparr>db_users := update_where hit (\<lambda>u. u\<lparr>u_password_hash := passwordHash\<rparr>) (db_users db)\<rparr>)))"

section \<open>Devices and groups (postgres/admin.go)\<close>

definition ListAdminDevices :: "admin_db \<Rightarrow> nat \<Rightarrow> nat \<Rightarrow> AdminDevice list" where
  "ListAdminDevices db limit offset = page_desc ad_CreatedAt limit offset
     (map (\<lambda>(d, u). \<lparr>ad_ID = dr_id d, ad_OwnerUserID = dr_user d, ad_OwnerUsername = u_username u, ad_DisplayName = dr_name d,
         ad_Type = dr_type d, ad_TrustStatus = dr_trust d, ad_CreatedAt = dr_created_at d\<rparr>)
       (filter (\<lambda>(d, u). u_id u = dr_user d) (List.product (ddb_devices db) (db_users db))))"

definition RevokeAdminDevice :: "string \<times> time \<Rightarrow> Session \<Rightarrow> string \<Rightarrow> time \<Rightarrow> admin_db \<Rightarrow> admin_error + admin_db" where
  "RevokeAdminDevice ids actor deviceID now db =
     (let hit = (\<lambda>d. dr_id d = uuid deviceID \<and> dr_trust d \<noteq> TrustRevoked)
      in if \<not> list_ex hit (ddb_devices db) then Inl ErrNotFound
         else insertAudit ids actor ''DEVICE_REVOKED'' ''DEVICE'' deviceID
           (revoke_sessions (\<lambda>s. s_device_id s = Some (uuid deviceID)) now
             (db\<lparr>ddb_devices := update_where hit (\<lambda>d. d\<lparr>dr_trust := TrustRevoked, dr_revoked_at := Some now\<rparr>) (ddb_devices db)\<rparr>)))"

definition ListAdminGroups :: "admin_db \<Rightarrow> nat \<Rightarrow> nat \<Rightarrow> AdminGroup list" where
  "ListAdminGroups db limit offset = page_desc ag_CreatedAt limit offset
     (map (\<lambda>(g, u). \<lparr>ag_ID = gp_id g, ag_Name = gp_name g, ag_OwnerUserID = gp_owner g, ag_OwnerUsername = u_username u,
         ag_MemberCount = int (length (filter (\<lambda>m. mb_group m = gp_id g) (gdb_members db))),
         ag_DeviceCount = int (length (filter (\<lambda>v. gv_group v = gp_id g) (gdb_devices db))),
         ag_CreatedAt = gp_created_at g\<rparr>)
       (filter (\<lambda>(g, u). u_id u = gp_owner g) (List.product (gdb_groups db) (db_users db))))"

text \<open>
  Deleting the row of a group deletes its members, its devices and, by the foreign key of
  \<open>messages.group_id\<close>, the messages of the transfers that were sent to it.
\<close>

definition detach_group :: "string \<Rightarrow> time \<Rightarrow> transfer_db \<Rightarrow> transfer_db" where
  "detach_group g now t = t\<lparr>
     db_messages := filter (\<lambda>m. \<not> list_ex (\<lambda>k. task_id k = msg_transfer m \<and> task_group k = Some g) (db_tasks t)) (db_messages t),
     db_tasks := update_where (\<lambda>k. task_group k = Some g)
       (\<lambda>k. k\<lparr>task_group := None,
         task_group_deleted_at := Some (case task_group_deleted_at k of None \<Rightarrow> now | Some x \<Rightarrow> x)\<rparr>) (db_tasks t)\<rparr>"

definition DeleteAdminGroup :: "string \<times> time \<Rightarrow> Session \<Rightarrow> string \<Rightarrow> time \<Rightarrow> admin_db \<Rightarrow> admin_error + admin_db" where
  "DeleteAdminGroup ids actor groupID now db =
     (let g = uuid groupID; files = adb_files db
      in if \<not> list_ex (\<lambda>x. gp_id x = g) (gdb_groups db) then Inl ErrNotFound
         else insertAudit ids actor ''GROUP_DELETED'' ''GROUP'' groupID
           (db\<lparr>gdb_groups := filter (\<lambda>x. gp_id x \<noteq> g) (gdb_groups db),
              gdb_members := filter (\<lambda>m. mb_group m \<noteq> g) (gdb_members db),
              gdb_devices := filter (\<lambda>v. gv_group v \<noteq> g) (gdb_devices db),
              gdb_referenced := filter (\<lambda>x. x \<noteq> g) (gdb_referenced db),
              adb_files := files\<lparr>ft_db := detach_group g now (ft_db files)\<rparr>\<rparr>))"

section \<open>Settings, quotas and storage (postgres/admin.go)\<close>

definition AdminNodeSettings :: "admin_db \<Rightarrow> NodeSettings" where
  "AdminNodeSettings db = \<lparr>ns_PublicRegistrationEnabled = adb_registration db, ns_Limits = db_settings (ft_db (adb_files db))\<rparr>"

text \<open>The table checks the two percentages.\<close>

definition percentages_ok :: "Settings \<Rightarrow> bool" where
  "percentages_ok s \<longleftrightarrow> 0 < set_warning_percent s \<and> set_warning_percent s < set_stop_percent s \<and> set_stop_percent s \<le> 100"

definition UpdateAdminNodeSettings ::
  "string \<times> time \<Rightarrow> Session \<Rightarrow> NodeSettings \<Rightarrow> admin_db \<Rightarrow> admin_error + admin_db \<times> NodeSettings"
where
  "UpdateAdminNodeSettings ids actor settings db =
     (let files = adb_files db
      in if \<not> percentages_ok (ns_Limits settings) then Inl ErrDatabase
         else bindE (insertAudit ids actor ''NODE_SETTINGS_UPDATED'' ''NODE_SETTINGS'' ''''
             (db\<lparr>adb_registration := ns_PublicRegistrationEnabled settings,
                adb_files := files\<lparr>ft_db := (ft_db files)\<lparr>db_settings := ns_Limits settings\<rparr>\<rparr>\<rparr>))
           (\<lambda>db'. Inr (db', settings)))"

definition quota_key :: "Quota \<Rightarrow> QuotaRow \<Rightarrow> bool" where
  "quota_key q r \<longleftrightarrow> quo_group r = (qt_OwnerType q = ''GROUP'') \<and> quo_owner r = uuid (qt_OwnerID q)"

definition SetAdminQuota :: "string \<times> time \<Rightarrow> Session \<Rightarrow> Quota \<Rightarrow> admin_db \<Rightarrow> admin_error + admin_db \<times> Quota" where
  "SetAdminQuota ids actor q db =
     (let files = adb_files db; quotas = db_quotas (ft_db files);
          row = \<lparr>quo_group = (qt_OwnerType q = ''GROUP''), quo_owner = uuid (qt_OwnerID q), quo_byte_limit = qt_ByteLimit q,
            quo_daily_limit = Some (qt_DailyTransferLimit q)\<rparr>;
          quotas' = (if list_ex (quota_key q) quotas then update_where (quota_key q) (\<lambda>_. row) quotas else quotas @ [row]);
          q' = q\<lparr>qt_OwnerID := uuid (qt_OwnerID q), qt_BytesUsed := 0, qt_DailyTransferUsed := 0, qt_UpdatedAt := snd ids\<rparr>
      in bindE (insertAudit ids actor ''QUOTA_UPDATED'' (qt_OwnerType q') (qt_OwnerID q')
             (db\<lparr>adb_files := files\<lparr>ft_db := (ft_db files)\<lparr>db_quotas := quotas'\<rparr>\<rparr>\<rparr>))
           (\<lambda>db'. Inr (db', q')))"

definition file_sum :: "(FileRow \<Rightarrow> bool) \<Rightarrow> FileRow list \<Rightarrow> int" where
  "file_sum P fs = sum_list (map file_size (filter P fs))"

definition admin_scan :: "int \<Rightarrow> admin_error + int" where
  "admin_scan x = (if in64 x then Inr x else Inl ErrDatabase)"

definition AdminStorageOverview :: "admin_db \<Rightarrow> time \<Rightarrow> admin_error + StorageOverview" where
  "AdminStorageOverview db now =
     (let fs = db_files (ft_db (adb_files db))
      in bindE (admin_scan (file_sum (\<lambda>f. file_status f = ''COMPLETED'' \<and> now < file_expires_at f) fs)) (\<lambda>stored.
         bindE (admin_scan (file_sum (\<lambda>f. file_status f = ''UPLOADING'' \<and> now < file_expires_at f) fs)) (\<lambda>uploading.
         bindE (admin_scan (file_sum (\<lambda>f. file_expires_at f \<le> now) fs)) (\<lambda>gone.
         bindE (admin_scan (sum_list (map quo_byte_limit (db_quotas (ft_db (adb_files db)))))) (\<lambda>limit.
           Inr \<lparr>so_FileCount = int (length fs), so_StoredBytes = stored, so_UploadingBytes = uploading, so_ExpiredBytes = gone,
             so_QuotaBytesUsed = 0, so_QuotaByteLimit = limit\<rparr>)))))"

section \<open>Failures and the audit log (postgres/admin.go)\<close>

text \<open>\<open>target_id\<close> is the identifier of a row of \<open>transfer_targets\<close>; a failure comes with the status of its target.\<close>

definition failures :: "(TargetRow \<Rightarrow> string) \<Rightarrow> admin_db \<Rightarrow> (string \<times> TransferStatus \<times> Failure) list" where
  "failures target_id db =
     map (\<lambda>(r, t). (target_id r, tgt_status r, \<lparr>fl_TransferID = tgt_transfer r, fl_TargetDeviceID = tgt_device r,
         fl_ErrorCode = (case tgt_error_code r of None \<Rightarrow> ''UNKNOWN'' | Some e \<Rightarrow> e), fl_CreatedAt = task_created_at t\<rparr>))
       (filter (\<lambda>(r, t). task_id t = tgt_transfer r \<and> (tgt_error_code r \<noteq> None \<or> tgt_status r = TransferFailed))
         (List.product (db_targets (ft_db (adb_files db))) (db_tasks (ft_db (adb_files db)))))"

text \<open>The order of both listings: by the instant and then by the identifier, the newest first.\<close>

definition newer :: "('a \<Rightarrow> time \<times> string) \<Rightarrow> 'a \<Rightarrow> 'a \<Rightarrow> bool" where
  "newer key a b \<longleftrightarrow> key b < key a"

definition failure_key :: "string \<times> TransferStatus \<times> Failure \<Rightarrow> time \<times> string" where
  "failure_key x = (fl_CreatedAt (snd (snd x)), fst x)"

definition audit_key :: "AuditLog \<Rightarrow> time \<times> string" where
  "audit_key a = (al_CreatedAt a, al_ID a)"

definition ListAdminFailures :: "(TargetRow \<Rightarrow> string) \<Rightarrow> admin_db \<Rightarrow> nat \<Rightarrow> nat \<Rightarrow> Failure list" where
  "ListAdminFailures target_id db limit offset =
     map (snd \<circ> snd) (take limit (drop offset (SliceStable (newer failure_key) (failures target_id db))))"

definition ListAdminAuditLogs :: "admin_db \<Rightarrow> nat \<Rightarrow> nat \<Rightarrow> AuditLog list" where
  "ListAdminAuditLogs db limit offset = take limit (drop offset (SliceStable (newer audit_key) (adb_audit db)))"

text \<open>The range and the cursor of \<open>adminPageParameters\<close>; a zero instant is NULL.\<close>

definition in_options :: "PageOptions_admin \<Rightarrow> time \<times> string \<Rightarrow> bool" where
  "in_options options k \<longleftrightarrow>
     (IsZero (po_From options) \<or> po_From options \<le> fst k) \<and> (IsZero (po_To options) \<or> fst k \<le> po_To options) \<and>
     (IsZero (pk_CreatedAt (po_Cursor options)) \<or> k < (pk_CreatedAt (po_Cursor options), uuid (pk_ID (po_Cursor options))))"

text \<open>The end of both listings: one row more than asked for tells whether there is another page.\<close>

definition page_of :: "('a \<Rightarrow> time \<times> string) \<Rightarrow> PageOptions_admin \<Rightarrow> 'a list \<Rightarrow> 'a AdminPage" where
  "page_of key options rows =
     (let limit = nat (po_Limit options);
          items = take (limit + 1) (SliceStable (newer key) (filter (\<lambda>x. in_options options (key x)) rows))
      in if limit < length items
         then let k = key (items ! (limit - 1))
              in \<lparr>pg_Items = take limit items, pg_NextCursor = snd k, pg_NextPageKey = \<lparr>pk_ID = snd k, pk_CreatedAt = fst k\<rparr>\<rparr>
         else \<lparr>pg_Items = items, pg_NextCursor = '''', pg_NextPageKey = \<lparr>pk_ID = '''', pk_CreatedAt = 0\<rparr>\<rparr>)"

text \<open>\<open>status_text\<close> is the text of a status in its column.\<close>

definition ListAdminFailurePage ::
  "(TransferStatus \<Rightarrow> string) \<Rightarrow> (TargetRow \<Rightarrow> string) \<Rightarrow> PageOptions_admin \<Rightarrow> admin_db \<Rightarrow> (string \<times> TransferStatus \<times> Failure) AdminPage"
where
  "ListAdminFailurePage status_text target_id options db =
     page_of failure_key options (filter (\<lambda>(i, s, f). po_Status options = '''' \<or> status_text s = po_Status options) (failures target_id db))"

definition ListAdminAuditLogPage :: "PageOptions_admin \<Rightarrow> admin_db \<Rightarrow> AuditLog AdminPage" where
  "ListAdminAuditLogPage options db =
     page_of audit_key options (filter (\<lambda>a. po_Status options = '''' \<or> al_Action a = po_Status options) (adb_audit db))"

section \<open>Content of a group (postgres/admin.go)\<close>

definition content_paths :: "string \<Rightarrow> file_tables \<Rightarrow> string list" where
  "content_paths transferID st =
     filter (\<lambda>p. p \<noteq> '''') (map file_storage_path (filter (\<lambda>f. file_transfer f = transferID) (db_files (ft_db st)))) @
     filter (\<lambda>p. p \<noteq> '''') (map (\<lambda>(c, f). cr_StoragePath c) (filter (\<lambda>(c, f). file_id f = cr_FileID c \<and> file_transfer f = transferID)
       (List.product (ft_chunks st) (db_files (ft_db st)))))"

definition delete_content :: "string \<Rightarrow> time \<Rightarrow> transfer_db \<Rightarrow> transfer_db" where
  "delete_content transferID now t = t\<lparr>
     db_tasks := update_where (\<lambda>k. task_id k = transferID \<and> task_group k \<noteq> None \<and> task_group_deleted_at k = None)
       (\<lambda>k. k\<lparr>task_group_deleted_at := Some now, task_status := TransferCancelled\<rparr>) (db_tasks t),
     db_messages := update_where (\<lambda>m. msg_transfer m = transferID) (\<lambda>m. m\<lparr>msg_content := ''''\<rparr>) (db_messages t),
     db_files := update_where (\<lambda>f. file_transfer f = transferID)
       (\<lambda>f. f\<lparr>file_status := ''EXPIRED'', file_expires_at := now\<rparr>) (db_files t)\<rparr>"

definition DeleteAdminGroupContent ::
  "string \<times> time \<Rightarrow> Session \<Rightarrow> string \<Rightarrow> time \<Rightarrow> admin_db \<Rightarrow> admin_error + admin_db \<times> string list"
where
  "DeleteAdminGroupContent ids actor transferID now db =
     (let t = uuid transferID; files = adb_files db
      in if \<not> list_ex (\<lambda>k. task_id k = t \<and> task_group k \<noteq> None \<and> task_group_deleted_at k = None) (db_tasks (ft_db files))
         then Inl ErrNotFound
         else bindE (insertAudit ids actor ''GROUP_CONTENT_DELETED'' ''TRANSFER'' transferID
             (db\<lparr>adb_files := files\<lparr>ft_db := delete_content t now (ft_db files)\<rparr>\<rparr>))
           (\<lambda>db'. Inr (db', content_paths t files)))"

section \<open>The service (admin/service.go)\<close>

definition validUsernameEmail :: "string \<Rightarrow> string \<Rightarrow> bool" where
  "validUsernameEmail username email \<longleftrightarrow>
     (let u = TrimSpace username; e = TrimSpace email
      in 3 \<le> length u \<and> length u \<le> 64 \<and> 3 \<le> length e \<and> length e \<le> 254 \<and> Contains e ''@'')"

definition validIdentity :: "string \<Rightarrow> string \<Rightarrow> string \<Rightarrow> bool" where
  "validIdentity username email password \<longleftrightarrow> validUsernameEmail username email \<and> 12 \<le> length password"

definition validSettings :: "NodeSettings \<Rightarrow> bool" where
  "validSettings v \<longleftrightarrow>
     (let s = ns_Limits v
      in 0 < set_single_file_limit s \<and> 0 < set_default_user_quota s \<and> 0 < set_default_group_quota s \<and>
         0 < set_node_cache_limit s \<and> 0 < set_default_user_daily s \<and> 0 < set_default_group_daily s \<and>
         0 < set_warning_percent s \<and> set_warning_percent s < set_stop_percent s \<and> set_stop_percent s \<le> 100)"

definition validPage :: "int \<Rightarrow> int \<Rightarrow> bool" where
  "validPage limit offset \<longleftrightarrow> 0 < limit \<and> limit \<le> 200 \<and> 0 \<le> offset"

definition validPageOptions :: "PageOptions_admin \<Rightarrow> bool" where
  "validPageOptions o' \<longleftrightarrow> 0 < po_Limit o' \<and> po_Limit o' \<le> 100 \<and>
     (IsZero (po_From o') \<or> IsZero (po_To o') \<or> po_From o' \<le> po_To o')"

text \<open>
  What the service is given from outside: SQL's \<open>lower\<close>, bcrypt (\<open>None\<close> when it fails), SHA-256, the
  random bytes, and which paths cannot be removed.
\<close>

record AdminEnv =
  env_lower :: "string \<Rightarrow> string"
  env_bcrypt :: "string \<Rightarrow> string option"
  env_sha :: "string \<Rightarrow> string"
  env_random :: "string option"
  env_refuses :: "string \<Rightarrow> bool"

definition with_hash :: "AdminEnv \<Rightarrow> string \<Rightarrow> (string \<Rightarrow> admin_error + 'a) \<Rightarrow> admin_error + 'a" where
  "with_hash env password f = (case env_bcrypt env password of None \<Rightarrow> Inl ErrHash | Some h \<Rightarrow> f h)"

definition Bootstrap ::
  "AdminEnv \<Rightarrow> string \<Rightarrow> time \<Rightarrow> string \<Rightarrow> string \<Rightarrow> string \<Rightarrow> admin_db \<Rightarrow> admin_error + admin_db"
where
  "Bootstrap env newID now username email password db =
     (if username = '''' \<and> email = '''' \<and> password = '''' then Inr db
      else if \<not> validIdentity username email password then Inl ErrInvalid
      else with_hash env password (\<lambda>h. Inr (BootstrapAdmin newID now (TrimSpace username) (TrimSpace email) h db)))"

text \<open>The first check of every operation, and the check of a page.\<close>

definition admin_only :: "Session \<Rightarrow> admin_error + 'a \<Rightarrow> admin_error + 'a" where
  "admin_only session r = (if \<not> usr_Admin session then Inl ErrForbidden else r)"

definition paged :: "int \<Rightarrow> int \<Rightarrow> (nat \<Rightarrow> nat \<Rightarrow> 'a) \<Rightarrow> admin_error + 'a" where
  "paged limit offset f = (if \<not> validPage limit offset then Inl ErrInvalid else Inr (f (nat limit) (nat offset)))"

definition Users_admin :: "Session \<Rightarrow> int \<Rightarrow> int \<Rightarrow> admin_db \<Rightarrow> admin_error + AdminUser list" where
  "Users_admin session limit offset db = admin_only session (paged limit offset (ListAdminUsers db))"

definition CreateUser ::
  "AdminEnv \<Rightarrow> string \<Rightarrow> string \<times> time \<Rightarrow> Session \<Rightarrow> string \<Rightarrow> string \<Rightarrow> string \<Rightarrow> bool \<Rightarrow> admin_db \<Rightarrow>
     admin_error + admin_db \<times> AdminUser"
where
  "CreateUser env newID ids session username email password isAdmin db = admin_only session
     (if \<not> validIdentity username email password then Inl ErrInvalid
      else with_hash env password (\<lambda>h.
        CreateAdminUser (env_lower env) newID ids session (TrimSpace username) (TrimSpace email) h isAdmin db))"

definition InviteUser ::
  "AdminEnv \<Rightarrow> string \<Rightarrow> string \<times> time \<Rightarrow> time \<Rightarrow> Session \<Rightarrow> string \<Rightarrow> string \<Rightarrow> bool \<Rightarrow> admin_db \<Rightarrow>
     admin_error + admin_db \<times> Invitation"
where
  "InviteUser env newID ids now session username email isAdmin db = admin_only session
     (if \<not> validUsernameEmail username email then Inl ErrInvalid
      else case env_random env of
        None \<Rightarrow> Inl ErrRandom
      | Some bytes \<Rightarrow>
          let token = b64_encode bytes
          in bindE (CreateAdminInvitation (env_lower env) newID ids session (TrimSpace username) (TrimSpace email) isAdmin
               (env_sha env token) (now + 7 * 24 * hour) db)
             (\<lambda>(db', i). Inr (db', i\<lparr>inv_Token := token\<rparr>)))"

definition AcceptInvitation ::
  "AdminEnv \<Rightarrow> string \<Rightarrow> string \<times> time \<Rightarrow> time \<Rightarrow> string \<Rightarrow> string \<Rightarrow> admin_db \<Rightarrow> admin_error + admin_db \<times> AdminUser"
where
  "AcceptInvitation env newID ids now token password db =
     (let t = TrimSpace token
      in if length t < 32 \<or> 256 < length t \<or> length password < 12 then Inl ErrInvalid
         else with_hash env password (\<lambda>h. AcceptAdminInvitation (env_lower env) newID ids (env_sha env t) h now db))"

definition DisableUser :: "string \<times> time \<Rightarrow> time \<Rightarrow> Session \<Rightarrow> string \<Rightarrow> admin_db \<Rightarrow> admin_error + admin_db" where
  "DisableUser ids now session userID db = admin_only session
     (if \<not> isUUID userID \<or> userID = usr_ID session then Inl ErrInvalid
      else DisableAdminUser ids session userID now db)"

definition ResetPassword ::
  "AdminEnv \<Rightarrow> string \<times> time \<Rightarrow> time \<Rightarrow> Session \<Rightarrow> string \<Rightarrow> string \<Rightarrow> admin_db \<Rightarrow> admin_error + admin_db"
where
  "ResetPassword env ids now session userID password db = admin_only session
     (if \<not> isUUID userID \<or> length password < 12 then Inl ErrInvalid
      else with_hash env password (\<lambda>h. ResetAdminPassword ids session userID h now db))"

definition ResetPasswordByIdentifier ::
  "AdminEnv \<Rightarrow> string \<times> time \<Rightarrow> time \<Rightarrow> string \<Rightarrow> string \<Rightarrow> admin_db \<Rightarrow> admin_error + admin_db"
where
  "ResetPasswordByIdentifier env ids now identifier password db =
     (let i = TrimSpace identifier
      in if i = '''' \<or> length password < 12 then Inl ErrInvalid
         else with_hash env password (\<lambda>h. ResetAdminPasswordByIdentifier (env_lower env) ids i h now db))"

definition Devices_admin :: "Session \<Rightarrow> int \<Rightarrow> int \<Rightarrow> admin_db \<Rightarrow> admin_error + AdminDevice list" where
  "Devices_admin session limit offset db = admin_only session (paged limit offset (ListAdminDevices db))"

definition RevokeDevice_admin :: "string \<times> time \<Rightarrow> time \<Rightarrow> Session \<Rightarrow> string \<Rightarrow> admin_db \<Rightarrow> admin_error + admin_db" where
  "RevokeDevice_admin ids now session deviceID db = admin_only session
     (if \<not> isUUID deviceID then Inl ErrInvalid else RevokeAdminDevice ids session deviceID now db)"

definition Groups_admin :: "Session \<Rightarrow> int \<Rightarrow> int \<Rightarrow> admin_db \<Rightarrow> admin_error + AdminGroup list" where
  "Groups_admin session limit offset db = admin_only session (paged limit offset (ListAdminGroups db))"

definition DeleteGroup_admin :: "string \<times> time \<Rightarrow> time \<Rightarrow> Session \<Rightarrow> string \<Rightarrow> admin_db \<Rightarrow> admin_error + admin_db" where
  "DeleteGroup_admin ids now session groupID db = admin_only session
     (if \<not> isUUID groupID then Inl ErrInvalid else DeleteAdminGroup ids session groupID now db)"

definition Settings_admin :: "Session \<Rightarrow> admin_db \<Rightarrow> admin_error + NodeSettings" where
  "Settings_admin session db = admin_only session (Inr (AdminNodeSettings db))"

definition UpdateSettings ::
  "string \<times> time \<Rightarrow> Session \<Rightarrow> NodeSettings \<Rightarrow> admin_db \<Rightarrow> admin_error + admin_db \<times> NodeSettings"
where
  "UpdateSettings ids session settings db = admin_only session
     (if \<not> validSettings settings then Inl ErrInvalid else UpdateAdminNodeSettings ids session settings db)"

definition SetQuota ::
  "(string \<Rightarrow> string) \<Rightarrow> string \<times> time \<Rightarrow> Session \<Rightarrow> Quota \<Rightarrow> admin_db \<Rightarrow> admin_error + admin_db \<times> Quota"
where
  "SetQuota upper ids session quota db = admin_only session
     (let q = quota\<lparr>qt_OwnerType := upper (TrimSpace (qt_OwnerType quota))\<rparr>
      in if qt_OwnerType q \<noteq> ''USER'' \<and> qt_OwnerType q \<noteq> ''GROUP'' \<or> \<not> isUUID (qt_OwnerID q) \<or>
           qt_ByteLimit q < 0 \<or> qt_DailyTransferLimit q < 0 then Inl ErrInvalid
         else SetAdminQuota ids session q db)"

definition Storage_admin :: "Session \<Rightarrow> time \<Rightarrow> admin_db \<Rightarrow> admin_error + StorageOverview" where
  "Storage_admin session now db = admin_only session (AdminStorageOverview db now)"

definition Failures_admin :: "(TargetRow \<Rightarrow> string) \<Rightarrow> Session \<Rightarrow> int \<Rightarrow> int \<Rightarrow> admin_db \<Rightarrow> admin_error + Failure list" where
  "Failures_admin target_id session limit offset db = admin_only session (paged limit offset (ListAdminFailures target_id db))"

definition AuditLogs_admin :: "Session \<Rightarrow> int \<Rightarrow> int \<Rightarrow> admin_db \<Rightarrow> admin_error + AuditLog list" where
  "AuditLogs_admin session limit offset db = admin_only session (paged limit offset (ListAdminAuditLogs db))"

definition FailuresPage ::
  "(TransferStatus \<Rightarrow> string) \<Rightarrow> (TargetRow \<Rightarrow> string) \<Rightarrow> Session \<Rightarrow> PageOptions_admin \<Rightarrow> admin_db \<Rightarrow>
     admin_error + (string \<times> TransferStatus \<times> Failure) AdminPage"
where
  "FailuresPage status_text target_id session options db = admin_only session
     (if \<not> validPageOptions options then Inl ErrInvalid else Inr (ListAdminFailurePage status_text target_id options db))"

definition AuditLogsPage :: "Session \<Rightarrow> PageOptions_admin \<Rightarrow> admin_db \<Rightarrow> admin_error + AuditLog AdminPage" where
  "AuditLogsPage session options db = admin_only session
     (if \<not> validPageOptions options then Inl ErrInvalid else Inr (ListAdminAuditLogPage options db))"

text \<open>The paths are removed one by one; the first that cannot be removed ends the operation.\<close>

fun remove_all :: "(string \<Rightarrow> bool) \<Rightarrow> string list \<Rightarrow> disk \<Rightarrow> disk \<times> admin_error option" where
  "remove_all refuses [] disk = (disk, None)"
| "remove_all refuses (p # ps) disk =
     (if refuses p then (disk, Some ErrRemove) else remove_all refuses ps (disk(p := None)))"

definition DeleteGroupContent ::
  "AdminEnv \<Rightarrow> string \<times> time \<Rightarrow> time \<Rightarrow> Session \<Rightarrow> string \<Rightarrow> admin_db \<times> disk \<Rightarrow> (admin_db \<times> disk) \<times> admin_error option"
where
  "DeleteGroupContent env ids now session transferID s =
     (case s of (db, disk) \<Rightarrow>
        (case admin_only session (if \<not> isUUID transferID then Inl ErrInvalid
             else DeleteAdminGroupContent ids session transferID now db) of
           Inl e \<Rightarrow> (s, Some e)
         | Inr (db', paths) \<Rightarrow> (case remove_all (env_refuses env) paths disk of (disk', e) \<Rightarrow> ((db', disk'), e))))"

end
