(* ===== verification/AdminAudit.thy ===== *)
theory AdminAudit
  imports Admin
begin

text \<open>
  What the administration of a Node keeps: the audit log says who did what, some administrator stays,
  the pages of the audit log are complete; and where it does not: an administrator who spells his
  own identifier in capitals disables himself, and the files of deleted group content stay behind.
\<close>

section \<open>The operations of a session\<close>

text \<open>The state-changing operations of \<open>admin.Service\<close> that a session asks for; each has fresh identifiers and an instant.\<close>

datatype admin_op =
  OpCreateUser string string string bool
| OpInviteUser string string bool
| OpDisableUser string
| OpResetPassword string string
| OpRevokeDevice string
| OpDeleteGroup string
| OpUpdateSettings NodeSettings
| OpSetQuota Quota
| OpDeleteContent string

fun admin_exec ::
  "AdminEnv \<Rightarrow> (string \<Rightarrow> string) \<Rightarrow> string \<Rightarrow> string \<times> time \<Rightarrow> time \<Rightarrow> Session \<Rightarrow> admin_op \<Rightarrow> admin_db \<Rightarrow> admin_error + admin_db"
where
  "admin_exec env upper newID ids now s (OpCreateUser u e p a) db = map_sum id fst (CreateUser env newID ids s u e p a db)"
| "admin_exec env upper newID ids now s (OpInviteUser u e a) db = map_sum id fst (InviteUser env newID ids now s u e a db)"
| "admin_exec env upper newID ids now s (OpDisableUser u) db = DisableUser ids now s u db"
| "admin_exec env upper newID ids now s (OpResetPassword u p) db = ResetPassword env ids now s u p db"
| "admin_exec env upper newID ids now s (OpRevokeDevice d) db = RevokeDevice_admin ids now s d db"
| "admin_exec env upper newID ids now s (OpDeleteGroup g) db = DeleteGroup_admin ids now s g db"
| "admin_exec env upper newID ids now s (OpUpdateSettings v) db = map_sum id fst (UpdateSettings ids s v db)"
| "admin_exec env upper newID ids now s (OpSetQuota q) db = map_sum id fst (SetQuota upper ids s q db)"
| "admin_exec env upper newID ids now s (OpDeleteContent t) db =
     (case DeleteGroupContent env ids now s t (db, Map.empty) of ((db', disk), e) \<Rightarrow>
        if e = None \<or> e = Some ErrRemove then Inr db' else Inl (the e))"

fun action_of :: "admin_op \<Rightarrow> string" where
  "action_of (OpCreateUser u e p a) = ''USER_CREATED''"
| "action_of (OpInviteUser u e a) = ''USER_INVITED''"
| "action_of (OpDisableUser u) = ''USER_DISABLED''"
| "action_of (OpResetPassword u p) = ''USER_PASSWORD_RESET''"
| "action_of (OpRevokeDevice d) = ''DEVICE_REVOKED''"
| "action_of (OpDeleteGroup g) = ''GROUP_DELETED''"
| "action_of (OpUpdateSettings v) = ''NODE_SETTINGS_UPDATED''"
| "action_of (OpSetQuota q) = ''QUOTA_UPDATED''"
| "action_of (OpDeleteContent t) = ''GROUP_CONTENT_DELETED''"

lemma map_sum_fst_Inr [simp]: "map_sum id fst r = Inr db \<longleftrightarrow> (\<exists>v. r = Inr (db, v))"
  by (cases r) auto

lemma admin_only_Inr [simp]: "admin_only s r = Inr v \<longleftrightarrow> usr_Admin s \<and> r = Inr v"
  by (simp add: admin_only_def)

lemma with_hash_Inr [simp]: "with_hash env p f = Inr v \<longleftrightarrow> (\<exists>h. env_bcrypt env p = Some h \<and> f h = Inr v)"
  by (simp add: with_hash_def split: option.split)

lemma if_Inl_Inr: "(if b then Inl e else r) = Inr v \<longleftrightarrow> \<not> b \<and> r = Inr v"
  by simp

definition audit_row :: "string \<times> time \<Rightarrow> Session \<Rightarrow> string \<Rightarrow> AuditLog \<Rightarrow> bool" where
  "audit_row ids s action a \<longleftrightarrow> al_ID a = fst ids \<and> al_CreatedAt a = snd ids \<and> al_ActorUserID a = Some (usr_ID s) \<and>
     al_ActorDeviceID a = sess_DeviceID s \<and> al_Action a = action"

text \<open>One row more, by the session, and the actor has an account.\<close>

definition audited_by :: "string \<times> time \<Rightarrow> Session \<Rightarrow> string \<Rightarrow> admin_db \<Rightarrow> admin_db \<Rightarrow> bool" where
  "audited_by ids s action db db' \<longleftrightarrow> (\<exists>a. audit_row ids s action a \<and> adb_audit db' = adb_audit db @ [a]) \<and>
     list_ex (\<lambda>u. u_id u = usr_ID s) (db_users db')"

lemma insertAudit_Inr:
  "insertAudit ids s action ty tg db = Inr db' \<Longrightarrow> audited_by ids s action db db' \<and> db_users db' = db_users db \<and>
     db_sessions db' = db_sessions db \<and> adb_files db' = adb_files db"
  by (auto simp: insertAudit_def append_audit_def audited_by_def audit_row_def split: if_splits)

lemma audited_by_cong: "audited_by ids s action db1 db' \<Longrightarrow> adb_audit db1 = adb_audit db \<Longrightarrow> audited_by ids s action db db'"
  by (simp add: audited_by_def)

lemma insert_user_audit: "insert_user lower i t u e p a db = Inr (db1, v) \<Longrightarrow> adb_audit db1 = adb_audit db"
  by (auto simp: insert_user_def Let_def split: if_splits)

lemma revoke_sessions_simps [simp]:
  "adb_audit (revoke_sessions P now db) = adb_audit db" "db_users (revoke_sessions P now db) = db_users db"
  "adb_files (revoke_sessions P now db) = adb_files db"
  by (simp_all add: revoke_sessions_def)


section \<open>The audit log\<close>

lemma DeleteGroupContent_Inr:
  assumes "admin_exec env upper newID ids now s (OpDeleteContent t) db = Inr db'"
  shows "usr_Admin s" and "\<exists>paths. DeleteAdminGroupContent ids s t now db = Inr (db', paths)"
proof -
  have "usr_Admin s \<and> (\<exists>paths. DeleteAdminGroupContent ids s t now db = Inr (db', paths))"
  proof (cases "usr_Admin s \<and> isUUID t")
    case True
    show ?thesis
    proof (cases "DeleteAdminGroupContent ids s t now db")
      case (Inl e)
      have "e \<noteq> ErrRemove"
        using Inl by (auto simp: DeleteAdminGroupContent_def insertAudit_def append_audit_def Let_def bindE_eq_Inl split: if_splits)
      then show ?thesis using assms True Inl by (simp add: DeleteGroupContent_def admin_only_def)
    next
      case (Inr v)
      then show ?thesis using assms True
        by (cases v) (auto simp: DeleteGroupContent_def admin_only_def split: prod.splits if_splits)
    qed
  next
    case False
    then show ?thesis using assms by (auto simp: DeleteGroupContent_def admin_only_def split: if_splits)
  qed
  then show "usr_Admin s" and "\<exists>paths. DeleteAdminGroupContent ids s t now db = Inr (db', paths)" by simp_all
qed

lemma audited_insert:
  "insertAudit ids s action ty tg db1 = Inr db' \<Longrightarrow> adb_audit db1 = adb_audit db \<Longrightarrow> audited_by ids s action db db'"
  using insertAudit_Inr audited_by_cong by blast

lemma CreateUser_audited: "CreateUser env newID ids s u e p a db = Inr (db', v) \<Longrightarrow> usr_Admin s \<and> audited_by ids s ''USER_CREATED'' db db'"
  by (auto simp: CreateUser_def CreateAdminUser_def if_Inl_Inr intro: audited_insert insert_user_audit)

lemma InviteUser_audited: "InviteUser env newID ids now s u e a db = Inr (db', v) \<Longrightarrow> usr_Admin s \<and> audited_by ids s ''USER_INVITED'' db db'"
  by (auto simp: InviteUser_def CreateAdminInvitation_def Let_def if_Inl_Inr intro: audited_insert split: option.splits)

lemma DisableUser_audited: "DisableUser ids now s u db = Inr db' \<Longrightarrow> usr_Admin s \<and> audited_by ids s ''USER_DISABLED'' db db'"
  by (auto simp: DisableUser_def DisableAdminUser_def Let_def if_Inl_Inr intro: audited_insert)

lemma ResetPassword_audited: "ResetPassword env ids now s u p db = Inr db' \<Longrightarrow> usr_Admin s \<and> audited_by ids s ''USER_PASSWORD_RESET'' db db'"
  by (auto simp: ResetPassword_def ResetAdminPassword_def Let_def if_Inl_Inr intro: audited_insert)

lemma RevokeDevice_audited: "RevokeDevice_admin ids now s d db = Inr db' \<Longrightarrow> usr_Admin s \<and> audited_by ids s ''DEVICE_REVOKED'' db db'"
  by (auto simp: RevokeDevice_admin_def RevokeAdminDevice_def Let_def if_Inl_Inr intro: audited_insert)

lemma DeleteGroup_audited: "DeleteGroup_admin ids now s g db = Inr db' \<Longrightarrow> usr_Admin s \<and> audited_by ids s ''GROUP_DELETED'' db db'"
  by (auto simp: DeleteGroup_admin_def DeleteAdminGroup_def Let_def if_Inl_Inr intro: audited_insert)

lemma UpdateSettings_audited: "UpdateSettings ids s v db = Inr (db', w) \<Longrightarrow> usr_Admin s \<and> audited_by ids s ''NODE_SETTINGS_UPDATED'' db db'"
  by (auto simp: UpdateSettings_def UpdateAdminNodeSettings_def Let_def if_Inl_Inr intro: audited_insert)

lemma SetQuota_audited: "SetQuota upper ids s q db = Inr (db', w) \<Longrightarrow> usr_Admin s \<and> audited_by ids s ''QUOTA_UPDATED'' db db'"
  by (auto simp: SetQuota_def SetAdminQuota_def Let_def if_Inl_Inr intro: audited_insert)

lemma DeleteContent_audited: "DeleteAdminGroupContent ids s t now db = Inr (db', paths) \<Longrightarrow> audited_by ids s ''GROUP_CONTENT_DELETED'' db db'"
  by (auto simp: DeleteAdminGroupContent_def Let_def if_Inl_Inr intro: audited_insert)

lemma administration_trace:
  assumes "admin_exec env upper newID ids now s op db = Inr db'"
  shows "usr_Admin s \<and> audited_by ids s (action_of op) db db'"
  using assms DeleteGroupContent_Inr [of env upper newID ids now s _ db db']
  by (cases op) (auto dest: CreateUser_audited InviteUser_audited DisableUser_audited ResetPassword_audited RevokeDevice_audited
      DeleteGroup_audited UpdateSettings_audited SetQuota_audited DeleteContent_audited simp del: admin_exec.simps(9))

text \<open>
  C26. Nothing is administered without a trace: an operation that succeeds was asked by a session of
  an administrator, adds exactly one row to the audit log, with the action, the user and the device
  of the session, and keeps every older row.
\<close>

theorem administration_audited:
  assumes "admin_exec env upper newID ids now s op db = Inr db'"
  shows "usr_Admin s \<and> (\<exists>a. adb_audit db' = adb_audit db @ [a] \<and> al_ID a = fst ids \<and> al_CreatedAt a = snd ids \<and>
    al_ActorUserID a = Some (usr_ID s) \<and> al_ActorDeviceID a = sess_DeviceID s \<and> al_Action a = action_of op)"
  using administration_trace [OF assms] unfolding audited_by_def audit_row_def by blast

section \<open>Some administrator stays\<close>

definition enabled_admin :: "UserRow \<Rightarrow> bool" where
  "enabled_admin u \<longleftrightarrow> u_is_admin u \<and> u_disabled_at u = None"

text \<open>The session is of an account that is not disabled, and says truly whether it is an administrator's.\<close>

definition session_live :: "Session \<Rightarrow> admin_db \<Rightarrow> bool" where
  "session_live s db \<longleftrightarrow> list_ex (\<lambda>u. u_id u = usr_ID s \<and> u_disabled_at u = None \<and> u_is_admin u = usr_Admin s) (db_users db)"

text \<open>Identifiers in the spelling of the database.\<close>

fun plain_target :: "admin_op \<Rightarrow> bool" where
  "plain_target (OpDisableUser u) = (uuid u = u)"
| "plain_target _ = True"

definition keeps_user :: "string \<Rightarrow> admin_db \<Rightarrow> admin_db \<Rightarrow> bool" where
  "keeps_user i db db' \<longleftrightarrow> (\<forall>u \<in> set (db_users db). u_id u = i \<longrightarrow>
     (\<exists>u' \<in> set (db_users db'). u_id u' = i \<and> u_is_admin u' = u_is_admin u \<and> u_disabled_at u' = u_disabled_at u))"

lemma keeps_userI: "set (db_users db) \<subseteq> set (db_users db') \<Longrightarrow> keeps_user i db db'"
  unfolding keeps_user_def by blast

lemma keeps_userD:
  "keeps_user i db db' \<Longrightarrow> u \<in> set (db_users db) \<Longrightarrow> u_id u = i \<Longrightarrow>
     \<exists>u' \<in> set (db_users db'). u_id u' = i \<and> u_is_admin u' = u_is_admin u \<and> u_disabled_at u' = u_disabled_at u"
  by (simp add: keeps_user_def)

lemma keeps_user_update:
  assumes "db_users db' = update_where hit f (db_users db)"
    and "\<And>u. u \<in> set (db_users db) \<Longrightarrow> hit u \<Longrightarrow> u_id u = i \<Longrightarrow>
      u_id (f u) = i \<and> u_is_admin (f u) = u_is_admin u \<and> u_disabled_at (f u) = u_disabled_at u"
  shows "keeps_user i db db'"
  unfolding keeps_user_def assms(1) set_update_where using assms(2) by blast

lemma insertAudit_users: "insertAudit ids s action ty tg db1 = Inr db' \<Longrightarrow> db_users db' = db_users db1"
  by (simp add: insertAudit_Inr)

lemma CreateUser_keeps: "CreateUser env newID ids s u e p a db = Inr (db', v) \<Longrightarrow> keeps_user i db db'"
  by (rule keeps_userI) (auto simp: CreateUser_def CreateAdminUser_def insert_user_def Let_def if_Inl_Inr dest!: insertAudit_users split: if_splits)

lemma InviteUser_keeps: "InviteUser env newID ids now s u e a db = Inr (db', v) \<Longrightarrow> keeps_user i db db'"
  by (rule keeps_userI) (auto simp: InviteUser_def CreateAdminInvitation_def Let_def if_Inl_Inr dest!: insertAudit_users split: option.splits)

lemma DisableUser_keeps: "DisableUser ids now s u db = Inr db' \<Longrightarrow> uuid u \<noteq> i \<Longrightarrow> keeps_user i db db'"
  by (rule keeps_user_update [where hit = "\<lambda>x. u_id x = uuid u \<and> u_disabled_at x = None"])
    (auto simp: DisableUser_def DisableAdminUser_def Let_def if_Inl_Inr dest!: insertAudit_users)

lemma ResetPassword_keeps: "ResetPassword env ids now s u p db = Inr db' \<Longrightarrow> keeps_user i db db'"
  unfolding ResetPassword_def ResetAdminPassword_def Let_def admin_only_Inr if_Inl_Inr with_hash_Inr
  by (elim conjE exE, rule keeps_user_update, drule insertAudit_users, simp) simp

lemma admin_exec_keeps:
  assumes "admin_exec env upper newID ids now s op db = Inr db'" and "\<And>u. op = OpDisableUser u \<Longrightarrow> uuid u \<noteq> i"
  shows "keeps_user i db db'"
proof (cases op)
  case (OpDisableUser u)
  then show ?thesis using assms(1) assms(2) [OF OpDisableUser] by (simp add: DisableUser_keeps)
next
  case (OpDeleteContent t)
  have "db_users db' = db_users db"
    using DeleteGroupContent_Inr(2) [OF assms(1) [unfolded OpDeleteContent]]
    by (auto simp: DeleteAdminGroupContent_def Let_def if_Inl_Inr dest!: insertAudit_users)
  then show ?thesis by (simp add: keeps_userI)
qed (use assms(1) in \<open>auto simp: RevokeDevice_admin_def RevokeAdminDevice_def DeleteGroup_admin_def DeleteAdminGroup_def
    UpdateSettings_def UpdateAdminNodeSettings_def SetQuota_def SetAdminQuota_def Let_def if_Inl_Inr
    intro: CreateUser_keeps InviteUser_keeps ResetPassword_keeps keeps_userI dest!: insertAudit_users\<close>)

text \<open>An account never loses its row, and its right to administer stays what it was.\<close>

definition right_of :: "string \<Rightarrow> bool \<Rightarrow> admin_db \<Rightarrow> bool" where
  "right_of i a db \<longleftrightarrow> list_ex (\<lambda>u. u_id u = i \<and> u_is_admin u = a) (db_users db)"

lemma keeps_right: "keeps_user i db db' \<Longrightarrow> right_of i a db \<Longrightarrow> right_of i a db'"
  unfolding right_of_def list_ex_iff by (metis keeps_userD)

lemma DisableUser_right: "DisableUser ids now s u db = Inr db' \<Longrightarrow> right_of i a db \<Longrightarrow> right_of i a db'"
  by (auto simp: DisableUser_def DisableAdminUser_def Let_def if_Inl_Inr right_of_def list_ex_update_where dest!: insertAudit_users)

lemma admin_exec_right:
  assumes "admin_exec env upper newID ids now s op db = Inr db'" and "right_of i a db"
  shows "right_of i a db'"
proof (cases "\<exists>u. op = OpDisableUser u")
  case True
  then show ?thesis using assms by (elim exE) (simp, rule DisableUser_right)
next
  case False
  then show ?thesis using assms admin_exec_keeps keeps_right by blast
qed

text \<open>
  Requests overlap. A request is asked for (the session is looked up, and the request goes on with
  what was found) and acts later, on the tables as they are then: neither the service nor the
  statements look at the account of the asker again. The requests that have been asked for and have
  not acted are the second half of the state; each has an identifier of its own.
\<close>

datatype admin_event =
  Asks nat Session
| Acts nat string "string \<times> time" time admin_op

type_synonym admin_state = "admin_db \<times> (nat \<Rightarrow> Session option)"

fun admin_step :: "AdminEnv \<Rightarrow> (string \<Rightarrow> string) \<Rightarrow> admin_event \<Rightarrow> admin_state \<Rightarrow> admin_state" where
  "admin_step env upper (Asks i s) (db, asked) = (if session_live s db then (db, asked(i \<mapsto> s)) else (db, asked))"
| "admin_step env upper (Acts i newID ids now op) (db, asked) =
     (case asked i of
        None \<Rightarrow> (db, asked)
      | Some s \<Rightarrow> (keep_on_error db (\<lambda>db'. db') (admin_exec env upper newID ids now s op db), asked(i := None)))"

definition admin_run :: "AdminEnv \<Rightarrow> (string \<Rightarrow> string) \<Rightarrow> admin_event list \<Rightarrow> admin_db \<Rightarrow> admin_state" where
  "admin_run env upper evs db = fold (admin_step env upper) evs (db, Map.empty)"

lemma admin_run_snoc: "admin_run env upper (evs @ [ev]) db = admin_step env upper ev (admin_run env upper evs db)"
  by (simp add: admin_run_def)

fun plain_event :: "admin_event \<Rightarrow> bool" where
  "plain_event (Asks i s) = True"
| "plain_event (Acts i newID ids now op) = plain_target op"

text \<open>The account of a session is disabled.\<close>

definition asker_disabled :: "Session \<Rightarrow> admin_db \<Rightarrow> bool" where
  "asker_disabled s db \<longleftrightarrow> list_ex (\<lambda>u. u_id u = usr_ID s \<and> u_is_admin u \<and> u_disabled_at u \<noteq> None) (db_users db)"

text \<open>Requests that have been asked for are of accounts whose right is what the session says.\<close>

lemma asked_right:
  "snd (admin_run env upper evs db) i = Some s \<Longrightarrow> right_of (usr_ID s) (usr_Admin s) (fst (admin_run env upper evs db))"
proof (induction evs arbitrary: i s rule: rev_induct)
  case Nil
  then show ?case by (simp add: admin_run_def)
next
  case (snoc ev evs)
  obtain db1 asked where run: "admin_run env upper evs db = (db1, asked)" by (cases "admin_run env upper evs db")
  have IH: "asked j = Some r \<Longrightarrow> right_of (usr_ID r) (usr_Admin r) db1" for j r using snoc.IH run by simp
  show ?case
  proof (cases ev)
    case (Asks j r)
    have "session_live r db1 \<Longrightarrow> right_of (usr_ID r) (usr_Admin r) db1"
      by (auto simp: session_live_def right_of_def list_ex_iff)
    then show ?thesis using snoc.prems IH Asks run by (auto simp: admin_run_snoc split: if_splits)
  next
    case (Acts j newID ids now op)
    then show ?thesis using snoc.prems IH run admin_exec_right
      by (cases "asked j") (auto simp: admin_run_snoc keep_on_error_def split: if_splits sum.splits)
  qed
qed

lemma exec_keeps_admin:
  assumes "admin_exec env upper newID ids now s op db = Inr db'" and "plain_target op"
    and "list_ex enabled_admin (db_users db)" and "\<not> list_ex enabled_admin (db_users db')"
  shows "\<exists>u. op = OpDisableUser u \<and> usr_Admin s \<and> \<not> session_live s db"
proof -
  have lost: "\<not> keeps_user (u_id u) db db'" if "u \<in> set (db_users db)" "enabled_admin u" for u
    using that assms(4) keeps_userD [of "u_id u" db db' u] unfolding list_ex_iff enabled_admin_def by metis
  have "\<exists>u. op = OpDisableUser u"
    using assms(1,3) admin_exec_keeps lost unfolding list_ex_iff by metis
  then obtain t where t: "op = OpDisableUser t" by blast
  have admin: "usr_Admin s" using administration_trace [OF assms(1)] by simp
  have "uuid t \<noteq> usr_ID s" using assms(1,2) t by (auto simp: DisableUser_def)
  then have "keeps_user (usr_ID s) db db'" using admin_exec_keeps [OF assms(1)] t by simp
  then have "\<not> session_live s db" using lost admin unfolding session_live_def list_ex_iff enabled_admin_def by metis
  then show ?thesis using t admin by blast
qed

text \<open>
  C27. Administrators cannot lock everyone out one after the other: from tables with an enabled
  administrator, whatever requests are asked for and act in whatever order, and as long as accounts
  are named by the spelling of their identifier that the database uses, either an enabled
  administrator is left, or a request to disable an account was carried out whose asker, an
  administrator when he asked, had been disabled himself before it acted. Only requests that overlap
  like this can leave the Node without an administrator (\<open>overlapping_disables\<close> shows that they do).
\<close>

theorem some_administrator_stays:
  assumes "list_ex enabled_admin (db_users db)" and "list_all plain_event evs"
  shows "list_ex enabled_admin (db_users (fst (admin_run env upper evs db))) \<or>
    (\<exists>before i newID ids now u later s. evs = before @ Acts i newID ids now (OpDisableUser u) # later \<and>
       snd (admin_run env upper before db) i = Some s \<and> usr_Admin s \<and>
       asker_disabled s (fst (admin_run env upper before db)))"
  using assms(2)
proof (induction evs rule: rev_induct)
  case Nil
  then show ?case using assms(1) by (simp add: admin_run_def)
next
  case (snoc ev evs)
  let ?overtaken = "\<lambda>evs. \<exists>before i newID ids now u later s. evs = before @ Acts i newID ids now (OpDisableUser u) # later \<and>
       snd (admin_run env upper before db) i = Some s \<and> usr_Admin s \<and> asker_disabled s (fst (admin_run env upper before db))"
  obtain db1 asked where run: "admin_run env upper evs db = (db1, asked)" by (cases "admin_run env upper evs db")
  have IH: "list_ex enabled_admin (db_users db1) \<or> ?overtaken evs"
    using snoc.IH snoc.prems unfolding run by (simp only: list_all_append fst_conv)
  have later: "?overtaken evs \<Longrightarrow> ?overtaken (evs @ [ev])"
    by (elim exE conjE) (simp only: append_assoc append_Cons, blast)
  show ?case
  proof (cases "?overtaken evs \<or> list_ex enabled_admin (db_users (fst (admin_run env upper (evs @ [ev]) db)))")
    case True
    then show ?thesis using later by blast
  next
    case False
    then have before: "list_ex enabled_admin (db_users db1)" using IH by blast
    have after: "\<not> list_ex enabled_admin (db_users (fst (admin_step env upper ev (db1, asked))))"
      using False by (simp add: admin_run_snoc run)
    then obtain i newID ids now op s where ev: "ev = Acts i newID ids now op" "asked i = Some s"
      using before by (cases ev) (auto split: if_splits option.splits)
    then obtain db2 where db2: "admin_exec env upper newID ids now s op db1 = Inr db2"
      using before after by (cases "admin_exec env upper newID ids now s op db1") (auto simp: keep_on_error_def)
    then have "\<not> list_ex enabled_admin (db_users db2)" using after ev by (simp add: keep_on_error_def)
    moreover have "plain_target op" using snoc.prems ev by simp
    ultimately obtain u where u: "op = OpDisableUser u" "usr_Admin s" "\<not> session_live s db1"
      using exec_keeps_admin [OF db2 _ before] by blast
    have "right_of (usr_ID s) True db1" using asked_right [of env upper evs db i s] run ev(2) u(2) by simp
    then have "asker_disabled s db1"
      using u(2,3) by (auto simp: right_of_def asker_disabled_def session_live_def list_ex_iff)
    then have "?overtaken (evs @ [ev])"
      using ev u(1,2) run by (intro exI [of _ evs] exI [of _ i] exI [of _ newID] exI [of _ ids] exI [of _ now] exI [of _ u]
        exI [of _ "[]"] exI [of _ s]) simp
    then show ?thesis by blast
  qed
qed

text \<open>
  The check against disabling oneself compares text, the statement compares identifiers: the only
  administrator who names himself in another spelling (in capitals) is disabled and all his
  sessions are closed; no enabled administrator is left, the bootstrap of the next start adds none,
  and the account cannot log in any more.
\<close>

theorem self_disable_by_spelling:
  assumes "list_all (\<lambda>u. enabled_admin u \<longrightarrow> u_id u = usr_ID s) (db_users db)"
    and "session_live s db" and "usr_Admin s" and "isUUID t" and "uuid t = usr_ID s" and "t \<noteq> usr_ID s"
    and "list_all (\<lambda>v. list_ex (\<lambda>d. dr_id d = v) (ddb_devices db)) (case sess_DeviceID s of None \<Rightarrow> [] | Some d \<Rightarrow> [d])"
  shows "\<exists>db'. DisableUser ids now s t db = Inr db' \<and> \<not> list_ex enabled_admin (db_users db') \<and>
    list_all (\<lambda>x. s_user_id x = usr_ID s \<longrightarrow> s_revoked_at x \<noteq> None) (db_sessions db') \<and>
    BootstrapAdmin newID now username email hash db' = db'"
proof -
  let ?hit = "\<lambda>u. u_id u = uuid t \<and> u_disabled_at u = None"
  let ?users = "update_where ?hit (\<lambda>u. u\<lparr>u_disabled_at := Some now\<rparr>) (db_users db)"
  let ?db1 = "revoke_sessions (\<lambda>x. s_user_id x = uuid t) now (db\<lparr>db_users := ?users\<rparr>)"
  obtain u where u: "u \<in> set (db_users db)" "u_id u = usr_ID s" "u_disabled_at u = None"
    using assms(2) unfolding session_live_def list_ex_iff by blast
  then have hit: "list_ex ?hit (db_users db)" unfolding list_ex_iff using assms(5) by (intro bexI [of _ u]) simp_all
  have "u\<lparr>u_disabled_at := Some now\<rparr> \<in> set ?users" using u assms(5) by (intro update_where_mem) simp_all
  then have "list_ex (\<lambda>x. u_id x = usr_ID s) ?users" unfolding list_ex_iff using u(2) by (intro bexI) simp_all
  then obtain db' where db': "insertAudit ids s ''USER_DISABLED'' ''USER'' t ?db1 = Inr db'"
    using assms(7) by (simp add: insertAudit_def append_audit_def revoke_sessions_def split: option.splits)
  have "DisableUser ids now s t db = Inr db'"
    using assms(3,4,6) hit db' by (simp add: DisableUser_def DisableAdminUser_def Let_def)
  moreover have "\<not> list_ex enabled_admin (db_users db')"
    using insertAudit_users [OF db'] assms(1,5) by (auto simp: list_ex_iff list_all_iff set_update_where enabled_admin_def)
  moreover have "list_all (\<lambda>x. s_user_id x = usr_ID s \<longrightarrow> s_revoked_at x \<noteq> None) (db_sessions db')"
    using insertAudit_Inr [OF db'] assms(5) by (auto simp: revoke_sessions_def list_all_iff set_update_where)
  moreover have "db_users db' \<noteq> []"
    using insertAudit_users [OF db'] u(1) by (auto simp: update_where_def)
  ultimately show ?thesis by (simp add: BootstrapAdmin_def)
qed


section \<open>The pages of the listings\<close>

text \<open>A client that asks for page after page, each time with the key the page before came with.\<close>

fun follow :: "(PageOptions_admin \<Rightarrow> 'a AdminPage) \<Rightarrow> nat \<Rightarrow> PageOptions_admin \<Rightarrow> 'a list" where
  "follow page 0 options = []"
| "follow page (Suc n) options =
     (let p = page options
      in pg_Items p @ (if pg_NextCursor p = '''' then [] else follow page n (options\<lparr>po_Cursor := pg_NextPageKey p\<rparr>)))"

lemma newer_desc: "keyed_order_desc (newer key) key"
  by unfold_locales (simp add: newer_def)

interpretation by_audit_key: keyed_order_desc "newer audit_key" audit_key
  by (rule newer_desc)

interpretation by_failure_key: keyed_order_desc "newer failure_key" failure_key
  by (rule newer_desc)

lemma newer_stable: "stable_order (newer key)"
  by unfold_locales (auto simp: newer_def)

text \<open>Instants and identifiers a cursor can carry.\<close>

definition key_ok :: "time \<times> string \<Rightarrow> bool" where
  "key_ok k \<longleftrightarrow> fst k \<noteq> 0 \<and> snd k \<noteq> '''' \<and> uuid (snd k) = snd k"

definition keys_ok :: "('a \<Rightarrow> time \<times> string) \<Rightarrow> 'a list \<Rightarrow> bool" where
  "keys_ok key rows \<longleftrightarrow> distinct (map key rows) \<and> list_all (\<lambda>x. key_ok (key x)) rows"

definition listed_rows :: "('a \<Rightarrow> time \<times> string) \<Rightarrow> PageOptions_admin \<Rightarrow> 'a list \<Rightarrow> 'a list" where
  "listed_rows key options rows = SliceStable (newer key) (filter (\<lambda>x. in_options options (key x)) rows)"

lemma descending_keys: "sorted_wrt (\<ge>) ks \<Longrightarrow> distinct ks \<Longrightarrow> sorted_wrt (>) (ks :: 'k::linorder list)"
  by (induction ks) (auto simp: le_less)

lemma listed_desc:
  assumes "keys_ok key rows"
  shows "sorted_wrt (\<lambda>a b. key b < key a) (listed_rows key options rows)"
proof -
  let ?xs = "listed_rows key options rows"
  have "sorted_wrt (\<ge>) (map key ?xs)" unfolding listed_rows_def
    using stable_order.ordered_SliceStable [OF newer_stable] keyed_order_desc.ordered_key [OF newer_desc] by blast
  moreover have "distinct (map key ?xs)"
  proof -
    have "distinct (map key (filter (\<lambda>x. in_options options (key x)) rows))"
      using assms by (auto simp: keys_ok_def intro: distinct_map_filter)
    moreover have "mset (map key ?xs) = mset (map key (filter (\<lambda>x. in_options options (key x)) rows))"
      by (simp add: listed_rows_def)
    ultimately show ?thesis by (metis mset_eq_imp_distinct_iff)
  qed
  ultimately have "sorted_wrt (>) (map key ?xs)" by (rule descending_keys)
  then show ?thesis by (simp add: sorted_wrt_map)
qed

lemma after_key:
  assumes "sorted_wrt (\<lambda>a b. key b < key a) xs" and "0 < n" and "n \<le> length xs"
  shows "filter (\<lambda>x. key x < (key (xs ! (n - 1)) :: 'k::linorder)) xs = drop n xs"
proof -
  let ?P = "\<lambda>x. key x < key (xs ! (n - 1))"
  have later: "key (xs ! j) < key (xs ! i)" if "i < j" "j < length xs" for i j
    using sorted_wrt_nth_less [OF assms(1) that] .
  have "\<not> ?P x" if "x \<in> set (take n xs)" for x
  proof -
    obtain i where "i < n" "x = xs ! i" using \<open>x \<in> set (take n xs)\<close> by (auto simp: in_set_conv_nth)
    then show ?thesis using later [of i "n - 1"] assms(2,3) by (cases "i = n - 1") (auto simp: not_less intro!: order.strict_implies_order)
  qed
  moreover have "?P x" if "x \<in> set (drop n xs)" for x
  proof -
    obtain i where "i < length xs - n" "x = xs ! (n + i)" using \<open>x \<in> set (drop n xs)\<close> by (auto simp: in_set_conv_nth)
    then show ?thesis using later [of "n - 1" "n + i"] assms(2) by simp
  qed
  ultimately have "filter ?P (take n xs @ drop n xs) = drop n xs" by (simp add: filter_empty_conv filter_id_conv del: append_take_drop_id)
  then show ?thesis by simp
qed

lemma listed_rows_next:
  assumes "keys_ok key rows" and "0 < n" and "n \<le> length (listed_rows key options rows)"
    and "k = key (listed_rows key options rows ! (n - 1))"
  shows "listed_rows key (options\<lparr>po_Cursor := \<lparr>pk_ID = snd k, pk_CreatedAt = fst k\<rparr>\<rparr>) rows = drop n (listed_rows key options rows)"
proof -
  let ?xs = "listed_rows key options rows"
  let ?next = "options\<lparr>po_Cursor := \<lparr>pk_ID = snd k, pk_CreatedAt = fst k\<rparr>\<rparr>"
  have "?xs ! (n - 1) \<in> set ?xs" using assms(2,3) by simp
  then have k: "key_ok k" "in_options options k" using assms(1,4) by (auto simp: listed_rows_def keys_ok_def list_all_iff)
  have eq: "in_options ?next j \<longleftrightarrow> in_options options j \<and> j < k" for j
    using k by (cases k; cases j) (auto simp: in_options_def key_ok_def)
  have "listed_rows key ?next rows = SliceStable (newer key) (filter (\<lambda>x. key x < k) (filter (\<lambda>x. in_options options (key x)) rows))"
    unfolding listed_rows_def eq by simp
  also have "\<dots> = filter (\<lambda>x. key x < k) ?xs"
    unfolding listed_rows_def by (rule stable_order.SliceStable_filter [OF newer_stable])
  also have "\<dots> = drop n ?xs" unfolding assms(4) using listed_desc [OF assms(1)] assms(2,3) by (intro after_key)
  finally show ?thesis .
qed

lemma page_of_listed:
  "page_of key options rows =
     (let limit = nat (po_Limit options); xs = listed_rows key options rows
      in if limit < length xs
         then let k = key (take (limit + 1) xs ! (limit - 1))
              in \<lparr>pg_Items = take limit xs, pg_NextCursor = snd k, pg_NextPageKey = \<lparr>pk_ID = snd k, pk_CreatedAt = fst k\<rparr>\<rparr>
         else \<lparr>pg_Items = xs, pg_NextCursor = '''', pg_NextPageKey = \<lparr>pk_ID = '''', pk_CreatedAt = 0\<rparr>\<rparr>)"
  by (simp add: page_of_def listed_rows_def Let_def)

lemma follow_page_of:
  assumes "keys_ok key rows" and "0 < po_Limit options" and "length (listed_rows key options rows) < n"
  shows "follow (\<lambda>opts. page_of key opts rows) n options = listed_rows key options rows"
  using assms(2,3)
proof (induction n arbitrary: options)
  case 0
  then show ?case by simp
next
  case (Suc n)
  let ?l = "nat (po_Limit options)" and ?xs = "listed_rows key options rows"
  have pos: "0 < ?l" using Suc.prems(1) by simp
  show ?case
  proof (cases "?l < length ?xs")
    case True
    let ?k = "key (?xs ! (?l - 1))"
    let ?next = "options\<lparr>po_Cursor := \<lparr>pk_ID = snd ?k, pk_CreatedAt = fst ?k\<rparr>\<rparr>"
    have k: "key (take (?l + 1) ?xs ! (?l - 1)) = ?k" using pos by simp
    have "?xs ! (?l - 1) \<in> set ?xs" using True pos by simp
    then have "key_ok ?k" using assms(1) by (auto simp: listed_rows_def keys_ok_def list_all_iff)
    then have cursor: "snd ?k \<noteq> ''''" by (simp add: key_ok_def)
    have next_rows: "listed_rows key ?next rows = drop ?l ?xs" using True pos by (intro listed_rows_next [OF assms(1)]) simp_all
    have "follow (\<lambda>opts. page_of key opts rows) n ?next = listed_rows key ?next rows"
      using Suc.prems True pos next_rows by (intro Suc.IH) simp_all
    then show ?thesis using True k cursor next_rows by (simp add: page_of_listed Let_def)
  next
    case False
    then show ?thesis by (simp add: page_of_listed Let_def)
  qed
qed

text \<open>
  The audit log can be read to its end: when the identifiers and instants of its rows are
  different, a client that follows the cursors sees every row of the range and of the action asked for exactly
  once, the newest first, in at most one request more than there are rows.
\<close>

theorem audit_pages_complete:
  assumes "keys_ok audit_key (adb_audit db)" and "0 < po_Limit options" and "IsZero (pk_CreatedAt (po_Cursor options))"
    and "length (adb_audit db) < n"
  shows "follow (\<lambda>opts. ListAdminAuditLogPage opts db) n options =
    SliceStable (newer audit_key) (filter (\<lambda>a. (IsZero (po_From options) \<or> po_From options \<le> al_CreatedAt a) \<and>
      (IsZero (po_To options) \<or> al_CreatedAt a \<le> po_To options) \<and> (po_Status options = '''' \<or> al_Action a = po_Status options))
      (adb_audit db))"
proof -
  let ?rows = "filter (\<lambda>a. po_Status options = '''' \<or> al_Action a = po_Status options) (adb_audit db)"
  have ok: "keys_ok audit_key ?rows"
    using assms(1) by (auto simp: keys_ok_def list_all_iff intro: distinct_map_filter)
  have "follow (\<lambda>opts. ListAdminAuditLogPage opts db) m opts = follow (\<lambda>opts. page_of audit_key opts ?rows) m opts"
    if "po_Status opts = po_Status options" for m opts
    using \<open>po_Status opts = po_Status options\<close> by (induction m arbitrary: opts) (simp_all add: ListAdminAuditLogPage_def Let_def)
  moreover have "length (listed_rows audit_key options ?rows) < n"
    using assms(4) le_less_trans [OF length_filter_le] by (simp add: listed_rows_def)
  ultimately have "follow (\<lambda>opts. ListAdminAuditLogPage opts db) n options = listed_rows audit_key options ?rows"
    using follow_page_of [OF ok assms(2)] by simp
  then show ?thesis
    using assms(3) by (simp add: listed_rows_def in_options_def audit_key_def conj_ac cong: conj_cong)
qed

end
