(* ===== verification/AdminContent.thy ===== *)
theory AdminContent
  imports AdminAudit
begin

text \<open>
  Files and the administration of a Node: which statuses a file ever has, so that the overview of the
  storage never counts a stored file, and what \<open>DeleteAdminGroupContent\<close> leaves on the disk and in the tables.
\<close>

section \<open>The statuses of a file\<close>

definition status_known :: "FileRow \<Rightarrow> bool" where
  "status_known f \<longleftrightarrow> file_status f = ''UPLOADING'' \<or> file_status f = ''AVAILABLE_ON_NODE'' \<or> file_status f = ''EXPIRED''"

lemma fold_event_files [simp]: "db_files (fold (insertTransferTimelineEvent rq) es db) = db_files db"
  by (induction es arbitrary: db) simp_all

lemma delivery_files [simp]:
  "db_files (upsert_delivery row f db) = db_files db"
  "db_files (record_delivery t p now db) = db_files db"
  "db_files (migrate_route rq t p e route now db) = db_files db"
  "db_files (insert_record d m r k h db) = db_files db"
  by (simp_all add: upsert_delivery_def record_delivery_def migrate_route_def insert_record_def Let_def)

lemma apply_progress_files [simp]: "db_files (apply_progress rq t p row e now db) = db_files db"
  by (simp add: apply_progress_def update_task_status_def Let_def split: option.split)

lemma complete_record_files: "completeIdempotencyRecord d m r k h resp db = Inr db' \<Longrightarrow> db_files db' = db_files db"
  by (auto simp: completeIdempotencyRecord_def Let_def split: if_splits)

lemma finish_report_files: "finish_report a session t p h db = Inr (db', x) \<Longrightarrow> db_files db' = db_files db"
  by (auto simp: finish_report_def Let_def dest!: complete_record_files split: option.splits if_splits)

lemma report_on_target_files: "report_on_target rq a session t p h now db = Inr (db', x) \<Longrightarrow> db_files db' = db_files db"
  by (auto simp: report_on_target_def Let_def dest!: finish_report_files split: option.splits if_splits)

lemma Report_files: "db_files (fst (ReportTransferProgress hash_of rq db session t p now)) = db_files db"
  by (auto simp: ReportTransferProgress_def Let_def dest!: report_on_target_files split: option.split sum.split Response.split)

lemma Retry_files: "db_files (fst (RetryTransferTarget rq eid db session t d key now)) = db_files db"
  by (auto simp: RetryTransferTarget_def start_retry_def Let_def split: option.split)

lemma Cancel_files: "db_files (fst (CancelTransfer rq db session t now)) = db_files db"
  by (auto simp: CancelTransfer_def cancel_targets_def Let_def)

lemma Read_files: "db_files (fst (ReadTransfer rq db session t now)) = db_files db"
  by (auto simp: ReadTransfer_def mark_read_def Let_def split: option.split sum.split option.splits)

lemma Hide_files: "db_files (fst (HideTransfer db session t now)) = db_files db"
  by (simp add: HideTransfer_def Let_def)

lemma Event_files: "db_files (fst (ReportTransferTimelineEvent hash_of rq db session t report now)) = db_files db"
  by (auto simp: ReportTransferTimelineEvent_def Let_def dest!: complete_record_files split: option.split sum.split Response.split)

lemma insert_status_events_files [simp]: "db_files (insert_status_events rq e db) = db_files db"
  by (simp add: insert_status_events_def Let_def split: option.split)

lemma insert_target_files [simp]: "db_files (fold (insert_target rq ids p) its db) = db_files db"
proof (induction its arbitrary: db)
  case (Cons it its)
  then show ?case by (cases it) (simp add: insert_target_def Let_def)
qed simp

lemma insert_file_target_files [simp]: "db_files (fold (insert_file_target rq ids p) fts db) = db_files db"
  by (induction fts arbitrary: db) (simp_all add: insert_file_target_def)

lemma insert_transfer_files:
  assumes "list_all status_known (db_files db)"
  shows "list_all status_known (db_files (insert_transfer rq ids session p db))"
  using assms
  by (auto simp: insert_transfer_def insert_files_def insert_message_def insert_keys_def insert_task_def Let_def
      status_known_def list_all_iff)

lemma enforceTransferQuotas_files: "enforceTransferQuotas db session p = Inr db' \<Longrightarrow> db_files db' = db_files db"
  by (auto simp: enforceTransferQuotas_def Let_def split: if_splits)

lemma Create_files:
  assumes "list_all status_known (db_files db)"
  shows "list_all status_known (db_files (fst (CreateTransfer rq ids db session p)))"
  using assms insert_transfer_files enforceTransferQuotas_files
  by (auto simp: CreateTransfer_def Let_def split: option.split sum.split)

lemma store_step_files: "store_step db db' \<Longrightarrow> list_all status_known (db_files db) \<Longrightarrow> list_all status_known (db_files db')"
  by (induction rule: store_step.induct)
    (auto simp: Report_files Retry_files Cancel_files Read_files Hide_files Event_files Create_files)

text \<open>Every operation that touches the tables of transfers and files.\<close>

inductive node_step :: "file_tables \<Rightarrow> file_tables \<Rightarrow> bool" where
  transfer: "store_step (ft_db st) db' \<Longrightarrow> node_step st (st\<lparr>ft_db := db'\<rparr>)"
| chunk: "node_step st (fst (RecordChunk st session c))"
| complete: "node_step st (fst (CompleteFile request st session f path now))"
| expire: "MarkFileExpired f now st = Inr st' \<Longrightarrow> node_step st st'"
| content: "node_step st (st\<lparr>ft_db := delete_content t now (ft_db st)\<rparr>)"
| detach: "node_step st (st\<lparr>ft_db := detach_group g now (ft_db st)\<rparr>)"

lemma status_update:
  "list_all status_known fs \<Longrightarrow> (\<And>f. status_known (h f)) \<Longrightarrow> list_all status_known (update_where hit h fs)"
  unfolding list_all_iff set_update_where by blast

lemma publish_row_known: "status_known (publish_row path now f)"
  by (simp add: publish_row_def status_known_def)

lemma available_files: "db_files (available_tables request t f path now db) = update_where (\<lambda>x. file_id x = f) (publish_row path now) (db_files db)"
  by (simp add: available_tables_def)

lemma expire_files:
  "db_files (expire_task t (expire_targets t now (expire_file f db))) =
     update_where (\<lambda>x. file_id x = f \<and> file_status x \<noteq> ''EXPIRED'')
       (\<lambda>x. x\<lparr>file_status := ''EXPIRED'', file_storage_path := [], file_completed_at := None\<rparr>) (db_files db)"
  by (simp add: expire_task_def expire_targets_def expire_file_def Let_def)

lemma node_step_files:
  "node_step st st' \<Longrightarrow> list_all status_known (db_files (ft_db st)) \<Longrightarrow> list_all status_known (db_files (ft_db st'))"
proof (induction rule: node_step.induct)
  case (transfer st db')
  then show ?case by (simp add: store_step_files)
next
  case (chunk st session c)
  then show ?case by (simp add: RecordChunk_def split: option.split)
next
  case (complete st request session f path now)
  then show ?case
    by (simp add: CompleteFile_def available_files publish_row_known status_update split: option.split)
next
  case (expire f now st st')
  then show ?case
    by (auto simp: MarkFileExpired_def expire_files Let_def intro!: status_update split: option.splits) (simp add: status_known_def)
next
  case (content st t now)
  have "status_known (f\<lparr>file_status := ''EXPIRED'', file_expires_at := now\<rparr>)" for f by (simp add: status_known_def)
  then show ?case using content by (simp add: delete_content_def status_update)
next
  case (detach st g now)
  then show ?case by (simp add: detach_group_def)
qed


text \<open>
  The overview of the storage never counts a stored file: over any number of operations on
  transfers and files a file is \<open>UPLOADING\<close>, \<open>AVAILABLE_ON_NODE\<close> or \<open>EXPIRED\<close>, and \<open>AdminStorageOverview\<close>
  sums the files that are \<open>COMPLETED\<close>; the bytes reported as stored are 0, however much is on the disk.
\<close>

theorem stored_bytes_never_counted:
  assumes "node_step\<^sup>*\<^sup>* st (adb_files db)" and "list_all status_known (db_files (ft_db st))"
    and "AdminStorageOverview db now = Inr overview"
  shows "so_StoredBytes overview = 0"
proof -
  have "list_all status_known (db_files (ft_db (adb_files db)))"
    using assms(1,2) by (induction rule: rtranclp_induct) (auto intro: node_step_files)
  then have "filter (\<lambda>f. file_status f = ''COMPLETED'' \<and> now < file_expires_at f) (db_files (ft_db (adb_files db))) = []"
    by (auto simp: filter_empty_conv list_all_iff status_known_def)
  then have "file_sum (\<lambda>f. file_status f = ''COMPLETED'' \<and> now < file_expires_at f) (db_files (ft_db (adb_files db))) = 0"
    by (simp add: file_sum_def)
  then show ?thesis using assms(3) by (auto simp: AdminStorageOverview_def admin_scan_def Let_def split: if_splits)
qed

section \<open>Deleted content\<close>

lemma remove_all_error:
  "remove_all refuses ps disk = (disk', Some e) \<Longrightarrow> e = ErrRemove \<and> (\<exists>p \<in> set ps. refuses p \<and> disk' p = disk p)"
proof (induction ps arbitrary: disk)
  case (Cons p ps)
  show ?case
  proof (cases "refuses p")
    case False
    then have "e = ErrRemove \<and> (\<exists>q \<in> set ps. refuses q \<and> disk' q = (disk(p := None)) q)"
      using False by (intro Cons.IH [of "disk(p := None)"]) (use Cons.prems in \<open>simp only: remove_all.simps if_False\<close>)
    then obtain q where q: "q \<in> set ps" "refuses q" "disk' q = (disk(p := None)) q" "e = ErrRemove" by blast
    then have "disk' q = disk q" using False by (cases "q = p") auto
    then show ?thesis using q by auto
  qed (use Cons.prems in auto)
qed simp

lemma deleted_tables:
  assumes "DeleteAdminGroupContent ids s t now db = Inr (db', paths)"
  shows "adb_files db' = (adb_files db)\<lparr>ft_db := delete_content (uuid t) now (ft_db (adb_files db))\<rparr>"
    and "paths = content_paths (uuid t) (adb_files db)"
proof -
  have "adb_files db' = (adb_files db)\<lparr>ft_db := delete_content (uuid t) now (ft_db (adb_files db))\<rparr> \<and>
      paths = content_paths (uuid t) (adb_files db)"
    using assms by (auto simp: DeleteAdminGroupContent_def Let_def dest!: insertAudit_Inr split: if_splits)
  then show "adb_files db' = (adb_files db)\<lparr>ft_db := delete_content (uuid t) now (ft_db (adb_files db))\<rparr>"
    and "paths = content_paths (uuid t) (adb_files db)" by simp_all
qed

text \<open>
  A removal that fails is never finished: when one of the files of deleted group content cannot
  be removed, the tables are changed all the same. The file is still on the disk and its chunk
  rows in the table, no pass of the cleaner lists it at any later time, because it is \<open>EXPIRED\<close>, and asking again
  for the deletion is refused as not found.
\<close>

theorem deleted_content_left_behind:
  assumes "DeleteGroupContent env ids now s t (db, disk) = ((db', disk'), Some ErrRemove)"
  shows "(\<exists>p \<in> set (content_paths (uuid t) (adb_files db)). env_refuses env p \<and> disk' p = disk p) \<and>
    ft_chunks (adb_files db') = ft_chunks (adb_files db) \<and>
    list_all (\<lambda>x. xf_TransferID x \<noteq> uuid t) (ExpiredFiles (adb_files db') later limit) \<and>
    DeleteGroupContent env ids' now' s t (db', disk') = ((db', disk'), Some ErrNotFound)"
proof -
  have admin: "usr_Admin s" "isUUID t"
    using assms by (auto simp: DeleteGroupContent_def admin_only_def split: if_splits)
  obtain paths where ok: "DeleteAdminGroupContent ids s t now db = Inr (db', paths)"
    using assms DeleteGroupContent_Inr(2) [of env _ newID ids now s t db db'] admin
    by (cases "DeleteAdminGroupContent ids s t now db")
      (auto simp: DeleteGroupContent_def admin_only_def DeleteAdminGroupContent_def insertAudit_def append_audit_def Let_def
        bindE_eq_Inl split: if_splits prod.splits)
  then have remove: "remove_all (env_refuses env) paths disk = (disk', Some ErrRemove)"
    using assms admin by (auto simp: DeleteGroupContent_def admin_only_def split: prod.splits)
  note tables = deleted_tables [OF ok]
  have files: "ft_db (adb_files db') = delete_content (uuid t) now (ft_db (adb_files db))"
    and chunks: "ft_chunks (adb_files db') = ft_chunks (adb_files db)" using tables(1) by simp_all
  have "file_transfer f \<noteq> uuid t" if "expired (ft_db (adb_files db')) later f" "f \<in> set (db_files (ft_db (adb_files db')))" for f
    using \<open>expired _ _ f\<close> \<open>f \<in> _\<close> unfolding files delete_content_def
    by (auto simp: expired_def set_update_where)
  then have "list_all (\<lambda>x. xf_TransferID x \<noteq> uuid t) (ExpiredFiles (adb_files db') later limit)"
    unfolding ExpiredFiles_def list_all_iff by (auto dest!: in_set_takeD)
  moreover have "\<not> list_ex (\<lambda>k. task_id k = uuid t \<and> task_group k \<noteq> None \<and> task_group_deleted_at k = None)
      (db_tasks (ft_db (adb_files db')))"
    unfolding files delete_content_def by (auto simp: list_ex_iff set_update_where)
  then have "DeleteGroupContent env ids' now' s t (db', disk') = ((db', disk'), Some ErrNotFound)"
    using admin by (simp add: DeleteGroupContent_def DeleteAdminGroupContent_def admin_only_def Let_def)
  ultimately show ?thesis using remove_all_error [OF remove] tables(2) chunks by simp
qed


section \<open>Witnesses\<close>

definition demo_admin_id :: string where "demo_admin_id = sample_uuid CHR ''a''"

definition demo_admin_user :: UserRow where
  "demo_admin_user = \<lparr>u_id = demo_admin_id, u_username = ''root'', u_email = ''root@x'', u_password_hash = ''h'',
     u_totp_secret = None, u_is_admin = True, u_disabled_at = None\<rparr>"

definition demo_admin_session :: Session where
  "demo_admin_session = \<lparr>usr_ID = demo_admin_id, usr_Username = ''root'', usr_Email = ''root@x'', usr_Admin = True,
     usr_TOTPEnabled = False, sess_SessionID = ''s'', sess_DeviceID = None, sess_AdminVerified = True\<rparr>"

definition demo_content :: file_tables where
  "demo_content = (sample_tables TransferUploadingToNode)\<lparr>ft_db :=
     (ft_db (sample_tables TransferUploadingToNode))\<lparr>
        db_tasks := [(sample_task TransferUploadingToNode)\<lparr>task_id := sample_uuid CHR ''1'', task_group := Some ''g''\<rparr>],
        db_files := [sample_file_row\<lparr>file_transfer := sample_uuid CHR ''1'', file_storage_path := ''/n/f''\<rparr>]\<rparr>\<rparr>"

definition demo_admin_db :: admin_db where
  "demo_admin_db = \<lparr>db_users = [demo_admin_user], db_sessions = [], ddb_devices = [], ddb_keys = [], ddb_lan = [],
     ddb_connections = [], ddb_challenges = [], ddb_codes = [], ddb_referenced = [], gdb_groups = [], gdb_members = [],
     gdb_devices = [], gdb_referenced = [], adb_user_created = (\<lambda>_. 0), adb_invitations = [],
     adb_audit = [\<lparr>al_ID = ''a1'', al_ActorUserID = None, al_ActorDeviceID = None, al_Action = ''X'', al_TargetType = ''USER'',
       al_TargetID = None, al_Metadata = ''{}'', al_CreatedAt = 1\<rparr>,
       \<lparr>al_ID = ''a2'', al_ActorUserID = None, al_ActorDeviceID = None, al_Action = ''Y'', al_TargetType = ''USER'',
       al_TargetID = None, al_Metadata = ''{}'', al_CreatedAt = 2\<rparr>],
     adb_registration = False, adb_files = demo_content\<rparr>"

definition demo_env :: AdminEnv where
  "demo_env = \<lparr>env_lower = (\<lambda>x. x), env_bcrypt = (\<lambda>p. Some p), env_sha = (\<lambda>x. x), env_random = None, env_refuses = (\<lambda>p. p = ''/n/f'')\<rparr>"

lemmas demo_admin_defs = demo_admin_db_def demo_admin_session_def demo_admin_user_def demo_env_def

lemma demo_ids:
  "isUUID (map ascii_upper demo_admin_id)" "uuid (map ascii_upper demo_admin_id) = demo_admin_id"
  "map ascii_upper demo_admin_id \<noteq> demo_admin_id"
  by (simp_all add: demo_admin_id_def sample_digits)

lemma demo_live: "session_live demo_admin_session demo_admin_db"
  by (simp add: session_live_def demo_admin_defs)

lemma demo_create:
  "admin_exec demo_env (\<lambda>x. x) ''u2'' (''i'', 5) 5 demo_admin_session (OpCreateUser ''bob'' ''b@x'' ''0123456789ab'' False) demo_admin_db =
     Inr (the (case admin_exec demo_env (\<lambda>x. x) ''u2'' (''i'', 5) 5 demo_admin_session
       (OpCreateUser ''bob'' ''b@x'' ''0123456789ab'' False) demo_admin_db of Inl e \<Rightarrow> None | Inr d \<Rightarrow> Some d))"
proof -
  have "validIdentity ''bob'' ''b@x'' ''0123456789ab''" "TrimSpace ''bob'' = ''bob''" "TrimSpace ''b@x'' = ''b@x''" by code_simp+
  moreover have "demo_admin_id \<noteq> ''u2''" by (simp add: demo_admin_id_def sample_uuid_def)
  ultimately show ?thesis
    by (simp add: CreateUser_def CreateAdminUser_def admin_only_def with_hash_def insert_user_def user_exists_def same_name_def
        insertAudit_def append_audit_def demo_admin_defs Let_def)
qed

theorem administration_audited_witness:
  "\<exists>db' a. admin_exec demo_env (\<lambda>x. x) ''u2'' (''i'', 5) 5 demo_admin_session (OpCreateUser ''bob'' ''b@x'' ''0123456789ab'' False) demo_admin_db =
     Inr db' \<and> adb_audit db' = adb_audit demo_admin_db @ [a] \<and> al_Action a = ''USER_CREATED'' \<and> al_ActorUserID a = Some demo_admin_id"
proof -
  have "usr_ID demo_admin_session = demo_admin_id" by (simp add: demo_admin_session_def)
  then show ?thesis using administration_audited [OF demo_create] demo_create by (metis action_of.simps(1))
qed

theorem some_administrator_stays_witness:
  "list_ex enabled_admin (db_users (fst (admin_run demo_env (\<lambda>x. x)
     [Asks 1 demo_admin_session, Acts 1 ''u2'' (''i'', 5) 5 (OpDisableUser demo_admin_id)] demo_admin_db)))"
proof -
  let ?evs = "[Asks 1 demo_admin_session, Acts 1 ''u2'' (''i'', 5) 5 (OpDisableUser demo_admin_id)]"
  have "uuid demo_admin_id = demo_admin_id" by code_simp
  then have "list_all plain_event ?evs" by simp
  moreover have "list_ex enabled_admin (db_users demo_admin_db)" by (simp add: enabled_admin_def demo_admin_defs)
  moreover have "\<not> asker_disabled s (fst (admin_run demo_env (\<lambda>x. x) before demo_admin_db))"
    if "?evs = before @ Acts i newID ids now (OpDisableUser u) # later" for before i newID ids now u later s
  proof -
    have "before = [Asks 1 demo_admin_session]" using that by (cases before; cases "tl before") auto
    then have "fst (admin_run demo_env (\<lambda>x. x) before demo_admin_db) = demo_admin_db" by (simp add: admin_run_def)
    then show ?thesis by (simp add: asker_disabled_def demo_admin_defs)
  qed
  ultimately show ?thesis using some_administrator_stays [of demo_admin_db ?evs demo_env "\<lambda>x. x"] by blast
qed

text \<open>
  Two administrators who disable each other at the same time both succeed: neither the service nor
  the statements look at the asker's account after his session was found, and nobody is left to
  administer the Node.
\<close>

definition second_admin_id :: string where "second_admin_id = sample_uuid CHR ''b''"

definition two_admins :: admin_db where
  "two_admins = demo_admin_db\<lparr>db_users := [demo_admin_user, demo_admin_user\<lparr>u_id := second_admin_id, u_username := ''two''\<rparr>]\<rparr>"

lemma overlapping_disables:
  "list_ex enabled_admin (db_users two_admins)"
  "\<not> list_ex enabled_admin (db_users (fst (admin_run demo_env (\<lambda>x. x)
     [Asks 1 demo_admin_session, Asks 2 (demo_admin_session\<lparr>usr_ID := second_admin_id\<rparr>),
      Acts 1 ''x'' (''i1'', 5) 5 (OpDisableUser second_admin_id), Acts 2 ''y'' (''i2'', 6) 6 (OpDisableUser demo_admin_id)]
     two_admins)))"
proof -
  show "list_ex enabled_admin (db_users two_admins)" by (simp add: two_admins_def enabled_admin_def demo_admin_user_def)
  have digits: "hex_digit CHR ''a''" "hex_digit CHR ''b''" "ascii_lower CHR ''a'' = CHR ''a''" "ascii_lower CHR ''b'' = CHR ''b''"
    by code_simp+
  have ids: "isUUID demo_admin_id" "isUUID second_admin_id" "uuid demo_admin_id = demo_admin_id" "uuid second_admin_id = second_admin_id"
    "demo_admin_id \<noteq> second_admin_id"
    using digits by (simp_all add: demo_admin_id_def second_admin_id_def)
  then show "\<not> list_ex enabled_admin (db_users (fst (admin_run demo_env (\<lambda>x. x)
     [Asks 1 demo_admin_session, Asks 2 (demo_admin_session\<lparr>usr_ID := second_admin_id\<rparr>),
      Acts 1 ''x'' (''i1'', 5) 5 (OpDisableUser second_admin_id), Acts 2 ''y'' (''i2'', 6) 6 (OpDisableUser demo_admin_id)]
     two_admins)))"
    by (simp add: admin_run_def two_admins_def session_live_def demo_admin_defs DisableUser_def admin_only_def DisableAdminUser_def
        revoke_sessions_def update_where_def insertAudit_def append_audit_def keep_on_error_def enabled_admin_def Let_def)
qed

theorem self_disable_by_spelling_witness:
  "\<exists>db'. DisableUser (''i'', 5) 5 demo_admin_session (map ascii_upper demo_admin_id) demo_admin_db = Inr db' \<and>
     \<not> list_ex enabled_admin (db_users db')"
proof -
  have only: "list_all (\<lambda>u. enabled_admin u \<longrightarrow> u_id u = usr_ID demo_admin_session) (db_users demo_admin_db)"
    and admin: "usr_Admin demo_admin_session" and device: "sess_DeviceID demo_admin_session = None"
    and self: "usr_ID demo_admin_session = demo_admin_id"
    by (simp_all add: demo_admin_defs)
  show ?thesis
    using self_disable_by_spelling [OF only demo_live admin demo_ids(1), of "(''i'', 5)" 5 "[]" "[]" "[]" "[]"]
      demo_ids(2,3) self device by auto
qed

theorem audit_pages_complete_witness:
  "map al_ID (follow (\<lambda>opts. ListAdminAuditLogPage opts demo_admin_db) 3
     \<lparr>po_Limit = 1, po_Cursor = \<lparr>pk_ID = '''', pk_CreatedAt = 0\<rparr>, po_From = 0, po_To = 0, po_Status = ''''\<rparr>) = [''a2'', ''a1'']"
proof -
  have "keys_ok audit_key (adb_audit demo_admin_db)"
    by (simp add: keys_ok_def key_ok_def audit_key_def demo_admin_defs uuid_def ascii_lower_def byte_in_def code_def)
  then show ?thesis
    by (subst audit_pages_complete) (simp_all add: demo_admin_defs newer_def audit_key_def)
qed

theorem stored_bytes_never_counted_witness:
  "\<exists>overview. AdminStorageOverview (demo_admin_db\<lparr>adb_files := (demo_content\<lparr>ft_db := detach_group ''g'' 3 (ft_db demo_content)\<rparr>)\<rparr>) 7 =
     Inr overview \<and> so_StoredBytes overview = 0"
proof -
  let ?db = "demo_admin_db\<lparr>adb_files := (demo_content\<lparr>ft_db := detach_group ''g'' 3 (ft_db demo_content)\<rparr>)\<rparr>"
  have step: "node_step\<^sup>*\<^sup>* demo_content (adb_files ?db)" by (simp add: detach r_into_rtranclp)
  have known: "list_all status_known (db_files (ft_db demo_content))"
    by (simp add: demo_content_def status_known_def sample_file_defs)
  obtain overview where overview: "AdminStorageOverview ?db 7 = Inr overview"
    by (simp add: AdminStorageOverview_def admin_scan_def file_sum_def detach_group_def demo_content_def sample_file_defs
        in64_def Let_def)
  show ?thesis using stored_bytes_never_counted [OF step known overview] overview by blast
qed

theorem deleted_content_left_behind_witness:
  "\<exists>db' disk'. DeleteGroupContent demo_env (''i'', 5) 5 demo_admin_session (sample_uuid CHR ''1'') (demo_admin_db, [''/n/f'' \<mapsto> ''bytes'']) =
     ((db', disk'), Some ErrRemove) \<and> disk' ''/n/f'' = Some ''bytes''"
proof -
  let ?t = "sample_uuid CHR ''1''"
  have paths: "content_paths ?t demo_content = [''/n/f'']"
    by (simp add: content_paths_def demo_content_def sample_file_defs)
  have "\<exists>db'. DeleteGroupContent demo_env (''i'', 5) 5 demo_admin_session ?t (demo_admin_db, [''/n/f'' \<mapsto> ''bytes'']) =
      ((db', [''/n/f'' \<mapsto> ''bytes'']), Some ErrRemove)"
    using sample_uuids paths
    by (simp add: DeleteGroupContent_def admin_only_def DeleteAdminGroupContent_def Let_def insertAudit_def append_audit_def
        demo_admin_defs) (simp add: demo_content_def sample_defs)
  then obtain db' where db': "DeleteGroupContent demo_env (''i'', 5) 5 demo_admin_session ?t (demo_admin_db, [''/n/f'' \<mapsto> ''bytes'']) =
      ((db', [''/n/f'' \<mapsto> ''bytes'']), Some ErrRemove)" by blast
  have "adb_files demo_admin_db = demo_content" by (simp add: demo_admin_db_def)
  then show ?thesis using deleted_content_left_behind [OF db'] db' paths sample_uuids by auto
qed

end
