(* ===== verification/TargetLife.thy ===== *)
theory TargetLife
  imports AdminContent
begin

text \<open>
  The life of one target of a transfer over the tables themselves: which operations of the Node
  change its status and how, so that a delivery can be traced back to the reports that led to it.
  A run is the list of the states the tables pass through, one operation between two of them.
\<close>

section \<open>The status of a target\<close>

definition status_at :: "file_tables \<Rightarrow> string \<Rightarrow> string \<Rightarrow> TransferStatus option" where
  "status_at st t d = map_option tgt_status (find (is_target t d) (db_targets (ft_db st)))"

definition sends_from :: "transfer_db \<Rightarrow> string \<Rightarrow> string \<Rightarrow> bool" where
  "sends_from db transferID device \<longleftrightarrow>
     list_ex (\<lambda>t. task_id t = transferID \<and> task_sender_device t = device) (db_tasks db)"

text \<open>
  The step is a progress report that was accepted: it announces the status for the target, and its
  session is of the target's device or of the device that sends the transfer.
\<close>

definition reported :: "string \<Rightarrow> string \<Rightarrow> TransferStatus \<Rightarrow> file_tables \<Rightarrow> file_tables \<Rightarrow> bool" where
  "reported t d s st st' \<longleftrightarrow>
     (\<exists>hash_of request session p now db x actor.
        ReportTransferProgress hash_of request (ft_db st) session t p now = (db, Inr x) \<and>
        st' = st\<lparr>ft_db := db\<rparr> \<and> pg_DeviceID p = d \<and> pg_Status p = s \<and>
        sess_DeviceID session = Some actor \<and> (actor = d \<or> sends_from (ft_db st) t actor))"

text \<open>Every operation on the tables of transfers and files; a transfer is created as the service prepares it.\<close>

inductive target_step :: "file_tables \<Rightarrow> file_tables \<Rightarrow> bool" where
  create: "target_step st (st\<lparr>ft_db := fst (CreateTransfer rq ids (ft_db st) session (prepare r devices fp now))\<rparr>)"
| report: "target_step st (st\<lparr>ft_db := fst (ReportTransferProgress hash_of rq (ft_db st) session t p now)\<rparr>)"
| retry: "target_step st (st\<lparr>ft_db := fst (RetryTransferTarget rq eid (ft_db st) session t d key now)\<rparr>)"
| cancel: "target_step st (st\<lparr>ft_db := fst (CancelTransfer rq (ft_db st) session t now)\<rparr>)"
| read: "target_step st (st\<lparr>ft_db := fst (ReadTransfer rq (ft_db st) session t now)\<rparr>)"
| hide: "target_step st (st\<lparr>ft_db := fst (HideTransfer (ft_db st) session t now)\<rparr>)"
| event: "target_step st (st\<lparr>ft_db := fst (ReportTransferTimelineEvent event_hash rq (ft_db st) session t e now)\<rparr>)"
| chunk: "target_step st (fst (RecordChunk st session c))"
| complete: "target_step st (fst (CompleteFile rq st session f path now))"
| expire: "MarkFileExpired f now st = Inr st' \<Longrightarrow> target_step st st'"
| content: "target_step st (st\<lparr>ft_db := delete_content t now (ft_db st)\<rparr>)"
| detach: "target_step st (st\<lparr>ft_db := detach_group g now (ft_db st)\<rparr>)"

section \<open>What one operation does to a status\<close>

lemma find_update_key:
  assumes "\<And>x. P (f x) = P x"
  shows "find P (update_where hit f xs) = map_option (\<lambda>x. if hit x then f x else x) (find P xs)"
  by (induction xs) (auto simp: assms)

text \<open>The changes that are no report: none, to one of four statuses, from delivered to read, or a new row.\<close>

definition calm :: "TransferStatus option \<Rightarrow> TransferStatus option \<Rightarrow> bool" where
  "calm s s' \<longleftrightarrow> s' = s \<or>
     s' \<in> {Some TransferCheckingRoute, Some TransferCancelled, Some TransferAvailableOnNode, Some TransferExpired} \<or>
     s = Some TransferDelivered \<and> s' = Some TransferRead \<or>
     s = None \<and> (\<exists>route. s' = Some (initialStatus route))"

lemma calm_refl [simp]: "calm s s"
  by (simp add: calm_def)

lemma status_at_update:
  assumes "db_targets (ft_db st') = update_where hit f (db_targets (ft_db st))"
    and "\<And>r. is_target t d (f r) = is_target t d r"
    and "\<And>r. is_target t d r \<Longrightarrow> hit r \<Longrightarrow> calm (Some (tgt_status r)) (Some (tgt_status (f r)))"
  shows "calm (status_at st t d) (status_at st' t d)"
proof (cases "find (is_target t d) (db_targets (ft_db st))")
  case None
  then show ?thesis
    by (simp add: status_at_def assms(1) find_update_key [where P = "is_target t d" and f = f, OF assms(2)])
next
  case (Some r)
  then have "is_target t d r" by (auto dest: find_SomeD)
  with Some assms(3) [of r] show ?thesis
    by (simp add: status_at_def assms(1) find_update_key [where P = "is_target t d" and f = f, OF assms(2)])
qed

lemma status_at_same: "db_targets (ft_db st') = db_targets (ft_db st) \<Longrightarrow> calm (status_at st t d) (status_at st' t d)"
  by (simp add: status_at_def)

lemma Create_calm:
  "calm (status_at st t d)
     (status_at (st\<lparr>ft_db := fst (CreateTransfer rq ids (ft_db st) session (prepare r devices fp now))\<rparr>) t d)"
proof -
  let ?p = "prepare r devices fp now"
  let ?new = "map (new_row (new_transfer ids)) (pr_Targets ?p)"
  let ?db = "fst (CreateTransfer rq ids (ft_db st) session ?p)"
  have "db_targets ?db = db_targets (ft_db st) \<or> db_targets ?db = db_targets (ft_db st) @ ?new"
    by (auto simp: CreateTransfer_def Let_def insert_transfer_tables enforceTransferQuotas_tables
        split: option.split sum.split)
  then show ?thesis
  proof
    assume rows: "db_targets ?db = db_targets (ft_db st) @ ?new"
    show ?thesis
    proof (cases "find (is_target t d) (db_targets (ft_db st))")
      case None
      show ?thesis
      proof (cases "find (is_target t d) ?new")
        case None': (Some row)
        then obtain tg where "tg \<in> set (pr_Targets ?p)" "row = new_row (new_transfer ids) tg"
          by (auto dest!: find_SomeD simp del: prepare_sel)
        then have "tgt_status row = initialStatus (tg_SelectedRoute tg)"
          using prepare_targets_status [of tg r devices fp now] by (simp add: new_row_def)
        with None None' show ?thesis by (auto simp: status_at_def rows find_append calm_def)
      qed (use None in \<open>simp add: status_at_def rows find_append\<close>)
    qed (simp add: status_at_def rows find_append)
  qed (simp add: status_at_same)
qed

lemma Retry_calm: "calm (status_at st t d)
    (status_at (st\<lparr>ft_db := fst (RetryTransferTarget rq eid (ft_db st) session t' d' key now)\<rparr>) t d)"
proof -
  let ?db = "fst (RetryTransferTarget rq eid (ft_db st) session t' d' key now)"
  have "?db = ft_db st \<or> ?db = start_retry rq eid t' d' key now (ft_db st)"
    by (auto simp: RetryTransferTarget_def Let_def split: option.split)
  then show ?thesis
  proof
    assume "?db = start_retry rq eid t' d' key now (ft_db st)"
    then show ?thesis
      by (intro status_at_update [where hit = "is_target t' d'"
            and f = "\<lambda>r. r\<lparr>tgt_status := TransferCheckingRoute, tgt_started_at := Some now,
              tgt_completed_at := None, tgt_read_at := None, tgt_error_code := None\<rparr>"])
        (simp_all add: start_retry_def Let_def is_target_def calm_def)
  qed simp
qed

lemma Cancel_calm: "calm (status_at st t d)
    (status_at (st\<lparr>ft_db := fst (CancelTransfer rq (ft_db st) session t' now)\<rparr>) t d)"
proof -
  let ?db = "fst (CancelTransfer rq (ft_db st) session t' now)"
  let ?f = "\<lambda>r. r\<lparr>tgt_status := TransferCancelled, tgt_completed_at := Some now\<rparr>"
  have "db_targets ?db = db_targets (ft_db st) \<or>
      db_targets ?db = update_where (\<lambda>r. tgt_transfer r = t' \<and> unfinished (tgt_status r)) ?f (db_targets (ft_db st))"
    by (simp add: CancelTransfer_def cancel_targets_def Let_def)
  then show ?thesis
  proof
    assume "db_targets ?db = update_where (\<lambda>r. tgt_transfer r = t' \<and> unfinished (tgt_status r)) ?f (db_targets (ft_db st))"
    then show ?thesis
      by (intro status_at_update [where hit = "\<lambda>r. tgt_transfer r = t' \<and> unfinished (tgt_status r)" and f = ?f])
        (simp_all add: is_target_def calm_def)
  qed (simp add: status_at_same)
qed

lemma Read_calm: "calm (status_at st t d)
    (status_at (st\<lparr>ft_db := fst (ReadTransfer rq (ft_db st) session t' now)\<rparr>) t d)"
proof -
  let ?db = "fst (ReadTransfer rq (ft_db st) session t' now)"
  let ?hit = "\<lambda>d' r. is_target t' d' r \<and> tgt_status r = TransferDelivered"
  let ?f = "\<lambda>r. r\<lparr>tgt_status := TransferRead, tgt_read_at := Some now\<rparr>"
  have "db_targets ?db = db_targets (ft_db st) \<or>
      (\<exists>d'. db_targets ?db = update_where (?hit d') ?f (db_targets (ft_db st)))"
    by (auto simp: ReadTransfer_def dest!: mark_read_tables split: option.split sum.split)
  then show ?thesis
  proof
    assume "\<exists>d'. db_targets ?db = update_where (?hit d') ?f (db_targets (ft_db st))"
    then obtain d' where "db_targets ?db = update_where (?hit d') ?f (db_targets (ft_db st))" by blast
    then show ?thesis
      by (intro status_at_update [where hit = "?hit d'" and f = ?f]) (simp_all add: is_target_def calm_def)
  qed (simp add: status_at_same)
qed

lemma other_targets [simp]:
  "db_targets (fst (HideTransfer db session t now)) = db_targets db"
  "db_targets (fst (ReportTransferTimelineEvent h rq db session t e now)) = db_targets db"
  "db_targets (delete_content t now db) = db_targets db"
  "db_targets (detach_group g now db) = db_targets db"
  by (auto simp: HideTransfer_def ReportTransferTimelineEvent_def delete_content_def detach_group_def Let_def
      dest!: complete_record_simps split: option.split sum.split Response.split)

lemma Complete_calm: "calm (status_at st t d) (status_at (fst (CompleteFile rq st session f path now)) t d)"
proof (cases "find (\<lambda>x. own_file (ft_db st) session f x \<and> file_status x = ''UPLOADING'') (db_files (ft_db st))")
  case (Some x)
  then show ?thesis
    by (intro status_at_update [where hit = "\<lambda>r. tgt_transfer r = file_transfer x \<and> tgt_route r = SelectedRouteNode"
          and f = "\<lambda>r. r\<lparr>tgt_status := TransferAvailableOnNode\<rparr>"])
      (simp_all add: CompleteFile_def available_tables_def is_target_def calm_def)
qed (simp add: CompleteFile_def)

lemma Expired_calm:
  assumes "MarkFileExpired f now st = Inr st'"
  shows "calm (status_at st t d) (status_at st' t d)"
proof (cases "find (\<lambda>x. file_id x = f \<and> file_status x \<noteq> ''EXPIRED'') (db_files (ft_db st))")
  case (Some x)
  then have "ft_db st' = expire_task (file_transfer x) (expire_targets (file_transfer x) now (expire_file f (ft_db st)))"
    using assms by (auto simp: MarkFileExpired_def)
  then show ?thesis
    by (intro status_at_update [where f = "\<lambda>r. r\<lparr>tgt_status := TransferExpired, tgt_completed_at := Some now\<rparr>"
          and hit = "\<lambda>r. tgt_transfer r = file_transfer x \<and> \<not> file_left (expire_file f (ft_db st)) (file_transfer x) (tgt_device r)"])
      (simp_all add: expire_task_def expire_targets_def expire_file_def is_target_def calm_def)
qed (use assms in \<open>simp add: MarkFileExpired_def\<close>)

section \<open>What a report does to a status\<close>

lemma finish_report_targets: "finish_report actor session t p h db = Inr (db', x) \<Longrightarrow> db_targets db' = db_targets db"
  by (auto simp: finish_report_def split: if_splits dest: complete_record_simps)

lemma reportable_first:
  assumes "reportable_target db actor t d = Some (row, e)"
  shows "find (is_target t d) (db_targets db) = Some row \<and> (actor = d \<or> sends_from db t actor)"
proof (cases "actor = d \<and> list_ex (\<lambda>x. task_id x = t) (db_tasks db) \<or> sends_from db t actor")
  case True
  then have "find (is_target t d) (db_targets db) = Some row"
    using assms by (simp add: reportable_target_def sends_from_def split: option.splits)
  then show ?thesis using True by blast
next
  case False
  then have "\<not> (actor = d \<and> list_ex (\<lambda>x. task_id x = t) (db_tasks db) \<or>
      list_ex (\<lambda>x. task_id x = t \<and> task_sender_device x = actor) (db_tasks db))"
    by (simp add: sends_from_def)
  then show ?thesis
    using assms by (simp only: reportable_target_def simp_thms) (auto dest!: find_SomeD split: option.splits)
qed

lemma report_on_target_status:
  assumes "report_on_target rq actor session t' p h now db = Inr (db', x)"
  shows "map_option tgt_status (find (is_target t d) (db_targets db')) =
      map_option tgt_status (find (is_target t d) (db_targets db)) \<or>
    t' = t \<and> pg_DeviceID p = d \<and> (actor = d \<or> sends_from db t actor) \<and>
    (\<exists>row. find (is_target t d) (db_targets db) = Some row \<and> CanTransitionTo (tgt_status row) (pg_Status p)) \<and>
    map_option tgt_status (find (is_target t d) (db_targets db')) = Some (pg_Status p)"
proof -
  obtain row e where row: "reportable_target db actor t' (pg_DeviceID p) = Some (row, e)"
    using assms by (auto simp: report_on_target_def split: option.splits)
  note first = reportable_first [OF row, THEN conjunct1] reportable_first [OF row, THEN conjunct2]
  let ?route = "if pg_Route p \<noteq> SelectedRouteOther '''' then pg_Route p else tgt_route row"
  consider "db_targets db' = db_targets db"
    | "progress_allowed (tgt_status row) (pg_Status p)" and
      "db_targets db' = update_where (is_target t' (pg_DeviceID p)) (progress_target p ?route now) (db_targets db)"
    using assms row by (auto simp: report_on_target_def Let_def apply_progress_tables
        dest!: finish_report_targets split: if_splits)
  then show ?thesis
  proof cases
    case 2
    have find: "find (is_target t d) (db_targets db') =
        map_option (\<lambda>r. if is_target t' (pg_DeviceID p) r then progress_target p ?route now r else r)
          (find (is_target t d) (db_targets db))"
      unfolding 2(2) by (rule find_update_key) (simp add: is_target_def progress_target_def)
    show ?thesis
    proof (cases "t' = t \<and> pg_DeviceID p = d")
      case True
      have "is_target t d row" using first(1) True by (auto dest: find_SomeD)
      then show ?thesis
        using True first find 2(1) by (auto simp: progress_target_def progress_allowed_def)
    next
      case False
      then have "\<not> is_target t' (pg_DeviceID p) r" if "is_target t d r" for r
        using that by (auto simp: is_target_def)
      then show ?thesis
        unfolding find by (cases "find (is_target t d) (db_targets db)") (auto dest: find_SomeD)
    qed
  qed simp
qed

lemma insert_record_sends_from [simp]: "sends_from (insert_record d m r k h db) = sends_from db"
  by (intro ext) (simp add: sends_from_def insert_record_def)

lemma report_status:
  assumes "st' = st\<lparr>ft_db := fst (ReportTransferProgress hash_of rq (ft_db st) session t' p now)\<rparr>"
  shows "status_at st' t d = status_at st t d \<or>
    (\<exists>a b. status_at st t d = Some a \<and> status_at st' t d = Some b \<and> CanTransitionTo a b \<and> reported t d b st st')"
proof -
  let ?r = "ReportTransferProgress hash_of rq (ft_db st) session t' p now"
  have run: "fst ?r = ft_db st \<or> (\<exists>x. snd ?r = Inr x \<and> R = Inr (fst ?r, x))"
    if "?r = (case R of Inl e \<Rightarrow> (ft_db st, Inl e) | Inr (db', result) \<Rightarrow> (db', Inr result))" for R
    using that by (cases R) (auto split: prod.splits)
  consider "fst ?r = ft_db st"
    | actor h db x where "sess_DeviceID session = Some actor" "snd ?r = Inr x"
      "report_on_target rq actor session t' p h now db = Inr (fst ?r, x)"
      "db_targets db = db_targets (ft_db st)" "sends_from db = sends_from (ft_db st)"
  proof (cases "sess_DeviceID session")
    case None
    then show ?thesis using that(1) by (simp add: ReportTransferProgress_def)
  next
    case actor: (Some actor)
    let ?db = "insert_record actor ''PUT'' (progress_resource t' (pg_DeviceID p)) (pg_IdempotencyKey p) (hash_of p) (ft_db st)"
    show ?thesis
    proof (cases "pg_IdempotencyKey p = ''''")
      case True
      with run [of "report_on_target rq actor session t' p '''' now (ft_db st)"] actor that show ?thesis
        by (auto simp: ReportTransferProgress_def)
    next
      case False
      show ?thesis
      proof (cases "find_record (ft_db st) actor ''PUT'' (progress_resource t' (pg_DeviceID p)) (pg_IdempotencyKey p)")
        case None
        with run [of "report_on_target rq actor session t' p (hash_of p) now ?db"] actor False
        have "fst ?r = ft_db st \<or> (\<exists>x. snd ?r = Inr x \<and>
            report_on_target rq actor session t' p (hash_of p) now ?db = Inr (fst ?r, x))"
          by (simp add: ReportTransferProgress_def)
        then show ?thesis using that(1) that(2) [OF actor, of _ "hash_of p" ?db] by auto
      next
        case (Some i)
        then show ?thesis
          using that(1) actor False by (auto simp: ReportTransferProgress_def split: option.splits Response.splits)
      qed
    qed
  qed
  then show ?thesis
  proof cases
    case 1
    then show ?thesis using assms by simp
  next
    case 2
    from report_on_target_status [OF 2(3), of t d] show ?thesis
    proof
      assume change: "t' = t \<and> pg_DeviceID p = d \<and> (actor = d \<or> sends_from db t actor) \<and>
        (\<exists>row. find (is_target t d) (db_targets db) = Some row \<and> CanTransitionTo (tgt_status row) (pg_Status p)) \<and>
        map_option tgt_status (find (is_target t d) (db_targets (fst ?r))) = Some (pg_Status p)"
      have "?r = (fst ?r, Inr x)" using 2(2) by (metis prod.collapse)
      then have "reported t d (pg_Status p) st st'"
        unfolding reported_def using change 2(1,5) assms by metis
      then show ?thesis using change 2(4) assms by (auto simp: status_at_def)
    qed (use 2(4) assms in \<open>simp add: status_at_def\<close>)
  qed
qed

lemma target_step_status:
  assumes "target_step st st'"
  shows "calm (status_at st t d) (status_at st' t d) \<or>
    (\<exists>a b. status_at st t d = Some a \<and> status_at st' t d = Some b \<and> CanTransitionTo a b \<and> reported t d b st st')"
  using assms
proof cases
  case (report hash_of rq session t' p now)
  from report_status [OF report, of t d] show ?thesis by auto
next
  case (chunk session c)
  have "ft_db (fst (RecordChunk st session c)) = ft_db st" by (simp add: RecordChunk_def split: option.split)
  then show ?thesis unfolding chunk by (simp add: status_at_def)
qed (auto simp: Create_calm Retry_calm Cancel_calm Read_calm Complete_calm Expired_calm status_at_same)

section \<open>Tracing a delivery back\<close>

text \<open>The last time a property begins to hold before a given moment.\<close>

lemma last_entrance:
  assumes "\<not> P 0" and "P (k::nat)"
  shows "\<exists>i < k. \<not> P i \<and> (\<forall>m. i < m \<longrightarrow> m \<le> k \<longrightarrow> P m)"
  using assms(2)
proof (induction k)
  case (Suc k)
  then show ?case
  proof (cases "P k")
    case True
    with Suc.IH obtain i where "i < k" "\<not> P i" "\<forall>m. i < m \<longrightarrow> m \<le> k \<longrightarrow> P m" by blast
    with Suc.prems show ?thesis by (metis le_Suc_eq less_SucI)
  next
    case False
    with Suc.prems show ?thesis by (metis Suc_leI antisym lessI)
  qed
qed (use assms(1) in simp)

lemma initialStatus_never [simp]:
  "initialStatus route \<noteq> TransferDownloading" "initialStatus route \<noteq> TransferVerifying"
  "initialStatus route \<noteq> TransferDelivered" "initialStatus route \<noteq> TransferRead"
  by (cases route rule: initialStatus.cases; simp)+

lemmas initialStatus_never' [simp] = initialStatus_never [symmetric]

lemma reaches_Read: "CanTransitionTo a TransferRead \<Longrightarrow> a = TransferDelivered"
  by (cases a) (auto simp: CanTransitionTo_def)

lemma reaches_Delivered: "CanTransitionTo a TransferDelivered \<Longrightarrow> a = TransferVerifying"
  by (cases a) (auto simp: CanTransitionTo_def)

lemma reaches_Verifying:
  "CanTransitionTo a TransferVerifying \<Longrightarrow> a = TransferTransferringLAN \<or> a = TransferDownloading"
  by (cases a) (auto simp: CanTransitionTo_def)

lemma reaches_Downloading: "CanTransitionTo a TransferDownloading \<Longrightarrow> a = TransferAvailableOnNode"
  by (cases a) (auto simp: CanTransitionTo_def)

lemma reaches_TransferringLAN: "CanTransitionTo a TransferTransferringLAN \<Longrightarrow> a = TransferCheckingRoute"
  by (cases a) (auto simp: CanTransitionTo_def)

lemmas reaches = reaches_Read reaches_Delivered reaches_Verifying reaches_Downloading reaches_TransferringLAN

definition done_status :: "TransferStatus option \<Rightarrow> bool" where
  "done_status s \<longleftrightarrow> s = Some TransferDelivered \<or> s = Some TransferRead"

definition moving_status :: "TransferStatus option \<Rightarrow> bool" where
  "moving_status s \<longleftrightarrow> s = Some TransferTransferringLAN \<or> s = Some TransferDownloading"

text \<open>How a target comes to be moving, verified and delivered in one step.\<close>

lemma enters_done:
  assumes "target_step st st'" and "\<not> done_status (status_at st t d)" and "done_status (status_at st' t d)"
  shows "status_at st t d = Some TransferVerifying \<and> reported t d TransferDelivered st st'"
  using target_step_status [OF assms(1), of t d] assms(2,3)
  by (auto simp: calm_def done_status_def dest: reaches)

lemma enters_Verifying:
  assumes "target_step st st'" and "status_at st t d \<noteq> Some TransferVerifying"
    and "status_at st' t d = Some TransferVerifying"
  shows "moving_status (status_at st t d) \<and> reported t d TransferVerifying st st'"
  using target_step_status [OF assms(1), of t d] assms(2,3)
  by (auto simp: calm_def moving_status_def dest: reaches)

lemma enters_moving:
  assumes "target_step st st'" and "\<not> moving_status (status_at st t d)" and "moving_status (status_at st' t d)"
  shows "status_at st t d = None \<and> status_at st' t d = Some TransferTransferringLAN \<or>
    status_at st t d = Some TransferCheckingRoute \<and> status_at st' t d = Some TransferTransferringLAN \<and>
      reported t d TransferTransferringLAN st st' \<or>
    status_at st t d = Some TransferAvailableOnNode \<and> status_at st' t d = Some TransferDownloading \<and>
      reported t d TransferDownloading st st'"
  using target_step_status [OF assms(1), of t d] assms(2,3)
  by (auto simp: calm_def moving_status_def dest: reaches)

text \<open>A target never changes from one way of moving to the other directly.\<close>

lemma stays_moving:
  assumes "target_step st st'" and "moving_status (status_at st t d)" and "moving_status (status_at st' t d)"
  shows "status_at st' t d = status_at st t d"
  using target_step_status [OF assms(1), of t d] assms(2,3)
  by (auto simp: calm_def moving_status_def dest: reaches)

lemma run_step: "successively target_step sts \<Longrightarrow> Suc i < length sts \<Longrightarrow> target_step (sts ! i) (sts ! Suc i)"
  by (simp add: successively_conv_nth)

lemma moving_constant:
  assumes "successively target_step sts" and "i < length sts"
    and "\<And>m. h < m \<Longrightarrow> m \<le> i \<Longrightarrow> moving_status (status_at (sts ! m) t d)" and "h < i"
  shows "status_at (sts ! i) t d = status_at (sts ! Suc h) t d"
proof -
  have "status_at (sts ! m) t d = status_at (sts ! Suc h) t d" if "Suc h \<le> m" "m \<le> i" for m
    using that
  proof (induction m rule: dec_induct)
    case (step m)
    have "target_step (sts ! m) (sts ! Suc m)"
      using assms(1,2) step by (intro run_step) simp_all
    from stays_moving [OF this, of t d] assms(3) [of m] assms(3) [of "Suc m"] step show ?case by simp
  qed simp
  from this [of i] assms(4) show ?thesis by (meson Suc_leI order_refl)
qed

text \<open>
  C2. A delivery can be traced back. Take any run of the Node's operations on transfers and files
  by any sessions (creations as the service prepares them, reports, retries, cancellations,
  reads, hides, timeline events, uploads and completions of files, expiries, deletions of content and groups), at whose
  beginning a target does not exist or is not yet transferring, downloading, verifying, delivered or read, and at whose end it is delivered
  or read. Then the run contains two progress reports for exactly this target, each
  accepted and made from the target's device or the sending device: one that set it to
  Verifying while it was Downloading or TransferringLAN, and later one that set it to Delivered
  while it was Verifying. Before them lies the step that made it move, after which its status was
  the same until the first report: the creation of the target with the LAN route, an accepted report
  of TransferringLAN while the route was being checked, or an accepted report of Downloading while the
  file was available on the Node. So no completion, retry or other operation ever delivers a target.
\<close>

theorem delivery_traced_back:
  assumes "successively target_step sts" and "sts \<noteq> []"
    and "status_at (hd sts) t d \<notin> Some ` {TransferTransferringLAN, TransferDownloading, TransferVerifying,
      TransferDelivered, TransferRead}"
    and "status_at (last sts) t d \<in> Some ` {TransferDelivered, TransferRead}"
  shows "\<exists>h i j. h < i \<and> i < j \<and> Suc j < length sts \<and>
    (status_at (sts ! h) t d = None \<and> status_at (sts ! Suc h) t d = Some TransferTransferringLAN \<or>
     status_at (sts ! h) t d = Some TransferCheckingRoute \<and> status_at (sts ! Suc h) t d = Some TransferTransferringLAN \<and>
       reported t d TransferTransferringLAN (sts ! h) (sts ! Suc h) \<or>
     status_at (sts ! h) t d = Some TransferAvailableOnNode \<and> status_at (sts ! Suc h) t d = Some TransferDownloading \<and>
       reported t d TransferDownloading (sts ! h) (sts ! Suc h)) \<and>
    status_at (sts ! i) t d = status_at (sts ! Suc h) t d \<and>
    reported t d TransferVerifying (sts ! i) (sts ! Suc i) \<and>
    status_at (sts ! Suc i) t d = Some TransferVerifying \<and> status_at (sts ! j) t d = Some TransferVerifying \<and>
    reported t d TransferDelivered (sts ! j) (sts ! Suc j)"
proof -
  let ?s = "\<lambda>m. status_at (sts ! m) t d"
  have zero: "\<not> done_status (?s 0)" "?s 0 \<noteq> Some TransferVerifying" "\<not> moving_status (?s 0)"
    using assms(2,3) by (auto simp: hd_conv_nth done_status_def moving_status_def)
  have "done_status (?s (length sts - 1))"
    using assms(2,4) by (auto simp: last_conv_nth done_status_def)
  from last_entrance [of "\<lambda>m. done_status (?s m)", OF zero(1) this] obtain j where
    j: "j < length sts - 1" "\<not> done_status (?s j)" "done_status (?s (Suc j))" by auto
  then have "target_step (sts ! j) (sts ! Suc j)" using run_step [OF assms(1)] by simp
  note delivered = enters_done [OF this j(2,3)]
  from last_entrance [of "\<lambda>m. ?s m = Some TransferVerifying" j] zero(2) delivered obtain i where
    i: "i < j" "?s i \<noteq> Some TransferVerifying" "?s (Suc i) = Some TransferVerifying" by auto
  then have "target_step (sts ! i) (sts ! Suc i)" using run_step [OF assms(1)] j(1) by simp
  note verifying = enters_Verifying [OF this i(2,3)]
  from last_entrance [of "\<lambda>m. moving_status (?s m)" i] zero(3) verifying obtain h where
    h: "h < i" "\<not> moving_status (?s h)" "\<And>m. h < m \<Longrightarrow> m \<le> i \<Longrightarrow> moving_status (?s m)" by auto
  then have "target_step (sts ! h) (sts ! Suc h)" using run_step [OF assms(1)] i(1) j(1) by simp
  note step = this
  have moving: "moving_status (?s (Suc h))" using h(1,3) by simp
  note start = enters_moving [OF step h(2) moving]
  have "?s i = ?s (Suc h)"
    by (rule moving_constant [OF assms(1) _ h(3,1)]) (use i(1) j(1) in simp_all)
  moreover have "Suc j < length sts" using j(1) by simp
  ultimately show ?thesis
    using start verifying delivered h(1) i(1,3)
    by (intro exI [of _ h] exI [of _ i] exI [of _ j]) blast
qed

section \<open>An example\<close>

definition sample_report :: "TransferStatus \<Rightarrow> file_tables \<Rightarrow> file_tables" where
  "sample_report s st = st\<lparr>ft_db := fst (ReportTransferProgress (\<lambda>p. ''h'') ''rq'' (ft_db st) (example_session ''d1'') ''t1''
     \<lparr>pg_IdempotencyKey = '''', pg_DeviceID = ''d1'', pg_Status = s, pg_Route = SelectedRouteOther '''',
       pg_BytesTransferred = 250, pg_ErrorCode = ''''\<rparr> 9)\<rparr>"

definition sample_start :: file_tables where
  "sample_start = \<lparr>ft_db = sample_db TransferAvailableOnNode, ft_chunks = []\<rparr>"

lemma sample_life:
  "status_at sample_start ''t1'' ''d1'' = Some TransferAvailableOnNode"
  "status_at (sample_report TransferDelivered (sample_report TransferVerifying (sample_report TransferDownloading
     sample_start))) ''t1'' ''d1'' = Some TransferDelivered"
  by code_simp+

theorem delivery_traced_back_witness:
  "let s1 = sample_report TransferDownloading sample_start; s2 = sample_report TransferVerifying s1;
       s3 = sample_report TransferDelivered s2; sts = [sample_start, s1, s2, s3]
   in \<exists>i j. i < j \<and> reported ''t1'' ''d1'' TransferVerifying (sts ! i) (sts ! Suc i) \<and>
        reported ''t1'' ''d1'' TransferDelivered (sts ! j) (sts ! Suc j)"
proof -
  let ?s1 = "sample_report TransferDownloading sample_start"
  let ?s2 = "sample_report TransferVerifying ?s1"
  let ?s3 = "sample_report TransferDelivered ?s2"
  have step: "target_step st (sample_report s st)" for s st
    unfolding sample_report_def by (rule target_step.report)
  have "successively target_step [sample_start, ?s1, ?s2, ?s3]" using step by simp
  from delivery_traced_back [OF this, of "''t1''" "''d1''"] sample_life show ?thesis
    unfolding Let_def by auto
qed

end
