(* ===== verification/Backup.thy ===== *)
theory Backup
  imports DeviceHistory Cleaner "HOL-Library.Sublist" "HOL-Library.List_Lexorder" "HOL-Library.Char_ord"
begin

text \<open>
  Backup and restore of a Node: \<open>internal/backup/service.go\<close> and \<open>internal/postgres/backup.go\<close>, over
  the tables of accounts and devices and the files below the storage root. \<open>tar\<close> with \<open>gzip\<close>, JSON,
  \<open>pg_dump\<close>, \<open>pg_restore\<close> and the opening of the store are parameters. Directories without files are not
  modelled, nor is an input or output error of the disk other than a name that is taken; reading an
  entry of an archive may fail in its middle, and every step of the store may fail.
\<close>

section \<open>Data\<close>

datatype backup_error = ErrInvalidArchive | ErrFile | ErrDump | ErrStore

text \<open>What \<open>Restore\<close> answers: one error, or the failure of \<open>pg_restore\<close> joined with what the store answered.\<close>

datatype restore_error = Failed backup_error | ErrRestoreDump "backup_error option"

record BackupManifest =
  man_FormatVersion :: int
  man_CreatedAt :: time
  man_IncludeFiles :: bool

definition FormatVersion :: int where "FormatVersion = 1"

text \<open>
  A header of an archive with the content that can be read; \<open>te_regular\<close> tells the type \<open>TypeReg\<close>,
  \<open>te_cut\<close> that reading fails after this content.
\<close>

record TarEntry =
  te_Name :: string
  te_regular :: bool
  te_content :: string
  te_cut :: bool

text \<open>
  The files below a directory by the segments of their relative paths, and the archives of
  the machine by their paths.
\<close>

type_synonym tree = "(string list \<times> string) list"
type_synonym archives = "string \<Rightarrow> string option"

text \<open>
  What the service gets from outside. \<open>bk_unpack\<close> gives the entries that can be read and whether the
  archive ends after them without an error; \<open>bk_decode\<close> fills a manifest from the JSON text;
  \<open>bk_restore\<close> gives the database after \<open>pg_restore\<close> and whether it succeeded; \<open>bk_before\<close> tells whether
  the store can be opened and read before it, and \<open>bk_after\<close> which steps of the store succeed on the
  tables that \<open>pg_restore\<close> left.
\<close>

datatype protect_step = OpenStore | BeginTx | CloseSessions | StampDevices | CommitTx

record 'd BackupEnv =
  bk_pack :: "TarEntry list \<Rightarrow> string"
  bk_unpack :: "string \<Rightarrow> TarEntry list \<times> bool"
  bk_encode :: "BackupManifest \<Rightarrow> string"
  bk_decode :: "BackupManifest \<Rightarrow> string \<Rightarrow> BackupManifest option"
  bk_dump :: "'d \<Rightarrow> string option"
  bk_restore :: "string \<Rightarrow> 'd \<Rightarrow> 'd \<times> bool"
  bk_before :: bool
  bk_after :: "'d \<Rightarrow> protect_step \<Rightarrow> bool"

section \<open>The security store (postgres/backup.go)\<close>

definition RevokedDeviceIDs :: "'a device_db_scheme \<Rightarrow> string list" where
  "RevokedDeviceIDs db = map dr_id (filter (\<lambda>d. dr_revoked_at d \<noteq> None) (ddb_devices db))"

text \<open>
  The transaction of \<open>ProtectRestoredSecurity\<close>: what it writes, and with the steps that succeed; a
  step that fails rolls everything back.
\<close>

definition protected_rows :: "string list \<Rightarrow> time \<Rightarrow> 'a device_db_scheme \<Rightarrow> 'a device_db_scheme" where
  "protected_rows revoked now db = db\<lparr>
     db_sessions := update_where (\<lambda>s. s_revoked_at s = None) (\<lambda>s. s\<lparr>s_revoked_at := Some now\<rparr>) (db_sessions db),
     ddb_devices := (if revoked = [] then ddb_devices db
       else update_where (\<lambda>d. dr_id d \<in> set revoked)
         (\<lambda>d. d\<lparr>dr_revoked_at := Some (case dr_revoked_at d of None \<Rightarrow> now | Some t \<Rightarrow> t)\<rparr>) (ddb_devices db))\<rparr>"

definition ProtectRestoredSecurity ::
  "(protect_step \<Rightarrow> bool) \<Rightarrow> string list \<Rightarrow> time \<Rightarrow> 'a device_db_scheme \<Rightarrow> 'a device_db_scheme \<times> backup_error option"
where
  "ProtectRestoredSecurity succeeds revoked now db =
     (if \<not> succeeds BeginTx then (db, Some ErrStore)
      else if \<not> succeeds CloseSessions then (db, Some ErrStore)
      else if revoked \<noteq> [] \<and> \<not> succeeds StampDevices then (db, Some ErrStore)
      else if \<not> succeeds CommitTx then (db, Some ErrStore)
      else (protected_rows revoked now db, None))"

section \<open>Writing an archive (backup/service.go)\<close>

text \<open>The directory \<open>backups\<close> of the root is skipped; a plain file of that name is not.\<close>

definition in_backups :: "string list \<Rightarrow> bool" where
  "in_backups segments \<longleftrightarrow> 2 \<le> length segments \<and> hd segments = ''backups''"

definition writeStorage :: "tree \<Rightarrow> TarEntry list" where
  "writeStorage tree = map (\<lambda>(segments, bytes).
     \<lparr>te_Name = filepath_Join [''files'', join_with ''/'' segments], te_regular = True, te_content = bytes, te_cut = False\<rparr>)
     (filter (\<lambda>(segments, bytes). \<not> in_backups segments) tree)"

definition Create_backup ::
  "'d BackupEnv \<Rightarrow> time \<Rightarrow> string \<Rightarrow> string \<Rightarrow> string \<Rightarrow> bool \<Rightarrow> 'd \<Rightarrow> tree \<Rightarrow> archives \<Rightarrow> backup_error + archives"
where
  "Create_backup env now databaseURL storageRoot destination includeFiles db tree files =
     (if databaseURL = '''' \<or> storageRoot = '''' \<or> destination = '''' then Inl ErrInvalidArchive
      else case bk_dump env db of
        None \<Rightarrow> Inl ErrDump
      | Some dump \<Rightarrow>
          if files destination \<noteq> None then Inl ErrFile
          else let manifest = bk_encode env \<lparr>man_FormatVersion = FormatVersion, man_CreatedAt = now, man_IncludeFiles = includeFiles\<rparr>;
                   entries = \<lparr>te_Name = ''manifest.json'', te_regular = True, te_content = manifest, te_cut = False\<rparr> #
                     \<lparr>te_Name = ''database.dump'', te_regular = True, te_content = dump, te_cut = False\<rparr> #
                     (if includeFiles then writeStorage tree else [])
               in Inr (files(destination \<mapsto> bk_pack env entries)))"

section \<open>Reading an archive (backup/service.go)\<close>

definition within_dir :: "string \<Rightarrow> string \<Rightarrow> bool" where
  "within_dir root target \<longleftrightarrow>
     (let relative = filepath_Rel root target in relative \<noteq> ''..'' \<and> \<not> HasPrefix relative ''../'')"

text \<open>A name that is taken by a file, or that would need a file to be a directory or a directory to be a file.\<close>

definition occupied :: "(string \<times> string) list \<Rightarrow> string \<Rightarrow> bool" where
  "occupied files name \<longleftrightarrow> list_ex (\<lambda>(n, c). n = name \<or> HasPrefix name (n @ ''/'') \<or> HasPrefix n (name @ ''/'')) files"

text \<open>
  Each step gives the manifest and the files that are on the disk after it, whether it fails or not;
  the names are those below the directory of the extraction.
\<close>

type_synonym extraction = "BackupManifest option \<times> (string \<times> string) list"

definition extract_entry ::
  "'d BackupEnv \<Rightarrow> string \<Rightarrow> TarEntry \<Rightarrow> extraction \<Rightarrow> extraction \<times> backup_error option"
where
  "extract_entry env destination e s =
     (case s of (manifest, files) \<Rightarrow>
        let name = path_Clean (te_Name e);
            previous = (case manifest of None \<Rightarrow> \<lparr>man_FormatVersion = 0, man_CreatedAt = 0, man_IncludeFiles = False\<rparr> | Some m \<Rightarrow> m)
        in if name = ''manifest.json'' then
             (case bk_decode env previous (take 1048576 (te_content e)) of
                None \<Rightarrow> (s, Some ErrInvalidArchive) | Some m \<Rightarrow> ((Some m, files), None))
           else if name \<noteq> ''database.dump'' \<and> \<not> HasPrefix name ''files/'' then (s, Some ErrInvalidArchive)
           else if \<not> within_dir destination (filepath_Join [destination, name]) \<or> \<not> te_regular e then (s, Some ErrInvalidArchive)
           else if occupied files name then (s, Some ErrFile)
           else ((manifest, files @ [(name, te_content e)]), if te_cut e then Some ErrFile else None))"

fun extract_entries ::
  "'d BackupEnv \<Rightarrow> string \<Rightarrow> TarEntry list \<Rightarrow> extraction \<Rightarrow> extraction \<times> backup_error option"
where
  "extract_entries env destination [] s = (s, None)"
| "extract_entries env destination (e # es) s =
     (case extract_entry env destination e s of
        (s', Some err) \<Rightarrow> (s', Some err)
      | (s', None) \<Rightarrow> extract_entries env destination es s')"

text \<open>The files that the extraction leaves, and its answer.\<close>

definition extractArchive ::
  "'d BackupEnv \<Rightarrow> string \<Rightarrow> string \<Rightarrow> (string \<times> string) list \<times> (backup_error + BackupManifest)"
where
  "extractArchive env archive destination =
     (case bk_unpack env archive of (entries, complete) \<Rightarrow>
        case extract_entries env destination entries (None, []) of
          ((manifest, files), Some err) \<Rightarrow> (files, Inl err)
        | ((manifest, files), None) \<Rightarrow> (files,
            if \<not> complete then Inl ErrInvalidArchive
            else case manifest of
              None \<Rightarrow> Inl ErrInvalidArchive
            | Some m \<Rightarrow> if map_of files ''database.dump'' = None then Inl ErrInvalidArchive else Inr m))"

section \<open>Restoring (backup/service.go)\<close>

text \<open>The extracted files in the order of \<open>WalkDir\<close>, by the segments below \<open>files\<close>.\<close>

definition extracted_tree :: "(string \<times> string) list \<Rightarrow> tree" where
  "extracted_tree files = SliceStable (\<lambda>a b. fst a < fst b)
     (map (\<lambda>(n, c). (split_on slash (drop 6 n), c)) (filter (\<lambda>(n, c). HasPrefix n ''files/'') files))"

definition blocked :: "tree \<Rightarrow> string list \<Rightarrow> bool" where
  "blocked tree segments \<longleftrightarrow> list_ex (\<lambda>(s, c). s \<noteq> segments \<and> (prefix s segments \<or> prefix segments s)) tree"

definition put_file :: "string list \<Rightarrow> string \<Rightarrow> tree \<Rightarrow> tree" where
  "put_file segments bytes tree =
     (if list_ex (\<lambda>(s, c). s = segments) tree then update_where (\<lambda>(s, c). s = segments) (\<lambda>(s, c). (s, bytes)) tree
      else tree @ [(segments, bytes)])"

fun restoreFiles :: "string \<Rightarrow> tree \<Rightarrow> tree \<Rightarrow> tree \<times> backup_error option" where
  "restoreFiles destination [] tree = (tree, None)"
| "restoreFiles destination ((segments, bytes) # files) tree =
     (if \<not> within_dir destination (filepath_Join [destination, join_with ''/'' segments]) then (tree, Some ErrInvalidArchive)
      else if blocked tree segments then (tree, Some ErrFile)
      else restoreFiles destination files (put_file segments bytes tree))"

lemma restoreFiles_error: "snd (restoreFiles destination files tree) \<noteq> Some ErrStore"
  by (induction destination files tree rule: restoreFiles.induct) simp_all

definition currentRevocations :: "'a device_db_scheme BackupEnv \<Rightarrow> 'a device_db_scheme \<Rightarrow> backup_error + string list" where
  "currentRevocations env db = (if bk_before env then Inr (RevokedDeviceIDs db) else Inl ErrStore)"

text \<open>The temporary directory is removed in every case, with what was extracted.\<close>

definition Restore ::
  "'a device_db_scheme BackupEnv \<Rightarrow> time \<Rightarrow> string \<Rightarrow> string \<Rightarrow> string \<Rightarrow> string \<Rightarrow> archives \<Rightarrow> 'a device_db_scheme \<times> tree \<Rightarrow>
     ('a device_db_scheme \<times> tree) \<times> restore_error option"
where
  "Restore env now temporary databaseURL storageRoot archivePath archives s =
     (case s of (db, tree) \<Rightarrow>
        if databaseURL = '''' \<or> storageRoot = '''' \<or> archivePath = '''' then (s, Some (Failed ErrInvalidArchive))
        else case bindE (currentRevocations env db) (\<lambda>revoked.
               case archives archivePath of
                 None \<Rightarrow> Inl ErrFile
               | Some archive \<Rightarrow> (case extractArchive env archive temporary of
                   (files, Inl e) \<Rightarrow> Inl e
                 | (files, Inr manifest) \<Rightarrow>
                     if man_FormatVersion manifest \<noteq> FormatVersion then Inl ErrInvalidArchive else Inr (revoked, manifest, files))) of
          Inl e \<Rightarrow> (s, Some (Failed e))
        | Inr (revoked, manifest, files) \<Rightarrow>
            (case bk_restore env (the (map_of files ''database.dump'')) db of (db1, restored) \<Rightarrow>
               case (if bk_after env db1 OpenStore then ProtectRestoredSecurity (bk_after env db1) revoked now db1
                     else (db1, Some ErrStore)) of (db2, err) \<Rightarrow>
               if \<not> restored then ((db2, tree), Some (ErrRestoreDump err))
               else if err \<noteq> None then ((db2, tree), map_option Failed err)
               else if man_IncludeFiles manifest then
                 (case restoreFiles storageRoot (extracted_tree files) tree of (tree', e) \<Rightarrow> ((db2, tree'), map_option Failed e))
               else ((db2, tree), None)))"


section \<open>Revocations survive a restore\<close>

lemma ProtectRestoredSecurity_cases:
  "ProtectRestoredSecurity succeeds revoked now db =
     (if succeeds BeginTx \<and> succeeds CloseSessions \<and> (revoked = [] \<or> succeeds StampDevices) \<and> succeeds CommitTx
      then (protected_rows revoked now db, None) else (db, Some ErrStore))"
  by (auto simp: ProtectRestoredSecurity_def)

text \<open>The part of a restore before the tables are touched: the list of revoked devices and the archive.\<close>

definition restore_input ::
  "'a device_db_scheme BackupEnv \<Rightarrow> string \<Rightarrow> string \<Rightarrow> archives \<Rightarrow> 'a device_db_scheme \<Rightarrow>
     backup_error + string list \<times> BackupManifest \<times> (string \<times> string) list"
where
  "restore_input env temporary path archives db = bindE (currentRevocations env db) (\<lambda>revoked.
     case archives path of
       None \<Rightarrow> Inl ErrFile
     | Some archive \<Rightarrow> (case extractArchive env archive temporary of
         (files, Inl e) \<Rightarrow> Inl e
       | (files, Inr manifest) \<Rightarrow>
           if man_FormatVersion manifest \<noteq> FormatVersion then Inl ErrInvalidArchive else Inr (revoked, manifest, files)))"

lemma restore_input_revoked: "restore_input env temporary path archives db = Inr (revoked, m, files) \<Longrightarrow> revoked = RevokedDeviceIDs db"
  by (auto simp: restore_input_def currentRevocations_def split: if_splits option.splits sum.splits prod.splits)

lemma Restore_stops:
  "url = '''' \<or> root = '''' \<or> path = '''' \<Longrightarrow>
     Restore env now temporary url root path archives s = (s, Some (Failed ErrInvalidArchive))"
  "restore_input env temporary path archives db = Inl err \<Longrightarrow> \<not> (url = '''' \<or> root = '''' \<or> path = '''') \<Longrightarrow>
     Restore env now temporary url root path archives (db, tree) = ((db, tree), Some (Failed err))"
  unfolding Restore_def restore_input_def by (simp_all split: prod.split)

lemma Restore_goes_on:
  assumes "restore_input env temporary path archives db = Inr (revoked, manifest, files)" and "\<not> (url = '''' \<or> root = '''' \<or> path = '''')"
    and "bk_restore env (the (map_of files ''database.dump'')) db = (db1, restored)"
  shows "Restore env now temporary url root path archives (db, tree) =
    (case (if bk_after env db1 OpenStore then ProtectRestoredSecurity (bk_after env db1) revoked now db1
           else (db1, Some ErrStore)) of (db2, err) \<Rightarrow>
       if \<not> restored then ((db2, tree), Some (ErrRestoreDump err))
       else if err \<noteq> None then ((db2, tree), map_option Failed err)
       else if man_IncludeFiles manifest then
         (case restoreFiles root (extracted_tree files) tree of (tree', e) \<Rightarrow> ((db2, tree'), map_option Failed e))
       else ((db2, tree), None))"
  using assms unfolding Restore_def restore_input_def by (simp only: prod.case if_False sum.case)

lemma Restore_protected:
  assumes "restore_input env temporary path archives db = Inr (revoked, manifest, files)" and "\<not> (url = '''' \<or> root = '''' \<or> path = '''')"
    and "bk_restore env (the (map_of files ''database.dump'')) db = (db1, restored)"
    and "\<And>q. bk_after env db1 q"
  shows "Restore env now temporary url root path archives (db, tree) =
    (if \<not> restored then ((protected_rows revoked now db1, tree), Some (ErrRestoreDump None))
     else if man_IncludeFiles manifest then
       (case restoreFiles root (extracted_tree files) tree of (tree', e) \<Rightarrow> ((protected_rows revoked now db1, tree'), map_option Failed e))
     else ((protected_rows revoked now db1, tree), None))"
  by (simp add: Restore_goes_on [OF assms(1-3)] ProtectRestoredSecurity_cases assms(4))

text \<open>How a restore ends: before it touches the tables, with the protection, or between the two.\<close>

lemma Restore_cases:
  assumes "Restore env now temporary url root path archives (db, tree) = ((db', tree'), e)"
  obtains (untouched) err where "db' = db" and "e = Some (Failed err)"
    | (safe) db1 where "db' = protected_rows (RevokedDeviceIDs db) now db1"
        and "e \<noteq> Some (Failed ErrStore)" and "e \<noteq> Some (ErrRestoreDump (Some ErrStore))"
    | (exposed) dump where "db' = fst (bk_restore env dump db)"
        and "e = Some (Failed ErrStore) \<or> e = Some (ErrRestoreDump (Some ErrStore))"
proof (cases "url = '''' \<or> root = '''' \<or> path = ''''")
  case True
  then show ?thesis using assms Restore_stops(1) [OF True, of env now temporary archives] by (intro untouched [of ErrInvalidArchive]) simp_all
next
  case named: False
  show ?thesis
  proof (cases "restore_input env temporary path archives db")
    case (Inl err)
    then show ?thesis using assms Restore_stops(2) [OF Inl named, of now tree] by (intro untouched [of err]) simp_all
  next
    case (Inr v)
    obtain revoked manifest files where v: "v = (revoked, manifest, files)" by (cases v)
    note input = Inr [unfolded v]
    obtain db1 restored where db1: "bk_restore env (the (map_of files ''database.dump'')) db = (db1, restored)" by fastforce
    note goes_on = Restore_goes_on [OF input named db1, of now tree]
    let ?store = "if bk_after env db1 OpenStore then ProtectRestoredSecurity (bk_after env db1) revoked now db1 else (db1, Some ErrStore)"
    consider "?store = (protected_rows revoked now db1, None)" | "?store = (db1, Some ErrStore)"
      unfolding ProtectRestoredSecurity_cases by presburger
    then show ?thesis
    proof cases
      case 1
      obtain files_tree err where err: "restoreFiles root (extracted_tree files) tree = (files_tree, err)" by fastforce
      then have "err \<noteq> Some ErrStore" using restoreFiles_error [of root "extracted_tree files" tree] by simp
      then have "db' = protected_rows revoked now db1 \<and> e \<noteq> Some (Failed ErrStore) \<and> e \<noteq> Some (ErrRestoreDump (Some ErrStore))"
        using assms unfolding goes_on 1 err prod.case by (auto split: if_splits)
      then show ?thesis using safe restore_input_revoked [OF input] by blast
    next
      case 2
      have "db' = db1 \<and> (e = Some (Failed ErrStore) \<or> e = Some (ErrRestoreDump (Some ErrStore)))"
        using assms unfolding goes_on 2 prod.case by (auto split: if_splits)
      then show ?thesis using exposed db1 by (metis fst_conv)
    qed
  qed
qed

lemma Restore_safe:
  assumes "Restore env now temporary url root path archives (db, tree) = ((db', tree'), None)"
  obtains dump where "db' = protected_rows (RevokedDeviceIDs db) now (fst (bk_restore env dump db))"
proof -
  have named: "\<not> (url = '''' \<or> root = '''' \<or> path = '''')"
    using assms Restore_stops(1) [of url root path env now temporary archives "(db, tree)"] by (cases "url = '''' \<or> root = '''' \<or> path = ''''") simp_all
  obtain revoked manifest files where input: "restore_input env temporary path archives db = Inr (revoked, manifest, files)"
    using assms Restore_stops(2) [OF _ named, of env temporary archives db _ now tree]
    by (cases "restore_input env temporary path archives db") auto
  obtain db1 restored where db1: "bk_restore env (the (map_of files ''database.dump'')) db = (db1, restored)" by fastforce
  have "db' = protected_rows revoked now db1"
    using assms unfolding Restore_goes_on [OF input named db1]
    by (auto simp: ProtectRestoredSecurity_cases split: if_splits prod.splits)
  then show ?thesis using that [of "the (map_of files ''database.dump'')"] db1 restore_input_revoked [OF input] by simp
qed

lemma protected_locked_out:
  assumes "d \<in> set (RevokedDeviceIDs db)"
  shows "locked_out d (protected_rows (RevokedDeviceIDs db) now db1)"
proof -
  have "RevokedDeviceIDs db \<noteq> []" using assms by auto
  then show ?thesis
    using assms by (auto simp: locked_out_def protected_rows_def list_all_iff set_update_where)
qed

lemma protected_closed: "Authenticate svc (auth_part (protected_rows revoked now db)) t token \<noteq> Inr s"
proof
  assume "Authenticate svc (auth_part (protected_rows revoked now db)) t token = Inr s"
  moreover have "s_revoked_at r \<noteq> None" if "r \<in> set (db_sessions (auth_part (protected_rows revoked now db)))" for r
    using that by (auto simp: protected_rows_def auth_part_def set_update_where)
  ultimately show False using authenticated_session by metis
qed

lemma locked_out_run_refused:
  assumes "locked_out d db" and "list_all (\<lambda>e. new_id (snd e) \<noteq> Some d) evs"
  shows "(\<forall>svc t token s. Authenticate svc (auth_part (run out evs db)) t token = Inr s \<longrightarrow> sess_DeviceID s \<noteq> Some d) \<and>
    (\<forall>cr actor challengeID answer t. snd (AttachSession cr actor d challengeID answer t (run out evs db)) \<noteq> Inr ())"
proof -
  have *: "locked_out d (run out evs db)" by (rule locked_out_run [OF assms])
  then have "snd (AttachSession cr actor d challengeID answer t (run out evs db)) \<noteq> Inr ()" for cr actor challengeID answer t
    using locked_outD by (auto simp: AttachSession_def RedeemDeviceSessionChallenge_def attachable_def split: option.splits)
  with * show ?thesis by (auto simp: locked_out_def list_all_iff auth_part_def dest!: authenticated_session)
qed

text \<open>
  C28. A restore does not bring a revoked device back without saying so, whatever the archive holds
  and at whatever step it fails. Either the tables are what they were before (and an error is
  returned); or the protection was written: a device that was revoked and still listed before the restore
  stays out of every session over any history that follows, and no access token, old or new,
  authenticates until somebody logs in again; or the answer is an error of the store - alone, or
  joined with that of \<open>pg_restore\<close> - and the tables are what \<open>pg_restore\<close> left. A restore that
  succeeds, and one of which only \<open>pg_restore\<close> failed, has always written the protection.
\<close>

theorem revocation_survives_restore:
  assumes "Restore env now temporary url root path archives (db, tree) = ((db', tree'), e)"
    and "d \<in> set (RevokedDeviceIDs db)" and "list_all (\<lambda>e. new_id (snd e) \<noteq> Some d) evs"
  shows "db' = db \<and> (\<exists>err. e = Some (Failed err)) \<or>
    e \<noteq> Some (Failed ErrStore) \<and> e \<noteq> Some (ErrRestoreDump (Some ErrStore)) \<and>
      (\<forall>svc t token s. Authenticate svc (auth_part (run out evs db')) t token = Inr s \<longrightarrow> sess_DeviceID s \<noteq> Some d) \<and>
      (\<forall>cr actor challengeID answer t. snd (AttachSession cr actor d challengeID answer t (run out evs db')) \<noteq> Inr ()) \<and>
      (\<forall>svc t token s. Authenticate svc (auth_part db') t token \<noteq> Inr s) \<or>
    (e = Some (Failed ErrStore) \<or> e = Some (ErrRestoreDump (Some ErrStore))) \<and> (\<exists>dump. db' = fst (bk_restore env dump db))"
  using assms(1)
proof (cases rule: Restore_cases)
  case (untouched err)
  then show ?thesis by blast
next
  case (safe db1)
  have "locked_out d db'" unfolding safe(1) by (rule protected_locked_out [OF assms(2)])
  moreover have "Authenticate svc (auth_part db') t token \<noteq> Inr s" for svc t token s
    unfolding safe(1) by (rule protected_closed)
  ultimately show ?thesis using locked_out_run_refused [OF _ assms(3), of db' out] safe(2,3) by blast
next
  case (exposed dump)
  then show ?thesis by blast
qed

text \<open>
  C29. The list of revoked devices is read from the rows that are left: a device that is revoked and then
  deleted is trusted again after a restore of an older backup, with the key it had.
\<close>

theorem deleted_device_trusted_again:
  assumes "Revoke_device session d t1 db0 = Inr (db1, v)" and "Delete session d db1 = Inr db2"
    and "r \<in> set (ddb_devices db0)" and "dr_id r = d" and "trusted r" and "distinct (map dr_id (ddb_devices db0))"
    and "Restore env now temporary url root path archives (db2, tree) = ((db', tree'), None)"
    and "\<And>dump. bk_restore env dump db2 = (db0, True)"
  shows "r \<in> set (ddb_devices db') \<and> trusted r \<and> ddb_keys db' = ddb_keys db0"
proof -
  have "d \<notin> dr_id ` set (ddb_devices db2)"
    using assms(2) by (auto simp: Delete_def DeleteDevice_def delete_cascade_def Let_def split: if_splits)
  then have "d \<notin> set (RevokedDeviceIDs db2)" by (auto simp: RevokedDeviceIDs_def)
  moreover have "db' = protected_rows (RevokedDeviceIDs db2) now db0"
    using assms(7)
  proof (cases rule: Restore_safe)
    case (1 dump)
    then show ?thesis by (simp add: assms(8))
  qed
  ultimately show ?thesis
    using assms(3-5) by (auto simp: protected_rows_def set_update_where)
qed

section \<open>Archives stay inside their directory\<close>

lemma clean_relative:
  assumes "list_all (\<lambda>w. slash \<notin> set w) ws" and "rev acc = replicate k ''..'' @ vs" and "list_all plain_segment vs"
  shows "\<exists>k vs. clean_segments False acc ws = replicate k ''..'' @ vs \<and> list_all plain_segment vs"
  using assms
proof (induction ws arbitrary: acc k vs)
  case Nil
  then show ?case by auto
next
  case (Cons w ws)
  show ?case
  proof (cases "w = '''' \<or> w = ''.''")
    case True
    then show ?thesis using Cons by auto
  next
    case plain: False
    show ?thesis
    proof (cases "w = ''..''")
      case False
      then have "plain_segment w" using plain Cons.prems(1) by (simp add: plain_segment_def)
      then show ?thesis
        using plain False Cons.IH [of "w # acc" k "vs @ [w]"] Cons.prems by simp
    next
      case up: True
      show ?thesis
      proof (cases vs rule: rev_cases)
        case Nil
        then have acc: "rev (''..'' # acc) = replicate (Suc k) ''..'' @ []"
          using Cons.prems(2) by (simp flip: replicate_append_same)
        have "acc = replicate k ''..''" using Nil Cons.prems(2) by (metis append_Nil2 rev_replicate rev_rev_ident)
        then have "clean_segments False acc (w # ws) = clean_segments False (''..'' # acc) ws"
          using up by (cases k) auto
        then show ?thesis using Cons.IH [OF _ acc] Cons.prems(1) by simp
      next
        case (snoc us u)
        then have acc: "acc = u # rev (replicate k ''..'' @ us)"
          using Cons.prems(2) by (metis append_assoc rev_eq_Cons_iff rev_rev_ident rev.simps(2))
        have "u \<noteq> ''..''" using snoc Cons.prems(3) by (simp add: plain_segment_def)
        then have "clean_segments False acc (w # ws) = clean_segments False (rev (replicate k ''..'' @ us)) ws"
          using up acc by simp
        then show ?thesis using Cons.IH [of "rev (replicate k ''..'' @ us)" k us] Cons.prems snoc by simp
      qed
    qed
  qed
qed

lemma files_name_plain:
  assumes "HasPrefix (path_Clean p) ''files/''"
  shows "list_all plain_segment (split_on slash (path_Clean p))" and "2 \<le> length (split_on slash (path_Clean p))"
    and "hd (split_on slash (path_Clean p)) = ''files''"
proof -
  obtain rest where rest: "path_Clean p = ''files'' @ slash # rest" using assms by (auto simp: HasPrefix_iff)
  then have split: "split_on slash (path_Clean p) = ''files'' # split_on slash rest" by (subst rest, intro split_on_append) simp
  have relative: "\<not> HasPrefix p ''/''"
  proof
    assume "HasPrefix p ''/''"
    then have "hd (path_Clean p) = slash" by (simp add: path_Clean_def Let_def)
    then show False using rest by simp
  qed
  have "list_all (\<lambda>w. slash \<notin> set w) (split_on slash p)" using split_on_pieces by (fastforce simp: list_all_iff)
  then obtain k vs where vs: "clean_segments False [] (split_on slash p) = replicate k ''..'' @ vs" "list_all plain_segment vs"
    using clean_relative [of "split_on slash p" "[]" 0 "[]"] by auto
  have dot: "path_Clean p \<noteq> ''.''" using rest by simp
  have "path_Clean p = (if replicate k ''..'' @ vs = [] then ''.'' else join_with ''/'' (replicate k ''..'' @ vs))"
    using relative by (simp only: path_Clean_def Let_def vs(1) if_False)
  then have clean: "path_Clean p = join_with ''/'' (replicate k ''..'' @ vs)" "replicate k ''..'' @ vs \<noteq> []"
    using dot by presburger+
  have all: "split_on slash (path_Clean p) = replicate k ''..'' @ vs"
  proof -
    have "slash \<notin> set w" if "w \<in> set (replicate k ''..'') \<or> w \<in> set vs" for w
      using \<open>w \<in> _ \<or> _\<close> vs(2) unfolding list_all_iff plain_segment_def by (cases "w \<in> set vs") simp_all
    then show ?thesis unfolding clean(1) by (intro split_join [OF clean(2)]) (simp only: set_append Un_iff ball_simps, blast)
  qed
  have "k = 0"
  proof (cases k)
    case (Suc j)
    then have "hd (split_on slash (path_Clean p)) = ''..''" using all by simp
    then show ?thesis using split by simp
  qed simp
  then show "list_all plain_segment (split_on slash (path_Clean p))" using all vs(2) by simp
  have "0 < length (split_on slash rest)" by simp
  then show "2 \<le> length (split_on slash (path_Clean p))" unfolding split by (cases "split_on slash rest") simp_all
  show "hd (split_on slash (path_Clean p)) = ''files''" unfolding split by simp
qed


lemma join_plain_not_dots: "ws \<noteq> [] \<Longrightarrow> list_all plain_segment ws \<Longrightarrow> join_with ''/'' ws \<noteq> ''''"
  by (cases ws rule: remdups_adj.cases) (auto simp: plain_segment_def)

lemma split_join_plain: "ws \<noteq> [] \<Longrightarrow> list_all plain_segment ws \<Longrightarrow> split_on slash (join_with ''/'' ws) = ws"
  by (rule split_join) (simp_all add: list_all_iff plain_segment_def)

lemma join_path:
  assumes "list_all plain_segment ws" and "ws \<noteq> []" and "list_all plain_segment vs" and "vs \<noteq> []"
  shows "filepath_Join [abs_path ws, join_with ''/'' vs] = abs_path (ws @ vs)"
proof -
  have "filter (\<lambda>e. e \<noteq> '''') [abs_path ws, join_with ''/'' vs] = [abs_path ws, join_with ''/'' vs]"
    using join_plain_not_dots [OF assms(4,3)] by (simp add: abs_path_def)
  moreover have "filter (\<lambda>e. e \<noteq> '''') (abs_path ws # vs) = abs_path ws # vs"
    using assms(3) by (auto simp: abs_path_def list_all_iff plain_segment_def filter_id_conv)
  moreover have "join_with ''/'' [abs_path ws, join_with ''/'' vs] = join_with ''/'' (abs_path ws # vs)"
    using assms(4) by (cases vs) simp_all
  ultimately have "filepath_Join [abs_path ws, join_with ''/'' vs] = filepath_Join (abs_path ws # vs)"
    unfolding filepath_Join_def by (simp only: list.case)
  then show ?thesis using filepath_Join_abs [OF assms(1,3,2)] by simp
qed

lemma within_below:
  assumes "list_all plain_segment ws" and "list_all plain_segment vs" and "vs \<noteq> []"
  shows "within_dir (abs_path ws) (abs_path (ws @ vs))"
proof -
  obtain v us where vs: "vs = v # us" using assms(3) by (cases vs) auto
  have "list_all plain_segment (ws @ vs)" using assms by simp
  then have rel: "filepath_Rel (abs_path ws) (abs_path (ws @ vs)) = join_with ''/'' vs"
    using assms(1) vs by (simp add: filepath_Rel_def abs_segments_abs strip_common_same)
  have "split_on slash (join_with ''/'' vs) = vs" using assms(2,3) by (intro split_join_plain)
  then have hd: "hd (split_on slash (join_with ''/'' vs)) \<noteq> ''..''" using assms(2) vs by (simp add: plain_segment_def)
  have "join_with ''/'' vs \<noteq> ''..''" using hd by (auto simp: split_on_free)
  moreover have "\<not> HasPrefix (join_with ''/'' vs) ''../''"
  proof
    assume "HasPrefix (join_with ''/'' vs) ''../''"
    then obtain rest where "join_with ''/'' vs = ''..'' @ slash # rest" by (auto simp: HasPrefix_iff)
    then have "split_on slash (join_with ''/'' vs) = ''..'' # split_on slash rest" by (simp only:, intro split_on_append) simp
    then show False using hd by simp
  qed
  ultimately show ?thesis by (simp add: within_dir_def rel)
qed

text \<open>The names under which an archive is extracted.\<close>

definition name_ok :: "string \<Rightarrow> bool" where
  "name_ok n \<longleftrightarrow> n = ''database.dump'' \<or> HasPrefix n ''files/'' \<and> 2 \<le> length (split_on slash n) \<and>
     list_all plain_segment (split_on slash n) \<and> hd (split_on slash n) = ''files''"

definition names_ok :: "(string \<times> string) list \<Rightarrow> bool" where
  "names_ok files \<longleftrightarrow> list_all (\<lambda>f. name_ok (fst f)) files \<and> distinct (map fst files)"

lemma extract_entry_ok:
  assumes "extract_entry env destination e (m, files) = ((m', files'), err)" and "names_ok files"
  shows "names_ok files'"
proof (cases "files' = files")
  case True
  then show ?thesis using assms(2) by simp
next
  case False
  let ?n = "path_Clean (te_Name e)"
  have files': "files' = files @ [(?n, te_content e)]" and "\<not> occupied files ?n" and "?n = ''database.dump'' \<or> HasPrefix ?n ''files/''"
    using assms(1) False by (auto simp: extract_entry_def Let_def split: if_splits option.splits)
  then have "name_ok ?n" using files_name_plain [of "te_Name e"] unfolding name_ok_def by blast
  moreover have "?n \<notin> set (map fst files)" using \<open>\<not> occupied files ?n\<close> by (auto simp: occupied_def list_ex_iff)
  ultimately show ?thesis using assms(2) files' by (simp add: names_ok_def)
qed

lemma extract_entries_ok:
  assumes "extract_entries env destination es (m, files) = ((m', files'), err)" and "names_ok files"
  shows "names_ok files'"
  using assms
proof (induction es arbitrary: m files)
  case (Cons e es)
  obtain m1 files1 err1 where step: "extract_entry env destination e (m, files) = ((m1, files1), err1)" by (metis prod.exhaust)
  then have "names_ok files1" using extract_entry_ok Cons.prems(2) by blast
  then show ?case using Cons.IH [of m1 files1] Cons.prems(1) step by (cases err1) simp_all
qed simp

lemma extractArchive_ok:
  assumes "extractArchive env archive destination = (files, answer)"
  shows "names_ok files"
proof -
  obtain es complete where es: "bk_unpack env archive = (es, complete)" by fastforce
  obtain m files1 err where run: "extract_entries env destination es (None, []) = ((m, files1), err)" by (metis prod.exhaust)
  have "files = files1" using assms by (auto simp: extractArchive_def es run split: option.splits)
  then show ?thesis using extract_entries_ok [OF run] by (simp add: names_ok_def)
qed

lemma file_name_segments:
  assumes "name_ok n" and "HasPrefix n ''files/''"
  shows "list_all plain_segment (split_on slash (drop 6 n)) \<and> n = join_with ''/'' (''files'' # split_on slash (drop 6 n))"
proof -
  obtain rest where rest: "n = ''files'' @ slash # rest" using assms(2) by (auto simp: HasPrefix_iff)
  then have split: "split_on slash n = ''files'' # split_on slash rest" by (subst rest, intro split_on_append) simp
  have "n \<noteq> ''database.dump''" using rest by simp
  then have "list_all plain_segment (''files'' # split_on slash rest)" using assms(1) split by (simp add: name_ok_def)
  moreover have "drop 6 n = rest" using rest by simp
  moreover have "join_with ''/'' (''files'' # split_on slash rest) = n"
    using rest join_split [of slash rest] by (cases "split_on slash rest") simp_all
  ultimately show ?thesis by simp
qed

lemma extracted_below:
  assumes "name_ok n" and "list_all plain_segment tws" and "tws \<noteq> []"
  shows "\<exists>ws. ws \<noteq> [] \<and> list_all plain_segment ws \<and> filepath_Join [abs_path tws, n] = abs_path (tws @ ws)"
proof (cases "n = ''database.dump''")
  case True
  have dump: "list_all plain_segment [''database.dump'']" by (simp add: plain_segment_def)
  have "filepath_Join [abs_path tws, n] = abs_path (tws @ [''database.dump''])"
    using join_path [OF assms(2,3) dump] True by simp
  then show ?thesis using dump by blast
next
  case False
  have seg: "list_all plain_segment (''files'' # split_on slash (drop 6 n))" "n = join_with ''/'' (''files'' # split_on slash (drop 6 n))"
    using file_name_segments [OF assms(1)] assms(1) False by (simp_all add: name_ok_def plain_segment_def)
  then show ?thesis using join_path [OF assms(2,3) seg(1)] by (metis list.distinct(1))
qed

lemma extracted_tree_plain:
  assumes "names_ok files" and "(ws, c) \<in> set (extracted_tree files)"
  shows "ws \<noteq> [] \<and> list_all plain_segment ws"
proof -
  obtain n where n: "(n, c) \<in> set files" "HasPrefix n ''files/''" "ws = split_on slash (drop 6 n)"
    using assms(2) by (auto simp: extracted_tree_def)
  then have "name_ok n" using assms(1) by (auto simp: names_ok_def list_all_iff)
  then show ?thesis using file_name_segments n(2,3) by simp
qed

lemma map_of_put_file: "map_of (put_file s c tree) = (map_of tree)(s \<mapsto> c)"
proof (cases "list_ex (\<lambda>(t, x). t = s) tree")
  case True
  have "map_of (update_where (\<lambda>(t, x). t = s) (\<lambda>(t, x). (t, c)) tree) k =
      (if k = s \<and> list_ex (\<lambda>(t, x). t = s) tree then Some c else map_of tree k)" for k
    by (induction tree) (auto simp: update_where_def)
  then show ?thesis using True by (auto simp: put_file_def)
next
  case False
  then have "map_of tree s = None" by (auto simp: list_ex_iff map_of_eq_None_iff)
  then show ?thesis using False by (auto simp: put_file_def map_add_def split: option.split)
qed

text \<open>What differs after \<open>restoreFiles\<close>, whatever it answers, is a file it was given.\<close>

lemma restoreFiles_writes:
  assumes "restoreFiles destination files tree = (tree', e)" and "map_of tree' ws \<noteq> map_of tree ws"
  shows "\<exists>c. (ws, c) \<in> set files \<and> map_of tree' ws = Some c"
  using assms
proof (induction destination files tree rule: restoreFiles.induct)
  case (2 destination segments bytes files tree)
  show ?case
  proof (cases "tree' = tree")
    case False
    then have rest: "restoreFiles destination files (put_file segments bytes tree) = (tree', e)"
      and guards: "within_dir destination (filepath_Join [destination, join_with ''/'' segments])" "\<not> blocked tree segments"
      using "2.prems"(1) by (auto split: if_splits)
    show ?thesis
    proof (cases "map_of tree' ws = map_of (put_file segments bytes tree) ws")
      case True
      then have "ws = segments" using "2.prems"(2) by (auto simp: map_of_put_file split: if_splits)
      then show ?thesis using True by (auto simp: map_of_put_file)
    next
      case False
      then show ?thesis using "2.IH" [OF _ _ rest] guards by auto
    qed
  qed (use "2.prems"(2) in simp)
qed simp

text \<open>
  C30. No archive writes outside the two directories, whatever its entries are called, and whether or
  not the extraction and the restoring of the files run to their end: the files that \<open>extractArchive\<close> has left on the
  disk when it answers, with an error or without, have names of their own and lie strictly below the
  temporary directory; and when \<open>restoreFiles\<close> is run on them, every file whose content differs
  afterwards, whatever it answers, lies strictly below the storage root and has the content of an
  extracted file.
\<close>

theorem archive_confined:
  assumes "list_all plain_segment tws" and "tws \<noteq> []" and "list_all plain_segment rws" and "rws \<noteq> []"
    and "extractArchive env archive (abs_path tws) = (files, answer)"
    and "restoreFiles (abs_path rws) (extracted_tree files) tree = (tree', e)"
  shows "distinct (map fst files) \<and>
    list_all (\<lambda>(n, c). \<exists>ws. ws \<noteq> [] \<and> list_all plain_segment ws \<and> filepath_Join [abs_path tws, n] = abs_path (tws @ ws)) files \<and>
    (\<forall>ws. map_of tree' ws \<noteq> map_of tree ws \<longrightarrow>
      ws \<noteq> [] \<and> list_all plain_segment ws \<and> filepath_Join [abs_path rws, join_with ''/'' ws] = abs_path (rws @ ws) \<and>
      (\<exists>c. (ws, c) \<in> set (extracted_tree files) \<and> map_of tree' ws = Some c))"
proof -
  have ok: "names_ok files" using extractArchive_ok [OF assms(5)] .
  have "\<exists>ws. ws \<noteq> [] \<and> list_all plain_segment ws \<and> filepath_Join [abs_path tws, fst f] = abs_path (tws @ ws)" if "f \<in> set files" for f
    using extracted_below [OF _ assms(1,2), of "fst f"] ok that by (simp add: names_ok_def list_all_iff)
  moreover have "ws \<noteq> [] \<and> list_all plain_segment ws \<and> filepath_Join [abs_path rws, join_with ''/'' ws] = abs_path (rws @ ws) \<and>
      (\<exists>c. (ws, c) \<in> set (extracted_tree files) \<and> map_of tree' ws = Some c)"
    if changed: "map_of tree' ws \<noteq> map_of tree ws" for ws
  proof -
    obtain c where c: "(ws, c) \<in> set (extracted_tree files)" "map_of tree' ws = Some c"
      using restoreFiles_writes [OF assms(6) changed] by blast
    then have "ws \<noteq> []" "list_all plain_segment ws" using extracted_tree_plain [OF ok] by blast+
    then show ?thesis using join_path [OF assms(3,4)] c by blast
  qed
  ultimately show ?thesis using ok by (simp add: names_ok_def list_all_iff case_prod_beta)
qed


section \<open>A backup is restored\<close>

text \<open>No file is also a directory.\<close>

definition no_conflict :: "string list set \<Rightarrow> bool" where
  "no_conflict S \<longleftrightarrow> (\<forall>s \<in> S. \<forall>t \<in> S. s \<noteq> t \<longrightarrow> \<not> prefix s t)"

lemma no_conflictD: "no_conflict S \<Longrightarrow> s \<in> S \<Longrightarrow> t \<in> S \<Longrightarrow> s \<noteq> t \<Longrightarrow> \<not> prefix s t"
  unfolding no_conflict_def by blast

definition tree_ok :: "tree \<Rightarrow> bool" where
  "tree_ok tree \<longleftrightarrow> distinct (map fst tree) \<and> list_all (\<lambda>(ws, c). ws \<noteq> [] \<and> list_all plain_segment ws) tree \<and>
     no_conflict (fst ` set tree)"

definition storage_name :: "string list \<Rightarrow> string" where
  "storage_name ws = join_with ''/'' (''files'' # ws)"

lemma files_plain: "plain_segment ''files''"
  by (simp add: plain_segment_def)

lemma storage_name_facts:
  assumes "list_all plain_segment ws" and "ws \<noteq> []"
  shows "filepath_Join [''files'', join_with ''/'' ws] = storage_name ws" and "path_Clean (storage_name ws) = storage_name ws"
    and "HasPrefix (storage_name ws) ''files/''" and "split_on slash (drop 6 (storage_name ws)) = ws"
    and "storage_name ws \<noteq> ''manifest.json''" and "storage_name ws \<noteq> ''database.dump''"
proof -
  have all: "\<forall>w \<in> set (''files'' # ws). plain_segment w" using assms(1) files_plain by (simp add: list_all_iff)
  show clean: "path_Clean (storage_name ws) = storage_name ws" unfolding storage_name_def by (rule path_Clean_join) (use all in simp_all)
  have eq: "storage_name ws = ''files/'' @ join_with ''/'' ws" using assms(2) by (cases ws) (simp_all add: storage_name_def)
  show "filepath_Join [''files'', join_with ''/'' ws] = storage_name ws"
    using clean join_plain_not_dots [OF assms(2,1)] by (simp add: filepath_Join_def eq)
  show "HasPrefix (storage_name ws) ''files/''" unfolding eq by simp
  show "split_on slash (drop 6 (storage_name ws)) = ws" using split_join_plain [OF assms(2,1)] by (simp add: eq)
  show "storage_name ws \<noteq> ''manifest.json''" "storage_name ws \<noteq> ''database.dump''" by (simp_all add: eq)
qed

lemma name_prefix:
  assumes "list_all plain_segment ws" and "ws \<noteq> []" and "list_all plain_segment vs" and "vs \<noteq> []"
    and "HasPrefix (storage_name ws) (storage_name vs @ ''/'')"
  shows "prefix vs ws"
proof -
  obtain rest where "storage_name ws = storage_name vs @ slash # rest" using assms(5) by (auto simp: HasPrefix_iff)
  then have "split_on slash (storage_name ws) = split_on slash (storage_name vs) @ split_on slash rest"
    by (simp only: split_on_concat)
  then have "''files'' # ws = (''files'' # vs) @ split_on slash rest"
    using assms(1,3) files_plain unfolding storage_name_def by (simp add: split_join_plain)
  then show ?thesis by (simp add: prefix_def)
qed

lemma not_occupied:
  assumes "tree_ok tree" and "(ws, c) \<in> set tree" and "fst ` set part \<subseteq> fst ` set tree - {ws}"
  shows "\<not> occupied ((''database.dump'', d) # map (\<lambda>(s, x). (storage_name s, x)) part) (storage_name ws)"
proof -
  have ws: "list_all plain_segment ws" "ws \<noteq> []" using assms(1,2) by (auto simp: tree_ok_def list_all_iff)
  have "\<not> HasPrefix (storage_name ws) (''database.dump'' @ ''/'')" "\<not> HasPrefix ''database.dump'' (storage_name ws @ ''/'')"
    "''database.dump'' \<noteq> storage_name ws"
    using storage_name_facts(3) [OF ws] by (auto simp: HasPrefix_iff)
  moreover have "storage_name s \<noteq> storage_name ws \<and> \<not> HasPrefix (storage_name ws) (storage_name s @ ''/'') \<and>
      \<not> HasPrefix (storage_name s) (storage_name ws @ ''/'')" if "(s, x) \<in> set part" for s x
  proof -
    have "s \<in> fst ` set part" using \<open>(s, x) \<in> _\<close> by force
    then have "s \<in> fst ` set tree" and "s \<noteq> ws" using assms(3) by blast+
    then obtain y where y: "(s, y) \<in> set tree" "s \<noteq> ws" by force
    then have s: "list_all plain_segment s" "s \<noteq> []" using assms(1) by (auto simp: tree_ok_def list_all_iff)
    have mem: "s \<in> fst ` set tree" "ws \<in> fst ` set tree" using y(1) assms(2) by force+
    have free: "no_conflict (fst ` set tree)" using assms(1) by (simp only: tree_ok_def)
    have "\<not> prefix s ws" "\<not> prefix ws s"
      using no_conflictD [OF free mem y(2)] no_conflictD [OF free mem(2,1) y(2) [symmetric]] by simp_all
    moreover have "storage_name s \<noteq> storage_name ws" using storage_name_facts(4) [OF s] storage_name_facts(4) [OF ws] y(2) by metis
    ultimately show ?thesis using name_prefix [OF ws s] name_prefix [OF s ws] by blast
  qed
  ultimately show ?thesis unfolding occupied_def list_ex_iff set_simps set_map by (simp only: ball_simps bex_simps) (clarsimp; blast)
qed

definition storage_entry :: "string list \<times> string \<Rightarrow> TarEntry" where
  "storage_entry f = \<lparr>te_Name = storage_name (fst f), te_regular = True, te_content = snd f, te_cut = False\<rparr>"

lemma extract_storage:
  assumes "tree_ok tree" and "set rest \<subseteq> set tree" and "distinct (map fst (part @ rest))" and "fst ` set part \<subseteq> fst ` set tree"
    and "list_all plain_segment tws" and "tws \<noteq> []"
  shows "extract_entries env (abs_path tws) (map storage_entry rest)
    (Some m, (''database.dump'', d) # map (\<lambda>(s, x). (storage_name s, x)) part) =
    ((Some m, (''database.dump'', d) # map (\<lambda>(s, x). (storage_name s, x)) (part @ rest)), None)"
  using assms(2-4)
proof (induction rest arbitrary: part)
  case (Cons f rest)
  obtain ws c where f: "f = (ws, c)" by (cases f)
  have mem: "(ws, c) \<in> set tree" using Cons.prems(1) f by simp
  then have ws: "list_all plain_segment ws" "ws \<noteq> []" using assms(1) by (auto simp: tree_ok_def list_all_iff)
  note facts = storage_name_facts [OF ws]
  have "ws \<notin> fst ` set part" using Cons.prems(2) f by auto
  then have free: "\<not> occupied ((''database.dump'', d) # map (\<lambda>(s, x). (storage_name s, x)) part) (storage_name ws)"
    using not_occupied [OF assms(1) mem] Cons.prems(3) by blast
  have plain: "list_all plain_segment (''files'' # ws)" using ws(1) files_plain by simp
  then have "filepath_Join [abs_path tws, storage_name ws] = abs_path (tws @ ''files'' # ws)"
    unfolding storage_name_def by (rule join_path [OF assms(5,6)]) simp
  then have inside: "within_dir (abs_path tws) (filepath_Join [abs_path tws, storage_name ws])"
    using within_below [OF assms(5) plain] by simp
  have "extract_entry env (abs_path tws) (storage_entry f) (Some m, (''database.dump'', d) # map (\<lambda>(s, x). (storage_name s, x)) part) =
      ((Some m, (''database.dump'', d) # map (\<lambda>(s, x). (storage_name s, x)) (part @ [f])), None)"
    using facts free inside f by (simp add: extract_entry_def storage_entry_def Let_def)
  moreover have "extract_entries env (abs_path tws) (map storage_entry rest)
      (Some m, (''database.dump'', d) # map (\<lambda>(s, x). (storage_name s, x)) (part @ [f])) =
      ((Some m, (''database.dump'', d) # map (\<lambda>(s, x). (storage_name s, x)) ((part @ [f]) @ rest)), None)"
  proof (rule Cons.IH)
    show "set rest \<subseteq> set tree" using Cons.prems(1) by simp
    show "distinct (map fst ((part @ [f]) @ rest))" using Cons.prems(2) by simp
    have "fst f \<in> fst ` set tree" using mem f by force
    then show "fst ` set (part @ [f]) \<subseteq> fst ` set tree" using Cons.prems(3) by simp
  qed
  ultimately show ?case by simp
qed simp


lemma dom_put_file: "fst ` set (put_file s c tree) = insert s (fst ` set tree)"
  by (metis dom_fun_upd dom_map_of_conv_image_fst map_of_put_file option.distinct(1))

lemma not_blocked: "no_conflict (insert s (fst ` set tree)) \<Longrightarrow> \<not> blocked tree s"
  unfolding blocked_def list_ex_iff no_conflict_def by fastforce

lemma restoreFiles_map_of:
  assumes "list_all plain_segment rws" and "rws \<noteq> []" and "list_all (\<lambda>(ws, c). ws \<noteq> [] \<and> list_all plain_segment ws) files"
    and "distinct (map fst files)" and "no_conflict (fst ` set tree \<union> fst ` set files)"
  shows "\<exists>tree'. restoreFiles (abs_path rws) files tree = (tree', None) \<and> map_of tree' = map_of tree ++ map_of files"
  using assms(3-5)
proof (induction files arbitrary: tree)
  case (Cons f files)
  obtain ws c where f: "f = (ws, c)" by (cases f)
  have ws: "list_all plain_segment ws" "ws \<noteq> []" using Cons.prems(1) f by simp_all
  have inside: "within_dir (abs_path rws) (filepath_Join [abs_path rws, join_with ''/'' ws])"
    using within_below [OF assms(1) ws] join_path [OF assms(1,2) ws] by simp
  have "no_conflict (insert ws (fst ` set tree))" using Cons.prems(3) f unfolding no_conflict_def by auto
  then have free: "\<not> blocked tree ws" by (rule not_blocked)
  have "no_conflict (fst ` set (put_file ws c tree) \<union> fst ` set files)" using Cons.prems(3) f by (simp add: dom_put_file)
  then obtain tree' where "restoreFiles (abs_path rws) files (put_file ws c tree) = (tree', None)"
    "map_of tree' = map_of (put_file ws c tree) ++ map_of files"
    using Cons.IH [of "put_file ws c tree"] Cons.prems(1,2) by auto
  moreover have "ws \<notin> dom (map_of files)" using Cons.prems(2) f by (simp add: dom_map_of_conv_image_fst)
  ultimately show ?case using inside free f
    by (auto simp: map_of_put_file map_add_def fun_eq_iff domIff split: option.split)
qed simp

lemma distinct_fst_sorted: "distinct (map fst xs) \<Longrightarrow> distinct (map fst (SliceStable lt xs))"
proof -
  have "mset (map fst (SliceStable lt xs)) = mset (map fst xs)" by simp
  then have "distinct (map fst (SliceStable lt xs)) = distinct (map fst xs)" by (rule mset_eq_imp_distinct_iff)
  then show "distinct (map fst xs) \<Longrightarrow> distinct (map fst (SliceStable lt xs))" by simp
qed

lemma extracted_tree_storage:
  assumes "list_all (\<lambda>(ws, c). ws \<noteq> [] \<and> list_all plain_segment ws) part"
  shows "extracted_tree ((''database.dump'', d) # map (\<lambda>(s, x). (storage_name s, x)) part) = SliceStable (\<lambda>a b. fst a < fst b) part"
proof -
  have "map (\<lambda>(n, c). (split_on slash (drop 6 n), c)) (filter (\<lambda>(n, c). HasPrefix n ''files/'')
      (map (\<lambda>(s, x). (storage_name s, x)) part)) = part"
    using assms by (induction part) (auto simp: storage_name_facts)
  then show ?thesis by (simp add: extracted_tree_def)
qed

lemma writeStorage_entries:
  assumes "tree_ok tree"
  shows "writeStorage tree = map storage_entry (filter (\<lambda>(ws, c). \<not> in_backups ws) tree)"
  using assms by (auto simp: writeStorage_def storage_entry_def tree_ok_def list_all_iff storage_name_facts(1))

text \<open>
  C31. A backup can be restored: with a working archive format, a working JSON text of the manifest and a working
  \<open>pg_dump\<close> and \<open>pg_restore\<close> and a store none of whose steps fails, restoring the archive that \<open>Create\<close> wrote succeeds on any Node on
  whose storage no file is in the way; the database is the one of the backup with every session closed and the
  revocations of before the restore, every file of the backup outside of \<open>backups\<close> has its content, and no other file is
  touched.
\<close>

theorem backup_restored:
  assumes "list_all plain_segment tws" and "tws \<noteq> []" and "list_all plain_segment rws" and "rws \<noteq> []"
    and "\<And>es. bk_unpack env (bk_pack env es) = (es, True)"
    and "\<And>p. bk_decode env p (take 1048576 (bk_encode env \<lparr>man_FormatVersion = FormatVersion, man_CreatedAt = t0, man_IncludeFiles = True\<rparr>)) =
      Some \<lparr>man_FormatVersion = FormatVersion, man_CreatedAt = t0, man_IncludeFiles = True\<rparr>"
    and "bk_dump env db0 = Some dump" and "bk_restore env dump db = (db0, True)" and "bk_before env" and "\<And>q. bk_after env db0 q"
    and "Create_backup env t0 url0 root0 destination True db0 tree0 archives = Inr archives'" and "url \<noteq> ''''"
    and "tree_ok tree0" and "no_conflict (fst ` set tree \<union> fst ` set tree0)"
  shows "\<exists>tree'. Restore env now (abs_path tws) url (abs_path rws) destination archives' (db, tree) =
      ((protected_rows (RevokedDeviceIDs db) now db0, tree'), None) \<and>
    (\<forall>ws. map_of tree' ws = (if map_of tree0 ws = None \<or> in_backups ws then map_of tree ws else map_of tree0 ws))"
proof -
  let ?m = "\<lparr>man_FormatVersion = FormatVersion, man_CreatedAt = t0, man_IncludeFiles = True\<rparr>"
  let ?part = "filter (\<lambda>(ws, c). \<not> in_backups ws) tree0"
  let ?files = "(''database.dump'', dump) # map (\<lambda>(s, x). (storage_name s, x)) ?part"
  have dest: "destination \<noteq> ''''" and archive: "archives' destination = Some (bk_pack env
      (\<lparr>te_Name = ''manifest.json'', te_regular = True, te_content = bk_encode env ?m, te_cut = False\<rparr> #
       \<lparr>te_Name = ''database.dump'', te_regular = True, te_content = dump, te_cut = False\<rparr> # map storage_entry ?part))"
    using assms(7,11) writeStorage_entries [OF assms(13)] by (auto simp: Create_backup_def Let_def split: if_splits)
  have tree0: "distinct (map fst ?part)" "list_all (\<lambda>(ws, c). ws \<noteq> [] \<and> list_all plain_segment ws) ?part"
    using assms(13) by (auto simp: tree_ok_def list_all_iff intro: distinct_map_filter)
  have clean: "path_Clean ''manifest.json'' = ''manifest.json''" "path_Clean ''database.dump'' = ''database.dump''"
    using path_Clean_join [of "[''manifest.json'']"] path_Clean_join [of "[''database.dump'']"] by (simp_all add: plain_segment_def)
  have dump_inside: "within_dir (abs_path tws) (filepath_Join [abs_path tws, ''database.dump''])"
    using within_below [OF assms(1), of "[''database.dump'']"] join_path [OF assms(1,2), of "[''database.dump'']"]
    by (simp add: plain_segment_def)
  have "extract_entries env (abs_path tws) (map storage_entry ?part) (Some ?m, [(''database.dump'', dump)]) = ((Some ?m, ?files), None)"
    using extract_storage [OF assms(13), of ?part "[]" tws env ?m dump] tree0(1) assms(1,2) by simp
  then have extracted: "extractArchive env (the (archives' destination)) (abs_path tws) = (?files, Inr ?m)"
    using archive clean dump_inside assms(5,6) by (simp add: extractArchive_def extract_entry_def occupied_def Let_def)
  have sorted: "distinct (map fst (SliceStable (\<lambda>a b. fst a < fst b) ?part))"
    by (rule distinct_fst_sorted [OF tree0(1)])
  have "\<exists>tree'. restoreFiles (abs_path rws) (extracted_tree ?files) tree = (tree', None) \<and>
      map_of tree' = map_of tree ++ map_of (SliceStable (\<lambda>a b. fst a < fst b) ?part)"
    unfolding extracted_tree_storage [OF tree0(2)]
  proof (rule restoreFiles_map_of [OF assms(3,4)])
    show "list_all (\<lambda>(ws, c). ws \<noteq> [] \<and> list_all plain_segment ws) (SliceStable (\<lambda>a b. fst a < fst b) ?part)"
      using tree0(2) by (simp add: list_all_iff)
    show "distinct (map fst (SliceStable (\<lambda>a b. fst a < fst b) ?part))"
      by (rule sorted)
    show "no_conflict (fst ` set tree \<union> fst ` set (SliceStable (\<lambda>a b. fst a < fst b) ?part))"
      using assms(14) unfolding no_conflict_def by auto
  qed
  then obtain tree' where tree': "restoreFiles (abs_path rws) (extracted_tree ?files) tree = (tree', None)"
    "map_of tree' = map_of tree ++ map_of (SliceStable (\<lambda>a b. fst a < fst b) ?part)" by blast
  have same: "map_of (SliceStable (\<lambda>a b. fst a < fst b) ?part) = map_of ?part"
    by (rule map_of_inject_set [THEN iffD2]) (use sorted tree0(1) in simp_all)
  have "map_of ?part ws = (if in_backups ws then None else map_of tree0 ws)" for ws
    by (induction tree0) auto
  then have content: "map_of tree' ws = (if map_of tree0 ws = None \<or> in_backups ws then map_of tree ws else map_of tree0 ws)" for ws
    using tree'(2) same by (auto simp: map_add_def split: option.split)
  have named: "\<not> (url = '''' \<or> abs_path rws = '''' \<or> destination = '''')" using dest assms(12) by (simp add: abs_path_def)
  have input: "restore_input env (abs_path tws) destination archives' db = Inr (RevokedDeviceIDs db, ?m, ?files)"
    using archive extracted assms(9) by (simp add: restore_input_def currentRevocations_def)
  have "bk_restore env (the (map_of ?files ''database.dump'')) db = (db0, True)" using assms(8) by simp
  then have "Restore env now (abs_path tws) url (abs_path rws) destination archives' (db, tree) =
      ((protected_rows (RevokedDeviceIDs db) now db0, tree'), None)"
    using Restore_protected [OF input named _ assms(10)] tree'(1) by simp
  then show ?thesis using content by blast
qed


section \<open>Witnesses\<close>

text \<open>An archive format that works: fields in hexadecimal, separated by commas, entries by semicolons.\<close>

definition demo_field_entry :: "TarEntry \<Rightarrow> string" where
  "demo_field_entry e = join_with '','' [hex_encode (te_Name e), (if te_regular e then ''r'' else ''o''),
     hex_encode (te_content e), (if te_cut e then ''c'' else ''w'')]"

definition demo_pack :: "TarEntry list \<Rightarrow> string" where
  "demo_pack es = join_with '';'' (''v'' # map demo_field_entry es)"

definition demo_unfield :: "string \<Rightarrow> TarEntry" where
  "demo_unfield s = (case split_on CHR '','' s of [n, t, c, k] \<Rightarrow>
     \<lparr>te_Name = the (hex_decode n), te_regular = (t = ''r''), te_content = the (hex_decode c), te_cut = (k = ''c'')\<rparr>)"

definition demo_unpack :: "string \<Rightarrow> TarEntry list \<times> bool" where
  "demo_unpack s = (map demo_unfield (tl (split_on CHR '';'' s)), True)"

lemma demo_separators: "CHR '','' \<notin> set (hex_encode s)" "CHR '';'' \<notin> set (hex_encode s)"
  by (rule hex_encode_free; code_simp)+

lemma demo_unfield: "demo_unfield (demo_field_entry e) = e"
proof -
  have "split_on CHR '','' (demo_field_entry e) = [hex_encode (te_Name e), (if te_regular e then ''r'' else ''o''),
      hex_encode (te_content e), (if te_cut e then ''c'' else ''w'')]"
    unfolding demo_field_entry_def by (rule split_join) (simp_all add: demo_separators)
  then show ?thesis by (simp add: demo_unfield_def)
qed

lemma demo_codec: "demo_unpack (demo_pack es) = (es, True)"
proof -
  have "CHR '';'' \<notin> set (demo_field_entry e)" for e
    using demo_separators by (auto simp: demo_field_entry_def)
  then have "split_on CHR '';'' (demo_pack es) = ''v'' # map demo_field_entry es"
    unfolding demo_pack_def by (intro split_join) auto
  then show ?thesis by (simp add: demo_unpack_def demo_unfield comp_def)
qed

definition demo_manifest :: BackupManifest where
  "demo_manifest = \<lparr>man_FormatVersion = FormatVersion, man_CreatedAt = 1, man_IncludeFiles = True\<rparr>"

definition demo_dev :: "TrustStatus \<Rightarrow> time option \<Rightarrow> DevRow" where
  "demo_dev t r = \<lparr>dr_id = ''d'', dr_user = ''u'', dr_name = ''n'', dr_type = TypeWindows, dr_trust = t, dr_revoked_at = r, dr_created_at = 1\<rparr>"

definition demo_dev_db :: "DevRow list \<Rightarrow> device_db" where
  "demo_dev_db ds = \<lparr>db_users = [], db_sessions = [], ddb_devices = ds,
     ddb_keys = [\<lparr>dk_device = ''d'', dk_public_key = ''k'', dk_algorithm = ''P-256''\<rparr>], ddb_lan = [],
     ddb_connections = [], ddb_challenges = [], ddb_codes = [], ddb_referenced = []\<rparr>"

abbreviation demo_old :: device_db where "demo_old \<equiv> demo_dev_db [demo_dev TrustTrusted None]"

definition demo_backup_env :: "device_db BackupEnv" where
  "demo_backup_env = \<lparr>bk_pack = demo_pack, bk_unpack = demo_unpack, bk_encode = (\<lambda>m. ''m''), bk_decode = (\<lambda>p s. Some demo_manifest),
     bk_dump = (\<lambda>db. Some ''dump''), bk_restore = (\<lambda>d db. (demo_old, True)), bk_before = True, bk_after = (\<lambda>db q. True)\<rparr>"

definition demo_tree :: tree where
  "demo_tree = [([''a'', ''f''], ''new''), ([''backups'', ''old''], ''x'')]"

definition demo_archives :: archives where
  "demo_archives = the (case Create_backup demo_backup_env 1 ''u'' ''r'' ''b'' True demo_old demo_tree Map.empty of
     Inl e \<Rightarrow> None | Inr a \<Rightarrow> Some a)"

lemma demo_created: "Create_backup demo_backup_env 1 ''u'' ''r'' ''b'' True demo_old demo_tree Map.empty = Inr demo_archives"
  by (simp add: demo_archives_def Create_backup_def demo_backup_env_def Let_def)

lemma demo_trees: "tree_ok demo_tree" "no_conflict (fst ` set [([''a'', ''g''], ''kept'')] \<union> fst ` set demo_tree)"
  by (simp_all add: tree_ok_def demo_tree_def plain_segment_def no_conflict_def)

theorem backup_restored_witness:
  "\<exists>tree'. Restore demo_backup_env 9 (abs_path [''tmp'']) ''u'' (abs_path [''srv'']) ''b'' demo_archives
      (demo_dev_db [], [([''a'', ''g''], ''kept'')]) = ((protected_rows [] 9 demo_old, tree'), None) \<and>
     map_of tree' [''a'', ''f''] = Some ''new'' \<and> map_of tree' [''a'', ''g''] = Some ''kept'' \<and> map_of tree' [''backups'', ''old''] = None"
proof -
  have plain: "list_all plain_segment [''tmp'']" "list_all plain_segment [''srv'']" by (simp_all add: plain_segment_def)
  have "\<exists>tree'. Restore demo_backup_env 9 (abs_path [''tmp'']) ''u'' (abs_path [''srv'']) ''b'' demo_archives
      (demo_dev_db [], [([''a'', ''g''], ''kept'')]) = ((protected_rows (RevokedDeviceIDs (demo_dev_db [])) 9 demo_old, tree'), None) \<and>
     (\<forall>ws. map_of tree' ws = (if map_of demo_tree ws = None \<or> in_backups ws then map_of [([''a'', ''g''], ''kept'')] ws else map_of demo_tree ws))"
    by (rule backup_restored [OF plain(1) _ plain(2) _ _ _ _ _ _ _ demo_created _ demo_trees])
      (simp_all add: demo_backup_env_def demo_codec demo_manifest_def)
  then show ?thesis by (auto simp: demo_tree_def in_backups_def RevokedDeviceIDs_def demo_dev_db_def)
qed

lemma demo_extract: "bk_unpack env a = ([\<lparr>te_Name = ''manifest.json'', te_regular = True, te_content = ''m'', te_cut = False\<rparr>,
      \<lparr>te_Name = ''database.dump'', te_regular = True, te_content = ''dump'', te_cut = False\<rparr>], True) \<Longrightarrow> bk_decode env = (\<lambda>p s. Some m) \<Longrightarrow>
   extractArchive env a (abs_path [''tmp'']) = ([(''database.dump'', ''dump'')], Inr m)"
proof -
  have names: "path_Clean ''manifest.json'' = ''manifest.json''" "path_Clean ''database.dump'' = ''database.dump''"
    using path_Clean_join [of "[''manifest.json'']"] path_Clean_join [of "[''database.dump'']"] by (simp_all add: plain_segment_def)
  have "within_dir (abs_path [''tmp'']) (filepath_Join [abs_path [''tmp''], ''database.dump''])"
    using within_below [of "[''tmp'']" "[''database.dump'']"] join_path [of "[''tmp'']" "[''database.dump'']"]
    by (simp add: plain_segment_def)
  then show "bk_unpack env a = ([\<lparr>te_Name = ''manifest.json'', te_regular = True, te_content = ''m'', te_cut = False\<rparr>,
      \<lparr>te_Name = ''database.dump'', te_regular = True, te_content = ''dump'', te_cut = False\<rparr>], True) \<Longrightarrow> bk_decode env = (\<lambda>p s. Some m) \<Longrightarrow>
   extractArchive env a (abs_path [''tmp'']) = ([(''database.dump'', ''dump'')], Inr m)"
    by (simp add: extractArchive_def extract_entry_def names occupied_def Let_def)
qed

definition demo_file_env :: "device_db BackupEnv" where
  "demo_file_env = demo_backup_env\<lparr>bk_unpack := (\<lambda>a. ([\<lparr>te_Name = ''manifest.json'', te_regular = True, te_content = ''m'', te_cut = False\<rparr>,
      \<lparr>te_Name = ''database.dump'', te_regular = True, te_content = ''dump'', te_cut = False\<rparr>,
      \<lparr>te_Name = ''files/../files/a'', te_regular = True, te_content = ''x'', te_cut = False\<rparr>], True))\<rparr>"

lemma demo_file_extract:
  "extractArchive demo_file_env a (abs_path [''tmp'']) = ([(''database.dump'', ''dump''), (''files/a'', ''x'')], Inr demo_manifest)"
proof -
  have names: "path_Clean ''manifest.json'' = ''manifest.json''" "path_Clean ''database.dump'' = ''database.dump''"
    "path_Clean ''files/../files/a'' = ''files/a''"
    using path_Clean_join [of "[''manifest.json'']"] path_Clean_join [of "[''database.dump'']"]
    by (simp_all add: plain_segment_def path_Clean_def)
  have "within_dir (abs_path [''tmp'']) (filepath_Join [abs_path [''tmp''], ''database.dump''])"
    "within_dir (abs_path [''tmp'']) (filepath_Join [abs_path [''tmp''], ''files/a''])"
    using within_below [of "[''tmp'']" "[''database.dump'']"] join_path [of "[''tmp'']" "[''database.dump'']"]
      within_below [of "[''tmp'']" "[''files'', ''a'']"] join_path [of "[''tmp'']" "[''files'', ''a'']"]
    by (simp_all add: plain_segment_def)
  then show ?thesis
    by (simp add: demo_file_env_def demo_backup_env_def extractArchive_def extract_entry_def names occupied_def Let_def)
qed

lemma demo_file_restore:
  "restoreFiles (abs_path [''srv'']) (extracted_tree [(''database.dump'', ''dump''), (''files/a'', ''x'')]) [] = ([([''a''], ''x'')], None)"
proof -
  have "within_dir (abs_path [''srv'']) (filepath_Join [abs_path [''srv''], ''a''])"
    using within_below [of "[''srv'']" "[''a'']"] join_path [of "[''srv'']" "[''a'']"] by (simp add: plain_segment_def)
  moreover have "extracted_tree [(''database.dump'', ''dump''), (''files/a'', ''x'')] = [([''a''], ''x'')]"
    by (simp add: extracted_tree_def)
  ultimately show ?thesis by (simp add: blocked_def put_file_def)
qed

theorem archive_confined_witness:
  "extractArchive demo_file_env ''x'' (abs_path [''tmp'']) = ([(''database.dump'', ''dump''), (''files/a'', ''x'')], Inr demo_manifest) \<and>
   (\<exists>ws. ws \<noteq> [] \<and> list_all plain_segment ws \<and> filepath_Join [abs_path [''tmp''], ''files/a''] = abs_path ([''tmp''] @ ws)) \<and>
   filepath_Join [abs_path [''srv''], ''a''] = abs_path [''srv'', ''a'']"
proof -
  have plain: "list_all plain_segment [''tmp'']" "list_all plain_segment [''srv'']" by (simp_all add: plain_segment_def)
  note confined = archive_confined [OF plain(1) _ plain(2) _ demo_file_extract [of "''x''"] demo_file_restore]
  have "map_of [([''a''], ''x'')] [''a''] \<noteq> map_of [] [''a'']" by simp
  then have "filepath_Join [abs_path [''srv''], join_with ''/'' [''a'']] = abs_path ([''srv''] @ [''a''])"
    using confined by blast
  moreover have "\<exists>ws. ws \<noteq> [] \<and> list_all plain_segment ws \<and> filepath_Join [abs_path [''tmp''], ''files/a''] = abs_path ([''tmp''] @ ws)"
    using confined by simp
  ultimately show ?thesis using demo_file_extract [of "''x''"] by simp
qed

text \<open>An entry of a bad name stops the extraction; what was written before it stays until the directory is removed.\<close>

lemma demo_stopped:
  assumes "bk_unpack env a = ([\<lparr>te_Name = ''database.dump'', te_regular = True, te_content = ''dump'', te_cut = False\<rparr>,
      \<lparr>te_Name = ''../evil'', te_regular = True, te_content = ''x'', te_cut = False\<rparr>], True)"
  shows "extractArchive env a (abs_path [''tmp'']) = ([(''database.dump'', ''dump'')], Inl ErrInvalidArchive)"
proof -
  have names: "path_Clean ''database.dump'' = ''database.dump''" "path_Clean ''../evil'' = ''../evil''"
    using path_Clean_join [of "[''database.dump'']"] by (simp_all add: plain_segment_def path_Clean_def)
  have "within_dir (abs_path [''tmp'']) (filepath_Join [abs_path [''tmp''], ''database.dump''])"
    using within_below [of "[''tmp'']" "[''database.dump'']"] join_path [of "[''tmp'']" "[''database.dump'']"]
    by (simp add: plain_segment_def)
  then show ?thesis by (simp add: extractArchive_def extract_entry_def assms names occupied_def Let_def)
qed

definition demo_small_env :: "device_db BackupEnv" where
  "demo_small_env = demo_backup_env\<lparr>bk_unpack := (\<lambda>a. ([\<lparr>te_Name = ''manifest.json'', te_regular = True, te_content = ''m'', te_cut = False\<rparr>,
      \<lparr>te_Name = ''database.dump'', te_regular = True, te_content = ''dump'', te_cut = False\<rparr>], True)),
     bk_decode := (\<lambda>p s. Some (demo_manifest\<lparr>man_IncludeFiles := False\<rparr>))\<rparr>"

lemma demo_small_input:
  "bk_unpack env = bk_unpack demo_small_env \<Longrightarrow> bk_decode env = bk_decode demo_small_env \<Longrightarrow> bk_before env \<Longrightarrow>
   restore_input env (abs_path [''tmp'']) ''b'' [''b'' \<mapsto> ''x''] db =
     Inr (RevokedDeviceIDs db, demo_manifest\<lparr>man_IncludeFiles := False\<rparr>, [(''database.dump'', ''dump'')])"
  using demo_extract [of env "''x''" "demo_manifest\<lparr>man_IncludeFiles := False\<rparr>"]
  by (simp add: restore_input_def currentRevocations_def demo_small_env_def demo_manifest_def)

lemma demo_small_again:
  "Restore demo_small_env now (abs_path [''tmp'']) ''u'' ''/srv'' ''b'' [''b'' \<mapsto> ''x''] (db, []) =
     ((protected_rows (RevokedDeviceIDs db) now demo_old, []), None)"
proof -
  have env: "bk_restore demo_small_env dump db = (demo_old, True)" "bk_after demo_small_env db1 q" "bk_before demo_small_env" for dump db1 q
    by (simp_all add: demo_small_env_def demo_backup_env_def)
  show ?thesis
    by (subst Restore_protected [OF demo_small_input [OF refl refl env(3)] _ env(1) env(2)]) (simp_all add: demo_manifest_def)
qed

lemmas demo_small_restore = demo_small_again [where now = 9]

text \<open>
  A protection that fails leaves the tables of the archive, with their live sessions, and the devices
  that were revoked since are trusted. The list of revocations is gone with the tables it was read from:
  running the same restore again succeeds, and the device is trusted for good.
\<close>

definition demo_unlucky_env :: "device_db BackupEnv" where
  "demo_unlucky_env = demo_small_env\<lparr>bk_after := (\<lambda>db q. q \<noteq> CommitTx)\<rparr>"

lemma unprotected_restore:
  "Restore demo_unlucky_env 9 (abs_path [''tmp'']) ''u'' ''/srv'' ''b'' [''b'' \<mapsto> ''x'']
     (demo_dev_db [demo_dev TrustRevoked (Some 5)], []) = ((demo_old, []), Some (Failed ErrStore))"
  "Restore demo_small_env 10 (abs_path [''tmp'']) ''u'' ''/srv'' ''b'' [''b'' \<mapsto> ''x''] (demo_old, []) =
     ((protected_rows [] 10 demo_old, []), None)"
  "list_ex (\<lambda>d. dr_id d = ''d'' \<and> trusted d) (ddb_devices (protected_rows [] 10 demo_old))"
proof -
  have env: "bk_restore demo_unlucky_env dump db = (demo_old, True)" "bk_before demo_unlucky_env"
    "bk_after demo_unlucky_env = (\<lambda>db q. q \<noteq> CommitTx)"
    "bk_unpack demo_unlucky_env = bk_unpack demo_small_env" "bk_decode demo_unlucky_env = bk_decode demo_small_env" for dump db
    by (simp_all add: demo_unlucky_env_def demo_small_env_def demo_backup_env_def)
  show "Restore demo_unlucky_env 9 (abs_path [''tmp'']) ''u'' ''/srv'' ''b'' [''b'' \<mapsto> ''x'']
     (demo_dev_db [demo_dev TrustRevoked (Some 5)], []) = ((demo_old, []), Some (Failed ErrStore))"
    by (subst Restore_goes_on [OF demo_small_input [OF env(4,5,2)] _ env(1)]) (simp_all add: env(3) ProtectRestoredSecurity_cases)
  have "RevokedDeviceIDs demo_old = []" by (simp add: RevokedDeviceIDs_def demo_dev_db_def demo_dev_def)
  then show "Restore demo_small_env 10 (abs_path [''tmp'']) ''u'' ''/srv'' ''b'' [''b'' \<mapsto> ''x''] (demo_old, []) =
     ((protected_rows [] 10 demo_old, []), None)"
    using demo_small_again [of 10 demo_old] by simp
  show "list_ex (\<lambda>d. dr_id d = ''d'' \<and> trusted d) (ddb_devices (protected_rows [] 10 demo_old))"
    by (simp add: protected_rows_def demo_dev_db_def demo_dev_def trusted_def)
qed

theorem revocation_survives_restore_witness:
  "fst (fst (Restore demo_small_env 9 (abs_path [''tmp'']) ''u'' ''/srv'' ''b'' [''b'' \<mapsto> ''x'']
      (demo_dev_db [demo_dev TrustRevoked (Some 5)], []))) = protected_rows [''d''] 9 demo_old \<and>
   (\<forall>cr actor c answer t. snd (AttachSession cr actor ''d'' c answer t (protected_rows [''d''] 9 demo_old)) \<noteq> Inr ())"
proof -
  let ?db = "demo_dev_db [demo_dev TrustRevoked (Some 5)]"
  have ids: "RevokedDeviceIDs ?db = [''d'']" by (simp add: RevokedDeviceIDs_def demo_dev_db_def demo_dev_def)
  have "\<forall>cr actor c answer t. snd (AttachSession cr actor ''d'' c answer t (run undefined [] (protected_rows (RevokedDeviceIDs ?db) 9 demo_old))) \<noteq> Inr ()"
    using revocation_survives_restore [OF demo_small_restore, of "''d''" ?db "[]" undefined] ids by simp
  then show ?thesis using ids demo_small_restore [of ?db] by (simp add: run_def)
qed

definition demo_backup_session :: Session where
  "demo_backup_session = \<lparr>usr_ID = ''u'', usr_Username = ''u'', usr_Email = ''u'', usr_Admin = False,
     usr_TOTPEnabled = False, sess_SessionID = ''s'', sess_DeviceID = None, sess_AdminVerified = False\<rparr>"

lemma demo_revoked_deleted:
  "\<exists>db1 v. Revoke_device demo_backup_session ''d'' 5 demo_old = Inr (db1, v) \<and>
     Delete demo_backup_session ''d'' db1 = Inr ((demo_dev_db [])\<lparr>ddb_keys := []\<rparr>)"
  by (simp add: Revoke_device_def RevokeDevice_def update_device_def key_of_def Delete_def DeleteDevice_def delete_cascade_def
      demo_backup_session_def demo_dev_db_def demo_dev_def update_where_def Let_def)

theorem deleted_device_trusted_again_witness:
  "list_ex trusted (ddb_devices (fst (fst (Restore demo_small_env 9 (abs_path [''tmp'']) ''u'' ''/srv'' ''b'' [''b'' \<mapsto> ''x'']
     ((demo_dev_db [])\<lparr>ddb_keys := []\<rparr>, [])))))"
proof -
  let ?db2 = "(demo_dev_db [])\<lparr>ddb_keys := []\<rparr>" and ?r = "demo_dev TrustTrusted None"
  obtain db1 v where revoked: "Revoke_device demo_backup_session ''d'' 5 demo_old = Inr (db1, v)"
    and deleted: "Delete demo_backup_session ''d'' db1 = Inr ?db2"
    using demo_revoked_deleted by blast
  have r: "?r \<in> set (ddb_devices demo_old)" "dr_id ?r = ''d''" "trusted ?r" "distinct (map dr_id (ddb_devices demo_old))"
    and env: "\<And>dump. bk_restore demo_small_env dump ?db2 = (demo_old, True)"
    by (simp_all add: demo_dev_db_def demo_dev_def trusted_def demo_small_env_def demo_backup_env_def)
  show ?thesis
    using deleted_device_trusted_again [OF revoked deleted r demo_small_restore env] demo_small_restore [of ?db2]
    unfolding list_ex_iff by auto
qed

end
