(* ===== verification/Envelope.thy ===== *)
theory Envelope
  imports Prelude "HOL-Library.Word"
begin

text \<open>
  Encrypted envelopes: \<open>internal/secure/envelope.go\<close>. X25519, AES-GCM, HMAC-SHA-256 and the random
  reader are parameters; the derivation of keys and the two layers of encryption are the code's.
\<close>

section \<open>Data\<close>

datatype envelope_error =
  ErrUnsupportedEnvelope | ErrInvalidEnvelope | ErrRecipientKey | ErrPrivateKey | ErrEphemeralKey | ErrSharedSecret
| ErrGenerate | ErrCipher

definition EnvelopeVersion :: int where "EnvelopeVersion = 1"

definition contentKeySize :: nat where "contentKeySize = 32"

record DeviceKeyPair =
  kp_PrivateKey :: string
  kp_PublicKey :: string

record Envelope =
  env_Version :: int
  env_EphemeralPublicKey :: string
  env_WrappedKeyNonce :: string
  env_WrappedContentKey :: string
  env_ContentNonce :: string
  env_Ciphertext :: string

text \<open>
  Keys are their bytes. \<open>x_NewPublicKey\<close> and \<open>x_NewPrivateKey\<close> tell whether bytes are a key; \<open>x_ECDH\<close>
  fails on a shared secret of zeros.
\<close>

record Primitives =
  x_NewPublicKey :: "string \<Rightarrow> bool"
  x_NewPrivateKey :: "string \<Rightarrow> bool"
  x_PublicKey :: "string \<Rightarrow> string"
  x_ECDH :: "string \<Rightarrow> string \<Rightarrow> string option"
  gcm_Seal :: "string \<Rightarrow> string \<Rightarrow> string \<Rightarrow> string \<Rightarrow> string"
  gcm_Open :: "string \<Rightarrow> string \<Rightarrow> string \<Rightarrow> string \<Rightarrow> string option"
  hmac_SHA256 :: "string \<Rightarrow> string \<Rightarrow> string"

text \<open>What the random reader gives to one encryption, \<open>None\<close> where it fails.\<close>

record Randomness =
  rnd_ephemeral :: "string option"
  rnd_contentKey :: "string option"
  rnd_contentNonce :: "string option"
  rnd_wrappedNonce :: "string option"

section \<open>Key derivation\<close>

text \<open>The loop of \<open>hkdfSHA256\<close>; its counter is a byte. It need not end when the digests are empty.\<close>

partial_function (option) hkdf_loop ::
  "(string \<Rightarrow> string \<Rightarrow> string) \<Rightarrow> string \<Rightarrow> string \<Rightarrow> nat \<Rightarrow> 8 word \<Rightarrow> string \<Rightarrow> string \<Rightarrow> string option"
where
  "hkdf_loop hmac pseudorandomKey info len counter previous result =
     (if length result < len
      then hkdf_loop hmac pseudorandomKey info len (counter + 1)
        (hmac pseudorandomKey (previous @ info @ [char_of (unat counter)]))
        (result @ hmac pseudorandomKey (previous @ info @ [char_of (unat counter)]))
      else Some result)"

definition hkdfSHA256 :: "(string \<Rightarrow> string \<Rightarrow> string) \<Rightarrow> string \<Rightarrow> string option \<Rightarrow> string \<Rightarrow> nat \<Rightarrow> string option" where
  "hkdfSHA256 hmac secret salt info len =
     (let salt = (case salt of None \<Rightarrow> replicate 32 (char_of (0 :: nat)) | Some s \<Rightarrow> s)
      in map_option (take len) (hkdf_loop hmac (hmac salt secret) info len 1 [] []))"

section \<open>Authenticated encryption\<close>

text \<open>\<open>aes.NewCipher\<close> takes keys of 16, 24 or 32 bytes; the nonces of GCM have 12.\<close>

definition newGCM :: "string \<Rightarrow> bool" where
  "newGCM key \<longleftrightarrow> length key = 16 \<or> length key = 24 \<or> length key = 32"

definition seal :: "Primitives \<Rightarrow> string option \<Rightarrow> string \<Rightarrow> string \<Rightarrow> string \<Rightarrow> envelope_error + string \<times> string" where
  "seal p nonce key plaintext associatedData =
     (if \<not> newGCM key then Inl ErrCipher
      else case nonce of None \<Rightarrow> Inl ErrGenerate | Some n \<Rightarrow> Inr (n, gcm_Seal p key n plaintext associatedData))"

definition open_sealed :: "Primitives \<Rightarrow> string \<Rightarrow> string \<Rightarrow> string \<Rightarrow> string \<Rightarrow> envelope_error + string" where
  "open_sealed p key nonce ciphertext associatedData =
     (if \<not> newGCM key then Inl ErrCipher
      else if length nonce \<noteq> 12 then Inl ErrInvalidEnvelope
      else case gcm_Open p key nonce ciphertext associatedData of None \<Rightarrow> Inl ErrInvalidEnvelope | Some m \<Rightarrow> Inr m)"

section \<open>Envelopes\<close>

definition wrap_info :: string where "wrap_info = ''nexdrop/private-transfer/v1''"

definition GenerateDeviceKeyPair :: "Primitives \<Rightarrow> string option \<Rightarrow> envelope_error + DeviceKeyPair" where
  "GenerateDeviceKeyPair p random =
     (case random of None \<Rightarrow> Inl ErrGenerate | Some k \<Rightarrow> Inr \<lparr>kp_PrivateKey = k, kp_PublicKey = x_PublicKey p k\<rparr>)"

text \<open>An encryption whose key derivation does not end has no result.\<close>

definition EncryptForDevice ::
  "Primitives \<Rightarrow> Randomness \<Rightarrow> string \<Rightarrow> string \<Rightarrow> string \<Rightarrow> (envelope_error + Envelope) option"
where
  "EncryptForDevice p rnd plaintext recipientPublicKey associatedData =
     (if \<not> x_NewPublicKey p recipientPublicKey then Some (Inl ErrRecipientKey)
      else case rnd_ephemeral rnd of None \<Rightarrow> Some (Inl ErrGenerate)
      | Some ephemeral \<Rightarrow>
        (case x_ECDH p ephemeral recipientPublicKey of None \<Rightarrow> Some (Inl ErrSharedSecret)
        | Some sharedSecret \<Rightarrow>
          (case rnd_contentKey rnd of None \<Rightarrow> Some (Inl ErrGenerate)
          | Some contentKey \<Rightarrow>
            (case seal p (rnd_contentNonce rnd) contentKey plaintext associatedData of Inl e \<Rightarrow> Some (Inl e)
            | Inr (contentNonce, ciphertext) \<Rightarrow>
              map_option (\<lambda>wrappingKey.
                bindE (seal p (rnd_wrappedNonce rnd) wrappingKey contentKey associatedData) (\<lambda>(wrappedNonce, wrappedKey).
                  Inr \<lparr>env_Version = EnvelopeVersion, env_EphemeralPublicKey = x_PublicKey p ephemeral,
                    env_WrappedKeyNonce = wrappedNonce, env_WrappedContentKey = wrappedKey,
                    env_ContentNonce = contentNonce, env_Ciphertext = ciphertext\<rparr>))
                (hkdfSHA256 (hmac_SHA256 p) sharedSecret None wrap_info contentKeySize)))))"

definition invalid :: "envelope_error + 'a \<Rightarrow> envelope_error + 'a" where
  "invalid r = (case r of Inl e \<Rightarrow> Inl ErrInvalidEnvelope | Inr v \<Rightarrow> Inr v)"

definition DecryptForDevice :: "Primitives \<Rightarrow> Envelope \<Rightarrow> string \<Rightarrow> string \<Rightarrow> (envelope_error + string) option" where
  "DecryptForDevice p envelope recipientPrivateKey associatedData =
     (if env_Version envelope \<noteq> EnvelopeVersion then Some (Inl ErrUnsupportedEnvelope)
      else if \<not> x_NewPrivateKey p recipientPrivateKey then Some (Inl ErrPrivateKey)
      else if \<not> x_NewPublicKey p (env_EphemeralPublicKey envelope) then Some (Inl ErrEphemeralKey)
      else case x_ECDH p recipientPrivateKey (env_EphemeralPublicKey envelope) of None \<Rightarrow> Some (Inl ErrSharedSecret)
      | Some sharedSecret \<Rightarrow>
        map_option (\<lambda>wrappingKey.
          bindE (invalid (open_sealed p wrappingKey (env_WrappedKeyNonce envelope) (env_WrappedContentKey envelope) associatedData))
            (\<lambda>contentKey. invalid (open_sealed p contentKey (env_ContentNonce envelope) (env_Ciphertext envelope) associatedData)))
          (hkdfSHA256 (hmac_SHA256 p) sharedSecret None wrap_info contentKeySize))"

section \<open>The derivation is the one of RFC 5869\<close>

text \<open>The blocks \<open>T(0)\<close>, \<open>T(1)\<close>, ... of the RFC, and the output key material.\<close>

fun hkdf_T :: "(string \<Rightarrow> string \<Rightarrow> string) \<Rightarrow> string \<Rightarrow> string \<Rightarrow> nat \<Rightarrow> string" where
  "hkdf_T hmac prk info 0 = []"
| "hkdf_T hmac prk info (Suc i) = hmac prk (hkdf_T hmac prk info i @ info @ [char_of (Suc i)])"

fun hkdf_blocks :: "(string \<Rightarrow> string \<Rightarrow> string) \<Rightarrow> string \<Rightarrow> string \<Rightarrow> nat \<Rightarrow> string" where
  "hkdf_blocks hmac prk info 0 = []"
| "hkdf_blocks hmac prk info (Suc i) = hkdf_blocks hmac prk info i @ hkdf_T hmac prk info (Suc i)"

definition hkdf_reference :: "(string \<Rightarrow> string \<Rightarrow> string) \<Rightarrow> string \<Rightarrow> string \<Rightarrow> string \<Rightarrow> nat \<Rightarrow> string" where
  "hkdf_reference hmac secret salt info len = take len (hkdf_blocks hmac (hmac salt secret) info ((len + 31) div 32))"

lemma counter_byte: "char_of (unat (of_nat i :: 8 word)) = (char_of i :: char)"
proof -
  have "unat (of_nat i :: 8 word) = i mod 256" by (simp add: unat_of_nat)
  then show ?thesis by (simp only: char_of_mod_256)
qed

lemma length_blocks: "(\<And>k m. length (hmac k m) = 32) \<Longrightarrow> length (hkdf_blocks hmac prk info n) = 32 * n"
  by (induction n) simp_all

lemma hkdf_loop_blocks:
  assumes "\<And>k m. length (hmac k m) = 32" and "i \<le> n" and "n = (len + 31) div 32"
  shows "hkdf_loop hmac prk info len (of_nat (Suc i)) (hkdf_T hmac prk info i) (hkdf_blocks hmac prk info i) =
    Some (hkdf_blocks hmac prk info n)"
  using assms(2)
proof (induction "n - i" arbitrary: i)
  case 0
  then have "i = n" by simp
  moreover have "len \<le> 32 * n" using assms(3) by simp
  ultimately show ?case by (subst hkdf_loop.simps) (simp add: length_blocks assms(1))
next
  case (Suc k)
  have byte: "char_of (unat (word_of_nat i + 1 :: 8 word)) = (char_of (Suc i) :: char)"
    using counter_byte [of "Suc i"] by (simp add: add.commute)
  have short: "length (hkdf_blocks hmac prk info i) < len"
    using Suc.hyps(2) assms(3) length_blocks [of hmac prk info i] assms(1) by simp
  have "hkdf_loop hmac prk info len (of_nat (Suc (Suc i))) (hkdf_T hmac prk info (Suc i)) (hkdf_blocks hmac prk info (Suc i)) =
      Some (hkdf_blocks hmac prk info n)"
    using Suc.hyps(2) by (intro Suc.hyps(1)) simp_all
  moreover have "hkdf_loop hmac prk info len (of_nat (Suc i)) (hkdf_T hmac prk info i) (hkdf_blocks hmac prk info i) =
      hkdf_loop hmac prk info len (of_nat (Suc (Suc i))) (hkdf_T hmac prk info (Suc i)) (hkdf_blocks hmac prk info (Suc i))"
    using short byte by (subst hkdf_loop.simps) (simp only: hkdf_T.simps hkdf_blocks.simps if_True of_nat_Suc add.commute)
  ultimately show ?case by simp
qed

lemma hkdf_is_hkdf:
  assumes "\<And>k m. length (hmac k m) = 32" and "len \<le> 255 * 32"
  shows "hkdfSHA256 hmac secret salt info len =
      Some (hkdf_reference hmac secret (case salt of None \<Rightarrow> replicate 32 (char_of (0 :: nat)) | Some s \<Rightarrow> s) info len) \<and>
    length (hkdf_reference hmac secret (case salt of None \<Rightarrow> replicate 32 (char_of (0 :: nat)) | Some s \<Rightarrow> s) info len) = len \<and>
    unat (of_nat ((len + 31) div 32) :: 8 word) = (len + 31) div 32"
proof -
  let ?salt = "case salt of None \<Rightarrow> replicate 32 (char_of (0 :: nat)) | Some s \<Rightarrow> s"
  have "hkdf_loop hmac (hmac ?salt secret) info len 1 [] [] = Some (hkdf_blocks hmac (hmac ?salt secret) info ((len + 31) div 32))"
    using hkdf_loop_blocks [of hmac 0 "(len + 31) div 32" len] assms(1) by simp
  moreover have "(len + 31) div 32 \<le> 255" using assms(2) by linarith
  ultimately show ?thesis
    using assms(1) by (simp add: hkdfSHA256_def hkdf_reference_def length_blocks unat_of_nat Let_def)
qed

text \<open>
  C32. The key derivation ends and is HKDF: with digests of 32 bytes, and for every length that the RFC
  allows (255 blocks), \<open>hkdfSHA256\<close> returns exactly the output key material of RFC 5869, of that length; the byte
  that counts the blocks does not overflow.
\<close>

theorem hkdf_is_rfc5869:
  assumes "\<And>k m. length (hmac k m) = 32" and "len \<le> 255 * 32"
  shows "hkdfSHA256 hmac secret salt info len =
      Some (hkdf_reference hmac secret (case salt of None \<Rightarrow> replicate 32 (char_of (0 :: nat)) | Some s \<Rightarrow> s) info len) \<and>
    length (hkdf_reference hmac secret (case salt of None \<Rightarrow> replicate 32 (char_of (0 :: nat)) | Some s \<Rightarrow> s) info len) = len \<and>
    unat (of_nat ((len + 31) div 32) :: 8 word) = (len + 31) div 32"
  by (rule hkdf_is_hkdf [OF assms])


section \<open>Envelopes open again\<close>

text \<open>
  What the packages document: both sides of a key exchange get the same secret, the public key of a private key is a
  public key, \<open>Open\<close> inverts \<open>Seal\<close>, and a digest has 32 bytes.
\<close>

definition exchange_ok :: "Primitives \<Rightarrow> bool" where
  "exchange_ok p \<longleftrightarrow> (\<forall>a. x_NewPrivateKey p a \<longrightarrow> x_NewPublicKey p (x_PublicKey p a)) \<and>
     (\<forall>a b. x_NewPrivateKey p a \<longrightarrow> x_NewPrivateKey p b \<longrightarrow> x_ECDH p a (x_PublicKey p b) = x_ECDH p b (x_PublicKey p a))"

definition aead_ok :: "Primitives \<Rightarrow> bool" where
  "aead_ok p \<longleftrightarrow> (\<forall>k n m ad. gcm_Open p k n (gcm_Seal p k n m ad) ad = Some m)"

definition digest_ok :: "Primitives \<Rightarrow> bool" where
  "digest_ok p \<longleftrightarrow> (\<forall>k m. length (hmac_SHA256 p k m) = 32)"

lemma open_seal:
  assumes "aead_ok p" and "length key = 32" and "length n = 12"
  shows "seal p (Some n) key m ad = Inr (n, gcm_Seal p key n m ad)" and "open_sealed p key n (gcm_Seal p key n m ad) ad = Inr m"
  using assms by (simp_all add: seal_def open_sealed_def newGCM_def aead_ok_def)

lemma wrapping_key:
  assumes "digest_ok p"
  shows "\<exists>w. hkdfSHA256 (hmac_SHA256 p) secret None wrap_info contentKeySize = Some w \<and> length w = 32"
  using hkdf_is_hkdf [of "hmac_SHA256 p" contentKeySize secret None wrap_info] assms
  by (auto simp: digest_ok_def contentKeySize_def)

text \<open>
  An envelope opens again: when the random reader delivers and the exchange with the
  recipient's key has a secret, encrypting for a device ends without an error, and the device gets the
  plaintext back with its private key and the same associated data.
\<close>

theorem envelope_roundtrip:
  assumes "exchange_ok p" and "aead_ok p" and "digest_ok p" and "x_NewPrivateKey p recipient" and "x_NewPrivateKey p ephemeral"
    and "x_ECDH p ephemeral (x_PublicKey p recipient) \<noteq> None"
    and "rnd_ephemeral rnd = Some ephemeral" and "rnd_contentKey rnd = Some contentKey" and "length contentKey = contentKeySize"
    and "rnd_contentNonce rnd = Some n1" and "length n1 = 12" and "rnd_wrappedNonce rnd = Some n2" and "length n2 = 12"
  shows "\<exists>envelope. EncryptForDevice p rnd plaintext (x_PublicKey p recipient) associatedData = Some (Inr envelope) \<and>
    DecryptForDevice p envelope recipient associatedData = Some (Inr plaintext)"
proof -
  obtain secret where secret: "x_ECDH p ephemeral (x_PublicKey p recipient) = Some secret"
    "x_ECDH p recipient (x_PublicKey p ephemeral) = Some secret"
    using assms(1,4-6) unfolding exchange_ok_def by fastforce
  have keys: "x_NewPublicKey p (x_PublicKey p recipient)" "x_NewPublicKey p (x_PublicKey p ephemeral)"
    using assms(1,4,5) by (simp_all add: exchange_ok_def)
  obtain w where w: "hkdfSHA256 (hmac_SHA256 p) secret None wrap_info contentKeySize = Some w" "length w = 32"
    using wrapping_key [OF assms(3)] by blast
  have size: "length contentKey = 32" using assms(9) by (simp add: contentKeySize_def)
  note inner = open_seal [OF assms(2) size assms(11)] and outer = open_seal [OF assms(2) w(2) assms(13)]
  show ?thesis
    using assms(4,7,8,10,12) keys secret w(1) inner outer
    by (simp add: EncryptForDevice_def DecryptForDevice_def invalid_def)
qed

section \<open>Witnesses\<close>

theorem hkdf_is_rfc5869_witness:
  "hkdfSHA256 (\<lambda>k m. replicate 32 CHR ''x'') ''s'' (Some ''t'') ''i'' 40 =
     Some (hkdf_reference (\<lambda>k m. replicate 32 CHR ''x'') ''s'' ''t'' ''i'' 40) \<and>
   length (hkdf_reference (\<lambda>k m. replicate 32 CHR ''x'') ''s'' ''t'' ''i'' 40) = 40"
proof -
  have "length (replicate 32 CHR ''x'') = 32" "(40 :: nat) \<le> 255 * 32" by simp_all
  from hkdf_is_rfc5869 [of "\<lambda>k m. replicate 32 CHR ''x''", OF this, of "''s''" "Some ''t''" "''i''"]
  show ?thesis by (simp only: option.case simp_thms)
qed

definition demo_primitives :: Primitives where
  "demo_primitives = \<lparr>x_NewPublicKey = (\<lambda>k. length k = 32), x_NewPrivateKey = (\<lambda>k. length k = 32), x_PublicKey = (\<lambda>k. k),
     x_ECDH = (\<lambda>a b. Some (replicate 32 (if a = b then CHR ''e'' else CHR ''d''))),
     gcm_Seal = (\<lambda>k n m ad. m @ take 1 k), gcm_Open = (\<lambda>k n c ad. Some (if k = [] then c else butlast c)),
     hmac_SHA256 = (\<lambda>k m. replicate 32 CHR ''x'')\<rparr>"

definition demo_randomness :: Randomness where
  "demo_randomness = \<lparr>rnd_ephemeral = Some (replicate 32 CHR ''a''), rnd_contentKey = Some (replicate 32 CHR ''k''),
     rnd_contentNonce = Some (replicate 12 CHR ''n''), rnd_wrappedNonce = Some (replicate 12 CHR ''w'')\<rparr>"

theorem envelope_roundtrip_witness:
  "\<exists>envelope. EncryptForDevice demo_primitives demo_randomness ''hello'' (replicate 32 CHR ''b'') ''ad'' = Some (Inr envelope) \<and>
     DecryptForDevice demo_primitives envelope (replicate 32 CHR ''b'') ''ad'' = Some (Inr ''hello'')"
proof -
  have "exchange_ok demo_primitives" "digest_ok demo_primitives"
    by (auto simp: exchange_ok_def digest_ok_def demo_primitives_def)
  moreover have "aead_ok demo_primitives"
  proof -
    have "butlast (m @ take 1 k) = m" if "k \<noteq> []" for m k :: string
      using that by (cases k) simp_all
    then show ?thesis by (simp add: aead_ok_def demo_primitives_def)
  qed
  ultimately show ?thesis
    using envelope_roundtrip [of demo_primitives "replicate 32 CHR ''b''" "replicate 32 CHR ''a''" demo_randomness "replicate 32 CHR ''k''"
      "replicate 12 CHR ''n''" "replicate 12 CHR ''w''" "''hello''" "''ad''"]
    by (simp add: demo_primitives_def demo_randomness_def contentKeySize_def)
qed

end
