(* ===== verification/Racer.thy ===== *)
theory Racer
  imports Floats
begin

text \<open>
  The race of candidate routes: \<open>internal/routing/racer.go\<close>. The order in which candidates are tried,
  the winner of the results and the chunks that need not be sent again. The decimal logarithm of the
  package \<open>math\<close> is a parameter; all other arithmetic is that of Floats. A map from indexes to
  hashes is the list of its entries in the order in which it is walked.
\<close>

section \<open>Candidates\<close>

datatype Kind = KindLAN | KindVPN | KindIPv4 | KindIPv6 | KindNode | KindOther string

fun kind_text :: "Kind \<Rightarrow> string" where
  "kind_text KindLAN = ''LAN''"
| "kind_text KindVPN = ''VPN''"
| "kind_text KindIPv4 = ''IPV4''"
| "kind_text KindIPv6 = ''IPV6''"
| "kind_text KindNode = ''NODE''"
| "kind_text (KindOther s) = s"

record Candidate =
  cd_ID :: string
  cd_Endpoint :: string
  cd_Kind :: Kind
  cd_Authenticated :: bool
  cd_Healthy :: bool
  cd_HandshakeLatency :: duration
  cd_ThroughputBPS :: float64
  cd_FailureRate :: float64
  cd_LastSuccess :: time

definition Direct :: "Candidate \<Rightarrow> bool" where
  "Direct c \<longleftrightarrow> kind_text (cd_Kind c) \<noteq> ''NODE''"

record RaceConfig =
  rc_DirectHeadStart :: duration
  rc_MinimumHealth :: float64
  rc_StaleAfter :: duration

definition race_normalized :: "RaceConfig \<Rightarrow> RaceConfig" where
  "race_normalized config = \<lparr>
     rc_DirectHeadStart = (if rc_DirectHeadStart config \<le> 0 then 350 * 1000000 else rc_DirectHeadStart config),
     rc_MinimumHealth = (if fle (rc_MinimumHealth config) (FFin 0) \<or> flt (FFin 1) (rc_MinimumHealth config)
       then round64 (35 / 100) else rc_MinimumHealth config),
     rc_StaleAfter = (if rc_StaleAfter config \<le> 0 then 7 * 24 * hour else rc_StaleAfter config)\<rparr>"

record Attempt =
  at_Candidate :: Candidate
  at_StartAfter :: duration
  at_Score :: float64

section \<open>Scores\<close>

definition unusable :: "Candidate \<Rightarrow> bool" where
  "unusable c \<longleftrightarrow> cd_ID c = '''' \<or> cd_Endpoint c = '''' \<or> \<not> cd_Authenticated c \<or> \<not> cd_Healthy c"

definition health :: "Candidate \<Rightarrow> float64" where
  "health c = fsub (FFin 1) (clamp (cd_FailureRate c) (FFin 0) (FFin 1))"

text \<open>The points for a recent success.\<close>

definition recency :: "Candidate \<Rightarrow> time \<Rightarrow> RaceConfig \<Rightarrow> float64" where
  "recency c now config =
     fmul (FFin 10) (fsub (FFin 1) (fdiv (Seconds (time_Sub now (cd_LastSuccess c))) (Seconds (rc_StaleAfter config))))"

definition race_score :: "(float64 \<Rightarrow> float64) \<Rightarrow> Candidate \<Rightarrow> time \<Rightarrow> RaceConfig \<Rightarrow> float64" where
  "race_score log10 c now config =
     (if unusable c then FNegInf
      else if flt (health c) (rc_MinimumHealth config) then FNegInf
      else let v = fmul (FFin 100) (health c);
               v = (if Direct c then fadd v (FFin 30) else v);
               v = (if 0 < cd_HandshakeLatency c
                    then fsub v (fmin (FFin 40) (fdiv (float64_of_int (Milliseconds (cd_HandshakeLatency c))) (FFin 20))) else v);
               v = (if flt (FFin 0) (cd_ThroughputBPS c)
                    then fadd v (fmin (FFin 20) (fmul (log10 (fadd (cd_ThroughputBPS c) (FFin 1))) (FFin 2))) else v)
           in if \<not> IsZero (cd_LastSuccess c) \<and> time_Sub now (cd_LastSuccess c) \<le> rc_StaleAfter config
              then fadd v (recency c now config) else v)"

section \<open>The plan\<close>

text \<open>Direct candidates first, then by the text of the kind, then by the identifier.\<close>

definition candidate_less :: "Attempt \<Rightarrow> Attempt \<Rightarrow> bool" where
  "candidate_less i j =
     (let a = at_Candidate i; b = at_Candidate j
      in if Direct a \<noteq> Direct b then Direct a
         else if kind_text (cd_Kind a) \<noteq> kind_text (cd_Kind b) then kind_text (cd_Kind a) < kind_text (cd_Kind b)
         else cd_ID a < cd_ID b)"

definition attempt_less :: "Attempt \<Rightarrow> Attempt \<Rightarrow> bool" where
  "attempt_less = by_score at_Score candidate_less"

definition race_attempts :: "(float64 \<Rightarrow> float64) \<Rightarrow> Candidate list \<Rightarrow> time \<Rightarrow> RaceConfig \<Rightarrow> Attempt list" where
  "race_attempts log10 candidates now config =
     map (\<lambda>c. \<lparr>at_Candidate = c, at_StartAfter = 0, at_Score = race_score log10 c now config\<rparr>)
       (filter (\<lambda>c. race_score log10 c now config \<noteq> FNegInf) candidates)"

definition Plan :: "(float64 \<Rightarrow> float64) \<Rightarrow> Candidate list \<Rightarrow> time \<Rightarrow> RaceConfig \<Rightarrow> Attempt list" where
  "Plan log10 candidates now config =
     (let config = race_normalized config;
          attempts = race_attempts log10 candidates now config;
          hasDirect = list_ex (\<lambda>a. Direct (at_Candidate a)) attempts;
          sorted_attempts = SliceStable attempt_less attempts
      in if hasDirect
         then map (\<lambda>a. if Direct (at_Candidate a) then a else a\<lparr>at_StartAfter := rc_DirectHeadStart config\<rparr>) sorted_attempts
         else sorted_attempts)"

section \<open>The winner\<close>

record RaceResult =
  rr_CandidateID :: string
  rr_Authenticated :: bool
  rr_Healthy :: bool
  rr_CompletedAt :: time
  rr_Latency :: duration
  rr_ErrorCode :: string

definition race_eligible :: "RaceResult \<Rightarrow> bool" where
  "race_eligible r \<longleftrightarrow> rr_CandidateID r \<noteq> '''' \<and> rr_Authenticated r \<and> rr_Healthy r \<and> rr_ErrorCode r = '''' \<and>
     \<not> IsZero (rr_CompletedAt r)"

definition result_less :: "RaceResult \<Rightarrow> RaceResult \<Rightarrow> bool" where
  "result_less i j =
     (if rr_CompletedAt i \<noteq> rr_CompletedAt j then rr_CompletedAt i < rr_CompletedAt j
      else if rr_Latency i \<noteq> rr_Latency j then rr_Latency i < rr_Latency j
      else rr_CandidateID i < rr_CandidateID j)"

definition Winner :: "RaceResult list \<Rightarrow> RaceResult option" where
  "Winner results =
     (case SliceStable result_less (filter race_eligible results) of [] \<Rightarrow> None | r # _ \<Rightarrow> Some r)"

section \<open>Chunks that are there already\<close>

definition lookup_chunk :: "(int \<times> string) list \<Rightarrow> int \<Rightarrow> string" where
  "lookup_chunk m i = (case map_of m i of None \<Rightarrow> '''' | Some h \<Rightarrow> h)"

definition ReusableChunks :: "(int \<times> string) list \<Rightarrow> (int \<times> string) list \<Rightarrow> int list" where
  "ReusableChunks verified available =
     sort (map fst (filter (\<lambda>(i, h). h \<noteq> '''' \<and> lookup_chunk available i = h) verified))"

section \<open>The order of the attempts\<close>

definition candidate_key :: "Attempt \<Rightarrow> bool \<times> string \<times> string" where
  "candidate_key a = (\<not> Direct (at_Candidate a), kind_text (cd_Kind (at_Candidate a)), cd_ID (at_Candidate a))"

interpretation by_candidate: keyed_order candidate_less candidate_key
  by unfold_locales (auto simp: candidate_less_def candidate_key_def less_prod_def Let_def)

text \<open>Candidates whose numbers are numbers, and a logarithm that is small and positive from 1 on.\<close>

definition candidate_ok :: "Candidate \<Rightarrow> bool" where
  "candidate_ok c \<longleftrightarrow> in64 (cd_HandshakeLatency c) \<and> cd_FailureRate c \<noteq> FNaN \<and> cd_ThroughputBPS c \<noteq> FNaN"

definition log_ok :: "(float64 \<Rightarrow> float64) \<Rightarrow> bool" where
  "log_ok log10 \<longleftrightarrow> (\<forall>x. FFin 1 \<le> x \<longrightarrow> FFin 0 \<le> log10 x)"

lemma in64_time_Sub [simp]: "in64 (time_Sub t u)"
  by (simp add: time_Sub_def in64_def)

lemma in64_go_div: "in64 a \<Longrightarrow> 1 < b \<Longrightarrow> in64 (go_div a b)"
proof -
  assume "in64 a" "1 < b"
  have "\<bar>a\<bar> div b \<le> \<bar>a\<bar> div 2" using \<open>1 < b\<close> by (intro zdiv_mono2) simp_all
  also have "\<dots> \<le> 9223372036854775808 div 2" using \<open>in64 a\<close> by (intro zdiv_mono1) (simp_all add: in64_def abs_le_iff)
  finally have "\<bar>a\<bar> div b \<le> 9223372036854775807" by simp
  moreover have "0 \<le> \<bar>a\<bar> div b" using \<open>1 < b\<close> by (simp add: pos_imp_zdiv_nonneg_iff)
  ultimately show ?thesis using \<open>1 < b\<close> by (cases "0 < a"; cases "a = 0") (simp_all add: go_div_def in64_def)
qed

lemma go_rem_bounds: "0 < b \<Longrightarrow> \<bar>go_rem a b\<bar> < b"
proof -
  assume b: "0 < b"
  have "go_rem a b = sgn a * (\<bar>a\<bar> mod b)"
    using b by (cases "0 < a"; cases "a = 0") (simp_all add: go_rem_def go_div_def minus_mult_div_eq_mod [symmetric] algebra_simps)
  then show ?thesis using b pos_mod_bound [OF b, of "\<bar>a\<bar>"] pos_mod_sign [OF b, of "\<bar>a\<bar>"] by (cases "a = 0") (auto simp: abs_mult)
qed

lemma Seconds_up_to: "in64 d \<Longrightarrow> up_to 64 (Seconds d)"
proof -
  assume d: "in64 d"
  have "up_to 63 (float64_of_int (go_div d 1000000000))" using d by (intro up_to_int64 in64_go_div) simp_all
  moreover have "in64 (go_rem d 1000000000)" using go_rem_bounds [of 1000000000 d] by (simp add: in64_def abs_less_iff)
  then have "up_to 63 (fdiv (float64_of_int (go_rem d 1000000000)) (FFin 1000000000))" by (intro up_to_fdiv up_to_int64) simp_all
  ultimately show ?thesis using up_to_fadd [of 63] by (simp add: Seconds_def)
qed

lemma Seconds_ge_1:
  assumes "in64 d" and "1000000000 \<le> d"
  shows "\<exists>y. Seconds d = FFin y \<and> 1 \<le> y"
proof -
  obtain y where y: "Seconds d = FFin y" using Seconds_up_to [OF assms(1)] by (auto simp: up_to_def)
  have one: "FFin 1 \<le> float64_of_int (d div 1000000000)"
    using float64_of_int_le [of 1 "d div 1000000000"] float64_of_int_small [of 1] assms(2) by simp
  have zero: "FFin 0 \<le> fdiv (float64_of_int (d mod 1000000000)) (FFin 1000000000)"
  proof -
    have "float64_of_int (d mod 1000000000) = FFin (of_int (d mod 1000000000))"
      using pos_mod_bound [of 1000000000 d] by (intro float64_of_int_small) (simp add: abs_less_iff)
    then show ?thesis using round64_le [of 0 "of_int (d mod 1000000000) / 1000000000"] by simp
  qed
  have up: "up_to 63 (float64_of_int (d div 1000000000))" "up_to 63 (fdiv (float64_of_int (d mod 1000000000)) (FFin 1000000000))"
    using assms in64_go_div [of d 1000000000] go_rem_bounds [of 1000000000 d] by (auto intro!: up_to_int64 up_to_fdiv simp: in64_def)
  have "up_to 63 (FFin 1)" "up_to 63 (FFin 0)" by (rule up_to_FFin, simp)+
  from fadd_mono [OF up this one zero] have "FFin 1 \<le> Seconds d" using assms(2) by (simp add: Seconds_def)
  then show ?thesis using y by simp
qed

lemma recency_up_to:
  assumes "in64 (rc_StaleAfter config)" and "second \<le> rc_StaleAfter config"
  shows "up_to 69 (recency c now config)"
proof -
  obtain y where y: "Seconds (rc_StaleAfter config) = FFin y" "1 \<le> y" using Seconds_ge_1 [OF assms] by blast
  have "up_to 64 (fdiv (Seconds (time_Sub now (cd_LastSuccess c))) (FFin y))" using y(2) by (intro up_to_fdiv Seconds_up_to) simp_all
  moreover have "up_to 64 (FFin 1)" "up_to 4 (FFin 10)" by (rule up_to_FFin, simp)+
  ultimately show ?thesis
    using up_to_fmul [of 4 "FFin 10" 65] up_to_fsub [of 64 "FFin 1"] by (simp add: recency_def y(1))
qed

lemma log_term_ok:
  assumes "log_ok log10" and "flt (FFin 0) t" and "t \<noteq> FNaN"
  shows "up_to 5 (fmin (FFin 20) (fmul (log10 (fadd t (FFin 1))) (FFin 2)))"
proof -
  have "FFin 1 \<le> fadd t (FFin 1)"
  proof (cases t)
    case (FFin r)
    then show ?thesis using assms(2) round64_le [of 1 "r + 1"] by simp
  qed (use assms in \<open>auto simp: less_eq_float64_def less_float64_def\<close>)
  then have "FFin 0 \<le> log10 (fadd t (FFin 1))" using assms(1) by (simp add: log_ok_def)
  then have "FFin 0 \<le> fmul (log10 (fadd t (FFin 1))) (FFin 2)"
  proof (cases "log10 (fadd t (FFin 1))")
    case (FFin r)
    then show ?thesis using \<open>FFin 0 \<le> log10 _\<close> round64_le [of 0 "r * 2"] by simp
  qed (auto simp: less_eq_float64_def less_float64_def finf_def)
  then show ?thesis
    by (cases "fmul (log10 (fadd t (FFin 1))) (FFin 2)") (auto simp: fmin_def up_to_def less_eq_float64_def less_float64_def)
qed

lemma health_up_to: "cd_FailureRate c \<noteq> FNaN \<Longrightarrow> up_to 2 (health c)"
  unfolding health_def using up_to_fsub [OF up_to_FFin up_to_clamp, of 1 1 "cd_FailureRate c" 0 1]
  by (simp add: eval_nat_numeral)

text \<open>Scores are numbers, and those of usable candidates that are healthy enough are finite.\<close>

lemma race_score_up_to:
  assumes "candidate_ok c" and "log_ok log10" and "in64 (rc_StaleAfter config)" and "second \<le> rc_StaleAfter config"
    and "\<not> unusable c" and "\<not> flt (health c) (rc_MinimumHealth config)"
  shows "up_to 72 (race_score log10 c now config)"
proof -
  have ok: "in64 (cd_HandshakeLatency c)" "cd_FailureRate c \<noteq> FNaN" "cd_ThroughputBPS c \<noteq> FNaN"
    using assms(1) by (simp_all add: candidate_ok_def)
  have step: "up_to n (if b then fadd v w else v)" "up_to n (if b then fsub v w else v)"
    if "up_to k v" "b \<Longrightarrow> up_to k w" "k < 1023" "n = Suc k" for k n b v w
    using that up_to_fadd [of k v w] up_to_fsub [of k v w] up_to_mono [of k v "Suc k"] by simp_all
  have small: "up_to 7 (FFin 100)" "up_to 63 (FFin 30)" "up_to 64 (FFin 40)" by (rule up_to_FFin, simp)+
  have v0: "up_to 63 (fmul (FFin 100) (health c))"
    using up_to_fmul [OF small(1) health_up_to [OF ok(2)]] by (auto intro: up_to_mono)
  have lat: "up_to 64 (fmin (FFin 40) (fdiv (float64_of_int (Milliseconds (cd_HandshakeLatency c))) (FFin 20)))"
    using in64_go_div [OF ok(1), of 1000000]
    by (intro up_to_fmin small up_to_mono [of 63 _ 64] up_to_fdiv up_to_int64) (simp_all add: Milliseconds_def)
  have log: "up_to 65 (fmin (FFin 20) (fmul (log10 (fadd (cd_ThroughputBPS c) (FFin 1))) (FFin 2)))" if "flt (FFin 0) (cd_ThroughputBPS c)"
    using up_to_mono [OF log_term_ok [OF assms(2) that ok(3)]] by simp
  let ?v1 = "if Direct c then fadd (fmul (FFin 100) (health c)) (FFin 30) else fmul (FFin 100) (health c)"
  let ?v2 = "if 0 < cd_HandshakeLatency c
    then fsub ?v1 (fmin (FFin 40) (fdiv (float64_of_int (Milliseconds (cd_HandshakeLatency c))) (FFin 20))) else ?v1"
  let ?v3 = "if flt (FFin 0) (cd_ThroughputBPS c)
    then fadd ?v2 (fmin (FFin 20) (fmul (log10 (fadd (cd_ThroughputBPS c) (FFin 1))) (FFin 2))) else ?v2"
  have "up_to 64 ?v1" by (rule step(1) [OF v0 small(2)]) simp_all
  then have "up_to 65 ?v2" by (rule step(2) [OF _ lat]) simp_all
  then have "up_to 66 ?v3" by (rule step(1) [OF _ up_to_mono [OF log]]) simp_all
  then have v3: "up_to 69 ?v3" by (rule up_to_mono) simp
  have "up_to 70 (if \<not> IsZero (cd_LastSuccess c) \<and> time_Sub now (cd_LastSuccess c) \<le> rc_StaleAfter config
    then fadd ?v3 (recency c now config) else ?v3)"
    by (rule step(1) [OF v3 recency_up_to [OF assms(3,4)]]) simp_all
  then show ?thesis
    using assms(5,6) unfolding race_score_def Let_def by (simp only: if_False) (rule up_to_mono, assumption, simp)
qed

lemma race_score_number:
  assumes "candidate_ok c" and "log_ok log10" and "in64 (rc_StaleAfter config)" and "second \<le> rc_StaleAfter config"
  shows "race_score log10 c now config \<noteq> FNaN"
    and "race_score log10 c now config = FNegInf \<longleftrightarrow> unusable c \<or> flt (health c) (rc_MinimumHealth config)"
proof -
  have "race_score log10 c now config = FNegInf" if "unusable c \<or> flt (health c) (rc_MinimumHealth config)"
    using that by (auto simp: race_score_def)
  moreover have "race_score log10 c now config \<noteq> FNaN \<and> race_score log10 c now config \<noteq> FNegInf"
    if "\<not> (unusable c \<or> flt (health c) (rc_MinimumHealth config))"
    using race_score_up_to [OF assms, of now] that by (auto simp: up_to_def)
  ultimately show "race_score log10 c now config \<noteq> FNaN"
    "race_score log10 c now config = FNegInf \<longleftrightarrow> unusable c \<or> flt (health c) (rc_MinimumHealth config)" by force+
qed

section \<open>The plan tries every usable candidate\<close>

lemma attempt_less_cong:
  "at_Score a = at_Score a' \<Longrightarrow> at_Candidate a = at_Candidate a' \<Longrightarrow> at_Score b = at_Score b' \<Longrightarrow> at_Candidate b = at_Candidate b' \<Longrightarrow>
     attempt_less a b = attempt_less a' b'"
  by (simp add: attempt_less_def by_score_def candidate_less_def)

lemma ordered_by_map:
  "(\<And>x y. lt (f x) (f y) = lt x y) \<Longrightarrow> ordered_by lt (map f xs) = ordered_by lt xs"
  by (simp add: ordered_by_def sorted_wrt_map)

lemma race_normalized_StaleAfter:
  assumes "in64 (rc_StaleAfter config)" and "rc_StaleAfter config \<le> 0 \<or> second \<le> rc_StaleAfter config"
  shows "in64 (rc_StaleAfter (race_normalized config))" and "second \<le> rc_StaleAfter (race_normalized config)"
  using assms by (auto simp: race_normalized_def in64_def)

definition started :: "duration \<Rightarrow> bool \<Rightarrow> Attempt \<Rightarrow> Attempt" where
  "started headStart hasDirect a = (if \<not> hasDirect \<or> Direct (at_Candidate a) then a else a\<lparr>at_StartAfter := headStart\<rparr>)"

lemma started_simps [simp]:
  "at_Candidate (started h d a) = at_Candidate a" "at_Score (started h d a) = at_Score a"
  by (simp_all add: started_def)

lemma started_less [simp]: "attempt_less (started h d a) (started h d b) = attempt_less a b"
  by (rule attempt_less_cong) simp_all

lemma Plan_started:
  "Plan log10 candidates now config =
     (let attempts = race_attempts log10 candidates now (race_normalized config)
      in map (started (rc_DirectHeadStart (race_normalized config)) (list_ex (\<lambda>a. Direct (at_Candidate a)) attempts))
        (SliceStable attempt_less attempts))"
proof -
  have "map (started h True) xs = map (\<lambda>a. if Direct (at_Candidate a) then a else a\<lparr>at_StartAfter := h\<rparr>) xs" for h xs
    by (simp add: started_def)
  moreover have "map (started h False) xs = xs" for h xs by (simp add: started_def map_idI)
  ultimately show ?thesis by (simp add: Plan_def Let_def)
qed

text \<open>What the order of the plan means for two attempts, the first of which comes before the second.\<close>

lemma not_attempt_less:
  assumes "at_Score a \<noteq> FNaN" and "at_Score b \<noteq> FNaN" and "\<not> attempt_less b a"
  shows "at_Score b < at_Score a \<or> at_Score a = at_Score b \<and>
    (Direct (at_Candidate a) \<and> \<not> Direct (at_Candidate b) \<or> Direct (at_Candidate a) = Direct (at_Candidate b) \<and>
     (kind_text (cd_Kind (at_Candidate a)) < kind_text (cd_Kind (at_Candidate b)) \<or>
      kind_text (cd_Kind (at_Candidate a)) = kind_text (cd_Kind (at_Candidate b)) \<and>
      cd_ID (at_Candidate a) \<le> cd_ID (at_Candidate b)))"
  using assms by (auto simp: attempt_less_def by_score_def feq_def flt_less candidate_less_def Let_def not_less split: if_splits)

text \<open>
  C34. The plan of a race: take candidates whose latency fits 64 bits and whose failure rate and throughput are numbers, a
  configuration in which entries count as recent for at least a second (or for the default time), and a
  logarithm that is not negative from 1 on. The plan tries exactly the candidates that have an identifier and an endpoint, are
  authenticated and healthy and whose failure rate leaves the minimum of health, each as often as it is
  given. An attempt comes before another when its score is higher; with equal scores when it is direct and the other
  goes through the Node; then by the name of the kind; then by the identifier. A Node waits for the
  head start (350 ms when none is configured) exactly when a direct candidate is tried as well; every
  other attempt starts at once.
\<close>

theorem race_plan:
  assumes "list_all candidate_ok candidates" and "log_ok log10"
    and "in64 (rc_StaleAfter config)" and "rc_StaleAfter config \<le> 0 \<or> second \<le> rc_StaleAfter config"
    and "conf = race_normalized config" and "attempts = Plan log10 candidates now config"
  shows "mset (map at_Candidate attempts) = mset (filter (\<lambda>c. cd_ID c \<noteq> '''' \<and> cd_Endpoint c \<noteq> '''' \<and> cd_Authenticated c \<and>
      cd_Healthy c \<and> rc_MinimumHealth conf \<le> health c) candidates) \<and>
    sorted_wrt (\<lambda>a b. at_Score b < at_Score a \<or> at_Score a = at_Score b \<and>
      (Direct (at_Candidate a) \<and> \<not> Direct (at_Candidate b) \<or> Direct (at_Candidate a) = Direct (at_Candidate b) \<and>
       (kind_text (cd_Kind (at_Candidate a)) < kind_text (cd_Kind (at_Candidate b)) \<or>
        kind_text (cd_Kind (at_Candidate a)) = kind_text (cd_Kind (at_Candidate b)) \<and>
        cd_ID (at_Candidate a) \<le> cd_ID (at_Candidate b)))) attempts \<and>
    list_all (\<lambda>a. at_Score a = race_score log10 (at_Candidate a) now conf \<and>
      at_StartAfter a = (if \<not> Direct (at_Candidate a) \<and> list_ex (\<lambda>b. Direct (at_Candidate b)) attempts
        then (if rc_DirectHeadStart config \<le> 0 then 350 * millisecond else rc_DirectHeadStart config) else 0)) attempts"
proof -
  let ?raw = "race_attempts log10 candidates now conf"
  let ?d = "list_ex (\<lambda>a. Direct (at_Candidate a)) ?raw"
  have plan: "attempts = map (started (rc_DirectHeadStart conf) ?d) (SliceStable attempt_less ?raw)"
    unfolding assms(5,6) Plan_started Let_def ..
  have score: "race_score log10 c now conf \<noteq> FNaN"
    "race_score log10 c now conf = FNegInf \<longleftrightarrow> unusable c \<or> flt (health c) (rc_MinimumHealth conf)" if "c \<in> set candidates" for c
    using race_score_number [OF _ assms(2) race_normalized_StaleAfter [OF assms(3,4)]] that assms(1,5) by (auto simp: list_all_iff)
  have "mset (map at_Candidate attempts) = mset (map at_Candidate ?raw)"
    unfolding plan by (simp add: comp_def)
  also have "map at_Candidate ?raw = filter (\<lambda>c. \<not> unusable c \<and> \<not> flt (health c) (rc_MinimumHealth conf)) candidates"
    using score(2) by (simp add: race_attempts_def comp_def cong: filter_cong)
  also have "\<dots> = filter (\<lambda>c. cd_ID c \<noteq> '''' \<and> cd_Endpoint c \<noteq> '''' \<and> cd_Authenticated c \<and>
      cd_Healthy c \<and> rc_MinimumHealth conf \<le> health c) candidates"
  proof (rule filter_cong [OF refl])
    fix c assume "c \<in> set candidates"
    then have "health c \<noteq> FNaN"
      using assms(1) up_to_not_NaN [OF health_up_to] by (auto simp: list_all_iff candidate_ok_def)
    then show "(\<not> unusable c \<and> \<not> flt (health c) (rc_MinimumHealth conf)) =
      (cd_ID c \<noteq> '''' \<and> cd_Endpoint c \<noteq> '''' \<and> cd_Authenticated c \<and> cd_Healthy c \<and> rc_MinimumHealth conf \<le> health c)"
      by (auto simp: unusable_def flt_less not_less)
  qed
  finally have same: "mset (map at_Candidate attempts) = mset (filter (\<lambda>c. cd_ID c \<noteq> '''' \<and> cd_Endpoint c \<noteq> '''' \<and>
      cd_Authenticated c \<and> cd_Healthy c \<and> rc_MinimumHealth conf \<le> health c) candidates)" .
  have "ordered_by attempt_less (SliceStable attempt_less ?raw)"
    unfolding attempt_less_def using score(1)
    by (intro by_score_sorts(2) by_candidate.stable_order_axioms) (auto simp: race_attempts_def)
  then have sorted: "sorted_wrt (\<lambda>x y. \<not> attempt_less y x) attempts"
    unfolding plan by (simp add: ordered_by_map flip: ordered_by_def)
  have number: "at_Score a \<noteq> FNaN" if "a \<in> set attempts" for a
    using that score(1) unfolding plan by (auto simp: race_attempts_def)
  have ordered: "sorted_wrt (\<lambda>a b. at_Score b < at_Score a \<or> at_Score a = at_Score b \<and>
      (Direct (at_Candidate a) \<and> \<not> Direct (at_Candidate b) \<or> Direct (at_Candidate a) = Direct (at_Candidate b) \<and>
       (kind_text (cd_Kind (at_Candidate a)) < kind_text (cd_Kind (at_Candidate b)) \<or>
        kind_text (cd_Kind (at_Candidate a)) = kind_text (cd_Kind (at_Candidate b)) \<and>
        cd_ID (at_Candidate a) \<le> cd_ID (at_Candidate b)))) attempts"
    by (rule sorted_wrt_mono_rel [OF _ sorted]) (rule not_attempt_less [OF number number])
  have direct: "list_ex (\<lambda>b. Direct (at_Candidate b)) attempts = ?d" unfolding plan by (auto simp: list_ex_iff)
  have "list_all (\<lambda>a. at_Score a = race_score log10 (at_Candidate a) now conf \<and>
      at_StartAfter a = (if \<not> Direct (at_Candidate a) \<and> ?d then rc_DirectHeadStart conf else 0)) attempts"
    unfolding plan by (auto simp: list_all_iff started_def race_attempts_def)
  moreover have head: "(if rc_DirectHeadStart config \<le> 0 then 350 * millisecond else rc_DirectHeadStart config) =
      rc_DirectHeadStart conf"
    unfolding assms(5) by (simp add: race_normalized_def)
  ultimately show ?thesis unfolding direct head using same ordered by blast
qed

section \<open>The winner does not depend on the order of the results\<close>

definition result_key :: "RaceResult \<Rightarrow> time \<times> duration \<times> string" where
  "result_key r = (rr_CompletedAt r, rr_Latency r, rr_CandidateID r)"

interpretation by_result: keyed_order result_less result_key
  by unfold_locales (auto simp: result_less_def result_key_def less_prod_def)

text \<open>Eligible results with the same key are the same.\<close>

lemma result_key_inj: "inj_on result_key {r :: RaceResult. race_eligible r}"
  by (rule inj_onI) (auto simp: result_key_def race_eligible_def intro: RaceResult.equality)

text \<open>
  The winner of a race is the eligible result that completed first (the smaller latency, then the smaller
  identifier where instants are equal), there is one whenever a result is eligible, and it
  is the same in whatever order the results of the concurrent attempts come in.
\<close>

theorem race_winner:
  assumes "mset results = mset results'"
  shows "Winner results = Winner results' \<and> (Winner results = None \<longleftrightarrow> \<not> list_ex race_eligible results) \<and>
    (case Winner results of None \<Rightarrow> True
     | Some w \<Rightarrow> w \<in> set results \<and> race_eligible w \<and> list_all (\<lambda>r. \<not> race_eligible r \<or> result_key w \<le> result_key r) results)"
proof -
  let ?xs = "filter race_eligible results"
  have "SliceStable result_less ?xs = SliceStable result_less (filter race_eligible results')"
    using assms by (intro by_result.SliceStable_cong inj_on_subset [OF result_key_inj]) (auto simp: assms)
  then have "Winner results = Winner results'" by (simp add: Winner_def)
  moreover have "Winner results = None \<longleftrightarrow> \<not> list_ex race_eligible results"
  proof -
    have "Winner results = None \<longleftrightarrow> ?xs = []"
      using SliceStable_eq_Nil [of result_less ?xs] by (cases "SliceStable result_less ?xs") (simp_all add: Winner_def)
    then show ?thesis by (simp add: list_ex_iff filter_empty_conv)
  qed
  moreover have "w \<in> set results \<and> race_eligible w \<and> list_all (\<lambda>r. \<not> race_eligible r \<or> result_key w \<le> result_key r) results"
    if "Winner results = Some w" for w
  proof -
    obtain ws where ws: "SliceStable result_less ?xs = w # ws" using \<open>Winner results = Some w\<close> by (auto simp: Winner_def split: list.splits)
    then have "w \<in> set ?xs" using set_SliceStable [of result_less ?xs] by (metis list.set_intros(1))
    moreover have "result_key w \<le> result_key r" if "r \<in> set ?xs" for r
      using by_result.hd_SliceStable_least [OF ws that] by (simp add: by_result.less_key not_less)
    ultimately show ?thesis by (auto simp: list_all_iff)
  qed
  ultimately show ?thesis by (auto split: option.split)
qed

text \<open>The chunks to reuse: exactly the verified ones that are available with the same hash, in order.\<close>

lemma ReusableChunks_spec:
  assumes "distinct (map fst verified)"
  shows "sorted (ReusableChunks verified available) \<and> distinct (ReusableChunks verified available) \<and>
    (i \<in> set (ReusableChunks verified available) \<longleftrightarrow>
       (\<exists>h. h \<noteq> '''' \<and> map_of verified i = Some h \<and> map_of available i = Some h))"
proof -
  have "distinct (map fst (filter P verified))" for P using assms by (rule distinct_map_filter)
  moreover have "map_of verified i = Some h \<longleftrightarrow> (i, h) \<in> set verified" for h using assms by (simp add: map_of_eq_Some_iff)
  ultimately show ?thesis
    by (auto simp: ReusableChunks_def lookup_chunk_def image_iff split: option.splits prod.splits if_splits)
qed

section \<open>A clock that was set back\<close>

definition demo_candidate :: "string \<Rightarrow> Kind \<Rightarrow> time \<Rightarrow> Candidate" where
  "demo_candidate i k t = \<lparr>cd_ID = i, cd_Endpoint = ''e'', cd_Kind = k, cd_Authenticated = True, cd_Healthy = True,
     cd_HandshakeLatency = 20000000, cd_ThroughputBPS = FFin 0, cd_FailureRate = FFin 0, cd_LastSuccess = t\<rparr>"

definition demo_race :: RaceConfig where
  "demo_race = \<lparr>rc_DirectHeadStart = 0, rc_MinimumHealth = FFin 0, rc_StaleAfter = 0\<rparr>"

text \<open>
  The points for a recent success are meant to be ten at most. They are not bounded when the last success lies in the
  future, as after a clock was set back: a hundred weeks ahead give 1010 points, and a Node
  is tried before a direct route whose last success was a moment ago.
\<close>

lemma demo_seconds: "Seconds 604800000000000 = FFin 604800" "Seconds (- 60480000000000000) = FFin (- 60480000)" "Seconds 0 = FFin 0"
  using round64_of_int [of "- 60480000"] by (simp_all add: Seconds_def float64_of_int_def go_div_def go_rem_def)

lemma demo_threshold: "\<not> flt (FFin 1) (round64 (7 / 20))"
proof -
  have "round64 (7 / 20) \<le> round64 1" by (rule round64_le) simp
  then show ?thesis by (cases "round64 (7 / 20)") (auto simp: less_eq_float64_def less_float64_def)
qed

lemma demo_race_score:
  "race_score log10 (demo_candidate ''node'' KindNode 60480001000000000) second (race_normalized demo_race) = FFin 1109"
  "race_score log10 (demo_candidate ''lan'' KindLAN second) second (race_normalized demo_race) = FFin 139"
proof -
  have "round64 (- 100) = FFin (- 100)" using round64_of_int [of "- 100"] by simp
  then show "race_score log10 (demo_candidate ''node'' KindNode 60480001000000000) second (race_normalized demo_race) = FFin 1109"
    "race_score log10 (demo_candidate ''lan'' KindLAN second) second (race_normalized demo_race) = FFin 139"
    by (simp_all add: race_score_def unusable_def health_def recency_def demo_candidate_def race_normalized_def demo_race_def
        demo_seconds demo_threshold clamp_def fsub_def fmin_def Direct_def float64_of_int_def Milliseconds_def time_Sub_def Let_def)
qed

lemma clock_skew_wins:
  "map (\<lambda>a. cd_ID (at_Candidate a)) (Plan log10 [demo_candidate ''lan'' KindLAN second, demo_candidate ''node'' KindNode 60480001000000000]
     second demo_race) = [''node'', ''lan'']"
  by (simp add: Plan_def race_attempts_def demo_race_score attempt_less_def by_score_def feq_def Direct_def Let_def)
     (simp add: demo_candidate_def)

section \<open>Witnesses\<close>

theorem race_plan_witness:
  "mset (map at_Candidate (Plan (\<lambda>x. FFin 0) [demo_candidate ''lan'' KindLAN second, demo_candidate '''' KindNode 0] second demo_race)) =
     {# demo_candidate ''lan'' KindLAN second #}"
proof -
  have "list_all candidate_ok [demo_candidate ''lan'' KindLAN second, demo_candidate '''' KindNode 0]" "log_ok (\<lambda>x. FFin 0)"
    "in64 (rc_StaleAfter demo_race)" "rc_StaleAfter demo_race \<le> 0 \<or> second \<le> rc_StaleAfter demo_race"
    by (simp_all add: candidate_ok_def log_ok_def demo_candidate_def demo_race_def in64_def)
  note plan = race_plan [OF this refl refl, of second]
  show ?thesis
    using plan [THEN conjunct1] demo_threshold [unfolded flt_less [of "FFin 1", simplified] not_less]
    by (simp add: demo_candidate_def unusable_def health_def race_normalized_def demo_race_def clamp_def fsub_def)
qed

definition demo_result :: "string \<Rightarrow> time \<Rightarrow> RaceResult" where
  "demo_result i t = \<lparr>rr_CandidateID = i, rr_Authenticated = True, rr_Healthy = True, rr_CompletedAt = t, rr_Latency = 1, rr_ErrorCode = ''''\<rparr>"

theorem race_winner_witness:
  "Winner [demo_result ''a'' 7, demo_result ''b'' 5] = Some (demo_result ''b'' 5) \<and>
   Winner [demo_result ''b'' 5, demo_result ''a'' 7] = Some (demo_result ''b'' 5)"
proof -
  have "Winner [demo_result ''a'' 7, demo_result ''b'' 5] = Some (demo_result ''b'' 5)"
    by (simp add: Winner_def race_eligible_def result_less_def demo_result_def)
  then show ?thesis
    using race_winner [of "[demo_result ''a'' 7, demo_result ''b'' 5]" "[demo_result ''b'' 5, demo_result ''a'' 7]"] by simp
qed

end
