(* ===== verification/Lan.thy ===== *)
theory Lan
  imports Version
begin

text \<open>
  Transfers over the local network: \<open>internal/lan\<close>. Advertisements and discovery, identities and the pinning of
  certificates, the server of chunks and its client. The chunk store, an interface without an
  implementation in the repository, is a record of functions on its state; X.509, PEM, SHA-256, JSON, \<open>net.ParseIP\<close>, the checks of
  the TLS library and the unescaping of paths are parameters; sockets and multicast DNS carry messages
  from one definition to another. Redirects of paths that are not clean are left out.
\<close>

section \<open>Advertisements (discovery.go)\<close>

definition DiscoveryProtocolVersion :: string where "DiscoveryProtocolVersion = PreviousProtocol"
definition ProtocolVersion_lan :: string where "ProtocolVersion_lan = CurrentProtocol"
definition discoveryMagic :: string where "discoveryMagic = ''NEXDROP_DISCOVERY_V1''"

datatype lan_error =
  ErrAdvertisement | ErrChallenge | ErrRandom | ErrUntrusted | ErrCertificate | ErrPeerIdentity | ErrFingerprint
| ErrIdentifier | ErrTarget | ErrConfiguration | ErrConnection | ErrRefused string | ErrResponse

record Advertisement =
  adv_ShortDeviceID :: string
  adv_ServiceVersion :: string
  adv_Protocol :: string
  adv_Port :: int
  adv_Challenge :: string
  adv_Address :: string

definition lan_char :: "char \<Rightarrow> bool" where
  "lan_char c \<longleftrightarrow> is_lower c \<or> is_upper c \<or> is_digit c \<or> c = CHR ''-''"

definition lan_identifier :: "string \<Rightarrow> bool" where
  "lan_identifier value \<longleftrightarrow> list_all lan_char value"

definition Validate_advertisement :: "Advertisement \<Rightarrow> lan_error + unit" where
  "Validate_advertisement v =
     (if length (adv_ShortDeviceID v) < 6 \<or> 32 < length (adv_ShortDeviceID v) \<or> \<not> lan_identifier (adv_ShortDeviceID v) \<or>
         adv_ServiceVersion v = '''' \<or> 32 < length (adv_ServiceVersion v) \<or> adv_Protocol v = '''' \<or> 16 < length (adv_Protocol v) \<or>
         adv_Port v < 1 \<or> 65535 < adv_Port v
      then Inl ErrAdvertisement
      else case b64_decode (adv_Challenge v) of
        None \<Rightarrow> Inl ErrChallenge
      | Some challenge \<Rightarrow> if length challenge \<noteq> 16 then Inl ErrChallenge else Inr ())"

definition NewAdvertisement :: "string option \<Rightarrow> string \<Rightarrow> string \<Rightarrow> int \<Rightarrow> lan_error + Advertisement" where
  "NewAdvertisement rnd shortDeviceID serviceVersion port =
     (case rnd of
        None \<Rightarrow> Inl ErrRandom
      | Some challenge \<Rightarrow>
          let v = \<lparr>adv_ShortDeviceID = shortDeviceID, adv_ServiceVersion = serviceVersion, adv_Protocol = DiscoveryProtocolVersion,
                adv_Port = port, adv_Challenge = b64_encode challenge, adv_Address = ''''\<rparr>
          in bindE (Validate_advertisement v) (\<lambda>_. Inr v))"

text \<open>The records of multicast DNS. An error of \<open>strconv.Atoi\<close> is ignored, its value kept.\<close>

definition text_records :: "Advertisement \<Rightarrow> string list" where
  "text_records v = [''id='' @ adv_ShortDeviceID v, ''sv='' @ adv_ServiceVersion v, ''pv='' @ adv_Protocol v,
     ''port='' @ Itoa (adv_Port v), ''challenge='' @ adv_Challenge v]"

definition record_value :: "(string \<rightharpoonup> string) \<Rightarrow> string \<Rightarrow> string" where
  "record_value m k = (case m k of None \<Rightarrow> '''' | Some v \<Rightarrow> v)"

fun text_values :: "string list \<Rightarrow> (string \<rightharpoonup> string) \<Rightarrow> (string \<rightharpoonup> string)" where
  "text_values [] m = m"
| "text_values (item # items) m =
     text_values items (case cut_at CHR ''='' item of None \<Rightarrow> m | Some (k, v) \<Rightarrow> m(k \<mapsto> v))"

definition advertisementFromText :: "string list \<Rightarrow> Advertisement \<times> (lan_error + unit)" where
  "advertisementFromText items =
     (let values = text_values items Map.empty;
          v = \<lparr>adv_ShortDeviceID = record_value values ''id'', adv_ServiceVersion = record_value values ''sv'',
                adv_Protocol = record_value values ''pv'', adv_Port = fst (Atoi (record_value values ''port'')),
                adv_Challenge = record_value values ''challenge'', adv_Address = ''''\<rparr>
      in (v, Validate_advertisement v))"

text \<open>One entry of the resolver: its text, port and addresses.\<close>

definition from_entry :: "string list \<Rightarrow> int \<Rightarrow> string list \<Rightarrow> Advertisement option" where
  "from_entry items port addresses =
     (case advertisementFromText items of (v, checked) \<Rightarrow>
        if checked \<noteq> Inr () \<or> adv_Port v \<noteq> port then None
        else case addresses of [] \<Rightarrow> None | a # _ \<Rightarrow> Some (v\<lparr>adv_Address := a\<rparr>))"

record DiscoveryPacket =
  dp_Magic :: string
  dp_Type :: string
  dp_Nonce :: string
  dp_Advertisement :: "Advertisement option"

text \<open>The answer to a datagram, and what a datagram brings to a discovery that sent a nonce.\<close>

definition respond :: "Advertisement \<Rightarrow> DiscoveryPacket option \<Rightarrow> DiscoveryPacket option" where
  "respond v query =
     (case query of
        None \<Rightarrow> None
      | Some q \<Rightarrow>
          if dp_Magic q \<noteq> discoveryMagic \<or> dp_Type q \<noteq> ''query'' \<or> dp_Nonce q = '''' then None
          else Some \<lparr>dp_Magic = discoveryMagic, dp_Type = ''response'', dp_Nonce = dp_Nonce q, dp_Advertisement = Some v\<rparr>)"

definition broadcast_query :: "string \<Rightarrow> DiscoveryPacket" where
  "broadcast_query rnd = \<lparr>dp_Magic = discoveryMagic, dp_Type = ''query'', dp_Nonce = b64_encode rnd, dp_Advertisement = None\<rparr>"

definition from_broadcast :: "string \<Rightarrow> string \<Rightarrow> DiscoveryPacket option \<Rightarrow> Advertisement option" where
  "from_broadcast nonce source response =
     (case response of
        None \<Rightarrow> None
      | Some p \<Rightarrow>
          if dp_Magic p \<noteq> discoveryMagic \<or> dp_Type p \<noteq> ''response'' \<or> dp_Nonce p \<noteq> nonce then None
          else map_option (\<lambda>v. v\<lparr>adv_Address := source\<rparr>) (dp_Advertisement p))"

text \<open>The advertisements that both searches found, in the order in which they came, by device.\<close>

fun discovered :: "Advertisement list \<Rightarrow> (string \<rightharpoonup> Advertisement) \<Rightarrow> (string \<rightharpoonup> Advertisement)" where
  "discovered [] m = m"
| "discovered (v # vs) m =
     discovered vs (if Validate_advertisement v = Inr () then m(adv_ShortDeviceID v \<mapsto> v) else m)"

section \<open>Identities (identity.go)\<close>

record Certificate =
  crt_Raw :: string
  crt_CommonName :: string
  crt_NotBefore :: time
  crt_NotAfter :: time
  crt_DNSNames :: "string list"

record LanIdentity =
  id_ShortDeviceID :: string
  id_Certificate :: string
  id_Fingerprint :: string
  id_CertificatePEM :: string

text \<open>
  \<open>x_parse\<close> reads the bytes of a certificate; \<open>x_signed\<close> tells whether its signature verifies with its own
  key; \<open>x_pem_decode\<close> gives the type of the first block, its bytes and the rest; \<open>x_create\<close> signs a template;
  \<open>x_years\<close> adds years to an instant.
\<close>

record X509 =
  x_parse :: "string \<Rightarrow> Certificate option"
  x_signed :: "Certificate \<Rightarrow> bool"
  x_pem_encode :: "string \<Rightarrow> string"
  x_pem_decode :: "string \<Rightarrow> (string \<times> string \<times> string) option"
  x_create :: "string \<Rightarrow> time \<Rightarrow> time \<Rightarrow> string list \<Rightarrow> string option"
  x_sha256 :: "string \<Rightarrow> string"
  x_years :: "int \<Rightarrow> time \<Rightarrow> time"

text \<open>A directory may or may not know certificates.\<close>

record TrustDirectory =
  tr_Fingerprint :: "string \<rightharpoonup> string"
  tr_CertificatePEM :: "(string \<rightharpoonup> string) option"

definition StaticTrust :: "(string \<rightharpoonup> string) \<Rightarrow> TrustDirectory" where
  "StaticTrust trust = \<lparr>tr_Fingerprint = trust, tr_CertificatePEM = None\<rparr>"

definition StaticCertificateTrust :: "(string \<rightharpoonup> LanIdentity) \<Rightarrow> TrustDirectory" where
  "StaticCertificateTrust trust = \<lparr>tr_Fingerprint = map_option id_Fingerprint \<circ> trust,
     tr_CertificatePEM = Some (map_option id_CertificatePEM \<circ> trust)\<rparr>"

definition GenerateIdentity :: "X509 \<Rightarrow> string \<Rightarrow> time \<Rightarrow> lan_error + LanIdentity" where
  "GenerateIdentity x shortDeviceID now =
     (if length shortDeviceID < 6 \<or> 32 < length shortDeviceID \<or> \<not> lan_identifier shortDeviceID then Inl ErrPeerIdentity
      else case x_create x (''nexdrop:'' @ shortDeviceID) (now - minute) (x_years x 5 now) [''nexdrop-'' @ shortDeviceID @ ''.local''] of
        None \<Rightarrow> Inl ErrRandom
      | Some der \<Rightarrow>
          if x_parse x der = None then Inl ErrCertificate
          else Inr \<lparr>id_ShortDeviceID = shortDeviceID, id_Certificate = der, id_Fingerprint = hex_encode (x_sha256 x der),
            id_CertificatePEM = x_pem_encode x der\<rparr>)"

definition fingerprint_matches :: "X509 \<Rightarrow> TrustDirectory \<Rightarrow> string \<Rightarrow> string \<Rightarrow> bool" where
  "fingerprint_matches x trust deviceID raw =
     (case tr_Fingerprint trust deviceID of
        None \<Rightarrow> False
      | Some expected \<Rightarrow> (case hex_decode expected of None \<Rightarrow> False | Some b \<Rightarrow> length b = 32 \<and> b = x_sha256 x raw))"

definition verifyPeer :: "X509 \<Rightarrow> TrustDirectory option \<Rightarrow> string \<Rightarrow> time \<Rightarrow> string list \<Rightarrow> lan_error + unit" where
  "verifyPeer x trust expectedDeviceID now rawCertificates =
     (case (trust, rawCertificates) of
        (Some directory, [raw]) \<Rightarrow>
          (case x_parse x raw of
             None \<Rightarrow> Inl ErrCertificate
           | Some certificate \<Rightarrow>
               if \<not> x_signed x certificate \<or> now < crt_NotBefore certificate \<or> crt_NotAfter certificate < now then Inl ErrCertificate
               else let deviceID = TrimPrefix (crt_CommonName certificate) ''nexdrop:''
                    in if deviceID = crt_CommonName certificate \<or> expectedDeviceID \<noteq> '''' \<and> deviceID \<noteq> expectedDeviceID
                       then Inl ErrPeerIdentity
                       else if \<not> fingerprint_matches x directory deviceID raw then Inl ErrFingerprint
                       else Inr ())
      | _ \<Rightarrow> Inl ErrUntrusted)"

text \<open>What a client gives the TLS library: its certificate, the only root, the name and the device.\<close>

record TLSConfig =
  tls_Certificate :: string
  tls_Root :: Certificate
  tls_ServerName :: string

definition clientTLSConfig :: "X509 \<Rightarrow> LanIdentity \<Rightarrow> TrustDirectory \<Rightarrow> string \<Rightarrow> lan_error + TLSConfig" where
  "clientTLSConfig x identity trust expectedDeviceID =
     (case tr_CertificatePEM trust of
        None \<Rightarrow> Inl ErrUntrusted
      | Some pems \<Rightarrow>
          (case pems expectedDeviceID of
             None \<Rightarrow> Inl ErrCertificate
           | Some pem \<Rightarrow>
               (case x_pem_decode x pem of
                  None \<Rightarrow> Inl ErrCertificate
                | Some (type, bytes, rest) \<Rightarrow>
                    if type \<noteq> ''CERTIFICATE'' \<or> TrimSpace rest \<noteq> '''' then Inl ErrCertificate
                    else case x_parse x bytes of
                      None \<Rightarrow> Inl ErrCertificate
                    | Some certificate \<Rightarrow>
                        if \<not> fingerprint_matches x trust expectedDeviceID (crt_Raw certificate) then Inl ErrFingerprint
                        else Inr \<lparr>tls_Certificate = id_Certificate identity, tls_Root = certificate,
                          tls_ServerName = ''nexdrop-'' @ expectedDeviceID @ ''.local''\<rparr>)))"

section \<open>The server of chunks (transfer.go)\<close>

definition defaultMaxChunkSize :: int where "defaultMaxChunkSize = 9 * 1024 * 1024"

text \<open>\<open>None\<close> and \<open>False\<close> are errors of the store. A digest is its 32 bytes.\<close>

record 's ChunkStore =
  cs_CompletedChunks :: "string \<Rightarrow> string \<Rightarrow> 's \<Rightarrow> int list option"
  cs_PutChunk :: "string \<Rightarrow> string \<Rightarrow> int \<Rightarrow> string \<Rightarrow> string \<Rightarrow> 's \<Rightarrow> 's \<times> bool"
  cs_CompleteFile :: "string \<Rightarrow> string \<Rightarrow> int \<Rightarrow> string \<Rightarrow> 's \<Rightarrow> 's \<times> bool"

text \<open>A header that is missing is empty; \<open>lq_complete\<close> tells that the body can be read to its end.\<close>

record LanRequest =
  lq_Method :: string
  lq_Path :: string
  lq_Header :: "string \<Rightarrow> string"
  lq_Body :: string
  lq_complete :: bool

datatype LanBody =
  LanError string
| LanStatus "int list" string "string list" VersionLimits
| LanChunk int string
| LanDone string
| LanPlain

record LanResponse =
  ls_Status :: nat
  ls_Body :: LanBody

definition writeLANError :: "nat \<Rightarrow> string \<Rightarrow> LanResponse" where
  "writeLANError status c = \<lparr>ls_Status = status, ls_Body = LanError c\<rparr>"

definition writeLANJSON :: "nat \<Rightarrow> LanBody \<Rightarrow> LanResponse" where
  "writeLANJSON status body = \<lparr>ls_Status = status, ls_Body = body\<rparr>"

record 's LanServer =
  srv_store :: "'s ChunkStore"
  srv_challenge :: string
  srv_maxChunkSize :: int
  srv_sha256 :: "string \<Rightarrow> string"
  srv_unescape :: "string \<Rightarrow> string"
  srv_decode_complete :: "string \<Rightarrow> (int \<times> string) option"

definition pathToken :: "string \<Rightarrow> bool" where
  "pathToken value \<longleftrightarrow> 6 \<le> length value \<and> length value \<le> 64 \<and> lan_identifier value"

definition pathIDs :: "string \<Rightarrow> string \<Rightarrow> bool" where
  "pathIDs transferID fileID \<longleftrightarrow> pathToken transferID \<and> pathToken fileID"

definition decodeHash :: "string \<Rightarrow> lan_error + string" where
  "decodeHash value = (case hex_decode value of None \<Rightarrow> Inl ErrIdentifier
     | Some decoded \<Rightarrow> if length decoded \<noteq> 32 then Inl ErrIdentifier else Inr decoded)"

definition lan_status :: "'s LanServer \<Rightarrow> string \<Rightarrow> string \<Rightarrow> LanRequest \<Rightarrow> 's \<Rightarrow> LanResponse" where
  "lan_status server transferID fileID r s =
     (if \<not> pathIDs transferID fileID then writeLANError 400 ''INVALID_TRANSFER''
      else case cs_CompletedChunks (srv_store server) transferID fileID s of
        None \<Rightarrow> writeLANError 500 ''LAN_STORAGE_FAILED''
      | Some completed \<Rightarrow>
          let negotiated = MutualCapabilities [SupportedCapabilities, split_on CHR '','' (lq_Header r ''X-NexDrop-Capabilities'')];
              completed = (if ''resumable_chunks'' \<in> set negotiated then completed else [])
          in writeLANJSON 200 (LanStatus completed ProtocolVersion_lan negotiated CurrentLimits))"

definition lan_putChunk :: "'s LanServer \<Rightarrow> string \<Rightarrow> string \<Rightarrow> string \<Rightarrow> LanRequest \<Rightarrow> 's \<Rightarrow> 's \<times> LanResponse" where
  "lan_putChunk server transferID fileID indexText r s =
     (case (Atoi indexText, decodeHash (lq_Header r ''X-Chunk-SHA256'')) of
        ((index, True), Inr expected) \<Rightarrow>
          if \<not> pathIDs transferID fileID \<or> index < 0 then (s, writeLANError 400 ''INVALID_CHUNK'')
          else let data = take (nat (srv_maxChunkSize server + 1)) (lq_Body r)
            in if \<not> lq_complete r \<or> srv_maxChunkSize server < int (length data)
               then (s, writeLANError 413 ''CHUNK_TOO_LARGE'')
               else if srv_sha256 server data \<noteq> expected then (s, writeLANError 422 ''HASH_MISMATCH'')
               else (case cs_PutChunk (srv_store server) transferID fileID index data expected s of
                   (s', False) \<Rightarrow> (s', writeLANError 500 ''LAN_STORAGE_FAILED'')
                 | (s', True) \<Rightarrow> (s', writeLANJSON 200 (LanChunk index (hex_encode expected))))
      | _ \<Rightarrow> (s, writeLANError 400 ''INVALID_CHUNK''))"

definition lan_complete :: "'s LanServer \<Rightarrow> string \<Rightarrow> string \<Rightarrow> LanRequest \<Rightarrow> 's \<Rightarrow> 's \<times> LanResponse" where
  "lan_complete server transferID fileID r s =
     (case srv_decode_complete server (take 4096 (lq_Body r)) of
        None \<Rightarrow> (s, writeLANError 400 ''INVALID_FILE'')
      | Some (chunkCount, sha256) \<Rightarrow>
          if \<not> pathIDs transferID fileID \<or> chunkCount < 0 then (s, writeLANError 400 ''INVALID_FILE'')
          else case decodeHash sha256 of
            Inl e \<Rightarrow> (s, writeLANError 400 ''INVALID_FILE'')
          | Inr expected \<Rightarrow>
              (case cs_CompleteFile (srv_store server) transferID fileID chunkCount expected s of
                 (s', False) \<Rightarrow> (s', writeLANError 409 ''FILE_INCOMPLETE'')
               | (s', True) \<Rightarrow> (s', writeLANJSON 200 (LanDone ''DELIVERED''))))"

text \<open>The three patterns of the multiplexer; a pattern for \<open>GET\<close> takes \<open>HEAD\<close> too.\<close>

definition lan_mux :: "'s LanServer \<Rightarrow> LanRequest \<Rightarrow> 's \<Rightarrow> 's \<times> LanResponse" where
  "lan_mux server r s =
     (let plain = (\<lambda>status. (s, \<lparr>ls_Status = status, ls_Body = LanPlain\<rparr>));
          known = (\<lambda>v transfers files. v = ''v1'' \<and> transfers = ''transfers'' \<and> files = ''files'');
          U = srv_unescape server
      in case split_on CHR ''/'' (lq_Path r) of
        [e, v, transfers, t, files, f] \<Rightarrow>
          if e \<noteq> '''' \<or> \<not> known v transfers files then plain 404
          else if lq_Method r = ''GET'' \<or> lq_Method r = ''HEAD'' then (s, lan_status server (U t) (U f) r s)
          else plain 405
      | [e, v, transfers, t, files, f, c] \<Rightarrow>
          if e \<noteq> '''' \<or> \<not> known v transfers files \<or> c \<noteq> ''complete'' then plain 404
          else if lq_Method r = ''POST'' then lan_complete server (U t) (U f) r s
          else plain 405
      | [e, v, transfers, t, files, f, c, i] \<Rightarrow>
          if e \<noteq> '''' \<or> \<not> known v transfers files \<or> c \<noteq> ''chunks'' then plain 404
          else if lq_Method r = ''PUT'' then lan_putChunk server (U t) (U f) (U i) r s
          else plain 405
      | _ \<Rightarrow> plain 404)"

definition lan_routes :: "'s LanServer \<Rightarrow> LanRequest \<Rightarrow> 's \<Rightarrow> 's \<times> LanResponse" where
  "lan_routes server r s =
     (if \<not> SupportedProtocol (lq_Header r ''X-NexDrop-Protocol'') then (s, writeLANError 426 ''PROTOCOL_VERSION_UNSUPPORTED'')
      else if lq_Header r ''X-NexDrop-Challenge'' = '''' \<or> lq_Header r ''X-NexDrop-Challenge'' \<noteq> srv_challenge server
      then (s, writeLANError 401 ''LAN_HANDSHAKE_FAILED'')
      else lan_mux server r s)"

definition NewTransferServer ::
  "bool \<Rightarrow> bool \<Rightarrow> 's ChunkStore option \<Rightarrow> string option \<Rightarrow> (string \<Rightarrow> string) \<Rightarrow> (string \<Rightarrow> string) \<Rightarrow>
     (string \<Rightarrow> (int \<times> string) option) \<Rightarrow> lan_error + 's LanServer"
where
  "NewTransferServer hasKey hasTrust store challenge sha unescape decode =
     (case (store, challenge) of
        (Some st, Some c) \<Rightarrow>
          if \<not> hasKey \<or> \<not> hasTrust then Inl ErrConfiguration
          else Inr \<lparr>srv_store = st, srv_challenge = c, srv_maxChunkSize = defaultMaxChunkSize, srv_sha256 = sha,
            srv_unescape = unescape, srv_decode_complete = decode\<rparr>
      | _ \<Rightarrow> Inl ErrConfiguration)"

section \<open>The client (transfer.go)\<close>

text \<open>
  The network of a client: the X.509 operations, whether text is an address, the checks of the TLS library on
  the certificate of the server, the encodings of bodies, and the server that is reached, if any, with
  its certificate and its trust.
\<close>

record 's LanNetwork =
  net_x509 :: X509
  net_is_ip :: "string \<Rightarrow> bool"
  net_chain_ok :: "TLSConfig \<Rightarrow> string \<Rightarrow> bool"
  net_encode :: "LanBody \<Rightarrow> string"
  net_decode_status :: "string \<Rightarrow> (int list \<times> string list) option"
  net_decode_error :: "string \<Rightarrow> string"
  net_encode_complete :: "int \<Rightarrow> string \<Rightarrow> string"
  net_server :: "('s LanServer \<times> LanIdentity \<times> TrustDirectory) option"
  net_now :: time

definition handshake :: "'s LanNetwork \<Rightarrow> LanIdentity \<Rightarrow> TrustDirectory \<Rightarrow> string \<Rightarrow> LanIdentity \<times> TrustDirectory \<Rightarrow> TLSConfig \<Rightarrow> bool" where
  "handshake net identity trust deviceID peer config \<longleftrightarrow>
     net_chain_ok net config (id_Certificate (fst peer)) \<and>
     verifyPeer (net_x509 net) (Some trust) deviceID (net_now net) [id_Certificate (fst peer)] = Inr () \<and>
     verifyPeer (net_x509 net) (Some (snd peer)) '''' (net_now net) [tls_Certificate config] = Inr ()"

definition client_request ::
  "'s LanNetwork \<Rightarrow> LanIdentity \<Rightarrow> TrustDirectory \<Rightarrow> Advertisement \<Rightarrow> string \<Rightarrow> string \<Rightarrow> string \<Rightarrow> (string \<rightharpoonup> string) \<Rightarrow> 's \<Rightarrow>
     's \<times> (lan_error + LanBody)"
where
  "client_request net identity trust target meth path body headers s =
     (if Validate_advertisement target \<noteq> Inr () \<or> \<not> net_is_ip net (adv_Address target) then (s, Inl ErrTarget)
      else case clientTLSConfig (net_x509 net) identity trust (adv_ShortDeviceID target) of
        Inl e \<Rightarrow> (s, Inl e)
      | Inr config \<Rightarrow>
          (case net_server net of
             None \<Rightarrow> (s, Inl ErrConnection)
           | Some (server, peer) \<Rightarrow>
               if \<not> handshake net identity trust (adv_ShortDeviceID target) peer config then (s, Inl ErrConnection)
               else let h = headers(''X-NexDrop-Protocol'' \<mapsto> adv_Protocol target, ''X-NexDrop-Challenge'' \<mapsto> adv_Challenge target,
                        ''X-NexDrop-Capabilities'' \<mapsto> join_with '','' SupportedCapabilities)
                    in case lan_routes server \<lparr>lq_Method = meth, lq_Path = path, lq_Header = record_value h, lq_Body = body,
                           lq_complete = True\<rparr> s of
                      (s', r) \<Rightarrow>
                        if ls_Status r < 200 \<or> 300 \<le> ls_Status r
                        then (s', Inl (ErrRefused (net_decode_error net (take 4096 (net_encode net (ls_Body r))))))
                        else (s', Inr (ls_Body r))))"

definition filePath :: "string \<Rightarrow> string \<Rightarrow> string" where
  "filePath transferID fileID = ''/v1/transfers/'' @ transferID @ ''/files/'' @ fileID"

definition client_CompletedChunks ::
  "'s LanNetwork \<Rightarrow> LanIdentity \<Rightarrow> TrustDirectory \<Rightarrow> Advertisement \<Rightarrow> string \<Rightarrow> string \<Rightarrow> 's \<Rightarrow> 's \<times> (lan_error + int list)"
where
  "client_CompletedChunks net identity trust target transferID fileID s =
     (if \<not> pathToken transferID \<or> \<not> pathToken fileID then (s, Inl ErrIdentifier)
      else case client_request net identity trust target ''GET'' (filePath transferID fileID) '''' Map.empty s of
        (s', Inl e) \<Rightarrow> (s', Inl e)
      | (s', Inr body) \<Rightarrow>
          (case net_decode_status net (take 1048576 (net_encode net body)) of
             None \<Rightarrow> (s', Inl ErrResponse)
           | Some (completed, capabilities) \<Rightarrow>
               (s', Inr (if ''resumable_chunks'' \<in> set capabilities then completed else []))))"

definition client_PutChunk ::
  "'s LanNetwork \<Rightarrow> (string \<Rightarrow> string) \<Rightarrow> LanIdentity \<Rightarrow> TrustDirectory \<Rightarrow> Advertisement \<Rightarrow> string \<Rightarrow> string \<Rightarrow> int \<Rightarrow> string \<Rightarrow> 's \<Rightarrow>
     's \<times> (lan_error + unit)"
where
  "client_PutChunk net sha identity trust target transferID fileID index data s =
     (if \<not> pathToken transferID \<or> \<not> pathToken fileID \<or> index < 0 then (s, Inl ErrIdentifier)
      else case client_request net identity trust target ''PUT'' (filePath transferID fileID @ ''/chunks/'' @ Itoa index) data
          [''X-Chunk-SHA256'' \<mapsto> hex_encode (sha data), ''Content-Type'' \<mapsto> ''application/octet-stream''] s of
        (s', Inl e) \<Rightarrow> (s', Inl e)
      | (s', Inr body) \<Rightarrow> (s', Inr ()))"

definition client_Complete ::
  "'s LanNetwork \<Rightarrow> LanIdentity \<Rightarrow> TrustDirectory \<Rightarrow> Advertisement \<Rightarrow> string \<Rightarrow> string \<Rightarrow> int \<Rightarrow> string \<Rightarrow> 's \<Rightarrow>
     's \<times> (lan_error + unit)"
where
  "client_Complete net identity trust target transferID fileID chunkCount digest s =
     (if \<not> pathToken transferID \<or> \<not> pathToken fileID \<or> chunkCount < 0 then (s, Inl ErrIdentifier)
      else case client_request net identity trust target ''POST'' (filePath transferID fileID @ ''/complete'')
          (net_encode_complete net chunkCount (hex_encode digest)) [''Content-Type'' \<mapsto> ''application/json''] s of
        (s', Inl e) \<Rightarrow> (s', Inl e)
      | (s', Inr body) \<Rightarrow> (s', Inr ()))"

section \<open>Advertisements survive their transport\<close>

lemma Validate_advertisement_port: "Validate_advertisement v = Inr () \<Longrightarrow> in64 (adv_Port v)"
  by (auto simp: Validate_advertisement_def in64_def split: if_splits)

lemma Validate_advertisement_address [simp]: "Validate_advertisement (v\<lparr>adv_Address := a\<rparr>) = Validate_advertisement v"
  by (simp add: Validate_advertisement_def)

text \<open>
  What a device advertises is what others find: a valid advertisement that is written to the records of multicast
  DNS, or sent in answer to a broadcast query, is read back with all its fields and the address of its sender, and
  it passes the checks of a discovery; an answer to another query is ignored.
\<close>

theorem advertisement_roundtrip:
  assumes "Validate_advertisement v = Inr ()" and "b64_encode rnd \<noteq> ''''"
  shows "from_entry (text_records v) (adv_Port v) (a # as) = Some (v\<lparr>adv_Address := a\<rparr>) \<and>
    from_broadcast nonce a (respond v (Some (broadcast_query rnd))) =
      (if nonce = b64_encode rnd then Some (v\<lparr>adv_Address := a\<rparr>) else None) \<and>
    discovered [v\<lparr>adv_Address := a\<rparr>] Map.empty = [adv_ShortDeviceID v \<mapsto> v\<lparr>adv_Address := a\<rparr>]"
proof -
  have cut: "cut_at CHR ''='' (''id='' @ x) = Some (''id'', x)" "cut_at CHR ''='' (''sv='' @ x) = Some (''sv'', x)"
    "cut_at CHR ''='' (''pv='' @ x) = Some (''pv'', x)" "cut_at CHR ''='' (''port='' @ x) = Some (''port'', x)"
    "cut_at CHR ''='' (''challenge='' @ x) = Some (''challenge'', x)" for x
    by simp_all
  have literal: "\<lparr>adv_ShortDeviceID = adv_ShortDeviceID v, adv_ServiceVersion = adv_ServiceVersion v, adv_Protocol = adv_Protocol v,
      adv_Port = adv_Port v, adv_Challenge = adv_Challenge v, adv_Address = ''''\<rparr> = v\<lparr>adv_Address := ''''\<rparr>" by simp
  have "advertisementFromText (text_records v) = (v\<lparr>adv_Address := ''''\<rparr>, Validate_advertisement (v\<lparr>adv_Address := ''''\<rparr>))"
    using Atoi_Itoa [OF Validate_advertisement_port [OF assms(1)]]
    by (simp add: advertisementFromText_def text_records_def cut record_value_def literal Let_def
        del: cut_at.simps append_Cons Validate_advertisement_address)
  then have "from_entry (text_records v) (adv_Port v) (a # as) = Some (v\<lparr>adv_Address := a\<rparr>)"
    using assms(1) by (simp add: from_entry_def)
  then show ?thesis
    using assms by (simp add: from_broadcast_def respond_def broadcast_query_def)
qed

lemma NewAdvertisement_valid: "NewAdvertisement rnd i sv port = Inr v \<Longrightarrow> Validate_advertisement v = Inr ()"
  by (auto simp: NewAdvertisement_def Let_def split: option.splits)

section \<open>Peers are pinned\<close>

text \<open>The fingerprint that a directory holds for a device is the digest of the certificate.\<close>

definition pinned :: "X509 \<Rightarrow> TrustDirectory \<Rightarrow> string \<Rightarrow> string \<Rightarrow> bool" where
  "pinned x trust deviceID raw \<longleftrightarrow> (\<exists>fp. tr_Fingerprint trust deviceID = Some fp \<and> hex_decode fp = Some (x_sha256 x raw))"

lemma fingerprint_pinned: "fingerprint_matches x trust d raw \<Longrightarrow> pinned x trust d raw"
  by (auto simp: fingerprint_matches_def pinned_def split: option.splits)

lemma verifyPeer_pinned:
  assumes "verifyPeer x (Some trust) d now [raw] = Inr ()"
  shows "\<exists>c deviceID. x_parse x raw = Some c \<and> x_signed x c \<and> crt_NotBefore c \<le> now \<and> now \<le> crt_NotAfter c \<and>
    crt_CommonName c = ''nexdrop:'' @ deviceID \<and> (d \<noteq> '''' \<longrightarrow> deviceID = d) \<and> pinned x trust deviceID raw"
proof -
  obtain c where c: "x_parse x raw = Some c" "x_signed x c" "crt_NotBefore c \<le> now" "now \<le> crt_NotAfter c"
      "TrimPrefix (crt_CommonName c) ''nexdrop:'' \<noteq> crt_CommonName c"
      "d \<noteq> '''' \<longrightarrow> TrimPrefix (crt_CommonName c) ''nexdrop:'' = d"
      "fingerprint_matches x trust (TrimPrefix (crt_CommonName c) ''nexdrop:'') raw"
    using assms by (auto simp: verifyPeer_def Let_def not_less split: option.splits if_splits)
  then have "crt_CommonName c = ''nexdrop:'' @ TrimPrefix (crt_CommonName c) ''nexdrop:''"
    by (auto simp: TrimPrefix_def HasPrefix_iff split: if_splits)
  then show ?thesis using c fingerprint_pinned by blast
qed

text \<open>A generated identity is accepted, until it expires, by every device that has stored its fingerprint.\<close>

lemma generated_identity_accepted:
  assumes "GenerateIdentity x d created = Inr i" and "tr_Fingerprint trust d = Some (id_Fingerprint i)"
    and "\<And>n a b ds der. x_create x n a b ds = Some der \<Longrightarrow>
      x_parse x der = Some \<lparr>crt_Raw = der, crt_CommonName = n, crt_NotBefore = a, crt_NotAfter = b, crt_DNSNames = ds\<rparr>"
    and "\<And>c. x_signed x c" and "\<And>m. length (x_sha256 x m) = 32" and "created - minute \<le> now" and "now \<le> x_years x 5 created"
    and "e = '''' \<or> e = d"
  shows "verifyPeer x (Some trust) e now [id_Certificate i] = Inr ()"
proof -
  obtain der where der: "x_create x (''nexdrop:'' @ d) (created - minute) (x_years x 5 created) [''nexdrop-'' @ d @ ''.local''] = Some der"
    and i: "id_Certificate i = der" "id_Fingerprint i = hex_encode (x_sha256 x der)"
    using assms(1) by (auto simp: GenerateIdentity_def split: if_splits option.splits)
  show ?thesis
    using assms(2,4-8) assms(3) [OF der] i by (auto simp: verifyPeer_def fingerprint_matches_def TrimPrefix_def Let_def)
qed

lemma client_request_cases:
  assumes "client_request net identity trust target meth path body headers s = (s', res)"
  shows "(s' = s \<and> (\<exists>e. res = Inl e)) \<or> (\<exists>server peer ptrust config r.
      Validate_advertisement target = Inr () \<and> net_server net = Some (server, peer, ptrust) \<and>
      clientTLSConfig (net_x509 net) identity trust (adv_ShortDeviceID target) = Inr config \<and>
      handshake net identity trust (adv_ShortDeviceID target) (peer, ptrust) config \<and>
      lan_routes server \<lparr>lq_Method = meth, lq_Path = path,
        lq_Header = record_value (headers(''X-NexDrop-Protocol'' \<mapsto> adv_Protocol target, ''X-NexDrop-Challenge'' \<mapsto> adv_Challenge target,
           ''X-NexDrop-Capabilities'' \<mapsto> join_with '','' SupportedCapabilities)), lq_Body = body, lq_complete = True\<rparr> s = (s', r) \<and>
      res = (if ls_Status r < 200 \<or> 300 \<le> ls_Status r
             then Inl (ErrRefused (net_decode_error net (take 4096 (net_encode net (ls_Body r))))) else Inr (ls_Body r)))"
  using assms unfolding client_request_def Let_def
  by (simp split: if_splits sum.splits option.splits prod.splits) (auto split: if_splits)

text \<open>
  C35. Chunks go to the paired device only: a request of a client fails, and leaves the store of the
  peer as it is, unless the certificate of the peer names the advertised device and is the one pinned for it, the peer has
  pinned the client's certificate for the device that it names, both certificates carry a valid signature and are
  valid at the time, and the advertised challenge, which is not empty, is the one that the server holds.
\<close>

theorem lan_peers_pinned:
  assumes "client_request net identity trust target meth path body headers s = (s', res)" and "s' \<noteq> s \<or> (\<exists>b. res = Inr b)"
  shows "\<exists>server peer ptrust. net_server net = Some (server, peer, ptrust) \<and>
    (\<exists>c. x_parse (net_x509 net) (id_Certificate peer) = Some c \<and> x_signed (net_x509 net) c \<and>
      crt_CommonName c = ''nexdrop:'' @ adv_ShortDeviceID target \<and>
      pinned (net_x509 net) trust (adv_ShortDeviceID target) (id_Certificate peer) \<and>
      crt_NotBefore c \<le> net_now net \<and> net_now net \<le> crt_NotAfter c) \<and>
    (\<exists>c d. x_parse (net_x509 net) (id_Certificate identity) = Some c \<and> x_signed (net_x509 net) c \<and>
      crt_CommonName c = ''nexdrop:'' @ d \<and> pinned (net_x509 net) ptrust d (id_Certificate identity) \<and>
      crt_NotBefore c \<le> net_now net \<and> net_now net \<le> crt_NotAfter c) \<and>
    srv_challenge server = adv_Challenge target \<and> adv_Challenge target \<noteq> '''' \<and> SupportedProtocol (adv_Protocol target)"
proof -
  obtain server peer ptrust config r where valid: "Validate_advertisement target = Inr ()" and net: "net_server net = Some (server, peer, ptrust)"
    and config: "clientTLSConfig (net_x509 net) identity trust (adv_ShortDeviceID target) = Inr config"
    and shake: "handshake net identity trust (adv_ShortDeviceID target) (peer, ptrust) config"
    and routes: "lan_routes server \<lparr>lq_Method = meth, lq_Path = path,
        lq_Header = record_value (headers(''X-NexDrop-Protocol'' \<mapsto> adv_Protocol target, ''X-NexDrop-Challenge'' \<mapsto> adv_Challenge target,
           ''X-NexDrop-Capabilities'' \<mapsto> join_with '','' SupportedCapabilities)), lq_Body = body, lq_complete = True\<rparr> s = (s', r)"
    and res: "res = (if ls_Status r < 200 \<or> 300 \<le> ls_Status r
             then Inl (ErrRefused (net_decode_error net (take 4096 (net_encode net (ls_Body r))))) else Inr (ls_Body r))"
    using client_request_cases [OF assms(1)] assms(2) by blast
  have cert: "tls_Certificate config = id_Certificate identity"
    using config by (auto simp: clientTLSConfig_def split: option.splits if_splits)
  have id: "adv_ShortDeviceID target \<noteq> ''''" using valid by (auto simp: Validate_advertisement_def split: if_splits)
  have client_side: "verifyPeer (net_x509 net) (Some trust) (adv_ShortDeviceID target) (net_now net) [id_Certificate peer] = Inr ()"
    and peer_side: "verifyPeer (net_x509 net) (Some ptrust) '''' (net_now net) [id_Certificate identity] = Inr ()"
    using shake cert by (simp_all add: handshake_def)
  have "\<exists>c. x_parse (net_x509 net) (id_Certificate peer) = Some c \<and> x_signed (net_x509 net) c \<and>
      crt_CommonName c = ''nexdrop:'' @ adv_ShortDeviceID target \<and>
      pinned (net_x509 net) trust (adv_ShortDeviceID target) (id_Certificate peer) \<and>
      crt_NotBefore c \<le> net_now net \<and> net_now net \<le> crt_NotAfter c"
    using verifyPeer_pinned [OF client_side] id by blast
  moreover have "SupportedProtocol (adv_Protocol target) \<and> adv_Challenge target \<noteq> '''' \<and> srv_challenge server = adv_Challenge target"
    using routes res assms(2) by (auto simp: lan_routes_def record_value_def writeLANError_def split: if_splits)
  ultimately show ?thesis using net verifyPeer_pinned [OF peer_side] by blast
qed

section \<open>Nothing but whole chunks reaches the store\<close>

lemma lan_putChunk_cases:
  assumes "lan_putChunk server t f ix r s = (s', resp)"
  shows "(s' = s \<and> ls_Status resp \<in> {400, 413, 422}) \<or> (\<exists>i. pathToken t \<and> pathToken f \<and> 0 \<le> i \<and> int (length (lq_Body r)) \<le> srv_maxChunkSize server \<and>
    decodeHash (lq_Header r ''X-Chunk-SHA256'') = Inr (srv_sha256 server (lq_Body r)) \<and>
    cs_PutChunk (srv_store server) t f i (lq_Body r) (srv_sha256 server (lq_Body r)) s = (s', ls_Status resp = 200))"
proof (cases "int (length (take (nat (srv_maxChunkSize server + 1)) (lq_Body r))) \<le> srv_maxChunkSize server")
  case True
  then have short: "int (length (lq_Body r)) \<le> srv_maxChunkSize server" by (auto simp: min_def split: if_splits)
  then have all: "take (nat (srv_maxChunkSize server + 1)) (lq_Body r) = lq_Body r" by simp
  show ?thesis
    using assms short
    by (auto simp: lan_putChunk_def all pathIDs_def writeLANError_def writeLANJSON_def Let_def
        split: prod.splits bool.splits sum.splits if_splits)
next
  case False
  then show ?thesis
    using assms by (auto simp: lan_putChunk_def writeLANError_def Let_def simp del: length_take split: prod.splits bool.splits sum.splits if_splits)
qed

lemma lan_complete_cases:
  assumes "lan_complete server t f r s = (s', resp)"
  shows "(s' = s \<and> ls_Status resp = 400) \<or> (\<exists>n d. pathToken t \<and> pathToken f \<and> 0 \<le> n \<and> length d = 32 \<and>
    cs_CompleteFile (srv_store server) t f n d s = (s', ls_Status resp = 200))"
  using assms
  by (auto simp: lan_complete_def pathIDs_def decodeHash_def writeLANError_def writeLANJSON_def
      split: prod.splits bool.splits sum.splits if_splits option.splits)

lemma lan_mux_cases:
  assumes "lan_mux server r s = (s', resp)"
  shows "(s' = s \<and> (ls_Status resp = 404 \<or> ls_Status resp = 405)) \<or> (s' = s \<and> lq_Method r \<in> {''GET'', ''HEAD''}) \<or>
    (\<exists>t f ix. lan_putChunk server t f ix r s = (s', resp)) \<or> (\<exists>t f. lan_complete server t f r s = (s', resp))"
  using assms unfolding lan_mux_def Let_def
  by (simp split: list.splits if_splits) auto

text \<open>
  C36. Whatever a peer sends, only whole chunks reach the store: a request changes nothing, or it speaks a
  supported protocol, knows the challenge, and is one call of the store for proper identifiers: a chunk of at most the
  maximal size, the whole body, with the digest that was announced and that is the digest of its
  bytes, or the completion of a file; a chunk is confirmed exactly when the store took it.
\<close>

theorem lan_chunks_intact:
  assumes "lan_routes server r s = (s', resp)" and "s' \<noteq> s \<or> ls_Status resp = 200 \<and> lq_Method r \<notin> {''GET'', ''HEAD''}"
  shows "SupportedProtocol (lq_Header r ''X-NexDrop-Protocol'') \<and> lq_Header r ''X-NexDrop-Challenge'' = srv_challenge server \<and>
    (\<exists>t f. pathToken t \<and> pathToken f \<and>
      ((\<exists>i. 0 \<le> i \<and> int (length (lq_Body r)) \<le> srv_maxChunkSize server \<and>
          decodeHash (lq_Header r ''X-Chunk-SHA256'') = Inr (srv_sha256 server (lq_Body r)) \<and>
          cs_PutChunk (srv_store server) t f i (lq_Body r) (srv_sha256 server (lq_Body r)) s = (s', ls_Status resp = 200)) \<or>
       (\<exists>n d. 0 \<le> n \<and> length d = 32 \<and> cs_CompleteFile (srv_store server) t f n d s = (s', ls_Status resp = 200))))"
proof -
  have header: "SupportedProtocol (lq_Header r ''X-NexDrop-Protocol'')" "lq_Header r ''X-NexDrop-Challenge'' = srv_challenge server"
    and mux: "lan_mux server r s = (s', resp)"
    using assms by (auto simp: lan_routes_def writeLANError_def split: if_splits)
  have "(\<exists>t f ix. lan_putChunk server t f ix r s = (s', resp)) \<or> (\<exists>t f. lan_complete server t f r s = (s', resp))"
    using lan_mux_cases [OF mux] assms(2) by auto
  then consider (chunk) t f ix where "lan_putChunk server t f ix r s = (s', resp)" | (whole) t f where "lan_complete server t f r s = (s', resp)"
    by blast
  then show ?thesis
  proof cases
    case chunk
    have "\<not> (s' = s \<and> ls_Status resp \<in> {400, 413, 422})" using assms(2) by auto
    then show ?thesis using lan_putChunk_cases [OF chunk] header by blast
  next
    case whole
    have "\<not> (s' = s \<and> ls_Status resp = 400)" using assms(2) by auto
    then show ?thesis using lan_complete_cases [OF whole] header by blast
  qed
qed

section \<open>Client and server fit together\<close>

lemma token_free: "pathToken t \<Longrightarrow> CHR ''/'' \<notin> set t \<and> CHR ''%'' \<notin> set t"
  by (auto simp: pathToken_def lan_identifier_def list_all_iff lan_char_def byte_in_def code_def)

lemma path_splits:
  assumes "pathToken t" and "pathToken f"
  shows "split_on CHR ''/'' (filePath t f) = ['''', ''v1'', ''transfers'', t, ''files'', f]"
    and "split_on CHR ''/'' (filePath t f @ ''/complete'') = ['''', ''v1'', ''transfers'', t, ''files'', f, ''complete'']"
    and "split_on CHR ''/'' (filePath t f @ ''/chunks/'' @ Itoa i) = ['''', ''v1'', ''transfers'', t, ''files'', f, ''chunks'', Itoa i]"
proof -
  have "CHR ''/'' \<notin> set (Itoa i)" by (rule Itoa_free) (simp_all add: byte_in_def code_def)
  note free = token_free [OF assms(1)] token_free [OF assms(2)] this
  have join: "filePath t f = join_with ''/'' ['''', ''v1'', ''transfers'', t, ''files'', f]"
    "filePath t f @ ''/complete'' = join_with ''/'' ['''', ''v1'', ''transfers'', t, ''files'', f, ''complete'']"
    "filePath t f @ ''/chunks/'' @ Itoa i = join_with ''/'' ['''', ''v1'', ''transfers'', t, ''files'', f, ''chunks'', Itoa i]"
    by (simp_all add: filePath_def)
  show "split_on CHR ''/'' (filePath t f) = ['''', ''v1'', ''transfers'', t, ''files'', f]"
    unfolding join(1) using free by (intro split_join) simp_all
  show "split_on CHR ''/'' (filePath t f @ ''/complete'') = ['''', ''v1'', ''transfers'', t, ''files'', f, ''complete'']"
    unfolding join(2) using free by (intro split_join) simp_all
  show "split_on CHR ''/'' (filePath t f @ ''/chunks/'' @ Itoa i) = ['''', ''v1'', ''transfers'', t, ''files'', f, ''chunks'', Itoa i]"
    unfolding join(3) using free by (intro split_join) simp_all
qed

text \<open>What a server of this version negotiates with a client of this version.\<close>

definition both_capabilities :: "string list" where
  "both_capabilities = MutualCapabilities [SupportedCapabilities, split_on CHR '','' (join_with '','' SupportedCapabilities)]"

lemma capabilities_survive: "''resumable_chunks'' \<in> set both_capabilities"
  by code_simp

text \<open>A target that a client can talk to: valid, trusted by both sides, and with the live challenge.\<close>

definition reachable :: "'s LanNetwork \<Rightarrow> LanIdentity \<Rightarrow> TrustDirectory \<Rightarrow> Advertisement \<Rightarrow> 's LanServer \<Rightarrow> bool" where
  "reachable net identity trust target server \<longleftrightarrow>
     Validate_advertisement target = Inr () \<and> net_is_ip net (adv_Address target) \<and> SupportedProtocol (adv_Protocol target) \<and>
     srv_challenge server = adv_Challenge target \<and>
     (case (net_server net, clientTLSConfig (net_x509 net) identity trust (adv_ShortDeviceID target)) of
        (Some (server', peer), Inr config) \<Rightarrow> server' = server \<and> handshake net identity trust (adv_ShortDeviceID target) peer config
      | _ \<Rightarrow> False)"

definition answer :: "'s LanNetwork \<Rightarrow> 's \<times> LanResponse \<Rightarrow> 's \<times> (lan_error + LanBody)" where
  "answer net sr = (fst sr, if ls_Status (snd sr) < 200 \<or> 300 \<le> ls_Status (snd sr)
     then Inl (ErrRefused (net_decode_error net (take 4096 (net_encode net (ls_Body (snd sr)))))) else Inr (ls_Body (snd sr)))"

definition sent_request :: "Advertisement \<Rightarrow> string \<Rightarrow> string \<Rightarrow> string \<Rightarrow> (string \<rightharpoonup> string) \<Rightarrow> LanRequest" where
  "sent_request target meth path body headers = \<lparr>lq_Method = meth, lq_Path = path,
     lq_Header = record_value (headers(''X-NexDrop-Protocol'' \<mapsto> adv_Protocol target, ''X-NexDrop-Challenge'' \<mapsto> adv_Challenge target,
       ''X-NexDrop-Capabilities'' \<mapsto> join_with '','' SupportedCapabilities)), lq_Body = body, lq_complete = True\<rparr>"

lemma client_request_reaches:
  assumes "reachable net identity trust target server"
  shows "client_request net identity trust target meth path body headers s =
    answer net (lan_mux server (sent_request target meth path body headers) s)"
proof -
  obtain peer config where parts: "net_server net = Some (server, peer)"
    "clientTLSConfig (net_x509 net) identity trust (adv_ShortDeviceID target) = Inr config"
    "handshake net identity trust (adv_ShortDeviceID target) peer config"
    and valid: "Validate_advertisement target = Inr ()" "net_is_ip net (adv_Address target)" "SupportedProtocol (adv_Protocol target)"
      "srv_challenge server = adv_Challenge target"
    using assms by (cases "net_server net"; cases "clientTLSConfig (net_x509 net) identity trust (adv_ShortDeviceID target)") (auto simp: reachable_def)
  have "adv_Challenge target \<noteq> ''''"
  proof
    assume "adv_Challenge target = ''''"
    moreover have "b64_decode '''' = Some ''''" using b64_decode_encode [of "''''"] by (simp add: b64_encode_def)
    ultimately show False using valid(1) by (simp add: Validate_advertisement_def split: if_splits)
  qed
  then show ?thesis
    using parts valid
    by (simp add: client_request_def lan_routes_def answer_def sent_request_def record_value_def Let_def split: prod.split)
qed

text \<open>
  C37. Client and server agree on the wire, as long as the answer with the completed chunks fits the mebibyte that
  the client reads: to a reachable target, sending a chunk of at most the maximal size is
  exactly one call of the peer's store with these identifiers, this index, these bytes and their digest,
  completing a file is one call with its number of chunks and its digest, and asking for completed chunks returns the
  list of the store; each succeeds exactly when the store does.
\<close>

theorem lan_client_reaches_store:
  assumes "reachable net identity trust target server" and "pathToken t" and "pathToken f" and "in64 i" and "0 \<le> i"
    and "\<And>w. CHR ''%'' \<notin> set w \<Longrightarrow> srv_unescape server w = w" and "length (srv_sha256 server data) = 32"
    and "int (length data) \<le> srv_maxChunkSize server"
    and "srv_decode_complete server (take 4096 (net_encode_complete net i (hex_encode digest))) = Some (i, hex_encode digest)" and "length digest = 32"
    and "\<And>cs. cs_CompletedChunks (srv_store server) t f s = Some cs \<Longrightarrow>
      net_decode_status net (take 1048576 (net_encode net (LanStatus cs ProtocolVersion_lan both_capabilities CurrentLimits))) = Some (cs, both_capabilities)"
  shows "(case (client_PutChunk net (srv_sha256 server) identity trust target t f i data s,
        cs_PutChunk (srv_store server) t f i data (srv_sha256 server data) s) of
      ((s', res), (s'', ok)) \<Rightarrow> s' = s'' \<and> (res = Inr () \<longleftrightarrow> ok)) \<and>
    (case (client_Complete net identity trust target t f i digest s, cs_CompleteFile (srv_store server) t f i digest s) of
      ((s', res), (s'', ok)) \<Rightarrow> s' = s'' \<and> (res = Inr () \<longleftrightarrow> ok)) \<and>
    (case client_CompletedChunks net identity trust target t f s of (s', res) \<Rightarrow>
      s' = s \<and> (case cs_CompletedChunks (srv_store server) t f s of None \<Rightarrow> \<exists>e. res = Inl e | Some cs \<Rightarrow> res = Inr cs))"
proof -
  have "CHR ''%'' \<notin> set (Itoa i)" by (rule Itoa_free) (simp_all add: byte_in_def code_def)
  then have plain: "srv_unescape server t = t" "srv_unescape server f = f" "srv_unescape server (Itoa i) = Itoa i"
    using assms(6) token_free [OF assms(2)] token_free [OF assms(3)] by simp_all
  have ids: "pathIDs t f" using assms(2,3) by (simp add: pathIDs_def)
  have whole: "take (nat (srv_maxChunkSize server + 1)) data = data" using assms(8) by simp
  note paths = path_splits [OF assms(2,3)]
  have put: "lan_mux server (sent_request target ''PUT'' (filePath t f @ ''/chunks/'' @ Itoa i) data
        [''X-Chunk-SHA256'' \<mapsto> hex_encode (srv_sha256 server data), ''Content-Type'' \<mapsto> ct]) s =
      (case cs_PutChunk (srv_store server) t f i data (srv_sha256 server data) s of
         (s', False) \<Rightarrow> (s', writeLANError 500 ''LAN_STORAGE_FAILED'')
       | (s', True) \<Rightarrow> (s', writeLANJSON 200 (LanChunk i (hex_encode (srv_sha256 server data)))))" for ct
    using plain ids whole assms(4,5,7,8) paths(3)
    by (simp add: lan_mux_def sent_request_def lan_putChunk_def record_value_def decodeHash_def Let_def)
  have complete: "lan_mux server (sent_request target ''POST'' (filePath t f @ ''/complete'') (net_encode_complete net i (hex_encode digest)) h) s =
      (case cs_CompleteFile (srv_store server) t f i digest s of
         (s', False) \<Rightarrow> (s', writeLANError 409 ''FILE_INCOMPLETE'')
       | (s', True) \<Rightarrow> (s', writeLANJSON 200 (LanDone ''DELIVERED'')))" for h
    using plain ids assms(5,9,10) paths(2)
    by (simp add: lan_mux_def sent_request_def lan_complete_def decodeHash_def Let_def)
  have status: "lan_mux server (sent_request target ''GET'' (filePath t f) '''' h) s =
      (s, case cs_CompletedChunks (srv_store server) t f s of None \<Rightarrow> writeLANError 500 ''LAN_STORAGE_FAILED''
        | Some cs \<Rightarrow> writeLANJSON 200 (LanStatus cs ProtocolVersion_lan both_capabilities CurrentLimits))" for h
    using plain ids capabilities_survive [unfolded both_capabilities_def]
    by (simp add: lan_mux_def paths(1) sent_request_def lan_status_def record_value_def both_capabilities_def Let_def split: option.split)
  have ok: "(\<not> pathToken t \<or> \<not> pathToken f \<or> i < 0) = False" "(\<not> pathToken t \<or> \<not> pathToken f) = False"
    using assms(2,3,5) by simp_all
  note reach = client_request_reaches [OF assms(1)]
  have "case (client_PutChunk net (srv_sha256 server) identity trust target t f i data s,
        cs_PutChunk (srv_store server) t f i data (srv_sha256 server data) s) of
      ((s', res), (s'', ok)) \<Rightarrow> s' = s'' \<and> (res = Inr () \<longleftrightarrow> ok)"
    unfolding client_PutChunk_def ok if_False reach put
    by (simp add: answer_def writeLANError_def writeLANJSON_def split: prod.split bool.split)
  moreover have "case (client_Complete net identity trust target t f i digest s, cs_CompleteFile (srv_store server) t f i digest s) of
      ((s', res), (s'', ok)) \<Rightarrow> s' = s'' \<and> (res = Inr () \<longleftrightarrow> ok)"
    unfolding client_Complete_def ok if_False reach complete
    by (simp add: answer_def writeLANError_def writeLANJSON_def split: prod.split bool.split)
  moreover have "case client_CompletedChunks net identity trust target t f s of (s', res) \<Rightarrow>
      s' = s \<and> (case cs_CompletedChunks (srv_store server) t f s of None \<Rightarrow> \<exists>e. res = Inl e | Some cs \<Rightarrow> res = Inr cs)"
    unfolding client_CompletedChunks_def ok if_False reach status
    using capabilities_survive assms(11)
    by (simp add: answer_def writeLANError_def writeLANJSON_def split: prod.split option.split)
  ultimately show ?thesis by blast
qed

section \<open>Witnesses\<close>

definition demo_identity :: "string \<Rightarrow> string \<Rightarrow> LanIdentity" where
  "demo_identity d raw = \<lparr>id_ShortDeviceID = d, id_Certificate = raw, id_Fingerprint = hex_encode (take 32 (raw @ replicate 32 CHR ''x'')),
     id_CertificatePEM = raw\<rparr>"

definition demo_x509 :: X509 where
  "demo_x509 = \<lparr>x_parse = (\<lambda>raw. Some \<lparr>crt_Raw = raw, crt_CommonName = ''nexdrop:'' @ raw, crt_NotBefore = 0, crt_NotAfter = 9, crt_DNSNames = []\<rparr>),
     x_signed = (\<lambda>c. True), x_pem_encode = (\<lambda>s. s), x_pem_decode = (\<lambda>s. Some (''CERTIFICATE'', s, '''')),
     x_create = (\<lambda>n a b ds. None), x_sha256 = (\<lambda>s. take 32 (s @ replicate 32 CHR ''x'')), x_years = (\<lambda>n t. t)\<rparr>"

definition demo_trust :: TrustDirectory where
  "demo_trust = StaticCertificateTrust [''device-a'' \<mapsto> demo_identity ''device-a'' ''device-a'', ''device-b'' \<mapsto> demo_identity ''device-b'' ''device-b'']"

definition demo_target :: Advertisement where
  "demo_target = \<lparr>adv_ShortDeviceID = ''device-b'', adv_ServiceVersion = ''1'', adv_Protocol = ''1.1'', adv_Port = 53317,
     adv_Challenge = b64_encode (replicate 16 CHR ''c''), adv_Address = ''ip''\<rparr>"

definition demo_server :: "(int \<times> string) list LanServer" where
  "demo_server = \<lparr>srv_store = \<lparr>cs_CompletedChunks = (\<lambda>t f s. Some (map fst s)), cs_PutChunk = (\<lambda>t f i data d s. (s @ [(i, data)], True)),
       cs_CompleteFile = (\<lambda>t f n d s. (s, int (length s) = n))\<rparr>, srv_challenge = adv_Challenge demo_target,
     srv_maxChunkSize = 100, srv_sha256 = x_sha256 demo_x509, srv_unescape = (\<lambda>w. w), srv_decode_complete = (\<lambda>s. Some (7, hex_encode (replicate 32 CHR ''d'')))\<rparr>"

definition demo_net :: "(int \<times> string) list LanNetwork" where
  "demo_net = \<lparr>net_x509 = demo_x509, net_is_ip = (\<lambda>a. a = ''ip''), net_chain_ok = (\<lambda>c raw. crt_Raw (tls_Root c) = raw),
     net_encode = (\<lambda>b. case b of LanStatus cs p caps l \<Rightarrow> map (\<lambda>i. char_of (nat i)) cs | _ \<Rightarrow> ''''),
     net_decode_status = (\<lambda>s. Some (map (\<lambda>c. int (code c)) s, both_capabilities)), net_decode_error = (\<lambda>s. s), net_encode_complete = (\<lambda>n h. h),
     net_server = Some (demo_server, demo_identity ''device-b'' ''device-b'', demo_trust), net_now = 5\<rparr>"

lemma demo_valid: "Validate_advertisement demo_target = Inr ()"
  by (simp add: Validate_advertisement_def demo_target_def lan_identifier_def lan_char_def byte_in_def code_def)

lemma demo_fingerprint: "d = ''device-a'' \<or> d = ''device-b'' \<Longrightarrow> fingerprint_matches demo_x509 demo_trust d d"
  by (auto simp: fingerprint_matches_def demo_trust_def StaticCertificateTrust_def demo_identity_def demo_x509_def)

lemma demo_peer: "d = ''device-a'' \<or> d = ''device-b'' \<Longrightarrow> e = '''' \<or> e = d \<Longrightarrow> verifyPeer demo_x509 (Some demo_trust) e 5 [d] = Inr ()"
  using demo_fingerprint [of d]
  by (auto simp: verifyPeer_def demo_x509_def TrimPrefix_def Let_def)

lemma demo_config:
  "clientTLSConfig demo_x509 (demo_identity ''device-a'' ''device-a'') demo_trust ''device-b'' =
     Inr \<lparr>tls_Certificate = ''device-a'', tls_Root = the (x_parse demo_x509 ''device-b''), tls_ServerName = ''nexdrop-device-b.local''\<rparr>"
  using demo_fingerprint [of "''device-b''"]
  by (simp add: clientTLSConfig_def demo_trust_def StaticCertificateTrust_def) (simp add: demo_x509_def demo_identity_def)

lemma demo_reachable: "reachable demo_net (demo_identity ''device-a'' ''device-a'') demo_trust demo_target demo_server"
  using demo_config demo_peer [of "''device-a''" "''''"] demo_peer [of "''device-b''" "''device-b''"] demo_valid
  by (simp add: reachable_def demo_net_def demo_target_def demo_server_def SupportedProtocol_def PreviousProtocol_def handshake_def
      demo_identity_def) (simp add: demo_x509_def)

theorem advertisement_roundtrip_witness:
  "from_entry (text_records demo_target) 53317 [''10.0.0.7''] = Some (demo_target\<lparr>adv_Address := ''10.0.0.7''\<rparr>)"
  using advertisement_roundtrip [OF demo_valid, of "replicate 16 CHR ''n''" "''10.0.0.7''" "[]"] b64_encode_inject [of "replicate 16 CHR ''n''" "''''"]
  by (simp add: demo_target_def b64_encode_def [of "''''"])

definition demo_data :: string where "demo_data = ''abc''"

lemma demo_tokens: "pathToken ''transfer''" "pathToken ''file-1''"
  by (simp_all add: pathToken_def lan_identifier_def lan_char_def byte_in_def code_def)

lemma demo_digest: "length (x_sha256 demo_x509 m) = 32"
  by (simp add: demo_x509_def)

lemma demo_put:
  "lan_mux demo_server (sent_request demo_target ''PUT'' (filePath ''transfer'' ''file-1'' @ ''/chunks/'' @ Itoa 7) demo_data
     [''X-Chunk-SHA256'' \<mapsto> hex_encode (x_sha256 demo_x509 demo_data)]) [] =
   ([(7, demo_data)], writeLANJSON 200 (LanChunk 7 (hex_encode (x_sha256 demo_x509 demo_data))))"
  using path_splits(3) [OF demo_tokens, of 7] Atoi_Itoa [of 7] demo_digest [of demo_data]
  by (simp add: lan_mux_def sent_request_def lan_putChunk_def record_value_def decodeHash_def demo_server_def pathIDs_def demo_tokens
      demo_data_def in64_def Let_def)

theorem lan_peers_pinned_witness:
  "pinned demo_x509 demo_trust ''device-b'' ''device-b'' \<and>
   fst (client_request demo_net (demo_identity ''device-a'' ''device-a'') demo_trust demo_target ''PUT''
     (filePath ''transfer'' ''file-1'' @ ''/chunks/'' @ Itoa 7) demo_data [''X-Chunk-SHA256'' \<mapsto> hex_encode (x_sha256 demo_x509 demo_data)] []) =
     [(7, demo_data)]"
proof -
  obtain res where sent: "client_request demo_net (demo_identity ''device-a'' ''device-a'') demo_trust demo_target ''PUT''
      (filePath ''transfer'' ''file-1'' @ ''/chunks/'' @ Itoa 7) demo_data [''X-Chunk-SHA256'' \<mapsto> hex_encode (x_sha256 demo_x509 demo_data)] [] =
      ([(7, demo_data)], res)"
    unfolding client_request_reaches [OF demo_reachable] demo_put answer_def by simp
  have parts: "net_server demo_net = Some (demo_server, demo_identity ''device-b'' ''device-b'', demo_trust)"
      "net_x509 demo_net = demo_x509" "adv_ShortDeviceID demo_target = ''device-b''" "id_Certificate (demo_identity d raw) = raw" for d raw
    by (simp_all add: demo_net_def demo_target_def demo_identity_def)
  have "pinned demo_x509 demo_trust ''device-b'' ''device-b''"
    using lan_peers_pinned [OF sent] by (auto simp: parts)
  then show ?thesis unfolding sent by simp
qed

lemma demo_challenge: "adv_Challenge demo_target \<noteq> ''''"
  using b64_encode_inject [of "replicate 16 CHR ''c''" "''''"] by (simp add: demo_target_def b64_encode_def [of "''''"])

theorem lan_chunks_intact_witness:
  "lan_routes demo_server (sent_request demo_target ''PUT'' (filePath ''transfer'' ''file-1'' @ ''/chunks/'' @ Itoa 7) demo_data
     [''X-Chunk-SHA256'' \<mapsto> hex_encode (x_sha256 demo_x509 demo_data)]) [] =
     ([(7, demo_data)], writeLANJSON 200 (LanChunk 7 (hex_encode (x_sha256 demo_x509 demo_data)))) \<and>
   (\<exists>t f. pathToken t \<and> pathToken f)"
proof -
  let ?r = "sent_request demo_target ''PUT'' (filePath ''transfer'' ''file-1'' @ ''/chunks/'' @ Itoa 7) demo_data
     [''X-Chunk-SHA256'' \<mapsto> hex_encode (x_sha256 demo_x509 demo_data)]"
  have "SupportedProtocol (lq_Header ?r ''X-NexDrop-Protocol'')" "lq_Header ?r ''X-NexDrop-Challenge'' = srv_challenge demo_server"
    "lq_Header ?r ''X-NexDrop-Challenge'' \<noteq> ''''"
    using demo_challenge
    by (simp_all add: sent_request_def record_value_def demo_server_def SupportedProtocol_def PreviousProtocol_def)
       (simp add: demo_target_def)
  then have routed: "lan_routes demo_server ?r [] = ([(7, demo_data)], writeLANJSON 200 (LanChunk 7 (hex_encode (x_sha256 demo_x509 demo_data))))"
    unfolding lan_routes_def demo_put by simp
  show ?thesis using lan_chunks_intact [OF routed] routed by auto
qed

theorem lan_client_reaches_store_witness:
  "fst (client_PutChunk demo_net (x_sha256 demo_x509) (demo_identity ''device-a'' ''device-a'') demo_trust demo_target ''transfer'' ''file-1'' 7
     demo_data [(3, ''z'')]) = [(3, ''z''), (7, demo_data)] \<and>
   snd (client_CompletedChunks demo_net (demo_identity ''device-a'' ''device-a'') demo_trust demo_target ''transfer'' ''file-1'' [(3, ''z'')]) = Inr [3]"
proof -
  have sha: "x_sha256 demo_x509 = srv_sha256 demo_server" by (simp add: demo_server_def)
  show ?thesis
    unfolding sha
    using lan_client_reaches_store [OF demo_reachable demo_tokens, of 7 demo_data "replicate 32 CHR ''d''" "[(3, ''z'')]"] demo_digest [of demo_data]
    by (simp add: demo_server_def demo_net_def demo_data_def in64_def split: prod.splits)
qed

end
