(* ===== verification/NativeBridge.thy ===== *)
theory NativeBridge
  imports Encoding "HOL-Library.Word"
begin

unbundle bit_operations_syntax

text \<open>
  The native messaging host: \<open>internal/nativebridge\<close>. Frames of a browser extension with a length of 32
  bits, the validation of requests, and the client that forwards them to the desktop service. JSON and
  \<open>url.Parse\<close> are parameters, the service is a function from requests to answers.
\<close>

section \<open>Requests (bridge.go)\<close>

definition MaximumMessageSize :: nat where "MaximumMessageSize = 1048576"

datatype native_error = ErrInvalidMessage | ErrEOF | ErrUnexpectedEOF | ErrEncode | ErrRead

record NativeRequest =
  nr_ID :: string
  nr_Type :: string
  nr_Payload :: string

record NativeResponse =
  nx_ID :: string
  nx_OK :: bool
  nx_Error :: string
  nx_Status :: string

record SharePayload =
  sp_Kind :: string
  sp_Title :: string
  sp_URL :: string
  sp_Text :: string
  sp_TargetDeviceIDs :: "string list"
  sp_GroupID :: string

record ParsedURL =
  u_Scheme :: string
  u_User :: bool
  u_Host :: string
  u_Hostname :: string
  u_Port :: string
  u_Path :: string
  u_RawQuery :: string
  u_Fragment :: string

text \<open>
  \<open>nj_strict_share\<close> decodes the first value of a text as a payload without unknown fields; \<open>nj_share\<close> is \<open>json.Unmarshal\<close>.
\<close>

record NativeJSON =
  nj_strict_share :: "string \<Rightarrow> SharePayload option"
  nj_request :: "string \<Rightarrow> NativeRequest option"
  nj_encode_request :: "NativeRequest \<Rightarrow> string option"
  nj_response :: "string \<Rightarrow> NativeResponse option"
  nj_encode_response :: "NativeResponse \<Rightarrow> string option"
  nj_url :: "string \<Rightarrow> ParsedURL option"

definition validShare :: "(string \<Rightarrow> ParsedURL option) \<Rightarrow> SharePayload \<Rightarrow> bool" where
  "validShare parse_url payload =
     (if 1000 < length (sp_Title payload) \<or> 8192 < length (sp_URL payload) \<or> 100000 < length (sp_Text payload) \<or>
         100 < length (sp_TargetDeviceIDs payload) \<or> 100 < length (sp_GroupID payload)
      then False
      else if sp_Kind payload = ''PAGE'' \<or> sp_Kind payload = ''LINK'' \<or> sp_Kind payload = ''IMAGE''
      then (if sp_URL payload = '''' then False
            else case parse_url (sp_URL payload) of None \<Rightarrow> False
            | Some u \<Rightarrow> (u_Scheme u = ''http'' \<or> u_Scheme u = ''https'') \<and> u_Host u \<noteq> '''')
      else if sp_Kind payload = ''SELECTION'' then TrimSpace (sp_Text payload) \<noteq> ''''
      else False)"

definition ValidateRequest :: "NativeJSON \<Rightarrow> NativeRequest \<Rightarrow> bool" where
  "ValidateRequest j request =
     (if nr_ID request = '''' \<or> 100 < length (nr_ID request) then False
      else if nr_Type request = ''status'' then nr_Payload request = '''' \<or> nr_Payload request = ''null''
      else if nr_Type request = ''share''
      then (case nj_strict_share j (nr_Payload request) of None \<Rightarrow> False | Some payload \<Rightarrow> validShare (nj_url j) payload)
      else False)"

record NativeClient =
  nc_baseURL :: string
  nc_token :: string

definition NewClient :: "(string \<Rightarrow> ParsedURL option) \<Rightarrow> string \<Rightarrow> string \<Rightarrow> native_error + NativeClient" where
  "NewClient parse_url baseURL token =
     (case parse_url baseURL of
        None \<Rightarrow> Inl ErrInvalidMessage
      | Some u \<Rightarrow>
          if u_Scheme u \<noteq> ''http'' \<or> u_Hostname u \<noteq> ''127.0.0.1'' \<or> u_Port u = '''' \<or> u_Path u \<noteq> '''' \<or> u_RawQuery u \<noteq> '''' \<or>
             u_Fragment u \<noteq> '''' \<or> length token < 32
          then Inl ErrInvalidMessage
          else Inr \<lparr>nc_baseURL = baseURL, nc_token = token\<rparr>)"

text \<open>
  A call of the service: path, authorization and body go in; the new state of the service, and the status
  with the body that can be read (\<open>None\<close> when the call or the reading fails) come out.
\<close>

type_synonym 's desktop = "string \<Rightarrow> string \<Rightarrow> string \<Rightarrow> 's \<Rightarrow> 's \<times> (nat \<times> string option) option"

definition refused :: "NativeRequest \<Rightarrow> string \<Rightarrow> NativeResponse" where
  "refused request reason = \<lparr>nx_ID = nr_ID request, nx_OK = False, nx_Error = reason, nx_Status = ''''\<rparr>"

definition Client_Handle :: "NativeJSON \<Rightarrow> 's desktop \<Rightarrow> NativeClient \<Rightarrow> NativeRequest \<Rightarrow> 's \<Rightarrow> 's \<times> NativeResponse" where
  "Client_Handle j call client request s =
     (if \<not> ValidateRequest j request then (s, refused request ''INVALID_REQUEST'')
      else let path = (if nr_Type request = ''share'' then ''/v1/share'' else ''/v1/status'')
        in case nj_encode_request j request of
          None \<Rightarrow> (s, refused request ''INVALID_REQUEST'')
        | Some body \<Rightarrow>
            (case call path (''Bearer '' @ nc_token client) body s of
               (s', None) \<Rightarrow> (s', refused request ''DESKTOP_UNAVAILABLE'')
             | (s', Some (status, content)) \<Rightarrow>
                 if status \<noteq> 200 then (s', refused request ''DESKTOP_REJECTED'')
                 else (s', case content of
                     None \<Rightarrow> refused request ''DESKTOP_INVALID_RESPONSE''
                   | Some text \<Rightarrow>
                       if MaximumMessageSize < length text then refused request ''DESKTOP_INVALID_RESPONSE''
                       else case nj_response j text of
                         None \<Rightarrow> refused request ''DESKTOP_INVALID_RESPONSE''
                       | Some r \<Rightarrow> if nx_ID r \<noteq> nr_ID request then refused request ''DESKTOP_INVALID_RESPONSE'' else r)))"

section \<open>Frames (messaging.go)\<close>

text \<open>A word of 32 bits, the least significant byte first.\<close>

definition le32 :: "32 word \<Rightarrow> string" where
  "le32 w = [char_of (unat w), char_of (unat (drop_bit 8 w)), char_of (unat (drop_bit 16 w)), char_of (unat (drop_bit 24 w))]"

definition un_le32 :: "string \<Rightarrow> 32 word" where
  "un_le32 bs = of_nat (code (bs ! 0)) OR push_bit 8 (of_nat (code (bs ! 1))) OR push_bit 16 (of_nat (code (bs ! 2))) OR
     push_bit 24 (of_nat (code (bs ! 3)))"

text \<open>
  \<open>binary.Read\<close> returns the end of the file only when no byte is left, and so does \<open>io.ReadFull\<close> for
  the content.
\<close>

definition readFrame :: "string \<Rightarrow> (native_error + string) \<times> string" where
  "readFrame input =
     (if input = '''' then (Inl ErrEOF, '''')
      else if length input < 4 then (Inl ErrUnexpectedEOF, '''')
      else let n = unat (un_le32 input); rest = drop 4 input
        in if n = 0 \<or> MaximumMessageSize < n then (Inl ErrInvalidMessage, rest)
           else if rest = '''' then (Inl ErrEOF, '''')
           else if length rest < n then (Inl ErrUnexpectedEOF, '''')
           else (Inr (take n rest), drop n rest))"

definition writeFrame :: "NativeJSON \<Rightarrow> NativeResponse \<Rightarrow> native_error + string" where
  "writeFrame j v =
     (case nj_encode_response j v of
        None \<Rightarrow> Inl ErrEncode
      | Some text \<Rightarrow> if MaximumMessageSize < length text then Inl ErrInvalidMessage
          else Inr (le32 (of_nat (length text)) @ text))"

lemma readFrame_shorter: "readFrame input = (Inr c, rest) \<Longrightarrow> length rest < length input"
  by (auto simp: readFrame_def Let_def split: if_splits)

definition native_answer :: "NativeJSON \<Rightarrow> 's desktop \<Rightarrow> NativeClient \<Rightarrow> string \<Rightarrow> 's \<Rightarrow> 's \<times> NativeResponse" where
  "native_answer j call client content s =
     (case nj_request j content of
        None \<Rightarrow> (s, \<lparr>nx_ID = '''', nx_OK = False, nx_Error = ''INVALID_REQUEST'', nx_Status = ''''\<rparr>)
      | Some request \<Rightarrow> Client_Handle j call client request s)"

text \<open>The loop of \<open>Run\<close>: the state of the service, the output and the error it ends with.\<close>

function Run_native :: "NativeJSON \<Rightarrow> 's desktop \<Rightarrow> NativeClient \<Rightarrow> string \<Rightarrow> 's \<Rightarrow> 's \<times> string \<times> native_error option" where
  "Run_native j call client input s =
     (case readFrame input of
        (Inl e, _) \<Rightarrow> (s, '''', if e = ErrEOF then None else Some e)
      | (Inr content, rest) \<Rightarrow>
          (case native_answer j call client content s of
             (s', response) \<Rightarrow>
               (case writeFrame j response of
                  Inl e \<Rightarrow> (s', '''', Some e)
                | Inr out \<Rightarrow> (case Run_native j call client rest s' of (s'', outs, e) \<Rightarrow> (s'', out @ outs, e)))))"
  by pat_completeness auto
termination
  by (relation "measure (\<lambda>(j, call, client, input, s). length input)") (auto dest: readFrame_shorter [OF sym])

declare Run_native.simps [simp del]

section \<open>The configuration (config.go)\<close>

text \<open>
  The file of the configuration: environment variables and the home directory on one side, the
  contents of files on the other.
\<close>

definition config_path :: "bool \<Rightarrow> (string \<Rightarrow> string) \<Rightarrow> string option \<Rightarrow> (string list \<Rightarrow> string) \<Rightarrow> string option" where
  "config_path windows env home filepath_Join =
     (let path = env ''NEXDROP_BRIDGE_CONFIG''
      in if path \<noteq> '''' then Some path
         else map_option (\<lambda>root. filepath_Join [root, ''NexDrop'', ''bridge.json''])
           (if windows then Some (env ''LOCALAPPDATA'')
            else if env ''XDG_CONFIG_HOME'' \<noteq> '''' then Some (env ''XDG_CONFIG_HOME'')
            else map_option (\<lambda>h. filepath_Join [h, ''.config'']) home))"

definition LoadConfig ::
  "(string \<Rightarrow> ParsedURL option) \<Rightarrow> (string \<Rightarrow> (string \<times> string) option) \<Rightarrow> string option \<Rightarrow> (string \<Rightarrow> string option) \<Rightarrow>
     native_error + string \<times> string"
where
  "LoadConfig parse_url decode path files =
     (case path of
        None \<Rightarrow> Inl ErrRead
      | Some p \<Rightarrow>
          (case files p of
             None \<Rightarrow> Inl ErrRead
           | Some text \<Rightarrow>
               (case decode text of
                  None \<Rightarrow> Inl ErrInvalidMessage
                | Some (url, token) \<Rightarrow> bindE (NewClient parse_url url token) (\<lambda>_. Inr (url, token)))))"

section \<open>Frames come back\<close>

lemma byte_word: "(of_nat (code (char_of (unat (x :: 32 word)))) :: 32 word) = take_bit 8 x"
proof -
  have "code (char_of (unat x)) = take_bit 8 (unat x)" by (simp add: code_def take_bit_eq_mod)
  then show ?thesis by (simp add: unsigned_take_bit_eq [symmetric])
qed

lemma un_le32_le32 [simp]: "un_le32 (le32 w @ rest) = w"
proof (rule bit_word_eqI)
  fix n assume n: "n < LENGTH(32)"
  then consider "n < 8" | "8 \<le> n \<and> n < 16" | "16 \<le> n \<and> n < 24" | "24 \<le> n" by linarith
  then show "bit (un_le32 (le32 w @ rest)) n = bit w n"
    using n by cases (auto simp: un_le32_def le32_def byte_word bit_simps)
qed

lemma length_le32 [simp]: "length (le32 w) = 4"
  by (simp add: le32_def)

definition frame :: "string \<Rightarrow> string" where
  "frame text = le32 (of_nat (length text)) @ text"

lemma readFrame_frame:
  assumes "0 < length text" and "length text \<le> MaximumMessageSize"
  shows "readFrame (frame text @ rest) = (Inr text, rest)"
proof -
  have "length text < 2 ^ 32" using assms(2) by (simp add: MaximumMessageSize_def)
  then have "unat (of_nat (length text) :: 32 word) = length text" by (simp add: unat_of_nat)
  moreover have "frame text @ rest \<noteq> ''''" "\<not> length (frame text @ rest) < 4" "drop 4 (frame text @ rest) = text @ rest"
    by (simp_all add: frame_def) (simp add: le32_def)
  moreover have "un_le32 (frame text @ rest) = of_nat (length text)" by (simp add: frame_def)
  ultimately show ?thesis using assms by (auto simp: readFrame_def Let_def)
qed

section \<open>A session\<close>

primrec native_answers :: "NativeJSON \<Rightarrow> 's desktop \<Rightarrow> NativeClient \<Rightarrow> string list \<Rightarrow> 's \<Rightarrow> 's \<times> NativeResponse list" where
  "native_answers j call client [] s = (s, [])"
| "native_answers j call client (c # cs) s =
     (case native_answer j call client c s of (s', r) \<Rightarrow>
        (case native_answers j call client cs s' of (s'', rs) \<Rightarrow> (s'', r # rs)))"

lemma Client_Handle_ID: "Client_Handle j call client request s = (s', r) \<Longrightarrow> nx_ID r = nr_ID request"
  by (auto simp: Client_Handle_def refused_def Let_def split: if_splits option.splits prod.splits)

lemma Run_native_end: "Run_native j call client '''' s = (s, '''', None)"
  by (subst Run_native.simps) (simp add: readFrame_def)

lemma Run_native_frame:
  assumes "0 < length c" and "length c \<le> MaximumMessageSize" and "native_answer j call client c s = (s', r)"
    and "nj_encode_response j r = Some t" and "length t \<le> MaximumMessageSize"
  shows "Run_native j call client (frame c @ rest) s = (case Run_native j call client rest s' of (s'', outs, e) \<Rightarrow> (s'', frame t @ outs, e))"
proof -
  have "writeFrame j r = Inr (frame t)" using assms(4,5) by (simp add: writeFrame_def frame_def)
  then show ?thesis using assms(3) by (subst Run_native.simps) (simp add: readFrame_frame [OF assms(1,2)] split: prod.split)
qed

text \<open>
  C38. Every request of a native messaging session is answered, in order: given any number of frames that are neither
  empty nor too large, the loop ends without an error and writes exactly one frame for each, its answer, which has the
  identifier of the request; reading a frame back gives the text that was framed. The answers must fit a
  frame.
\<close>

theorem native_session:
  assumes "list_all (\<lambda>c. 0 < length c \<and> length c \<le> MaximumMessageSize) contents"
    and "native_answers j call client contents s = (s', rs)"
    and "list_all (\<lambda>r. \<exists>t. nj_encode_response j r = Some t \<and> length t \<le> MaximumMessageSize) rs"
  shows "Run_native j call client (concat (map frame contents)) s =
      (s', concat (map (\<lambda>r. frame (the (nj_encode_response j r))) rs), None) \<and>
    list_all2 (\<lambda>c r. \<forall>request. nj_request j c = Some request \<longrightarrow> nx_ID r = nr_ID request) contents rs \<and>
    list_all (\<lambda>c. \<forall>rest. readFrame (frame c @ rest) = (Inr c, rest)) contents"
proof -
  have "list_all (\<lambda>c. \<forall>rest. readFrame (frame c @ rest) = (Inr c, rest)) contents"
    using assms(1) readFrame_frame by (auto simp: list_all_iff)
  moreover have "Run_native j call client (concat (map frame contents)) s =
      (s', concat (map (\<lambda>r. frame (the (nj_encode_response j r))) rs), None) \<and>
    list_all2 (\<lambda>c r. \<forall>request. nj_request j c = Some request \<longrightarrow> nx_ID r = nr_ID request) contents rs"
    using assms
  proof (induction contents arbitrary: s rs)
    case Nil
    then show ?case by (simp add: Run_native_end)
  next
    case (Cons c cs)
    obtain s1 r rs1 where r: "native_answer j call client c s = (s1, r)" and rest: "native_answers j call client cs s1 = (s', rs1)"
      and rs: "rs = r # rs1"
      using Cons.prems(2) by (auto split: prod.splits)
    obtain t where t: "nj_encode_response j r = Some t" "length t \<le> MaximumMessageSize" using Cons.prems(3) rs by auto
    have "nx_ID r = nr_ID request" if "nj_request j c = Some request" for request
      using r that Client_Handle_ID by (fastforce simp: native_answer_def)
    then show ?case
      using Cons.IH [OF _ rest] Cons.prems(1,3) rs r t Run_native_frame [of c j call client s s1 r t] by simp
  qed
  ultimately show ?thesis by blast
qed

text \<open>A frame whose content is missing altogether ends the session as if the browser had closed it.\<close>

lemma missing_content_ends: "Run_native j call client (le32 5) s = (s, '''', None)"
proof -
  have "un_le32 (le32 5) = 5" using un_le32_le32 [of 5 "[]"] by simp
  then have "readFrame (le32 5) = (Inl ErrEOF, '''')"
    by (simp add: readFrame_def MaximumMessageSize_def le32_def Let_def)
  then show ?thesis by (subst Run_native.simps) simp
qed

section \<open>Witness\<close>

definition demo_native_json :: NativeJSON where
  "demo_native_json = \<lparr>nj_strict_share = (\<lambda>s. None), nj_request = (\<lambda>s. Some \<lparr>nr_ID = s, nr_Type = ''status'', nr_Payload = ''''\<rparr>),
     nj_encode_request = (\<lambda>r. Some (nr_ID r)), nj_response = (\<lambda>s. Some \<lparr>nx_ID = s, nx_OK = True, nx_Error = '''', nx_Status = ''''\<rparr>),
     nj_encode_response = (\<lambda>r. Some (nx_ID r @ (if nx_OK r then ''+'' else ''-''))), nj_url = (\<lambda>u. None)\<rparr>"

theorem native_session_witness:
  "Run_native demo_native_json (\<lambda>path auth body s. (s, Some (200, Some body))) \<lparr>nc_baseURL = '''', nc_token = ''t''\<rparr>
     (concat (map frame [''ab'', ''c''])) () = ((), concat (map frame [''ab+'', ''c+'']), None)"
proof -
  let ?j = demo_native_json and ?call = "\<lambda>path auth body (s :: unit). (s, Some (200 :: nat, Some body))"
    and ?client = "\<lparr>nc_baseURL = '''', nc_token = ''t''\<rparr>"
  have answers: "native_answers ?j ?call ?client [''ab'', ''c''] () =
      ((), [\<lparr>nx_ID = ''ab'', nx_OK = True, nx_Error = '''', nx_Status = ''''\<rparr>, \<lparr>nx_ID = ''c'', nx_OK = True, nx_Error = '''', nx_Status = ''''\<rparr>])"
    by (simp add: native_answer_def Client_Handle_def ValidateRequest_def demo_native_json_def MaximumMessageSize_def)
  show ?thesis
    using native_session [OF _ answers] by (simp add: MaximumMessageSize_def demo_native_json_def)
qed

end
