(* ===== verification/DesktopBridge.thy ===== *)
theory DesktopBridge
  imports NativeBridge
begin

text \<open>
  The desktop service that browsers talk to (\<open>internal/desktopbridge/service.go\<close>), with the queue of
  shared pages of \<open>cmd/nexdrop-desktop-service/main.go\<close>. Each handler is one step, as its
  critical sections make it; SHA-256, random bytes, JSON and \<open>url.Parse\<close> are parameters.
\<close>

section \<open>State\<close>

datatype bridge_error = ErrConfiguration | ErrOrigin | ErrRandom

record Pairing =
  pg_ID :: string
  pg_Code :: string
  pg_ExpiresAt :: time

record pairingRecord =
  pr_codeHash :: string
  pr_expiresAt :: time
  pr_attempts :: int

record 'q Bridge =
  bs_allowedOrigin :: string
  bs_pairings :: "string \<rightharpoonup> pairingRecord"
  bs_tokens :: "string list"
  bs_queue :: 'q

text \<open>
  \<open>be_pair\<close> and \<open>be_request\<close> decode a body that is one value without unknown fields; \<open>be_share\<close> is \<open>json.Unmarshal\<close>;
  \<open>be_enqueue\<close> is the queue, \<open>None\<close> where it fails; \<open>be_status\<close> is the status provider.
\<close>

record 'q BridgeEnv =
  be_sha256 :: "string \<Rightarrow> string"
  be_json :: NativeJSON
  be_pair :: "string \<Rightarrow> (string \<times> string) option"
  be_request :: "string \<Rightarrow> NativeRequest option"
  be_share :: "string \<Rightarrow> SharePayload option"
  be_enqueue :: "time \<Rightarrow> SharePayload \<Rightarrow> 'q \<Rightarrow> 'q \<times> string option"
  be_status :: "'q \<Rightarrow> string option"
  be_json_valid :: "string \<Rightarrow> bool"
  be_queue_status :: "string \<Rightarrow> string"

definition pairingTTL :: duration where "pairingTTL = 5 * minute"



section \<open>Tokens and pairings\<close>

text \<open>Random bytes, \<open>None\<close> where the source of randomness fails.\<close>

definition randomToken :: "string option \<Rightarrow> bridge_error + string" where
  "randomToken rnd = (case rnd of None \<Rightarrow> Inl ErrRandom | Some b \<Rightarrow> Inr (b64_encode b))"

definition issueToken :: "'q BridgeEnv \<Rightarrow> string option \<Rightarrow> 'q Bridge \<Rightarrow> 'q Bridge \<times> (bridge_error + string)" where
  "issueToken env rnd b =
     (case randomToken rnd of
        Inl e \<Rightarrow> (b, Inl e)
      | Inr token \<Rightarrow> (b\<lparr>bs_tokens := List.insert (be_sha256 env token) (bs_tokens b)\<rparr>, Inr token))"

definition IssueNativeToken :: "'q BridgeEnv \<Rightarrow> string option \<Rightarrow> 'q Bridge \<Rightarrow> 'q Bridge \<times> (bridge_error + string)" where
  "IssueNativeToken env rnd b = issueToken env rnd b"

definition hasToken :: "'q BridgeEnv \<Rightarrow> string \<Rightarrow> 'q Bridge \<Rightarrow> bool" where
  "hasToken env token b \<longleftrightarrow> be_sha256 env token \<in> set (bs_tokens b)"

text \<open>The number of 48 bits as text, padded to six digits, and its last six digits.\<close>

definition pairing_code :: "nat \<Rightarrow> string" where
  "pairing_code n = (let ds = nat_digits n; padded = replicate (6 - length ds) CHR ''0'' @ ds in drop (length padded - 6) padded)"

definition big_endian :: "string \<Rightarrow> nat" where
  "big_endian bytes = foldl (\<lambda>n c. 256 * n + code c) 0 bytes"

definition BeginPairing ::
  "'q BridgeEnv \<Rightarrow> time \<Rightarrow> string option \<Rightarrow> string option \<Rightarrow> 'q Bridge \<Rightarrow> 'q Bridge \<times> (bridge_error + Pairing)"
where
  "BeginPairing env now rnd_id rnd_code b =
     (case (randomToken rnd_id, rnd_code) of
        (Inr i, Some bytes) \<Rightarrow>
          let c = pairing_code (big_endian bytes); expiresAt = now + pairingTTL
          in (b\<lparr>bs_pairings := (bs_pairings b)(i \<mapsto> \<lparr>pr_codeHash = be_sha256 env c, pr_expiresAt = expiresAt, pr_attempts = 0\<rparr>)\<rparr>,
              Inr \<lparr>pg_ID = i, pg_Code = c, pg_ExpiresAt = expiresAt\<rparr>)
      | _ \<Rightarrow> (b, Inl ErrRandom))"

section \<open>Handlers\<close>

record BridgeRequest =
  br_Method :: string
  br_Path :: string
  br_Origin :: string
  br_Client :: string
  br_Authorization :: string
  br_Body :: string

datatype bridge_body = BridgeError string | BridgeToken string | BridgeAnswer NativeResponse | BridgePlain

record BridgeResponse =
  bx_Status :: nat
  bx_AllowOrigin :: "string option"
  bx_Body :: bridge_body

abbreviation bridge_fail :: "nat \<Rightarrow> string \<Rightarrow> nat \<times> bridge_body" where
  "bridge_fail status reason \<equiv> (status, BridgeError reason)"

definition bridge_limited :: "string \<Rightarrow> string" where
  "bridge_limited body = take (MaximumMessageSize + 1) body"

definition pair_handler ::
  "'q BridgeEnv \<Rightarrow> time \<Rightarrow> string option \<Rightarrow> BridgeRequest \<Rightarrow> 'q Bridge \<Rightarrow> 'q Bridge \<times> nat \<times> bridge_body"
where
  "pair_handler env now rnd r b =
     (if br_Origin r = '''' then (b, bridge_fail 403 ''ORIGIN_REQUIRED'')
      else case be_pair env (bridge_limited (br_Body r)) of
        None \<Rightarrow> (b, bridge_fail 400 ''INVALID_PAIRING'')
      | Some (pairingID, guess) \<Rightarrow>
          (case bs_pairings b pairingID of
             None \<Rightarrow> (b, bridge_fail 410 ''PAIRING_EXPIRED'')
           | Some p \<Rightarrow>
               if \<not> now < pr_expiresAt p \<or> 5 \<le> pr_attempts p
               then (b\<lparr>bs_pairings := (bs_pairings b)(pairingID := None)\<rparr>, bridge_fail 410 ''PAIRING_EXPIRED'')
               else if be_sha256 env guess \<noteq> pr_codeHash p
               then (b\<lparr>bs_pairings := (bs_pairings b)(pairingID \<mapsto> p\<lparr>pr_attempts := pr_attempts p + 1\<rparr>)\<rparr>,
                     bridge_fail 401 ''PAIRING_CODE_INVALID'')
               else (case issueToken env rnd (b\<lparr>bs_pairings := (bs_pairings b)(pairingID := None)\<rparr>) of
                   (b', Inl e) \<Rightarrow> (b', bridge_fail 500 ''PAIRING_FAILED'')
                 | (b', Inr token) \<Rightarrow> (b', 200, BridgeToken token))))"

definition bridge_token :: "BridgeRequest \<Rightarrow> string" where
  "bridge_token r = TrimPrefix (br_Authorization r) ''Bearer ''"

definition bridge_authenticated ::
  "'q BridgeEnv \<Rightarrow> (BridgeRequest \<Rightarrow> 'q Bridge \<Rightarrow> 'q Bridge \<times> nat \<times> bridge_body) \<Rightarrow> BridgeRequest \<Rightarrow> 'q Bridge \<Rightarrow> 'q Bridge \<times> nat \<times> bridge_body"
where
  "bridge_authenticated env handler r b =
     (if length (bridge_token r) < 32 \<or> \<not> hasToken env (bridge_token r) b then (b, bridge_fail 401 ''BRIDGE_TOKEN_INVALID'')
      else handler r b)"

definition handleStatus :: "'q BridgeEnv \<Rightarrow> BridgeRequest \<Rightarrow> 'q Bridge \<Rightarrow> 'q Bridge \<times> nat \<times> bridge_body" where
  "handleStatus env r b =
     (case be_request env (bridge_limited (br_Body r)) of
        None \<Rightarrow> (b, bridge_fail 400 ''INVALID_REQUEST'')
      | Some request \<Rightarrow>
          if nr_Type request \<noteq> ''status'' \<or> \<not> ValidateRequest (be_json env) request then (b, bridge_fail 400 ''INVALID_REQUEST'')
          else case be_status env (bs_queue b) of
            None \<Rightarrow> (b, bridge_fail 503 ''STATUS_UNAVAILABLE'')
          | Some status \<Rightarrow>
              if \<not> be_json_valid env status then (b, bridge_fail 503 ''STATUS_UNAVAILABLE'')
              else (b, 200, BridgeAnswer \<lparr>nx_ID = nr_ID request, nx_OK = True, nx_Error = '''', nx_Status = status\<rparr>))"

definition share_handler :: "'q BridgeEnv \<Rightarrow> time \<Rightarrow> BridgeRequest \<Rightarrow> 'q Bridge \<Rightarrow> 'q Bridge \<times> nat \<times> bridge_body" where
  "share_handler env now r b =
     (case be_request env (bridge_limited (br_Body r)) of
        None \<Rightarrow> (b, bridge_fail 400 ''INVALID_REQUEST'')
      | Some request \<Rightarrow>
          if nr_Type request \<noteq> ''share'' \<or> \<not> ValidateRequest (be_json env) request then (b, bridge_fail 400 ''INVALID_REQUEST'')
          else case be_share env (nr_Payload request) of
            None \<Rightarrow> (b, bridge_fail 400 ''INVALID_REQUEST'')
          | Some payload \<Rightarrow>
              (case be_enqueue env now payload (bs_queue b) of
                 (q, None) \<Rightarrow> (b\<lparr>bs_queue := q\<rparr>, bridge_fail 503 ''QUEUE_UNAVAILABLE'')
               | (q, Some queueID) \<Rightarrow> (b\<lparr>bs_queue := q\<rparr>, 200,
                   BridgeAnswer \<lparr>nx_ID = nr_ID request, nx_OK = True, nx_Error = '''', nx_Status = be_queue_status env queueID\<rparr>)))"

definition bridge_mux ::
  "'q BridgeEnv \<Rightarrow> time \<Rightarrow> string option \<Rightarrow> BridgeRequest \<Rightarrow> 'q Bridge \<Rightarrow> 'q Bridge \<times> nat \<times> bridge_body"
where
  "bridge_mux env now rnd r b =
     (if br_Path r = ''/v1/pair''
      then (if br_Method r = ''POST'' then pair_handler env now rnd r b else (b, 405, BridgePlain))
      else if br_Path r = ''/v1/status''
      then (if br_Method r = ''POST'' then bridge_authenticated env (handleStatus env) r b else (b, 405, BridgePlain))
      else if br_Path r = ''/v1/share''
      then (if br_Method r = ''POST'' then bridge_authenticated env (share_handler env now) r b else (b, 405, BridgePlain))
      else (b, 404, BridgePlain))"

definition Bridge_Handler ::
  "'q BridgeEnv \<Rightarrow> time \<Rightarrow> string option \<Rightarrow> BridgeRequest \<Rightarrow> 'q Bridge \<Rightarrow> 'q Bridge \<times> BridgeResponse"
where
  "Bridge_Handler env now rnd r b =
     (let origin = br_Origin r;
          allow = (if origin = '''' then None else Some origin);
          respond = (\<lambda>(b', status, body). (b', \<lparr>bx_Status = status, bx_AllowOrigin = allow, bx_Body = body\<rparr>))
      in if origin \<noteq> '''' \<and> origin \<noteq> bs_allowedOrigin b
         then (b, \<lparr>bx_Status = 403, bx_AllowOrigin = None, bx_Body = BridgeError ''ORIGIN_REJECTED''\<rparr>)
         else if br_Method r = ''OPTIONS'' then respond (b, 204, BridgePlain)
         else if origin = '''' \<and> br_Client r \<noteq> ''native-messaging'' then respond (b, bridge_fail 403 ''CLIENT_REJECTED'')
         else respond (bridge_mux env now rnd r b))"

section \<open>The queue (main.go)\<close>

text \<open>
  The files of the spool directory by name, with the shared payloads. \<open>Enqueue\<close> names a file by the clock
  and renames it into place; \<open>written\<close> tells whether the system calls succeed.
\<close>

type_synonym spool = "string \<rightharpoonup> SharePayload"

definition UnixNano :: "time \<Rightarrow> int" where
  "UnixNano t = i64 (t - Unix_time 0)"

definition Enqueue :: "bool \<Rightarrow> time \<Rightarrow> SharePayload \<Rightarrow> spool \<Rightarrow> spool \<times> string option" where
  "Enqueue written now payload spool =
     (if \<not> written then (spool, None)
      else (spool(Itoa (UnixNano now) \<mapsto> payload), Some (Itoa (UnixNano now))))"

datatype status_read = StatusMissing | StatusUnreadable | StatusText string

definition desktop_status :: "status_read \<Rightarrow> (string \<Rightarrow> bool) \<Rightarrow> string option" where
  "desktop_status content valid =
     (case content of
        StatusMissing \<Rightarrow> Some ''{\"online\":true}''
      | StatusUnreadable \<Rightarrow> None
      | StatusText text \<Rightarrow> if valid text then Some text else None)"

section \<open>Histories\<close>

datatype bridge_event = EvBegin "string option" "string option" | EvNative "string option" | EvRequest "string option" BridgeRequest

fun bridge_step :: "'q BridgeEnv \<Rightarrow> time \<times> bridge_event \<Rightarrow> 'q Bridge \<Rightarrow> 'q Bridge" where
  "bridge_step env (now, EvBegin rnd_id rnd_code) b = fst (BeginPairing env now rnd_id rnd_code b)"
| "bridge_step env (now, EvNative rnd) b = fst (IssueNativeToken env rnd b)"
| "bridge_step env (now, EvRequest rnd r) b = fst (Bridge_Handler env now rnd r b)"

text \<open>The tokens that an event gives to a client.\<close>

fun issued_by :: "'q BridgeEnv \<Rightarrow> time \<times> bridge_event \<Rightarrow> 'q Bridge \<Rightarrow> string list" where
  "issued_by env (now, EvBegin rnd_id rnd_code) b = []"
| "issued_by env (now, EvNative rnd) b = (case snd (IssueNativeToken env rnd b) of Inl e \<Rightarrow> [] | Inr t \<Rightarrow> [t])"
| "issued_by env (now, EvRequest rnd r) b = (case bx_Body (snd (Bridge_Handler env now rnd r b)) of BridgeToken t \<Rightarrow> [t] | _ \<Rightarrow> [])"

primrec bridge_run :: "'q BridgeEnv \<Rightarrow> (time \<times> bridge_event) list \<Rightarrow> 'q Bridge \<Rightarrow> 'q Bridge" where
  "bridge_run env [] b = b"
| "bridge_run env (e # es) b = bridge_run env es (bridge_step env e b)"

primrec issued_in :: "'q BridgeEnv \<Rightarrow> (time \<times> bridge_event) list \<Rightarrow> 'q Bridge \<Rightarrow> string list" where
  "issued_in env [] b = []"
| "issued_in env (e # es) b = issued_by env e b @ issued_in env es (bridge_step env e b)"

section \<open>One step\<close>

text \<open>What a request does, by the handler it reaches.\<close>

definition admitted :: "string \<Rightarrow> BridgeRequest \<Rightarrow> bool" where
  "admitted origin r \<longleftrightarrow> br_Method r = ''POST'' \<and>
     (br_Origin r = origin \<and> origin \<noteq> '''' \<or> br_Origin r = '''' \<and> br_Client r = ''native-messaging'')"

lemma Bridge_Handler_cases:
  assumes "Bridge_Handler env now rnd r b = (b', x)"
  shows "(b' = b \<and> (\<forall>t. bx_Body x \<noteq> BridgeToken t) \<and> (\<forall>a. bx_Body x \<noteq> BridgeAnswer a) \<and> \<not> admitted (bs_allowedOrigin b) r) \<or>
    (admitted (bs_allowedOrigin b) r \<and> bridge_mux env now rnd r b = (b', bx_Status x, bx_Body x))"
  using assms
  by (auto simp: Bridge_Handler_def admitted_def bridge_mux_def Let_def split: if_splits prod.splits)

lemma issueToken_facts:
  assumes "issueToken env rnd b = (b', res)"
  shows "bs_queue b' = bs_queue b \<and> bs_allowedOrigin b' = bs_allowedOrigin b \<and> bs_pairings b' = bs_pairings b \<and>
    set (bs_tokens b') = (case res of Inl e \<Rightarrow> set (bs_tokens b) | Inr t \<Rightarrow> insert (be_sha256 env t) (set (bs_tokens b)))"
  using assms by (auto simp: issueToken_def split: sum.splits)

text \<open>The guess that a pairing request makes for a pairing.\<close>

definition guess_of :: "'q BridgeEnv \<Rightarrow> string \<Rightarrow> string \<Rightarrow> BridgeRequest \<Rightarrow> string option" where
  "guess_of env origin i r =
     (if admitted origin r \<and> br_Path r = ''/v1/pair'' \<and> br_Origin r \<noteq> ''''
      then (case be_pair env (bridge_limited (br_Body r)) of Some (j, g) \<Rightarrow> if j = i then Some g else None | None \<Rightarrow> None)
      else None)"

lemma pair_handler_facts:
  assumes "pair_handler env now rnd r b = (b', st, body)"
  shows "bs_queue b' = bs_queue b \<and> bs_allowedOrigin b' = bs_allowedOrigin b \<and> (\<forall>a. body \<noteq> BridgeAnswer a) \<and>
    set (bs_tokens b') = (case body of BridgeToken t \<Rightarrow> insert (be_sha256 env t) (set (bs_tokens b)) | _ \<Rightarrow> set (bs_tokens b))"
proof -
  have issue: "bs_queue (fst (issueToken env rnd c)) = bs_queue c \<and> bs_allowedOrigin (fst (issueToken env rnd c)) = bs_allowedOrigin c \<and>
      set (bs_tokens (fst (issueToken env rnd c))) =
        (case snd (issueToken env rnd c) of Inl e \<Rightarrow> set (bs_tokens c) | Inr t \<Rightarrow> insert (be_sha256 env t) (set (bs_tokens c)))" for c
    using issueToken_facts [of env rnd c] by (metis prod.collapse)
  show ?thesis
    using assms issue [of "b\<lparr>bs_pairings := (bs_pairings b)(p := None)\<rparr>" for p]
    by (auto simp: pair_handler_def case_prod_beta split: if_splits option.splits sum.splits)
qed

lemma guarded_facts:
  assumes "bridge_authenticated env handler r b = (b', st, body)" and "handler = handleStatus env \<or> handler = share_handler env now"
  shows "bs_tokens b' = bs_tokens b \<and> bs_pairings b' = bs_pairings b \<and> bs_allowedOrigin b' = bs_allowedOrigin b \<and> (\<forall>t. body \<noteq> BridgeToken t) \<and>
    (bs_queue b' \<noteq> bs_queue b \<or> (\<exists>a. body = BridgeAnswer a) \<longrightarrow> 32 \<le> length (bridge_token r) \<and> hasToken env (bridge_token r) b) \<and>
    (bs_queue b' \<noteq> bs_queue b \<longrightarrow> (\<exists>request p p'. be_request env (bridge_limited (br_Body r)) = Some request \<and>
       nj_strict_share (be_json env) (nr_Payload request) = Some p' \<and> validShare (nj_url (be_json env)) p' \<and>
       be_share env (nr_Payload request) = Some p \<and> bs_queue b' = fst (be_enqueue env now p (bs_queue b))))"
  using assms(2)
proof
  assume h: "handler = handleStatus env"
  show ?thesis
    using assms(1) unfolding h
    by (auto simp: bridge_authenticated_def handleStatus_def split: if_splits option.splits)
next
  assume h: "handler = share_handler env now"
  show ?thesis
    using assms(1) unfolding h
    by (auto simp: bridge_authenticated_def share_handler_def ValidateRequest_def split: if_splits option.splits prod.splits)
qed

lemma bridge_mux_cases:
  assumes "bridge_mux env now rnd r b = (b', st, body)"
  shows "(b' = b \<and> body = BridgePlain) \<or> (br_Path r = ''/v1/pair'' \<and> pair_handler env now rnd r b = (b', st, body)) \<or>
    (br_Path r \<noteq> ''/v1/pair'' \<and> (\<exists>handler. (handler = handleStatus env \<or> handler = share_handler env now) \<and>
       bridge_authenticated env handler r b = (b', st, body)))"
  using assms by (auto simp: bridge_mux_def split: if_splits)

lemma request_facts:
  assumes "Bridge_Handler env now rnd r b = (b', x)"
  shows "bs_allowedOrigin b' = bs_allowedOrigin b \<and>
    set (bs_tokens b') = (case bx_Body x of BridgeToken t \<Rightarrow> insert (be_sha256 env t) (set (bs_tokens b)) | _ \<Rightarrow> set (bs_tokens b)) \<and>
    (bs_queue b' \<noteq> bs_queue b \<or> (\<exists>a. bx_Body x = BridgeAnswer a) \<longrightarrow>
      admitted (bs_allowedOrigin b) r \<and> 32 \<le> length (bridge_token r) \<and> hasToken env (bridge_token r) b) \<and>
    (bs_queue b' \<noteq> bs_queue b \<longrightarrow> (\<exists>request p p'. be_request env (bridge_limited (br_Body r)) = Some request \<and>
       nj_strict_share (be_json env) (nr_Payload request) = Some p' \<and> validShare (nj_url (be_json env)) p' \<and>
       be_share env (nr_Payload request) = Some p \<and> bs_queue b' = fst (be_enqueue env now p (bs_queue b))))"
  using Bridge_Handler_cases [OF assms]
proof (elim disjE)
  assume "admitted (bs_allowedOrigin b) r \<and> bridge_mux env now rnd r b = (b', bx_Status x, bx_Body x)"
  then have ok: "admitted (bs_allowedOrigin b) r" and mux: "bridge_mux env now rnd r b = (b', bx_Status x, bx_Body x)" by simp_all
  from bridge_mux_cases [OF mux] show ?thesis
  proof (elim disjE exE conjE)
    assume "pair_handler env now rnd r b = (b', bx_Status x, bx_Body x)"
    from pair_handler_facts [OF this] show ?thesis by auto
  next
    fix handler
    assume "handler = handleStatus env" "bridge_authenticated env handler r b = (b', bx_Status x, bx_Body x)"
    then show ?thesis using guarded_facts [of env handler r b b' "bx_Status x" "bx_Body x" now] ok by (auto split: bridge_body.split)
  next
    fix handler
    assume "handler = share_handler env now" "bridge_authenticated env handler r b = (b', bx_Status x, bx_Body x)"
    then show ?thesis using guarded_facts [of env handler r b b' "bx_Status x" "bx_Body x" now] ok by (auto split: bridge_body.split)
  qed auto
qed (auto split: bridge_body.split)

lemma step_facts:
  "bs_allowedOrigin (bridge_step env e b) = bs_allowedOrigin b \<and>
   set (bs_tokens (bridge_step env e b)) = be_sha256 env ` set (issued_by env e b) \<union> set (bs_tokens b)"
proof (cases "(env, e, b)" rule: bridge_step.cases)
  case (1 env now rnd_id rnd_code b)
  then show ?thesis by (auto simp: BeginPairing_def Let_def split: sum.splits option.splits)
next
  case (2 env now rnd b)
  then show ?thesis
    using issueToken_facts [of env rnd b "fst (issueToken env rnd b)" "snd (issueToken env rnd b)"]
    by (auto simp: IssueNativeToken_def split: sum.splits)
next
  case (3 env now rnd r b)
  then show ?thesis
    using request_facts [of env now rnd r b "fst (Bridge_Handler env now rnd r b)" "snd (Bridge_Handler env now rnd r b)"]
    by (auto split: bridge_body.splits)
qed

lemma run_facts:
  "bs_allowedOrigin (bridge_run env es b) = bs_allowedOrigin b \<and>
   set (bs_tokens (bridge_run env es b)) = be_sha256 env ` set (issued_in env es b) \<union> set (bs_tokens b)"
  by (induction es arbitrary: b) (auto simp: step_facts)

section \<open>Only clients with a token share\<close>



section \<open>Guessing a pairing code\<close>

definition wrong_guess :: "'q BridgeEnv \<Rightarrow> string \<Rightarrow> string \<Rightarrow> string \<Rightarrow> time \<times> bridge_event \<Rightarrow> bool" where
  "wrong_guess env origin i hash e \<longleftrightarrow> (case snd e of
     EvRequest rnd r \<Rightarrow> (case guess_of env origin i r of None \<Rightarrow> False | Some g \<Rightarrow> be_sha256 env g \<noteq> hash)
   | _ \<Rightarrow> False)"

text \<open>The identifier of the pairing that an event begins.\<close>

definition begins :: "string \<Rightarrow> time \<times> bridge_event \<Rightarrow> bool" where
  "begins i e \<longleftrightarrow> (\<exists>rnd_id rnd_code. snd e = EvBegin (Some rnd_id) (Some rnd_code) \<and> b64_encode rnd_id = i)"

lemma pairings_request:
  assumes "bs_pairings b i = Some p" and "Bridge_Handler env now rnd r b = (b', x)"
  shows "case guess_of env (bs_allowedOrigin b) i r of
      None \<Rightarrow> bs_pairings b' i = Some p
    | Some g \<Rightarrow>
        (if \<not> now < pr_expiresAt p \<or> 5 \<le> pr_attempts p then bs_pairings b' i = None \<and> bx_Status x = 410 \<and> (\<forall>t. bx_Body x \<noteq> BridgeToken t)
         else if be_sha256 env g \<noteq> pr_codeHash p
         then bs_pairings b' i = Some (p\<lparr>pr_attempts := pr_attempts p + 1\<rparr>) \<and> (\<forall>t. bx_Body x \<noteq> BridgeToken t)
         else bs_pairings b' i = None)"
  using Bridge_Handler_cases [OF assms(2)]
proof (elim disjE)
  assume "b' = b \<and> (\<forall>t. bx_Body x \<noteq> BridgeToken t) \<and> (\<forall>a. bx_Body x \<noteq> BridgeAnswer a) \<and> \<not> admitted (bs_allowedOrigin b) r"
  then show ?thesis using assms(1) by (simp add: guess_of_def)
next
  assume "admitted (bs_allowedOrigin b) r \<and> bridge_mux env now rnd r b = (b', bx_Status x, bx_Body x)"
  then have ok: "admitted (bs_allowedOrigin b) r" and mux: "bridge_mux env now rnd r b = (b', bx_Status x, bx_Body x)" by simp_all
  from bridge_mux_cases [OF mux] show ?thesis
  proof (elim disjE conjE exE)
    assume "br_Path r = ''/v1/pair''" "pair_handler env now rnd r b = (b', bx_Status x, bx_Body x)"
    then show ?thesis
      using assms(1) ok
      by (auto simp: guess_of_def pair_handler_def issueToken_def split: if_splits option.splits prod.splits sum.splits)
  next
    assume "b' = b" "bx_Body x = BridgePlain"
    then have "br_Path r \<noteq> ''/v1/pair''" using mux ok
      by (auto simp: bridge_mux_def admitted_def pair_handler_def split: if_splits option.splits prod.splits sum.splits)
    then show ?thesis using assms(1) \<open>b' = b\<close> by (simp add: guess_of_def)
  next
    fix handler
    assume "br_Path r \<noteq> ''/v1/pair''" "bridge_authenticated env handler r b = (b', bx_Status x, bx_Body x)" "handler = handleStatus env"
    then show ?thesis using guarded_facts [of env handler r b b' "bx_Status x" "bx_Body x" now] assms(1) by (simp add: guess_of_def)
  next
    fix handler
    assume "br_Path r \<noteq> ''/v1/pair''" "bridge_authenticated env handler r b = (b', bx_Status x, bx_Body x)" "handler = share_handler env now"
    then show ?thesis using guarded_facts [of env handler r b b' "bx_Status x" "bx_Body x" now] assms(1) by (simp add: guess_of_def)
  qed
qed

lemma pairings_gone_request:
  assumes "bs_pairings b i = None" and "Bridge_Handler env now rnd r b = (b', x)"
  shows "bs_pairings b' i = None \<and> (guess_of env (bs_allowedOrigin b) i r \<noteq> None \<longrightarrow> (\<forall>t. bx_Body x \<noteq> BridgeToken t))"
  using Bridge_Handler_cases [OF assms(2)]
proof (elim disjE)
  assume "admitted (bs_allowedOrigin b) r \<and> bridge_mux env now rnd r b = (b', bx_Status x, bx_Body x)"
  then have ok: "admitted (bs_allowedOrigin b) r" and mux: "bridge_mux env now rnd r b = (b', bx_Status x, bx_Body x)" by simp_all
  from bridge_mux_cases [OF mux] show ?thesis
  proof (elim disjE conjE exE)
    assume "br_Path r = ''/v1/pair''" "pair_handler env now rnd r b = (b', bx_Status x, bx_Body x)"
    then show ?thesis
      using assms(1) ok
      by (auto simp: guess_of_def pair_handler_def issueToken_def split: if_splits option.splits prod.splits sum.splits)
  next
    fix handler
    assume "bridge_authenticated env handler r b = (b', bx_Status x, bx_Body x)" "handler = handleStatus env"
    then show ?thesis using guarded_facts [of env handler r b b' "bx_Status x" "bx_Body x" now] assms(1) by simp
  next
    fix handler
    assume "bridge_authenticated env handler r b = (b', bx_Status x, bx_Body x)" "handler = share_handler env now"
    then show ?thesis using guarded_facts [of env handler r b b' "bx_Status x" "bx_Body x" now] assms(1) by simp
  qed (use assms(1) in simp)
qed (use assms(1) in simp)

lemma pairings_step:
  assumes "\<not> begins i e"
  shows "bs_pairings b i = None \<Longrightarrow> bs_pairings (bridge_step env e b) i = None"
    and "bs_pairings b i = Some p \<Longrightarrow> bs_pairings (bridge_step env e b) i \<in>
      {None, Some (if wrong_guess env (bs_allowedOrigin b) i (pr_codeHash p) e then p\<lparr>pr_attempts := pr_attempts p + 1\<rparr> else p)}"
proof -
  consider (start) now rnd_id rnd_code where "e = (now, EvBegin rnd_id rnd_code)" | (native) now rnd where "e = (now, EvNative rnd)"
    | (request) now rnd r where "e = (now, EvRequest rnd r)"
    by (metis bridge_event.exhaust prod.exhaust)
  then have "(bs_pairings b i = None \<longrightarrow> bs_pairings (bridge_step env e b) i = None) \<and>
    (bs_pairings b i = Some p \<longrightarrow> bs_pairings (bridge_step env e b) i \<in>
      {None, Some (if wrong_guess env (bs_allowedOrigin b) i (pr_codeHash p) e then p\<lparr>pr_attempts := pr_attempts p + 1\<rparr> else p)})"
  proof cases
    case start
    then show ?thesis
      using assms by (auto simp: BeginPairing_def randomToken_def begins_def wrong_guess_def Let_def split: option.splits)
  next
    case native
    then show ?thesis by (auto simp: IssueNativeToken_def issueToken_def wrong_guess_def split: sum.splits)
  next
    case request
    have "Bridge_Handler env now rnd r b = (fst (Bridge_Handler env now rnd r b), snd (Bridge_Handler env now rnd r b))" by simp
    from pairings_gone_request [OF _ this, of i] pairings_request [OF _ this, of i p] show ?thesis
      using request by (auto simp: wrong_guess_def split: option.splits if_splits)
  qed
  then show "bs_pairings b i = None \<Longrightarrow> bs_pairings (bridge_step env e b) i = None"
    "bs_pairings b i = Some p \<Longrightarrow> bs_pairings (bridge_step env e b) i \<in>
      {None, Some (if wrong_guess env (bs_allowedOrigin b) i (pr_codeHash p) e then p\<lparr>pr_attempts := pr_attempts p + 1\<rparr> else p)}"
    by blast+
qed

lemma pairings_gone_run: "bs_pairings b i = None \<Longrightarrow> list_all (\<lambda>e. \<not> begins i e) es \<Longrightarrow> bs_pairings (bridge_run env es b) i = None"
  by (induction es arbitrary: b) (auto dest: pairings_step(1))

lemma pairings_run:
  assumes "bs_pairings b i = Some p" and "list_all (\<lambda>e. \<not> begins i e) es"
  shows "bs_pairings (bridge_run env es b) i \<in>
    {None, Some (p\<lparr>pr_attempts := pr_attempts p + int (length (filter (wrong_guess env (bs_allowedOrigin b) i (pr_codeHash p)) es))\<rparr>)}"
  using assms
proof (induction es arbitrary: b p)
  case (Cons e es)
  have same: "bs_allowedOrigin (bridge_step env e b) = bs_allowedOrigin b" by (simp add: step_facts)
  have e: "\<not> begins i e" and rest: "list_all (\<lambda>e. \<not> begins i e) es" using Cons.prems(2) by simp_all
  from pairings_step(2) [OF e Cons.prems(1), of env] consider "bs_pairings (bridge_step env e b) i = None"
    | "wrong_guess env (bs_allowedOrigin b) i (pr_codeHash p) e" "bs_pairings (bridge_step env e b) i = Some (p\<lparr>pr_attempts := pr_attempts p + 1\<rparr>)"
    | "\<not> wrong_guess env (bs_allowedOrigin b) i (pr_codeHash p) e" "bs_pairings (bridge_step env e b) i = Some p"
    by (auto split: if_splits)
  then show ?case
  proof cases
    case 1
    then show ?thesis using pairings_gone_run [OF 1 rest] by simp
  next
    case 2
    then show ?thesis using Cons.IH [OF 2(2) rest] by (simp add: same add.assoc)
  next
    case 3
    then show ?thesis using Cons.IH [OF 3(2) rest] by (simp add: same)
  qed
qed simp

text \<open>
  C40. A pairing code is hard to guess: a request that is given a token for a pairing presented its code
  before it expired, fewer than five wrong codes have been presented for it in between, by whatever clients and
  among whatever other requests, and the pairing is gone: no later request gets a token for it.
\<close>

theorem pairing_guesses_bounded:
  assumes "bs_pairings b0 i = Some p" and "pr_attempts p = 0" and "b = bridge_run env es b0" and "list_all (\<lambda>e. \<not> begins i e) (es @ es')"
    and "guess_of env (bs_allowedOrigin b0) i r = Some g" and "Bridge_Handler env now rnd r b = (b', x)" and "bx_Body x = BridgeToken t"
    and "guess_of env (bs_allowedOrigin b0) i r' = Some g'" and "Bridge_Handler env now' rnd' r' (bridge_run env es' b') = (b'', x')"
  shows "be_sha256 env g = pr_codeHash p \<and> now < pr_expiresAt p \<and>
    length (filter (wrong_guess env (bs_allowedOrigin b0) i (pr_codeHash p)) es) < 5 \<and> (\<forall>t'. bx_Body x' \<noteq> BridgeToken t')"
proof -
  let ?n = "length (filter (wrong_guess env (bs_allowedOrigin b0) i (pr_codeHash p)) es)"
  have origin: "bs_allowedOrigin b = bs_allowedOrigin b0" "bs_allowedOrigin b' = bs_allowedOrigin b0"
    using run_facts [of env es b0] request_facts [OF assms(6)] assms(3) by simp_all
  have guess: "guess_of env (bs_allowedOrigin b) i r = Some g" using assms(5) origin by simp
  have "bs_pairings b i \<noteq> None"
  proof
    assume "bs_pairings b i = None"
    then show False using pairings_gone_request [OF _ assms(6)] guess assms(7) by fastforce
  qed
  then have here: "bs_pairings b i = Some (p\<lparr>pr_attempts := int ?n\<rparr>)"
    using pairings_run [OF assms(1), of es env] assms(2-4) by auto
  have accepted: "be_sha256 env g = pr_codeHash p \<and> now < pr_expiresAt p \<and> ?n < 5 \<and> bs_pairings b' i = None"
    using pairings_request [OF here assms(6)] guess assms(7) by (auto split: if_splits)
  then have gone: "bs_pairings (bridge_run env es' b') i = None" using pairings_gone_run [of b' i es' env] assms(4) by simp
  have "guess_of env (bs_allowedOrigin (bridge_run env es' b')) i r' = Some g'"
    using assms(8) origin run_facts [of env es' b'] by simp
  then have "\<forall>t'. bx_Body x' \<noteq> BridgeToken t'" using pairings_gone_request [OF gone assms(9)] by simp
  then show ?thesis using accepted by blast
qed

text \<open>The code is uniform up to the remainder: the last six digits of a random number of 48 bits.\<close>

lemma digits_value_append: "digits_value (xs @ ys) = digits_value xs * 10 ^ length ys + digits_value ys"
proof -
  have "foldl (\<lambda>v c. 10 * v + (code c - 48)) a ys = a * 10 ^ length ys + foldl (\<lambda>v c. 10 * v + (code c - 48)) 0 ys" for a :: nat
  proof (induction ys rule: rev_induct)
    case (snoc y ys)
    then show ?case by (simp add: distrib_left)
  qed simp
  from this [of "digits_value xs"] show ?thesis by (simp add: digits_value_def)
qed

lemma digits_value_less: "list_all is_digit ds \<Longrightarrow> digits_value ds < 10 ^ length ds"
proof (induction ds rule: rev_induct)
  case (snoc c ds)
  then have "code c - 48 < 10" by (auto simp: byte_in_def code_def)
  then show ?case using snoc by (simp add: digits_value_snoc)
qed (simp add: digits_value_def)

lemma digits_value_zeros: "digits_value (replicate n CHR ''0'') = 0"
  by (induction n) (simp_all add: digits_value_def code_def)

lemma last_six_digits:
  assumes "list_all is_digit ds" and "6 \<le> length ds"
  shows "list_all is_digit (drop (length ds - 6) ds)" and "digits_value (drop (length ds - 6) ds) = digits_value ds mod 1000000"
proof -
  obtain xs ys where ds: "ds = xs @ ys" "length ys = 6"
    using append_take_drop_id [of "length ds - 6" ds] assms(2) by (metis diff_diff_cancel length_drop)
  have ys: "list_all is_digit ys" "drop (length ds - 6) ds = ys" using assms(1) ds by simp_all
  have "digits_value ys < 1000000" using digits_value_less [OF ys(1)] ds(2) by simp
  moreover have "digits_value ds = digits_value xs * 1000000 + digits_value ys" by (simp add: ds digits_value_append)
  ultimately show "list_all is_digit (drop (length ds - 6) ds)"
    "digits_value (drop (length ds - 6) ds) = digits_value ds mod 1000000" using ys by simp_all
qed

lemma pairing_code_value:
  "length (pairing_code n) = 6 \<and> list_all is_digit (pairing_code n) \<and> digits_value (pairing_code n) = n mod 1000000"
proof -
  let ?p = "replicate (6 - length (nat_digits n)) CHR ''0'' @ nat_digits n"
  have "list_all is_digit ?p"
    using nat_digits_digits [of n] by (auto simp: list_all_iff byte_in_def code_def)
  moreover have "6 \<le> length ?p" by simp
  moreover have "digits_value ?p = n" by (simp add: digits_value_append digits_value_zeros)
  moreover have "pairing_code n = drop (length ?p - 6) ?p" by (simp add: pairing_code_def Let_def)
  ultimately show ?thesis using last_six_digits [of ?p] by (simp only: length_drop) simp
qed

section \<open>From the browser to the queue\<close>

text \<open>How the native host reaches the service; \<open>enc\<close> encodes the body of an answer.\<close>

definition service_call ::
  "'q BridgeEnv \<Rightarrow> time \<Rightarrow> string option \<Rightarrow> (bridge_body \<Rightarrow> string option) \<Rightarrow> 'q Bridge desktop"
where
  "service_call env now rnd enc path auth body b =
     (case Bridge_Handler env now rnd \<lparr>br_Method = ''POST'', br_Path = path, br_Origin = '''', br_Client = ''native-messaging'',
          br_Authorization = auth, br_Body = body\<rparr> b of
        (b', x) \<Rightarrow> (b', Some (bx_Status x, enc (bx_Body x))))"

definition queued_answer :: "'q BridgeEnv \<Rightarrow> string \<Rightarrow> time \<Rightarrow> NativeResponse" where
  "queued_answer env i now = \<lparr>nx_ID = i, nx_OK = True, nx_Error = '''', nx_Status = be_queue_status env (Itoa (UnixNano now))\<rparr>"

text \<open>
  What a browser shares arrives: when the native host has a token that the service issued and the request is a valid
  share, forwarding it puts its payload into the queue under a name, changes nothing else of the service, and
  the browser gets the name in an answer to its request. The bodies must survive their encoding and fit a message.
\<close>

theorem shared_page_is_queued:
  assumes "ValidateRequest (be_json env) request" and "nr_Type request = ''share''"
    and "nj_encode_request (be_json env) request = Some body" and "length body \<le> MaximumMessageSize" and "be_request env body = Some request"
    and "be_share env (nr_Payload request) = Some p" and "be_enqueue env = Enqueue True"
    and "hasToken env (nc_token client) b" and "32 \<le> length (nc_token client)"
    and "enc (BridgeAnswer (queued_answer env (nr_ID request) now)) = Some out" and "length out \<le> MaximumMessageSize"
    and "nj_response (be_json env) out = Some (queued_answer env (nr_ID request) now)"
  shows "Client_Handle (be_json env) (service_call env now rnd enc) client request b =
    (b\<lparr>bs_queue := (bs_queue b)(Itoa (UnixNano now) \<mapsto> p)\<rparr>, queued_answer env (nr_ID request) now)"
proof -
  let ?r = "\<lparr>br_Method = ''POST'', br_Path = ''/v1/share'', br_Origin = '''', br_Client = ''native-messaging'',
          br_Authorization = ''Bearer '' @ nc_token client, br_Body = body\<rparr>"
  let ?b = "b\<lparr>bs_queue := (bs_queue b)(Itoa (UnixNano now) \<mapsto> p)\<rparr>"
  have bearer: "bridge_token ?r = nc_token client" by (simp add: bridge_token_def TrimPrefix_def)
  have whole: "bridge_limited body = body" using assms(4) by (simp add: bridge_limited_def)
  have "share_handler env now ?r b = (?b, 200, BridgeAnswer (queued_answer env (nr_ID request) now))"
    using assms(1,2,5-7) whole by (simp add: share_handler_def Enqueue_def queued_answer_def)
  then have "bridge_mux env now rnd ?r b = (?b, 200, BridgeAnswer (queued_answer env (nr_ID request) now))"
    using assms(8,9) bearer by (simp add: bridge_mux_def bridge_authenticated_def)
  then have "service_call env now rnd enc ''/v1/share'' (''Bearer '' @ nc_token client) body b = (?b, Some (200, Some out))"
    using assms(10) by (simp add: service_call_def Bridge_Handler_def)
  moreover have "nx_ID (queued_answer env (nr_ID request) now) = nr_ID request" by (simp add: queued_answer_def)
  ultimately show ?thesis
    using assms(1-3,11,12) by (simp add: Client_Handle_def)
qed

text \<open>
  The names of the queue are instants: a second share at the same instant, as a coarse clock gives it, replaces the
  first, which was confirmed under the same name.
\<close>

lemma same_instant_overwrites:
  "Enqueue True now p spool = (spool1, Some i) \<Longrightarrow> Enqueue True now p' spool1 = (spool(i \<mapsto> p'), Some i)"
  by (auto simp: Enqueue_def)

section \<open>Witnesses\<close>

definition demo_share :: SharePayload where
  "demo_share = \<lparr>sp_Kind = ''SELECTION'', sp_Title = '''', sp_URL = '''', sp_Text = ''hello'', sp_TargetDeviceIDs = [], sp_GroupID = ''''\<rparr>"

definition demo_token :: string where "demo_token = b64_encode ''tttttttttttttttttttttttt''"

definition demo_bridge_json :: NativeJSON where
  "demo_bridge_json = \<lparr>nj_strict_share = (\<lambda>s. Some demo_share), nj_request = (\<lambda>s. None),
     nj_encode_request = (\<lambda>r. Some (nr_ID r)), nj_response = (\<lambda>s. Some \<lparr>nx_ID = ''id'', nx_OK = True, nx_Error = '''', nx_Status = Itoa (UnixNano 7)\<rparr>),
     nj_encode_response = (\<lambda>r. None), nj_url = (\<lambda>u. None)\<rparr>"

definition demo_bridge_env :: "spool BridgeEnv" where
  "demo_bridge_env = \<lparr>be_sha256 = (\<lambda>s. s), be_json = demo_bridge_json, be_pair = (\<lambda>s. Some (''pair'', s)),
     be_request = (\<lambda>s. Some \<lparr>nr_ID = s, nr_Type = ''share'', nr_Payload = ''{}''\<rparr>), be_share = (\<lambda>s. Some demo_share),
     be_enqueue = Enqueue True, be_status = (\<lambda>q. None), be_json_valid = (\<lambda>s. True), be_queue_status = (\<lambda>s. s)\<rparr>"

definition demo_bridge :: "spool Bridge" where
  "demo_bridge = \<lparr>bs_allowedOrigin = ''https://n'', bs_pairings = [''pair'' \<mapsto> \<lparr>pr_codeHash = ''000042'', pr_expiresAt = 9, pr_attempts = 0\<rparr>],
     bs_tokens = [demo_token], bs_queue = Map.empty\<rparr>"

lemma demo_token_long: "32 \<le> length demo_token"
  by code_simp

lemma demo_request_valid:
  "ValidateRequest demo_bridge_json \<lparr>nr_ID = ''id'', nr_Type = ''share'', nr_Payload = ''{}''\<rparr>"
proof -
  have "TrimSpace ''hello'' \<noteq> ''''" by code_simp
  then show ?thesis by (simp add: ValidateRequest_def validShare_def demo_bridge_json_def demo_share_def)
qed

theorem shared_page_is_queued_witness:
  "bs_queue (fst (Client_Handle demo_bridge_json (service_call demo_bridge_env 7 None (\<lambda>x. Some ''out''))
     \<lparr>nc_baseURL = '''', nc_token = demo_token\<rparr> \<lparr>nr_ID = ''id'', nr_Type = ''share'', nr_Payload = ''{}''\<rparr> demo_bridge)) (Itoa (UnixNano 7)) =
     Some demo_share"
proof -
  have json: "be_json demo_bridge_env = demo_bridge_json" by (simp add: demo_bridge_env_def)
  show ?thesis
    unfolding json [symmetric]
    by (subst shared_page_is_queued [where p = demo_share and body = "''id''" and out = "''out''"])
       (use demo_request_valid demo_token_long in
          \<open>simp_all add: json hasToken_def queued_answer_def demo_bridge_def demo_bridge_env_def demo_bridge_json_def MaximumMessageSize_def\<close>)
qed

lemma bridge_limited_short: "length s \<le> 1000 \<Longrightarrow> bridge_limited s = s"
  by (simp add: bridge_limited_def MaximumMessageSize_def)








definition demo_guess :: "string \<Rightarrow> BridgeRequest" where
  "demo_guess g = \<lparr>br_Method = ''POST'', br_Path = ''/v1/pair'', br_Origin = ''https://n'', br_Client = '''', br_Authorization = '''', br_Body = g\<rparr>"

lemma demo_guess_of: "length g \<le> 1000 \<Longrightarrow> guess_of demo_bridge_env ''https://n'' ''pair'' (demo_guess g) = Some g"
  by (simp add: guess_of_def admitted_def demo_guess_def demo_bridge_env_def bridge_limited_short)

theorem pairing_guesses_bounded_witness:
  "length (filter (wrong_guess demo_bridge_env ''https://n'' ''pair'' ''000042'') [(1, EvRequest None (demo_guess ''000041''))]) < 5 \<and>
   bx_Status (snd (Bridge_Handler demo_bridge_env 2 (Some ''r'') (demo_guess ''000042'')
     (bridge_run demo_bridge_env [(1, EvRequest None (demo_guess ''000041''))] demo_bridge))) = 200"
proof -
  let ?es = "[(1, EvRequest None (demo_guess ''000041''))]"
  have "bridge_run demo_bridge_env ?es demo_bridge =
      demo_bridge\<lparr>bs_pairings := [''pair'' \<mapsto> \<lparr>pr_codeHash = ''000042'', pr_expiresAt = 9, pr_attempts = 1\<rparr>]\<rparr>"
    by (simp add: Bridge_Handler_def bridge_mux_def pair_handler_def demo_guess_def demo_bridge_env_def demo_bridge_def bridge_limited_short Let_def)
  then have redeemed: "Bridge_Handler demo_bridge_env 2 (Some ''r'') (demo_guess ''000042'') (bridge_run demo_bridge_env ?es demo_bridge) =
      (demo_bridge\<lparr>bs_pairings := Map.empty, bs_tokens := List.insert (b64_encode ''r'') [demo_token]\<rparr>,
       \<lparr>bx_Status = 200, bx_AllowOrigin = Some ''https://n'', bx_Body = BridgeToken (b64_encode ''r'')\<rparr>)"
    by (simp add: Bridge_Handler_def bridge_mux_def pair_handler_def issueToken_def randomToken_def demo_guess_def demo_bridge_env_def
        demo_bridge_def bridge_limited_short Let_def)
  obtain b'' x' where again: "Bridge_Handler demo_bridge_env 3 None (demo_guess ''000042'')
      (bridge_run demo_bridge_env [] (demo_bridge\<lparr>bs_pairings := Map.empty, bs_tokens := List.insert (b64_encode ''r'') [demo_token]\<rparr>)) = (b'', x')"
    by (metis prod.exhaust)
  show ?thesis
    using pairing_guesses_bounded [OF _ _ refl _ _ redeemed _ _ again, of "''pair''" "\<lparr>pr_codeHash = ''000042'', pr_expiresAt = 9, pr_attempts = 0\<rparr>"]
      demo_guess_of [of "''000042''"] redeemed
    by (simp add: demo_bridge_def begins_def)
qed

end
