(* ===== verification/ApiWriter.thy ===== *)
theory ApiWriter
  imports ApiRequests Analytics Version FileTransfer TransferProgress DeviceHistory
begin

text \<open>
  Answers of the HTTP API: the writer with its contract (\<open>internal/api/contract.go\<close>), the bodies and the
  codes of errors (\<open>internal/api/response.go\<close>), the bodies of requests (\<open>internal/api/request.go\<close>). A body is
  the value whose JSON the code writes. Reading JSON, the clock and the random generators are
  parameters, in \<open>Library\<close> and \<open>Draws\<close>.
\<close>

section \<open>Requests\<close>

text \<open>
  A request with the segments of its path, its query and its headers; \<open>ht_values\<close> are the path values
  the multiplexer sets. A header that is absent reads as the empty string.
\<close>

record HttpRequest =
  ht_method :: string
  ht_path :: "string list"
  ht_query :: "(string \<times> string) list"
  ht_header :: "string \<Rightarrow> string"
  ht_body :: Reader
  ht_remote :: string
  ht_values :: "string \<Rightarrow> string"

definition query_get :: "HttpRequest \<Rightarrow> string \<Rightarrow> string" where
  "query_get r k = (case map_of (ht_query r) k of None \<Rightarrow> '''' | Some v \<Rightarrow> v)"

definition query_all :: "HttpRequest \<Rightarrow> string \<Rightarrow> string list" where
  "query_all r k = map snd (filter (\<lambda>q. fst q = k) (ht_query r))"

definition PathValue :: "HttpRequest \<Rightarrow> string \<Rightarrow> string" where
  "PathValue r k = ht_values r k"

definition maximumJSONBodySize :: nat where "maximumJSONBodySize = 1048576"

text \<open>
  \<open>decode\<close> is \<open>Decoder.Decode\<close> into the type of the handler, on the bytes the limited reader can give. All
  targets are objects, whose end needs no further byte, so that a reader that fails after them does not matter.
\<close>

definition decodeJSON :: "(string \<Rightarrow> 'a option) \<Rightarrow> HttpRequest \<Rightarrow> 'a option" where
  "decodeJSON decode r = decode (take maximumJSONBodySize (rd_data (ht_body r)))"

section \<open>Answers (api/response.go)\<close>

record TOTPSetup =
  su_Secret :: string
  su_URI :: string

datatype Json =
    JVersion Information | JTokens TokenPair | JSetup TOTPSetup | JUser User
  | JDevice Device | JDevices "Device list" | JLANIdentity LANIdentity | JChallenge SessionChallenge
  | JGroup Group | JGroups "Group list" | JDetails Details | JMember Member | JGroupDevice GroupDevice
  | JTransfer Transfer | JTransfers "Transfer list" | JPage "Transfer list" string
  | JTimeline "TimelineEvent list" | JEvent TimelineEvent
  | JChunk ChunkRecord | JFile FileRecord | JBatch BatchResult
  | JOverview Overview | JDaily "DailyTransfer list" | JDeviceStatistics "DeviceStatistic list"
  | JGroupStatistics "GroupStatistic list" | JNodeStatistics "NodeMetric list"
  | JError string string string "(string \<times> string) list"
  | JErrorCode string

datatype AnswerBody = NoBody | JsonBody Json | Octets string | PlainText string

text \<open>\<open>contractResponseWriter\<close> with the headers and the body of the response below it.\<close>

record contractResponseWriter =
  wr_requestID :: string
  wr_versioned :: bool
  wr_status :: int
  wr_errorCode :: string
  wr_transferID :: string
  wr_headers :: "(string \<times> string) list"
  wr_body :: AnswerBody

text \<open>\<open>Header().Set\<close> replaces the values of a header.\<close>

definition set_header :: "string \<Rightarrow> string \<Rightarrow> contractResponseWriter \<Rightarrow> contractResponseWriter" where
  "set_header k v w = w\<lparr>wr_headers := filter (\<lambda>h. fst h \<noteq> k) (wr_headers w) @ [(k, v)]\<rparr>"

definition header_of :: "contractResponseWriter \<Rightarrow> string \<Rightarrow> string option" where
  "header_of w k = map_of (wr_headers w) k"

definition WriteHeader :: "int \<Rightarrow> contractResponseWriter \<Rightarrow> contractResponseWriter" where
  "WriteHeader status w = w\<lparr>wr_status := status\<rparr>"

definition writeJSON :: "int \<Rightarrow> Json \<Rightarrow> contractResponseWriter \<Rightarrow> contractResponseWriter" where
  "writeJSON status v w =
     (let contentType = (if wr_versioned w then versionMediaType @ ''; charset=utf-8'' else ''application/json; charset=utf-8'')
      in (WriteHeader status (set_header ''Content-Type'' contentType w))\<lparr>wr_body := JsonBody v\<rparr>)"

definition errorMessage :: "string \<Rightarrow> string" where
  "errorMessage c =
     (if c = ''INTERNAL_ERROR'' then ''The server could not complete the request.''
      else if c = ''RATE_LIMITED'' then ''Too many requests. Wait for the Retry-After interval before retrying.''
      else ''The request could not be completed ('' @ c @ '').'')"

definition writeErrorDetails :: "int \<Rightarrow> string \<Rightarrow> (string \<times> string) list \<Rightarrow> contractResponseWriter \<Rightarrow> contractResponseWriter" where
  "writeErrorDetails status c details w =
     (let w = w\<lparr>wr_errorCode := c\<rparr>
      in if wr_versioned w then writeJSON status (JError c (errorMessage c) (wr_requestID w) details) w
         else writeJSON status (JErrorCode c) w)"

definition writeError :: "int \<Rightarrow> string \<Rightarrow> contractResponseWriter \<Rightarrow> contractResponseWriter" where
  "writeError status c w = writeErrorDetails status c [] w"

text \<open>\<open>w.WriteHeader(http.StatusNoContent)\<close>.\<close>

definition noContent :: "contractResponseWriter \<Rightarrow> contractResponseWriter" where
  "noContent w = WriteHeader 204 w"

section \<open>Errors of the services\<close>

fun writeDeviceError :: "device_error \<Rightarrow> contractResponseWriter \<Rightarrow> contractResponseWriter" where
  "writeDeviceError device_error.ErrInvalid = writeError 400 ''INVALID_DEVICE''"
| "writeDeviceError device_error.ErrNotFound = writeError 404 ''DEVICE_NOT_FOUND''"
| "writeDeviceError device_error.ErrForbidden = writeError 403 ''PERMISSION_DENIED''"
| "writeDeviceError _ = writeError 500 ''INTERNAL_ERROR''"

fun writeGroupError :: "group_error \<Rightarrow> contractResponseWriter \<Rightarrow> contractResponseWriter" where
  "writeGroupError group_error.ErrInvalid = writeError 400 ''INVALID_GROUP_REQUEST''"
| "writeGroupError group_error.ErrNotFound = writeError 404 ''GROUP_NOT_FOUND''"
| "writeGroupError group_error.ErrForbidden = writeError 403 ''PERMISSION_DENIED''"
| "writeGroupError group_error.ErrConflict = writeError 409 ''GROUP_CONFLICT''"
| "writeGroupError _ = writeError 500 ''INTERNAL_ERROR''"

fun writeTransferError :: "transfer_error \<Rightarrow> contractResponseWriter \<Rightarrow> contractResponseWriter" where
  "writeTransferError transfer_error.ErrInvalid = writeError 400 ''INVALID_TRANSFER''"
| "writeTransferError transfer_error.ErrNotFound = writeError 404 ''TRANSFER_NOT_FOUND''"
| "writeTransferError transfer_error.ErrForbidden = writeError 403 ''PERMISSION_DENIED''"
| "writeTransferError transfer_error.ErrFileTooLarge = writeError 413 ''FILE_TOO_LARGE''"
| "writeTransferError transfer_error.ErrQuotaExceeded = writeError 507 ''QUOTA_EXCEEDED''"
| "writeTransferError transfer_error.ErrStorageFull = writeError 507 ''STORAGE_FULL''"
| "writeTransferError transfer_error.ErrConflict = writeError 409 ''TRANSFER_STATE_CONFLICT''"
| "writeTransferError transfer_error.ErrIdempotencyConflict = writeError 409 ''IDEMPOTENCY_CONFLICT''"
| "writeTransferError _ = writeError 500 ''INTERNAL_ERROR''"

fun writeFileError :: "file_error \<Rightarrow> contractResponseWriter \<Rightarrow> contractResponseWriter" where
  "writeFileError file_error.ErrInvalid = writeError 400 ''INVALID_FILE_OPERATION''"
| "writeFileError file_error.ErrNotFound = writeError 404 ''FILE_NOT_FOUND''"
| "writeFileError file_error.ErrForbidden = writeError 403 ''PERMISSION_DENIED''"
| "writeFileError file_error.ErrConflict = writeError 409 ''FILE_CONFLICT''"
| "writeFileError file_error.ErrHash = writeError 422 ''HASH_MISMATCH''"
| "writeFileError file_error.ErrIncomplete = writeError 409 ''FILE_INCOMPLETE''"
| "writeFileError _ = writeError 500 ''INTERNAL_ERROR''"

fun writeAnalyticsError :: "analytics_error \<Rightarrow> contractResponseWriter \<Rightarrow> contractResponseWriter" where
  "writeAnalyticsError analytics_error.ErrInvalid = writeError 400 ''INVALID_ANALYTICS_REQUEST''"
| "writeAnalyticsError analytics_error.ErrForbidden = writeError 403 ''PERMISSION_DENIED''"
| "writeAnalyticsError analytics_error.ErrConflict = writeError 409 ''IDEMPOTENCY_CONFLICT''"
| "writeAnalyticsError _ = writeError 500 ''INTERNAL_ERROR''"

section \<open>The contract of every answer (api/contract.go)\<close>

definition versioned_request :: "HttpRequest \<Rightarrow> bool" where
  "versioned_request r \<longleftrightarrow> Contains (ht_header r ''Accept'') versionMediaType"

text \<open>\<open>random\<close> are the sixteen bytes, if they can be drawn, and \<open>nanos\<close> is the clock.\<close>

definition masked :: "nat \<Rightarrow> nat \<Rightarrow> char \<Rightarrow> char" where
  "masked low high c = char_of (code c mod low + high)"

definition newRequestID :: "string option \<Rightarrow> int \<Rightarrow> string" where
  "newRequestID random nanos =
     (case random of
        None \<Rightarrow> ''request-'' @ Itoa nanos
      | Some b \<Rightarrow>
          let b = b[6 := masked 16 64 (b ! 6), 8 := masked 64 128 (b ! 8)];
              part = (\<lambda>i j. hex_encode (take (j - i) (drop i b)))
          in part 0 4 @ ''-'' @ part 4 6 @ ''-'' @ part 6 8 @ ''-'' @ part 8 10 @ ''-'' @ part 10 16)"

definition negotiated :: "HttpRequest \<Rightarrow> string list" where
  "negotiated r = MutualCapabilities [SupportedCapabilities, split_on CHR '','' (ht_header r ''X-NexDrop-Capabilities'')]"

text \<open>The writer the next handler gets.\<close>

definition contract_writer :: "string \<Rightarrow> HttpRequest \<Rightarrow> contractResponseWriter" where
  "contract_writer requestID r =
     (let w = \<lparr>wr_requestID = requestID, wr_versioned = versioned_request r, wr_status = 0, wr_errorCode = '''',
                wr_transferID = '''', wr_headers = [], wr_body = NoBody\<rparr>;
          w = set_header ''X-NexDrop-API-Version'' APIVersion (set_header ''X-Request-ID'' requestID w)
      in if negotiated r \<noteq> [] then set_header ''X-NexDrop-Capabilities'' (join_with '','' (negotiated r)) w else w)"

text \<open>What is counted after the handler: name, labels. The durations are left out.\<close>

definition request_metrics :: "contractResponseWriter \<Rightarrow> (string \<times> (string \<times> string) list) list" where
  "request_metrics w =
     (let status = (if wr_status w = 0 then 200 else wr_status w);
          result = (if 400 \<le> status then ''failure'' else ''success'');
          errorCode = (if wr_errorCode w = '''' then ''NONE'' else wr_errorCode w)
      in [(''nexdrop_api_requests_total'', [(''operation'', ''request''), (''result'', result), (''error_code'', errorCode)]),
          (''nexdrop_api_request_seconds'', [(''operation'', ''request''), (''result'', result)])] @
         (if errorCode = ''STORAGE_FULL'' \<or> errorCode = ''QUOTA_EXCEEDED''
          then [(''nexdrop_storage_rejection_total'', [(''error_code'', errorCode), (''result'', ''rejected'')])] else []))"

section \<open>What the writers keep\<close>

named_theorems answers \<open>unfolding rules of the writers\<close>

lemmas [answers] = writeError_def writeErrorDetails_def writeJSON_def noContent_def WriteHeader_def set_header_def Let_def

text \<open>The answer as clients of both contracts see it: the code of an error with its status.\<close>

definition refused :: "int \<Rightarrow> string \<Rightarrow> contractResponseWriter \<Rightarrow> contractResponseWriter \<Rightarrow> bool" where
  "refused status c w w' \<longleftrightarrow> wr_status w' = status \<and> wr_errorCode w' = c \<and>
     wr_body w' = JsonBody (if wr_versioned w then JError c (errorMessage c) (wr_requestID w) [] else JErrorCode c)"

lemma writeError_refused: "refused status c w (writeError status c w)"
  by (simp add: refused_def answers)

text \<open>The headers a writer has from the contract stay, whatever a handler writes.\<close>

definition contract_kept :: "contractResponseWriter \<Rightarrow> contractResponseWriter \<Rightarrow> bool" where
  "contract_kept w w' \<longleftrightarrow> wr_requestID w' = wr_requestID w \<and> wr_versioned w' = wr_versioned w \<and>
     (\<forall>k. HasPrefix k ''X-'' \<longrightarrow> header_of w' k = header_of w k) \<and>
     (wr_errorCode w' \<noteq> wr_errorCode w \<longrightarrow> 400 \<le> wr_status w')"

end
