(* ===== verification/ApiNode.thy ===== *)
theory ApiNode
  imports ApiWriter DeviceGroups
begin

text \<open>
  What the handlers of \<open>internal/api/api.go\<close> share: the Node they serve, whose tables are those of all
  services, the parts of it each service works on, sessions (\<open>authenticate\<close>), the key of the Node,
  pages and ranges of time; and the setup of one-time passwords (\<open>SetupTOTP\<close> of \<open>internal/auth/service.go\<close>).
\<close>

section \<open>The Node and its parts\<close>

text \<open>All tables, the chunks on the disk and the windows of the limiter of logins.\<close>

record node =
  nd_db :: analytics_db
  nd_files :: file_tables
  nd_disk :: disk
  nd_windows :: windows

definition users_part :: "node \<Rightarrow> auth_db" where
  "users_part n = auth_db.truncate (nd_db n)"

definition put_users :: "auth_db \<Rightarrow> node \<Rightarrow> node" where
  "put_users a n = n\<lparr>nd_db := (nd_db n)\<lparr>db_users := db_users a, db_sessions := db_sessions a\<rparr>\<rparr>"

text \<open>The devices that rows of transfers refer to, besides those of the tables that are not modelled.\<close>

definition transfer_devices :: "transfer_db \<Rightarrow> string list" where
  "transfer_devices db = map task_sender_device (db_tasks db) @ map tgt_device (db_targets db) @
     map ftr_device (db_file_targets db) @ map ex_device (db_executions db)"

definition devices_part :: "node \<Rightarrow> device_db" where
  "devices_part n = (device_db.truncate (nd_db n))\<lparr>ddb_referenced := ddb_referenced (nd_db n) @ transfer_devices (ft_db (nd_files n))\<rparr>"

definition put_devices :: "device_db \<Rightarrow> node \<Rightarrow> node" where
  "put_devices d n = n\<lparr>nd_db := (nd_db n)\<lparr>db_users := db_users d, db_sessions := db_sessions d, ddb_devices := ddb_devices d,
     ddb_keys := ddb_keys d, ddb_lan := ddb_lan d, ddb_connections := ddb_connections d, ddb_challenges := ddb_challenges d,
     ddb_codes := ddb_codes d\<rparr>\<rparr>"

text \<open>What the deletion of a device takes with it in the tables of the other services.\<close>

definition cascade_device :: "string \<Rightarrow> node \<Rightarrow> node" where
  "cascade_device i n =
     (let files = nd_files n; t = ft_db files;
          t' = t\<lparr>db_deliveries := filter (\<lambda>r. dl_device r \<noteq> i) (db_deliveries t),
                 db_keys := filter (\<lambda>r. key_device r \<noteq> i) (db_keys t),
                 db_notices := filter (\<lambda>r. nt_device r \<noteq> i) (db_notices t),
                 db_idempotency := filter (\<lambda>r. idm_device r \<noteq> i) (db_idempotency t),
                 db_timeline := map (\<lambda>e. if ev_TargetDeviceID e = i then e\<lparr>ev_TargetDeviceID := ''''\<rparr> else e) (db_timeline t)\<rparr>
      in n\<lparr>nd_db := (nd_db n)\<lparr>gdb_devices := filter (\<lambda>v. gv_device v \<noteq> i) (gdb_devices (nd_db n)),
                              adb_batches := filter (\<lambda>b. bt_device b \<noteq> i) (adb_batches (nd_db n))\<rparr>,
           nd_files := files\<lparr>ft_db := t'\<rparr>\<rparr>)"

definition groups_part :: "node \<Rightarrow> group_db" where
  "groups_part n = (group_db.truncate (nd_db n))\<lparr>gdb_referenced :=
     gdb_referenced (nd_db n) @ List.map_filter task_group (db_tasks (ft_db (nd_files n)))\<rparr>"

definition put_groups :: "group_db \<Rightarrow> node \<Rightarrow> node" where
  "put_groups g n = n\<lparr>nd_db := (nd_db n)\<lparr>gdb_groups := gdb_groups g, gdb_members := gdb_members g, gdb_devices := gdb_devices g\<rparr>\<rparr>"

definition transfers_part :: "node \<Rightarrow> transfer_db" where
  "transfers_part n = transfer_view (group_db.truncate (nd_db n)) (ft_db (nd_files n))"

definition put_transfers :: "transfer_db \<Rightarrow> node \<Rightarrow> node" where
  "put_transfers t n = n\<lparr>nd_files := (nd_files n)\<lparr>ft_db := t\<rparr>\<rparr>"

definition files_part :: "node \<Rightarrow> file_tables \<times> disk" where
  "files_part n = ((nd_files n)\<lparr>ft_db := transfers_part n\<rparr>, nd_disk n)"

definition put_files :: "file_tables \<times> disk \<Rightarrow> node \<Rightarrow> node" where
  "put_files s n = n\<lparr>nd_files := fst s, nd_disk := snd s\<rparr>"

definition put_metrics :: "analytics_db \<Rightarrow> node \<Rightarrow> node" where
  "put_metrics db n = n\<lparr>nd_db := db\<rparr>"

section \<open>The API (api/api.go)\<close>

text \<open>
  What the handlers call outside the repository: digests, texts of instants, network addresses, escaping,
  the JSON and the digests of values, and the decoding of the bodies of requests.
\<close>

record Library =
  lib_sha256 :: "string \<Rightarrow> string"
  lib_hmac :: hmac
  lib_parse_time :: "string \<Rightarrow> time option"
  lib_format_nano :: "time \<Rightarrow> string"
  lib_parse_nano :: "string \<Rightarrow> time option"
  lib_date_text :: "int \<Rightarrow> string"
  lib_splitHostPort :: "string \<Rightarrow> string option"
  lib_path_escape :: "string \<Rightarrow> string"
  lib_query_escape :: "string \<Rightarrow> string"
  lib_marshal_request :: "Request \<Rightarrow> string option"
  lib_marshal_metrics :: "Metric list \<Rightarrow> string option"
  lib_hash_progress :: "Progress \<Rightarrow> string"
  lib_hash_report :: "TimelineEventReport \<Rightarrow> string"
  js_refresh :: "string \<Rightarrow> string option"
  js_login :: "string \<Rightarrow> (string \<times> string \<times> string) option"
  js_password :: "string \<Rightarrow> string option"
  js_totp :: "string \<Rightarrow> (string \<times> string \<times> string) option"
  js_verify :: "string \<Rightarrow> (string \<times> string) option"
  js_device :: "string \<Rightarrow> (string \<times> DeviceType \<times> string \<times> string) option"
  js_certificate :: "string \<Rightarrow> string option"
  js_displayName :: "string \<Rightarrow> string option"
  js_attach :: "string \<Rightarrow> (string \<times> string) option"
  js_name :: "string \<Rightarrow> string option"
  js_member :: "string \<Rightarrow> (string \<times> Role) option"
  js_group_device :: "string \<Rightarrow> string option"
  js_transfer :: "string \<Rightarrow> Request option"
  js_report :: "string \<Rightarrow> TimelineEventReport option"
  js_progress :: "string \<Rightarrow> Progress option"
  js_metrics :: "string \<Rightarrow> Metric list option"

text \<open>\<open>api_build\<close> holds what the version document takes from the build and from the environment.\<close>

record API =
  api_auth :: AuthService
  api_crypto :: Crypto
  api_x509 :: X509
  api_root :: string
  api_loginLimit :: int
  api_cursorKey :: string
  api_nodeKey :: string
  api_build :: "string \<times> string \<times> string"
  api_lib :: Library

text \<open>\<open>limit\<close> and \<open>key\<close> are the two variables of the environment; an absent one is empty.\<close>

definition NewWithCursorKey :: "string \<Rightarrow> string \<Rightarrow> string \<Rightarrow> API \<Rightarrow> API" where
  "NewWithCursorKey cursorKey limit key api =
     api\<lparr>api_loginLimit := rateLimit limit 10, api_cursorKey := cursorKey, api_nodeKey := TrimSpace key\<rparr>"

definition New_API :: "string \<Rightarrow> string \<Rightarrow> API \<Rightarrow> API" where
  "New_API = NewWithCursorKey ''nexdrop-development-cursor-key''"

text \<open>The clock, what the random generators return, the identifiers the database draws, a failing disk.\<close>

record Draws =
  dw_now :: time
  dw_token1 :: "string option"
  dw_token2 :: "string option"
  dw_newID :: string
  dw_ids :: NewIDs
  dw_ephemeral :: "string option"
  dw_nonce :: "string option"
  dw_totp :: "string option"
  dw_temp :: string
  dw_fault :: fault
  dw_request :: "string option"
  dw_nanos :: int

type_synonym handler = "API \<Rightarrow> Draws \<Rightarrow> HttpRequest \<Rightarrow> node \<Rightarrow> contractResponseWriter \<Rightarrow> node \<times> contractResponseWriter"

text \<open>The constant time comparison is an equality.\<close>

definition nodeKeyRequired :: "handler \<Rightarrow> handler" where
  "nodeKeyRequired next api dw r n w =
     (if api_nodeKey api = '''' then next api dw r n w
      else let provided = TrimSpace (ht_header r ''X-NexDrop-Node-Key'')
           in if length provided \<noteq> length (api_nodeKey api) \<or> provided \<noteq> api_nodeKey api
              then (n, writeError 401 ''NODE_KEY_REQUIRED'' w)
              else next api dw r n w)"

definition authenticate :: "API \<Rightarrow> Draws \<Rightarrow> HttpRequest \<Rightarrow> node \<Rightarrow> contractResponseWriter \<Rightarrow> contractResponseWriter + Session" where
  "authenticate api dw r n w =
     (let header = ht_header r ''Authorization''
      in if \<not> HasPrefix header ''Bearer '' then Inl (writeError 401 ''INVALID_TOKEN'' w)
         else let token = TrimSpace (TrimPrefix header ''Bearer '')
              in case Authenticate (api_auth api) (users_part n) (dw_now dw) token of
                Inl e \<Rightarrow> Inl (if e = auth_error.ErrInvalidCredentials then writeError 401 ''INVALID_TOKEN'' w
                  else writeError 503 ''SERVICE_UNAVAILABLE'' w)
              | Inr session \<Rightarrow> Inr session)"

text \<open>\<open>session, ok := api.authenticate(w, r); if !ok { return }\<close>.\<close>

definition with_session :: "(Session \<Rightarrow> handler) \<Rightarrow> handler" where
  "with_session rest api dw r n w =
     (case authenticate api dw r n w of Inl w' \<Rightarrow> (n, w') | Inr session \<Rightarrow> rest session api dw r n w)"

text \<open>Decoding the body with \<open>INVALID_REQUEST\<close> for an error.\<close>

definition with_body :: "(Library \<Rightarrow> string \<Rightarrow> 'a option) \<Rightarrow> ('a \<Rightarrow> handler) \<Rightarrow> handler" where
  "with_body decode rest api dw r n w =
     (case decodeJSON (decode (api_lib api)) r of
        None \<Rightarrow> (n, writeError 400 ''INVALID_REQUEST'' w)
      | Some request \<Rightarrow> rest request api dw r n w)"

text \<open>\<open>key, ok := requireIdempotencyKey(w, r); if !ok { return }\<close>; the key is empty for the old contract.\<close>

definition with_key :: "(string \<Rightarrow> handler) \<Rightarrow> handler" where
  "with_key rest api dw r n w =
     (case requireIdempotencyKey (ht_header r ''Accept'') (ht_header r ''Idempotency-Key'') of
        None \<Rightarrow> (n, writeError 400 ''IDEMPOTENCY_KEY_REQUIRED'' w)
      | Some key \<Rightarrow> rest key api dw r n w)"

section \<open>Setting up one-time passwords (auth/service.go)\<close>

fun b32_digits :: "nat list \<Rightarrow> nat list" where
  "b32_digits (a # b # c # d # e # r) =
     [a div 8, a mod 8 * 4 + b div 64, b div 2 mod 32, b mod 2 * 16 + c div 16, c mod 16 * 2 + d div 128, d div 4 mod 32,
      d mod 4 * 8 + e div 32, e mod 32] @ b32_digits r"
| "b32_digits [] = []"
| "b32_digits [a] = [a div 8, a mod 8 * 4]"
| "b32_digits [a, b] = [a div 8, a mod 8 * 4 + b div 64, b div 2 mod 32, b mod 2 * 16]"
| "b32_digits [a, b, c] = [a div 8, a mod 8 * 4 + b div 64, b div 2 mod 32, b mod 2 * 16 + c div 16, c mod 16 * 2]"
| "b32_digits [a, b, c, d] = [a div 8, a mod 8 * 4 + b div 64, b div 2 mod 32, b mod 2 * 16 + c div 16,
     c mod 16 * 2 + d div 128, d div 4 mod 32, d mod 4 * 8]"

definition b32_encode :: "string \<Rightarrow> string" where
  "b32_encode s = map (\<lambda>i. b32_alphabet ! i) (b32_digits (map code s))"

text \<open>\<open>Values.Encode\<close> sorts by key.\<close>

definition SetupTOTP :: "Library \<Rightarrow> AuthService \<Rightarrow> auth_db \<Rightarrow> string option \<Rightarrow> Session \<Rightarrow> string \<Rightarrow> auth_error + TOTPSetup" where
  "SetupTOTP lib svc db random session password =
     (if \<not> usr_Admin session \<or> \<not> validPassword svc db (usr_Username session) password then Inl auth_error.ErrInvalidCredentials
      else case random of
        None \<Rightarrow> Inl auth_error.ErrRandom
      | Some v \<Rightarrow>
          let secret = b32_encode v
          in Inr \<lparr>su_Secret = secret,
               su_URI = ''otpauth://totp/'' @ lib_path_escape lib (''NexDrop:'' @ usr_Username session) @
                 ''?algorithm=SHA1&digits=6&issuer=NexDrop&period=30&secret='' @ lib_query_escape lib secret\<rparr>)"

section \<open>Pages and ranges of time\<close>

text \<open>\<open>domain.TransferStatus\<close> of a text.\<close>

definition status_texts :: "(string \<times> TransferStatus) list" where
  "status_texts =
     [(''CREATED'', TransferCreated), (''CHECKING_ROUTE'', TransferCheckingRoute), (''WAITING_FOR_TARGET'', TransferWaitingForTarget),
      (''WAITING_FOR_NODE'', TransferWaitingForNode), (''WAITING_FOR_LAN'', TransferWaitingForLAN), (''QUEUED'', TransferQueued),
      (''UPLOADING_TO_NODE'', TransferUploadingToNode), (''AVAILABLE_ON_NODE'', TransferAvailableOnNode),
      (''DOWNLOADING_FROM_NODE'', TransferDownloading), (''TRANSFERRING_LAN'', TransferTransferringLAN), (''PAUSED'', TransferPaused),
      (''VERIFYING'', TransferVerifying), (''DELIVERED'', TransferDelivered), (''READ'', TransferRead), (''FAILED'', TransferFailed),
      (''CANCELLED'', TransferCancelled), (''EXPIRED'', TransferExpired), (''SOURCE_FILE_MISSING'', TransferSourceFileMissing),
      (''SOURCE_FILE_CHANGED'', TransferSourceFileChanged)]"

definition status_of_text :: "string \<Rightarrow> TransferStatus" where
  "status_of_text s = (case map_of status_texts s of None \<Rightarrow> TransferStatusOther s | Some v \<Rightarrow> v)"

text \<open>An optional instant of the query: \<open>None\<close> when it cannot be parsed.\<close>

definition query_time :: "Library \<Rightarrow> HttpRequest \<Rightarrow> string \<Rightarrow> time \<Rightarrow> time option" where
  "query_time lib r k absent = (let v = query_get r k in if v = '''' then Some absent else lib_parse_time lib v)"

text \<open>\<open>None\<close> is the error of the page options, whatever they hold.\<close>

definition transferPageOptions :: "API \<Rightarrow> HttpRequest \<Rightarrow> PageOptions option" where
  "transferPageOptions api r =
     (let cursor = TrimSpace (query_get r ''cursor'');
          (limit, ok) = (if query_get r ''limit'' = '''' then (50, True) else Atoi (query_get r ''limit''))
      in if \<not> ok \<or> limit < 1 \<or> 100 < limit then None
         else case (query_time (api_lib api) r ''from'' 0, query_time (api_lib api) r ''to'' 0) of
           (Some from, Some to) \<Rightarrow>
             let options = \<lparr>po_Limit = limit, po_Cursor = \<lparr>pk_ID = '''', pk_CreatedAt = 0\<rparr>, po_From = from, po_To = to,
                   po_Status = status_of_text (query_get r ''status'')\<rparr>
             in if cursor = '''' then Some options
                else map_option (\<lambda>(t, i). options\<lparr>po_Cursor := \<lparr>pk_ID = i, pk_CreatedAt = t\<rparr>\<rparr>)
                  (decodeCursor (lib_hmac (api_lib api)) (lib_parse_nano (api_lib api)) (api_cursorKey api) cursor)
         | _ \<Rightarrow> None)"

definition parseTimeRange :: "API \<Rightarrow> Draws \<Rightarrow> HttpRequest \<Rightarrow> TimeRange option" where
  "parseTimeRange api dw r =
     (case (query_time (api_lib api) r ''from'' (dw_now dw - 7 * 24 * hour), query_time (api_lib api) r ''to'' (dw_now dw)) of
        (Some from, Some to) \<Rightarrow> Some \<lparr>rng_From = from, rng_To = to\<rparr>
      | _ \<Rightarrow> None)"

section \<open>What the setup shows can be enabled\<close>

lemma b32_bytes:
  fixes a b c d e :: nat
  assumes "a < 256" "b < 256" "c < 256" "d < 256" "e < 256"
  shows "a div 8 * 8 + (a mod 8 * 4 + b div 64) div 4 = a"
    "((a mod 8 * 4 + b div 64) * 64 + b div 2 mod 32 * 2 + (b mod 2 * 16 + c div 16) div 16) mod 256 = b"
    "((b mod 2 * 16 + c div 16) * 16 + (c mod 16 * 2 + d div 128) div 2) mod 256 = c"
    "((c mod 16 * 2 + d div 128) * 128 + d div 4 mod 32 * 4 + (d mod 4 * 8 + e div 32) div 8) mod 256 = d"
    "((d mod 4 * 8 + e div 32) * 32 + e mod 32) mod 256 = e"
proof -
  have split: "x div (k * m) * (k * m) + x div k mod m * k + x mod k = x" for x k m :: nat
    by (metis add.commute add_mult_distrib div_mult2_eq div_mult_mod_eq mult.assoc mult.commute)
  have drop: "(x * m * k + y) mod 256 = y" if "m * k = 256" "y < 256" for x m k y :: nat
    using that by (metis mod_less mod_mult_self3 mult.assoc)
  have carry: "(b mod 2 * 16 + c div 16) div 16 = b mod 2" "(c mod 16 * 2 + d div 128) div 2 = c mod 16"
    "(d mod 4 * 8 + e div 32) div 8 = d mod 4" using assms by simp_all
  show "a div 8 * 8 + (a mod 8 * 4 + b div 64) div 4 = a" using assms by simp
  have "b div 64 * 64 + b div 2 mod 32 * 2 + b mod 2 = b" using split [of b 2 32] by simp
  then show "((a mod 8 * 4 + b div 64) * 64 + b div 2 mod 32 * 2 + (b mod 2 * 16 + c div 16) div 16) mod 256 = b"
    using drop [of 4 64 b "a mod 8"] assms(2) unfolding carry by (simp add: add_mult_distrib add.assoc)
  have "c div 16 * 16 + c mod 16 = c" by simp
  then show "((b mod 2 * 16 + c div 16) * 16 + (c mod 16 * 2 + d div 128) div 2) mod 256 = c"
    using drop [of 16 16 c "b mod 2"] assms(3) unfolding carry by (simp add: add_mult_distrib add.assoc)
  have "d div 128 * 128 + d div 4 mod 32 * 4 + d mod 4 = d" using split [of d 4 32] by simp
  then show "((c mod 16 * 2 + d div 128) * 128 + d div 4 mod 32 * 4 + (d mod 4 * 8 + e div 32) div 8) mod 256 = d"
    using drop [of 2 128 d "c mod 16"] assms(4) unfolding carry by (simp add: add_mult_distrib add.assoc)
  have "e div 32 * 32 + e mod 32 = e" by simp
  then show "((d mod 4 * 8 + e div 32) * 32 + e mod 32) mod 256 = e"
    using drop [of 8 32 e "d mod 4"] assms(5) by (simp add: add_mult_distrib add.assoc)
qed

lemma b32_digits_less: "list_all (\<lambda>x. x < 256) bs \<Longrightarrow> list_all (\<lambda>x. x < 32) (b32_digits bs)"
proof (induction bs rule: b32_digits.induct)
  case (1 a b c d e r)
  then have "a < 256" "b < 256" "c < 256" "d < 256" "e < 256" by simp_all
  then have "a div 8 < 32" "a mod 8 * 4 + b div 64 < 32" "b mod 2 * 16 + c div 16 < 32" "c mod 16 * 2 + d div 128 < 32" "d mod 4 * 8 + e div 32 < 32" by linarith+
  moreover have "x div 2 mod 32 < 32" "x div 4 mod 32 < 32" "x mod 32 < 32" for x :: nat by simp_all
  ultimately show ?case using 1 by (simp only: b32_digits.simps append_Cons append_Nil list.pred_inject simp_thms)
next
  case (3 a)
  then have "a < 256" by simp_all
  then have "a div 8 < 32" "a mod 8 * 4 < 32" by linarith+
  moreover have "x div 2 mod 32 < 32" "x div 4 mod 32 < 32" "x mod 32 < 32" for x :: nat by simp_all
  ultimately show ?case using 3 by (simp only: b32_digits.simps append_Cons append_Nil list.pred_inject simp_thms)
next
  case (4 a b)
  then have "a < 256" "b < 256" by simp_all
  then have "a div 8 < 32" "a mod 8 * 4 + b div 64 < 32" "b mod 2 * 16 < 32" by linarith+
  moreover have "x div 2 mod 32 < 32" "x div 4 mod 32 < 32" "x mod 32 < 32" for x :: nat by simp_all
  ultimately show ?case using 4 by (simp only: b32_digits.simps append_Cons append_Nil list.pred_inject simp_thms)
next
  case (5 a b c)
  then have "a < 256" "b < 256" "c < 256" by simp_all
  then have "a div 8 < 32" "a mod 8 * 4 + b div 64 < 32" "b mod 2 * 16 + c div 16 < 32" "c mod 16 * 2 < 32" by linarith+
  moreover have "x div 2 mod 32 < 32" "x div 4 mod 32 < 32" "x mod 32 < 32" for x :: nat by simp_all
  ultimately show ?case using 5 by (simp only: b32_digits.simps append_Cons append_Nil list.pred_inject simp_thms)
next
  case (6 a b c d)
  then have "a < 256" "b < 256" "c < 256" "d < 256" by simp_all
  then have "a div 8 < 32" "a mod 8 * 4 + b div 64 < 32" "b mod 2 * 16 + c div 16 < 32" "c mod 16 * 2 + d div 128 < 32" "d mod 4 * 8 < 32" by linarith+
  moreover have "x div 2 mod 32 < 32" "x div 4 mod 32 < 32" "x mod 32 < 32" for x :: nat by simp_all
  ultimately show ?case using 6 by (simp only: b32_digits.simps append_Cons append_Nil list.pred_inject simp_thms)
qed simp

lemma b32_quantum_full:
  "b32_quantum [a, b, c, d, e, f, g, h] =
     [a * 8 + b div 4, (b * 64 + c * 2 + d div 16) mod 256, (d * 16 + e div 2) mod 256, (e * 128 + f * 4 + g div 8) mod 256,
      (g * 32 + h) mod 256]"
  unfolding b32_quantum_def Let_def by simp

lemma b32_groups_digits:
  assumes "list_all (\<lambda>x. x < 256) bs" and "5 dvd length bs"
  shows "b32_groups (b32_digits bs) = bs"
  using assms
proof (induction bs rule: b32_digits.induct)
  case (1 a b c d e r)
  have "5 + length r = length (a # b # c # d # e # r)" by simp
  then have "5 dvd length r" using 1(3) dvd_add_right_iff [of 5 5 "length r"] by (simp only: dvd_refl)
  then have "b32_groups (b32_digits r) = r" using 1 by simp
  moreover have "a < 256" "b < 256" "c < 256" "d < 256" "e < 256" using 1(2) by auto
  note b32_bytes [OF this]
  ultimately show ?case by (simp only: b32_digits.simps b32_groups.simps append_Cons append_Nil b32_quantum_full)
qed (simp add: b32_quantum_def, (drule dvd_imp_le, simp, simp)+)

lemma b32_alphabet_facts: "distinct b32_alphabet" "length b32_alphabet = 32"
    "CHR 0x0A \<notin> set b32_alphabet" "CHR 0x0D \<notin> set b32_alphabet"
  unfolding b32_alphabet_def by simp_all

lemma b32_encode_alphabet: "set (b32_encode s) \<subseteq> set b32_alphabet"
proof -
  have "list_all (\<lambda>x. x < 32) (b32_digits (map code s))" by (intro b32_digits_less) (simp add: list_all_iff)
  then show ?thesis using b32_alphabet_facts(2) by (auto simp: b32_encode_def list_all_iff)
qed

lemma b32_decode_encode:
  assumes "5 dvd length s"
  shows "b32_decode (b32_encode s) = Some s"
proof -
  let ?ns = "b32_digits (map code s)"
  have bytes: "list_all (\<lambda>x. x < 256) (map code s)" by (simp add: list_all_iff)
  have less: "n < 32" if "n \<in> set ?ns" for n using b32_digits_less [OF bytes] that by (simp add: list_all_iff)
  have "filter (\<lambda>c. c \<noteq> CHR 0x0A \<and> c \<noteq> CHR 0x0D) (b32_encode s) = b32_encode s"
  proof (rule filter_True, rule ballI)
    fix c assume "c \<in> set (b32_encode s)"
    then have "c \<in> set b32_alphabet" using b32_encode_alphabet by blast
    then show "c \<noteq> CHR 0x0A \<and> c \<noteq> CHR 0x0D" using b32_alphabet_facts(3,4) by metis
  qed
  moreover have "map (\<lambda>c. index_of c b32_alphabet) (b32_encode s) = map Some ?ns"
    by (auto simp: b32_encode_def index_of_nth b32_alphabet_facts(1,2) less)
  moreover have "b32_groups ?ns = map code s" using assms bytes by (intro b32_groups_digits) simp_all
  ultimately show ?thesis by (simp add: b32_decode_def Let_def comp_def image_iff)
qed


text \<open>
  A secret the setup has shown can be enabled with the code that an authenticator computes from it: the
  code of the drawn bytes at the present time is accepted for the secret as it was shown.
\<close>

lemma setup_then_enable:
  assumes "SetupTOTP lib svc db (Some v) session password = Inr su" and "length v = 20"
    and "\<And>s. set s \<subseteq> set b32_alphabet \<Longrightarrow> svc_upper svc s = s"
  shows "EnableTOTP svc db now session password (su_Secret su) (totp_code (svc_hmac_sha1 svc) v (go_div (time_Unix now) 30)) =
    SetTOTPSecret db (usr_ID session) (su_Secret su)"
proof -
  have guard: "usr_Admin session" "validPassword svc db (usr_Username session) password" and secret: "su_Secret su = b32_encode v"
    using assms(1) by (auto simp: SetupTOTP_def Let_def split: if_splits)
  have "list_all (\<lambda>c. solid c \<and> c \<noteq> CHR '' '') b32_alphabet" unfolding b32_alphabet_def by (simp add: solid_def)
  then have visible: "solid c \<and> c \<noteq> CHR '' ''" if "c \<in> set (b32_encode v)" for c
    using that b32_encode_alphabet by (auto simp: list_all_iff)
  have "TrimSpace (b32_encode v) = b32_encode v"
    using visible by (intro TrimSpace_solid) (meson hd_in_set last_in_set)
  moreover have "filter (\<lambda>c. c \<noteq> CHR '' '') (b32_encode v) = b32_encode v" using visible by (intro filter_True) blast
  ultimately have plain: "normalizeSecret (svc_upper svc) (b32_encode v) = b32_encode v"
    using assms(3) [OF b32_encode_alphabet] by (simp add: normalizeSecret_def)
  moreover have "b32_decode (b32_encode v) = Some v" using assms(2) by (intro b32_decode_encode) simp
  moreover have "length (totp_code (svc_hmac_sha1 svc) v t) = 6" for t
    unfolding totp_code_def Let_def six_digits_def length_map by simp
  ultimately have "validTOTP (svc_hmac_sha1 svc) (svc_upper svc) (b32_encode v)
      (totp_code (svc_hmac_sha1 svc) v (go_div (time_Unix now) 30)) now"
    using assms(2) by (simp add: validTOTP_def)
  then show ?thesis using guard by (simp add: EnableTOTP_def secret plain)
qed

end
