(* ===== verification/ApiHandlers.thy ===== *)
theory ApiHandlers
  imports ApiNode
begin

text \<open>
  The handlers of \<open>internal/api/api.go\<close> and \<open>internal/api/device_session.go\<close>, one definition each, the table
  of routes and the multiplexer, and the whole API behind its contract (\<open>serve\<close>).
\<close>

section \<open>Logins and accounts\<close>

text \<open>The required capabilities of the query, in their order; the first that is not supported is the answer.\<close>

definition required_capabilities :: "HttpRequest \<Rightarrow> string list" where
  "required_capabilities r =
     filter (\<lambda>c. c \<noteq> '''') (map TrimSpace (concat (map (split_on CHR '','') (query_all r ''require''))))"

definition version :: handler where
  "version api dw r n w =
     (case find (\<lambda>c. RequireCapabilities SupportedCapabilities [c] \<noteq> Inr ()) (required_capabilities r) of
        Some c \<Rightarrow> (n, writeErrorDetails 409 CapabilityUnavailableCode [(''capability'', c), (''party'', ''node'')] w)
      | None \<Rightarrow> (n, writeJSON 200 (JVersion (case api_build api of (product, build, env) \<Rightarrow>
          Current (lib_sha256 (api_lib api)) product build env)) w))"

definition refresh :: handler where
  "refresh = with_body js_refresh (\<lambda>refreshToken api dw r n w.
     case Refresh (api_auth api) (users_part n) (dw_now dw) (dw_token1 dw) (dw_token2 dw) refreshToken of
       Inl e \<Rightarrow> (n, writeError 401 ''INVALID_TOKEN'' w)
     | Inr (a, pair) \<Rightarrow> (put_users a n, writeJSON 200 (JTokens pair) w))"

text \<open>The limiter counts a login before its password is looked at.\<close>

definition login :: handler where
  "login api dw r n w =
     (case decodeJSON (js_login (api_lib api)) r of
        None \<Rightarrow> (n, writeError 400 ''INVALID_REQUEST'' w)
      | Some (identifier, password, totp) \<Rightarrow>
          if identifier = '''' \<or> password = '''' then (n, writeError 400 ''INVALID_REQUEST'' w)
          else
            let key = rateLimitKey (lib_splitHostPort (api_lib api)) (svc_lower (api_auth api)) (ht_remote r) identifier;
                (ws, wait) = enforceRateLimit (api_loginLimit api) key (dw_now dw) (nd_windows n);
                n = n\<lparr>nd_windows := ws\<rparr>
            in case wait of
              Some seconds \<Rightarrow> (n, writeError 429 ''RATE_LIMITED'' (set_header ''Retry-After'' (Itoa seconds) w))
            | None \<Rightarrow>
                (case LoginWithTOTP (api_auth api) (users_part n) (dw_now dw) (dw_token1 dw) (dw_token2 dw) (dw_newID dw)
                    identifier password totp of
                   Inl e \<Rightarrow> (n, writeError 401 (if e = auth_error.ErrTOTPRequired then ''TOTP_REQUIRED'' else ''INVALID_CREDENTIALS'') w)
                 | Inr (a, pair) \<Rightarrow> (put_users a n, writeJSON 200 (JTokens pair) w)))"

definition setupTOTP :: handler where
  "setupTOTP = with_session (\<lambda>session. with_body js_password (\<lambda>password api dw r n w.
     case SetupTOTP (api_lib api) (api_auth api) (users_part n) (dw_totp dw) session password of
       Inl e \<Rightarrow> (n, writeError 401 ''INVALID_CREDENTIALS'' w)
     | Inr setup \<Rightarrow> (n, writeJSON 200 (JSetup setup) w)))"

text \<open>A body that cannot be read is answered like a wrong password.\<close>

definition enableTOTP :: handler where
  "enableTOTP = with_session (\<lambda>session api dw r n w.
     case decodeJSON (js_totp (api_lib api)) r of
       None \<Rightarrow> (n, writeError 401 ''INVALID_TOTP_SETUP'' w)
     | Some (password, secret, c) \<Rightarrow>
         (case EnableTOTP (api_auth api) (users_part n) (dw_now dw) session password secret c of
            Inl e \<Rightarrow> (n, writeError 401 ''INVALID_TOTP_SETUP'' w)
          | Inr a \<Rightarrow> (put_users a n, noContent w)))"

definition verifyAdmin :: handler where
  "verifyAdmin = with_session (\<lambda>session api dw r n w.
     case decodeJSON (js_verify (api_lib api)) r of
       None \<Rightarrow> (n, writeError 401 ''ADMIN_VERIFICATION_FAILED'' w)
     | Some (password, totp) \<Rightarrow>
         (case VerifyAdmin (api_auth api) (users_part n) (dw_now dw) session password totp of
            Inl e \<Rightarrow> (n, writeError 401 ''ADMIN_VERIFICATION_FAILED'' w)
          | Inr a \<Rightarrow> (put_users a n, noContent w)))"

definition logout :: handler where
  "logout api dw r n w =
     (case decodeJSON (js_refresh (api_lib api)) r of
        None \<Rightarrow> (n, writeError 401 ''INVALID_TOKEN'' w)
      | Some refreshToken \<Rightarrow>
          (case Logout (api_auth api) (users_part n) (dw_now dw) refreshToken of
             Inl e \<Rightarrow> (n, writeError 401 ''INVALID_TOKEN'' w)
           | Inr a \<Rightarrow> (put_users a n, noContent w)))"

definition account :: handler where
  "account = with_session (\<lambda>session api dw r n w. (n, writeJSON 200 (JUser (User.truncate session)) w))"

section \<open>Devices\<close>

definition createDevice :: handler where
  "createDevice = with_session (\<lambda>session. with_body js_device (\<lambda>(name, ty, publicKey, algorithm) api dw r n w.
     case Create_device session name ty publicKey algorithm (dw_newID dw) (dw_now dw) (devices_part n) of
       Inl e \<Rightarrow> (n, writeDeviceError e w)
     | Inr (d, v) \<Rightarrow> (put_devices d n, writeJSON 201 (JDevice v) w)))"

definition listDevices :: handler where
  "listDevices = with_session (\<lambda>session api dw r n w.
     (n, writeJSON 200 (JDevices (ListDevices (devices_part n) (dw_now dw) (usr_ID session))) w))"

definition registerDeviceLANIdentity :: handler where
  "registerDeviceLANIdentity = with_session (\<lambda>session. with_body js_certificate (\<lambda>certificate api dw r n w.
     case RegisterLANIdentity (lib_sha256 (api_lib api)) (api_x509 api) session (PathValue r ''id'') certificate (dw_now dw)
         (devices_part n) of
       Inl e \<Rightarrow> (n, writeDeviceError e w)
     | Inr (d, identity) \<Rightarrow> (put_devices d n, writeJSON 200 (JLANIdentity identity) w)))"

definition renameDevice :: handler where
  "renameDevice = with_session (\<lambda>session. with_body js_displayName (\<lambda>name api dw r n w.
     case Rename session (PathValue r ''id'') name (devices_part n) of
       Inl e \<Rightarrow> (n, writeDeviceError e w)
     | Inr (d, v) \<Rightarrow> (put_devices d n, writeJSON 200 (JDevice v) w)))"

definition deleteDevice :: handler where
  "deleteDevice = with_session (\<lambda>session api dw r n w.
     case Delete session (PathValue r ''id'') (devices_part n) of
       Inl e \<Rightarrow> (n, writeDeviceError e w)
     | Inr d \<Rightarrow> (cascade_device (PathValue r ''id'') (put_devices d n), noContent w))"

definition revokeDevice :: handler where
  "revokeDevice = with_session (\<lambda>session api dw r n w.
     case Revoke_device session (PathValue r ''id'') (dw_now dw) (devices_part n) of
       Inl e \<Rightarrow> (n, writeDeviceError e w)
     | Inr (d, v) \<Rightarrow> (put_devices d n, writeJSON 200 (JDevice v) w))"

definition createDeviceSessionChallenge :: handler where
  "createDeviceSessionChallenge = with_session (\<lambda>session api dw r n w.
     case CreateSessionChallenge (api_crypto api) (dw_ephemeral dw) (dw_nonce dw) session (PathValue r ''id'') (dw_now dw)
         (dw_newID dw) (devices_part n) of
       Inl e \<Rightarrow> (n, writeDeviceError e w)
     | Inr (d, v) \<Rightarrow> (put_devices d n, writeJSON 201 (JChallenge v) w))"

text \<open>A wrong answer is counted: the tables change although the request is refused.\<close>

definition attachDeviceSession :: handler where
  "attachDeviceSession = with_session (\<lambda>session. with_body js_attach (\<lambda>(challengeID, answer) api dw r n w.
     case AttachSession (api_crypto api) session (PathValue r ''id'') challengeID answer (dw_now dw) (devices_part n) of
       (d, Inl e) \<Rightarrow> (put_devices d n, writeDeviceError e w)
     | (d, Inr _) \<Rightarrow> (put_devices d n, noContent w)))"

section \<open>Groups\<close>

definition createGroup :: handler where
  "createGroup = with_session (\<lambda>session. with_body js_name (\<lambda>name api dw r n w.
     case Create_group session name (dw_newID dw) (dw_now dw) (groups_part n) of
       Inl e \<Rightarrow> (n, writeGroupError e w)
     | Inr (g, v) \<Rightarrow> (put_groups g n, writeJSON 201 (JDetails v) w)))"

definition listGroups :: handler where
  "listGroups = with_session (\<lambda>session api dw r n w.
     (n, writeJSON 200 (JGroups (ListGroups (groups_part n) session)) w))"

definition getGroup :: handler where
  "getGroup = with_session (\<lambda>session api dw r n w.
     case Get_group (groups_part n) session (PathValue r ''id'') of
       Inl e \<Rightarrow> (n, writeGroupError e w)
     | Inr v \<Rightarrow> (n, writeJSON 200 (JDetails v) w))"

definition renameGroup :: handler where
  "renameGroup = with_session (\<lambda>session. with_body js_name (\<lambda>name api dw r n w.
     case Rename_group session (PathValue r ''id'') name (groups_part n) of
       Inl e \<Rightarrow> (n, writeGroupError e w)
     | Inr (g, v) \<Rightarrow> (put_groups g n, writeJSON 200 (JGroup v) w)))"

definition deleteGroup :: handler where
  "deleteGroup = with_session (\<lambda>session api dw r n w.
     case Delete_group session (PathValue r ''id'') (groups_part n) of
       Inl e \<Rightarrow> (n, writeGroupError e w)
     | Inr g \<Rightarrow> (put_groups g n, noContent w))"

definition addGroupMember :: handler where
  "addGroupMember = with_session (\<lambda>session. with_body js_member (\<lambda>(userID, role) api dw r n w.
     case AddMember session (PathValue r ''id'') userID role (dw_now dw) (groups_part n) of
       Inl e \<Rightarrow> (n, writeGroupError e w)
     | Inr (g, v) \<Rightarrow> (put_groups g n, writeJSON 201 (JMember v) w)))"

definition removeGroupMember :: handler where
  "removeGroupMember = with_session (\<lambda>session api dw r n w.
     case RemoveMember session (PathValue r ''id'') (PathValue r ''userId'') (groups_part n) of
       Inl e \<Rightarrow> (n, writeGroupError e w)
     | Inr g \<Rightarrow> (put_groups g n, noContent w))"

definition addGroupDevice :: handler where
  "addGroupDevice = with_session (\<lambda>session. with_body js_group_device (\<lambda>deviceID api dw r n w.
     case AddDevice session (PathValue r ''id'') deviceID (dw_now dw) (groups_part n) of
       (g, Inl e) \<Rightarrow> (put_groups g n, writeGroupError e w)
     | (g, Inr v) \<Rightarrow> (put_groups g n, writeJSON 201 (JGroupDevice v) w)))"

definition removeGroupDevice :: handler where
  "removeGroupDevice = with_session (\<lambda>session api dw r n w.
     case RemoveDevice session (PathValue r ''id'') (PathValue r ''deviceId'') (groups_part n) of
       Inl e \<Rightarrow> (n, writeGroupError e w)
     | Inr g \<Rightarrow> (put_groups g n, noContent w))"

section \<open>Transfers\<close>

text \<open>
  The answer to an operation of the transfer service: refused by its guards, or run on the tables, which
  it may have changed although it ends with an error.
\<close>

definition transfer_answer :: "transfer_error + 'a outcome \<Rightarrow> ('a \<Rightarrow> contractResponseWriter \<Rightarrow> contractResponseWriter) \<Rightarrow> node \<Rightarrow> contractResponseWriter \<Rightarrow> node \<times> contractResponseWriter" where
  "transfer_answer res ok n w =
     (case res of
        Inl e \<Rightarrow> (n, writeTransferError e w)
      | Inr (t, Inl e) \<Rightarrow> (put_transfers t n, writeTransferError e w)
      | Inr (t, Inr v) \<Rightarrow> (put_transfers t n, ok v w))"

definition createTransfer :: handler where
  "createTransfer = with_session (\<lambda>session. with_key (\<lambda>key. with_body js_transfer (\<lambda>request api dw r n w.
     transfer_answer
       (Create (lib_marshal_request (api_lib api)) (lib_sha256 (api_lib api))
         (ResolveTransferTargets (transfers_part n))
         (\<lambda>s p. Inr (CreateTransfer (wr_requestID w) (dw_ids dw) (transfers_part n) s p))
         (dw_now dw) session (request\<lparr>rq_IdempotencyKey := key\<rparr>))
       (\<lambda>v w. writeJSON 201 (JTransfer v) (w\<lparr>wr_transferID := tr_ID v\<rparr>)) n w)))"

definition page_json :: "API \<Rightarrow> TransferPage \<Rightarrow> Json" where
  "page_json api page =
     JPage (pg_Items page)
       (if pk_ID (pg_NextPageKey page) = '''' then ''''
        else encodeCursor (lib_hmac (api_lib api)) (lib_format_nano (api_lib api)) (api_cursorKey api)
          (pk_CreatedAt (pg_NextPageKey page)) (pk_ID (pg_NextPageKey page)))"

definition listTransfers :: handler where
  "listTransfers = with_session (\<lambda>session api dw r n w.
     if versioned_request r
     then (case transferPageOptions api r of
             None \<Rightarrow> (n, writeError 400 ''INVALID_PAGE'' w)
           | Some options \<Rightarrow>
               (case ListPage (ListTransfers (transfers_part n)) (Some (ListTransferPage (transfers_part n))) session options of
                  Inl e \<Rightarrow> (n, writeTransferError e w)
                | Inr page \<Rightarrow> (n, writeJSON 200 (page_json api page) w)))
     else (case ListTransfers (transfers_part n) session of
             Inl e \<Rightarrow> (n, writeTransferError e w)
           | Inr ts \<Rightarrow> (n, writeJSON 200 (JTransfers ts) w)))"

definition getTransfer_handler :: handler where
  "getTransfer_handler = with_session (\<lambda>session api dw r n w.
     case Get (getTransfer (transfers_part n)) session (PathValue r ''id'') of
       Inl e \<Rightarrow> (n, writeTransferError e w)
     | Inr v \<Rightarrow> (n, writeJSON 200 (JTransfer v) w))"

definition getTransferTimeline :: handler where
  "getTransferTimeline = with_session (\<lambda>session api dw r n w.
     case Timeline (Some (TransferTimeline (transfers_part n))) session (PathValue r ''id'') of
       Inl e \<Rightarrow> (n, writeTransferError e w)
     | Inr v \<Rightarrow> (n, writeJSON 200 (JTimeline v) w))"

definition reportTransferTimelineEvent :: handler where
  "reportTransferTimelineEvent = with_session (\<lambda>session. with_key (\<lambda>key api dw r n w.
     if key = '''' then (n, writeError 400 ''IDEMPOTENCY_KEY_REQUIRED'' w)
     else with_body js_report (\<lambda>report api dw r n w.
       transfer_answer
         (ReportTimelineEvent
           (Some (\<lambda>s t p now. Inr (ReportTransferTimelineEvent (lib_hash_report (api_lib api)) (wr_requestID w) (transfers_part n) s t p now)))
           (dw_now dw) session (PathValue r ''id'') (report\<lparr>er_IdempotencyKey := key\<rparr>))
         (\<lambda>v. writeJSON 200 (JEvent v)) n w) api dw r n w))"

definition cancelTransfer :: handler where
  "cancelTransfer = with_session (\<lambda>session api dw r n w.
     transfer_answer (Cancel (\<lambda>s t now. Inr (CancelTransfer (wr_requestID w) (transfers_part n) s t now)) (dw_now dw) session
         (PathValue r ''id''))
       (\<lambda>v. writeJSON 200 (JTransfer v)) n w)"

definition hideTransfer :: handler where
  "hideTransfer = with_session (\<lambda>session api dw r n w.
     transfer_answer (Hide (\<lambda>s t now. Inr (HideTransfer (transfers_part n) s t now)) (dw_now dw) session (PathValue r ''id''))
       (\<lambda>_. noContent) n w)"

definition readTransfer :: handler where
  "readTransfer = with_session (\<lambda>session. with_key (\<lambda>key api dw r n w.
     transfer_answer (Read (\<lambda>s t now. Inr (ReadTransfer (wr_requestID w) (transfers_part n) s t now)) (dw_now dw) session
         (PathValue r ''id''))
       (\<lambda>v. writeJSON 200 (JTransfer v)) n w))"

definition reportTransferProgress :: handler where
  "reportTransferProgress = with_session (\<lambda>session. with_key (\<lambda>key. with_body js_progress (\<lambda>progress api dw r n w.
     transfer_answer
       (ReportProgress (\<lambda>s t p now. Inr (ReportTransferProgress (lib_hash_progress (api_lib api)) (wr_requestID w) (transfers_part n) s t p now))
         (dw_now dw) session (PathValue r ''id'')
         (progress\<lparr>pg_DeviceID := PathValue r ''deviceId'', pg_IdempotencyKey := key\<rparr>))
       (\<lambda>v. writeJSON 200 (JTransfer v)) n w)))"

definition retryTransferTarget :: handler where
  "retryTransferTarget = with_session (\<lambda>session. with_key (\<lambda>key api dw r n w.
     if key = '''' then (n, writeError 400 ''IDEMPOTENCY_KEY_REQUIRED'' w)
     else transfer_answer
       (Retry (Some (\<lambda>s t d k now. Inr (RetryTransferTarget (wr_requestID w) (dw_newID dw) (transfers_part n) s t d k now)))
         (dw_now dw) session (PathValue r ''id'') (PathValue r ''deviceId'') key)
       (\<lambda>v. writeJSON 200 (JTransfer v)) n w))"

section \<open>Files\<close>

definition uploadChunk :: handler where
  "uploadChunk = with_session (\<lambda>session. with_key (\<lambda>key api dw r n w.
     case Atoi (PathValue r ''index'') of (index, ok) \<Rightarrow>
       if \<not> ok then (n, writeError 400 ''INVALID_CHUNK'' w)
       else case hex_decode (ht_header r ''X-Chunk-SHA256'') of
         None \<Rightarrow> (n, writeError 400 ''INVALID_CHUNK_HASH'' w)
       | Some expectedHash \<Rightarrow>
           if length expectedHash \<noteq> 32 then (n, writeError 400 ''INVALID_CHUNK_HASH'' w)
           else (case UploadChunk (lib_sha256 (api_lib api)) (api_root api) (dw_temp dw) (dw_fault dw) (dw_now dw) (files_part n)
               session (PathValue r ''id'') index expectedHash (Some (ht_body r)) of
                (s, Inl e) \<Rightarrow> (put_files s n, writeFileError e w)
              | (s, Inr v) \<Rightarrow> (put_files s n, writeJSON 200 (JChunk v) w))))"

definition downloadChunk :: handler where
  "downloadChunk = with_session (\<lambda>session api dw r n w.
     case Atoi (PathValue r ''index'') of (index, ok) \<Rightarrow>
       if \<not> ok then (n, writeError 400 ''INVALID_CHUNK'' w)
       else case OpenChunk (dw_fault dw) (files_part n) session (PathValue r ''id'') index of
         Inl e \<Rightarrow> (n, writeFileError e w)
       | Inr (chunk, data) \<Rightarrow>
           (n, (WriteHeader 200 (set_header ''ETag'' (CHR 0x22 # hex_encode (cr_SHA256 chunk) @ [CHR 0x22])
             (set_header ''Content-Length'' (Itoa (cr_Size chunk))
             (set_header ''Content-Type'' ''application/octet-stream'' w))))\<lparr>wr_body := Octets data\<rparr>))"

definition completeFile :: handler where
  "completeFile = with_session (\<lambda>session. with_key (\<lambda>key api dw r n w.
     case Complete (lib_sha256 (api_lib api)) (api_root api) (dw_temp dw) (dw_fault dw) (wr_requestID w) (dw_now dw) (files_part n)
         session (PathValue r ''id'') of
       (s, Inl e) \<Rightarrow> (put_files s n, writeFileError e w)
     | (s, Inr v) \<Rightarrow> (put_files s n, writeJSON 200 (JFile v) w)))"

section \<open>Metrics and statistics\<close>

definition uploadMetrics :: handler where
  "uploadMetrics = with_session (\<lambda>session. with_key (\<lambda>key. with_body js_metrics (\<lambda>events api dw r n w.
     case lib_marshal_metrics (api_lib api) events of
       None \<Rightarrow> (n, writeError 400 ''INVALID_REQUEST'' w)
     | Some encoded \<Rightarrow>
         (case UploadIdempotent session key (lib_sha256 (api_lib api) encoded) events (nd_db n) of
            Inl e \<Rightarrow> (n, writeAnalyticsError e w)
          | Inr (db, v) \<Rightarrow> (put_metrics db n, writeJSON 200 (JBatch v) w)))))"

definition withStatistics :: "(API \<Rightarrow> Draws \<Rightarrow> analytics_db \<Rightarrow> Session \<Rightarrow> TimeRange \<Rightarrow> analytics_error + Json) \<Rightarrow> handler" where
  "withStatistics load = with_session (\<lambda>session api dw r n w.
     case parseTimeRange api dw r of
       None \<Rightarrow> (n, writeError 400 ''INVALID_TIME_RANGE'' w)
     | Some period \<Rightarrow>
         (case load api dw (nd_db n) session period of
            Inl e \<Rightarrow> (n, writeAnalyticsError e w)
          | Inr v \<Rightarrow> (n, writeJSON 200 v w)))"

definition statisticsOverview :: handler where
  "statisticsOverview = withStatistics (\<lambda>api dw db session period.
     bindE (Overview_op db session period) (\<lambda>v. Inr (JOverview v)))"

definition statisticsTransfers :: handler where
  "statisticsTransfers = withStatistics (\<lambda>api dw db session period.
     bindE (Transfers_op (lib_date_text (api_lib api)) db session period) (\<lambda>v. Inr (JDaily v)))"

definition statisticsDevices :: handler where
  "statisticsDevices = withStatistics (\<lambda>api dw db session period.
     bindE (Devices_op db (dw_now dw) session period) (\<lambda>v. Inr (JDeviceStatistics v)))"

definition statisticsGroups :: handler where
  "statisticsGroups = withStatistics (\<lambda>api dw db session period.
     bindE (Groups_op db session period) (\<lambda>v. Inr (JGroupStatistics v)))"

definition statisticsNode :: handler where
  "statisticsNode = withStatistics (\<lambda>api dw db session period.
     bindE (Node_op db session period) (\<lambda>v. Inr (JNodeStatistics v)))"

section \<open>Routes\<close>

text \<open>A segment of a pattern: a literal, or a wildcard, which matches any segment that is not empty.\<close>

datatype Seg = Lit string | Wild string

definition segment :: "string \<Rightarrow> Seg" where
  "segment s = (if s \<noteq> '''' \<and> hd s = CHR 0x7B then Wild (butlast (tl s)) else Lit s)"

definition pattern :: "string \<Rightarrow> Seg list" where
  "pattern s = map segment (tl (split_on CHR ''/'' s))"

fun match_path :: "Seg list \<Rightarrow> string list \<Rightarrow> (string \<times> string) list option" where
  "match_path [] [] = Some []"
| "match_path (Lit l # ps) (s # ss) = (if s = l then match_path ps ss else None)"
| "match_path (Wild x # ps) (s # ss) = (if s = '''' then None else map_option (\<lambda>vs. (x, s) # vs) (match_path ps ss))"
| "match_path _ _ = None"

definition Routes :: "(string \<times> string \<times> handler) list" where
  "Routes =
    [(''GET'', ''/api/version'', version),
     (''POST'', ''/api/auth/login'', login),
     (''POST'', ''/api/auth/refresh'', refresh),
     (''POST'', ''/api/auth/logout'', logout),
     (''POST'', ''/api/auth/totp/setup'', setupTOTP),
     (''POST'', ''/api/auth/totp/enable'', enableTOTP),
     (''POST'', ''/api/auth/admin-verify'', verifyAdmin),
     (''GET'', ''/api/account'', account),
     (''POST'', ''/api/devices'', nodeKeyRequired createDevice),
     (''GET'', ''/api/devices'', listDevices),
     (''PATCH'', ''/api/devices/{id}'', renameDevice),
     (''DELETE'', ''/api/devices/{id}'', deleteDevice),
     (''POST'', ''/api/devices/{id}/revoke'', revokeDevice),
     (''POST'', ''/api/devices/{id}/session-challenge'', createDeviceSessionChallenge),
     (''POST'', ''/api/devices/{id}/attach-session'', attachDeviceSession),
     (''PUT'', ''/api/devices/{id}/lan-identity'', registerDeviceLANIdentity),
     (''POST'', ''/api/groups'', createGroup),
     (''GET'', ''/api/groups'', listGroups),
     (''GET'', ''/api/groups/{id}'', getGroup),
     (''PATCH'', ''/api/groups/{id}'', renameGroup),
     (''DELETE'', ''/api/groups/{id}'', deleteGroup),
     (''POST'', ''/api/groups/{id}/members'', addGroupMember),
     (''DELETE'', ''/api/groups/{id}/members/{userId}'', removeGroupMember),
     (''POST'', ''/api/groups/{id}/devices'', addGroupDevice),
     (''DELETE'', ''/api/groups/{id}/devices/{deviceId}'', removeGroupDevice),
     (''POST'', ''/api/transfers'', createTransfer),
     (''GET'', ''/api/transfers'', listTransfers),
     (''GET'', ''/api/transfers/{id}'', getTransfer_handler),
     (''GET'', ''/api/transfers/{id}/timeline'', getTransferTimeline),
     (''POST'', ''/api/transfers/{id}/timeline'', reportTransferTimelineEvent),
     (''POST'', ''/api/transfers/{id}/cancel'', cancelTransfer),
     (''DELETE'', ''/api/transfers/{id}'', hideTransfer),
     (''POST'', ''/api/transfers/{id}/read'', readTransfer),
     (''PUT'', ''/api/transfers/{id}/targets/{deviceId}'', reportTransferProgress),
     (''POST'', ''/api/transfers/{id}/targets/{deviceId}/retry'', retryTransferTarget),
     (''POST'', ''/api/files/{id}/chunks/{index}'', uploadChunk),
     (''GET'', ''/api/files/{id}/chunks/{index}'', downloadChunk),
     (''POST'', ''/api/files/{id}/complete'', completeFile),
     (''POST'', ''/api/metrics/batch'', uploadMetrics),
     (''GET'', ''/api/statistics/overview'', statisticsOverview),
     (''GET'', ''/api/statistics/transfers'', statisticsTransfers),
     (''GET'', ''/api/statistics/devices'', statisticsDevices),
     (''GET'', ''/api/statistics/groups'', statisticsGroups),
     (''GET'', ''/api/statistics/node'', statisticsNode)]"

text \<open>
  \<open>ServeMux\<close>: a pattern for \<open>GET\<close> also takes \<open>HEAD\<close>; a path that only patterns of other methods match is
  answered with 405, any other with 404. No two patterns of a method match the same path.
\<close>

definition method_matches :: "string \<Rightarrow> string \<Rightarrow> bool" where
  "method_matches pattern_method m \<longleftrightarrow> m = pattern_method \<or> pattern_method = ''GET'' \<and> m = ''HEAD''"

definition route_matches :: "HttpRequest \<Rightarrow> string \<times> string \<times> handler \<Rightarrow> bool" where
  "route_matches r route \<longleftrightarrow> method_matches (fst route) (ht_method r) \<and> match_path (pattern (fst (snd route))) (ht_path r) \<noteq> None"

definition mux :: "(string \<times> string \<times> handler) list \<Rightarrow> handler" where
  "mux routes api dw r n w =
     (case find (route_matches r) routes of
        Some (m, p, h) \<Rightarrow>
          h api dw (r\<lparr>ht_values := \<lambda>k. case map_of (the (match_path (pattern p) (ht_path r))) k of None \<Rightarrow> '''' | Some v \<Rightarrow> v\<rparr>) n w
      | None \<Rightarrow>
          if list_ex (\<lambda>(m, p, h). match_path (pattern p) (ht_path r) \<noteq> None) routes
          then (n, (WriteHeader 405 w)\<lparr>wr_body := PlainText ''Method Not Allowed''\<rparr>)
          else (n, (WriteHeader 404 w)\<lparr>wr_body := PlainText ''404 page not found''\<rparr>))"

definition apiContract :: "handler \<Rightarrow> API \<Rightarrow> Draws \<Rightarrow> HttpRequest \<Rightarrow> node \<Rightarrow> node \<times> contractResponseWriter" where
  "apiContract next api dw r n = next api dw r n (contract_writer (newRequestID (dw_request dw) (dw_nanos dw)) r)"

text \<open>One request to the API, and requests one after the other.\<close>

definition serve :: "API \<Rightarrow> Draws \<Rightarrow> HttpRequest \<Rightarrow> node \<Rightarrow> node \<times> contractResponseWriter" where
  "serve = apiContract (mux Routes)"

definition serve_all :: "API \<Rightarrow> (Draws \<times> HttpRequest) list \<Rightarrow> node \<Rightarrow> node" where
  "serve_all api = fold (\<lambda>(dw, r) n. fst (serve api dw r n))"

end
