(* ===== verification/ApiSafety.thy ===== *)
theory ApiSafety
  imports ApiHandlers
begin

text \<open>
  What holds of every request to the API, whichever route it takes: who is served (\<open>sessions_required\<close>),
  what reading leaves alone, how every answer looks (\<open>answers_keep_contract\<close>), and that the revocation of a
  device is final for all routes (\<open>revoked_device_shut_out\<close>). A claim over all routes is a predicate on
  handlers that the combinators of the handlers and the multiplexer pass on.
\<close>

section \<open>Sessions\<close>

text \<open>The session a request acts for, if its header carries a valid access token.\<close>

definition bearer_session :: "API \<Rightarrow> Draws \<Rightarrow> HttpRequest \<Rightarrow> node \<Rightarrow> Session option" where
  "bearer_session api dw r n =
     (if \<not> HasPrefix (ht_header r ''Authorization'') ''Bearer '' then None
      else case Authenticate (api_auth api) (users_part n) (dw_now dw)
          (TrimSpace (TrimPrefix (ht_header r ''Authorization'') ''Bearer '')) of
        Inl e \<Rightarrow> None
      | Inr session \<Rightarrow> Some session)"

lemma Authenticate_error: "Authenticate svc db now token = Inl e \<Longrightarrow> e = auth_error.ErrInvalidCredentials"
  by (auto simp: Authenticate_def SessionByAccessToken_def split: if_splits option.splits prod.splits)

lemma bearer_values [simp]: "bearer_session api dw (r\<lparr>ht_values := vs\<rparr>) n = bearer_session api dw r n"
  by (simp add: bearer_session_def)

lemma authenticate_bearer:
  "authenticate api dw r n w =
     (case bearer_session api dw r n of None \<Rightarrow> Inl (writeError 401 ''INVALID_TOKEN'' w) | Some session \<Rightarrow> Inr session)"
  by (auto simp: authenticate_def bearer_session_def Let_def dest: Authenticate_error split: sum.splits)

lemma with_session_bearer:
  "with_session rest api dw r n w =
     (case bearer_session api dw r n of None \<Rightarrow> (n, writeError 401 ''INVALID_TOKEN'' w) | Some session \<Rightarrow> rest session api dw r n w)"
  by (simp add: with_session_def authenticate_bearer split: option.split)

text \<open>A handler that serves sessions only: without one it refuses, with the given codes, and changes nothing.\<close>

definition protected :: "handler \<Rightarrow> bool" where
  "protected h \<longleftrightarrow> (\<forall>api dw r n w. bearer_session api dw r n = None \<longrightarrow>
     (\<exists>c \<in> {''INVALID_TOKEN'', ''NODE_KEY_REQUIRED''}. h api dw r n w = (n, writeError 401 c w)))"

lemma protectedD:
  "protected h \<Longrightarrow> bearer_session api dw r n = None \<Longrightarrow> \<exists>c \<in> {''INVALID_TOKEN'', ''NODE_KEY_REQUIRED''}. h api dw r n w = (n, writeError 401 c w)"
  by (simp add: protected_def)

lemma protected_with_session: "protected (with_session rest)"
  by (simp add: protected_def with_session_bearer)

lemma protected_nodeKey: "protected h \<Longrightarrow> protected (nodeKeyRequired h)"
  by (auto simp: protected_def nodeKeyRequired_def Let_def)

named_theorems handler_defs \<open>definitions of the handlers that begin with a session\<close>

lemmas [handler_defs] = setupTOTP_def enableTOTP_def verifyAdmin_def account_def createDevice_def listDevices_def
  registerDeviceLANIdentity_def renameDevice_def deleteDevice_def revokeDevice_def createDeviceSessionChallenge_def
  attachDeviceSession_def createGroup_def listGroups_def getGroup_def renameGroup_def deleteGroup_def addGroupMember_def
  removeGroupMember_def addGroupDevice_def removeGroupDevice_def createTransfer_def listTransfers_def getTransfer_handler_def
  getTransferTimeline_def reportTransferTimelineEvent_def cancelTransfer_def hideTransfer_def readTransfer_def
  reportTransferProgress_def retryTransferTarget_def uploadChunk_def downloadChunk_def completeFile_def uploadMetrics_def
  statisticsOverview_def statisticsTransfers_def statisticsDevices_def statisticsGroups_def statisticsNode_def withStatistics_def

text \<open>The routes that serve anybody.\<close>

definition public_routes :: "string list list" where
  "public_routes = [[''api'', ''version''], [''api'', ''auth'', ''login''], [''api'', ''auth'', ''refresh''], [''api'', ''auth'', ''logout'']]"

definition literal :: "Seg list \<Rightarrow> bool" where
  "literal ps = list_all (\<lambda>s. case s of Lit l \<Rightarrow> True | Wild x \<Rightarrow> False) ps"

lemma match_literal: "literal ps \<Longrightarrow> match_path ps ss \<noteq> None \<Longrightarrow> map Lit ss = ps"
  by (induction ps ss rule: match_path.induct) (auto simp: literal_def split: if_splits)

lemma Routes_protected:
  "list_all (\<lambda>(m, p, h). protected h \<or> pattern p \<in> set (map (map Lit) public_routes)) Routes"
proof -
  have "protected h" if "\<exists>rest. h = with_session rest" for h using that protected_with_session by auto
  then have guarded: "list_all protected [setupTOTP, enableTOTP, verifyAdmin, account, createDevice, listDevices,
      registerDeviceLANIdentity, renameDevice, deleteDevice, revokeDevice, createDeviceSessionChallenge,
      attachDeviceSession, createGroup, listGroups, getGroup, renameGroup, deleteGroup, addGroupMember, removeGroupMember,
      addGroupDevice, removeGroupDevice, createTransfer, listTransfers, getTransfer_handler, getTransferTimeline,
      reportTransferTimelineEvent, cancelTransfer, hideTransfer, readTransfer, reportTransferProgress, retryTransferTarget,
      uploadChunk, downloadChunk, completeFile, uploadMetrics, statisticsOverview, statisticsTransfers, statisticsDevices,
      statisticsGroups, statisticsNode]"
    unfolding handler_defs by (simp add: protected_with_session)
  have patterns: "pattern ''/api/version'' = map Lit [''api'', ''version'']"
    "pattern ''/api/auth/login'' = map Lit [''api'', ''auth'', ''login'']"
    "pattern ''/api/auth/refresh'' = map Lit [''api'', ''auth'', ''refresh'']"
    "pattern ''/api/auth/logout'' = map Lit [''api'', ''auth'', ''logout'']"
    by (simp_all add: pattern_def segment_def)
  show ?thesis
    unfolding Routes_def using guarded patterns by (simp add: public_routes_def protected_nodeKey)
qed

text \<open>The table of routes decides what a request without a session gets.\<close>

lemma mux_protected:
  assumes "list_all (\<lambda>(m, p, h). protected h \<or> pattern p \<in> set (map (map Lit) public_routes)) routes"
    and "ht_path r \<notin> set public_routes" and "bearer_session api dw r n = None"
  shows "\<exists>w'. mux routes api dw r n w = (n, w') \<and>
    w' \<in> {writeError 401 ''INVALID_TOKEN'' w, writeError 401 ''NODE_KEY_REQUIRED'' w,
          (WriteHeader 405 w)\<lparr>wr_body := PlainText ''Method Not Allowed''\<rparr>,
          (WriteHeader 404 w)\<lparr>wr_body := PlainText ''404 page not found''\<rparr>}"
proof (cases "find (route_matches r) routes")
  case (Some route)
  obtain m p h where route: "route = (m, p, h)" by (cases route)
  have in_routes: "route \<in> set routes" and hit: "match_path (pattern p) (ht_path r) \<noteq> None"
    using Some by (auto simp: route route_matches_def dest!: find_SomeD)
  have "pattern p \<notin> set (map (map Lit) public_routes)"
  proof
    assume public: "pattern p \<in> set (map (map Lit) public_routes)"
    then have "literal (pattern p)" by (auto simp: literal_def list_all_iff)
    then have "map Lit (ht_path r) = pattern p" using match_literal hit by blast
    then have "ht_path r \<in> set public_routes" using public by (auto simp: inj_map_eq_map inj_def)
    then show False using assms(2) by contradiction
  qed
  then have "protected h" using assms(1) in_routes by (auto simp: list_all_iff route)
  define r' where "r' = r\<lparr>ht_values := \<lambda>k. case map_of (the (match_path (pattern p) (ht_path r))) k of None \<Rightarrow> '''' | Some v \<Rightarrow> v\<rparr>"
  have "mux routes api dw r n w = h api dw r' n w" by (simp add: mux_def Some route r'_def)
  moreover have "bearer_session api dw r' n = None" using assms(3) by (simp add: r'_def)
  moreover obtain c where "c \<in> {''INVALID_TOKEN'', ''NODE_KEY_REQUIRED''}" "h api dw r' n w = (n, writeError 401 c w)"
    using protectedD [OF \<open>protected h\<close> calculation(2), of w] by (elim bexE)
  ultimately have "mux routes api dw r n w = (n, writeError 401 c w)" by (simp only:)
  moreover have "writeError 401 c w \<in> insert (writeError 401 ''INVALID_TOKEN'' w) (insert (writeError 401 ''NODE_KEY_REQUIRED'' w) W)" for W
    using \<open>c \<in> _\<close> by blast
  ultimately show ?thesis by (intro exI conjI)
qed (auto simp: mux_def)

text \<open>
  C7. Nobody is served without a session. A request without a valid access token, on any route but the
  version document, login, refresh and logout, leaves the Node as it is, tables, disk and limiter, and is
  answered with 401 and the code of a missing session or of a missing Node key, or by the multiplexer
  when there is no such route: no operation of a service runs, and no answer shows data of one.
\<close>

theorem sessions_required:
  assumes "ht_path r \<notin> set public_routes" and "bearer_session api dw r n = None"
  shows "\<exists>w'. serve api dw r n = (n, w') \<and>
    (let w = contract_writer (newRequestID (dw_request dw) (dw_nanos dw)) r
     in w' \<in> {writeError 401 ''INVALID_TOKEN'' w, writeError 401 ''NODE_KEY_REQUIRED'' w,
          (WriteHeader 405 w)\<lparr>wr_body := PlainText ''Method Not Allowed''\<rparr>,
          (WriteHeader 404 w)\<lparr>wr_body := PlainText ''404 page not found''\<rparr>})"
  unfolding serve_def apiContract_def Let_def by (rule mux_protected [OF Routes_protected assms])


section \<open>Claims over all routes\<close>

text \<open>A relation between a request's start and end that holds for every route holds for the API.\<close>

definition every :: "(node \<Rightarrow> contractResponseWriter \<Rightarrow> node \<Rightarrow> contractResponseWriter \<Rightarrow> bool) \<Rightarrow> (Draws \<Rightarrow> bool) \<Rightarrow> handler \<Rightarrow> bool" where
  "every R ok h \<longleftrightarrow> (\<forall>api dw r n w. ok dw \<longrightarrow> R n w (fst (h api dw r n w)) (snd (h api dw r n w)))"

lemma everyI: "(\<And>api dw r n w n' w'. ok dw \<Longrightarrow> h api dw r n w = (n', w') \<Longrightarrow> R n w n' w') \<Longrightarrow> every R ok h"
  by (simp add: every_def)

lemma everyD: "every R ok h \<Longrightarrow> ok dw \<Longrightarrow> h api dw r n w = (n', w') \<Longrightarrow> R n w n' w'"
  unfolding every_def by (metis fst_conv snd_conv)

lemma mux_every:
  assumes "list_all (\<lambda>(m, p, h). method_matches m (ht_method r) \<longrightarrow> every R ok h) routes" and "ok dw"
    and "\<And>t. R n w n ((WriteHeader 405 w)\<lparr>wr_body := PlainText t\<rparr>)" and "\<And>t. R n w n ((WriteHeader 404 w)\<lparr>wr_body := PlainText t\<rparr>)"
    and "mux routes api dw r n w = (n', w')"
  shows "R n w n' w'"
proof (cases "find (route_matches r) routes")
  case (Some route)
  obtain m p h where route: "route = (m, p, h)" by (cases route)
  have "every R ok h"
    using Some assms(1) by (auto simp: route route_matches_def list_all_iff dest!: find_SomeD)
  then show ?thesis using assms(2,5) by (auto simp: mux_def Some route dest: everyD)
next
  case None
  then show ?thesis using assms(3-5) by (auto simp: mux_def split: if_splits)
qed

text \<open>The combinators: what a refusal satisfies, they pass on from the rest of the handler.\<close>

definition refusal :: "(node \<Rightarrow> contractResponseWriter \<Rightarrow> node \<Rightarrow> contractResponseWriter \<Rightarrow> bool) \<Rightarrow> bool" where
  "refusal R \<longleftrightarrow> (\<forall>n w status c. 400 \<le> status \<longrightarrow> c \<noteq> '''' \<longrightarrow> R n w n (writeError status c w))"

lemma refusalD: "refusal R \<Longrightarrow> 400 \<le> status \<Longrightarrow> c \<noteq> '''' \<Longrightarrow> R n w n (writeError status c w)"
  by (simp add: refusal_def)

lemma every_with_session: "refusal R \<Longrightarrow> (\<And>session. every R ok (rest session)) \<Longrightarrow> every R ok (with_session rest)"
  unfolding every_def by (simp add: with_session_bearer refusalD split: option.split)

lemma every_with_body: "refusal R \<Longrightarrow> (\<And>request. every R ok (rest request)) \<Longrightarrow> every R ok (with_body decode rest)"
  unfolding every_def by (simp add: with_body_def refusalD split: option.split)

lemma every_with_key: "refusal R \<Longrightarrow> (\<And>key. every R ok (rest key)) \<Longrightarrow> every R ok (with_key rest)"
  unfolding every_def by (simp add: with_key_def refusalD split: option.split)

lemma every_nodeKey: "refusal R \<Longrightarrow> every R ok h \<Longrightarrow> every R ok (nodeKeyRequired h)"
  unfolding every_def by (simp add: nodeKeyRequired_def Let_def refusalD)

lemma every_pair: "(\<And>a b. every R ok (f a b)) \<Longrightarrow> every R ok (case x of (a, b) \<Rightarrow> f a b)"
  by (cases x) simp

lemmas every_intros = every_with_session every_with_body every_with_key every_nodeKey every_pair

section \<open>Reading leaves the Node alone\<close>

definition unchanged :: "node \<Rightarrow> contractResponseWriter \<Rightarrow> node \<Rightarrow> contractResponseWriter \<Rightarrow> bool" where
  "unchanged n w n' w' \<longleftrightarrow> n' = n"

named_theorems combinators \<open>unfolding rules of the combinators of handlers\<close>

lemmas [combinators] = with_session_bearer with_body_def with_key_def nodeKeyRequired_def transfer_answer_def Let_def

lemma reading_unchanged:
  "list_all (every unchanged (\<lambda>_. True)) [version, account, listDevices, listGroups, getGroup, listTransfers, getTransfer_handler,
     getTransferTimeline, downloadChunk, statisticsOverview, statisticsTransfers, statisticsDevices, statisticsGroups, statisticsNode]"
  by (auto simp: every_def unchanged_def handler_defs combinators version_def split: option.splits sum.splits prod.splits if_splits)

lemma get_leaves_node:
  assumes "ht_method r = ''GET'' \<or> ht_method r = ''HEAD''"
  shows "fst (serve api dw r n) = n"
proof -
  have "list_all (\<lambda>(m, p, h). method_matches m (ht_method r) \<longrightarrow> every unchanged (\<lambda>_. True) h) Routes"
    unfolding Routes_def using assms reading_unchanged by (auto simp: method_matches_def)
  then show ?thesis
    using mux_every [of r unchanged "\<lambda>_. True" Routes dw n "contract_writer (newRequestID (dw_request dw) (dw_nanos dw)) r" api]
    by (cases "serve api dw r n") (simp add: serve_def apiContract_def unchanged_def)
qed

section \<open>Revoked devices\<close>

definition device_out :: "string \<Rightarrow> DevRow list \<Rightarrow> bool" where
  "device_out d rows \<longleftrightarrow> list_all (\<lambda>r. dr_id r = d \<longrightarrow> dr_revoked_at r \<noteq> None) rows"

definition sessions_out :: "string \<Rightarrow> SessionRow list \<Rightarrow> bool" where
  "sessions_out d rows \<longleftrightarrow> list_all (\<lambda>s. s_device_id s = Some d \<longrightarrow> s_revoked_at s \<noteq> None) rows"

lemma locked_out_iff: "locked_out d db \<longleftrightarrow> device_out d (ddb_devices db) \<and> sessions_out d (db_sessions db)"
  by (simp add: locked_out_def device_out_def sessions_out_def)

definition shut_out :: "string \<Rightarrow> node \<Rightarrow> bool" where
  "shut_out d n \<longleftrightarrow> locked_out d (devices_part n)"

lemma devices_part_simps [simp]:
  "ddb_devices (devices_part n) = ddb_devices (nd_db n)" "db_sessions (devices_part n) = db_sessions (nd_db n)"
  "db_users (devices_part n) = db_users (nd_db n)"
  by (simp_all add: devices_part_def device_db.truncate_def)

lemma put_simps [simp]:
  "ddb_devices (nd_db (put_users a n)) = ddb_devices (nd_db n)" "db_sessions (nd_db (put_users a n)) = db_sessions a"
  "ddb_devices (nd_db (put_devices x n)) = ddb_devices x" "db_sessions (nd_db (put_devices x n)) = db_sessions x"
  "ddb_devices (nd_db (cascade_device i n)) = ddb_devices (nd_db n)" "db_sessions (nd_db (cascade_device i n)) = db_sessions (nd_db n)"
  "ddb_devices (nd_db (put_groups g n)) = ddb_devices (nd_db n)" "db_sessions (nd_db (put_groups g n)) = db_sessions (nd_db n)"
  "nd_db (put_transfers t n) = nd_db n" "nd_db (put_files s n) = nd_db n" "nd_db (put_metrics db n) = db"
  by (simp_all add: put_users_def put_devices_def cascade_device_def put_groups_def put_transfers_def put_files_def put_metrics_def Let_def)

lemma shut_out_simps [simp]:
  "shut_out d (put_users a n) \<longleftrightarrow> device_out d (ddb_devices (nd_db n)) \<and> sessions_out d (db_sessions a)"
  "shut_out d (put_devices x n) \<longleftrightarrow> locked_out d x"
  "shut_out d (cascade_device i n) \<longleftrightarrow> shut_out d n"
  "shut_out d (put_groups g n) \<longleftrightarrow> shut_out d n"
  "shut_out d (put_transfers t n) \<longleftrightarrow> shut_out d n"
  "shut_out d (put_files s n) \<longleftrightarrow> shut_out d n"
  "shut_out d (n\<lparr>nd_windows := ws\<rparr>) \<longleftrightarrow> shut_out d n"
  by (simp_all add: shut_out_def locked_out_iff)

lemma shut_outD: "shut_out d n \<Longrightarrow> device_out d (ddb_devices (nd_db n)) \<and> sessions_out d (db_sessions (nd_db n))"
  by (simp add: shut_out_def locked_out_iff)

lemma users_part_simps [simp]: "db_sessions (users_part n) = db_sessions (nd_db n)" "db_users (users_part n) = db_users (nd_db n)"
  by (simp_all add: users_part_def auth_db.truncate_def)

lemma store_sessions_out: "store_sessions db rows = Inr db' \<Longrightarrow> db_sessions db' = rows"
  by (auto simp: store_sessions_def split: if_splits)

lemma users_out:
  assumes "sessions_out d (db_sessions db)"
  shows "LoginWithTOTP svc db now random1 random2 i identifier password totp = Inr (db', pair) \<Longrightarrow> sessions_out d (db_sessions db')"
    and "Refresh svc db now random1 random2 token = Inr (db', pair) \<Longrightarrow> sessions_out d (db_sessions db')"
    and "Logout svc db now token = Inr db' \<Longrightarrow> sessions_out d (db_sessions db')"
    and "EnableTOTP svc db now session password secret c = Inr db' \<Longrightarrow> sessions_out d (db_sessions db')"
    and "VerifyAdmin svc db now session password c = Inr db' \<Longrightarrow> sessions_out d (db_sessions db')"
  using assms
  by (auto simp: LoginWithTOTP_def Refresh_def Logout_def EnableTOTP_def VerifyAdmin_def CreateSession_def RotateSession_def
      RevokeSessionByRefreshToken_def SetTOTPSecret_def MarkAdminVerified_def bindE_eq_Inr sessions_out_def Let_def
      intro!: list_all_update_where dest!: store_sessions_out split: sum.splits if_splits option.splits)

text \<open>An operation on devices is a step of the histories of \<open>DeviceHistory\<close>.\<close>

lemma devices_out:
  assumes "locked_out d db"
  shows "i \<noteq> d \<Longrightarrow> Create_device session name ty key algorithm i now db = Inr (db', v) \<Longrightarrow> locked_out d db'"
    and "Rename session e name db = Inr (db', v) \<Longrightarrow> locked_out d db'"
    and "Delete session e db = Inr db' \<Longrightarrow> locked_out d db'"
    and "Revoke_device session e now db = Inr (db', v) \<Longrightarrow> locked_out d db'"
    and "RegisterLANIdentity sha xp session e pem now db = Inr (db', l) \<Longrightarrow> locked_out d db'"
    and "i \<noteq> d \<Longrightarrow> CreateSessionChallenge cr ephemeral nonce session e now i db = Inr (db', c) \<Longrightarrow> locked_out d db'"
    and "AttachSession cr session e challengeID answer now db = (db', res) \<Longrightarrow> locked_out d db'"
proof -
  fix out
  note step = locked_out_exec [OF assms]
  show "i \<noteq> d \<Longrightarrow> Create_device session name ty key algorithm i now db = Inr (db', v) \<Longrightarrow> locked_out d db'"
    using step [of "(now, OpCreate session name ty key algorithm i)" out] by (simp add: commit_def)
  show "Rename session e name db = Inr (db', v) \<Longrightarrow> locked_out d db'"
    using step [of "(now, OpRename session e name)" out] by (simp add: commit_def)
  show "Delete session e db = Inr db' \<Longrightarrow> locked_out d db'"
    using step [of "(now, OpDelete session e)" out] by simp
  show "Revoke_device session e now db = Inr (db', v) \<Longrightarrow> locked_out d db'"
    using step [of "(now, OpRevoke session e)" out] by (simp add: commit_def)
  show "RegisterLANIdentity sha xp session e pem now db = Inr (db', l) \<Longrightarrow> locked_out d db'"
    using step [of "(now, OpRegister session e pem)"
      "\<lparr>out_crypto = \<lparr>cr_sha256 = sha, cr_hmac = undefined, cr_valid_key = undefined, cr_public = undefined, cr_ecdh = undefined\<rparr>,
        out_x509 = xp, out_query_escape = undefined\<rparr>"] by (simp add: commit_def)
  show "i \<noteq> d \<Longrightarrow> CreateSessionChallenge cr ephemeral nonce session e now i db = Inr (db', c) \<Longrightarrow> locked_out d db'"
    using step [of "(now, OpChallenge ephemeral nonce session e i)" "\<lparr>out_crypto = cr, out_x509 = undefined, out_query_escape = undefined\<rparr>"]
    by (simp add: commit_def)
  show "AttachSession cr session e challengeID answer now db = (db', res) \<Longrightarrow> locked_out d db'"
    using step [of "(now, OpAttach session e challengeID answer)" "\<lparr>out_crypto = cr, out_x509 = undefined, out_query_escape = undefined\<rparr>"]
    by simp
qed


lemma insert_all_devices:
  "insert_all user ms (db, res) = Inr (db', res') \<Longrightarrow> ddb_devices db' = ddb_devices db \<and> db_sessions db' = db_sessions db"
proof (induction ms arbitrary: db res)
  case (Cons m ms)
  obtain db1 res1 where one: "insert_metric user m (db, res) = Inr (db1, res1)" and rest: "insert_all user ms (db1, res1) = Inr (db', res')"
    using Cons.prems by (auto simp: bindE_eq_Inr)
  show ?case using Cons.IH [OF rest] insert_metric_Inr [OF one] by auto
qed simp

lemma UploadIdempotent_devices:
  assumes "UploadIdempotent session key fp ms db = Inr (db', res)"
  shows "ddb_devices db' = ddb_devices db \<and> db_sessions db' = db_sessions db"
proof (rule UploadIdempotent_Inr [OF assms])
  assume "insertMetrics session key (if key = '''' then '''' else fp) ms db = Inr (db', res)"
  then show ?thesis by (auto dest!: insertMetrics_Inr insert_all_devices)
qed

definition stays_out :: "string \<Rightarrow> handler \<Rightarrow> bool" where
  "stays_out d h \<longleftrightarrow> every (\<lambda>n w n' w'. shut_out d n \<longrightarrow> shut_out d n') (\<lambda>dw. dw_newID dw \<noteq> d) h"

lemma stays_outI:
  assumes "\<And>api dw r n w n' w'. dw_newID dw \<noteq> d \<Longrightarrow> shut_out d n \<Longrightarrow> h api dw r n w = (n', w') \<Longrightarrow> shut_out d n'"
  shows "stays_out d h"
  unfolding stays_out_def by (rule everyI) (blast intro: assms)

lemma unchanged_stays_out: "every unchanged (\<lambda>_. True) h \<Longrightarrow> stays_out d h"
  by (auto simp: stays_out_def every_def unchanged_def)

lemma transfer_answer_out: "shut_out d n \<Longrightarrow> transfer_answer res ok n w = (n', w') \<Longrightarrow> shut_out d n'"
  by (auto simp: transfer_answer_def split: sum.splits prod.splits)

lemma stays_out_refusal: "refusal (\<lambda>n w n' w'. shut_out d n \<longrightarrow> shut_out d n')"
  by (simp add: refusal_def)

lemma stays_out_intros:
  "(\<And>session. stays_out d (rest session)) \<Longrightarrow> stays_out d (with_session rest)"
  "(\<And>request. stays_out d (rest' request)) \<Longrightarrow> stays_out d (with_body decode rest')"
  "(\<And>key. stays_out d (rest'' key)) \<Longrightarrow> stays_out d (with_key rest'')"
  "(\<And>a b. stays_out d (f a b)) \<Longrightarrow> stays_out d (case x of (a, b) \<Rightarrow> f a b)"
  "stays_out d h \<Longrightarrow> stays_out d (nodeKeyRequired h)"
  unfolding stays_out_def by (simp_all add: every_intros stays_out_refusal)

lemma shut_out_locked: "shut_out d n \<Longrightarrow> locked_out d (devices_part n)"
  by (simp add: shut_out_def)

lemma shut_out_parts:
  "shut_out d n \<Longrightarrow> sessions_out d (db_sessions (users_part n))" "shut_out d n \<Longrightarrow> device_out d (ddb_devices (nd_db n))"
  by (simp_all add: shut_out_def locked_out_iff)

lemma users_part_windows [simp]: "users_part (n\<lparr>nd_windows := ws\<rparr>) = users_part n"
  by (simp add: users_part_def)

lemma users_stay_out: "list_all (stays_out d) [login, refresh, logout, setupTOTP, enableTOTP, verifyAdmin]"
proof -
  have put: "shut_out d (put_users a n)" if "shut_out d m" "nd_db n = nd_db m" "sessions_out d (db_sessions a)" for a m n
    using that shut_out_parts(2) [OF that(1)] by simp
  note out = users_out [OF shut_out_parts(1)]
  have "stays_out d login"
  proof (rule stays_outI)
    fix api :: API and dw :: Draws and r n w n' w'
    assume n: "shut_out d n" and run: "login api dw r n w = (n', w')"
    have windows: "shut_out d (n\<lparr>nd_windows := ws\<rparr>)" for ws using n by simp
    show "shut_out d n'"
      using run n unfolding login_def Let_def
      by (auto split: option.splits sum.splits prod.splits if_splits intro: put out(1) [OF n])
  qed
  moreover have "list_all (stays_out d) [refresh, logout, setupTOTP, enableTOTP, verifyAdmin]"
    unfolding list.pred_inject handler_defs refresh_def
    by (intro conjI TrueI stays_out_intros stays_outI)
       (auto simp: logout_def split: option.splits sum.splits prod.splits if_splits intro: put out)
  ultimately show ?thesis by simp
qed

lemma stays_out_put:
  assumes "\<And>api dw r n x v. dw_newID dw \<noteq> d \<Longrightarrow> locked_out d (devices_part n) \<Longrightarrow> operation api dw r n = Inr (x, v) \<Longrightarrow> locked_out d x"
  shows "stays_out d (\<lambda>api dw r n w. case operation api dw r n of
     Inl e \<Rightarrow> (n, refuse e w) | Inr (x, v) \<Rightarrow> (put_devices x n, reply v w))"
proof (rule stays_outI)
  fix api :: API and dw :: Draws and r n w n' w'
  assume "dw_newID dw \<noteq> d" and out: "shut_out d n"
    and run: "(case operation api dw r n of Inl e \<Rightarrow> (n, refuse e w) | Inr (x, v) \<Rightarrow> (put_devices x n, reply v w)) = (n', w')"
  then show "shut_out d n'"
    using assms [OF _ shut_out_locked [OF out]] by (cases "operation api dw r n") auto
qed

lemma devices_stay_out:
  "list_all (stays_out d) [createDevice, renameDevice, deleteDevice, revokeDevice, registerDeviceLANIdentity,
     createDeviceSessionChallenge, attachDeviceSession]"
proof -
  have "stays_out d deleteDevice"
    unfolding deleteDevice_def
  proof (intro stays_out_intros stays_outI)
    fix session :: Session and api :: API and dw :: Draws and r n w n' w'
    assume out: "shut_out d n" and run: "(case Delete session (PathValue r ''id'') (devices_part n) of
        Inl e \<Rightarrow> (n, writeDeviceError e w) | Inr x \<Rightarrow> (cascade_device (PathValue r ''id'') (put_devices x n), noContent w)) = (n', w')"
    then show "shut_out d n'"
      using devices_out(3) [OF shut_out_locked [OF out]] by (cases "Delete session (PathValue r ''id'') (devices_part n)") auto
  qed
  moreover have "stays_out d attachDeviceSession"
    unfolding attachDeviceSession_def
  proof (intro stays_out_intros stays_outI)
    fix session :: Session and k a :: string and api :: API and dw :: Draws and r n w n' w'
    assume out: "shut_out d n" and run: "(case AttachSession (api_crypto api) session (PathValue r ''id'') k a (dw_now dw) (devices_part n) of
          (x, Inl e) \<Rightarrow> (put_devices x n, writeDeviceError e w) | (x, Inr _) \<Rightarrow> (put_devices x n, noContent w)) = (n', w')"
    obtain x res where attach: "AttachSession (api_crypto api) session (PathValue r ''id'') k a (dw_now dw) (devices_part n) = (x, res)"
      by fastforce
    show "shut_out d n'"
      using run devices_out(7) [OF shut_out_locked [OF out] attach] by (cases res) (auto simp: attach)
  qed
  moreover have "stays_out d createDevice" unfolding createDevice_def
    by (intro stays_out_intros stays_out_put) (erule (2) devices_out(1) [rotated])
  moreover have "stays_out d renameDevice" unfolding renameDevice_def
    by (intro stays_out_intros stays_out_put) (erule (1) devices_out(2))
  moreover have "stays_out d revokeDevice" unfolding revokeDevice_def
    by (intro stays_out_intros stays_out_put) (erule (1) devices_out(4))
  moreover have "stays_out d registerDeviceLANIdentity" unfolding registerDeviceLANIdentity_def
    by (intro stays_out_intros stays_out_put) (erule (1) devices_out(5))
  moreover have "stays_out d createDeviceSessionChallenge" unfolding createDeviceSessionChallenge_def
    by (intro stays_out_intros stays_out_put) (erule (2) devices_out(6) [rotated])
  ultimately show ?thesis by simp
qed

lemma others_stay_out:
  "list_all (stays_out d) [createGroup, renameGroup, deleteGroup, addGroupMember, removeGroupMember, addGroupDevice,
     removeGroupDevice, createTransfer, reportTransferTimelineEvent, cancelTransfer, hideTransfer, readTransfer,
     reportTransferProgress, retryTransferTarget, uploadChunk, completeFile, uploadMetrics]"
proof -
  have metrics: "shut_out d (put_metrics db' n)"
    if "shut_out d n" "UploadIdempotent session key fp ms (nd_db n) = Inr (db', res)" for n session key fp ms db' res
    using that(1) UploadIdempotent_devices [OF that(2)] by (simp add: shut_out_def locked_out_iff)
  show ?thesis
    unfolding list.pred_inject handler_defs
    by (intro conjI TrueI stays_out_intros stays_outI)
       (auto simp: with_body_def split: sum.splits prod.splits option.splits if_splits dest: transfer_answer_out intro: metrics)
qed

lemma Routes_stay_out: "list_all (\<lambda>(m, p, h). stays_out d h) Routes"
proof -
  have "list_all (stays_out d) [version, account, listDevices, listGroups, getGroup, listTransfers, getTransfer_handler,
     getTransferTimeline, downloadChunk, statisticsOverview, statisticsTransfers, statisticsDevices, statisticsGroups, statisticsNode]"
    using reading_unchanged by (simp add: unchanged_stays_out)
  then show ?thesis
    unfolding Routes_def using users_stay_out [of d] devices_stay_out [of d] others_stay_out [of d]
    by (simp add: stays_out_intros(5))
qed

lemma serve_shut_out:
  assumes "shut_out d n" and "dw_newID dw \<noteq> d"
  shows "shut_out d (fst (serve api dw r n))"
proof -
  have "list_all (\<lambda>(m, p, h). method_matches m (ht_method r) \<longrightarrow>
      every (\<lambda>n w n' w'. shut_out d n \<longrightarrow> shut_out d n') (\<lambda>dw. dw_newID dw \<noteq> d) h) Routes"
    using Routes_stay_out [of d] unfolding stays_out_def list_all_iff by fast
  from mux_every [OF this, of dw n] show ?thesis
    using assms by (cases "serve api dw r n") (simp add: serve_def apiContract_def)
qed

lemma serve_all_shut_out:
  "shut_out d n \<Longrightarrow> list_all (\<lambda>(dw, r). dw_newID dw \<noteq> d) reqs \<Longrightarrow> shut_out d (serve_all api reqs n)"
  by (induction reqs arbitrary: n) (auto simp: serve_all_def serve_shut_out)

text \<open>The request that revokes a device, and the one that attaches a session to it.\<close>

definition device_request :: "string \<Rightarrow> string \<Rightarrow> HttpRequest \<Rightarrow> bool" where
  "device_request d operation r \<longleftrightarrow> d \<noteq> '''' \<and> ht_method r = ''POST'' \<and> ht_path r = [''api'', ''devices'', d, operation]"

lemma case_if_Some: "(case if b then Some x else None of None \<Rightarrow> y | Some v \<Rightarrow> v) = (if b then x else y)"
  by simp

lemmas routing = serve_def apiContract_def mux_def Routes_def route_matches_def method_matches_def device_request_def
  pattern_def segment_def map_of_Cons_code case_if_Some

lemma serve_revoke:
  assumes "device_request d ''revoke'' r"
  shows "serve api dw r n = revokeDevice api dw (r\<lparr>ht_values := \<lambda>k. if k = ''id'' then d else ''''\<rparr>) n
     (contract_writer (newRequestID (dw_request dw) (dw_nanos dw)) r)"
  using assms by (simp add: routing)

lemma serve_attach:
  assumes "device_request d ''attach-session'' r"
  shows "serve api dw r n = attachDeviceSession api dw (r\<lparr>ht_values := \<lambda>k. if k = ''id'' then d else ''''\<rparr>) n
     (contract_writer (newRequestID (dw_request dw) (dw_nanos dw)) r)"
  using assms by (simp add: routing)

lemma writeError_simps [simp]:
  "wr_status (writeError status c w) = status" "wr_errorCode (writeError status c w) = c"
  "wr_status (writeJSON status v w) = status" "wr_status (noContent w) = 204"
  by (simp_all add: answers)

lemma writeDeviceError_status: "wr_status (writeDeviceError e w) \<in> {400, 403, 404, 500}"
  by (cases e) simp_all

lemma revokeDevice_ok:
  assumes "revokeDevice api dw r n w = (n1, w1)" and "wr_status w1 = 200"
  obtains session x v where "Revoke_device session (PathValue r ''id'') (dw_now dw) (devices_part n) = Inr (x, v)" and "n1 = put_devices x n"
proof (cases "bearer_session api dw r n")
  case None
  then show thesis using assms by (auto simp: revokeDevice_def with_session_bearer)
next
  case (Some session)
  show thesis
  proof (cases "Revoke_device session (PathValue r ''id'') (dw_now dw) (devices_part n)")
    case (Inl e)
    then have "w1 = writeDeviceError e w" using assms(1) by (simp add: revokeDevice_def with_session_bearer Some)
    then show thesis using assms(2) writeDeviceError_status [of e w] by simp
  next
    case (Inr xv)
    obtain x v where "xv = (x, v)" by (cases xv)
    then show thesis using assms(1) that [of session x v] Inr by (simp add: revokeDevice_def with_session_bearer Some)
  qed
qed

text \<open>
  C15. Revoking a device through the API is final. Once a request to revoke a device has been answered
  with 200, no later request acts for the device, whatever requests on any route are served in between,
  of whichever users and with whatever tokens, challenges and proofs: no access token authenticates a session of the
  device, and no request to attach a session to it is answered with success. The identifiers of new devices are
  drawn anew; without that a new device could get the identifier of the old one.
\<close>

theorem revoked_device_shut_out:
  assumes "distinct (map dr_id (ddb_devices (nd_db n)))" and "device_request d ''revoke'' r"
    and "serve api dw r n = (n1, w1)" and "wr_status w1 = 200"
    and "list_all (\<lambda>(dw, r). dw_newID dw \<noteq> d) reqs" and "serve_all api reqs n1 = n2"
  shows "(\<forall>dw' r' s. bearer_session api dw' r' n2 = Some s \<longrightarrow> sess_DeviceID s \<noteq> Some d) \<and>
    (\<forall>dw' r'. device_request d ''attach-session'' r' \<longrightarrow> 400 \<le> wr_status (snd (serve api dw' r' n2)))"
proof -
  obtain session x v where revoked: "Revoke_device session d (dw_now dw) (devices_part n) = Inr (x, v)" "n1 = put_devices x n"
    by (rule revokeDevice_ok [OF assms(3) [unfolded serve_revoke [OF assms(2)]] assms(4)]) (simp add: PathValue_def that)
  have "shut_out d n1"
    using revoke_locks_out [OF _ revoked(1)] assms(1) by (simp add: revoked(2))
  then have out: "shut_out d n2" using serve_all_shut_out assms(5,6) by blast
  have "sess_DeviceID s \<noteq> Some d" if "bearer_session api dw' r' n2 = Some s" for dw' r' s
    using that shut_out_parts(1) [OF out]
    by (auto simp: bearer_session_def sessions_out_def list_all_iff dest!: authenticated_session split: if_splits sum.splits)
  moreover have "400 \<le> wr_status (snd (serve api dw' r' n2))" if "device_request d ''attach-session'' r'" for dw' r'
  proof -
    have "\<exists>db e. AttachSession cr s d challengeID answer now (devices_part n2) = (db, Inl e)" for cr s challengeID answer now
      using locked_outD [OF shut_out_locked [OF out]]
      by (auto simp: AttachSession_def RedeemDeviceSessionChallenge_def attachable_def split: option.splits)
    moreover have "400 \<le> wr_status (writeDeviceError e w)" for e w using writeDeviceError_status [of e w] by auto
    ultimately show ?thesis
      unfolding serve_attach [OF that] attachDeviceSession_def
      by (auto simp: with_session_bearer with_body_def PathValue_def split: option.splits sum.splits prod.splits) (metis Inl_Inr_False snd_conv)
  qed
  ultimately show ?thesis by blast
qed


section \<open>The contract of the answers\<close>

fun is_error :: "Json \<Rightarrow> bool" where
  "is_error (JError c message requestID details) = True"
| "is_error (JErrorCode c) = True"
| "is_error _ = False"

definition fresh :: "contractResponseWriter \<Rightarrow> bool" where
  "fresh w \<longleftrightarrow> wr_errorCode w = '''' \<and> wr_body w = NoBody"

definition error_answer :: "contractResponseWriter \<Rightarrow> bool" where
  "error_answer w \<longleftrightarrow> 400 \<le> wr_status w \<and> wr_errorCode w \<noteq> '''' \<and>
     (\<exists>details. wr_body w = JsonBody (if wr_versioned w
        then JError (wr_errorCode w) (errorMessage (wr_errorCode w)) (wr_requestID w) details else JErrorCode (wr_errorCode w)))"

definition plain_answer :: "contractResponseWriter \<Rightarrow> bool" where
  "plain_answer w \<longleftrightarrow> wr_errorCode w = '''' \<and>
     (case wr_body w of
        NoBody \<Rightarrow> wr_status w = 204
      | JsonBody v \<Rightarrow> wr_status w \<in> {200, 201} \<and> \<not> is_error v
      | Octets data \<Rightarrow> wr_status w = 200
      | PlainText t \<Rightarrow> wr_status w \<in> {404, 405})"

definition json_type :: "contractResponseWriter \<Rightarrow> bool" where
  "json_type w \<longleftrightarrow> (case wr_body w of
     JsonBody v \<Rightarrow> header_of w ''Content-Type'' =
       Some (if wr_versioned w then versionMediaType @ ''; charset=utf-8'' else ''application/json; charset=utf-8'')
   | _ \<Rightarrow> True)"

definition contract_header :: "string \<Rightarrow> bool" where
  "contract_header k \<longleftrightarrow> k \<in> {''X-Request-ID'', ''X-NexDrop-API-Version'', ''X-NexDrop-Capabilities''}"

definition answer_ok :: "contractResponseWriter \<Rightarrow> contractResponseWriter \<Rightarrow> bool" where
  "answer_ok w w' \<longleftrightarrow> wr_requestID w' = wr_requestID w \<and> wr_versioned w' = wr_versioned w \<and>
     (\<forall>k. contract_header k \<longrightarrow> header_of w' k = header_of w k) \<and> (error_answer w' \<or> plain_answer w') \<and> json_type w'"

lemma header_of_set: "header_of (set_header k v w) k' = (if k' = k then Some v else header_of w k')"
proof -
  have "map_of (filter (\<lambda>h. fst h \<noteq> k) hs) k' = (if k' = k then None else map_of hs k')" for hs :: "(string \<times> string) list"
    by (induction hs) auto
  then show ?thesis by (simp add: header_of_def set_header_def map_add_def split: option.split)
qed

lemma header_of_more [simp]: "header_of (w\<lparr>wr_errorCode := c\<rparr>) k = header_of w k" "header_of (w\<lparr>wr_body := b\<rparr>) k = header_of w k"
  "header_of (w\<lparr>wr_status := s\<rparr>) k = header_of w k" "header_of (w\<lparr>wr_transferID := t\<rparr>) k = header_of w k"
  by (simp_all add: header_of_def)

lemma set_header_more [simp]: "wr_requestID (set_header k v w) = wr_requestID w" "wr_versioned (set_header k v w) = wr_versioned w"
  "wr_errorCode (set_header k v w) = wr_errorCode w" "wr_body (set_header k v w) = wr_body w" "wr_status (set_header k v w) = wr_status w"
  by (simp_all add: set_header_def)

lemmas answer_defs = answer_ok_def error_answer_def plain_answer_def json_type_def contract_header_def header_of_set fresh_def

lemma writeErrorDetails_ok: "400 \<le> status \<Longrightarrow> c \<noteq> '''' \<Longrightarrow> answer_ok w (writeErrorDetails status c details w)"
  by (auto simp: answer_defs writeErrorDetails_def writeJSON_def WriteHeader_def Let_def)

lemma writeError_ok [simp]: "400 \<le> status \<Longrightarrow> c \<noteq> '''' \<Longrightarrow> answer_ok w (writeError status c w)"
  by (simp add: writeError_def writeErrorDetails_ok)

lemma writeJSON_ok [simp]: "fresh w \<Longrightarrow> status \<in> {200, 201} \<Longrightarrow> \<not> is_error v \<Longrightarrow> answer_ok w (writeJSON status v w)"
  by (auto simp: answer_defs writeJSON_def WriteHeader_def Let_def)

lemma writeTransfer_ok [simp]:
  "fresh w \<Longrightarrow> status \<in> {200, 201} \<Longrightarrow> \<not> is_error v \<Longrightarrow> answer_ok w (writeJSON status v (w\<lparr>wr_transferID := t\<rparr>))"
  by (auto simp: answer_defs writeJSON_def WriteHeader_def Let_def)

lemma noContent_ok [simp]: "fresh w \<Longrightarrow> answer_ok w (noContent w)"
  by (auto simp: answer_defs noContent_def WriteHeader_def)

lemma writeDeviceError_ok [simp]: "answer_ok w (writeDeviceError e w)"
  by (cases e) simp_all

lemma writeGroupError_ok [simp]: "answer_ok w (writeGroupError e w)"
  by (cases e) simp_all

lemma writeTransferError_ok [simp]: "answer_ok w (writeTransferError e w)"
  by (cases e) simp_all

lemma writeFileError_ok [simp]: "answer_ok w (writeFileError e w)"
  by (cases e) simp_all

lemma writeAnalyticsError_ok [simp]: "answer_ok w (writeAnalyticsError e w)"
  by (cases e) simp_all

lemma retry_ok: "400 \<le> status \<Longrightarrow> c \<noteq> '''' \<Longrightarrow> answer_ok w (writeError status c (set_header ''Retry-After'' v w))"
  using writeError_ok [of status c "set_header ''Retry-After'' v w"]
  by (auto simp: answer_ok_def header_of_set contract_header_def)

lemma download_ok:
  "fresh w \<Longrightarrow> answer_ok w ((WriteHeader 200 (set_header ''ETag'' a (set_header ''Content-Length'' b
     (set_header ''Content-Type'' t w))))\<lparr>wr_body := Octets data\<rparr>)"
  by (auto simp: answer_defs WriteHeader_def)

lemma plain_ok: "fresh w \<Longrightarrow> status \<in> {404, 405} \<Longrightarrow> answer_ok w ((WriteHeader status w)\<lparr>wr_body := PlainText t\<rparr>)"
  by (auto simp: answer_defs WriteHeader_def)

definition contractual :: "handler \<Rightarrow> bool" where
  "contractual h \<longleftrightarrow> every (\<lambda>n w n' w'. fresh w \<longrightarrow> answer_ok w w') (\<lambda>_. True) h"

lemma contractualI:
  assumes "\<And>api dw r n w. fresh w \<Longrightarrow> answer_ok w (snd (h api dw r n w))"
  shows "contractual h"
  using assms by (simp add: contractual_def every_def)

lemma contractual_refusal: "refusal (\<lambda>n w n' w'. fresh w \<longrightarrow> answer_ok w w')"
  by (simp add: refusal_def)

lemma contractual_intros:
  "(\<And>session. contractual (rest session)) \<Longrightarrow> contractual (with_session rest)"
  "(\<And>request. contractual (rest' request)) \<Longrightarrow> contractual (with_body decode rest')"
  "(\<And>key. contractual (rest'' key)) \<Longrightarrow> contractual (with_key rest'')"
  "(\<And>a b. contractual (f a b)) \<Longrightarrow> contractual (case x of (a, b) \<Rightarrow> f a b)"
  "contractual h \<Longrightarrow> contractual (nodeKeyRequired h)"
  unfolding contractual_def by (simp_all add: every_intros contractual_refusal)

lemma transfer_answer_ok:
  assumes "fresh w" and "\<And>v. answer_ok w (reply v w)"
  shows "answer_ok w (snd (transfer_answer res reply n w))"
  using assms by (simp add: transfer_answer_def split: sum.split prod.split)

text \<open>The form of most handlers: an operation, then its error or its result.\<close>

lemma contractual_sessions:
  "list_all contractual [setupTOTP, enableTOTP, verifyAdmin, account, createDevice, listDevices, registerDeviceLANIdentity,
     renameDevice, deleteDevice, revokeDevice, createDeviceSessionChallenge, attachDeviceSession, createGroup, listGroups,
     getGroup, renameGroup, deleteGroup, addGroupMember, removeGroupMember, addGroupDevice, removeGroupDevice]"
  unfolding list.pred_inject setupTOTP_def enableTOTP_def verifyAdmin_def account_def createDevice_def listDevices_def
    registerDeviceLANIdentity_def renameDevice_def deleteDevice_def revokeDevice_def createDeviceSessionChallenge_def
    attachDeviceSession_def createGroup_def listGroups_def getGroup_def renameGroup_def deleteGroup_def addGroupMember_def
    removeGroupMember_def addGroupDevice_def removeGroupDevice_def
  by (intro conjI TrueI contractual_intros contractualI) (simp split: sum.split prod.split option.split)+

lemma contractual_transfers:
  "list_all contractual [createTransfer, listTransfers, getTransfer_handler, getTransferTimeline, reportTransferTimelineEvent,
     cancelTransfer, hideTransfer, readTransfer, reportTransferProgress, retryTransferTarget]"
  unfolding list.pred_inject createTransfer_def listTransfers_def getTransfer_handler_def getTransferTimeline_def
    reportTransferTimelineEvent_def cancelTransfer_def hideTransfer_def readTransfer_def reportTransferProgress_def
    retryTransferTarget_def
  by (intro conjI TrueI contractual_intros contractualI)
     (simp add: transfer_answer_ok page_json_def with_body_def split: sum.split prod.split option.split)+

lemma contractual_statistics:
  assumes "\<And>v. \<not> is_error (g v)"
  shows "contractual (withStatistics (\<lambda>api dw db session period. bindE (f api dw db session period) (\<lambda>v. Inr (g v))))"
  unfolding withStatistics_def using assms
  by (intro contractual_intros contractualI) (auto simp: bindE_eq_Inr split: option.split sum.split)

lemma contractual_others:
  "list_all contractual [version, login, refresh, logout, uploadChunk, downloadChunk, completeFile, uploadMetrics,
     statisticsOverview, statisticsTransfers, statisticsDevices, statisticsGroups, statisticsNode]"
proof -
  have "contractual login"
    by (rule contractualI) (auto simp: login_def Let_def split: option.split prod.split sum.split intro!: retry_ok)
  moreover have "contractual version"
    by (rule contractualI) (auto simp: version_def CapabilityUnavailableCode_def split: option.split intro!: writeErrorDetails_ok)
  moreover have "contractual downloadChunk" unfolding downloadChunk_def
    by (intro contractual_intros contractualI) (simp add: download_ok split: prod.split sum.split)
  moreover have "list_all contractual [statisticsOverview, statisticsTransfers, statisticsDevices, statisticsGroups, statisticsNode]"
    unfolding list.pred_inject statisticsOverview_def statisticsTransfers_def statisticsDevices_def statisticsGroups_def statisticsNode_def
    by (intro conjI TrueI contractual_statistics) simp_all
  moreover have "list_all contractual [refresh, logout, uploadChunk, completeFile, uploadMetrics]"
    unfolding list.pred_inject refresh_def logout_def uploadChunk_def completeFile_def uploadMetrics_def
    by (intro conjI TrueI contractual_intros contractualI) (simp split: sum.split prod.split option.split)+
  ultimately show ?thesis by simp
qed

lemma Routes_contractual: "list_all (\<lambda>(m, p, h). contractual h) Routes"
  unfolding Routes_def using contractual_sessions contractual_transfers contractual_others
  by (simp add: contractual_intros(5))

lemma contract_writer_simps:
  "fresh (contract_writer i r)" "wr_requestID (contract_writer i r) = i" "wr_versioned (contract_writer i r) = versioned_request r"
  "header_of (contract_writer i r) ''X-Request-ID'' = Some i"
  "header_of (contract_writer i r) ''X-NexDrop-API-Version'' = Some ''1''"
  "header_of (contract_writer i r) ''X-NexDrop-Capabilities'' =
     (if negotiated r = [] then None else Some (join_with '','' (negotiated r)))"
  by (simp_all add: contract_writer_def fresh_def header_of_set APIVersion_def Let_def) (simp add: header_of_def)

lemma serve_answer_ok:
  "answer_ok (contract_writer (newRequestID (dw_request dw) (dw_nanos dw)) r) (snd (serve api dw r n))"
proof -
  have "list_all (\<lambda>(m, p, h). method_matches m (ht_method r) \<longrightarrow> every (\<lambda>n w n' w'. fresh w \<longrightarrow> answer_ok w w') (\<lambda>_. True) h) Routes"
    using Routes_contractual unfolding contractual_def list_all_iff by fast
  from mux_every [OF this] show ?thesis
    using plain_ok contract_writer_simps(1) by (cases "serve api dw r n") (simp add: serve_def apiContract_def)
qed

text \<open>
  C16. Every answer of the API keeps its contract, whatever the request and whichever handler it reaches. It
  carries the identifier of the request, the version of the API and, when the client names any, the
  capabilities both sides support. It is either an error, with a status from 400 and with a code, whose body
  carries that code, and for clients of the versioned contract also the message, the identifier of the request
  and the details; or a result with status 200, 201 or 204 whose body is no error and which has no error code; or the
  multiplexer's answer to an unknown route. The content type of every JSON body tells the contract it follows.
\<close>

theorem answers_keep_contract:
  "let w' = snd (serve api dw r n); i = newRequestID (dw_request dw) (dw_nanos dw)
   in header_of w' ''X-Request-ID'' = Some i \<and> header_of w' ''X-NexDrop-API-Version'' = Some ''1'' \<and>
      header_of w' ''X-NexDrop-Capabilities'' = (if negotiated r = [] then None else Some (join_with '','' (negotiated r))) \<and>
      set (negotiated r) = set SupportedCapabilities \<inter> TrimSpace ` set (split_on CHR '','' (ht_header r ''X-NexDrop-Capabilities'')) \<and>
      wr_requestID w' = i \<and> wr_versioned w' = versioned_request r \<and> (error_answer w' \<or> plain_answer w') \<and> json_type w'"
proof -
  have "set (negotiated r) = set SupportedCapabilities \<inter> TrimSpace ` set (split_on CHR '','' (ht_header r ''X-NexDrop-Capabilities''))"
    
    using SupportedCapabilities_trimmed by (force simp: negotiated_def MutualCapabilities_eq list_all_iff)
  then show ?thesis
    using serve_answer_ok [where dw = dw and r = r and api = api and n = n] by (simp add: Let_def answer_ok_def contract_header_def contract_writer_simps)
qed

section \<open>A refusal that has changed the Node\<close>

text \<open>
  The operations on transfers read the transfer back after they have committed, without the transfers that
  its user has hidden. A sender who cancels a transfer that he has hidden is told that there is no such
  transfer, and it is cancelled; repeating the request, as after an error, is answered with 403.
\<close>

lemma cancel_targets_simps:
  "db_hidden (cancel_targets request t now db) = db_hidden db" "db_tasks (cancel_targets request t now db) = db_tasks db"
proof -
  have "db_hidden (fold (insertTransferTimelineEvent request) es x) = db_hidden x"
    "db_tasks (fold (insertTransferTimelineEvent request) es x) = db_tasks x" for es x
    by (induction es arbitrary: x) (simp_all add: insertTransferTimelineEvent_def)
  then show "db_hidden (cancel_targets request t now db) = db_hidden db" "db_tasks (cancel_targets request t now db) = db_tasks db"
    by (simp_all add: cancel_targets_def Let_def)
qed

lemma getTransfer_hidden: "is_hidden db t (usr_ID session) \<Longrightarrow> getTransfer db session t = Inl transfer_error.ErrNotFound"
  by (auto simp: getTransfer_def visible_def split: option.split dest!: find_SomeD)

lemma cancel_hidden_answers_404:
  assumes "bearer_session api dw r n = Some session" and "PathValue r ''id'' = t" and "t \<noteq> ''''"
    and "is_hidden (transfers_part n) t (usr_ID session)"
    and "list_ex (\<lambda>k. task_id k = t \<and> task_sender_user k = usr_ID session \<and> unfinished (task_status k)) (db_tasks (transfers_part n))"
  shows "\<exists>n'. cancelTransfer api dw r n w = (n', writeError 404 ''TRANSFER_NOT_FOUND'' w) \<and>
    list_ex (\<lambda>k. task_id k = t \<and> task_sender_user k = usr_ID session \<and> task_status k = TransferCancelled) (db_tasks (ft_db (nd_files n')))"
proof -
  let ?hit = "\<lambda>k. task_id k = t \<and> task_sender_user k = usr_ID session \<and> unfinished (task_status k)"
  let ?db = "transfers_part n"
  define db' where "db' = cancel_targets (wr_requestID w) t (dw_now dw)
    (?db\<lparr>db_tasks := update_where ?hit (\<lambda>k. k\<lparr>task_status := TransferCancelled\<rparr>) (db_tasks ?db)\<rparr>)"
  have "is_hidden db' t (usr_ID session)"
    using assms(4) by (simp add: db'_def is_hidden_def cancel_targets_simps)
  then have cancelled: "CancelTransfer (wr_requestID w) ?db session t (dw_now dw) = (db', Inl transfer_error.ErrNotFound)"
    using assms(5) by (simp add: CancelTransfer_def db'_def Let_def getTransfer_hidden)
  have "cancelTransfer api dw r n w = (put_transfers db' n, writeError 404 ''TRANSFER_NOT_FOUND'' w)"
    using assms(1-3) cancelled by (simp add: cancelTransfer_def with_session_bearer Cancel_def transfer_answer_def)
  moreover have "list_ex (\<lambda>k. task_id k = t \<and> task_sender_user k = usr_ID session \<and> task_status k = TransferCancelled) (db_tasks db')"
  proof -
    obtain k where k: "k \<in> set (db_tasks ?db)" "?hit k" using assms(5) by (auto simp: list_ex_iff)
    then have "k\<lparr>task_status := TransferCancelled\<rparr> \<in> set (db_tasks db')"
      by (force simp: db'_def cancel_targets_simps update_where_def)
    then show ?thesis using k(2) by (auto simp: list_ex_iff intro!: bexI [of _ "k\<lparr>task_status := TransferCancelled\<rparr>"])
  qed
  ultimately show ?thesis by (intro exI [of _ "put_transfers db' n"]) (simp add: put_transfers_def)
qed

end
