(* ===== verification/ApiExamples.thy ===== *)
theory ApiExamples
  imports ApiSafety Challenges
begin

text \<open>
  A Node with one user, two sessions and one trusted device, and requests to its API: the claims of
  \<open>ApiSafety\<close> evaluated on them.
\<close>

definition demo_library :: Library where
  "demo_library = \<lparr>lib_sha256 = (\<lambda>s. s), lib_hmac = (\<lambda>k s. k @ s), lib_parse_time = (\<lambda>s. None), lib_format_nano = sample_format,
     lib_parse_nano = sample_parse, lib_date_text = (\<lambda>d. ''day''), lib_splitHostPort = (\<lambda>s. None), lib_path_escape = (\<lambda>s. s),
     lib_query_escape = (\<lambda>s. s), lib_marshal_request = (\<lambda>r. Some ''json''), lib_marshal_metrics = (\<lambda>m. Some ''json''),
     lib_hash_progress = (\<lambda>p. ''hash''), lib_hash_report = (\<lambda>p. ''hash''), js_refresh = Some, js_login = (\<lambda>s. Some (s, s, s)),
     js_password = Some, js_totp = (\<lambda>s. Some (s, s, s)), js_verify = (\<lambda>s. Some (s, s)),
     js_device = (\<lambda>s. Some (s, TypeAndroid, s, s)), js_certificate = Some, js_displayName = Some, js_attach = (\<lambda>s. Some (''c'', s)),
     js_name = Some, js_member = (\<lambda>s. Some (s, RoleMember)), js_group_device = Some, js_transfer = (\<lambda>s. None),
     js_report = (\<lambda>s. None), js_progress = (\<lambda>s. None), js_metrics = (\<lambda>s. None)\<rparr>"

definition demo_api :: API where
  "demo_api = \<lparr>api_auth = \<lparr>svc_accessTTL = 15 * minute, svc_refreshTTL = 720 * hour, svc_sha256 = (\<lambda>t. t),
       svc_hmac_sha1 = (\<lambda>k s. s), svc_bcrypt = (\<lambda>h p. h = p), svc_lower = (\<lambda>s. s), svc_upper = (\<lambda>s. s)\<rparr>,
     api_crypto = out_crypto demo_outside, api_x509 = out_x509 demo_outside, api_root = ''/data'', api_loginLimit = 10,
     api_cursorKey = ''key'', api_nodeKey = '''', api_build = (''4.0'', ''commit'', ''''), api_lib = demo_library\<rparr>"

definition demo_draws :: Draws where
  "demo_draws = \<lparr>dw_now = 5, dw_token1 = None, dw_token2 = None, dw_newID = ''new'',
     dw_ids = \<lparr>new_transfer = ''t'', new_file = (\<lambda>i. ''f''), new_execution = (\<lambda>i. ''e'')\<rparr>, dw_ephemeral = None, dw_nonce = None,
     dw_totp = None, dw_temp = ''tmp'', dw_fault = NoFault, dw_request = None, dw_nanos = 7\<rparr>"

text \<open>The session \<open>''a''\<close> acts for the device \<open>''d''\<close>, the session \<open>''s''\<close> for none; tokens are their identifiers.\<close>

definition demo_node :: node where
  "demo_node = \<lparr>
     nd_db = \<lparr>db_users = [\<lparr>u_id = ''u'', u_username = ''u'', u_email = ''u'', u_password_hash = ''pw'', u_totp_secret = None,
         u_is_admin = False, u_disabled_at = None\<rparr>],
       db_sessions = [demo_session_row ''s'' None, demo_session_row ''a'' (Some ''d'')],
       ddb_devices = [demo_device ''d'' TrustTrusted],
       ddb_keys = [\<lparr>dk_device = ''d'', dk_public_key = ''key'', dk_algorithm = ''X25519''\<rparr>], ddb_lan = [], ddb_connections = [],
       ddb_challenges = [fresh_challenge ''c'' ''d'' ''s'' (replicate 32 CHR ''x'') 100 1], ddb_codes = [], ddb_referenced = [],
       gdb_groups = [], gdb_members = [], gdb_devices = [], gdb_referenced = [], adb_metrics = [], adb_batches = [], adb_system = []\<rparr>,
     nd_files = \<lparr>ft_db = demo_transfers, ft_chunks = []\<rparr>, nd_disk = (\<lambda>p. None), nd_windows = (\<lambda>k. None)\<rparr>"

definition demo_http :: "string \<Rightarrow> string list \<Rightarrow> string \<Rightarrow> string \<Rightarrow> HttpRequest" where
  "demo_http m p authorization body = \<lparr>ht_method = m, ht_path = p, ht_query = [],
     ht_header = (\<lambda>k. if k = ''Authorization'' then authorization else ''''), ht_body = \<lparr>rd_data = body, rd_fails = False\<rparr>,
     ht_remote = ''1.2.3.4'', ht_values = (\<lambda>k. '''')\<rparr>"

lemmas api_demo_defs = demo_api_def demo_library_def demo_draws_def demo_node_def demo_http_def demo_defs

theorem sessions_required_witness:
  "\<exists>w'. serve demo_api demo_draws (demo_http ''DELETE'' [''api'', ''devices'', ''d''] ''Basic a'' '''') demo_node = (demo_node, w') \<and>
    wr_status w' \<in> {401, 404, 405}"
proof -
  let ?r = "demo_http ''DELETE'' [''api'', ''devices'', ''d''] ''Basic a'' ''''"
  have "ht_path ?r \<notin> set public_routes" by (simp add: demo_http_def public_routes_def)
  moreover have "bearer_session demo_api demo_draws ?r demo_node = None"
    by (simp add: bearer_session_def demo_http_def HasPrefix_def)
  ultimately show ?thesis
    using sessions_required [of ?r demo_api demo_draws demo_node] by (auto simp: Let_def WriteHeader_def)
qed

definition demo_revoke :: HttpRequest where
  "demo_revoke = demo_http ''POST'' [''api'', ''devices'', ''d'', ''revoke''] ''Bearer a'' ''''"

definition demo_attach :: HttpRequest where
  "demo_attach = demo_http ''POST'' [''api'', ''devices'', ''d'', ''attach-session''] ''Bearer s'' (replicate 32 CHR ''x'')"

lemma demo_bearer:
  "bearer_session demo_api demo_draws (demo_http m p ''Bearer a'' body) demo_node = Some (demo_session ''a'' (Some ''d''))"
  "bearer_session demo_api demo_draws (demo_http m p ''Bearer s'' body) demo_node = Some (demo_session ''s'' None)"
proof -
  have "TrimSpace ''a'' = ''a''" "TrimSpace ''s'' = ''s''" by (simp_all add: TrimSpace_solid solid_def)
  moreover have "HasPrefix (''Bearer '' @ t) ''Bearer ''" "TrimPrefix (''Bearer '' @ t) ''Bearer '' = t" for t
    by (simp_all add: HasPrefix_def TrimPrefix_def)
  from this [of "''a''"] this [of "''s''"] have "HasPrefix ''Bearer a'' ''Bearer ''" "HasPrefix ''Bearer s'' ''Bearer ''"
    "TrimPrefix ''Bearer a'' ''Bearer '' = ''a''" "TrimPrefix ''Bearer s'' ''Bearer '' = ''s''" by simp_all
  ultimately show
    "bearer_session demo_api demo_draws (demo_http m p ''Bearer a'' body) demo_node = Some (demo_session ''a'' (Some ''d''))"
    "bearer_session demo_api demo_draws (demo_http m p ''Bearer s'' body) demo_node = Some (demo_session ''s'' None)"
    by (simp_all add: bearer_session_def Authenticate_def SessionByAccessToken_def users_part_def auth_db.truncate_def session_open_def
        session_view_def api_demo_defs)
qed

lemma demo_revoke_ok: "wr_status (snd (serve demo_api demo_draws demo_revoke demo_node)) = 200"
proof -
  have "device_request ''d'' ''revoke'' demo_revoke" by (simp add: device_request_def demo_revoke_def demo_http_def)
  moreover have "\<exists>x v. Revoke_device (demo_session ''a'' (Some ''d'')) ''d'' (dw_now demo_draws) (devices_part demo_node) = Inr (x, v)"
    by (simp add: Revoke_device_def RevokeDevice_def update_device_def key_of_def devices_part_def device_db.truncate_def api_demo_defs)
  ultimately show ?thesis
    using demo_bearer(1) by (auto simp: serve_revoke revokeDevice_def with_session_bearer PathValue_def demo_revoke_def)
qed

text \<open>Before the revocation the same request attaches the session.\<close>

lemma demo_attach_ok: "wr_status (snd (serve demo_api demo_draws demo_attach demo_node)) = 204"
proof -
  have "device_request ''d'' ''attach-session'' demo_attach" by (simp add: device_request_def demo_attach_def demo_http_def)
  moreover have "snd (AttachSession (api_crypto demo_api) (demo_session ''s'' None) ''d'' ''c'' (replicate 32 CHR ''x'') (dw_now demo_draws)
      (devices_part demo_node)) = Inr ()"
    by (simp add: AttachSession_def RedeemDeviceSessionChallenge_def attachable_def trusted_def open_session_def maximumChallengeAttempts_def
        devices_part_def device_db.truncate_def api_demo_defs)
  moreover have "decodeJSON (js_attach (api_lib demo_api)) (demo_attach\<lparr>ht_values := vs\<rparr>) = Some (''c'', replicate 32 CHR ''x'')" for vs
    by (simp add: decodeJSON_def maximumJSONBodySize_def demo_attach_def demo_api_def demo_library_def demo_http_def)
  ultimately show ?thesis
    using demo_bearer(2)
    by (auto simp: serve_attach attachDeviceSession_def with_session_bearer with_body_def PathValue_def demo_attach_def split: prod.split sum.split)
qed

theorem revoked_device_shut_out_witness:
  "400 \<le> wr_status (snd (serve demo_api demo_draws demo_attach
     (serve_all demo_api [(demo_draws, demo_http ''GET'' [''api'', ''devices''] ''Bearer s'' '''')]
       (fst (serve demo_api demo_draws demo_revoke demo_node)))))"
proof -
  let ?n1 = "fst (serve demo_api demo_draws demo_revoke demo_node)" and ?w1 = "snd (serve demo_api demo_draws demo_revoke demo_node)"
  let ?reqs = "[(demo_draws, demo_http ''GET'' [''api'', ''devices''] ''Bearer s'' '''')]"
  have "distinct (map dr_id (ddb_devices (nd_db demo_node)))" by (simp add: demo_node_def)
  moreover have "device_request ''d'' ''revoke'' demo_revoke" "device_request ''d'' ''attach-session'' demo_attach"
    by (simp_all add: device_request_def demo_revoke_def demo_attach_def demo_http_def)
  moreover have "list_all (\<lambda>(dw, r). dw_newID dw \<noteq> ''d'') ?reqs" by (simp add: demo_draws_def)
  ultimately show ?thesis
    using revoked_device_shut_out [of demo_node "''d''" demo_revoke demo_api demo_draws ?n1 ?w1 ?reqs, OF _ _ _ demo_revoke_ok]
    by (metis prod.collapse)
qed

end
