(* ===== verification/Spec2Isabelle.thy ===== *)
theory Spec2Isabelle
  imports Domain Adaptive Delivery MessageLifecycle Folder Auth FileHistory Version Recovery Relay Enrollment Challenges DeviceGroups Cleaner Presence Analytics ApiRequests TargetLife Backup Envelope Racer Lan DesktopBridge ApiExamples
begin

text \<open>
  A verified model of the core of NexDrop, a self-hosted system that moves files and messages
  between a user's devices over the local network or through a Node. The Go sources are under
  \<open>internal/\<close> and \<open>cmd/\<close>; every definition keeps the name of the function or type it models
  (record fields get a short prefix, names that clash with the library a suffix).

  \<^bold>\<open>The program and its parts.\<close> A sending device asks the Node to create a transfer
  (\<open>internal/transfer\<close>), which chooses a route for every target (\<open>internal/domain\<close>) and stores it
  in PostgreSQL (\<open>internal/postgres\<close>). Files that go through the Node are uploaded chunk by chunk
  and completed (\<open>internal/filetransfer\<close>); the targets' statuses move along a state machine as
  devices report progress. Sessions, logins and one-time passwords guard every operation
  (\<open>internal/auth\<close>); clients reach the services through the handlers of the HTTP API
  (\<open>internal/api\<close>), and in the local network each other (\<open>internal/lan\<close>). Around this core stand pure policies: chunk tuning (\<open>internal/adaptive\<close>),
  offline delivery (\<open>internal/delivery\<close>), message history and retention
  (\<open>internal/messagelifecycle\<close>) and folder manifests (\<open>internal/folder\<close>). Devices are registered,
  attached to sessions and revoked (\<open>internal/device\<close>, \<open>internal/pairing\<close>), shared in groups
  (\<open>internal/group\<close>), whose devices are targets of transfers; interrupted transfers are picked up
  again by the recovery coordinator (\<open>internal/recovery\<close>).

  \<^bold>\<open>The theories.\<close>
  \<^item> Prelude: results of Go functions as sums (\<open>Inl\<close> the error), 64-bit integers with
    their wrap-around (\<open>i64\<close>), Go division, instants and durations in nanoseconds.
  \<^item> StableSort: \<open>sort.SliceStable\<close>, the contract of a comparator (locale \<open>stable_order\<close>) and of one
    that orders by a key (\<open>keyed_order\<close>, \<open>keyed_order_desc\<close>): sortedness, stability, permutation.
  \<^item> GoStrings, Encoding, Paths: the parts of \<open>strings\<close>, \<open>strconv\<close>, \<open>hex\<close>, \<open>base64\<close>, \<open>path\<close> and
    \<open>filepath\<close> that the sources call, with the round trips and the shape of cleaned paths.
  \<^item> SignedToken: payload and HMAC signature joined by dots; the locale \<open>sealing\<close> is the contract
    that what is sealed, and nothing else, can be opened. HMAC and JSON are parameters.
  \<^item> Tables: \<open>UPDATE ... WHERE\<close> and single-row queries on lists of rows, and the contract of
    \<open>INSERT ... ON CONFLICT DO NOTHING\<close> (locale \<open>first_write\<close>).
  \<^item> Domain (\<open>internal/domain\<close>): channel states, \<open>SelectRoute\<close>, the transfer statuses and their
    transitions; which statuses can still end, and that delivery follows verification.
  \<^item> Adaptive (\<open>internal/adaptive/profile.go\<close>): floats as rationals with infinities and NaN;
    recommendations end within the limits and back off under failures.
  \<^item> Delivery (\<open>internal/delivery/policy.go\<close>): when an item is delivered, and the order of a queue.
  \<^item> MessageLifecycle (\<open>internal/messagelifecycle/lifecycle.go\<close>): paging through a history visits
    every message once, cursors and tombstones round-trip, read positions converge, retention.
  \<^item> Folder (\<open>internal/folder/manifest.go\<close>): normalised paths stay inside the root, validated
    manifests have no collisions, selections keep exactly the accepted entries and their parents.
  \<^item> Auth (\<open>internal/auth/service.go\<close> and the session queries of \<open>internal/postgres/store.go\<close>):
    logins, refresh with rotation, logout, one-time passwords, over tables with the invariant
    \<open>auth_ok\<close>.
  \<^item> TransferService (\<open>internal/transfer\<close>): request validation, route per file and target, the
    guards of progress reports, event codes, over a store given as a parameter.
  \<^item> TransferTables, TransferStore, TransferProgress (\<open>internal/postgres/store.go\<close>): the rows, the
    queries, creation with quotas, progress, retry, cancellation, hiding, reading, timeline and
    idempotency records. An operation maps the tables to the tables after it and a result.
  \<^item> TransferHistory: the step relation \<open>store_step\<close> over all these operations, the key and foreign
    key invariant \<open>targets_ok\<close>, how target rows evolve, replayed reports.
  \<^item> FileManifest (\<open>internal/filetransfer/manifest.go\<close>): the reading loop as a partial function,
    equal to a reference that cuts a list into pieces; verified pieces reassemble the file.
  \<^item> FileStore, FileTransfer (\<open>internal/filetransfer/service.go\<close>, the file operations of
    \<open>internal/postgres/store.go\<close>): uploads and completion over tables and a disk, with every failing
    system call; the invariant \<open>store_ok\<close>, and the refinement of an abstract map from file and index
    to bytes.
  \<^item> FileHistory: file operations among the others: overlapping completions, completion after
    cancellation, and the examples the witnesses evaluate.
  \<^item> Version (\<open>internal/version/compatibility.go\<close>): protocol ranges, the registry of capabilities and
    their negotiation, which does not depend on the order of the parties.
  \<^item> Recovery (\<open>internal/recovery/coordinator.go\<close>): passes of the coordinator over leased work, against
    a store and a runner that may answer anything at every call (\<open>RecoveryEnv\<close>); how every item is
    settled, the exact backoff, and where it overflows.
  \<^item> Relay (\<open>internal/relay/pool.go\<close>), Enrollment (\<open>internal/enrollment/service.go\<close>): selection of a
    relay by its score, signed grants, and one-time enrollment tokens over any store.
  \<^item> Devices (\<open>internal/device\<close>, \<open>internal/pairing\<close>, \<open>internal/postgres/device_session.go\<close> and the
    device operations of \<open>internal/postgres/store.go\<close>): devices, keys, LAN identities, challenges
    and pairing codes over the record \<open>device_db\<close>, which extends the tables of Auth.
  \<^item> DeviceHistory: histories of these operations and of logins; revoking a device is final.
  \<^item> Challenges: the contract of a challenge with a bounded number of attempts (locale
    \<open>bounded_attempts\<close>), interpreted for session challenges and for pairing codes.
  \<^item> DeviceGroups (\<open>internal/group\<close> and its operations in \<open>internal/postgres/store.go\<close>): the invariant
    \<open>groups_ok\<close>, one owner per group, who may change a membership, and what removing a member leaves.
  \<^item> Cleaner (\<open>internal/maintenance/cleaner.go\<close> and its store operations): passes that remove
    expired files stay below the storage root and refine a removal from the map of stored chunks;
    they also take back deliveries.
  \<^item> Presence (\<open>internal/presence/hub.go\<close> and its store operations): the hub of live connections as a
    machine of atomic steps of handlers and writers (\<open>hub_step\<close>, \<open>hub_run\<close>), with the invariant
    \<open>hub_ok\<close>; which notifications reach a device, and which never do.
  \<^item> Analytics (\<open>internal/analytics/service.go\<close> and its store operations): uploads of metrics keep the
    rows well formed and may be repeated, the statistics agree with each other, and metrics about
    devices of others break the statistics of their owners.
  \<^item> ApiRequests (\<open>internal/api/rate_limit.go\<close>, \<open>request.go\<close>, \<open>cursor.go\<close>): the limiter of logins and how many
    pass in a minute, idempotency keys, and signed cursors.
  \<^item> Admin (\<open>internal/admin/service.go\<close>, \<open>internal/postgres/admin.go\<close>): the operations of administrators over
    all tables (\<open>admin_db\<close>). No HTTP route reaches most of them: \<open>main.go\<close> uses \<open>Bootstrap\<close> and
    \<open>ResetPasswordByIdentifier\<close>.
  \<^item> AdminAudit, AdminContent: every administration is audited, some administrator stays, except when he
    disables himself in another spelling or two disable each other at the same time; the pages of the audit log; the overview of the storage, and what
    deleting content leaves on the disk.
  \<^item> TargetLife: runs of all operations on transfers and files as lists of states; a delivery is traced back to
    the reports that led to it.
  \<^item> Backup (\<open>internal/backup/service.go\<close>, \<open>internal/postgres/backup.go\<close>): archives stay inside their directories
    whatever their names and however the extraction ends, restore what was backed up, and keep revocations, except of
    deleted devices and when the protection itself fails.
  \<^item> Envelope (\<open>internal/secure/envelope.go\<close>): the key derivation is HKDF of RFC 5869, and envelopes open again.
  \<^item> Floats: arithmetic of \<open>float64\<close> with the rounding of IEEE 754, which is executable; rounding and the operations
    are monotone, and sorting by a score with ties broken by a second comparison.
  \<^item> Racer (\<open>internal/routing/racer.go\<close>): the race of candidate routes tries every usable candidate, its winner does
    not depend on the order of the results.
  \<^item> Lan (\<open>internal/lan\<close>): advertisements survive their transport, peers are pinned by the digests of their
    certificates, only whole chunks reach the store, and client and server agree on the wire.
  \<^item> NativeBridge, DesktopBridge (\<open>internal/nativebridge\<close>, \<open>internal/desktopbridge\<close>,
    \<open>cmd/nexdrop-desktop-service/main.go\<close>): frames of native messaging and a session of them; the desktop
    service as a machine of requests, whose pairing codes are guessed at most four times in vain, whose queue only takes
    validated shares of clients with a token, and what reaches it from the browser.
  \<^item> ApiWriter (\<open>internal/api/response.go\<close>, \<open>contract.go\<close>), ApiNode, ApiHandlers (\<open>internal/api/api.go\<close>,
    \<open>device_session.go\<close>): the answer a handler writes, error bodies of both contracts, one Node (\<open>node\<close>) with the
    tables, the disk and the limiter of all services, authentication, every handler, the table of routes and the
    contract around them (\<open>serve\<close>); a second factor set up by a user can be enabled by him.
  \<^item> ApiSafety, ApiExamples: claims over all routes. Nobody is served without a session, a revoked device is shut
    out whatever requests follow, every answer keeps the contract; a cancellation that is answered with 404.

  \<^bold>\<open>Abstractions.\<close> Strings and byte slices are lists of 8-bit characters. Enumerations of
  strings are datatypes with a constructor for every other string. An operation reads the clock
  once; SQL statements see tables as lists of rows with the unique columns as stated in the
  invariants; a transaction that fails leaves the tables unchanged, and a database that cannot be
  reached is not modelled. SHA-256, HMAC, bcrypt, JSON encoding, randomness and Unicode case mapping
  are parameters; a theorem that needs a law of one of them (injectivity, length of a digest) names
  it as a hypothesis. The JSON text of an answer is its value, and durations and logs are left out.

  \<^bold>\<open>Bounds and termination.\<close> No definition needs fuel: the loops of the sources are
  structural recursions, recursions with a measure, or partial functions whose termination is part
  of a theorem (reading a manifest, fitting a profile into a memory budget). Integers that can
  overflow are wrapped explicitly.

  \<^bold>\<open>Not modelled.\<close> The sampling of system metrics and logging, which only observe; the wiring of the
  commands and their load generator; the embedded static files, database migrations and the injection of
  failures, which serves tests. The Flutter client and the browser extension are not Go.
\<close>

end
